(* ===== verification/Prelude.thy ===== *)
theory Prelude
  imports
    "HOL-Library.Word"
    "HOL-Library.Char_ord"
    "HOL-Library.List_Lexorder"
    "HOL-Library.Product_Lexorder"
begin

text \<open>
  Shared vocabulary of the development: the machine integer types, result values with early
  return, loops with early return, decimal printing, and the generic lemmas the component
  theories use through the collections declared here.

  A \<^verbatim>\<open>std::string\<close> is a byte string; it is modelled by \<^typ>\<open>string\<close>, whose characters are
  8-bit values. \<^verbatim>\<open>Result<T>\<close> and \<^verbatim>\<open>VoidResult\<close> are sums: \<open>Inl\<close> carries the failure, \<open>Inr\<close>
  the value, and the C++ idiom \<^verbatim>\<open>if (!r.ok()) return r.status();\<close> is \<open>rbind\<close>.
\<close>

unbundle bit_operations_syntax

named_theorems ok_simps \<open>inversion of successful results\<close>
named_theorems wire_simps \<open>decoding what was just encoded\<close>
named_theorems frame_simps \<open>fields an operation leaves alone\<close>

type_synonym u8 = "8 word"
type_synonym u16 = "16 word"
type_synonym u32 = "32 word"
type_synonym u64 = "64 word"

section \<open>Results with early return\<close>

definition rbind :: "'e + 'a \<Rightarrow> ('a \<Rightarrow> 'e + 'b) \<Rightarrow> 'e + 'b" where
  "rbind r f = (case r of Inl e \<Rightarrow> Inl e | Inr x \<Rightarrow> f x)"

lemma rbind_simps [simp]:
  "rbind (Inl e) f = Inl e"
  "rbind (Inr x) f = f x"
  by (simp_all add: rbind_def)

lemma rbind_eq_Inr [ok_simps]: "rbind r f = Inr y \<longleftrightarrow> (\<exists>x. r = Inr x \<and> f x = Inr y)"
  by (cases r) simp_all

lemma rbind_cong [fundef_cong]:
  "r = r' \<Longrightarrow> (\<And>x. r' = Inr x \<Longrightarrow> f x = g x) \<Longrightarrow> rbind r f = rbind r' g"
  by (cases r') simp_all

lemma if_Inl_eq_Inr [ok_simps]: "(if c then Inl e else r) = Inr x \<longleftrightarrow> \<not> c \<and> r = Inr x"
  by simp

lemma if_Inr_eq_Inr [ok_simps]: "(if c then r else Inl e) = Inr x \<longleftrightarrow> c \<and> r = Inr x"
  by simp

lemma case_option_Inl_eq_Inr [ok_simps]:
  "(case m of None \<Rightarrow> Inl e | Some y \<Rightarrow> f y) = Inr x \<longleftrightarrow> (\<exists>y. m = Some y \<and> f y = Inr x)"
  by (cases m) simp_all

lemma case_sum_Inl_eq_Inr [ok_simps]:
  "(case r of Inl e \<Rightarrow> Inl (h e) | Inr y \<Rightarrow> f y) = Inr x \<longleftrightarrow> (\<exists>y. r = Inr y \<and> f y = Inr x)"
  by (cases r) simp_all

text \<open>A \<^verbatim>\<open>for\<close> loop over a container whose body may return early with an error.\<close>

fun for_each :: "('a \<Rightarrow> 's \<Rightarrow> 'e + 's) \<Rightarrow> 'a list \<Rightarrow> 's \<Rightarrow> 'e + 's" where
  "for_each body [] s = Inr s"
| "for_each body (x # xs) s = rbind (body x s) (for_each body xs)"

lemma for_each_append:
  "for_each body (xs @ ys) s = rbind (for_each body xs s) (for_each body ys)"
  by (induction xs arbitrary: s) (auto simp: rbind_def split: sum.splits)

lemma for_each_invariant:
  assumes "for_each body xs s = Inr t" and "P s"
    and "\<And>x s t. x \<in> set xs \<Longrightarrow> P s \<Longrightarrow> body x s = Inr t \<Longrightarrow> P t"
  shows "P t"
  using assms by (induction xs arbitrary: s) (auto simp: ok_simps)

text \<open>A loop that collects the elements it has seen and refuses a repetition.\<close>

lemma for_each_collect:
  assumes "for_each body xs seen = Inr seen'"
    and "\<And>x s t. body x s = Inr t \<Longrightarrow> ok x \<and> x \<notin> s \<and> t = insert x s"
  shows "distinct xs \<and> set xs \<inter> seen = {} \<and> (\<forall>x \<in> set xs. ok x)"
  using assms(1) by (induction xs arbitrary: seen) (fastforce simp: ok_simps dest!: assms(2))+

text \<open>The loops of the source that only check, and keep no state.\<close>

definition for_all_ok :: "('a \<Rightarrow> 'e + unit) \<Rightarrow> 'a list \<Rightarrow> 'e + unit" where
  "for_all_ok check xs = for_each (\<lambda>x _. check x) xs ()"

lemma for_all_ok_simps [simp]:
  "for_all_ok check [] = Inr ()"
  "for_all_ok check (x # xs) = rbind (check x) (\<lambda>_. for_all_ok check xs)"
  by (simp_all add: for_all_ok_def rbind_def split: sum.splits)

lemma for_all_ok_eq_Inr [ok_simps]:
  "for_all_ok check xs = Inr u \<longleftrightarrow> (\<forall>x \<in> set xs. check x = Inr ())"
  by (induction xs) (auto simp: ok_simps)

section \<open>Text\<close>

text \<open>String concatenation with \<^verbatim>\<open>operator+\<close>; kept folded by the simplifier.\<close>

definition cat :: "string list \<Rightarrow> string" where
  "cat parts = concat parts"

text \<open>A name between single quotes, as the messages print identifiers.\<close>

definition quoted :: "string \<Rightarrow> string" where
  "quoted s = CHR 0x27 # s @ [CHR 0x27]"

definition digit_char :: "nat \<Rightarrow> char" where
  "digit_char d = char_of (48 + d)"

text \<open>\<^verbatim>\<open>std::to_string\<close> of an unsigned value.\<close>

fun to_dec :: "nat \<Rightarrow> string" where
  "to_dec n = (if n < 10 then [digit_char n] else to_dec (n div 10) @ [digit_char (n mod 10)])"

declare to_dec.simps [simp del]

abbreviation u_dec :: "'a::len word \<Rightarrow> string" where
  "u_dec w \<equiv> to_dec (unat w)"

section \<open>Lists\<close>

lemma sorted_wrt_less_distinct: "sorted_wrt (<) (xs :: 'a::linorder list) \<Longrightarrow> distinct xs"
  by (induction xs) auto

lemma filter_split_length: "length (filter P xs) + length (filter (\<lambda>x. \<not> P x) xs) = length xs"
  by (induction xs) auto

text \<open>The position of the first element equal to \<open>x\<close>, as \<^verbatim>\<open>std::find\<close> and
  \<^verbatim>\<open>std::distance\<close> give it.\<close>

fun find_index :: "'a \<Rightarrow> 'a list \<Rightarrow> nat option" where
  "find_index x [] = None"
| "find_index x (y # ys) = (if y = x then Some 0 else map_option Suc (find_index x ys))"

lemma find_index_None: "find_index x xs = None \<longleftrightarrow> x \<notin> set xs"
  by (induction xs) auto

lemma find_index_Some: "find_index x xs = Some i \<Longrightarrow> i < length xs \<and> xs ! i = x"
  by (induction xs arbitrary: i) (auto split: if_splits)

text \<open>\<^verbatim>\<open>std::lower_bound\<close> followed by \<^verbatim>\<open>insert\<close>: before the first element not below \<open>x\<close>.\<close>

fun lower_bound_insert :: "'a::linorder \<Rightarrow> 'a list \<Rightarrow> 'a list" where
  "lower_bound_insert x [] = [x]"
| "lower_bound_insert x (y # ys) = (if y < x then y # lower_bound_insert x ys else x # y # ys)"

lemma set_lower_bound_insert [simp]: "set (lower_bound_insert x xs) = insert x (set xs)"
  by (induction xs) auto

lemma sorted_lower_bound_insert: "sorted xs \<Longrightarrow> sorted (lower_bound_insert x xs)"
  by (induction xs) auto

lemma strict_sorted_lower_bound_insert:
  "sorted_wrt (<) xs \<Longrightarrow> x \<notin> set xs \<Longrightarrow> sorted_wrt (<) (lower_bound_insert x xs)"
  by (induction xs) auto

end
