(* ===== verification/OrderedMap.thy ===== *)
theory OrderedMap
  imports Prelude
begin

text \<open>
  \<^verbatim>\<open>std::map\<close> as the authoritative image uses it: a container iterated in ascending key order,
  with \<^verbatim>\<open>find\<close>, assignment through \<^verbatim>\<open>operator[]\<close>, \<^verbatim>\<open>emplace\<close> and in-place update of the mapped
  values. The model is the list of entries in iteration order. The locale \<open>keyed_store\<close> is the
  interface the components rely on, and its interpretation at the end discharges it.
\<close>

type_synonym ('k, 'v) omap = "('k \<times> 'v) list"

definition om_find :: "('k, 'v) omap \<Rightarrow> 'k \<Rightarrow> 'v option" where
  "om_find m k = map_of m k"

definition om_has :: "('k, 'v) omap \<Rightarrow> 'k \<Rightarrow> bool" where
  "om_has m k \<longleftrightarrow> om_find m k \<noteq> None"

fun om_put :: "'k::linorder \<Rightarrow> 'v \<Rightarrow> ('k, 'v) omap \<Rightarrow> ('k, 'v) omap" where
  "om_put k v [] = [(k, v)]"
| "om_put k v ((a, b) # m) =
     (if k < a then (k, v) # (a, b) # m
      else if k = a then (k, v) # m
      else (a, b) # om_put k v m)"

definition om_emplace :: "'k::linorder \<Rightarrow> 'v \<Rightarrow> ('k, 'v) omap \<Rightarrow> ('k, 'v) omap" where
  "om_emplace k v m = (case om_find m k of None \<Rightarrow> om_put k v m | Some _ \<Rightarrow> m)"

definition om_update_all :: "('k \<Rightarrow> 'v \<Rightarrow> 'v) \<Rightarrow> ('k, 'v) omap \<Rightarrow> ('k, 'v) omap" where
  "om_update_all f m = map (\<lambda>(k, v). (k, f k v)) m"

definition om_wf :: "('k::linorder, 'v) omap \<Rightarrow> bool" where
  "om_wf m \<longleftrightarrow> sorted_wrt (<) (map fst m)"

section \<open>The interface\<close>

text \<open>
  What the registries of the fabric promise: a lookup after an assignment, the effect of an
  in-place update on lookups, iteration over exactly the entries that can be looked up, and the
  element count used for the population bounds.
\<close>

locale keyed_store =
  fixes find :: "'m \<Rightarrow> 'k::linorder \<Rightarrow> 'v option"
    and put :: "'k \<Rightarrow> 'v \<Rightarrow> 'm \<Rightarrow> 'm"
    and update_all :: "('k \<Rightarrow> 'v \<Rightarrow> 'v) \<Rightarrow> 'm \<Rightarrow> 'm"
    and entries :: "'m \<Rightarrow> ('k \<times> 'v) list"
    and invar :: "'m \<Rightarrow> bool"
  assumes find_put: "find (put k v m) = (find m)(k \<mapsto> v)"
    and find_update_all: "find (update_all f m) k = map_option (f k) (find m k)"
    and entries_find: "invar m \<Longrightarrow> (k, v) \<in> set (entries m) \<longleftrightarrow> find m k = Some v"
    and entries_sorted: "invar m \<Longrightarrow> sorted_wrt (<) (map fst (entries m))"
    and invar_put: "invar m \<Longrightarrow> invar (put k v m)"
    and invar_update_all: "invar m \<Longrightarrow> invar (update_all f m)"
begin

definition all_entries :: "('k \<Rightarrow> 'v \<Rightarrow> bool) \<Rightarrow> 'm \<Rightarrow> bool" where
  "all_entries P m \<longleftrightarrow> (\<forall>k v. find m k = Some v \<longrightarrow> P k v)"

lemma all_entries_put: "all_entries P m \<Longrightarrow> P k v \<Longrightarrow> all_entries P (put k v m)"
  by (simp add: all_entries_def find_put)

lemma all_entries_update_all:
  "all_entries P m \<Longrightarrow> (\<And>k v. P k v \<Longrightarrow> Q k (f k v)) \<Longrightarrow> all_entries Q (update_all f m)"
  by (auto simp: all_entries_def find_update_all)

lemma entries_distinct: "invar m \<Longrightarrow> distinct (map fst (entries m))"
  by (rule sorted_wrt_less_distinct[OF entries_sorted])

lemma dom_entries: "invar m \<Longrightarrow> dom (find m) = fst ` set (entries m)"
  by (auto simp: dom_def entries_find[symmetric]) force

lemma card_dom: "invar m \<Longrightarrow> card (dom (find m)) = length (entries m)"
  using dom_entries entries_distinct distinct_card[of "map fst (entries m)"] by simp

lemma size_put:
  assumes "invar m"
  shows "length (entries (put k v m)) =
    (if find m k = None then Suc (length (entries m)) else length (entries m))"
proof -
  have fin: "finite (dom (find m))" using assms by (simp add: dom_entries)
  have "dom (find (put k v m)) = insert k (dom (find m))" by (auto simp: find_put)
  then have "length (entries (put k v m)) = card (insert k (dom (find m)))"
    using card_dom[OF invar_put[OF assms, of k v]] by simp
  then show ?thesis
    using fin card_dom[OF assms] by (auto simp: card_insert_if dom_def)
qed

lemma first_entry_least:
  assumes "invar m" and "entries m = (k, v) # rest" and "find m k' = Some v'"
  shows "k \<le> k'"
  using assms entries_sorted[of m] entries_find[of m k' v'] by force

text \<open>Two well-formed stores with the same lookups iterate identically.\<close>

lemma entries_unique:
  assumes "invar m" and "invar n" and "find m = find n"
  shows "entries m = entries n"
proof (rule map_sorted_distinct_set_unique[where f = fst])
  show "inj_on fst (set (entries m) \<union> set (entries n))"
    using assms by (auto simp: inj_on_def entries_find)
  show "sorted (map fst (entries m))" "distinct (map fst (entries m))"
    and "sorted (map fst (entries n))" "distinct (map fst (entries n))"
    using assms entries_sorted entries_distinct strict_sorted_iff by blast+
  show "set (entries m) = set (entries n)"
    using assms by (auto simp: entries_find)
qed

end

section \<open>The implementation satisfies the interface\<close>

lemma om_find_Nil [simp]: "om_find [] k = None"
  by (simp add: om_find_def)

lemma om_find_Cons [simp]: "om_find ((a, b) # m) k = (if k = a then Some b else om_find m k)"
  by (simp add: om_find_def)

lemma om_find_put [simp]: "om_find (om_put k v m) = (om_find m)(k \<mapsto> v)"
  by (rule ext, induction k v m rule: om_put.induct) auto

lemma om_find_update_all [simp]: "om_find (om_update_all f m) k = map_option (f k) (om_find m k)"
  by (induction m) (auto simp: om_update_all_def)

lemma om_keys_put: "set (map fst (om_put k v m)) = insert k (set (map fst m))"
  by (induction k v m rule: om_put.induct) auto

lemma om_wf_Nil [simp]: "om_wf []"
  by (simp add: om_wf_def)

lemma om_wf_put [simp]: "om_wf m \<Longrightarrow> om_wf (om_put k v m)"
  unfolding om_wf_def
proof (induction k v m rule: om_put.induct)
  case (2 k v a b m)
  then show ?case using om_keys_put[of k v m] by (auto simp del: set_map)
qed simp

lemma om_wf_update_all [simp]: "om_wf (om_update_all f m) \<longleftrightarrow> om_wf m"
proof -
  have "map fst (om_update_all f m) = map fst m"
    by (induction m) (auto simp: om_update_all_def)
  then show ?thesis by (simp add: om_wf_def)
qed

lemma om_wf_find_entry: "om_wf m \<Longrightarrow> (k, v) \<in> set m \<longleftrightarrow> om_find m k = Some v"
  by (auto simp: om_wf_def om_find_def intro: map_of_SomeD dest: sorted_wrt_less_distinct map_of_is_SomeI)

interpretation om: keyed_store om_find om_put om_update_all "\<lambda>m. m" om_wf
  by unfold_locales (auto simp: om_wf_find_entry, simp add: om_wf_def)

lemma om_find_in_set: "om_find m k = Some v \<Longrightarrow> (k, v) \<in> set m"
  by (simp add: om_find_def map_of_SomeD)

lemma om_find_None_notin: "om_find m k = None \<longleftrightarrow> k \<notin> fst ` set m"
  by (simp add: om_find_def map_of_eq_None_iff)

lemma om_has_simps [simp]:
  "om_has (om_put k v m) k' \<longleftrightarrow> k' = k \<or> om_has m k'"
  "om_has (om_update_all f m) k' \<longleftrightarrow> om_has m k'"
  by (auto simp: om_has_def)

lemma om_find_emplace:
  "om_find (om_emplace k v m) k' = (if k' = k \<and> om_find m k = None then Some v else om_find m k')"
  by (auto simp: om_emplace_def split: option.splits)

text \<open>Emplacing the entries of an ordered map one after another rebuilds it: the loop of the
  state decoder.\<close>

lemma om_emplace_snoc:
  assumes "om_wf (m @ [(k, v)])"
  shows "om_emplace k v m = m @ [(k, v)]"
proof -
  have below: "\<forall>a \<in> set (map fst m). a < k" using assms by (simp add: om_wf_def sorted_wrt_append)
  have "om_put k v m = m @ [(k, v)]"
    using below by (induction k v m rule: om_put.induct) auto
  moreover have "om_find m k = None" using below by (force simp: om_find_None_notin)
  ultimately show ?thesis by (simp add: om_emplace_def)
qed

end
