(* ===== verification/Text.thy ===== *)
theory Text
  imports Prelude
begin

text \<open>
  \<^verbatim>\<open>src/text.cpp\<close>: bounding, splitting, joining and the UTF-8 check of human text. Index loops
  over a string view become recursion over the remaining bytes.
\<close>

definition byte_of :: "char \<Rightarrow> u8" where
  "byte_of c = of_char c"

text \<open>A continuation byte: \<^verbatim>\<open>(byte & 0xC0u) == 0x80u\<close>.\<close>

definition is_continuation :: "char \<Rightarrow> bool" where
  "is_continuation c \<longleftrightarrow> byte_of c AND 0xC0 = 0x80"

definition utf8_sequence_length :: "u8 \<Rightarrow> nat" where
  "utf8_sequence_length lead =
     (if lead < 0x80 then 1
      else if lead \<ge> 0xC2 \<and> lead \<le> 0xDF then 2
      else if lead \<ge> 0xE0 \<and> lead \<le> 0xEF then 3
      else if lead \<ge> 0xF0 \<and> lead \<le> 0xF4 then 4
      else 0)"

fun back_to_lead :: "string \<Rightarrow> nat \<Rightarrow> nat" where
  "back_to_lead tx pos =
     (if pos > 0 \<and> is_continuation (tx ! pos) then back_to_lead tx (pos - 1) else pos)"

declare back_to_lead.simps [simp del]

definition kEllipsis :: string where "kEllipsis = ''...''"

definition bound_text :: "string \<Rightarrow> nat \<Rightarrow> string" where
  "bound_text tx limit =
     (if length tx \<le> limit then tx
      else if limit \<le> length kEllipsis then take limit kEllipsis
      else take (back_to_lead tx (limit - length kEllipsis)) tx @ kEllipsis)"

definition lower_char :: "char \<Rightarrow> char" where
  "lower_char c = (if CHR ''A'' \<le> c \<and> c \<le> CHR ''Z'' then char_of (of_char c - 65 + 97 :: nat) else c)"

definition ascii_lower :: "string \<Rightarrow> string" where
  "ascii_lower tx = map lower_char tx"

text \<open>\<^verbatim>\<open>split\<close>: the accumulator holds the bytes from \<^verbatim>\<open>start\<close> up to the current position.\<close>

fun split_from :: "char \<Rightarrow> string \<Rightarrow> string \<Rightarrow> string list" where
  "split_from separator acc [] = [acc]"
| "split_from separator acc (c # rest) =
     (if c = separator then acc # split_from separator [] rest
      else split_from separator (acc @ [c]) rest)"

definition split_text :: "string \<Rightarrow> char \<Rightarrow> string list" where
  "split_text tx separator = split_from separator [] tx"

fun join_text :: "string list \<Rightarrow> string \<Rightarrow> string" where
  "join_text [] separator = []"
| "join_text [p] separator = p"
| "join_text (p # ps) separator = p @ separator @ join_text ps separator"

function is_printable_text :: "string \<Rightarrow> bool" where
  "is_printable_text [] = True"
| "is_printable_text (c # rest) =
     (let lead = byte_of c in
      if lead < 0x80 then
        (if lead < 0x20 \<or> lead = 0x7F then False else is_printable_text rest)
      else
        (let len = utf8_sequence_length lead in
         if len < 2 \<or> len > length (c # rest) then False
         else if \<not> list_all is_continuation (take (len - 1) rest) then False
         else is_printable_text (drop (len - 1) rest)))"
  by pat_completeness auto
termination
  by (relation "measure length") auto

declare is_printable_text.simps(2) [simp del]

section \<open>Lemmas\<close>

lemma back_to_lead_step:
  "pos > 0 \<Longrightarrow> is_continuation (tx ! pos) \<Longrightarrow> back_to_lead tx pos = back_to_lead tx (pos - 1)"
  "\<not> (pos > 0 \<and> is_continuation (tx ! pos)) \<Longrightarrow> back_to_lead tx pos = pos"
  by (auto simp: back_to_lead.simps[of tx pos])

lemma back_to_lead_le: "back_to_lead tx pos \<le> pos"
proof (induction pos)
  case (Suc n)
  then show ?case
    by (cases "is_continuation (tx ! Suc n)") (simp_all add: back_to_lead_step)
qed (simp add: back_to_lead_step)

lemma back_to_lead_stops:
  "back_to_lead tx pos = 0 \<or> \<not> is_continuation (tx ! back_to_lead tx pos)"
proof (induction pos)
  case (Suc n)
  then show ?case
    by (cases "is_continuation (tx ! Suc n)") (simp_all add: back_to_lead_step)
qed (simp add: back_to_lead_step)

lemma printable_append:
  "is_printable_text a \<Longrightarrow> is_printable_text b \<Longrightarrow> is_printable_text (a @ b)"
proof (induction a rule: is_printable_text.induct)
  case (2 c rest)
  then show ?case
    by (auto simp: is_printable_text.simps Let_def split: if_splits)
qed simp

text \<open>Cutting a printable text before a byte that starts a sequence leaves a printable text.\<close>

lemma printable_take:
  assumes "is_printable_text t" and "p < length t \<longrightarrow> \<not> is_continuation (t ! p)"
  shows "is_printable_text (take p t)"
  using assms
proof (induction t arbitrary: p rule: is_printable_text.induct)
  case (2 c rest)
  show ?case
  proof (cases p)
    case (Suc q)
    define len where "len = utf8_sequence_length (byte_of c)"
    show ?thesis
    proof (cases "byte_of c < 0x80")
      case True
      with 2 Suc show ?thesis
        by (auto simp: is_printable_text.simps Let_def split: if_splits)
    next
      case False
      with "2.prems"(1) have ok: "2 \<le> len" "len \<le> Suc (length rest)"
        "list_all is_continuation (take (len - 1) rest)"
        "is_printable_text (drop (len - 1) rest)"
        by (auto simp: is_printable_text.simps Let_def len_def split: if_splits)
      have far: "len - 1 \<le> q"
      proof (rule ccontr)
        assume "\<not> len - 1 \<le> q"
        then have lt: "q < len - 1" by simp
        then have "take (len - 1) rest ! q = rest ! q" by simp
        with lt ok(2,3) have "is_continuation (rest ! q)"
          by (auto simp: list_all_length)
        with "2.prems"(2) Suc lt ok(2) show False by simp
      qed
      have "is_printable_text (take (q - (len - 1)) (drop (len - 1) rest))"
        using "2.IH"(2)[of "byte_of c" len "q - (len - 1)"] False ok far "2.prems"(2) Suc
        by (auto simp: len_def)
      moreover have "drop (len - 1) (take q rest) = take (q - (len - 1)) (drop (len - 1) rest)"
        by (simp add: drop_take)
      moreover have "take (len - 1) (take q rest) = take (len - 1) rest"
        using far by (simp add: min_absorb1)
      moreover have "len \<le> Suc (min (length rest) q)" using far ok(2) by simp
      ultimately show ?thesis
        using False ok Suc by (auto simp: is_printable_text.simps Let_def len_def)
    qed
  qed simp
qed simp

lemma split_from_nonempty [simp]: "split_from s acc t \<noteq> []"
  by (induction s acc t rule: split_from.induct) auto

lemma join_split_from: "join_text (split_from s acc t) [s] = acc @ t"
proof (induction s acc t rule: split_from.induct)
  case (2 separator acc c rest)
  have "split_from separator [] rest \<noteq> []" by (rule split_from_nonempty)
  then have "c = separator \<Longrightarrow> ?case" using 2
    by (cases "split_from separator [] rest") auto
  with 2 show ?case by auto
qed simp

lemma split_from_pieces:
  "s \<notin> set acc \<Longrightarrow> p \<in> set (split_from s acc t) \<Longrightarrow> s \<notin> set p"
  by (induction s acc t rule: split_from.induct) (auto split: if_splits)

section \<open>Properties\<close>

text \<open>\<^verbatim>\<open>bound_text\<close> never exceeds the limit, is the identity on a text that fits, keeps a prefix
  of the text otherwise, and never cuts a UTF-8 sequence in half: printable text stays printable
  at every limit.\<close>

theorem bound_text_correct:
  "length (bound_text tx limit) \<le> limit \<and>
   (length tx \<le> limit \<longrightarrow> bound_text tx limit = tx) \<and>
   (\<exists>n m. bound_text tx limit = take n tx @ take m kEllipsis) \<and>
   (is_printable_text tx \<longrightarrow> is_printable_text (bound_text tx limit))"
proof -
  let ?p = "back_to_lead tx (limit - length kEllipsis)"
  have dots: "is_printable_text (take n kEllipsis)" for n
    by (cases n; cases "n - 1"; cases "n - 2")
      (auto simp: kEllipsis_def is_printable_text.simps Let_def byte_of_def)
  have "length (bound_text tx limit) \<le> limit"
    using back_to_lead_le[of tx "limit - length kEllipsis"]
    by (auto simp: bound_text_def kEllipsis_def)
  moreover have "is_printable_text tx \<Longrightarrow> is_printable_text (take ?p tx)"
    using back_to_lead_stops[of tx "limit - length kEllipsis"] by (auto intro: printable_take)
  then have "is_printable_text tx \<Longrightarrow> is_printable_text (bound_text tx limit)"
    using dots dots[of "length kEllipsis"] by (auto simp: bound_text_def intro: printable_append)
  moreover have "\<exists>n m. bound_text tx limit = take n tx @ take m kEllipsis"
    unfolding bound_text_def
    by (metis append_Nil append_Nil2 order_refl take_0 take_all)
  ultimately show ?thesis by (simp add: bound_text_def)
qed

theorem bound_text_correct_witness:
  "is_printable_text ''abcdefgh'' \<and> bound_text ''abcdefgh'' 6 = ''abc...'' \<and>
   is_printable_text (bound_text ''abcdefgh'' 6)"
proof -
  have p: "is_printable_text ''abcdefgh''"
    by (simp add: is_printable_text.simps Let_def byte_of_def)
  have "bound_text ''abcdefgh'' 6 = ''abc...''"
    by (simp add: bound_text_def kEllipsis_def back_to_lead.simps is_continuation_def byte_of_def)
  with p bound_text_correct[of "''abcdefgh''" 6] show ?thesis by simp
qed

text \<open>splitting at a separator and joining with it gives the text back, and no piece contains
  the separator.\<close>

theorem split_join_roundtrip:
  "join_text (split_text tx separator) [separator] = tx \<and>
   list_all (\<lambda>p. separator \<notin> set p) (split_text tx separator)"
  by (auto simp: split_text_def join_split_from list_all_iff dest: split_from_pieces[rotated])

end
