(* ===== verification/Status.thy ===== *)
theory Status
  imports Text
begin

text \<open>
  \<^verbatim>\<open>include/priority_fabric/status.hpp\<close>, \<^verbatim>\<open>src/status.cpp\<close>, \<^verbatim>\<open>include/priority_fabric/limits.hpp\<close>
  and \<^verbatim>\<open>src/limits.cpp\<close>. A failure carries a code and a bounded message. The limits are
  unsigned fields that the code only compares with sizes, so they are naturals here; every use
  that multiplies them is within the compiled ceiling.
\<close>

section \<open>Status\<close>

datatype status_code =
    St_Ok
  | St_InvalidArgument
  | St_MalformedId
  | St_NotFound
  | St_AlreadyExists
  | St_DuplicatePrecedence
  | St_CycleDetected
  | St_GenerationMismatch
  | St_StaleGeneration
  | St_StaleEpoch
  | St_Fenced
  | St_Unauthorized
  | St_Conflict
  | St_LimitExceeded
  | St_Overflow
  | St_Corrupt
  | St_Truncated
  | St_IntegrityFailure
  | St_IoError
  | St_Unsupported
  | St_NotReady
  | St_Degraded
  | St_Cancelled
  | St_Internal
  | St_TransportError
  | St_ProtocolError
  | St_BoundaryViolation

fun status_code_value :: "status_code \<Rightarrow> u16" where
  "status_code_value St_Ok = 0"
| "status_code_value St_InvalidArgument = 1"
| "status_code_value St_MalformedId = 2"
| "status_code_value St_NotFound = 3"
| "status_code_value St_AlreadyExists = 4"
| "status_code_value St_DuplicatePrecedence = 5"
| "status_code_value St_CycleDetected = 6"
| "status_code_value St_GenerationMismatch = 7"
| "status_code_value St_StaleGeneration = 8"
| "status_code_value St_StaleEpoch = 9"
| "status_code_value St_Fenced = 10"
| "status_code_value St_Unauthorized = 11"
| "status_code_value St_Conflict = 12"
| "status_code_value St_LimitExceeded = 13"
| "status_code_value St_Overflow = 14"
| "status_code_value St_Corrupt = 15"
| "status_code_value St_Truncated = 16"
| "status_code_value St_IntegrityFailure = 17"
| "status_code_value St_IoError = 18"
| "status_code_value St_Unsupported = 19"
| "status_code_value St_NotReady = 20"
| "status_code_value St_Degraded = 21"
| "status_code_value St_Cancelled = 22"
| "status_code_value St_Internal = 23"
| "status_code_value St_TransportError = 24"
| "status_code_value St_ProtocolError = 25"
| "status_code_value St_BoundaryViolation = 26"

fun status_code_to_string :: "status_code \<Rightarrow> string" where
  "status_code_to_string St_Ok = ''ok''"
| "status_code_to_string St_InvalidArgument = ''invalid_argument''"
| "status_code_to_string St_MalformedId = ''malformed_id''"
| "status_code_to_string St_NotFound = ''not_found''"
| "status_code_to_string St_AlreadyExists = ''already_exists''"
| "status_code_to_string St_DuplicatePrecedence = ''duplicate_precedence''"
| "status_code_to_string St_CycleDetected = ''cycle_detected''"
| "status_code_to_string St_GenerationMismatch = ''generation_mismatch''"
| "status_code_to_string St_StaleGeneration = ''stale_generation''"
| "status_code_to_string St_StaleEpoch = ''stale_epoch''"
| "status_code_to_string St_Fenced = ''fenced''"
| "status_code_to_string St_Unauthorized = ''unauthorized''"
| "status_code_to_string St_Conflict = ''conflict''"
| "status_code_to_string St_LimitExceeded = ''limit_exceeded''"
| "status_code_to_string St_Overflow = ''overflow''"
| "status_code_to_string St_Corrupt = ''corrupt''"
| "status_code_to_string St_Truncated = ''truncated''"
| "status_code_to_string St_IntegrityFailure = ''integrity_failure''"
| "status_code_to_string St_IoError = ''io_error''"
| "status_code_to_string St_Unsupported = ''unsupported''"
| "status_code_to_string St_NotReady = ''not_ready''"
| "status_code_to_string St_Degraded = ''degraded''"
| "status_code_to_string St_Cancelled = ''cancelled''"
| "status_code_to_string St_Internal = ''internal''"
| "status_code_to_string St_TransportError = ''transport_error''"
| "status_code_to_string St_ProtocolError = ''protocol_error''"
| "status_code_to_string St_BoundaryViolation = ''boundary_violation''"

record status =
  st_code :: status_code
  st_message :: string

type_synonym 'a result = "status + 'a"
type_synonym void_result = "unit result"

definition kMaxStatusMessage :: nat where "kMaxStatusMessage = 1024"

definition make_error :: "status_code \<Rightarrow> string \<Rightarrow> status" where
  "make_error code msg = \<lparr>st_code = code, st_message = bound_text msg kMaxStatusMessage\<rparr>"

definition status_to_string :: "status \<Rightarrow> string" where
  "status_to_string s =
     (if st_code s = St_Ok then ''ok''
      else status_code_to_string (st_code s) @
        (if st_message s = [] then [] else '': '' @ st_message s))"

section \<open>Limits\<close>

record limits =
  max_id_length :: nat
  max_description_length :: nat
  max_note_length :: nat
  max_classes :: nat
  max_scopes :: nat
  max_policies :: nat
  max_subjects :: nat
  max_assignments :: nat
  max_audit_entries :: nat
  max_publishers :: nat
  max_boots_per_publisher :: nat
  max_scope_depth :: nat
  max_inheritance_depth :: nat
  max_inherits_from :: nat
  max_policy_classes :: nat
  max_explanation_steps :: nat
  max_query_steps :: nat
  max_record_payload :: nat
  max_frame_payload :: nat
  max_state_bytes :: nat
  max_journal_segments :: nat
  max_connections :: nat
  max_requests_per_connection :: nat
  max_audit_return :: nat
  max_connect_attempts :: nat
  max_reopen_attempts :: nat

definition compiled_limits_ceiling :: limits where
  "compiled_limits_ceiling = \<lparr>
     max_id_length = 128,
     max_description_length = 1024,
     max_note_length = 512,
     max_classes = 65536,
     max_scopes = 16384,
     max_policies = 16384,
     max_subjects = 262144,
     max_assignments = 1048576,
     max_audit_entries = 65536,
     max_publishers = 4096,
     max_boots_per_publisher = 64,
     max_scope_depth = 32,
     max_inheritance_depth = 32,
     max_inherits_from = 16,
     max_policy_classes = 4096,
     max_explanation_steps = 64,
     max_query_steps = 256,
     max_record_payload = 1048576,
     max_frame_payload = 4194304,
     max_state_bytes = 268435456,
     max_journal_segments = 1024,
     max_connections = 64,
     max_requests_per_connection = 1048576,
     max_audit_return = 4096,
     max_connect_attempts = 400,
     max_reopen_attempts = 8\<rparr>"

definition limits_within_compiled_ceiling :: "limits \<Rightarrow> bool" where
  "limits_within_compiled_ceiling l \<longleftrightarrow> (let ceiling = compiled_limits_ceiling in
     max_id_length l \<le> max_id_length ceiling \<and>
     max_description_length l \<le> max_description_length ceiling \<and>
     max_note_length l \<le> max_note_length ceiling \<and>
     max_classes l \<le> max_classes ceiling \<and>
     max_scopes l \<le> max_scopes ceiling \<and>
     max_policies l \<le> max_policies ceiling \<and>
     max_subjects l \<le> max_subjects ceiling \<and>
     max_assignments l \<le> max_assignments ceiling \<and>
     max_audit_entries l \<le> max_audit_entries ceiling \<and>
     max_publishers l \<le> max_publishers ceiling \<and>
     max_boots_per_publisher l \<le> max_boots_per_publisher ceiling \<and>
     max_scope_depth l \<le> max_scope_depth ceiling \<and>
     max_inheritance_depth l \<le> max_inheritance_depth ceiling \<and>
     max_inherits_from l \<le> max_inherits_from ceiling \<and>
     max_policy_classes l \<le> max_policy_classes ceiling \<and>
     max_explanation_steps l \<le> max_explanation_steps ceiling \<and>
     max_query_steps l \<le> max_query_steps ceiling \<and>
     max_record_payload l \<le> max_record_payload ceiling \<and>
     max_frame_payload l \<le> max_frame_payload ceiling \<and>
     max_state_bytes l \<le> max_state_bytes ceiling \<and>
     max_journal_segments l \<le> max_journal_segments ceiling \<and>
     max_connections l \<le> max_connections ceiling \<and>
     max_requests_per_connection l \<le> max_requests_per_connection ceiling \<and>
     max_audit_return l \<le> max_audit_return ceiling \<and>
     max_connect_attempts l \<le> max_connect_attempts ceiling \<and>
     max_reopen_attempts l \<le> max_reopen_attempts ceiling \<and>
     max_id_length l > 0 \<and>
     max_classes l > 0 \<and>
     max_scopes l > 0 \<and>
     max_policies l > 0 \<and>
     max_subjects l > 0 \<and>
     max_assignments l > 0 \<and>
     max_scope_depth l > 0 \<and>
     max_inheritance_depth l > 0 \<and>
     max_explanation_steps l > 0 \<and>
     max_query_steps l > 0 \<and>
     max_record_payload l > 0 \<and>
     max_frame_payload l > 0 \<and>
     max_connections l > 0)"

section \<open>Lemmas\<close>

lemma make_error_code [simp]: "st_code (make_error c m) = c"
  by (simp add: make_error_def)

lemma status_message_bounded: "length (st_message (make_error c m)) \<le> 1024"
proof -
  have "length (bound_text m n) \<le> n" for n
    using back_to_lead_le[of m "n - length kEllipsis"] by (auto simp: bound_text_def kEllipsis_def)
  then show ?thesis by (simp add: make_error_def kMaxStatusMessage_def)
qed

lemma status_code_value_inject: "status_code_value a = status_code_value b \<longleftrightarrow> a = b"
  by (cases a; cases b) simp_all

lemma compiled_limits_accepted: "limits_within_compiled_ceiling compiled_limits_ceiling"
  by (simp add: limits_within_compiled_ceiling_def compiled_limits_ceiling_def)

lemma within_ceiling_bounds:
  assumes "limits_within_compiled_ceiling l"
  shows "max_id_length l \<le> 128" "max_scope_depth l \<le> 32" "0 < max_scope_depth l"
    "max_inheritance_depth l \<le> 32" "0 < max_inheritance_depth l" "max_inherits_from l \<le> 16"
    "max_query_steps l \<le> 256" "0 < max_query_steps l" "max_explanation_steps l \<le> 64"
  using assms
  by (simp_all add: limits_within_compiled_ceiling_def compiled_limits_ceiling_def Let_def)

end
