(* ===== verification/Ident.thy ===== *)
theory Ident
  imports Status
begin

text \<open>
  \<^verbatim>\<open>include/priority_fabric/ident.hpp\<close> and \<^verbatim>\<open>src/ident.cpp\<close>: canonical identifiers, the strongly
  typed identifier template, boot ids and fencing tokens. \<^verbatim>\<open>BasicId<Tag>\<close> is a datatype with a
  phantom parameter, so identifiers of different tags have different types, and its order is the
  byte order of \<^verbatim>\<open>std::string\<close>.
\<close>

section \<open>Canonicalization\<close>

definition is_ascii_space :: "char \<Rightarrow> bool" where
  "is_ascii_space c \<longleftrightarrow>
     c = CHR '' '' \<or> c = CHR 0x09 \<or> c = CHR 0x0A \<or> c = CHR 0x0D \<or> c = CHR 0x0B \<or> c = CHR 0x0C"

definition is_lower_alnum :: "char \<Rightarrow> bool" where
  "is_lower_alnum c \<longleftrightarrow> (CHR ''a'' \<le> c \<and> c \<le> CHR ''z'') \<or> (CHR ''0'' \<le> c \<and> c \<le> CHR ''9'')"

definition is_separator :: "char \<Rightarrow> bool" where
  "is_separator c \<longleftrightarrow> c = CHR ''.'' \<or> c = CHR ''_'' \<or> c = CHR '':'' \<or> c = CHR ''-''"

definition kMaxRawIdBytes :: nat where "kMaxRawIdBytes = 4096"

text \<open>The two trimming loops.\<close>

definition trim_spaces :: "string \<Rightarrow> string" where
  "trim_spaces raw = rev (dropWhile is_ascii_space (rev (dropWhile is_ascii_space raw)))"

definition fold_char :: "char \<Rightarrow> char" where
  "fold_char c = (if c = CHR ''/'' then CHR ''.'' else lower_char c)"

text \<open>The segment scan: \<open>prev\<close> is \<^verbatim>\<open>previous_separator\<close>, \<open>i\<close> the offset; the value is the
  final \<^verbatim>\<open>previous_separator\<close>.\<close>

fun scan_segments :: "nat \<Rightarrow> bool \<Rightarrow> string \<Rightarrow> bool result" where
  "scan_segments i prev [] = Inr prev"
| "scan_segments i prev (c # cs) =
     (if is_lower_alnum c then scan_segments (Suc i) False cs
      else if \<not> is_separator c then
        Inl (make_error St_MalformedId
          (cat [''identifier contains an unsupported character at offset '', to_dec i]))
      else if prev then
        Inl (make_error St_MalformedId
          (cat [''identifier contains an empty segment at offset '', to_dec i]))
      else scan_segments (Suc i) True cs)"

definition canonicalize_id :: "string \<Rightarrow> limits \<Rightarrow> string result" where
  "canonicalize_id raw limits =
     (if raw = [] then Inl (make_error St_MalformedId ''identifier is empty'')
      else if length raw > kMaxRawIdBytes then
        Inl (make_error St_LimitExceeded
          (cat [''identifier exceeds the maximum raw length of '', to_dec kMaxRawIdBytes, '' bytes'']))
      else if \<not> is_printable_text raw then
        Inl (make_error St_MalformedId ''identifier contains control or non-UTF-8 bytes'')
      else
        (let trimmed = trim_spaces raw in
         if trimmed = [] then Inl (make_error St_MalformedId ''identifier is empty after trimming'')
         else
           (let body = (if hd trimmed = CHR ''/'' then tl trimmed else trimmed) in
            if body = [] then
              Inl (make_error St_MalformedId
                (cat [''identifier is empty after removing '', quoted ''/'']))
            else
              (let canonical = map fold_char body in
               if length canonical > max_id_length limits then
                 Inl (make_error St_LimitExceeded
                   (cat [''canonical identifier is '', to_dec (length canonical),
                         '' bytes, limit is '', to_dec (max_id_length limits)]))
               else if \<not> is_lower_alnum (hd canonical) then
                 Inl (make_error St_MalformedId
                   ''identifier must start with a lowercase letter or digit'')
               else rbind (scan_segments 0 False canonical) (\<lambda>previous_separator.
                 if previous_separator then
                   Inl (make_error St_MalformedId ''identifier may not end with a separator'')
                 else Inr canonical)))))"

section \<open>Typed identifiers\<close>

datatype 'tag basic_id = BasicId (id_str: string)

typedecl priority_class_tag
typedecl priority_assignment_tag
typedecl subject_tag
typedecl policy_scope_tag
typedecl policy_tag
typedecl publisher_tag

type_synonym class_id = "priority_class_tag basic_id"
type_synonym assignment_id = "priority_assignment_tag basic_id"
type_synonym subject_id = "subject_tag basic_id"
type_synonym scope_id = "policy_scope_tag basic_id"
type_synonym policy_id = "policy_tag basic_id"
type_synonym publisher_id = "publisher_tag basic_id"

instantiation basic_id :: (type) linorder
begin

definition less_eq_basic_id :: "'a basic_id \<Rightarrow> 'a basic_id \<Rightarrow> bool" where
  "less_eq_basic_id a b \<longleftrightarrow> id_str a \<le> id_str b"

definition less_basic_id :: "'a basic_id \<Rightarrow> 'a basic_id \<Rightarrow> bool" where
  "less_basic_id a b \<longleftrightarrow> id_str a < id_str b"

instance
  by standard
    (auto simp: less_eq_basic_id_def less_basic_id_def intro: basic_id.expand dest: order_antisym)

end

definition id_none :: "'tag basic_id" where "id_none = BasicId []"

definition id_valid :: "'tag basic_id \<Rightarrow> bool" where
  "id_valid i \<longleftrightarrow> id_str i \<noteq> []"

definition id_parse :: "string \<Rightarrow> limits \<Rightarrow> 'tag basic_id result" where
  "id_parse raw limits = rbind (canonicalize_id raw limits) (\<lambda>canon. Inr (BasicId canon))"

definition from_canonical :: "string \<Rightarrow> limits \<Rightarrow> 'tag basic_id result" where
  "from_canonical canonical limits =
     rbind (canonicalize_id canonical limits) (\<lambda>reparsed.
       if reparsed \<noteq> canonical then
         Inl (make_error St_MalformedId
           (cat [''identifier is not in canonical form: '', quoted canonical,
                 '' (canonical spelling is '', quoted reparsed, '')'']))
       else Inr (BasicId canonical))"

section \<open>Boot ids and fencing tokens\<close>

text \<open>The 16 bytes of a boot id; \<open>boot_wf\<close> is the array length that C++ fixes in the type.\<close>

type_synonym boot_id = "u8 list"
type_synonym fencing_token = u64

definition boot_size :: nat where "boot_size = 16"

definition boot_wf :: "boot_id \<Rightarrow> bool" where
  "boot_wf b \<longleftrightarrow> length b = boot_size"

definition boot_zero :: boot_id where "boot_zero = replicate boot_size 0"

definition boot_is_zero :: "boot_id \<Rightarrow> bool" where
  "boot_is_zero b \<longleftrightarrow> list_all (\<lambda>x. x = 0) b"

definition boot_valid :: "boot_id \<Rightarrow> bool" where
  "boot_valid b \<longleftrightarrow> \<not> boot_is_zero b"

definition token_is_valid :: "fencing_token \<Rightarrow> bool" where
  "token_is_valid t \<longleftrightarrow> t \<noteq> 0"

definition kHexDigits :: string where "kHexDigits = ''0123456789abcdef''"

definition hex_value :: "char \<Rightarrow> int" where
  "hex_value c =
     (if CHR ''0'' \<le> c \<and> c \<le> CHR ''9'' then of_char c - 48
      else if CHR ''a'' \<le> c \<and> c \<le> CHR ''f'' then of_char c - 97 + 10
      else if CHR ''A'' \<le> c \<and> c \<le> CHR ''F'' then of_char c - 65 + 10
      else - 1)"

definition byte_hex :: "u8 \<Rightarrow> string" where
  "byte_hex b = [kHexDigits ! unat (drop_bit 4 b AND 0x0F), kHexDigits ! unat (b AND 0x0F)]"

definition boot_hex :: "boot_id \<Rightarrow> string" where
  "boot_hex b = concat (map byte_hex b)"

fun parse_hex_pairs :: "nat \<Rightarrow> string \<Rightarrow> u8 list result" where
  "parse_hex_pairs i (h # l # rest) =
     (let hi = hex_value h; lo = hex_value l in
      if hi < 0 \<or> lo < 0 then
        Inl (make_error St_MalformedId
          (cat [''boot id contains a non-hexadecimal character at offset '', to_dec (i * 2)]))
      else rbind (parse_hex_pairs (Suc i) rest) (\<lambda>bs. Inr (word_of_int (push_bit 4 hi OR lo) # bs)))"
| "parse_hex_pairs i _ = Inr []"

definition boot_parse_hex :: "string \<Rightarrow> boot_id result" where
  "boot_parse_hex hex =
     (if length hex \<noteq> boot_size * 2 then
        Inl (make_error St_MalformedId
          (cat [''boot id must be exactly 32 hexadecimal characters, got '', to_dec (length hex)]))
      else parse_hex_pairs 0 hex)"

section \<open>Lemmas\<close>

definition canonical_form :: "string \<Rightarrow> bool" where
  "canonical_form s \<longleftrightarrow> s \<noteq> [] \<and>
     list_all (\<lambda>c. is_lower_alnum c \<or> is_separator c) s \<and>
     is_lower_alnum (hd s) \<and> is_lower_alnum (last s) \<and>
     (\<forall>i. Suc i < length s \<longrightarrow> is_separator (s ! i) \<longrightarrow> is_lower_alnum (s ! Suc i))"

lemma sep_not_alnum: "is_separator c \<Longrightarrow> \<not> is_lower_alnum c"
  by (auto simp: is_separator_def is_lower_alnum_def less_eq_char_def)

fun scan_ok :: "bool \<Rightarrow> string \<Rightarrow> bool" where
  "scan_ok prev [] \<longleftrightarrow> \<not> prev"
| "scan_ok prev (c # cs) \<longleftrightarrow>
     (if is_lower_alnum c then scan_ok False cs
      else is_separator c \<and> \<not> prev \<and> scan_ok True cs)"

lemma scan_segments_ok: "scan_segments i prev s = Inr False \<longleftrightarrow> scan_ok prev s"
  by (induction i prev s rule: scan_segments.induct) auto

lemma scan_ok_True_Cons: "scan_ok True s \<longleftrightarrow> s \<noteq> [] \<and> is_lower_alnum (hd s) \<and> scan_ok False s"
  by (cases s) auto

lemma scan_ok_iff:
  "scan_ok False s \<longleftrightarrow> list_all (\<lambda>c. is_lower_alnum c \<or> is_separator c) s \<and>
     (s \<noteq> [] \<longrightarrow> is_lower_alnum (last s)) \<and>
     (\<forall>i. Suc i < length s \<longrightarrow> is_separator (s ! i) \<longrightarrow> is_lower_alnum (s ! Suc i))"
proof (induction s)
  case (Cons c cs)
  have step: "(\<forall>i. Suc i < length (c # cs) \<longrightarrow> is_separator ((c # cs) ! i) \<longrightarrow>
      is_lower_alnum ((c # cs) ! Suc i)) \<longleftrightarrow>
    (cs \<noteq> [] \<longrightarrow> is_separator c \<longrightarrow> is_lower_alnum (hd cs)) \<and>
    (\<forall>i. Suc i < length cs \<longrightarrow> is_separator (cs ! i) \<longrightarrow> is_lower_alnum (cs ! Suc i))"
    by (auto simp: All_less_Suc2 nth_Cons hd_conv_nth split: nat.splits)
  show ?case
    unfolding step using Cons sep_not_alnum[of c]
    by (auto simp: scan_ok_True_Cons)
qed simp

lemma canonical_form_scan:
  "canonical_form s \<longleftrightarrow> s \<noteq> [] \<and> is_lower_alnum (hd s) \<and> scan_segments 0 False s = Inr False"
  by (auto simp: canonical_form_def scan_segments_ok scan_ok_iff)

lemma unat_byte_of: "unat (byte_of c) = of_char c"
proof -
  have "(of_char c :: nat) < 256" by simp
  moreover have "byte_of c = of_nat (of_char c)" by (simp add: byte_of_def of_nat_of_char)
  ultimately show ?thesis by (simp add: unat_of_nat)
qed

lemma alnum_or_sep_char:
  assumes "is_lower_alnum c \<or> is_separator c"
  shows "fold_char c = c" "\<not> is_ascii_space c" "byte_of c < 0x7F" "0x20 \<le> byte_of c"
proof -
  have "(of_char c :: nat) \<in> {45, 46, 58, 95} \<union> {48..57} \<union> {97..122}"
    using assms by (auto simp: is_lower_alnum_def is_separator_def less_eq_char_def)
  then have n: "(of_char c :: nat) < 127" "32 < (of_char c :: nat)" "\<not> (65 \<le> (of_char c :: nat) \<and> (of_char c :: nat) \<le> 90)"
    "(of_char c :: nat) \<noteq> 47"
    by auto
  then show "fold_char c = c"
    by (auto simp: fold_char_def lower_char_def less_eq_char_def)
  show "\<not> is_ascii_space c" using n by (auto simp: is_ascii_space_def)
  have "unat (byte_of c) = of_char c" by (rule unat_byte_of)
  then show "byte_of c < 0x7F" "0x20 \<le> byte_of c"
    using n by (simp_all add: word_less_nat_alt word_le_nat_alt)
qed

lemma canonical_printable:
  "list_all (\<lambda>c. is_lower_alnum c \<or> is_separator c) s \<Longrightarrow> is_printable_text s"
proof (induction s)
  case (Cons c cs)
  have "byte_of c < 0x80" "\<not> byte_of c < 0x20" "byte_of c \<noteq> 0x7F"
    using alnum_or_sep_char(3,4)[of c] Cons.prems by (auto intro: less_trans)
  with Cons show ?case by (simp add: is_printable_text.simps Let_def)
qed simp

lemma dropWhile_hd: "s \<noteq> [] \<Longrightarrow> \<not> P (hd s) \<Longrightarrow> dropWhile P s = s"
  by (cases s) auto

lemma trim_canonical: "canonical_form s \<Longrightarrow> trim_spaces s = s"
proof -
  assume c: "canonical_form s"
  then have "s \<noteq> []" "\<not> is_ascii_space (hd s)" "\<not> is_ascii_space (hd (rev s))"
    using alnum_or_sep_char(2) by (auto simp: canonical_form_def hd_rev)
  then show ?thesis by (simp add: trim_spaces_def dropWhile_hd)
qed

lemma fold_canonical: "list_all (\<lambda>c. is_lower_alnum c \<or> is_separator c) s \<Longrightarrow> map fold_char s = s"
  by (induction s) (auto simp: alnum_or_sep_char(1))

lemma canonicalize_canonical:
  assumes "canonical_form s" and "length s \<le> max_id_length limits" and "length s \<le> kMaxRawIdBytes"
  shows "canonicalize_id s limits = Inr s"
proof -
  have parts: "s \<noteq> []" "list_all (\<lambda>c. is_lower_alnum c \<or> is_separator c) s" "is_lower_alnum (hd s)"
    using assms(1) by (simp_all add: canonical_form_def)
  have "hd s \<noteq> CHR ''/''" using parts(3) by (auto simp: is_lower_alnum_def less_eq_char_def)
  moreover have "scan_segments 0 False s = Inr False" using assms(1) by (simp add: canonical_form_scan)
  ultimately show ?thesis
    using parts assms(2,3) trim_canonical[OF assms(1)] canonical_printable[OF parts(2)]
      fold_canonical[OF parts(2)]
    by (simp add: canonicalize_id_def)
qed

lemma length_trim: "length (trim_spaces s) \<le> length s"
  unfolding trim_spaces_def by (metis length_dropWhile_le length_rev le_trans)

lemma canonicalize_ok:
  assumes "canonicalize_id raw limits = Inr c"
  shows "canonical_form c" "length c \<le> max_id_length limits" "length c \<le> kMaxRawIdBytes"
proof -
  define trimmed where "trimmed = trim_spaces raw"
  define body where "body = (if hd trimmed = CHR ''/'' then tl trimmed else trimmed)"
  have a: "length raw \<le> kMaxRawIdBytes" "trimmed \<noteq> []" "body \<noteq> []" "c = map fold_char body"
    "length c \<le> max_id_length limits" "is_lower_alnum (hd c)" "scan_segments 0 False c = Inr False"
    using assms by (auto simp: canonicalize_id_def Let_def ok_simps trimmed_def body_def split: if_splits)
  then show "canonical_form c" by (simp add: canonical_form_scan)
  show "length c \<le> max_id_length limits" by (rule a(5))
  have "length body \<le> length trimmed" by (simp add: body_def)
  also have "\<dots> \<le> length raw" unfolding trimmed_def by (rule length_trim)
  finally show "length c \<le> kMaxRawIdBytes" using a(1,4) by simp
qed

lemma from_canonical_iff:
  "from_canonical s limits = Inr i \<longleftrightarrow>
     i = BasicId s \<and> canonical_form s \<and> length s \<le> max_id_length limits \<and> length s \<le> kMaxRawIdBytes"
  using canonicalize_ok[of s limits] canonicalize_canonical[of s limits]
  by (auto simp: from_canonical_def ok_simps)

lemma hex_value_digit: "n < 16 \<Longrightarrow> hex_value (kHexDigits ! n) = int n"
proof -
  assume "n < 16"
  then have "n \<in> set [0..<16]" by simp
  then show ?thesis
    by (simp add: upt_rec) (auto simp: kHexDigits_def hex_value_def less_eq_char_def)
qed

lemma nibble_less: "unat (b AND 0x0F) < 16" for b :: u8
proof -
  have "b AND 0x0F \<le> 0x0F" by (rule word_and_le1)
  then show ?thesis by (simp add: word_le_nat_alt)
qed

lemma nibbles_recombine:
  "word_of_int (push_bit 4 (uint (drop_bit 4 b AND 0x0F)) OR uint (b AND 0x0F)) = b" for b :: u8
proof (rule bit_word_eqI)
  fix n assume n: "n < LENGTH(8)"
  have m: "0x0F = (mask 4 :: u8)" by (simp add: mask_eq_exp_minus_1)
  show "bit (word_of_int (push_bit 4 (uint (drop_bit 4 b AND 0x0F)) OR uint (b AND 0x0F)) :: u8) n \<longleftrightarrow> bit b n"
    using n unfolding m by (auto simp: bit_simps not_less)
qed

lemma parse_hex_pairs_hex: "parse_hex_pairs i (concat (map byte_hex bs)) = Inr bs"
proof (induction bs arbitrary: i)
  case (Cons b bs)
  have "hex_value (kHexDigits ! unat (drop_bit 4 b AND 0x0F)) = uint (drop_bit 4 b AND 0x0F)"
    "hex_value (kHexDigits ! unat (b AND 0x0F)) = uint (b AND 0x0F)"
    by (simp_all add: hex_value_digit nibble_less)
  with Cons show ?case by (simp add: byte_hex_def Let_def nibbles_recombine)
qed simp

lemma length_boot_hex: "length (boot_hex b) = 2 * length b"
  by (induction b) (auto simp: boot_hex_def byte_hex_def)

section \<open>Properties\<close>

text \<open>canonicalization is idempotent and lands in the documented grammar. Whatever a caller
  spells, an accepted identifier is a non-empty sequence of \<open>[a-z0-9._:-]\<close> that starts and ends
  with an alphanumeric character, has no two adjacent separators, respects the length limit, and
  canonicalizes to itself; so one identifier has exactly one stored spelling.\<close>

theorem canonicalize_id_idempotent:
  assumes "canonicalize_id raw limits = Inr c"
  shows "canonical_form c \<and> length c \<le> max_id_length limits \<and> canonicalize_id c limits = Inr c"
  using canonicalize_ok[OF assms] canonicalize_canonical by blast

theorem canonicalize_id_idempotent_witness:
  "canonicalize_id '' /Tenant/ACME:1 '' compiled_limits_ceiling = Inr ''tenant.acme:1'' \<and>
   canonicalize_id ''tenant.acme:1'' compiled_limits_ceiling = Inr ''tenant.acme:1''"
proof -
  have "canonicalize_id '' /Tenant/ACME:1 '' compiled_limits_ceiling = Inr ''tenant.acme:1''"
    by (simp add: canonicalize_id_def kMaxRawIdBytes_def is_printable_text.simps byte_of_def
        trim_spaces_def is_ascii_space_def fold_char_def lower_char_def less_eq_char_def
        compiled_limits_ceiling_def is_lower_alnum_def is_separator_def char_of_def bit_0 Let_def)
  with canonicalize_id_idempotent[OF this] show ?thesis by blast
qed

text \<open>the durable and wire readers accept exactly the canonical spellings. \<^verbatim>\<open>from_canonical\<close>
  succeeds on a byte string if and only if it matches the canonical grammar within the length
  limits, and then it returns those very bytes.\<close>

theorem from_canonical_exact:
  "(\<exists>i. from_canonical s limits = Inr (i :: 'tag basic_id)) \<longleftrightarrow>
     canonical_form s \<and> length s \<le> min (max_id_length limits) kMaxRawIdBytes"
  by (auto simp: from_canonical_iff)

text \<open>a boot id printed in hexadecimal parses back to the same 16 bytes.\<close>

theorem boot_hex_roundtrip:
  assumes "boot_wf b"
  shows "boot_parse_hex (boot_hex b) = Inr b"
  using assms parse_hex_pairs_hex[of 0 b]
  by (simp add: boot_parse_hex_def boot_wf_def length_boot_hex boot_hex_def[symmetric])

theorem boot_hex_roundtrip_witness:
  "boot_wf (0xDE # 0xAD # replicate 14 7) \<and>
   boot_parse_hex (boot_hex (0xDE # 0xAD # replicate 14 7)) = Inr (0xDE # 0xAD # replicate 14 7)"
proof -
  have "boot_wf (0xDE # 0xAD # replicate 14 7)" by (simp add: boot_wf_def boot_size_def)
  with boot_hex_roundtrip[OF this] show ?thesis by blast
qed

end
