(* ===== verification/Digest.thy ===== *)
theory Digest
  imports Ident "HOL-Library.While_Combinator"
begin

text \<open>
  \<^verbatim>\<open>src/digest.cpp\<close>: SHA-256 with its streaming interface, HMAC-SHA256, CRC-32C, FNV-1a and the
  constant-time comparison, on bytes. The streaming object keeps the eight chaining words, the
  buffered bytes (the first \<^verbatim>\<open>buffered_\<close> bytes of \<^verbatim>\<open>buffer_\<close>) and the byte count, which wraps at
  64 bits. The operating system's entropy source is not modelled.
\<close>

type_synonym digest = "u8 list"

definition bytes_of :: "string \<Rightarrow> u8 list" where
  "bytes_of s = map byte_of s"

definition chars_of :: "u8 list \<Rightarrow> string" where
  "chars_of bs = map (\<lambda>b. char_of (unat b)) bs"

definition digest_zero :: digest where "digest_zero = replicate 32 0"

definition digest_is_zero :: "digest \<Rightarrow> bool" where
  "digest_is_zero d \<longleftrightarrow> list_all (\<lambda>b. b = 0) d"

definition digest_hex :: "digest \<Rightarrow> string" where
  "digest_hex d = concat (map byte_hex d)"

definition short_hex :: "digest \<Rightarrow> nat \<Rightarrow> string" where
  "short_hex d n = (let full = digest_hex d in if n \<ge> length full then full else take n full)"

section \<open>SHA-256\<close>

definition kSha256K :: "u32 list" where
  "kSha256K = concat
     [[0x428a2f98, 0x71374491, 0xb5c0fbcf, 0xe9b5dba5, 0x3956c25b, 0x59f111f1, 0x923f82a4],
      [0xab1c5ed5, 0xd807aa98, 0x12835b01, 0x243185be, 0x550c7dc3, 0x72be5d74, 0x80deb1fe],
      [0x9bdc06a7, 0xc19bf174, 0xe49b69c1, 0xefbe4786, 0x0fc19dc6, 0x240ca1cc, 0x2de92c6f],
      [0x4a7484aa, 0x5cb0a9dc, 0x76f988da, 0x983e5152, 0xa831c66d, 0xb00327c8, 0xbf597fc7],
      [0xc6e00bf3, 0xd5a79147, 0x06ca6351, 0x14292967, 0x27b70a85, 0x2e1b2138, 0x4d2c6dfc],
      [0x53380d13, 0x650a7354, 0x766a0abb, 0x81c2c92e, 0x92722c85, 0xa2bfe8a1, 0xa81a664b],
      [0xc24b8b70, 0xc76c51a3, 0xd192e819, 0xd6990624, 0xf40e3585, 0x106aa070, 0x19a4c116],
      [0x1e376c08, 0x2748774c, 0x34b0bcb5, 0x391c0cb3, 0x4ed8aa4a, 0x5b9cca4f, 0x682e6ff3],
      [0x748f82ee, 0x78a5636f, 0x84c87814, 0x8cc70208, 0x90befffa, 0xa4506ceb, 0xbef9a3f7],
      [0xc67178f2]]"

definition rotr :: "u32 \<Rightarrow> nat \<Rightarrow> u32" where
  "rotr x n = drop_bit n x OR push_bit (32 - n) x"

definition big_sigma0 :: "u32 \<Rightarrow> u32" where
  "big_sigma0 x = rotr x 2 XOR rotr x 13 XOR rotr x 22"

definition big_sigma1 :: "u32 \<Rightarrow> u32" where
  "big_sigma1 x = rotr x 6 XOR rotr x 11 XOR rotr x 25"

definition small_sigma0 :: "u32 \<Rightarrow> u32" where
  "small_sigma0 x = rotr x 7 XOR rotr x 18 XOR drop_bit 3 x"

definition small_sigma1 :: "u32 \<Rightarrow> u32" where
  "small_sigma1 x = rotr x 17 XOR rotr x 19 XOR drop_bit 10 x"

record sha256 =
  sha_state :: "u32 list"
  sha_buffer :: "u8 list"
  sha_total :: u64

definition sha256_init :: sha256 where
  "sha256_init = \<lparr>sha_state = [0x6a09e667, 0xbb67ae85, 0x3c6ef372, 0xa54ff53a,
     0x510e527f, 0x9b05688c, 0x1f83d9ab, 0x5be0cd19], sha_buffer = [], sha_total = 0\<rparr>"

definition be_word :: "u8 list \<Rightarrow> nat \<Rightarrow> u32" where
  "be_word block i = push_bit 24 (ucast (block ! (i * 4))) OR push_bit 16 (ucast (block ! (i * 4 + 1))) OR
     push_bit 8 (ucast (block ! (i * 4 + 2))) OR ucast (block ! (i * 4 + 3))"

definition message_schedule :: "u8 list \<Rightarrow> u32 list" where
  "message_schedule block =
     fold (\<lambda>i w. w @ [small_sigma1 (w ! (i - 2)) + w ! (i - 7) + small_sigma0 (w ! (i - 15)) + w ! (i - 16)])
       [16..<64] (map (be_word block) [0..<16])"

fun sha_round :: "u32 list \<Rightarrow> nat \<Rightarrow> u32 \<times> u32 \<times> u32 \<times> u32 \<times> u32 \<times> u32 \<times> u32 \<times> u32 \<Rightarrow>
    u32 \<times> u32 \<times> u32 \<times> u32 \<times> u32 \<times> u32 \<times> u32 \<times> u32" where
  "sha_round w i (a, b, c, d, e, f, g, h) =
     (let t1 = h + big_sigma1 e + ((e AND f) XOR (NOT e AND g)) + kSha256K ! i + w ! i;
          t2 = big_sigma0 a + ((a AND b) XOR (a AND c) XOR (b AND c))
      in (t1 + t2, a, b, c, d + t1, e, f, g))"

definition compress :: "u32 list \<Rightarrow> u8 list \<Rightarrow> u32 list" where
  "compress st block =
     (let w = message_schedule block;
          (a, b, c, d, e, f, g, h) =
            fold (sha_round w) [0..<64]
              (st ! 0, st ! 1, st ! 2, st ! 3, st ! 4, st ! 5, st ! 6, st ! 7)
      in [st ! 0 + a, st ! 1 + b, st ! 2 + c, st ! 3 + d,
          st ! 4 + e, st ! 5 + f, st ! 6 + g, st ! 7 + h])"

text \<open>The loop over whole 64-byte blocks, and the tail that is left for the buffer.\<close>

function compress_blocks :: "u32 list \<Rightarrow> u8 list \<Rightarrow> u32 list \<times> u8 list" where
  "compress_blocks st bytes =
     (if length bytes \<ge> 64 then compress_blocks (compress st (take 64 bytes)) (drop 64 bytes)
      else (st, bytes))"
  by pat_completeness auto
termination
  by (relation "measure (\<lambda>(st, bytes). length bytes)") auto

declare compress_blocks.simps [simp del]

definition sha_absorb :: "sha256 \<Rightarrow> u8 list \<Rightarrow> sha256" where
  "sha_absorb s bytes =
     (let (st, tail) = compress_blocks (sha_state s) bytes in
      if length tail > 0 then s\<lparr>sha_state := st, sha_buffer := tail\<rparr> else s\<lparr>sha_state := st\<rparr>)"

definition sha_update :: "sha256 \<Rightarrow> u8 list \<Rightarrow> sha256" where
  "sha_update s0 bytes =
     (let s = s0\<lparr>sha_total := sha_total s0 + of_nat (length bytes)\<rparr> in
      if length (sha_buffer s) > 0 then
        (let need = 64 - length (sha_buffer s);
             taken = (if length bytes < need then length bytes else need);
             filled = sha_buffer s @ take taken bytes;
             s1 = (if length filled = 64
                   then s\<lparr>sha_state := compress (sha_state s) filled, sha_buffer := []\<rparr>
                   else s\<lparr>sha_buffer := filled\<rparr>)
         in sha_absorb s1 (drop taken bytes))
      else sha_absorb s bytes)"

definition be_bytes64 :: "u64 \<Rightarrow> u8 list" where
  "be_bytes64 v = map (\<lambda>i. ucast (drop_bit (56 - 8 * i) v AND 0xFF)) [0..<8]"

definition be_bytes32 :: "u32 \<Rightarrow> u8 list" where
  "be_bytes32 v = [ucast (drop_bit 24 v AND 0xFF), ucast (drop_bit 16 v AND 0xFF),
     ucast (drop_bit 8 v AND 0xFF), ucast (v AND 0xFF)]"

definition sha_finish :: "sha256 \<Rightarrow> digest" where
  "sha_finish s =
     (let bit_length = sha_total s * 8;
          s1 = sha_update s [0x80];
          s2 = while (\<lambda>s. length (sha_buffer s) \<noteq> 56) (\<lambda>s. sha_update s [0x00]) s1;
          s3 = sha_update s2 (be_bytes64 bit_length)
      in concat (map be_bytes32 (sha_state s3)))"

definition sha256_hash :: "u8 list \<Rightarrow> digest" where
  "sha256_hash bytes = sha_finish (sha_update sha256_init bytes)"

definition sha256_text :: "string \<Rightarrow> digest" where
  "sha256_text t = sha256_hash (bytes_of t)"

text \<open>\<^verbatim>\<open>BootId::from_seed\<close>.\<close>

definition boot_from_seed :: "string \<Rightarrow> boot_id" where
  "boot_from_seed seed = take boot_size (sha256_text (''priority-fabric/boot-id/v1:'' @ seed))"

section \<open>HMAC-SHA256\<close>

definition hmac_sha256 :: "u8 list \<Rightarrow> u8 list \<Rightarrow> digest" where
  "hmac_sha256 key data =
     (let material = (if length key > 64 then sha256_hash key else key);
          normalized = material @ replicate (64 - length material) 0;
          ipad = map (\<lambda>b. b XOR 0x36) normalized;
          opad = map (\<lambda>b. b XOR 0x5C) normalized;
          inner = sha_finish (sha_update (sha_update sha256_init ipad) data)
      in sha_finish (sha_update (sha_update sha256_init opad) inner))"

section \<open>CRC-32C, FNV-1a, comparison\<close>

definition kPoly :: u32 where "kPoly = 0x82F63B78"

definition crc_bit :: "u32 \<Rightarrow> u32" where
  "crc_bit crc = (if crc AND 1 \<noteq> 0 then drop_bit 1 crc XOR kPoly else drop_bit 1 crc)"

definition kCrc32cTable :: "u32 list" where
  "kCrc32cTable = map (\<lambda>i. (crc_bit ^^ 8) (of_nat i)) [0..<256]"

definition crc_step :: "u8 \<Rightarrow> u32 \<Rightarrow> u32" where
  "crc_step b crc = kCrc32cTable ! unat ((crc XOR ucast b) AND 0xFF) XOR drop_bit 8 crc"

definition crc32c_extend :: "u32 \<Rightarrow> u8 list \<Rightarrow> u32" where
  "crc32c_extend seed bytes = NOT (fold crc_step bytes (NOT seed))"

definition crc32c :: "u8 list \<Rightarrow> u32" where
  "crc32c bytes = crc32c_extend 0 bytes"

definition fnv1a64 :: "u8 list \<Rightarrow> u64" where
  "fnv1a64 bytes = fold (\<lambda>b h. (h XOR ucast b) * 1099511628211) bytes 14695981039346656037"

definition constant_time_equal :: "u8 list \<Rightarrow> u8 list \<Rightarrow> nat \<Rightarrow> bool" where
  "constant_time_equal a b n = (fold (\<lambda>i diff. diff OR (a ! i XOR b ! i)) [0..<n] 0 = 0)"

section \<open>Streaming lemmas\<close>

lemma compress_blocks_step:
  "length bytes \<ge> 64 \<Longrightarrow>
     compress_blocks st bytes = compress_blocks (compress st (take 64 bytes)) (drop 64 bytes)"
  "length bytes < 64 \<Longrightarrow> compress_blocks st bytes = (st, bytes)"
  by (auto simp: compress_blocks.simps[of st bytes])

lemma compress_blocks_tail: "length (snd (compress_blocks st bytes)) < 64"
proof (induction st bytes rule: compress_blocks.induct)
  case (1 st bytes)
  show ?case
  proof (cases "length bytes \<ge> 64")
    case True
    then show ?thesis using 1 by (subst compress_blocks_step(1)) simp_all
  qed (simp add: compress_blocks_step(2))
qed

lemma compress_blocks_append:
  "compress_blocks st (a @ b) =
     (let (st', tail) = compress_blocks st a in compress_blocks st' (tail @ b))"
proof (induction st a rule: compress_blocks.induct)
  case (1 st bytes)
  show ?case
  proof (cases "length bytes \<ge> 64")
    case True
    have "compress_blocks st (bytes @ b) =
        compress_blocks (compress st (take 64 bytes)) (drop 64 bytes @ b)"
      using True by (subst compress_blocks_step(1)) simp_all
    with 1 True show ?thesis by (simp add: compress_blocks_step(1)[of bytes st])
  qed (simp add: compress_blocks_step(2))
qed

text \<open>The state a stream is in depends only on the bytes seen so far.\<close>

definition sha_wf :: "sha256 \<Rightarrow> bool" where
  "sha_wf s \<longleftrightarrow> length (sha_buffer s) < 64"

definition sha_feed :: "sha256 \<Rightarrow> u8 list \<Rightarrow> sha256" where
  "sha_feed s bytes =
     (let (st, tail) = compress_blocks (sha_state s) (sha_buffer s @ bytes) in
      s\<lparr>sha_state := st, sha_buffer := tail, sha_total := sha_total s + of_nat (length bytes)\<rparr>)"

lemma sha_absorb_empty_buffer:
  "sha_buffer s = [] \<Longrightarrow>
     sha_absorb s bytes = (let (st, tail) = compress_blocks (sha_state s) bytes in
       s\<lparr>sha_state := st, sha_buffer := tail\<rparr>)"
  by (cases s) (auto simp: sha_absorb_def split: prod.splits)

lemma sha_absorb_Nil: "sha_absorb s [] = s"
  by (simp add: sha_absorb_def compress_blocks_step)

lemma sha_update_feed:
  assumes "sha_wf s"
  shows "sha_update s bytes = sha_feed s bytes"
proof (cases "sha_buffer s = []")
  case True
  then show ?thesis
    by (auto simp: sha_update_def sha_feed_def sha_absorb_empty_buffer Let_def split: prod.splits)
next
  case False
  define need where "need = 64 - length (sha_buffer s)"
  show ?thesis
  proof (cases "length bytes < need")
    case True
    then have "length (sha_buffer s @ bytes) < 64" by (simp add: need_def)
    with True False show ?thesis
      by (simp add: sha_update_def sha_feed_def Let_def need_def sha_absorb_Nil compress_blocks_step)
  next
    case ge: False
    have len: "length (sha_buffer s @ take need bytes) = 64"
      using ge assms by (simp add: need_def sha_wf_def)
    have "sha_buffer s @ bytes = (sha_buffer s @ take need bytes) @ drop need bytes" by simp
    then have "compress_blocks (sha_state s) (sha_buffer s @ bytes) =
        compress_blocks (compress (sha_state s) (sha_buffer s @ take need bytes)) (drop need bytes)"
      using len compress_blocks_step(1)[of "sha_buffer s @ bytes" "sha_state s"]
      by (metis append_eq_conv_conj le_add1 length_append)
    with ge False len show ?thesis
      by (simp add: sha_update_def sha_feed_def Let_def need_def[symmetric] sha_absorb_empty_buffer
          split: prod.splits)
  qed
qed

lemma sha_feed_wf: "sha_wf (sha_feed s bytes)"
  using compress_blocks_tail[of "sha_state s" "sha_buffer s @ bytes"]
  by (auto simp: sha_wf_def sha_feed_def split: prod.splits)

lemma sha_feed_feed: "sha_feed (sha_feed s a) b = sha_feed s (a @ b)"
  using compress_blocks_append[of "sha_state s" "sha_buffer s @ a" b]
  by (auto simp: sha_feed_def Let_def algebra_simps split: prod.splits)

lemma sha_update_update:
  "sha_wf s \<Longrightarrow> sha_update (sha_update s a) b = sha_update s (a @ b)"
  by (simp add: sha_update_feed sha_feed_wf sha_feed_feed)

lemma compress_blocks_tail_length: "length (snd (compress_blocks st bytes)) = length bytes mod 64"
proof (induction st bytes rule: compress_blocks.induct)
  case (1 st bytes)
  show ?case
  proof (cases "length bytes \<ge> 64")
    case True
    then show ?thesis using 1 by (subst compress_blocks_step(1)) (simp_all add: le_mod_geq)
  qed (simp add: compress_blocks_step(2))
qed

lemma sha_feed_buffer_length:
  "length (sha_buffer (sha_feed s bytes)) = (length (sha_buffer s) + length bytes) mod 64"
  using compress_blocks_tail_length[of "sha_state s" "sha_buffer s @ bytes"]
  by (auto simp: sha_feed_def split: prod.splits)

lemma pad_count_step:
  fixes L :: nat
  assumes "L < 64" and "(120 - L) mod 64 = Suc k"
  shows "(120 - (L + 1) mod 64) mod 64 = k"
proof (cases "L = 63")
  case False
  then have "120 - L = Suc (119 - L)" "(L + 1) mod 64 = L + 1" using assms(1) by simp_all
  with assms(2) show ?thesis by (simp add: mod_Suc split: if_splits)
qed (use assms in simp)

lemma pad_count_start: "(120 - (x + 1) mod 64) mod 64 = (119 - x mod 64) mod 64" for x :: nat
  by (simp add: mod_Suc)

lemma pad_count_total: "(x + 1 + (119 - x mod 64) mod 64 + 8) mod 64 = 0" for x :: nat
proof -
  define q r where "q = x div 64" and "r = x mod 64"
  have x: "x = 64 * q + r" "r < 64" by (simp_all add: q_def r_def)
  show ?thesis
  proof (cases "r \<le> 55")
    case True
    then have "(119 - r) mod 64 = 55 - r" by (simp add: le_mod_geq)
    then have "x + 1 + (119 - x mod 64) mod 64 + 8 = 64 * (q + 1)" using x True by simp
    then show ?thesis by (simp only: mod_mult_self1_is_0)
  next
    case False
    then have "x + 1 + (119 - x mod 64) mod 64 + 8 = 64 * (q + 2)" using x by simp
    then show ?thesis by (simp only: mod_mult_self1_is_0)
  qed
qed

text \<open>The zero-padding loop of \<^verbatim>\<open>finish\<close> terminates and appends the number of zero bytes that
  brings the buffer to 56.\<close>

lemma pad_loop:
  assumes "sha_wf s" and "(120 - length (sha_buffer s)) mod 64 = k"
  shows "while (\<lambda>s. length (sha_buffer s) \<noteq> 56) (\<lambda>s. sha_update s [0x00]) s = sha_feed s (replicate k 0)"
  using assms
proof (induction k arbitrary: s)
  case 0
  have L: "length (sha_buffer s) < 64" using 0 by (simp add: sha_wf_def)
  have "length (sha_buffer s) = 56"
  proof (cases "length (sha_buffer s) \<le> 56")
    case True
    with 0 L show ?thesis by (simp add: le_mod_geq)
  next
    case False
    with 0 L show ?thesis by simp
  qed
  then show ?case
    using 0 by (subst while_unfold) (simp add: sha_feed_def sha_wf_def compress_blocks_step)
next
  case (Suc k)
  let ?L = "length (sha_buffer s)"
  have L: "?L < 64" using Suc.prems(1) by (simp add: sha_wf_def)
  have ne: "?L \<noteq> 56" using Suc.prems(2) by auto
  have step: "sha_update s [0] = sha_feed s [0]" by (rule sha_update_feed[OF Suc.prems(1)])
  have len: "length (sha_buffer (sha_feed s [0])) = (?L + 1) mod 64"
    by (simp add: sha_feed_buffer_length)
  have "(120 - (?L + 1) mod 64) mod 64 = k"
    by (rule pad_count_step[OF L Suc.prems(2)])
  then have "while (\<lambda>s. length (sha_buffer s) \<noteq> 56) (\<lambda>s. sha_update s [0x00]) (sha_feed s [0]) =
      sha_feed (sha_feed s [0]) (replicate k 0)"
    using Suc.IH[of "sha_feed s [0]"] by (simp add: sha_feed_wf len)
  with ne show ?case
    by (subst while_unfold) (simp add: step sha_feed_feed)
qed

text \<open>The padded message of the standard: the message, one \<open>0x80\<close> byte, zeros, the bit length.\<close>

definition sha_padded :: "u8 list \<Rightarrow> u8 list" where
  "sha_padded m = m @ 0x80 # replicate ((119 - length m mod 64) mod 64) 0 @
     be_bytes64 (of_nat (length m) * 8)"

lemma length_sha_padded: "length (sha_padded m) mod 64 = 0"
proof -
  show ?thesis using pad_count_total[of "length m"] by (simp add: sha_padded_def be_bytes64_def add.assoc add.left_commute)
qed

definition sha256_reference :: "u8 list \<Rightarrow> digest" where
  "sha256_reference m = concat (map be_bytes32 (fst (compress_blocks (sha_state sha256_init) (sha_padded m))))"

lemma sha_init_wf: "sha_wf sha256_init"
  by (simp add: sha_wf_def sha256_init_def)

lemma sha_finish_feed:
  "sha_finish (sha_feed sha256_init m) = sha256_reference m"
proof -
  let ?s1 = "sha_feed sha256_init (m @ [0x80])"
  let ?k = "(119 - length m mod 64) mod 64"
  have len: "length (sha_buffer ?s1) = (length m + 1) mod 64"
    by (simp add: sha_feed_buffer_length sha256_init_def)
  have "(120 - (length m + 1) mod 64) mod 64 = ?k" by (rule pad_count_start)
  then have loop: "while (\<lambda>s. length (sha_buffer s) \<noteq> 56) (\<lambda>s. sha_update s [0x00]) ?s1 =
      sha_feed sha256_init (m @ 0x80 # replicate ?k 0)"
    using pad_loop[OF sha_feed_wf, of sha256_init "m @ [0x80]" ?k] len by (simp add: sha_feed_feed)
  have total: "sha_total (sha_feed sha256_init m) = of_nat (length m)"
    by (simp add: sha_feed_def sha256_init_def split: prod.splits)
  have "sha_finish (sha_feed sha256_init m) =
      concat (map be_bytes32 (sha_state (sha_feed sha256_init (sha_padded m))))"
    using loop by (simp add: sha_finish_def Let_def sha_update_feed sha_feed_wf sha_feed_feed total sha_padded_def)
  also have "sha_state (sha_feed sha256_init (sha_padded m)) =
      fst (compress_blocks (sha_state sha256_init) (sha_padded m))"
    by (simp add: sha_feed_def sha256_init_def split: prod.splits)
  finally show ?thesis by (simp add: sha256_reference_def)
qed

lemma be_bytes32_length: "length (be_bytes32 v) = 4"
  by (simp add: be_bytes32_def)

lemma compress_length: "length (compress st block) = 8"
  by (simp add: compress_def Let_def split: prod.splits)

lemma compress_blocks_length: "length st = 8 \<Longrightarrow> length (fst (compress_blocks st bytes)) = 8"
proof (induction st bytes rule: compress_blocks.induct)
  case (1 st bytes)
  show ?case
  proof (cases "length bytes \<ge> 64")
    case True
    then show ?thesis using 1 by (subst compress_blocks_step(1)) (simp_all add: compress_length)
  qed (use 1 in \<open>simp add: compress_blocks_step(2)\<close>)
qed

lemma sha256_hash_length: "length (sha256_hash m) = 32"
proof -
  have "length (concat (map be_bytes32 ws)) = 4 * length ws" for ws
    by (induction ws) (auto simp: be_bytes32_length)
  moreover have "length (sha_state sha256_init) = 8" by (simp add: sha256_init_def)
  ultimately show ?thesis
    by (simp add: sha256_hash_def sha_update_feed sha_init_wf sha_finish_feed sha256_reference_def
        compress_blocks_length)
qed

section \<open>CRC lemmas\<close>

lemma crc_bit_linear: "crc_bit (x XOR y) = crc_bit x XOR crc_bit y"
proof -
  have parity: "z AND 1 \<noteq> 0 \<longleftrightarrow> bit z 0" for z :: u32
    by (auto simp: and_one_eq bit_0 odd_iff_mod_2_eq_one)
  show ?thesis
    unfolding crc_bit_def parity
    by (rule bit_word_eqI) (auto simp: bit_simps)
qed

lemma crc_bits_linear: "(crc_bit ^^ n) (x XOR y) = (crc_bit ^^ n) x XOR (crc_bit ^^ n) y"
  by (induction n) (auto simp: crc_bit_linear)

lemma crc_bits_high:
  "n \<le> m \<Longrightarrow> (crc_bit ^^ n) (push_bit m z) = drop_bit n (push_bit m z)" for z :: u32
proof (induction n)
  case (Suc n)
  have "bit (drop_bit n (push_bit m z)) 0 = False" using Suc.prems by (simp add: bit_simps)
  then have "drop_bit n (push_bit m z) AND 1 = 0" by (simp add: and_one_eq bit_0 even_iff_mod_2_eq_zero)
  with Suc show ?case by (simp add: crc_bit_def)
qed simp

lemma crc_table_step: "crc_step b crc = (crc_bit ^^ 8) (crc XOR ucast b)"
proof -
  let ?x = "crc XOR ucast b"
  let ?lo = "?x AND 0xFF"
  have m: "0xFF = (mask 8 :: u32)" by (simp add: mask_eq_exp_minus_1)
  have split: "?x = ?lo XOR push_bit 8 (drop_bit 8 ?x)"
    unfolding m by (rule bit_word_eqI) (auto simp: bit_simps)
  have hi: "drop_bit 8 ?x = drop_bit 8 crc"
    by (rule bit_word_eqI) (auto simp: bit_simps dest: bit_imp_le_length)
  have lo: "unat ?lo < 256"
  proof -
    have "?lo \<le> 0xFF" by (rule word_and_le1)
    then show ?thesis by (simp add: word_le_nat_alt)
  qed
  have "(crc_bit ^^ 8) ?x = (crc_bit ^^ 8) ?lo XOR (crc_bit ^^ 8) (push_bit 8 (drop_bit 8 ?x))"
    by (subst split) (rule crc_bits_linear)
  also have "(crc_bit ^^ 8) (push_bit 8 (drop_bit 8 ?x)) = drop_bit 8 (push_bit 8 (drop_bit 8 ?x))"
    by (rule crc_bits_high) simp
  also have "\<dots> = drop_bit 8 crc"
    unfolding hi by (rule bit_word_eqI) (auto simp: bit_simps dest: bit_imp_le_length)
  also have "(crc_bit ^^ 8) ?lo = kCrc32cTable ! unat ?lo"
    using lo by (simp add: kCrc32cTable_def)
  finally show ?thesis by (simp add: crc_step_def)
qed

text \<open>The bit-serial CRC that the table stands for.\<close>

definition crc32c_bitwise :: "u32 \<Rightarrow> u8 list \<Rightarrow> u32" where
  "crc32c_bitwise seed bytes = NOT (fold (\<lambda>b crc. (crc_bit ^^ 8) (crc XOR ucast b)) bytes (NOT seed))"

lemma word_xor_zero: "a XOR b = 0 \<longleftrightarrow> a = b" for a b :: "'a::len word"
  by (metis xor.assoc xor.left_neutral xor.right_neutral xor_self_eq)

lemma fold_or_zero:
  "fold (\<lambda>i (d :: u8). d OR f i) xs d = 0 \<longleftrightarrow> d = 0 \<and> (\<forall>i \<in> set xs. f i = 0)"
  by (induction xs arbitrary: d) (auto simp: or_eq_0_iff)

lemma constant_time_equal_iff:
  assumes "n \<le> length a" and "n \<le> length b"
  shows "constant_time_equal a b n \<longleftrightarrow> take n a = take n b"
proof -
  have "constant_time_equal a b n \<longleftrightarrow> (\<forall>i < n. a ! i = b ! i)"
    by (auto simp: constant_time_equal_def fold_or_zero word_xor_zero)
  also have "\<dots> \<longleftrightarrow> take n a = take n b"
    using assms by (auto simp: list_eq_iff_nth_eq)
  finally show ?thesis .
qed

section \<open>Properties\<close>

text \<open>C38: the streaming SHA-256 computes the reference digest however the input is cut into
  \<^verbatim>\<open>update\<close> calls: feeding the pieces one after another and finishing gives the digest of the
  padded concatenation processed block by block, and it is always 32 bytes long.\<close>

theorem sha256_streaming_correct:
  "sha_finish (fold (\<lambda>piece s. sha_update s piece) pieces sha256_init) = sha256_reference (concat pieces) \<and>
   sha256_hash (concat pieces) = sha256_reference (concat pieces) \<and>
   length (sha256_hash (concat pieces)) = 32"
proof -
  have "sha_wf s \<Longrightarrow> fold (\<lambda>piece s. sha_update s piece) pieces (sha_feed s m) = sha_feed s (m @ concat pieces)"
    for s m
    by (induction pieces arbitrary: m) (auto simp: sha_update_feed sha_feed_wf sha_feed_feed)
  moreover have "sha_feed sha256_init [] = sha256_init"
    by (simp add: sha_feed_def sha256_init_def compress_blocks_step)
  ultimately have "fold (\<lambda>piece s. sha_update s piece) pieces sha256_init = sha_feed sha256_init (concat pieces)"
    using sha_init_wf by (metis append_Nil)
  then show ?thesis
    by (simp add: sha_finish_feed sha256_hash_length)
      (simp add: sha256_hash_def sha_update_feed sha_init_wf sha_finish_feed)
qed

text \<open>the table-driven CRC-32C equals the bit-serial definition over the reflected polynomial,
  and extending a checksum is checksumming the concatenation.\<close>

theorem crc32c_table_correct:
  "crc32c_extend seed bytes = crc32c_bitwise seed bytes \<and>
   crc32c_extend (crc32c_extend seed a) b = crc32c_extend seed (a @ b)"
proof -
  have "crc_step = (\<lambda>b crc. (crc_bit ^^ 8) (crc XOR ucast b))"
    by (intro ext) (rule crc_table_step)
  then show ?thesis by (simp add: crc32c_extend_def crc32c_bitwise_def)
qed

text \<open>the constant-time comparison agrees with equality of the compared prefixes.\<close>

theorem constant_time_equal_correct:
  assumes "n \<le> length a" and "n \<le> length b"
  shows "constant_time_equal a b n \<longleftrightarrow> take n a = take n b"
  by (rule constant_time_equal_iff[OF assms])

theorem constant_time_equal_correct_witness:
  "(2 :: nat) \<le> length [1, 2, 3 :: u8] \<and> (2 :: nat) \<le> length [1, 2, 4 :: u8] \<and>
   constant_time_equal [1, 2, 3] [1, 2, 4] 2"
  using constant_time_equal_correct[of 2 "[1, 2, 3]" "[1, 2, 4]"] by simp

end
