(* ===== verification/Checked.thy ===== *)
theory Checked
  imports Prelude
begin

text \<open>
  \<^verbatim>\<open>include/priority_fabric/checked.hpp\<close>: checked unsigned arithmetic, the generation and epoch
  counters and the precedence rank. The templates are modelled at every width at once: the
  type \<open>'a word\<close> stands for the unsigned type \<^verbatim>\<open>T\<close> and \<open>- 1\<close> for
  \<^verbatim>\<open>std::numeric_limits<T>::max()\<close>.
\<close>

section \<open>Checked arithmetic\<close>

definition checked_add :: "'a::len word \<Rightarrow> 'a word \<Rightarrow> 'a word option" where
  "checked_add a b = (if a > - 1 - b then None else Some (a + b))"

definition checked_mul :: "'a::len word \<Rightarrow> 'a word \<Rightarrow> 'a word option" where
  "checked_mul a b = (if a \<noteq> 0 \<and> b > - 1 div a then None else Some (a * b))"

definition checked_sub :: "'a::len word \<Rightarrow> 'a word \<Rightarrow> 'a word option" where
  "checked_sub a b = (if b > a then None else Some (a - b))"

text \<open>\<^verbatim>\<open>checked_narrow\<close> between unsigned types, which is how the encoder uses it.\<close>

definition checked_narrow :: "'a::len word \<Rightarrow> 'b::len word option" where
  "checked_narrow v = (if unat v > unat (- 1 :: 'b word) then None else Some (ucast v))"

section \<open>Counters and ranks\<close>

type_synonym generation = u64
type_synonym fabric_epoch = u64

definition gen_unset :: generation where "gen_unset = 0"
definition gen_first :: generation where "gen_first = 1"

definition gen_is_set :: "generation \<Rightarrow> bool" where
  "gen_is_set g \<longleftrightarrow> g \<noteq> 0"

definition gen_next :: "generation \<Rightarrow> generation option" where
  "gen_next g = (if g = - 1 then None else Some (g + 1))"

definition is_established :: "fabric_epoch \<Rightarrow> bool" where
  "is_established e \<longleftrightarrow> e \<noteq> 0"

definition epoch_next :: "fabric_epoch \<Rightarrow> fabric_epoch option" where
  "epoch_next e = (if e = - 1 then None else Some (e + 1))"

record precedence_rank =
  rank_value :: u32
  rank_assigned :: bool

definition kMaxRank :: u32 where "kMaxRank = 1000000"

definition rank_make :: "u32 \<Rightarrow> precedence_rank" where
  "rank_make v = \<lparr>rank_value = v, rank_assigned = True\<rparr>"

definition rank_undeclared :: precedence_rank where
  "rank_undeclared = \<lparr>rank_value = 0, rank_assigned = False\<rparr>"

definition rank_eq :: "precedence_rank \<Rightarrow> precedence_rank \<Rightarrow> bool" where
  "rank_eq a b \<longleftrightarrow> rank_assigned a = rank_assigned b \<and>
     (\<not> rank_assigned a \<or> rank_value a = rank_value b)"

definition rank_less :: "precedence_rank \<Rightarrow> precedence_rank \<Rightarrow> bool" where
  "rank_less a b \<longleftrightarrow> rank_value a < rank_value b"

section \<open>Lemmas\<close>

lemma unat_max_word: "unat (- 1 :: 'a::len word) = 2 ^ LENGTH('a) - 1"
  by (simp add: unsigned_minus_1_eq_mask mask_eq_exp_minus_1)

lemma unat_minus_one_minus: "unat (- 1 - b :: 'a::len word) = 2 ^ LENGTH('a) - 1 - unat b"
  using unat_sub[of b "- 1"] by (simp add: unat_max_word)

lemma checked_add_spec:
  "checked_add a b = (if unat a + unat b < 2 ^ LENGTH('a) then Some (a + b) else None)"
  for a b :: "'a::len word"
proof -
  have "unat b < 2 ^ LENGTH('a)" by (rule unsigned_less)
  then have "a > - 1 - b \<longleftrightarrow> \<not> unat a + unat b < 2 ^ LENGTH('a)"
    unfolding word_less_nat_alt unat_minus_one_minus by linarith
  then show ?thesis by (simp add: checked_add_def)
qed

lemma checked_mul_spec:
  "checked_mul a b = (if unat a * unat b < 2 ^ LENGTH('a) then Some (a * b) else None)"
  for a b :: "'a::len word"
proof (cases "a = 0")
  case True
  then show ?thesis by (simp add: checked_mul_def)
next
  case False
  then have pos: "0 < unat a" by (simp add: unat_gt_0)
  have "b > - 1 div a \<longleftrightarrow> unat b > (2 ^ LENGTH('a) - 1) div unat a"
    by (simp add: word_less_nat_alt unat_div unat_max_word)
  also have "\<dots> \<longleftrightarrow> unat b * unat a > 2 ^ LENGTH('a) - 1"
    using pos by (simp add: div_less_iff_less_mult)
  also have "\<dots> \<longleftrightarrow> \<not> unat a * unat b < 2 ^ LENGTH('a)"
    using zero_less_power[of "2::nat" "LENGTH('a)"] by (simp only: mult.commute[of "unat b"]) arith
  finally show ?thesis using False by (simp add: checked_mul_def)
qed

lemma gen_next_Some: "gen_next g = Some g' \<Longrightarrow> g < g' \<and> g' \<noteq> 0 \<and> unat g' = Suc (unat g)"
proof -
  assume a: "gen_next g = Some g'"
  then have g: "g \<noteq> - 1" "g' = g + 1" by (auto simp: gen_next_def split: if_splits)
  have ne: "1 + g \<noteq> 0" using g(1) by (metis add.commute add_eq_0_iff)
  have u: "unat (1 + g) = Suc (unat g)" by (rule unatSuc[OF ne])
  show ?thesis using g ne u by (simp add: word_less_nat_alt add.commute)
qed

lemma epoch_next_Some: "epoch_next g = Some g' \<Longrightarrow> g < g' \<and> g' \<noteq> 0"
  using gen_next_Some[of g g'] by (simp add: epoch_next_def gen_next_def)

text \<open>checked addition and multiplication return exactly the mathematical result when it
  fits the unsigned type, and report the wrap otherwise; subtraction and narrowing likewise
  never lose information.\<close>

theorem checked_arithmetic_exact:
  fixes a b :: "'a::len word"
  shows "map_option unat (checked_add a b) =
           (if unat a + unat b < 2 ^ LENGTH('a) then Some (unat a + unat b) else None) \<and>
         map_option unat (checked_mul a b) =
           (if unat a * unat b < 2 ^ LENGTH('a) then Some (unat a * unat b) else None) \<and>
         map_option unat (checked_sub a b) =
           (if unat b \<le> unat a then Some (unat a - unat b) else None) \<and>
         map_option unat (checked_narrow a :: 'b::len word option) =
           (if unat a < 2 ^ LENGTH('b) then Some (unat a) else None)"
proof (intro conjI)
  show "map_option unat (checked_add a b) =
      (if unat a + unat b < 2 ^ LENGTH('a) then Some (unat a + unat b) else None)"
    by (simp add: checked_add_spec unat_add_lem[symmetric])
  show "map_option unat (checked_mul a b) =
      (if unat a * unat b < 2 ^ LENGTH('a) then Some (unat a * unat b) else None)"
    by (simp add: checked_mul_spec unat_mult_lem[symmetric])
  show "map_option unat (checked_sub a b) =
      (if unat b \<le> unat a then Some (unat a - unat b) else None)"
    by (auto simp: checked_sub_def word_less_nat_alt unat_sub word_le_nat_alt)
  have "unat (- 1 :: 'b word) = 2 ^ LENGTH('b) - 1" by (rule unat_max_word)
  moreover have "0 < (2 :: nat) ^ LENGTH('b)" by simp
  ultimately have "unat a > unat (- 1 :: 'b word) \<longleftrightarrow> \<not> unat a < 2 ^ LENGTH('b)"
    by linarith
  then show "map_option unat (checked_narrow a :: 'b::len word option) =
      (if unat a < 2 ^ LENGTH('b) then Some (unat a) else None)"
    by (auto simp: checked_narrow_def unsigned_ucast_eq take_bit_nat_eq_self_iff)
qed

end
