(* ===== verification/Model.thy ===== *)
theory Model
  imports Digest Checked
begin

text \<open>
  \<^verbatim>\<open>include/priority_fabric/model.hpp\<close>, \<^verbatim>\<open>src/model.cpp\<close> and the types of
  \<^verbatim>\<open>include/priority_fabric/decision.hpp\<close>: the definitions the fabric stores, their provenance,
  audit records, queries and decisions. Every struct is a record with the source's fields in the
  source's order; every enumeration is a datatype with its wire value and its text.
\<close>

section \<open>Enumerations\<close>

datatype class_kind = Standard | Tenant | System | Emergency
datatype conflict_resolution = Deny | HigherPrecedence | AssignmentIdOrder
datatype assignment_kind = Explicit | Inherited | Override | Exception | Default
datatype authority_state = Granted | Superseded | Fenced | Expired
datatype outcome =
    Out_Assigned | Out_Inherited | Out_Overridden | Out_Conflict
  | Out_Unknown | Out_Stale | Out_Fenced | Out_Rejected
datatype health = Healthy | Degraded

fun class_kind_value :: "class_kind \<Rightarrow> u8" where
  "class_kind_value Standard = 0"
| "class_kind_value Tenant = 1"
| "class_kind_value System = 2"
| "class_kind_value Emergency = 3"

definition class_kind_of :: "u8 \<Rightarrow> class_kind" where
  "class_kind_of v = (if v = 0 then Standard else if v = 1 then Tenant else if v = 2 then System else Emergency)"

fun conflict_resolution_value :: "conflict_resolution \<Rightarrow> u8" where
  "conflict_resolution_value Deny = 0"
| "conflict_resolution_value HigherPrecedence = 1"
| "conflict_resolution_value AssignmentIdOrder = 2"

definition conflict_resolution_of :: "u8 \<Rightarrow> conflict_resolution" where
  "conflict_resolution_of v = (if v = 0 then Deny else if v = 1 then HigherPrecedence else AssignmentIdOrder)"

fun assignment_kind_value :: "assignment_kind \<Rightarrow> u8" where
  "assignment_kind_value Explicit = 0"
| "assignment_kind_value Inherited = 1"
| "assignment_kind_value Override = 2"
| "assignment_kind_value Exception = 3"
| "assignment_kind_value Default = 4"

definition assignment_kind_of :: "u8 \<Rightarrow> assignment_kind" where
  "assignment_kind_of v =
     (if v = 0 then Explicit else if v = 1 then Inherited else if v = 2 then Override
      else if v = 3 then Exception else Default)"

fun authority_state_value :: "authority_state \<Rightarrow> u8" where
  "authority_state_value Granted = 0"
| "authority_state_value Superseded = 1"
| "authority_state_value Fenced = 2"
| "authority_state_value Expired = 3"

definition authority_state_of :: "u8 \<Rightarrow> authority_state" where
  "authority_state_of v =
     (if v = 0 then Granted else if v = 1 then Superseded else if v = 2 then Fenced else Expired)"

fun outcome_value :: "outcome \<Rightarrow> u8" where
  "outcome_value Out_Assigned = 0"
| "outcome_value Out_Inherited = 1"
| "outcome_value Out_Overridden = 2"
| "outcome_value Out_Conflict = 3"
| "outcome_value Out_Unknown = 4"
| "outcome_value Out_Stale = 5"
| "outcome_value Out_Fenced = 6"
| "outcome_value Out_Rejected = 7"

definition outcome_of :: "u8 \<Rightarrow> outcome" where
  "outcome_of v =
     (if v = 0 then Out_Assigned else if v = 1 then Out_Inherited else if v = 2 then Out_Overridden
      else if v = 3 then Out_Conflict else if v = 4 then Out_Unknown else if v = 5 then Out_Stale
      else if v = 6 then Out_Fenced else Out_Rejected)"

fun health_value :: "health \<Rightarrow> u8" where
  "health_value Healthy = 0"
| "health_value Degraded = 1"

definition health_of :: "u8 \<Rightarrow> health" where
  "health_of v = (if v = 0 then Healthy else Degraded)"

text \<open>Text of the enumerations, and the case-insensitive table lookup that parses it.\<close>

fun class_kind_to_string :: "class_kind \<Rightarrow> string" where
  "class_kind_to_string Standard = ''standard''"
| "class_kind_to_string Tenant = ''tenant''"
| "class_kind_to_string System = ''system''"
| "class_kind_to_string Emergency = ''emergency''"

fun conflict_resolution_to_string :: "conflict_resolution \<Rightarrow> string" where
  "conflict_resolution_to_string Deny = ''deny''"
| "conflict_resolution_to_string HigherPrecedence = ''higher-precedence''"
| "conflict_resolution_to_string AssignmentIdOrder = ''assignment-id-order''"

fun assignment_kind_to_string :: "assignment_kind \<Rightarrow> string" where
  "assignment_kind_to_string Explicit = ''explicit''"
| "assignment_kind_to_string Inherited = ''inherited''"
| "assignment_kind_to_string Override = ''override''"
| "assignment_kind_to_string Exception = ''exception''"
| "assignment_kind_to_string Default = ''default''"

fun authority_state_to_string :: "authority_state \<Rightarrow> string" where
  "authority_state_to_string Granted = ''granted''"
| "authority_state_to_string Superseded = ''superseded''"
| "authority_state_to_string Fenced = ''fenced''"
| "authority_state_to_string Expired = ''expired''"

fun outcome_to_string :: "outcome \<Rightarrow> string" where
  "outcome_to_string Out_Assigned = ''ASSIGNED''"
| "outcome_to_string Out_Inherited = ''INHERITED''"
| "outcome_to_string Out_Overridden = ''OVERRIDDEN''"
| "outcome_to_string Out_Conflict = ''CONFLICT''"
| "outcome_to_string Out_Unknown = ''UNKNOWN''"
| "outcome_to_string Out_Stale = ''STALE''"
| "outcome_to_string Out_Fenced = ''FENCED''"
| "outcome_to_string Out_Rejected = ''REJECTED''"

definition outcome_carries_authority :: "outcome \<Rightarrow> bool" where
  "outcome_carries_authority out \<longleftrightarrow> out \<in> {Out_Assigned, Out_Inherited, Out_Overridden}"

definition enum_lookup :: "(string \<times> u8) list \<Rightarrow> string \<Rightarrow> u8 option" where
  "enum_lookup table t = map_of table (ascii_lower t)"

definition kClassKinds :: "(string \<times> u8) list" where
  "kClassKinds = [(''standard'', 0), (''tenant'', 1), (''system'', 2), (''emergency'', 3)]"

definition kConflictModes :: "(string \<times> u8) list" where
  "kConflictModes = [(''deny'', 0), (''higher-precedence'', 1), (''higher_precedence'', 1),
     (''assignment-id-order'', 2)]"

definition kAssignmentKinds :: "(string \<times> u8) list" where
  "kAssignmentKinds = [(''explicit'', 0), (''inherited'', 1), (''override'', 2), (''exception'', 3),
     (''default'', 4)]"

definition parse_class_kind :: "string \<Rightarrow> class_kind option" where
  "parse_class_kind t = map_option class_kind_of (enum_lookup kClassKinds t)"

definition parse_conflict_resolution :: "string \<Rightarrow> conflict_resolution option" where
  "parse_conflict_resolution t = map_option conflict_resolution_of (enum_lookup kConflictModes t)"

definition parse_assignment_kind :: "string \<Rightarrow> assignment_kind option" where
  "parse_assignment_kind t = map_option assignment_kind_of (enum_lookup kAssignmentKinds t)"

section \<open>Definitions\<close>

record priority_class_def =
  cd_id :: class_id
  cd_generation :: generation
  cd_precedence :: precedence_rank
  cd_kind :: class_kind
  cd_inherits_from :: "class_id list"
  cd_description :: string
  cd_privileged :: bool

record policy_scope_def =
  sd_id :: scope_id
  sd_generation :: generation
  sd_parent :: "scope_id option"
  sd_conflict_resolution :: conflict_resolution
  sd_unknown_default :: "class_id option"
  sd_allow_override :: bool
  sd_description :: string

record policy_def =
  pd_id :: policy_id
  pd_generation :: generation
  pd_scope :: scope_id
  pd_scope_generation :: generation
  pd_visible_classes :: "class_id list"
  pd_conflict_resolution :: "conflict_resolution option"
  pd_unknown_default :: "class_id option"
  pd_require_policy_for_assignment :: bool
  pd_description :: string

record subject_def =
  ud_id :: subject_id
  ud_generation :: generation
  ud_inherits_from :: "subject_id list"
  ud_description :: string

record priority_assignment =
  as_id :: assignment_id
  as_generation :: generation
  as_subject :: subject_id
  as_subject_generation :: generation
  as_scope :: scope_id
  as_scope_generation :: generation
  as_cls :: class_id
  as_class_generation :: generation
  as_kind :: assignment_kind
  as_displaces :: "class_id option"
  as_policy :: "policy_id option"
  as_policy_generation :: generation
  as_note :: string

section \<open>Provenance and audit\<close>

record provenance =
  pv_publisher :: publisher_id
  pv_boot :: boot_id
  pv_epoch :: fabric_epoch
  pv_token :: fencing_token
  pv_state_generation :: generation
  pv_audit_sequence :: u64
  pv_recorded_at_ms :: u64
  pv_op :: string

definition provenance_none :: provenance where
  "provenance_none = \<lparr>pv_publisher = id_none, pv_boot = boot_zero, pv_epoch = 0, pv_token = 0,
     pv_state_generation = gen_unset, pv_audit_sequence = 0, pv_recorded_at_ms = 0, pv_op = []\<rparr>"

record audit_entry =
  au_sequence :: u64
  au_op :: string
  au_result :: status_code
  au_detail :: string
  au_provenance :: provenance
  au_state_generation :: generation
  au_digest :: digest

section \<open>Queries and decisions\<close>

record explanation_step =
  ex_stage :: string
  ex_code :: string
  ex_detail :: string
  ex_assignment :: "assignment_id option"
  ex_assignment_generation :: generation
  ex_cls :: "class_id option"
  ex_class_generation :: generation
  ex_scope :: "scope_id option"
  ex_policy :: "policy_id option"
  ex_provenance :: provenance

definition plain_step :: "string \<Rightarrow> string \<Rightarrow> string \<Rightarrow> explanation_step" where
  "plain_step stage code detail = \<lparr>ex_stage = stage, ex_code = code, ex_detail = detail,
     ex_assignment = None, ex_assignment_generation = gen_unset, ex_cls = None,
     ex_class_generation = gen_unset, ex_scope = None, ex_policy = None,
     ex_provenance = provenance_none\<rparr>"

record evidence_note =
  ev_assignment :: assignment_id
  ev_assignment_generation :: generation
  ev_cls :: class_id
  ev_class_generation :: generation
  ev_scope :: scope_id
  ev_via_subject :: "subject_id option"
  ev_reason_code :: string
  ev_reason :: string
  ev_provenance :: provenance

record priority_decision =
  de_outcome :: outcome
  de_authoritative :: bool
  de_cls :: class_id
  de_class_generation :: generation
  de_precedence :: precedence_rank
  de_chain :: "explanation_step list"
  de_superseded :: "evidence_note list"
  de_rejected_evidence :: "evidence_note list"
  de_conflicts :: "string list"
  de_reason_code :: string
  de_reason :: string
  de_resolution :: string
  de_epoch :: fabric_epoch
  de_state_generation :: generation
  de_policy_generation :: generation
  de_scope_generation :: generation
  de_digest :: digest
  de_privileged_class :: bool

definition decision_default :: priority_decision where
  "decision_default = \<lparr>de_outcome = Out_Unknown, de_authoritative = False, de_cls = id_none,
     de_class_generation = gen_unset, de_precedence = rank_undeclared, de_chain = [],
     de_superseded = [], de_rejected_evidence = [], de_conflicts = [], de_reason_code = [],
     de_reason = [], de_resolution = [], de_epoch = 0, de_state_generation = gen_unset,
     de_policy_generation = gen_unset, de_scope_generation = gen_unset,
     de_digest = digest_zero, de_privileged_class = False\<rparr>"

record priority_query =
  qu_subject :: subject_id
  qu_subject_generation :: generation
  qu_scope :: scope_id
  qu_as_of_epoch :: "fabric_epoch option"
  qu_require_policy_generation :: generation
  qu_require_scope_generation :: generation
  qu_strict_conflicts :: bool
  qu_max_explanation_steps :: u32
  qu_correlation :: u64

section \<open>Properties\<close>

lemma ascii_lower_simps [simp]:
  "ascii_lower [] = []" "ascii_lower (c # cs) = lower_char c # ascii_lower cs"
  by (simp_all add: ascii_lower_def)

lemma class_kind_wire [simp]: "class_kind_of (class_kind_value k) = k" "\<not> class_kind_value k > 3"
  by (cases k; simp add: class_kind_of_def)+

lemma conflict_resolution_wire [simp]:
  "conflict_resolution_of (conflict_resolution_value m) = m" "\<not> conflict_resolution_value m > 2"
  by (cases m; simp add: conflict_resolution_of_def)+

lemma assignment_kind_wire [simp]:
  "assignment_kind_of (assignment_kind_value a) = a" "\<not> assignment_kind_value a > 4"
  by (cases a; simp add: assignment_kind_of_def)+

lemma authority_state_wire [simp]:
  "authority_state_of (authority_state_value s) = s" "\<not> authority_state_value s > 3"
  by (cases s; simp add: authority_state_of_def)+

lemma outcome_wire [simp]: "outcome_of (outcome_value out) = out" "\<not> outcome_value out > 7"
  by (cases out; simp add: outcome_of_def)+

lemma health_wire [simp]: "health_of (health_value h) = h" "\<not> health_value h > 1"
  by (cases h; simp add: health_of_def)+

text \<open>the text of every class kind, conflict mode and assignment kind parses back to it, and
  so does its wire value; a text whose lower-case form is in no table parses to nothing.\<close>

theorem enum_text_roundtrip:
  "parse_class_kind (class_kind_to_string k) = Some k \<and>
   parse_conflict_resolution (conflict_resolution_to_string m) = Some m \<and>
   parse_assignment_kind (assignment_kind_to_string a) = Some a \<and>
   class_kind_of (class_kind_value k) = k \<and>
   conflict_resolution_of (conflict_resolution_value m) = m \<and>
   assignment_kind_of (assignment_kind_value a) = a \<and>
   authority_state_of (authority_state_value s) = s \<and> outcome_of (outcome_value out) = out \<and>
   (parse_class_kind t = None \<longleftrightarrow> ascii_lower t \<notin> fst ` set kClassKinds)"
proof (intro conjI)
  show "parse_class_kind (class_kind_to_string k) = Some k"
    by (cases k) (simp_all add: parse_class_kind_def enum_lookup_def kClassKinds_def class_kind_of_def
        lower_char_def less_eq_char_def)
  show "parse_conflict_resolution (conflict_resolution_to_string m) = Some m"
    by (cases m) (simp_all add: parse_conflict_resolution_def enum_lookup_def kConflictModes_def
        conflict_resolution_of_def lower_char_def less_eq_char_def)
  show "parse_assignment_kind (assignment_kind_to_string a) = Some a"
    by (cases a) (simp_all add: parse_assignment_kind_def enum_lookup_def kAssignmentKinds_def
        assignment_kind_of_def lower_char_def less_eq_char_def)
  show "parse_class_kind t = None \<longleftrightarrow> ascii_lower t \<notin> fst ` set kClassKinds"
    by (simp add: parse_class_kind_def enum_lookup_def map_of_eq_None_iff)
qed simp_all

end
