(* ===== verification/Codec.thy ===== *)
theory Codec
  imports Model
begin

text \<open>
  \<^verbatim>\<open>include/priority_fabric/codec.hpp\<close> and \<^verbatim>\<open>src/codec.cpp\<close>: the little-endian encoder and the
  bounds-checked decoder. An encoder is the list of bytes it appended; a decoder is the list of
  bytes it has not read yet, and a read returns the value with the remaining bytes or a status.

  The locale \<open>field_codec\<close> is the contract between an encoder and a decoder of one field, and
  \<open>canonical_codec\<close> adds that a value has exactly one accepted byte sequence.
\<close>

section \<open>Little-endian integers\<close>

fun le_bytes :: "u64 \<Rightarrow> nat \<Rightarrow> string" where
  "le_bytes value 0 = []"
| "le_bytes value (Suc i) = le_bytes value i @ [char_of (unat (drop_bit (8 * i) value AND 0xFF))]"

definition append_le :: "string \<Rightarrow> u64 \<Rightarrow> nat \<Rightarrow> string" where
  "append_le buffer value width = buffer @ le_bytes value width"

fun read_le :: "string \<Rightarrow> nat \<Rightarrow> u64" where
  "read_le data 0 = 0"
| "read_le data (Suc i) = read_le data i OR push_bit (8 * i) (ucast (byte_of (data ! i)))"

section \<open>Encoder\<close>

definition enc_u8 :: "u8 \<Rightarrow> string" where
  "enc_u8 v = [char_of (unat v)]"

definition enc_u16 :: "u16 \<Rightarrow> string" where
  "enc_u16 v = append_le [] (ucast v) 2"

definition enc_u32 :: "u32 \<Rightarrow> string" where
  "enc_u32 v = append_le [] (ucast v) 4"

definition enc_u64 :: "u64 \<Rightarrow> string" where
  "enc_u64 v = append_le [] v 8"

definition enc_bool :: "bool \<Rightarrow> string" where
  "enc_bool v = enc_u8 (if v then 1 else 0)"

definition enc_raw :: "u8 list \<Rightarrow> string" where
  "enc_raw bytes = chars_of bytes"

definition enc_str :: "string \<Rightarrow> string" where
  "enc_str t =
     (let encoded_length =
        (case checked_narrow (of_nat (length t) :: u64) of Some n \<Rightarrow> n | None \<Rightarrow> (0 :: u32))
      in enc_u32 encoded_length @ (if encoded_length \<noteq> 0 then take (unat encoded_length) t else []))"

section \<open>Decoder\<close>

type_synonym 'a decoder = "string \<Rightarrow> ('a \<times> string) result"

definition dec_return :: "'a \<Rightarrow> 'a decoder" where
  "dec_return x s = Inr (x, s)"

definition dec_fail :: "status \<Rightarrow> 'a decoder" where
  "dec_fail e s = Inl e"

definition dec_bind :: "'a decoder \<Rightarrow> ('a \<Rightarrow> 'b decoder) \<Rightarrow> 'b decoder" where
  "dec_bind m f s = rbind (m s) (\<lambda>(x, s'). f x s')"

definition dec_take :: "nat \<Rightarrow> string decoder" where
  "dec_take n s =
     (if n > length s then
        Inl (make_error St_Truncated
          (cat [''decoder underrun: wanted '', to_dec n, '' bytes, '', to_dec (length s), '' remain'']))
      else Inr (take n s, drop n s))"

definition dec_u8 :: "u8 decoder" where
  "dec_u8 = dec_bind (dec_take 1) (\<lambda>b. dec_return (byte_of (b ! 0)))"

definition dec_u16 :: "u16 decoder" where
  "dec_u16 = dec_bind (dec_take 2) (\<lambda>b. dec_return (ucast (read_le b 2)))"

definition dec_u32 :: "u32 decoder" where
  "dec_u32 = dec_bind (dec_take 4) (\<lambda>b. dec_return (ucast (read_le b 4)))"

definition dec_u64 :: "u64 decoder" where
  "dec_u64 = dec_bind (dec_take 8) (\<lambda>b. dec_return (read_le b 8))"

definition dec_bool :: "bool decoder" where
  "dec_bool = dec_bind dec_u8 (\<lambda>v.
     if v > 1 then
       dec_fail (make_error St_ProtocolError
         (cat [''boolean field carried the invalid value '', u_dec v]))
     else dec_return (v = 1))"

definition dec_raw :: "nat \<Rightarrow> string decoder" where
  "dec_raw n = dec_take n"

definition dec_bytes :: "nat \<Rightarrow> u8 list decoder" where
  "dec_bytes n = dec_bind (dec_raw n) (\<lambda>b. dec_return (bytes_of b))"

definition dec_str :: "nat \<Rightarrow> string decoder" where
  "dec_str bound = dec_bind dec_u32 (\<lambda>len.
     if unat len > bound then
       dec_fail (make_error St_LimitExceeded
         (cat [''length-prefixed field declares '', u_dec len, '' bytes, limit is '', to_dec bound]))
     else dec_raw (unat len))"

definition dec_id :: "limits \<Rightarrow> 'tag basic_id decoder" where
  "dec_id limits = dec_bind (dec_str (max_id_length limits)) (\<lambda>raw_value s.
     rbind (from_canonical raw_value limits) (\<lambda>i. Inr (i, s)))"

definition dec_finish :: "string \<Rightarrow> void_result" where
  "dec_finish s =
     (if s \<noteq> [] then
        Inl (make_error St_ProtocolError
          (cat [''trailing bytes after a complete value: '', to_dec (length s), '' unexpected byte(s)'']))
      else Inr ())"

text \<open>A decoder run over a whole payload, ending with \<^verbatim>\<open>finish\<close>.\<close>

definition dec_whole :: "'a decoder \<Rightarrow> string \<Rightarrow> 'a result" where
  "dec_whole m payload = rbind (m payload) (\<lambda>(x, rest). rbind (dec_finish rest) (\<lambda>_. Inr x))"

text \<open>A counted loop that reads one item per iteration.\<close>

fun dec_repeat :: "nat \<Rightarrow> 'a decoder \<Rightarrow> 'a list decoder" where
  "dec_repeat 0 m = dec_return []"
| "dec_repeat (Suc n) m = dec_bind m (\<lambda>x. dec_bind (dec_repeat n m) (\<lambda>xs. dec_return (x # xs)))"

text \<open>An optional field: a presence flag and, when it is set, the value. A counted list: a 32-bit
  count, checked against a bound before anything is allocated, and the items. A nested blob: a
  length-prefixed field holding a complete encoding of its own.\<close>

definition enc_opt :: "('a \<Rightarrow> string) \<Rightarrow> 'a option \<Rightarrow> string" where
  "enc_opt enc v = enc_bool (v \<noteq> None) @ (case v of None \<Rightarrow> [] | Some x \<Rightarrow> enc x)"

definition dec_opt :: "'a decoder \<Rightarrow> 'a option decoder" where
  "dec_opt m = dec_bind dec_bool (\<lambda>has.
     if has then dec_bind m (\<lambda>x. dec_return (Some x)) else dec_return None)"

definition enc_list :: "('a \<Rightarrow> string) \<Rightarrow> 'a list \<Rightarrow> string" where
  "enc_list enc xs = enc_u32 (of_nat (length xs)) @ concat (map enc xs)"

definition dec_list :: "nat \<Rightarrow> (u32 \<Rightarrow> string) \<Rightarrow> 'a decoder \<Rightarrow> 'a list decoder" where
  "dec_list max_entries message m = dec_bind dec_u32 (\<lambda>count.
     if unat count > max_entries then dec_fail (make_error St_LimitExceeded (message count))
     else dec_repeat (unat count) m)"

definition dec_blob :: "nat \<Rightarrow> 'a decoder \<Rightarrow> 'a decoder" where
  "dec_blob bound m = dec_bind (dec_str bound) (\<lambda>blob s. rbind (dec_whole m blob) (\<lambda>x. Inr (x, s)))"

text \<open>An enumeration byte, rejected above its last enumerator.\<close>

definition dec_enum :: "u8 \<Rightarrow> (u8 \<Rightarrow> string) \<Rightarrow> (u8 \<Rightarrow> 'a) \<Rightarrow> 'a decoder" where
  "dec_enum last_value message of_value = dec_bind dec_u8 (\<lambda>v.
     if v > last_value then dec_fail (make_error St_ProtocolError (message v))
     else dec_return (of_value v))"

section \<open>The codec contract\<close>

locale field_codec =
  fixes enc :: "'a \<Rightarrow> string"
    and dec :: "'a decoder"
    and ok :: "'a \<Rightarrow> bool"
  assumes dec_enc: "ok v \<Longrightarrow> dec (enc v @ rest) = Inr (v, rest)"
begin

lemma dec_whole_enc: "ok v \<Longrightarrow> dec_whole dec (enc v) = Inr v"
  using dec_enc[of v "[]"] by (simp add: dec_whole_def dec_finish_def)

lemma bind_enc: "ok v \<Longrightarrow> dec_bind dec f (enc v @ rest) = f v rest"
  by (simp add: dec_bind_def dec_enc)

text \<open>Encodings are self-delimiting: no encoding is a proper prefix of another.\<close>

lemma enc_inj: "ok v \<Longrightarrow> ok w \<Longrightarrow> enc v @ r = enc w @ r' \<Longrightarrow> v = w \<and> r = r'"
  by (metis dec_enc old.sum.inject(2) prod.inject)

lemma dec_repeat_enc:
  "list_all ok vs \<Longrightarrow> dec_repeat (length vs) dec (concat (map enc vs) @ rest) = Inr (vs, rest)"
  by (induction vs) (simp_all add: dec_return_def dec_bind_def dec_enc)

end

locale canonical_codec = field_codec +
  assumes enc_dec: "dec s = Inr (v, rest) \<Longrightarrow> ok v \<and> s = enc v @ rest"
begin

lemma dec_iff: "dec s = Inr (v, rest) \<longleftrightarrow> ok v \<and> s = enc v @ rest"
  using enc_dec dec_enc by blast

lemma dec_repeat_iff:
  "dec_repeat n dec s = Inr (vs, rest) \<longleftrightarrow>
     length vs = n \<and> list_all ok vs \<and> s = concat (map enc vs) @ rest"
proof (induction n arbitrary: s vs)
  case 0
  show ?case by (auto simp: dec_return_def)
next
  case (Suc n)
  show ?case
    by (cases vs) (auto simp: dec_bind_def dec_return_def ok_simps Suc dec_iff)
qed

lemma bind_iff:
  "dec_bind dec f s = Inr (y, t) \<longleftrightarrow> (\<exists>v r. ok v \<and> s = enc v @ r \<and> f v r = Inr (y, t))"
  by (auto simp: dec_bind_def ok_simps dec_iff)

lemma dec_whole_iff: "dec_whole dec s = Inr v \<longleftrightarrow> ok v \<and> s = enc v"
  by (auto simp: dec_whole_def dec_finish_def ok_simps dec_iff split: if_splits)

end

section \<open>Lemmas\<close>

lemma dec_bind_Inr: "dec_bind m f s = Inr (y, t) \<longleftrightarrow> (\<exists>x s'. m s = Inr (x, s') \<and> f x s' = Inr (y, t))"
  by (auto simp: dec_bind_def ok_simps)

lemma byte_char_roundtrip [simp]: "byte_of (char_of (unat v)) = v" for v :: u8
proof -
  have "unat v < 256" using unsigned_less[of v] by simp
  then have "of_char (char_of (unat v) :: char) = unat v" by simp
  then show ?thesis by (metis unat_byte_of word_unat_eq_iff)
qed

lemma char_byte_roundtrip [simp]: "char_of (unat (byte_of c)) = c"
  by (simp add: unat_byte_of)

lemma bytes_chars_roundtrip [simp]: "bytes_of (chars_of bs) = bs" "chars_of (bytes_of s) = s"
  by (simp_all add: bytes_of_def chars_of_def comp_def)

lemma length_bytes_chars [simp]: "length (bytes_of s) = length s" "length (chars_of bs) = length bs"
  by (simp_all add: bytes_of_def chars_of_def)

lemma length_le_bytes [simp]: "length (le_bytes v n) = n"
  by (induction n) auto

lemma read_le_append: "n \<le> length s \<Longrightarrow> read_le (s @ t) n = read_le s n"
  by (induction n) (auto simp: nth_append)

lemma read_le_le_bytes: "read_le (le_bytes v n) n = take_bit (8 * n) v"
proof (induction n)
  case (Suc n)
  have m: "(0xFF :: u64) = mask 8" by (simp add: mask_eq_exp_minus_1)
  have lt: "unat (drop_bit (8 * n) v AND 0xFF) < 256"
  proof -
    have "drop_bit (8 * n) v AND 0xFF \<le> 0xFF" by (rule word_and_le1)
    then show ?thesis by (simp add: word_le_nat_alt)
  qed
  have byte: "(ucast (byte_of (char_of (unat (drop_bit (8 * n) v AND 0xFF)))) :: u64) = drop_bit (8 * n) v AND 0xFF"
    using lt by (simp add: word_unat_eq_iff unsigned_ucast_eq unat_byte_of take_bit_nat_eq_self)
  have "read_le (le_bytes v (Suc n)) (Suc n) =
      take_bit (8 * n) v OR push_bit (8 * n) (drop_bit (8 * n) v AND 0xFF)"
    using Suc by (simp add: read_le_append nth_append byte del: of_char_of)
  also have "\<dots> = take_bit (8 * Suc n) v"
    unfolding m by (rule bit_word_eqI) (auto simp: bit_simps)
  finally show ?case .
qed simp

section \<open>Primitive fields\<close>

lemma byte_of_inj: "byte_of c = byte_of d \<Longrightarrow> c = d"
  by (metis char_byte_roundtrip)

lemma bit_read_le:
  "bit (read_le s n) i \<longleftrightarrow> i < 8 * n \<and> i < 64 \<and> bit (byte_of (s ! (i div 8))) (i mod 8)"
proof (induction n)
  case (Suc n)
  have "\<not> i < 8 * n \<Longrightarrow> i < 8 * Suc n \<Longrightarrow> i div 8 = n \<and> i mod 8 = i - 8 * n"
    by (auto simp: not_less le_iff_add)
  moreover have "\<not> i < 8 * Suc n \<Longrightarrow> \<not> bit (byte_of (s ! n)) (i - 8 * n)"
    by (auto dest: bit_imp_le_length)
  ultimately show ?case
    using Suc by (cases "i < 8 * n"; cases "i < 8 * Suc n") (auto simp: bit_simps)
qed simp

lemma byte_of_le_bytes: "j < n \<Longrightarrow> byte_of (le_bytes v n ! j) = ucast (drop_bit (8 * j) v)"
proof (induction n)
  case (Suc n)
  have "byte_of (char_of (unat (drop_bit (8 * n) v AND 0xFF))) = ucast (drop_bit (8 * n) v)"
  proof -
    have "drop_bit (8 * n) v AND 0xFF = take_bit 8 (drop_bit (8 * n) v)"
      by (simp add: take_bit_eq_mask mask_eq_exp_minus_1)
    then have u: "unat (drop_bit (8 * n) v AND 0xFF) = unat (ucast (drop_bit (8 * n) v) :: u8)"
      by (simp add: unsigned_ucast_eq unsigned_take_bit_eq)
    show ?thesis unfolding u by (rule byte_char_roundtrip)
  qed
  with Suc show ?case by (auto simp: nth_append less_Suc_eq)
qed simp

lemma le_bytes_read_le: "n \<le> 8 \<Longrightarrow> length s = n \<Longrightarrow> le_bytes (read_le s n) n = s"
proof (rule nth_equalityI)
  fix j assume n: "n \<le> 8" "length s = n" and "j < length (le_bytes (read_le s n) n)"
  then have j: "j < n" by simp
  have "byte_of (le_bytes (read_le s n) n ! j) = byte_of (s ! j)"
  proof (rule bit_word_eqI)
    fix i assume "i < LENGTH(8)"
    then have i: "i < 8" by simp
    have k: "8 * j + i < 8 * n" using j i by linarith
    then show "bit (byte_of (le_bytes (read_le s n) n ! j)) i \<longleftrightarrow> bit (byte_of (s ! j)) i"
      using i n by (simp add: byte_of_le_bytes[OF j] bit_simps bit_read_le add.commute)
  qed
  then show "le_bytes (read_le s n) n ! j = s ! j" by (rule byte_of_inj)
qed simp

text \<open>An unsigned integer of \<open>n\<close> bytes: the common shape of \<^verbatim>\<open>u16\<close>, \<^verbatim>\<open>u32\<close> and \<^verbatim>\<open>u64\<close>.\<close>

lemma dec_take_iff: "dec_take n s = Inr (b, rest) \<longleftrightarrow> length b = n \<and> s = b @ rest"
  by (auto simp: dec_take_def)

lemma int_codec:
  fixes v :: "'a::len word"
  assumes "LENGTH('a) = 8 * n" and "n \<le> 8"
  shows "dec_bind (dec_take n) (\<lambda>b. dec_return (ucast (read_le b n))) s = Inr (v, rest) \<longleftrightarrow>
     s = le_bytes (ucast v) n @ rest"
proof -
  have small: "(ucast (ucast v :: u64) :: 'a word) = v" and top: "take_bit (8 * n) (ucast v :: u64) = ucast v"
    using assms bit_imp_le_length[of v] by (fastforce intro!: bit_word_eqI simp: bit_simps)+
  have wide: "(ucast (ucast (read_le b n) :: 'a word) :: u64) = read_le b n" for b
    using assms by (auto intro!: bit_word_eqI simp: bit_simps bit_read_le)
  have "le_bytes (ucast (ucast (read_le b n) :: 'a word)) n = b" if "length b = n" for b
    unfolding wide using that assms(2) by (rule le_bytes_read_le[rotated])
  then show ?thesis
    by (fastforce simp: dec_bind_Inr dec_take_iff dec_return_def read_le_le_bytes small top)
qed

interpretation u8: canonical_codec enc_u8 dec_u8 "\<lambda>_. True"
  by unfold_locales
    (auto simp: dec_u8_def enc_u8_def dec_bind_Inr dec_take_iff dec_return_def length_Suc_conv)

interpretation u16: canonical_codec enc_u16 dec_u16 "\<lambda>_. True"
  by unfold_locales (simp_all add: dec_u16_def enc_u16_def append_le_def int_codec)

interpretation u32: canonical_codec enc_u32 dec_u32 "\<lambda>_. True"
  by unfold_locales (simp_all add: dec_u32_def enc_u32_def append_le_def int_codec)

interpretation u64: canonical_codec enc_u64 dec_u64 "\<lambda>_. True"
  by unfold_locales
    (use int_codec[where 'a = 64 and n = 8] in \<open>simp_all add: dec_u64_def enc_u64_def append_le_def\<close>)

interpretation bool: canonical_codec enc_bool dec_bool "\<lambda>_. True"
proof unfold_locales
  show "dec_bool (enc_bool v @ rest) = Inr (v, rest)" for v rest
    by (simp add: dec_bool_def enc_bool_def dec_bind_def u8.dec_enc dec_return_def)
  show "True \<and> s = enc_bool v @ rest" if d: "dec_bool s = Inr (v, rest)" for s v rest
  proof -
    obtain w where w: "s = enc_u8 w @ rest" "\<not> w > 1" "v = (w = 1)"
      using d unfolding dec_bool_def dec_bind_Inr u8.dec_iff
      by (fastforce simp: dec_fail_def dec_return_def split: if_splits)
    then have "w = 0 \<or> w = 1" by (auto simp: word_less_nat_alt word_unat_eq_iff not_less le_Suc_eq)
    with w show ?thesis by (auto simp: enc_bool_def)
  qed
qed

section \<open>Byte strings and identifiers\<close>

definition str_ok :: "nat \<Rightarrow> string \<Rightarrow> bool" where
  "str_ok bound t \<longleftrightarrow> length t \<le> bound \<and> length t < 2 ^ 32"

definition id_ok :: "limits \<Rightarrow> 'tag basic_id \<Rightarrow> bool" where
  "id_ok limits i \<longleftrightarrow> canonical_form (id_str i) \<and>
     length (id_str i) \<le> max_id_length limits \<and> length (id_str i) \<le> kMaxRawIdBytes"

definition enc_id :: "'tag basic_id \<Rightarrow> string" where
  "enc_id i = enc_str (id_str i)"

lemma enc_str_short: "length t < 2 ^ 32 \<Longrightarrow> enc_str t = enc_u32 (of_nat (length t)) @ t"
proof -
  assume len: "length t < 2 ^ 32"
  then have a: "unat (of_nat (length t) :: u64) = length t" "unat (of_nat (length t) :: u32) = length t"
    by (simp_all add: unat_of_nat take_bit_nat_eq_self)
  have "(ucast (of_nat (length t) :: u64) :: u32) = of_nat (length t)"
    using len a by (simp add: word_unat_eq_iff unsigned_ucast_eq take_bit_nat_eq_self)
  moreover have "unat (- 1 :: u32) = 2 ^ 32 - 1" by (simp add: unat_max_word)
  ultimately have "checked_narrow (of_nat (length t) :: u64) = Some (of_nat (length t) :: u32)"
    using len a by (simp add: checked_narrow_def)
  then show ?thesis using a(2) by (auto simp: enc_str_def Let_def)
qed

interpretation str: canonical_codec enc_str "dec_str bound" "str_ok bound" for bound
proof unfold_locales
  show "dec_str bound (enc_str v @ rest) = Inr (v, rest)" if "str_ok bound v" for v rest
  proof -
    have "unat (of_nat (length v) :: u32) = length v" "length v < 2 ^ 32" "length v \<le> bound"
      using that by (simp_all add: str_ok_def unat_of_nat take_bit_nat_eq_self)
    then show ?thesis
      by (simp add: dec_str_def dec_bind_def enc_str_short u32.dec_enc dec_raw_def dec_take_def)
  qed
  show "str_ok bound v \<and> s = enc_str v @ rest" if d: "dec_str bound s = Inr (v, rest)" for s v rest
  proof -
    obtain n where n: "s = enc_u32 n @ v @ rest" "unat n \<le> bound" "length v = unat n"
      using d unfolding dec_str_def dec_bind_Inr u32.dec_iff
      by (auto simp: dec_fail_def dec_raw_def dec_take_iff split: if_splits)
    have "length v < 2 ^ 32" using n(3) unsigned_less[of n] by simp
    moreover have "of_nat (length v) = n" using n(3) by simp
    ultimately show ?thesis using n by (simp add: str_ok_def enc_str_short)
  qed
qed

interpretation id: canonical_codec enc_id "dec_id limits" "id_ok limits" for limits
proof unfold_locales
  have raw: "kMaxRawIdBytes < 2 ^ 32" by (simp add: kMaxRawIdBytes_def)
  show "dec_id limits (enc_id v @ rest) = Inr (v, rest)" if "id_ok limits v" for v :: "'a basic_id" and rest
    using that raw
    by (simp add: dec_id_def dec_bind_def enc_id_def id_ok_def str.dec_enc str_ok_def)
      (simp add: from_canonical_iff[THEN iffD2])
  show "id_ok limits v \<and> s = enc_id v @ rest" if "dec_id limits s = Inr (v, rest)" for s v rest
    using that
    by (auto simp: dec_id_def dec_bind_Inr str.dec_iff ok_simps from_canonical_iff id_ok_def enc_id_def)
qed

interpretation raw: canonical_codec enc_raw "dec_bytes n" "\<lambda>bs. length bs = n" for n
  by unfold_locales
    (auto simp: dec_bytes_def enc_raw_def dec_bind_Inr dec_raw_def dec_take_iff dec_return_def)

section \<open>Composite fields\<close>

definition list_ok :: "nat \<Rightarrow> ('a \<Rightarrow> bool) \<Rightarrow> 'a list \<Rightarrow> bool" where
  "list_ok max_entries ok xs \<longleftrightarrow> length xs \<le> max_entries \<and> length xs < 2 ^ 32 \<and> list_all ok xs"

context field_codec
begin

lemma opt_field: "field_codec (enc_opt enc) (dec_opt dec) (pred_option ok)"
  by unfold_locales
    (auto simp: enc_opt_def dec_opt_def bool.bind_enc bind_enc dec_return_def split: option.splits)

lemma list_field: "field_codec (enc_list enc) (dec_list n msg dec) (list_ok n ok)"
proof unfold_locales
  fix xs rest assume ok: "list_ok n ok xs"
  then have "unat (of_nat (length xs) :: u32) = length xs"
    by (simp add: list_ok_def unat_of_nat take_bit_nat_eq_self)
  then show "dec_list n msg dec (enc_list enc xs @ rest) = Inr (xs, rest)"
    using ok by (simp add: dec_list_def enc_list_def u32.bind_enc list_ok_def dec_repeat_enc)
qed

lemma blob_field:
  "field_codec (\<lambda>v. enc_str (enc v)) (dec_blob n dec) (\<lambda>v. ok v \<and> str_ok n (enc v))"
  by unfold_locales (simp add: dec_blob_def str.bind_enc dec_whole_enc)

end

context canonical_codec
begin

lemma opt_canonical: "canonical_codec (enc_opt enc) (dec_opt dec) (pred_option ok)"
  by (intro canonical_codec.intro opt_field canonical_codec_axioms.intro)
    (auto simp: dec_opt_def bool.bind_iff bind_iff enc_opt_def dec_return_def split: if_splits)

lemma list_canonical: "canonical_codec (enc_list enc) (dec_list n msg dec) (list_ok n ok)"
proof (intro canonical_codec.intro list_field canonical_codec_axioms.intro)
  fix s xs rest assume "dec_list n msg dec s = Inr (xs, rest)"
  then obtain c where c: "s = enc_u32 c @ concat (map enc xs) @ rest" "unat c \<le> n"
      "length xs = unat c" "list_all ok xs"
    by (auto simp: dec_list_def u32.bind_iff dec_fail_def dec_repeat_iff split: if_splits)
  have "length xs < 2 ^ 32" using c(3) unsigned_less[of c] by simp
  moreover have "of_nat (length xs) = c" using c(3) by simp
  ultimately show "list_ok n ok xs \<and> s = enc_list enc xs @ rest"
    using c by (simp add: list_ok_def enc_list_def)
qed

lemma blob_canonical:
  "canonical_codec (\<lambda>v. enc_str (enc v)) (dec_blob n dec) (\<lambda>v. ok v \<and> str_ok n (enc v))"
  by (intro canonical_codec.intro blob_field canonical_codec_axioms.intro)
    (auto simp: dec_blob_def str.bind_iff ok_simps dec_whole_iff)

end

lemma enum_canonical:
  assumes "\<And>x. of_value (to_value x) = x" and "\<And>x. \<not> to_value x > last_value"
    and "\<And>v. \<not> v > last_value \<Longrightarrow> to_value (of_value v) = v"
  shows "canonical_codec (\<lambda>x. enc_u8 (to_value x)) (dec_enum last_value msg of_value) (\<lambda>_. True)"
  by unfold_locales
    (auto simp: dec_enum_def u8.bind_enc u8.bind_iff assms dec_return_def dec_fail_def split: if_splits)

interpretation opt_id: canonical_codec "enc_opt enc_id" "dec_opt (dec_id limits)" "pred_option (id_ok limits)"
  for limits by (rule id.opt_canonical)

text \<open>The codec of every primitive field is canonical. A decoder of an integer, a boolean, a
  bounded byte string, an identifier or a raw array accepts a buffer exactly when it starts with
  the encoding of an admissible value, returns that value and leaves precisely the bytes after
  it; so decoding what was encoded gives the value back, and no second byte sequence decodes to
  the same value.\<close>

theorem primitive_fields_canonical:
  "(dec_u8 s = Inr (a, rest) \<longleftrightarrow> s = enc_u8 a @ rest) \<and>
   (dec_u16 s = Inr (b, rest) \<longleftrightarrow> s = enc_u16 b @ rest) \<and>
   (dec_u32 s = Inr (c, rest) \<longleftrightarrow> s = enc_u32 c @ rest) \<and>
   (dec_u64 s = Inr (d, rest) \<longleftrightarrow> s = enc_u64 d @ rest) \<and>
   (dec_bool s = Inr (e, rest) \<longleftrightarrow> s = enc_bool e @ rest) \<and>
   (dec_str bound s = Inr (f, rest) \<longleftrightarrow> length f \<le> bound \<and> length f < 2 ^ 32 \<and> s = enc_str f @ rest) \<and>
   (dec_id limits s = Inr (i, rest) \<longleftrightarrow> id_ok limits i \<and> s = enc_id i @ rest) \<and>
   (dec_bytes n s = Inr (r, rest) \<longleftrightarrow> length r = n \<and> s = enc_raw r @ rest)"
  by (simp add: u8.dec_iff u16.dec_iff u32.dec_iff u64.dec_iff bool.dec_iff str.dec_iff id.dec_iff
      raw.dec_iff str_ok_def)

end
