(* ===== verification/ModelCodec.thy ===== *)
theory ModelCodec
  imports Codec
begin

text \<open>
  \<^verbatim>\<open>src/model_codec.cpp\<close>: the byte encodings of provenance, of the five kinds of definition, of
  audit entries, queries, explanation steps, evidence notes and decisions. Every encoder is the
  concatenation of its fields in the order the source appends them, every decoder the chain of
  reads in the same order, with the bound of each read. \<open>*_ok\<close> says which values the decoder can
  return; each pair is an interpretation of the codec contract of \<open>Codec\<close>.
\<close>

section \<open>Shared fields\<close>

definition kMaxChainSteps :: nat where "kMaxChainSteps = 4096"

definition encode_id_list :: "'tag basic_id list \<Rightarrow> string" where
  "encode_id_list ids = enc_list enc_id ids"

definition decode_id_list :: "limits \<Rightarrow> nat \<Rightarrow> 'tag basic_id list decoder" where
  "decode_id_list limits max_entries =
     dec_list max_entries
       (\<lambda>count. cat [''list declares '', u_dec count, '' entries, limit is '', to_dec max_entries])
       (dec_id limits)"

definition encode_precedence :: "precedence_rank \<Rightarrow> string" where
  "encode_precedence rank = enc_bool (rank_assigned rank) @ enc_u32 (rank_value rank)"

definition decode_precedence :: "precedence_rank decoder" where
  "decode_precedence =
     dec_bind dec_bool (\<lambda>assigned. dec_bind dec_u32 (\<lambda>v.
       if \<not> assigned then dec_return rank_undeclared
       else if v > kMaxRank then
         dec_fail (make_error St_InvalidArgument
           (cat [''precedence rank '', u_dec v, '' exceeds the '', u_dec kMaxRank, '' ceiling'']))
       else dec_return (rank_make v)))"

definition encode_boot :: "boot_id \<Rightarrow> string" where
  "encode_boot b = enc_raw b"

definition decode_boot :: "boot_id decoder" where
  "decode_boot = dec_bytes boot_size"

definition dec_class_kind :: "class_kind decoder" where
  "dec_class_kind = dec_enum (class_kind_value Emergency)
     (\<lambda>v. cat [''class kind '', u_dec v, '' is not defined'']) class_kind_of"

definition dec_conflict_resolution :: "conflict_resolution decoder" where
  "dec_conflict_resolution = dec_enum (conflict_resolution_value AssignmentIdOrder)
     (\<lambda>v. cat [''conflict resolution mode '', u_dec v, '' is not defined'']) conflict_resolution_of"

definition dec_assignment_kind :: "assignment_kind decoder" where
  "dec_assignment_kind = dec_enum (assignment_kind_value Default)
     (\<lambda>v. cat [''assignment kind '', u_dec v, '' is not defined'']) assignment_kind_of"

definition dec_outcome :: "outcome decoder" where
  "dec_outcome = dec_enum (outcome_value Out_Rejected)
     (\<lambda>v. cat [''outcome '', u_dec v, '' is not defined'']) outcome_of"

text \<open>An identifier that may be absent: presence is part of the encoding.\<close>

definition enc_maybe_id :: "'tag basic_id \<Rightarrow> string" where
  "enc_maybe_id i = enc_bool (id_valid i) @ (if id_valid i then enc_id i else [])"

definition dec_maybe_id :: "limits \<Rightarrow> 'tag basic_id decoder" where
  "dec_maybe_id limits = dec_bind dec_bool (\<lambda>has. if has then dec_id limits else dec_return id_none)"

section \<open>Provenance\<close>

definition encode_provenance :: "provenance \<Rightarrow> string" where
  "encode_provenance p =
     enc_maybe_id (pv_publisher p) @ encode_boot (pv_boot p) @ enc_u64 (pv_epoch p) @
     enc_u64 (pv_token p) @ enc_u64 (pv_state_generation p) @ enc_u64 (pv_audit_sequence p) @
     enc_u64 (pv_recorded_at_ms p) @ enc_str (pv_op p)"

definition decode_provenance :: "limits \<Rightarrow> provenance decoder" where
  "decode_provenance limits =
     dec_bind (dec_maybe_id limits) (\<lambda>publisher. dec_bind decode_boot (\<lambda>boot.
     dec_bind dec_u64 (\<lambda>epoch. dec_bind dec_u64 (\<lambda>token. dec_bind dec_u64 (\<lambda>state_generation.
     dec_bind dec_u64 (\<lambda>audit_sequence. dec_bind dec_u64 (\<lambda>recorded_at_ms.
     dec_bind (dec_str 64) (\<lambda>op.
       dec_return \<lparr>pv_publisher = publisher, pv_boot = boot, pv_epoch = epoch, pv_token = token,
         pv_state_generation = state_generation, pv_audit_sequence = audit_sequence,
         pv_recorded_at_ms = recorded_at_ms, pv_op = op\<rparr>))))))))"

section \<open>Definitions\<close>

definition encode_class_definition :: "priority_class_def \<Rightarrow> string" where
  "encode_class_definition d =
     enc_id (cd_id d) @ enc_u64 (cd_generation d) @ encode_precedence (cd_precedence d) @
     enc_u8 (class_kind_value (cd_kind d)) @ encode_id_list (cd_inherits_from d) @
     enc_str (cd_description d) @ enc_bool (cd_privileged d)"

definition class_definition_fields :: "limits \<Rightarrow> priority_class_def decoder" where
  "class_definition_fields limits =
     dec_bind (dec_id limits) (\<lambda>i. dec_bind dec_u64 (\<lambda>g. dec_bind decode_precedence (\<lambda>rank.
     dec_bind dec_class_kind (\<lambda>kind.
     dec_bind (decode_id_list limits (max_inherits_from limits)) (\<lambda>parents.
     dec_bind (dec_str (max_description_length limits)) (\<lambda>description.
     dec_bind dec_bool (\<lambda>privileged.
       dec_return \<lparr>cd_id = i, cd_generation = g, cd_precedence = rank, cd_kind = kind,
         cd_inherits_from = parents, cd_description = description, cd_privileged = privileged\<rparr>)))))))"

definition decode_class_definition :: "string \<Rightarrow> limits \<Rightarrow> priority_class_def result" where
  "decode_class_definition payload limits = dec_whole (class_definition_fields limits) payload"

definition encode_scope_definition :: "policy_scope_def \<Rightarrow> string" where
  "encode_scope_definition d =
     enc_id (sd_id d) @ enc_u64 (sd_generation d) @ enc_opt enc_id (sd_parent d) @
     enc_u8 (conflict_resolution_value (sd_conflict_resolution d)) @
     enc_opt enc_id (sd_unknown_default d) @ enc_bool (sd_allow_override d) @
     enc_str (sd_description d)"

definition scope_definition_fields :: "limits \<Rightarrow> policy_scope_def decoder" where
  "scope_definition_fields limits =
     dec_bind (dec_id limits) (\<lambda>i. dec_bind dec_u64 (\<lambda>g. dec_bind (dec_opt (dec_id limits)) (\<lambda>parent.
     dec_bind dec_conflict_resolution (\<lambda>conflict.
     dec_bind (dec_opt (dec_id limits)) (\<lambda>unknown_default.
     dec_bind dec_bool (\<lambda>allow_override.
     dec_bind (dec_str (max_description_length limits)) (\<lambda>description.
       dec_return \<lparr>sd_id = i, sd_generation = g, sd_parent = parent,
         sd_conflict_resolution = conflict, sd_unknown_default = unknown_default,
         sd_allow_override = allow_override, sd_description = description\<rparr>)))))))"

definition decode_scope_definition :: "string \<Rightarrow> limits \<Rightarrow> policy_scope_def result" where
  "decode_scope_definition payload limits = dec_whole (scope_definition_fields limits) payload"

definition encode_policy_definition :: "policy_def \<Rightarrow> string" where
  "encode_policy_definition d =
     enc_id (pd_id d) @ enc_u64 (pd_generation d) @ enc_id (pd_scope d) @
     enc_u64 (pd_scope_generation d) @ encode_id_list (pd_visible_classes d) @
     enc_opt (\<lambda>m. enc_u8 (conflict_resolution_value m)) (pd_conflict_resolution d) @
     enc_opt enc_id (pd_unknown_default d) @ enc_bool (pd_require_policy_for_assignment d) @
     enc_str (pd_description d)"

definition policy_definition_fields :: "limits \<Rightarrow> policy_def decoder" where
  "policy_definition_fields limits =
     dec_bind (dec_id limits) (\<lambda>i. dec_bind dec_u64 (\<lambda>g. dec_bind (dec_id limits) (\<lambda>scope.
     dec_bind dec_u64 (\<lambda>scope_generation.
     dec_bind (decode_id_list limits (max_policy_classes limits)) (\<lambda>visible.
     dec_bind (dec_opt dec_conflict_resolution) (\<lambda>conflict.
     dec_bind (dec_opt (dec_id limits)) (\<lambda>unknown_default.
     dec_bind dec_bool (\<lambda>require_policy.
     dec_bind (dec_str (max_description_length limits)) (\<lambda>description.
       dec_return \<lparr>pd_id = i, pd_generation = g, pd_scope = scope,
         pd_scope_generation = scope_generation, pd_visible_classes = visible,
         pd_conflict_resolution = conflict, pd_unknown_default = unknown_default,
         pd_require_policy_for_assignment = require_policy, pd_description = description\<rparr>)))))))))"

definition decode_policy_definition :: "string \<Rightarrow> limits \<Rightarrow> policy_def result" where
  "decode_policy_definition payload limits = dec_whole (policy_definition_fields limits) payload"

definition encode_subject_definition :: "subject_def \<Rightarrow> string" where
  "encode_subject_definition d =
     enc_id (ud_id d) @ enc_u64 (ud_generation d) @ encode_id_list (ud_inherits_from d) @
     enc_str (ud_description d)"

definition subject_definition_fields :: "limits \<Rightarrow> subject_def decoder" where
  "subject_definition_fields limits =
     dec_bind (dec_id limits) (\<lambda>i. dec_bind dec_u64 (\<lambda>g.
     dec_bind (decode_id_list limits (max_inherits_from limits)) (\<lambda>parents.
     dec_bind (dec_str (max_description_length limits)) (\<lambda>description.
       dec_return \<lparr>ud_id = i, ud_generation = g, ud_inherits_from = parents,
         ud_description = description\<rparr>))))"

definition decode_subject_definition :: "string \<Rightarrow> limits \<Rightarrow> subject_def result" where
  "decode_subject_definition payload limits = dec_whole (subject_definition_fields limits) payload"

definition encode_assignment :: "priority_assignment \<Rightarrow> string" where
  "encode_assignment a =
     enc_id (as_id a) @ enc_u64 (as_generation a) @ enc_id (as_subject a) @
     enc_u64 (as_subject_generation a) @ enc_id (as_scope a) @ enc_u64 (as_scope_generation a) @
     enc_id (as_cls a) @ enc_u64 (as_class_generation a) @
     enc_u8 (assignment_kind_value (as_kind a)) @ enc_opt enc_id (as_displaces a) @
     enc_opt enc_id (as_policy a) @ enc_u64 (as_policy_generation a) @ enc_str (as_note a)"

definition assignment_fields :: "limits \<Rightarrow> priority_assignment decoder" where
  "assignment_fields limits =
     dec_bind (dec_id limits) (\<lambda>i. dec_bind dec_u64 (\<lambda>g.
     dec_bind (dec_id limits) (\<lambda>subject. dec_bind dec_u64 (\<lambda>subject_generation.
     dec_bind (dec_id limits) (\<lambda>scope. dec_bind dec_u64 (\<lambda>scope_generation.
     dec_bind (dec_id limits) (\<lambda>cls. dec_bind dec_u64 (\<lambda>class_generation.
     dec_bind dec_assignment_kind (\<lambda>kind.
     dec_bind (dec_opt (dec_id limits)) (\<lambda>displaces.
     dec_bind (dec_opt (dec_id limits)) (\<lambda>policy. dec_bind dec_u64 (\<lambda>policy_generation.
     dec_bind (dec_str (max_note_length limits)) (\<lambda>note.
       dec_return \<lparr>as_id = i, as_generation = g, as_subject = subject,
         as_subject_generation = subject_generation, as_scope = scope,
         as_scope_generation = scope_generation, as_cls = cls,
         as_class_generation = class_generation, as_kind = kind, as_displaces = displaces,
         as_policy = policy, as_policy_generation = policy_generation, as_note = note\<rparr>)))))))))))))"

definition decode_assignment :: "string \<Rightarrow> limits \<Rightarrow> priority_assignment result" where
  "decode_assignment payload limits = dec_whole (assignment_fields limits) payload"

section \<open>Audit entries\<close>

text \<open>The cast from the 16-bit wire value to \<^verbatim>\<open>StatusCode\<close>, by position in the enumeration.\<close>

definition status_codes :: "status_code list" where
  "status_codes = [St_Ok, St_InvalidArgument, St_MalformedId, St_NotFound, St_AlreadyExists,
     St_DuplicatePrecedence, St_CycleDetected, St_GenerationMismatch, St_StaleGeneration,
     St_StaleEpoch, St_Fenced, St_Unauthorized, St_Conflict, St_LimitExceeded, St_Overflow,
     St_Corrupt, St_Truncated, St_IntegrityFailure, St_IoError, St_Unsupported, St_NotReady,
     St_Degraded, St_Cancelled, St_Internal, St_TransportError, St_ProtocolError,
     St_BoundaryViolation]"

definition status_code_of :: "u16 \<Rightarrow> status_code" where
  "status_code_of v = status_codes ! unat v"

definition dec_status_code :: "status_code decoder" where
  "dec_status_code = dec_bind dec_u16 (\<lambda>v.
     if v > status_code_value St_BoundaryViolation then
       dec_fail (make_error St_ProtocolError
         (cat [''audit entry carries an undefined status code '', u_dec v]))
     else dec_return (status_code_of v))"

text \<open>The blob of an audit entry is read with the default limits and, unlike every other nested
  encoding, is not checked for trailing bytes.\<close>

definition dec_audit_provenance :: "provenance decoder" where
  "dec_audit_provenance = dec_bind (dec_str 4096) (\<lambda>blob s.
     rbind (decode_provenance compiled_limits_ceiling blob) (\<lambda>(p, _). Inr (p, s)))"

definition encode_audit_entry :: "audit_entry \<Rightarrow> string" where
  "encode_audit_entry e =
     enc_u64 (au_sequence e) @ enc_str (au_op e) @ enc_u16 (status_code_value (au_result e)) @
     enc_str (au_detail e) @ enc_str (encode_provenance (au_provenance e)) @
     enc_u64 (au_state_generation e) @ enc_raw (au_digest e)"

definition decode_audit_entry :: "audit_entry decoder" where
  "decode_audit_entry =
     dec_bind dec_u64 (\<lambda>sequence. dec_bind (dec_str 64) (\<lambda>op. dec_bind dec_status_code (\<lambda>code.
     dec_bind (dec_str 1024) (\<lambda>detail. dec_bind dec_audit_provenance (\<lambda>provenance.
     dec_bind dec_u64 (\<lambda>g. dec_bind (dec_bytes 32) (\<lambda>digest.
       dec_return \<lparr>au_sequence = sequence, au_op = op, au_result = code, au_detail = detail,
         au_provenance = provenance, au_state_generation = g, au_digest = digest\<rparr>)))))))"

section \<open>Queries\<close>

definition encode_query :: "priority_query \<Rightarrow> string" where
  "encode_query q =
     enc_id (qu_subject q) @ enc_u64 (qu_subject_generation q) @ enc_id (qu_scope q) @
     enc_bool (qu_as_of_epoch q \<noteq> None) @
     enc_u64 (case qu_as_of_epoch q of None \<Rightarrow> 0 | Some e \<Rightarrow> e) @
     enc_u64 (qu_require_policy_generation q) @ enc_u64 (qu_require_scope_generation q) @
     enc_bool (qu_strict_conflicts q) @ enc_u32 (qu_max_explanation_steps q) @
     enc_u64 (qu_correlation q)"

definition query_fields :: "limits \<Rightarrow> priority_query decoder" where
  "query_fields limits =
     dec_bind (dec_id limits) (\<lambda>subject. dec_bind dec_u64 (\<lambda>subject_generation.
     dec_bind (dec_id limits) (\<lambda>scope. dec_bind dec_bool (\<lambda>has_epoch. dec_bind dec_u64 (\<lambda>epoch.
     dec_bind dec_u64 (\<lambda>policy_generation. dec_bind dec_u64 (\<lambda>scope_generation.
     dec_bind dec_bool (\<lambda>strict. dec_bind dec_u32 (\<lambda>steps. dec_bind dec_u64 (\<lambda>correlation.
       dec_return \<lparr>qu_subject = subject, qu_subject_generation = subject_generation,
         qu_scope = scope, qu_as_of_epoch = (if has_epoch then Some epoch else None),
         qu_require_policy_generation = policy_generation,
         qu_require_scope_generation = scope_generation, qu_strict_conflicts = strict,
         qu_max_explanation_steps = steps, qu_correlation = correlation\<rparr>))))))))))"

definition decode_query :: "string \<Rightarrow> limits \<Rightarrow> priority_query result" where
  "decode_query payload limits = dec_whole (query_fields limits) payload"

section \<open>Decisions\<close>

definition enc_provenance_blob :: "provenance \<Rightarrow> string" where
  "enc_provenance_blob p = enc_str (encode_provenance p)"

definition dec_provenance_blob :: "limits \<Rightarrow> provenance decoder" where
  "dec_provenance_blob limits = dec_blob 4096 (decode_provenance limits)"

definition encode_explanation_step :: "explanation_step \<Rightarrow> string" where
  "encode_explanation_step x =
     enc_str (ex_stage x) @ enc_str (ex_code x) @ enc_str (ex_detail x) @
     enc_opt enc_id (ex_assignment x) @ enc_u64 (ex_assignment_generation x) @
     enc_opt enc_id (ex_cls x) @ enc_u64 (ex_class_generation x) @ enc_opt enc_id (ex_scope x) @
     enc_opt enc_id (ex_policy x) @ enc_provenance_blob (ex_provenance x)"

definition decode_explanation_step :: "limits \<Rightarrow> explanation_step decoder" where
  "decode_explanation_step limits =
     dec_bind (dec_str 64) (\<lambda>stage. dec_bind (dec_str 64) (\<lambda>code.
     dec_bind (dec_str (max_description_length limits)) (\<lambda>detail.
     dec_bind (dec_opt (dec_id limits)) (\<lambda>assignment. dec_bind dec_u64 (\<lambda>assignment_generation.
     dec_bind (dec_opt (dec_id limits)) (\<lambda>cls. dec_bind dec_u64 (\<lambda>class_generation.
     dec_bind (dec_opt (dec_id limits)) (\<lambda>scope. dec_bind (dec_opt (dec_id limits)) (\<lambda>policy.
     dec_bind (dec_provenance_blob limits) (\<lambda>provenance.
       dec_return \<lparr>ex_stage = stage, ex_code = code, ex_detail = detail,
         ex_assignment = assignment, ex_assignment_generation = assignment_generation,
         ex_cls = cls, ex_class_generation = class_generation, ex_scope = scope,
         ex_policy = policy, ex_provenance = provenance\<rparr>))))))))))"

definition encode_evidence_note :: "evidence_note \<Rightarrow> string" where
  "encode_evidence_note n =
     enc_id (ev_assignment n) @ enc_u64 (ev_assignment_generation n) @ enc_id (ev_cls n) @
     enc_u64 (ev_class_generation n) @ enc_id (ev_scope n) @ enc_opt enc_id (ev_via_subject n) @
     enc_str (ev_reason_code n) @ enc_str (ev_reason n) @ enc_provenance_blob (ev_provenance n)"

definition decode_evidence_note :: "limits \<Rightarrow> evidence_note decoder" where
  "decode_evidence_note limits =
     dec_bind (dec_id limits) (\<lambda>assignment. dec_bind dec_u64 (\<lambda>assignment_generation.
     dec_bind (dec_id limits) (\<lambda>cls. dec_bind dec_u64 (\<lambda>class_generation.
     dec_bind (dec_id limits) (\<lambda>scope. dec_bind (dec_opt (dec_id limits)) (\<lambda>via_subject.
     dec_bind (dec_str 64) (\<lambda>reason_code.
     dec_bind (dec_str (max_description_length limits)) (\<lambda>reason.
     dec_bind (dec_provenance_blob limits) (\<lambda>provenance.
       dec_return \<lparr>ev_assignment = assignment, ev_assignment_generation = assignment_generation,
         ev_cls = cls, ev_class_generation = class_generation, ev_scope = scope,
         ev_via_subject = via_subject, ev_reason_code = reason_code, ev_reason = reason,
         ev_provenance = provenance\<rparr>)))))))))"

definition encode_decision :: "priority_decision \<Rightarrow> string" where
  "encode_decision d =
     enc_u8 (outcome_value (de_outcome d)) @ enc_bool (de_authoritative d) @
     enc_maybe_id (de_cls d) @ enc_u64 (de_class_generation d) @
     encode_precedence (de_precedence d) @ enc_list encode_explanation_step (de_chain d) @
     enc_list encode_evidence_note (de_superseded d) @
     enc_list encode_evidence_note (de_rejected_evidence d) @ enc_list enc_str (de_conflicts d) @
     enc_str (de_reason_code d) @ enc_str (de_reason d) @ enc_str (de_resolution d) @
     enc_u64 (de_epoch d) @ enc_u64 (de_state_generation d) @ enc_u64 (de_policy_generation d) @
     enc_u64 (de_scope_generation d) @ enc_raw (de_digest d) @ enc_bool (de_privileged_class d)"

definition decode_chain :: "limits \<Rightarrow> explanation_step list decoder" where
  "decode_chain limits =
     dec_list (max_explanation_steps limits)
       (\<lambda>count. cat [''decision carries '', u_dec count, '' explanation steps, limit is '',
         to_dec (max_explanation_steps limits)])
       (decode_explanation_step limits)"

definition decode_notes :: "limits \<Rightarrow> string \<Rightarrow> evidence_note list decoder" where
  "decode_notes limits message = dec_list kMaxChainSteps (\<lambda>_. message) (decode_evidence_note limits)"

definition decode_conflicts :: "limits \<Rightarrow> string list decoder" where
  "decode_conflicts limits =
     dec_list kMaxChainSteps (\<lambda>_. ''decision carries too many conflict notes'')
       (dec_str (max_description_length limits))"

definition decision_fields :: "limits \<Rightarrow> priority_decision decoder" where
  "decision_fields limits =
     dec_bind dec_outcome (\<lambda>out. dec_bind dec_bool (\<lambda>authoritative.
     dec_bind (dec_maybe_id limits) (\<lambda>cls. dec_bind dec_u64 (\<lambda>class_generation.
     dec_bind decode_precedence (\<lambda>rank. dec_bind (decode_chain limits) (\<lambda>chain.
     dec_bind (decode_notes limits ''decision carries too many superseded notes'') (\<lambda>superseded.
     dec_bind (decode_notes limits ''decision carries too many rejected notes'') (\<lambda>rejected.
     dec_bind (decode_conflicts limits) (\<lambda>conflicts. dec_bind (dec_str 64) (\<lambda>reason_code.
     dec_bind (dec_str (max_description_length limits)) (\<lambda>reason.
     dec_bind (dec_str 64) (\<lambda>resolution. dec_bind dec_u64 (\<lambda>epoch.
     dec_bind dec_u64 (\<lambda>state_generation. dec_bind dec_u64 (\<lambda>policy_generation.
     dec_bind dec_u64 (\<lambda>scope_generation. dec_bind (dec_bytes 32) (\<lambda>digest.
     dec_bind dec_bool (\<lambda>privileged.
       dec_return \<lparr>de_outcome = out, de_authoritative = authoritative, de_cls = cls,
         de_class_generation = class_generation, de_precedence = rank, de_chain = chain,
         de_superseded = superseded, de_rejected_evidence = rejected, de_conflicts = conflicts,
         de_reason_code = reason_code, de_reason = reason, de_resolution = resolution,
         de_epoch = epoch, de_state_generation = state_generation,
         de_policy_generation = policy_generation, de_scope_generation = scope_generation,
         de_digest = digest, de_privileged_class = privileged\<rparr>))))))))))))))))))"

definition decode_decision :: "string \<Rightarrow> limits \<Rightarrow> priority_decision result" where
  "decode_decision payload limits = dec_whole (decision_fields limits) payload"

section \<open>Scalar helpers\<close>

definition encode_generation :: "generation \<Rightarrow> string" where
  "encode_generation g = enc_u64 g"

definition decode_generation :: "string \<Rightarrow> generation result" where
  "decode_generation payload = dec_whole dec_u64 payload"

definition encode_epoch :: "fabric_epoch \<Rightarrow> string" where
  "encode_epoch e = enc_u64 e"

definition decode_epoch :: "string \<Rightarrow> fabric_epoch result" where
  "decode_epoch payload = dec_whole dec_u64 payload"

section \<open>What the decoders can return\<close>

definition rank_ok :: "precedence_rank \<Rightarrow> bool" where
  "rank_ok r \<longleftrightarrow> r = rank_undeclared \<or> (rank_assigned r \<and> rank_value r \<le> kMaxRank)"

definition maybe_id_ok :: "limits \<Rightarrow> 'tag basic_id \<Rightarrow> bool" where
  "maybe_id_ok limits i \<longleftrightarrow> i = id_none \<or> id_ok limits i"

definition provenance_ok :: "limits \<Rightarrow> provenance \<Rightarrow> bool" where
  "provenance_ok limits p \<longleftrightarrow>
     maybe_id_ok limits (pv_publisher p) \<and> boot_wf (pv_boot p) \<and> str_ok 64 (pv_op p)"

definition provenance_blob_ok :: "limits \<Rightarrow> provenance \<Rightarrow> bool" where
  "provenance_blob_ok limits p \<longleftrightarrow> provenance_ok limits p \<and> str_ok 4096 (encode_provenance p)"

definition class_ok :: "limits \<Rightarrow> priority_class_def \<Rightarrow> bool" where
  "class_ok limits d \<longleftrightarrow> id_ok limits (cd_id d) \<and> rank_ok (cd_precedence d) \<and>
     list_ok (max_inherits_from limits) (id_ok limits) (cd_inherits_from d) \<and>
     str_ok (max_description_length limits) (cd_description d)"

definition scope_ok :: "limits \<Rightarrow> policy_scope_def \<Rightarrow> bool" where
  "scope_ok limits d \<longleftrightarrow> id_ok limits (sd_id d) \<and> pred_option (id_ok limits) (sd_parent d) \<and>
     pred_option (id_ok limits) (sd_unknown_default d) \<and>
     str_ok (max_description_length limits) (sd_description d)"

definition policy_ok :: "limits \<Rightarrow> policy_def \<Rightarrow> bool" where
  "policy_ok limits d \<longleftrightarrow> id_ok limits (pd_id d) \<and> id_ok limits (pd_scope d) \<and>
     list_ok (max_policy_classes limits) (id_ok limits) (pd_visible_classes d) \<and>
     pred_option (id_ok limits) (pd_unknown_default d) \<and>
     str_ok (max_description_length limits) (pd_description d)"

definition subject_ok :: "limits \<Rightarrow> subject_def \<Rightarrow> bool" where
  "subject_ok limits d \<longleftrightarrow> id_ok limits (ud_id d) \<and>
     list_ok (max_inherits_from limits) (id_ok limits) (ud_inherits_from d) \<and>
     str_ok (max_description_length limits) (ud_description d)"

definition assignment_ok :: "limits \<Rightarrow> priority_assignment \<Rightarrow> bool" where
  "assignment_ok limits a \<longleftrightarrow> id_ok limits (as_id a) \<and> id_ok limits (as_subject a) \<and>
     id_ok limits (as_scope a) \<and> id_ok limits (as_cls a) \<and>
     pred_option (id_ok limits) (as_displaces a) \<and> pred_option (id_ok limits) (as_policy a) \<and>
     str_ok (max_note_length limits) (as_note a)"

definition audit_ok :: "audit_entry \<Rightarrow> bool" where
  "audit_ok e \<longleftrightarrow> str_ok 64 (au_op e) \<and> str_ok 1024 (au_detail e) \<and>
     provenance_blob_ok compiled_limits_ceiling (au_provenance e) \<and> length (au_digest e) = 32"

definition query_ok :: "limits \<Rightarrow> priority_query \<Rightarrow> bool" where
  "query_ok limits q \<longleftrightarrow> id_ok limits (qu_subject q) \<and> id_ok limits (qu_scope q)"

definition step_ok :: "limits \<Rightarrow> explanation_step \<Rightarrow> bool" where
  "step_ok limits x \<longleftrightarrow> str_ok 64 (ex_stage x) \<and> str_ok 64 (ex_code x) \<and>
     str_ok (max_description_length limits) (ex_detail x) \<and>
     pred_option (id_ok limits) (ex_assignment x) \<and> pred_option (id_ok limits) (ex_cls x) \<and>
     pred_option (id_ok limits) (ex_scope x) \<and> pred_option (id_ok limits) (ex_policy x) \<and>
     provenance_blob_ok limits (ex_provenance x)"

definition note_ok :: "limits \<Rightarrow> evidence_note \<Rightarrow> bool" where
  "note_ok limits n \<longleftrightarrow> id_ok limits (ev_assignment n) \<and> id_ok limits (ev_cls n) \<and>
     id_ok limits (ev_scope n) \<and> pred_option (id_ok limits) (ev_via_subject n) \<and>
     str_ok 64 (ev_reason_code n) \<and> str_ok (max_description_length limits) (ev_reason n) \<and>
     provenance_blob_ok limits (ev_provenance n)"

definition decision_ok :: "limits \<Rightarrow> priority_decision \<Rightarrow> bool" where
  "decision_ok limits d \<longleftrightarrow> maybe_id_ok limits (de_cls d) \<and> rank_ok (de_precedence d) \<and>
     list_ok (max_explanation_steps limits) (step_ok limits) (de_chain d) \<and>
     list_ok kMaxChainSteps (note_ok limits) (de_superseded d) \<and>
     list_ok kMaxChainSteps (note_ok limits) (de_rejected_evidence d) \<and>
     list_ok kMaxChainSteps (str_ok (max_description_length limits)) (de_conflicts d) \<and>
     str_ok 64 (de_reason_code d) \<and> str_ok (max_description_length limits) (de_reason d) \<and>
     str_ok 64 (de_resolution d) \<and> length (de_digest d) = 32"

section \<open>The contracts\<close>

lemma below_word_cases:
  "\<not> v > 2 \<Longrightarrow> v \<in> {0, 1, 2}" "\<not> v > 3 \<Longrightarrow> v \<in> {0, 1, 2, 3}" "\<not> v > 4 \<Longrightarrow> v \<in> {0, 1, 2, 3, 4}"
  "\<not> v > 7 \<Longrightarrow> v \<in> {0, 1, 2, 3, 4, 5, 6, 7}" for v :: u8
  by (simp_all add: not_less word_le_nat_alt word_unat_eq_iff, linarith+)

interpretation class_kind: canonical_codec "\<lambda>k. enc_u8 (class_kind_value k)" dec_class_kind "\<lambda>_. True"
  unfolding dec_class_kind_def
  by (rule enum_canonical, simp, simp, auto dest!: below_word_cases simp: class_kind_of_def)

interpretation conflict_mode: canonical_codec "\<lambda>k. enc_u8 (conflict_resolution_value k)"
  dec_conflict_resolution "\<lambda>_. True"
  unfolding dec_conflict_resolution_def
  by (rule enum_canonical, simp, simp, auto dest!: below_word_cases simp: conflict_resolution_of_def)

interpretation assignment_kind: canonical_codec "\<lambda>k. enc_u8 (assignment_kind_value k)"
  dec_assignment_kind "\<lambda>_. True"
  unfolding dec_assignment_kind_def
  by (rule enum_canonical, simp, simp, auto dest!: below_word_cases simp: assignment_kind_of_def)

interpretation outcome: canonical_codec "\<lambda>k. enc_u8 (outcome_value k)" dec_outcome "\<lambda>_. True"
  unfolding dec_outcome_def
  by (rule enum_canonical, simp, simp, auto dest!: below_word_cases simp: outcome_of_def)

interpretation id_list: canonical_codec encode_id_list "decode_id_list limits n" "list_ok n (id_ok limits)"
  for limits n
  unfolding encode_id_list_def decode_id_list_def by (rule id.list_canonical)

interpretation rank: field_codec encode_precedence decode_precedence rank_ok
  by unfold_locales
    (auto simp: encode_precedence_def decode_precedence_def bool.bind_enc u32.bind_enc rank_ok_def
      rank_undeclared_def rank_make_def dec_return_def not_less)

interpretation boot: canonical_codec encode_boot decode_boot boot_wf
  unfolding encode_boot_def decode_boot_def boot_wf_def[abs_def] by (rule raw.canonical_codec_axioms)

lemma id_ok_valid: "id_ok limits v \<Longrightarrow> id_valid v"
  by (auto simp: id_ok_def id_valid_def canonical_form_def)

interpretation maybe_id: canonical_codec enc_maybe_id "dec_maybe_id limits" "maybe_id_ok limits" for limits
  by unfold_locales
    (auto simp: maybe_id_ok_def dec_maybe_id_def enc_maybe_id_def bool.bind_enc bool.bind_iff
      dec_return_def id.dec_enc id.dec_iff id_none_def id_valid_def dest: id_ok_valid split: if_splits)

lemmas bind_encs = u8.bind_enc u16.bind_enc u32.bind_enc u64.bind_enc bool.bind_enc str.bind_enc
  id.bind_enc raw.bind_enc opt_id.bind_enc id_list.bind_enc boot.bind_enc maybe_id.bind_enc
  rank.bind_enc class_kind.bind_enc conflict_mode.bind_enc assignment_kind.bind_enc outcome.bind_enc

lemmas bind_iffs = u8.bind_iff u16.bind_iff u32.bind_iff u64.bind_iff bool.bind_iff str.bind_iff
  id.bind_iff raw.bind_iff opt_id.bind_iff id_list.bind_iff boot.bind_iff maybe_id.bind_iff
  class_kind.bind_iff conflict_mode.bind_iff assignment_kind.bind_iff outcome.bind_iff

interpretation provenance: canonical_codec encode_provenance "decode_provenance limits" "provenance_ok limits"
  for limits
  by unfold_locales
    (auto simp: encode_provenance_def decode_provenance_def bind_encs bind_iffs dec_return_def provenance_ok_def)

interpretation provenance_blob: canonical_codec enc_provenance_blob "dec_provenance_blob limits"
  "provenance_blob_ok limits" for limits
  unfolding enc_provenance_blob_def[abs_def] dec_provenance_blob_def provenance_blob_ok_def[abs_def]
  by (rule provenance.blob_canonical)

interpretation class_definition: field_codec encode_class_definition "class_definition_fields limits"
  "class_ok limits" for limits
  by unfold_locales
    (simp add: encode_class_definition_def class_definition_fields_def bind_encs dec_return_def class_ok_def)

interpretation scope_definition: canonical_codec encode_scope_definition "scope_definition_fields limits"
  "scope_ok limits" for limits
  by unfold_locales
    (auto simp: encode_scope_definition_def scope_definition_fields_def bind_encs bind_iffs dec_return_def scope_ok_def)

interpretation opt_mode: canonical_codec "enc_opt (\<lambda>m. enc_u8 (conflict_resolution_value m))"
  "dec_opt dec_conflict_resolution" "pred_option (\<lambda>_. True)"
  by (rule conflict_mode.opt_canonical)

interpretation policy_definition: canonical_codec encode_policy_definition "policy_definition_fields limits"
  "policy_ok limits" for limits
  by unfold_locales
    (auto simp: encode_policy_definition_def policy_definition_fields_def bind_encs bind_iffs dec_return_def
      policy_ok_def opt_mode.bind_enc opt_mode.bind_iff option.pred_True)

interpretation subject_definition: canonical_codec encode_subject_definition "subject_definition_fields limits"
  "subject_ok limits" for limits
  by unfold_locales
    (auto simp: encode_subject_definition_def subject_definition_fields_def bind_encs bind_iffs dec_return_def
      subject_ok_def)

interpretation assignment: canonical_codec encode_assignment "assignment_fields limits"
  "assignment_ok limits" for limits
  by unfold_locales
    (auto simp: encode_assignment_def assignment_fields_def bind_encs bind_iffs dec_return_def assignment_ok_def)

lemma status_code_of_value [simp]: "status_code_of (status_code_value c) = c"
  "\<not> 26 < status_code_value c"
  by (cases c; simp add: status_code_of_def status_codes_def)+

interpretation audit_entry: field_codec encode_audit_entry decode_audit_entry audit_ok
proof unfold_locales
  fix e rest assume ok: "audit_ok e"
  have p: "dec_bind dec_audit_provenance f (enc_str (encode_provenance (au_provenance e)) @ r) = f (au_provenance e) r"
    for f :: "provenance \<Rightarrow> 'b decoder" and r
    using ok provenance.dec_enc[of compiled_limits_ceiling "au_provenance e" "[]"]
    by (simp add: dec_audit_provenance_def audit_ok_def provenance_blob_ok_def dec_bind_def str.dec_enc)
  have c: "dec_bind dec_status_code f (enc_u16 (status_code_value c) @ r) = f c r"
    for f :: "status_code \<Rightarrow> 'b decoder" and c r
    by (simp add: dec_status_code_def dec_bind_def u16.dec_enc dec_return_def)
  show "decode_audit_entry (encode_audit_entry e @ rest) = Inr (e, rest)"
    using ok by (simp add: encode_audit_entry_def decode_audit_entry_def bind_encs p c audit_ok_def dec_return_def)
qed

interpretation query: field_codec encode_query "query_fields limits" "query_ok limits" for limits
  by unfold_locales
    (auto simp: encode_query_def query_fields_def bind_encs dec_return_def query_ok_def split: option.splits
      intro!: priority_query.equality)

interpretation explanation_step: canonical_codec encode_explanation_step "decode_explanation_step limits"
  "step_ok limits" for limits
  by unfold_locales
    (auto simp: encode_explanation_step_def decode_explanation_step_def bind_encs bind_iffs
      provenance_blob.bind_enc provenance_blob.bind_iff dec_return_def step_ok_def)

interpretation evidence_note: canonical_codec encode_evidence_note "decode_evidence_note limits"
  "note_ok limits" for limits
  by unfold_locales
    (auto simp: encode_evidence_note_def decode_evidence_note_def bind_encs bind_iffs
      provenance_blob.bind_enc provenance_blob.bind_iff dec_return_def note_ok_def)

interpretation chain: canonical_codec "enc_list encode_explanation_step" "decode_chain limits"
  "list_ok (max_explanation_steps limits) (step_ok limits)" for limits
  unfolding decode_chain_def by (rule explanation_step.list_canonical)

interpretation note_list: canonical_codec "enc_list encode_evidence_note" "decode_notes limits message"
  "list_ok kMaxChainSteps (note_ok limits)" for limits message
  unfolding decode_notes_def by (rule evidence_note.list_canonical)

interpretation conflicts: canonical_codec "enc_list enc_str" "decode_conflicts limits"
  "list_ok kMaxChainSteps (str_ok (max_description_length limits))" for limits
  unfolding decode_conflicts_def by (rule str.list_canonical)

interpretation decision: field_codec encode_decision "decision_fields limits" "decision_ok limits" for limits
  by unfold_locales
    (simp add: encode_decision_def decision_fields_def bind_encs chain.bind_enc note_list.bind_enc
      conflicts.bind_enc dec_return_def decision_ok_def)

section \<open>Properties\<close>

lemma length_enc [simp]:
  "length (enc_u8 a) = 1" "length (enc_bool b) = 1" "length (enc_u32 d) = 4" "length (enc_u64 e) = 8"
  by (simp_all add: enc_u8_def enc_bool_def enc_u32_def enc_u64_def append_le_def)

lemma length_enc_str: "str_ok n t \<Longrightarrow> length (enc_str t) = 4 + length t"
  by (simp add: str_ok_def enc_str_short)

text \<open>The 4096-byte bound of a nested provenance never bites under the compiled limits.\<close>

lemma provenance_blob_fits:
  assumes "provenance_ok limits p" and "max_id_length limits \<le> 128"
  shows "provenance_blob_ok limits p"
proof -
  have "length (enc_maybe_id (pv_publisher p)) \<le> 133"
    using assms by (auto simp: provenance_ok_def maybe_id_ok_def enc_maybe_id_def id_ok_def id_none_def
        id_valid_def enc_id_def length_enc_str[of 128] str_ok_def)
  moreover have "length (enc_str (pv_op p)) \<le> 68" "length (encode_boot (pv_boot p)) = 16"
    using assms(1) length_enc_str[of 64 "pv_op p"]
    by (auto simp: provenance_ok_def str_ok_def encode_boot_def enc_raw_def boot_wf_def boot_size_def)
  ultimately show ?thesis
    using assms(1) by (simp add: provenance_blob_ok_def str_ok_def encode_provenance_def)
qed

text \<open>scope, policy, subject and assignment records have exactly one byte representation. A
  payload decodes to a record if and only if the record respects the limits and the payload is,
  byte for byte, its encoding; so stored and transmitted definitions round-trip, and a payload
  with a non-canonical identifier, an undefined enumerator, an oversized field or trailing bytes
  is refused.\<close>

theorem definition_encodings_canonical:
  "(decode_scope_definition payload limits = Inr sd \<longleftrightarrow>
      scope_ok limits sd \<and> payload = encode_scope_definition sd) \<and>
   (decode_policy_definition payload limits = Inr pd \<longleftrightarrow>
      policy_ok limits pd \<and> payload = encode_policy_definition pd) \<and>
   (decode_subject_definition payload limits = Inr ud \<longleftrightarrow>
      subject_ok limits ud \<and> payload = encode_subject_definition ud) \<and>
   (decode_assignment payload limits = Inr a \<longleftrightarrow>
      assignment_ok limits a \<and> payload = encode_assignment a)"
  by (simp add: decode_scope_definition_def decode_policy_definition_def decode_subject_definition_def
      decode_assignment_def scope_definition.dec_whole_iff policy_definition.dec_whole_iff
      subject_definition.dec_whole_iff assignment.dec_whole_iff)

text \<open>priority classes, queries, audit entries and whole decisions round-trip. Decoding the
  encoding of a value whose fields respect the decoder's bounds returns that value, with its
  chain, notes and conflicts in order; an audit entry leaves the bytes after it untouched.\<close>

theorem decision_records_roundtrip:
  assumes "class_ok limits c" and "query_ok limits q" and "decision_ok limits d" and "audit_ok e"
  shows "decode_class_definition (encode_class_definition c) limits = Inr c \<and>
     decode_query (encode_query q) limits = Inr q \<and>
     decode_decision (encode_decision d) limits = Inr d \<and>
     decode_audit_entry (encode_audit_entry e @ rest) = Inr (e, rest)"
  using assms
  by (simp add: decode_class_definition_def decode_query_def decode_decision_def
      class_definition.dec_whole_enc query.dec_whole_enc decision.dec_whole_enc audit_entry.dec_enc)

definition sample_class :: priority_class_def where
  "sample_class = \<lparr>cd_id = BasicId ''gold'', cd_generation = 3, cd_precedence = rank_make 40,
     cd_kind = Tenant, cd_inherits_from = [], cd_description = ''paid'', cd_privileged = False\<rparr>"

definition sample_query :: priority_query where
  "sample_query = \<lparr>qu_subject = BasicId ''host'', qu_subject_generation = 1, qu_scope = BasicId ''root'',
     qu_as_of_epoch = None, qu_require_policy_generation = 0, qu_require_scope_generation = 0,
     qu_strict_conflicts = True, qu_max_explanation_steps = 0, qu_correlation = 9\<rparr>"

definition sample_audit :: audit_entry where
  "sample_audit = \<lparr>au_sequence = 1, au_op = ''assign'', au_result = St_Ok, au_detail = [],
     au_provenance = provenance_none, au_state_generation = 2, au_digest = digest_zero\<rparr>"

lemma canonical_form_small:
  "canonical_form ''gold''" "canonical_form ''host''" "canonical_form ''root''"
  by (simp_all add: canonical_form_scan is_lower_alnum_def is_separator_def less_eq_char_def)

theorem decision_records_roundtrip_witness:
  "decode_class_definition (encode_class_definition sample_class) compiled_limits_ceiling = Inr sample_class \<and>
   decode_query (encode_query sample_query) compiled_limits_ceiling = Inr sample_query \<and>
   decode_decision (encode_decision decision_default) compiled_limits_ceiling = Inr decision_default \<and>
   decode_audit_entry (encode_audit_entry sample_audit @ ''tail'') = Inr (sample_audit, ''tail'')"
proof (rule decision_records_roundtrip)
  show "class_ok compiled_limits_ceiling sample_class"
    by (simp add: class_ok_def sample_class_def id_ok_def canonical_form_small compiled_limits_ceiling_def
        kMaxRawIdBytes_def rank_ok_def rank_make_def kMaxRank_def list_ok_def str_ok_def)
  show "query_ok compiled_limits_ceiling sample_query"
    by (simp add: query_ok_def sample_query_def id_ok_def canonical_form_small compiled_limits_ceiling_def
        kMaxRawIdBytes_def)
  show "decision_ok compiled_limits_ceiling decision_default"
    by (simp add: decision_ok_def decision_default_def maybe_id_ok_def rank_ok_def list_ok_def str_ok_def
        digest_zero_def)
  have "provenance_ok compiled_limits_ceiling provenance_none"
    by (simp add: provenance_ok_def provenance_none_def maybe_id_ok_def boot_wf_def boot_zero_def str_ok_def)
  then have "provenance_blob_ok compiled_limits_ceiling provenance_none"
    by (rule provenance_blob_fits) (simp add: compiled_limits_ceiling_def)
  then show "audit_ok sample_audit"
    by (simp add: audit_ok_def sample_audit_def str_ok_def digest_zero_def)
qed

text \<open>The rank of a class without one is an exception to the single representation promised by
  \<^verbatim>\<open>codec.hpp\<close>: an undeclared rank decodes from every value field.\<close>

lemma undeclared_rank_encodings:
  "decode_precedence (enc_bool False @ enc_u32 v @ rest) = Inr (rank_undeclared, rest)"
  by (simp add: decode_precedence_def bind_encs dec_return_def)

end
