(* ===== verification/State.thy ===== *)
theory State
  imports OrderedMap ModelCodec
begin

text \<open>
  \<^verbatim>\<open>src/state.hpp\<close> and the small helpers of \<^verbatim>\<open>src/state.cpp\<close>: the authoritative image, the
  durable mutation, content comparison, the audit window and the decision digest. A
  \<^verbatim>\<open>std::map\<close> is an ordered association list of \<open>OrderedMap\<close>.
\<close>

section \<open>Entries and the image\<close>

record class_entry =
  ce_definition :: priority_class_def
  ce_provenance :: provenance

record scope_entry =
  se_definition :: policy_scope_def
  se_provenance :: provenance

record policy_entry =
  pe_definition :: policy_def
  pe_provenance :: provenance

record subject_entry =
  ue_definition :: subject_def
  ue_provenance :: provenance

record assignment_entry =
  ae_assignment :: priority_assignment
  ae_provenance :: provenance
  ae_active :: bool
  ae_retirement_reason :: string
  ae_retired_by :: provenance

record authority_entry =
  he_publisher :: publisher_id
  he_boot :: boot_id
  he_epoch :: fabric_epoch
  he_token :: fencing_token
  he_state :: authority_state
  he_provenance :: provenance

type_synonym authority_key = "publisher_id \<times> boot_id"

record state_image =
  im_epoch :: fabric_epoch
  im_generation :: generation
  im_last_sequence :: u64
  im_next_fencing_token :: u64
  im_next_audit_sequence :: u64
  im_limits :: limits
  im_classes :: "(class_id, class_entry) omap"
  im_scopes :: "(scope_id, scope_entry) omap"
  im_policies :: "(policy_id, policy_entry) omap"
  im_subjects :: "(subject_id, subject_entry) omap"
  im_assignments :: "(assignment_id, assignment_entry) omap"
  im_assignments_by_subject :: "(subject_id, assignment_id list) omap"
  im_authority :: "(authority_key, authority_entry) omap"
  im_audit :: "audit_entry list"
  im_health :: health
  im_health_detail :: string

definition empty_image :: "limits \<Rightarrow> state_image" where
  "empty_image limits = \<lparr>im_epoch = 0, im_generation = 0, im_last_sequence = 0,
     im_next_fencing_token = 1, im_next_audit_sequence = 1, im_limits = limits, im_classes = [],
     im_scopes = [], im_policies = [], im_subjects = [], im_assignments = [],
     im_assignments_by_subject = [], im_authority = [], im_audit = [], im_health = Healthy,
     im_health_detail = []\<rparr>"

section \<open>Mutations\<close>

datatype mutation_op =
    DefineClass | DefineScope | DefinePolicy | DefineSubject | Assign
  | RetireAssignment | GrantAuthority | FenceAuthority | AdvanceEpoch

fun mutation_op_value :: "mutation_op \<Rightarrow> u16" where
  "mutation_op_value DefineClass = 1"
| "mutation_op_value DefineScope = 2"
| "mutation_op_value DefinePolicy = 3"
| "mutation_op_value DefineSubject = 4"
| "mutation_op_value Assign = 5"
| "mutation_op_value RetireAssignment = 6"
| "mutation_op_value GrantAuthority = 7"
| "mutation_op_value FenceAuthority = 8"
| "mutation_op_value AdvanceEpoch = 9"

fun mutation_op_to_string :: "mutation_op \<Rightarrow> string" where
  "mutation_op_to_string DefineClass = ''define_class''"
| "mutation_op_to_string DefineScope = ''define_scope''"
| "mutation_op_to_string DefinePolicy = ''define_policy''"
| "mutation_op_to_string DefineSubject = ''define_subject''"
| "mutation_op_to_string Assign = ''assign''"
| "mutation_op_to_string RetireAssignment = ''retire_assignment''"
| "mutation_op_to_string GrantAuthority = ''grant_authority''"
| "mutation_op_to_string FenceAuthority = ''fence_authority''"
| "mutation_op_to_string AdvanceEpoch = ''advance_epoch''"

record mutation =
  mu_op :: mutation_op
  mu_epoch :: fabric_epoch
  mu_publisher :: publisher_id
  mu_boot :: boot_id
  mu_token :: fencing_token
  mu_recorded_at_ms :: u64
  mu_reason :: string
  mu_cls :: priority_class_def
  mu_scope :: policy_scope_def
  mu_policy :: policy_def
  mu_subject :: subject_def
  mu_assignment :: priority_assignment
  mu_retire_target :: assignment_id
  mu_fence_publisher :: publisher_id
  mu_fence_boot :: boot_id
  mu_resulting_generation :: generation
  mu_system :: bool

text \<open>The default member values of the structures of \<^verbatim>\<open>model.hpp\<close> and of \<^verbatim>\<open>Mutation\<close>.\<close>

definition class_default :: priority_class_def where
  "class_default = \<lparr>cd_id = id_none, cd_generation = 0, cd_precedence = rank_undeclared,
     cd_kind = Standard, cd_inherits_from = [], cd_description = [], cd_privileged = False\<rparr>"

definition scope_default :: policy_scope_def where
  "scope_default = \<lparr>sd_id = id_none, sd_generation = 0, sd_parent = None,
     sd_conflict_resolution = Deny, sd_unknown_default = None, sd_allow_override = True,
     sd_description = []\<rparr>"

definition policy_default :: policy_def where
  "policy_default = \<lparr>pd_id = id_none, pd_generation = 0, pd_scope = id_none,
     pd_scope_generation = 0, pd_visible_classes = [], pd_conflict_resolution = None,
     pd_unknown_default = None, pd_require_policy_for_assignment = False, pd_description = []\<rparr>"

definition subject_default :: subject_def where
  "subject_default = \<lparr>ud_id = id_none, ud_generation = 0, ud_inherits_from = [], ud_description = []\<rparr>"

definition assignment_default :: priority_assignment where
  "assignment_default = \<lparr>as_id = id_none, as_generation = 0, as_subject = id_none,
     as_subject_generation = 0, as_scope = id_none, as_scope_generation = 0, as_cls = id_none,
     as_class_generation = 0, as_kind = Explicit, as_displaces = None, as_policy = None,
     as_policy_generation = 0, as_note = []\<rparr>"

definition mutation_default :: mutation where
  "mutation_default = \<lparr>mu_op = DefineClass, mu_epoch = 0, mu_publisher = id_none, mu_boot = boot_zero,
     mu_token = 0, mu_recorded_at_ms = 0, mu_reason = [], mu_cls = class_default,
     mu_scope = scope_default, mu_policy = policy_default, mu_subject = subject_default,
     mu_assignment = assignment_default, mu_retire_target = id_none,
     mu_fence_publisher = id_none, mu_fence_boot = boot_zero, mu_resulting_generation = 0,
     mu_system = False\<rparr>"

section \<open>Content comparison\<close>

definition same_authority_binding :: "provenance \<Rightarrow> mutation \<Rightarrow> bool" where
  "same_authority_binding p m \<longleftrightarrow>
     pv_publisher p = mu_publisher m \<and> pv_boot p = mu_boot m \<and> pv_epoch p = mu_epoch m"

definition same_class_content :: "priority_class_def \<Rightarrow> priority_class_def \<Rightarrow> bool" where
  "same_class_content a b \<longleftrightarrow>
     cd_id a = cd_id b \<and> rank_eq (cd_precedence a) (cd_precedence b) \<and> cd_kind a = cd_kind b \<and>
     cd_inherits_from a = cd_inherits_from b \<and> cd_description a = cd_description b \<and>
     cd_privileged a = cd_privileged b"

definition same_scope_content :: "policy_scope_def \<Rightarrow> policy_scope_def \<Rightarrow> bool" where
  "same_scope_content a b \<longleftrightarrow>
     sd_id a = sd_id b \<and> sd_parent a = sd_parent b \<and>
     sd_conflict_resolution a = sd_conflict_resolution b \<and>
     sd_unknown_default a = sd_unknown_default b \<and> sd_allow_override a = sd_allow_override b \<and>
     sd_description a = sd_description b"

definition same_policy_content :: "policy_def \<Rightarrow> policy_def \<Rightarrow> bool" where
  "same_policy_content a b \<longleftrightarrow>
     pd_id a = pd_id b \<and> pd_scope a = pd_scope b \<and> pd_visible_classes a = pd_visible_classes b \<and>
     pd_conflict_resolution a = pd_conflict_resolution b \<and>
     pd_unknown_default a = pd_unknown_default b \<and>
     pd_require_policy_for_assignment a = pd_require_policy_for_assignment b \<and>
     pd_description a = pd_description b"

definition same_subject_content :: "subject_def \<Rightarrow> subject_def \<Rightarrow> bool" where
  "same_subject_content a b \<longleftrightarrow>
     ud_id a = ud_id b \<and> ud_inherits_from a = ud_inherits_from b \<and> ud_description a = ud_description b"

definition same_assignment_content :: "priority_assignment \<Rightarrow> priority_assignment \<Rightarrow> bool" where
  "same_assignment_content a b \<longleftrightarrow>
     as_id a = as_id b \<and> as_subject a = as_subject b \<and>
     as_subject_generation a = as_subject_generation b \<and> as_scope a = as_scope b \<and>
     as_scope_generation a = as_scope_generation b \<and> as_cls a = as_cls b \<and>
     as_class_generation a = as_class_generation b \<and> as_kind a = as_kind b \<and>
     as_displaces a = as_displaces b \<and> as_policy a = as_policy b \<and>
     as_policy_generation a = as_policy_generation b \<and> as_note a = as_note b"

section \<open>Audit window, index and digest\<close>

definition append_audit :: "state_image \<Rightarrow> audit_entry \<Rightarrow> limits \<Rightarrow> state_image" where
  "append_audit img entry limits =
     (if max_audit_entries limits = 0 then img
      else
        (let audit = im_audit img;
             kept = (if length audit \<ge> max_audit_entries limits
                     then List.drop (length audit - max_audit_entries limits + 1) audit else audit)
         in img\<lparr>im_audit := kept @ [entry]\<rparr>))"

text \<open>\<^verbatim>\<open>index[subject].push_back(id)\<close>: \<^verbatim>\<open>operator[]\<close> creates an empty bucket.\<close>

definition bucket_of :: "('k::linorder, 'v list) omap \<Rightarrow> 'k \<Rightarrow> 'v list" where
  "bucket_of m k = (case om_find m k of None \<Rightarrow> [] | Some b \<Rightarrow> b)"

definition index_push :: "assignment_id \<times> assignment_entry \<Rightarrow> (subject_id, assignment_id list) omap \<Rightarrow>
    (subject_id, assignment_id list) omap" where
  "index_push entry index =
     (let subject = as_subject (ae_assignment (snd entry))
      in om_put subject (bucket_of index subject @ [fst entry]) index)"

definition rebuild_indexes :: "state_image \<Rightarrow> state_image" where
  "rebuild_indexes img =
     img\<lparr>im_assignments_by_subject := fold index_push (im_assignments img) []\<rparr>"

definition compute_decision_digest :: "priority_decision \<Rightarrow> digest" where
  "compute_decision_digest d = sha256_text (encode_decision (d\<lparr>de_digest := digest_zero\<rparr>))"

section \<open>Lemmas\<close>

lemma append_audit_frame [frame_simps]:
  "im_epoch (append_audit i e l) = im_epoch i"
  "im_generation (append_audit i e l) = im_generation i"
  "im_last_sequence (append_audit i e l) = im_last_sequence i"
  "im_next_fencing_token (append_audit i e l) = im_next_fencing_token i"
  "im_next_audit_sequence (append_audit i e l) = im_next_audit_sequence i"
  "im_limits (append_audit i e l) = im_limits i"
  "im_classes (append_audit i e l) = im_classes i"
  "im_scopes (append_audit i e l) = im_scopes i"
  "im_policies (append_audit i e l) = im_policies i"
  "im_subjects (append_audit i e l) = im_subjects i"
  "im_assignments (append_audit i e l) = im_assignments i"
  "im_assignments_by_subject (append_audit i e l) = im_assignments_by_subject i"
  "im_authority (append_audit i e l) = im_authority i"
  "im_health (append_audit i e l) = im_health i"
  "im_health_detail (append_audit i e l) = im_health_detail i"
  by (simp_all add: append_audit_def Let_def)

lemma append_audit_bound:
  "max_audit_entries l \<noteq> 0 \<Longrightarrow> length (im_audit (append_audit i e l)) \<le> max_audit_entries l"
  by (simp add: append_audit_def Let_def)

lemma append_audit_suffix:
  "max_audit_entries l \<noteq> 0 \<Longrightarrow>
     \<exists>k. im_audit (append_audit i e l) = List.drop k (im_audit i) @ [e]"
  by (auto simp: append_audit_def Let_def intro: exI[of _ 0])

text \<open>The rebuilt index lists, for every subject, the identifiers of its assignments in ascending
  order.\<close>

lemma bucket_of_put [simp]: "bucket_of (om_put k v m) k' = (if k' = k then v else bucket_of m k')"
  by (simp add: bucket_of_def)

lemma bucket_fold_push:
  "bucket_of (fold index_push entries index) s =
     bucket_of index s @ map fst (filter (\<lambda>e. as_subject (ae_assignment (snd e)) = s) entries)"
  by (induction entries arbitrary: index) (auto simp: index_push_def Let_def)

lemma bucket_rebuild:
  "bucket_of (im_assignments_by_subject (rebuild_indexes img)) s =
     map fst (filter (\<lambda>e. as_subject (ae_assignment (snd e)) = s) (im_assignments img))"
  by (simp add: rebuild_indexes_def bucket_fold_push) (simp add: bucket_of_def)

end
