(* ===== verification/Graph.thy ===== *)
theory Graph
  imports State
begin

text \<open>
  The structural helpers of \<^verbatim>\<open>src/state.cpp\<close>: bounded reachability over the inheritance graphs,
  longest-path depth, scope chains, subject ancestors, and the effective policy and visibility
  of a scope. A \<^verbatim>\<open>std::vector\<close> used as a stack is a list whose head is its back; a
  \<^verbatim>\<open>std::set\<close> of visited identifiers is a set.
\<close>

section \<open>Bounded reachability\<close>

text \<open>The loop of \<^verbatim>\<open>reaches\<close> and of \<^verbatim>\<open>class_implies\<close>. \<open>skip\<close> holds of the node whose edges are
  never traversed; \<open>steps\<close> is the value before the increment of the loop head.\<close>

function reaches_loop ::
  "('n \<Rightarrow> 'n list) \<Rightarrow> 'n \<Rightarrow> ('n \<Rightarrow> bool) \<Rightarrow> nat \<Rightarrow> nat \<Rightarrow> 'n list \<Rightarrow> 'n set \<Rightarrow> bool" where
  "reaches_loop nxt target skip bound steps [] visited = False"
| "reaches_loop nxt target skip bound steps (current # stack) visited =
     (if Suc steps > bound then False
      else if current = target then True
      else if skip current then reaches_loop nxt target skip bound (Suc steps) stack visited
      else if current \<in> visited then reaches_loop nxt target skip bound (Suc steps) stack visited
      else reaches_loop nxt target skip bound (Suc steps) (rev (nxt current) @ stack)
             (insert current visited))"
  by pat_completeness auto
termination by (relation "measure (\<lambda>(_, _, _, bound, steps, _, _). bound - steps)") auto

declare reaches_loop.simps(2) [simp del]

definition reaches :: "'n \<Rightarrow> 'n \<Rightarrow> 'n \<Rightarrow> nat \<Rightarrow> ('n \<Rightarrow> 'n list) \<Rightarrow> bool" where
  "reaches start target excluded bound nxt =
     reaches_loop nxt target (\<lambda>n. n = excluded) bound 0 [start] {}"

definition class_parents :: "state_image \<Rightarrow> class_id \<Rightarrow> class_id list" where
  "class_parents img node =
     (case om_find (im_classes img) node of None \<Rightarrow> [] | Some e \<Rightarrow> cd_inherits_from (ce_definition e))"

definition subject_parents :: "state_image \<Rightarrow> subject_id \<Rightarrow> subject_id list" where
  "subject_parents img node =
     (case om_find (im_subjects img) node of None \<Rightarrow> [] | Some e \<Rightarrow> ud_inherits_from (ue_definition e))"

definition scope_parent :: "state_image \<Rightarrow> scope_id \<Rightarrow> scope_id option" where
  "scope_parent img node =
     (case om_find (im_scopes img) node of None \<Rightarrow> None | Some e \<Rightarrow> sd_parent (se_definition e))"

definition class_walk_bound :: "limits \<Rightarrow> nat" where
  "class_walk_bound limits = (max_classes limits + 1) * (max_inheritance_depth limits + 1)"

definition subject_walk_bound :: "limits \<Rightarrow> nat" where
  "subject_walk_bound limits = (max_subjects limits + 1) * (max_inheritance_depth limits + 1)"

definition class_implies :: "state_image \<Rightarrow> class_id \<Rightarrow> class_id \<Rightarrow> bool" where
  "class_implies img candidate required =
     (if candidate = required then True
      else reaches_loop (class_parents img) required (\<lambda>_. False) (class_walk_bound (im_limits img)) 0
             [candidate] {})"

section \<open>Depth\<close>

text \<open>The longest-path search of \<^verbatim>\<open>class_depth\<close>: the depth of an expanded node from the depths of
  its parents, and the loop over the explicit stack of (node, expanded) pairs.\<close>

fun best_depth :: "(class_id \<rightharpoonup> int) \<Rightarrow> class_id list \<Rightarrow> int \<Rightarrow> int" where
  "best_depth depth [] best = best"
| "best_depth depth (p # ps) best =
     (case depth p of
        None \<Rightarrow> - 1
      | Some d \<Rightarrow> if d < 0 then - 1 else best_depth depth ps (max best (d + 1)))"

definition expanded_depth :: "state_image \<Rightarrow> (class_id \<rightharpoonup> int) \<Rightarrow> class_id \<Rightarrow> int" where
  "expanded_depth img depth current =
     (case om_find (im_classes img) current of
        None \<Rightarrow> - 1
      | Some e \<Rightarrow>
          (let best = best_depth depth (cd_inherits_from (ce_definition e)) 0
           in if best \<ge> 0 \<and> nat best > max_inheritance_depth (im_limits img) then - 1 else best))"

definition class_depth_measure ::
  "state_image \<times> (class_id \<rightharpoonup> int) \<times> class_id set \<times> (class_id \<times> bool) list \<Rightarrow> nat \<times> nat" where
  "class_depth_measure = (\<lambda>(img, depth, in_progress, stack).
     (card (fst ` set (im_classes img) - (dom depth \<union> in_progress)),
      sum_list (map (\<lambda>(_, expanded). if expanded then 1 else 2) stack)))"

function class_depth_loop ::
  "state_image \<Rightarrow> (class_id \<rightharpoonup> int) \<Rightarrow> class_id set \<Rightarrow> (class_id \<times> bool) list \<Rightarrow> (class_id \<rightharpoonup> int)" where
  "class_depth_loop img depth in_progress [] = depth"
| "class_depth_loop img depth in_progress ((current, expanded) # stack) =
     (if expanded then
        class_depth_loop img (depth(current \<mapsto> expanded_depth img depth current))
          (in_progress - {current}) stack
      else if depth current \<noteq> None then class_depth_loop img depth in_progress stack
      else if current \<in> in_progress then
        class_depth_loop img (depth(current \<mapsto> - 1)) in_progress stack
      else
        class_depth_loop img depth (insert current in_progress)
          (rev (map (\<lambda>p. (p, False)) (filter (\<lambda>p. depth p = None) (class_parents img current))) @
           (current, True) # stack))"
  by pat_completeness auto

termination
proof (relation "inv_image (less_than <*lex*> less_than) class_depth_measure")
  show "wf (inv_image (less_than <*lex*> less_than) class_depth_measure)" by auto
next
  fix img :: state_image and depth :: "class_id \<rightharpoonup> int" and in_progress current and stack :: "(class_id \<times> bool) list"
  have mono: "card (A - X) < card (A - Y) \<or> card (A - X) = card (A - Y)"
    if "finite A" "Y \<subseteq> X" for A X Y :: "class_id set"
    using card_mono[of "A - Y" "A - X"] that by (auto simp: le_eq_less_or_eq)
  let ?K = "fst ` set (im_classes img)"
  have fin: "finite ?K" by simp
  show "((img, depth(current \<mapsto> expanded_depth img depth current), in_progress - {current}, stack),
      img, depth, in_progress, (current, expanded) # stack)
    \<in> inv_image (less_than <*lex*> less_than) class_depth_measure" if "expanded" for expanded
    using that mono[OF fin, of "dom depth \<union> in_progress" "insert current (dom depth) \<union> (in_progress - {current})"]
    by (auto simp: class_depth_measure_def)
  show "((img, depth, in_progress, stack), img, depth, in_progress, (current, expanded) # stack)
    \<in> inv_image (less_than <*lex*> less_than) class_depth_measure" if "\<not> expanded" for expanded
    using that by (auto simp: class_depth_measure_def)
  show "((img, depth(current \<mapsto> - 1), in_progress, stack), img, depth, in_progress, (current, expanded) # stack)
    \<in> inv_image (less_than <*lex*> less_than) class_depth_measure" if "\<not> expanded" for expanded
    using that mono[OF fin, of "dom depth \<union> in_progress" "insert current (dom depth) \<union> in_progress"]
    by (auto simp: class_depth_measure_def)
  show "((img, depth, insert current in_progress,
       rev (map (\<lambda>p. (p, False)) (filter (\<lambda>p. depth p = None) (class_parents img current))) @
       (current, True) # stack), img, depth, in_progress, (current, expanded) # stack)
    \<in> inv_image (less_than <*lex*> less_than) class_depth_measure"
    if "\<not> expanded" "\<not> depth current \<noteq> None" "current \<notin> in_progress" for expanded
  proof (cases "current \<in> ?K")
    case True
    then have less: "?K - (dom depth \<union> insert current in_progress) \<subset> ?K - (dom depth \<union> in_progress)"
      using that by auto
    show ?thesis using psubset_card_mono[OF _ less] fin by (simp add: class_depth_measure_def)
  next
    case False
    then have "class_parents img current = []"
      by (auto simp: class_parents_def om_find_None_notin[symmetric])
    moreover have "?K - (dom depth \<union> insert current in_progress) = ?K - (dom depth \<union> in_progress)"
      using False by auto
    ultimately show ?thesis using that by (simp add: class_depth_measure_def)
  qed
qed

definition class_depth :: "state_image \<Rightarrow> class_id \<Rightarrow> int" where
  "class_depth img i =
     (case class_depth_loop img Map.empty {} [(i, False)] i of None \<Rightarrow> - 1 | Some d \<Rightarrow> d)"

function scope_depth_loop :: "state_image \<Rightarrow> nat \<Rightarrow> scope_id \<Rightarrow> scope_id set \<Rightarrow> int" where
  "scope_depth_loop img depth current visited =
     (if current \<in> visited then - 1
      else case om_find (im_scopes img) current of
        None \<Rightarrow> - 1
      | Some e \<Rightarrow>
          (case sd_parent (se_definition e) of
             None \<Rightarrow> int depth
           | Some p \<Rightarrow>
               if Suc depth > max_scope_depth (im_limits img) then - 1
               else scope_depth_loop img (Suc depth) p (insert current visited)))"
  by pat_completeness auto
termination by (relation "measure (\<lambda>(img, depth, _, _). Suc (max_scope_depth (im_limits img)) - depth)") auto

declare scope_depth_loop.simps [simp del]

definition scope_depth :: "state_image \<Rightarrow> scope_id \<Rightarrow> int" where
  "scope_depth img i = scope_depth_loop img 0 i {}"

section \<open>Inheritance lists\<close>

text \<open>The first loop of the two validators: every listed parent is well formed, is not the entity
  itself, is listed once and exists. \<open>what\<close> is the word the messages use.\<close>

definition check_parent_list ::
  "string \<Rightarrow> string \<Rightarrow> 'tag basic_id \<Rightarrow> ('tag basic_id \<Rightarrow> bool) \<Rightarrow> 'tag basic_id list \<Rightarrow> void_result" where
  "check_parent_list empty_message what self defined parents =
     rbind
       (for_each (\<lambda>parent seen.
          if \<not> id_valid parent then Inl (make_error St_MalformedId empty_message)
          else if parent = self then
            Inl (make_error St_CycleDetected
              (cat [what, '' '', quoted (id_str self), '' cannot inherit from itself'']))
          else if parent \<in> seen then
            Inl (make_error St_InvalidArgument
              (cat [what, '' '', quoted (id_str self), '' lists parent '', quoted (id_str parent),
                    '' more than once'']))
          else if \<not> defined parent then
            Inl (make_error St_NotFound
              (cat [''parent '', what, '' '', quoted (id_str parent), '' is not defined in this fabric state'']))
          else Inr (insert parent seen)) parents {})
       (\<lambda>_. Inr ())"

definition check_class_depth :: "state_image \<Rightarrow> class_id \<Rightarrow> void_result" where
  "check_class_depth img parent =
     (let parent_depth = class_depth img parent in
      if parent_depth < 0 then
        Inl (make_error St_Degraded
          (cat [''class '', quoted (id_str parent), '' already sits on a cyclic or over-deep inheritance chain'']))
      else if nat (parent_depth + 1) > max_inheritance_depth (im_limits img) then
        Inl (make_error St_LimitExceeded
          (cat [''inheriting '', quoted (id_str parent), '' would exceed the inheritance depth limit of '',
                to_dec (max_inheritance_depth (im_limits img))]))
      else Inr ())"

definition validate_inheritance :: "state_image \<Rightarrow> class_id \<Rightarrow> class_id list \<Rightarrow> void_result" where
  "validate_inheritance img self parents =
     (if length parents > max_inherits_from (im_limits img) then
        Inl (make_error St_LimitExceeded
          (cat [''class declares '', to_dec (length parents), '' parents, limit is '',
                to_dec (max_inherits_from (im_limits img))]))
      else
        rbind (check_parent_list ''inheritance list holds an empty id'' ''class'' self
                 (om_has (im_classes img)) parents) (\<lambda>_.
        rbind (for_all_ok (\<lambda>parent.
                 if reaches parent self self (class_walk_bound (im_limits img)) (class_parents img) then
                   Inl (make_error St_CycleDetected
                     (cat [''inheriting '', quoted (id_str parent), '' from '', quoted (id_str self),
                           '' would create a precedence cycle'']))
                 else Inr ()) parents) (\<lambda>_.
        for_all_ok (check_class_depth img) parents)))"

definition validate_subject_inheritance :: "state_image \<Rightarrow> subject_id \<Rightarrow> subject_id list \<Rightarrow> void_result" where
  "validate_subject_inheritance img self parents =
     (if length parents > max_inherits_from (im_limits img) then
        Inl (make_error St_LimitExceeded
          (cat [''subject declares '', to_dec (length parents), '' parents, limit is '',
                to_dec (max_inherits_from (im_limits img))]))
      else
        rbind (check_parent_list ''subject inheritance list holds an empty id'' ''subject'' self
                 (om_has (im_subjects img)) parents) (\<lambda>_.
        for_all_ok (\<lambda>parent.
          if reaches parent self self (subject_walk_bound (im_limits img)) (subject_parents img) then
            Inl (make_error St_CycleDetected
              (cat [''inheriting '', quoted (id_str parent), '' from '', quoted (id_str self),
                    '' would create an inheritance cycle'']))
          else Inr ()) parents))"

section \<open>Scope chains\<close>

function scope_chain_loop ::
  "state_image \<Rightarrow> scope_id \<Rightarrow> scope_id list \<Rightarrow> scope_id \<Rightarrow> scope_id set \<Rightarrow> scope_id list result" where
  "scope_chain_loop img scope chain current visited =
     (if current \<in> visited then
        Inl (make_error St_Degraded (cat [''scope chain of '', quoted (id_str scope), '' is cyclic'']))
      else case om_find (im_scopes img) current of
        None \<Rightarrow> Inl (make_error St_NotFound (cat [''scope '', quoted (id_str current), '' is not defined'']))
      | Some e \<Rightarrow>
          (let chain = chain @ [current] in
           if length chain > max_scope_depth (im_limits img) then
             Inl (make_error St_LimitExceeded
               (cat [''scope chain of '', quoted (id_str scope), '' is longer than '',
                     to_dec (max_scope_depth (im_limits img))]))
           else case sd_parent (se_definition e) of
             None \<Rightarrow> Inr chain
           | Some p \<Rightarrow> scope_chain_loop img scope chain p (insert current visited)))"
  by pat_completeness auto
termination
  by (relation "measure (\<lambda>(img, _, chain, _, _). Suc (max_scope_depth (im_limits img)) - length chain)") auto

declare scope_chain_loop.simps [simp del]

definition scope_chain :: "state_image \<Rightarrow> scope_id \<Rightarrow> scope_id list result" where
  "scope_chain img scope = scope_chain_loop img scope [] scope {}"

section \<open>Subject ancestors\<close>

type_synonym ancestor = "subject_id \<times> nat"

definition visit_ancestor ::
  "state_image \<Rightarrow> subject_id \<Rightarrow> ancestor \<Rightarrow> subject_id set \<times> ancestor list \<times> ancestor list \<Rightarrow>
   (subject_id set \<times> ancestor list \<times> ancestor list) result" where
  "visit_ancestor img i entry st =
     (case st of (seen, out, next_level) \<Rightarrow>
        if fst entry \<in> seen then Inr st
        else if snd entry > max_inheritance_depth (im_limits img) then
          Inl (make_error St_LimitExceeded
            (cat [''subject '', quoted (id_str i), '' has an inheritance chain deeper than '',
                  to_dec (max_inheritance_depth (im_limits img))]))
        else case om_find (im_subjects img) (fst entry) of
          None \<Rightarrow>
            Inl (make_error St_Degraded
              (cat [''subject '', quoted (id_str (fst entry)), '' is referenced but not defined'']))
        | Some e \<Rightarrow>
            if length (out @ [entry]) > max_query_steps (im_limits img) then
              Inl (make_error St_LimitExceeded
                (cat [''subject '', quoted (id_str i), '' has more than '',
                      to_dec (max_query_steps (im_limits img)), '' ancestors'']))
            else Inr (insert (fst entry) seen, out @ [entry],
                      next_level @ map (\<lambda>g. (g, snd entry + 1)) (ud_inherits_from (ue_definition e))))"

lemma visit_ancestors_progress:
  assumes "for_each (visit_ancestor img i) frontier (seen, out, next_level) = Inr (seen', out', next')"
  shows "(out' = out \<and> next' = next_level) \<or>
    (length out < length out' \<and> length out' \<le> max_query_steps (im_limits img))"
  using assms
proof (induction frontier arbitrary: seen out next_level)
  case (Cons entry frontier)
  obtain s o1 n where step: "visit_ancestor img i entry (seen, out, next_level) = Inr (s, o1, n)"
      and rest: "for_each (visit_ancestor img i) frontier (s, o1, n) = Inr (seen', out', next')"
    using Cons.prems by (auto simp: ok_simps)
  have "(o1 = out \<and> n = next_level) \<or> (length o1 = Suc (length out) \<and> length o1 \<le> max_query_steps (im_limits img))"
    using step by (auto simp: visit_ancestor_def ok_simps split: if_splits)
  then show ?case using Cons.IH[OF rest] by auto
qed simp

function ancestor_levels ::
  "state_image \<Rightarrow> subject_id \<Rightarrow> subject_id set \<Rightarrow> ancestor list \<Rightarrow> ancestor list \<Rightarrow> ancestor list result" where
  "ancestor_levels img i seen out frontier =
     (if frontier = [] then Inr out
      else case for_each (visit_ancestor img i) frontier (seen, out, []) of
        Inl e \<Rightarrow> Inl e
      | Inr (seen', out', next_level) \<Rightarrow> ancestor_levels img i seen' out' next_level)"
  by pat_completeness auto
termination
proof (relation "inv_image (less_than <*lex*> less_than)
    (\<lambda>(img, _, _, out, frontier). (max_query_steps (im_limits img) - length out, length frontier))")
  fix img i seen out frontier r p seen' y out' next_level
  assume "frontier \<noteq> []" and "for_each (visit_ancestor img i) frontier (seen, out, []) = Inr r"
    and "(seen', p) = r" and "(out', next_level) = p"
  then show "((img, i, seen', out', next_level), img, i, seen, out, frontier)
      \<in> inv_image (less_than <*lex*> less_than)
        (\<lambda>(img, _, _, out, frontier). (max_query_steps (im_limits img) - length out, length frontier))"
    using visit_ancestors_progress[of img i frontier seen out "[]" seen' out' next_level] by auto
qed auto

declare ancestor_levels.simps [simp del]

text \<open>\<^verbatim>\<open>std::sort\<close> by distance, then by identifier.\<close>

definition subject_ancestors :: "state_image \<Rightarrow> subject_id \<Rightarrow> ancestor list result" where
  "subject_ancestors img i =
     (case om_find (im_subjects img) i of
        None \<Rightarrow> Inl (make_error St_NotFound (cat [''subject '', quoted (id_str i), '' is not defined'']))
      | Some root \<Rightarrow>
          rbind (ancestor_levels img i {i} []
                   (map (\<lambda>p. (p, 1)) (ud_inherits_from (ue_definition root))))
            (\<lambda>out. Inr (sort_key (\<lambda>(s, d). (d, s)) out)))"

section \<open>Effective policy and visibility\<close>

definition first_policy :: "state_image \<Rightarrow> (policy_def \<Rightarrow> bool) \<Rightarrow> scope_id \<Rightarrow> (policy_id \<times> policy_entry) option" where
  "first_policy img accept level =
     List.find (\<lambda>(_, e). pd_scope (pe_definition e) = level \<and> accept (pe_definition e)) (im_policies img)"

fun first_on_chain :: "(scope_id \<Rightarrow> 'a option) \<Rightarrow> scope_id list \<Rightarrow> 'a option" where
  "first_on_chain f [] = None"
| "first_on_chain f (level # levels) =
     (case f level of None \<Rightarrow> first_on_chain f levels | Some x \<Rightarrow> Some x)"

definition effective_policy :: "state_image \<Rightarrow> scope_id \<Rightarrow> policy_id option" where
  "effective_policy img scope =
     (case scope_chain img scope of
        Inl _ \<Rightarrow> None
      | Inr chain \<Rightarrow> map_option fst (first_on_chain (first_policy img (\<lambda>_. True)) chain))"

definition effective_visibility :: "state_image \<Rightarrow> scope_id \<Rightarrow> class_id list option" where
  "effective_visibility img scope =
     (case scope_chain img scope of
        Inl _ \<Rightarrow> None
      | Inr chain \<Rightarrow>
          map_option (\<lambda>(_, e). pd_visible_classes (pe_definition e))
            (first_on_chain (first_policy img (\<lambda>d. pd_visible_classes d \<noteq> [])) chain))"

end
