(* ===== verification/Validate.thy ===== *)
theory Validate
  imports Graph
begin

text \<open>
  The admission checks of \<^verbatim>\<open>src/state.cpp\<close>: \<^verbatim>\<open>check_authority\<close>, which binds a mutation to the
  live incarnation of its publisher, and \<^verbatim>\<open>validate_mutation\<close>, one definition per case of its
  switch, with every early return in the order of the source.
\<close>

section \<open>Shared checks\<close>

definition check_text_bounds :: "string \<Rightarrow> nat \<Rightarrow> string \<Rightarrow> void_result" where
  "check_text_bounds t limit what =
     (if length t > limit then
        Inl (make_error St_LimitExceeded
          (cat [what, '' is '', to_dec (length t), '' bytes, limit is '', to_dec limit]))
      else if \<not> is_printable_text t then
        Inl (make_error St_InvalidArgument (cat [what, '' contains control characters'']))
      else Inr ())"

definition check_precedence_free :: "state_image \<Rightarrow> class_id \<Rightarrow> precedence_rank \<Rightarrow> void_result" where
  "check_precedence_free img self rank =
     for_all_ok (\<lambda>(k, e).
       if k = self then Inr ()
       else if rank_eq (cd_precedence (ce_definition e)) rank then
         Inl (make_error St_DuplicatePrecedence
           (cat [''precedence rank '', u_dec (rank_value rank), '' is already declared by class '',
                 quoted (id_str k), ''; a rank must name exactly one class'']))
       else Inr ()) (im_classes img)"

definition check_authority :: "state_image \<Rightarrow> mutation \<Rightarrow> void_result" where
  "check_authority img m =
     (if \<not> id_valid (mu_publisher m) \<or> boot_is_zero (mu_boot m) then
        Inl (make_error St_Unauthorized ''mutation carries no publisher incarnation'')
      else if \<not> is_established (im_epoch img) then
        Inl (make_error St_NotReady
          ''the fabric epoch has not been established; no authority can exist yet'')
      else if mu_epoch m \<noteq> im_epoch img then
        Inl (make_error St_StaleEpoch
          (cat [''mutation was prepared under epoch '', u_dec (mu_epoch m),
                '' but the fabric is at epoch '', u_dec (im_epoch img)]))
      else case om_find (im_authority img) (mu_publisher m, mu_boot m) of
        None \<Rightarrow>
          Inl (make_error St_Unauthorized
            (cat [''publisher '', quoted (id_str (mu_publisher m)), '' never held authority in this fabric'']))
      | Some e \<Rightarrow>
          if he_state e \<noteq> Granted then
            Inl (make_error St_Fenced
              (cat [''publisher '', quoted (id_str (mu_publisher m)), '' incarnation '', boot_hex (mu_boot m),
                    '' is '', authority_state_to_string (he_state e)]))
          else if he_epoch e \<noteq> im_epoch img then
            Inl (make_error St_StaleEpoch
              (cat [''authority of publisher '', quoted (id_str (mu_publisher m)), '' was granted under epoch '',
                    u_dec (he_epoch e), '', the fabric is at epoch '', u_dec (im_epoch img)]))
          else if he_token e \<noteq> mu_token m then
            Inl (make_error St_Fenced
              (cat [''fencing token mismatch for publisher '', quoted (id_str (mu_publisher m)),
                    '' incarnation '', boot_hex (mu_boot m)]))
          else Inr ())"

section \<open>Classes, scopes, policies and subjects\<close>

definition check_population :: "('k, 'v) omap \<Rightarrow> 'k \<Rightarrow> nat \<Rightarrow> string \<Rightarrow> void_result" where
  "check_population m k limit what =
     (if om_find m k = None \<and> length m \<ge> limit then
        Inl (make_error St_LimitExceeded
          (cat [''the fabric already holds '', to_dec (length m), '' '', what, '', limit is '', to_dec limit]))
      else Inr ())"

definition validate_class :: "state_image \<Rightarrow> priority_class_def \<Rightarrow> void_result" where
  "validate_class img d =
     (if \<not> id_valid (cd_id d) then
        Inl (make_error St_MalformedId ''class definition has no identifier'')
      else if \<not> rank_assigned (cd_precedence d) then
        Inl (make_error St_InvalidArgument
          (cat [''class '', quoted (id_str (cd_id d)),
                '' declares no precedence rank; priority semantics are never inferred by the fabric'']))
      else if rank_value (cd_precedence d) > kMaxRank then
        Inl (make_error St_InvalidArgument
          (cat [''class '', quoted (id_str (cd_id d)), '' declares a precedence rank above the ceiling'']))
      else
        rbind (check_text_bounds (cd_description d) (max_description_length (im_limits img)) ''class description'') (\<lambda>_.
        rbind (validate_inheritance img (cd_id d) (cd_inherits_from d)) (\<lambda>_.
          case om_find (im_classes img) (cd_id d) of
            None \<Rightarrow>
              rbind (check_population (im_classes img) (cd_id d) (max_classes (im_limits img)) ''classes'')
                (\<lambda>_. check_precedence_free img (cd_id d) (cd_precedence d))
          | Some e \<Rightarrow>
              if same_class_content (ce_definition e) d then Inr ()
              else check_precedence_free img (cd_id d) (cd_precedence d))))"

text \<open>The walk up from a proposed parent scope.\<close>

function parent_walk :: "state_image \<Rightarrow> policy_scope_def \<Rightarrow> scope_id \<Rightarrow> scope_id \<Rightarrow> scope_id set \<Rightarrow> nat \<Rightarrow> void_result" where
  "parent_walk img d parent cursor visited hops =
     (if cursor = sd_id d then
        Inl (make_error St_CycleDetected
          (cat [''attaching scope '', quoted (id_str (sd_id d)), '' under '', quoted (id_str parent),
                '' would create a scope cycle'']))
      else if cursor \<in> visited then
        Inl (make_error St_Degraded
          (cat [''the scope tree already contains a cycle at '', quoted (id_str cursor)]))
      else if Suc hops > max_scope_depth (im_limits img) then
        Inl (make_error St_LimitExceeded
          (cat [''scope chain would exceed the depth limit of '', to_dec (max_scope_depth (im_limits img))]))
      else case om_find (im_scopes img) cursor of
        None \<Rightarrow> Inl (make_error St_NotFound (cat [''scope '', quoted (id_str cursor), '' is not defined'']))
      | Some node \<Rightarrow>
          (case sd_parent (se_definition node) of
             None \<Rightarrow> Inr ()
           | Some p \<Rightarrow> parent_walk img d parent p (insert cursor visited) (Suc hops)))"
  by pat_completeness auto
termination
  by (relation "measure (\<lambda>(img, _, _, _, _, hops). max_scope_depth (im_limits img) - hops)") auto

declare parent_walk.simps [simp del]

definition validate_scope :: "state_image \<Rightarrow> policy_scope_def \<Rightarrow> void_result" where
  "validate_scope img d =
     (if \<not> id_valid (sd_id d) then
        Inl (make_error St_MalformedId ''scope definition has no identifier'')
      else
        rbind (check_text_bounds (sd_description d) (max_description_length (im_limits img)) ''scope description'') (\<lambda>_.
        rbind (case sd_unknown_default d of
                 None \<Rightarrow> Inr ()
               | Some c \<Rightarrow>
                   if om_has (im_classes img) c then Inr ()
                   else Inl (make_error St_NotFound
                     (cat [''scope '', quoted (id_str (sd_id d)), '' names default class '', quoted (id_str c),
                           '' which is not defined in this fabric state'']))) (\<lambda>_.
        rbind (case sd_parent d of
                 None \<Rightarrow> Inr ()
               | Some p \<Rightarrow>
                   if p = sd_id d then
                     Inl (make_error St_CycleDetected
                       (cat [''scope '', quoted (id_str (sd_id d)), '' cannot be its own parent'']))
                   else if \<not> om_has (im_scopes img) p then
                     Inl (make_error St_NotFound
                       (cat [''parent scope '', quoted (id_str p), '' is not defined'']))
                   else parent_walk img d p p {} 0) (\<lambda>_.
        check_population (im_scopes img) (sd_id d) (max_scopes (im_limits img)) ''scopes''))))"

definition check_visible_list :: "state_image \<Rightarrow> policy_def \<Rightarrow> void_result" where
  "check_visible_list img d =
     rbind
       (for_each (\<lambda>c seen.
          if c \<in> seen then
            Inl (make_error St_InvalidArgument
              (cat [''policy '', quoted (id_str (pd_id d)), '' lists class '', quoted (id_str c), '' more than once'']))
          else if \<not> om_has (im_classes img) c then
            Inl (make_error St_NotFound
              (cat [''policy '', quoted (id_str (pd_id d)), '' lists class '', quoted (id_str c), '' which is not defined'']))
          else Inr (insert c seen)) (pd_visible_classes d) {})
       (\<lambda>_. Inr ())"

definition validate_policy :: "state_image \<Rightarrow> policy_def \<Rightarrow> void_result" where
  "validate_policy img d =
     (if \<not> id_valid (pd_id d) then
        Inl (make_error St_MalformedId ''policy definition has no identifier'')
      else
        rbind (check_text_bounds (pd_description d) (max_description_length (im_limits img)) ''policy description'') (\<lambda>_.
        case om_find (im_scopes img) (pd_scope d) of
          None \<Rightarrow>
            Inl (make_error St_NotFound
              (cat [''policy '', quoted (id_str (pd_id d)), '' names scope '', quoted (id_str (pd_scope d)),
                    '' which is not defined'']))
        | Some scope \<Rightarrow>
            if \<not> gen_is_set (pd_scope_generation d) \<or>
               pd_scope_generation d \<noteq> sd_generation (se_definition scope) then
              Inl (make_error St_StaleGeneration
                (cat [''policy '', quoted (id_str (pd_id d)), '' is bound to scope '', quoted (id_str (pd_scope d)),
                      '' generation '', u_dec (pd_scope_generation d), '' but the scope is at generation '',
                      u_dec (sd_generation (se_definition scope))]))
            else if length (pd_visible_classes d) > max_policy_classes (im_limits img) then
              Inl (make_error St_LimitExceeded
                (cat [''policy '', quoted (id_str (pd_id d)), '' lists '', to_dec (length (pd_visible_classes d)),
                      '' classes, limit is '', to_dec (max_policy_classes (im_limits img))]))
            else
              rbind (check_visible_list img d) (\<lambda>_.
              rbind (case pd_unknown_default d of
                       None \<Rightarrow> Inr ()
                     | Some c \<Rightarrow>
                         if om_has (im_classes img) c then Inr ()
                         else Inl (make_error St_NotFound
                           (cat [''policy '', quoted (id_str (pd_id d)), '' names default class '',
                                 quoted (id_str c), '' which is not defined'']))) (\<lambda>_.
              check_population (im_policies img) (pd_id d) (max_policies (im_limits img)) ''policies''))))"

definition validate_subject :: "state_image \<Rightarrow> subject_def \<Rightarrow> void_result" where
  "validate_subject img d =
     (if \<not> id_valid (ud_id d) then
        Inl (make_error St_MalformedId ''subject definition has no identifier'')
      else
        rbind (check_text_bounds (ud_description d) (max_description_length (im_limits img)) ''subject description'') (\<lambda>_.
        rbind (validate_subject_inheritance img (ud_id d) (ud_inherits_from d)) (\<lambda>_.
        check_population (im_subjects img) (ud_id d) (max_subjects (im_limits img)) ''subjects'')))"

section \<open>Assignments\<close>

definition class_visible :: "state_image \<Rightarrow> class_id \<Rightarrow> scope_id \<Rightarrow> bool" where
  "class_visible img cls scope =
     (case effective_visibility img scope of
        None \<Rightarrow> True
      | Some allowed \<Rightarrow> list_ex (class_implies img cls) allowed)"

definition stale_binding :: "priority_assignment \<Rightarrow> string \<Rightarrow> string \<Rightarrow> generation \<Rightarrow> generation \<Rightarrow> status" where
  "stale_binding a what name bound current =
     make_error St_StaleGeneration
       (cat [''assignment '', quoted (id_str (as_id a)), '' binds '', what, '' '', quoted name, '' generation '',
             u_dec bound, '' but the '', what, '' is at generation '', u_dec current])"

definition undefined_reference :: "priority_assignment \<Rightarrow> string \<Rightarrow> string \<Rightarrow> status" where
  "undefined_reference a what name =
     make_error St_NotFound
       (cat [''assignment '', quoted (id_str (as_id a)), '' '', what, '' '', quoted name, '' which is not defined''])"

definition check_assignment_policy :: "state_image \<Rightarrow> priority_assignment \<Rightarrow> void_result" where
  "check_assignment_policy img a =
     (case as_policy a of
        Some p \<Rightarrow>
          (case om_find (im_policies img) p of
             None \<Rightarrow> Inl (undefined_reference a ''names policy'' (id_str p))
           | Some e \<Rightarrow>
               if as_policy_generation a \<noteq> pd_generation (pe_definition e) then
                 Inl (stale_binding a ''policy'' (id_str p) (as_policy_generation a) (pd_generation (pe_definition e)))
               else Inr ())
      | None \<Rightarrow>
          if gen_is_set (as_policy_generation a) then
            Inl (make_error St_InvalidArgument
              (cat [''assignment '', quoted (id_str (as_id a)), '' carries a policy generation without a policy'']))
          else Inr ())"

definition check_required_policy :: "state_image \<Rightarrow> priority_assignment \<Rightarrow> void_result" where
  "check_required_policy img a =
     (case effective_policy img (as_scope a) of
        None \<Rightarrow> Inr ()
      | Some effective \<Rightarrow>
          (case om_find (im_policies img) effective of
             None \<Rightarrow> Inr ()
           | Some e \<Rightarrow>
               if pd_require_policy_for_assignment (pe_definition e) then
                 (case as_policy a of
                    None \<Rightarrow>
                      Inl (make_error St_Unauthorized
                        (cat [''scope '', quoted (id_str (as_scope a)),
                              '' requires assignments to name the policy that authorizes them'']))
                  | Some p \<Rightarrow>
                      if p \<noteq> effective then
                        Inl (make_error St_Unauthorized
                          (cat [''assignment '', quoted (id_str (as_id a)), '' names policy '', quoted (id_str p),
                                '' but the effective policy of scope '', quoted (id_str (as_scope a)), '' is '',
                                quoted (id_str effective)]))
                      else Inr ())
               else Inr ()))"

definition validate_assign :: "state_image \<Rightarrow> priority_assignment \<Rightarrow> void_result" where
  "validate_assign img a =
     (if \<not> id_valid (as_id a) then Inl (make_error St_MalformedId ''assignment has no identifier'')
      else
        rbind (check_text_bounds (as_note a) (max_note_length (im_limits img)) ''assignment note'') (\<lambda>_.
        case om_find (im_subjects img) (as_subject a) of
          None \<Rightarrow> Inl (undefined_reference a ''names subject'' (id_str (as_subject a)))
        | Some subject \<Rightarrow>
        (case om_find (im_scopes img) (as_scope a) of
          None \<Rightarrow> Inl (undefined_reference a ''names scope'' (id_str (as_scope a)))
        | Some scope \<Rightarrow>
        (case om_find (im_classes img) (as_cls a) of
          None \<Rightarrow> Inl (undefined_reference a ''names class'' (id_str (as_cls a)))
        | Some cls \<Rightarrow>
            if as_subject_generation a \<noteq> ud_generation (ue_definition subject) then
              Inl (stale_binding a ''subject'' (id_str (as_subject a)) (as_subject_generation a)
                (ud_generation (ue_definition subject)))
            else if as_scope_generation a \<noteq> sd_generation (se_definition scope) then
              Inl (stale_binding a ''scope'' (id_str (as_scope a)) (as_scope_generation a)
                (sd_generation (se_definition scope)))
            else if as_class_generation a \<noteq> cd_generation (ce_definition cls) then
              Inl (stale_binding a ''class'' (id_str (as_cls a)) (as_class_generation a)
                (cd_generation (ce_definition cls)))
            else
              rbind (check_assignment_policy img a) (\<lambda>_.
              rbind (case as_displaces a of
                       None \<Rightarrow> Inr ()
                     | Some c \<Rightarrow>
                         if om_has (im_classes img) c then Inr ()
                         else Inl (undefined_reference a ''displaces class'' (id_str c))) (\<lambda>_.
              if \<not> class_visible img (as_cls a) (as_scope a) then
                Inl (make_error St_Unauthorized
                  (cat [''class '', quoted (id_str (as_cls a)), '' is not visible in scope '',
                        quoted (id_str (as_scope a))]))
              else
                rbind (check_required_policy img a) (\<lambda>_.
                check_population (im_assignments img) (as_id a) (max_assignments (im_limits img))
                  ''assignments'')))))))"

definition validate_retire :: "state_image \<Rightarrow> mutation \<Rightarrow> void_result" where
  "validate_retire img m =
     (if \<not> id_valid (mu_retire_target m) then
        Inl (make_error St_MalformedId ''retirement names no assignment'')
      else if \<not> om_has (im_assignments img) (mu_retire_target m) then
        Inl (make_error St_NotFound
          (cat [''assignment '', quoted (id_str (mu_retire_target m)), '' is not defined'']))
      else check_text_bounds (mu_reason m) (max_note_length (im_limits img)) ''retirement reason'')"

section \<open>Authority\<close>

text \<open>The loop over the authority table: it counts the incarnations of the publisher and stops
  at the entry of the requesting incarnation when that entry is fenced or already granted.
  \<open>Inr None\<close> is the early success of a re-registration.\<close>

fun grant_scan :: "mutation \<Rightarrow> (authority_key, authority_entry) omap \<Rightarrow> nat \<Rightarrow> nat option result" where
  "grant_scan m [] boots = Inr (Some boots)"
| "grant_scan m ((k, e) # rest) boots =
     (if fst k = mu_publisher m then
        (if snd k = mu_boot m \<and> he_state e = Fenced then
           Inl (make_error St_Fenced
             (cat [''publisher '', quoted (id_str (mu_publisher m)), '' incarnation '', boot_hex (mu_boot m),
                   '' was fenced; it cannot be granted authority again'']))
         else if snd k = mu_boot m \<and> he_state e = Granted then Inr None
         else grant_scan m rest (Suc boots))
      else grant_scan m rest boots)"

definition validate_grant :: "state_image \<Rightarrow> mutation \<Rightarrow> void_result" where
  "validate_grant img m =
     (if \<not> id_valid (mu_publisher m) then
        Inl (make_error St_MalformedId ''authority request carries no publisher identifier'')
      else if boot_is_zero (mu_boot m) then
        Inl (make_error St_InvalidArgument ''authority request carries an all-zero boot id'')
      else rbind (grant_scan m (im_authority img) 0) (\<lambda>scan.
        case scan of
          None \<Rightarrow> Inr ()
        | Some boots \<Rightarrow>
            if boots \<ge> max_boots_per_publisher (im_limits img) then
              Inl (make_error St_LimitExceeded
                (cat [''publisher '', quoted (id_str (mu_publisher m)), '' already holds '', to_dec boots,
                      '' incarnations, limit is '', to_dec (max_boots_per_publisher (im_limits img))]))
            else Inr ()))"

definition validate_fence :: "mutation \<Rightarrow> void_result" where
  "validate_fence m =
     (if \<not> id_valid (mu_fence_publisher m) \<or> boot_is_zero (mu_fence_boot m) then
        Inl (make_error St_InvalidArgument ''fence request names no publisher incarnation'')
      else Inr ())"

definition validate_advance :: "state_image \<Rightarrow> void_result" where
  "validate_advance img =
     (if epoch_next (im_epoch img) = None then
        Inl (make_error St_Overflow ''the fabric epoch counter is exhausted'')
      else Inr ())"

definition validate_mutation :: "state_image \<Rightarrow> mutation \<Rightarrow> void_result" where
  "validate_mutation img m =
     (case mu_op m of
        DefineClass \<Rightarrow> validate_class img (mu_cls m)
      | DefineScope \<Rightarrow> validate_scope img (mu_scope m)
      | DefinePolicy \<Rightarrow> validate_policy img (mu_policy m)
      | DefineSubject \<Rightarrow> validate_subject img (mu_subject m)
      | Assign \<Rightarrow> validate_assign img (mu_assignment m)
      | RetireAssignment \<Rightarrow> validate_retire img m
      | GrantAuthority \<Rightarrow> validate_grant img m
      | FenceAuthority \<Rightarrow> validate_fence m
      | AdvanceEpoch \<Rightarrow> validate_advance img)"

end
