(* ===== verification/Evaluate.thy ===== *)
theory Evaluate
  imports Validate
begin

text \<open>
  \<^verbatim>\<open>src/evaluate.cpp\<close>: the deterministic evaluation of a priority query against one image. The
  early returns of \<^verbatim>\<open>evaluate_query\<close> are the left values of a sum; a candidate carries the
  assignment entry its pointer refers to, and the winner among the winning candidates is an
  index, so that two candidates are told apart as their addresses are.
\<close>

section \<open>Evidence and the explanation builder\<close>

record candidate =
  ca_level :: nat
  ca_entry :: assignment_entry
  ca_via_subject :: subject_id
  ca_distance :: nat

record rejected_evidence =
  rj_entry :: assignment_entry
  rj_via_subject :: subject_id
  rj_code :: string
  rj_detail :: string
  rj_authority_related :: bool

record chain_builder =
  cb_steps :: "explanation_step list"
  cb_limit :: nat
  cb_truncated :: bool

definition chain_push :: "explanation_step \<Rightarrow> chain_builder \<Rightarrow> chain_builder" where
  "chain_push step b =
     (if length (cb_steps b) + 1 \<ge> cb_limit b then
        (if \<not> cb_truncated b then
           b\<lparr>cb_truncated := True,
             cb_steps := cb_steps b @ [plain_step ''explanation'' ''truncated''
               (cat [''the explanation chain reached the caller's step budget of '', to_dec (cb_limit b)])]\<rparr>
         else b)
      else b\<lparr>cb_steps := cb_steps b @ [step]\<rparr>)"

definition ca_assignment :: "candidate \<Rightarrow> priority_assignment" where
  "ca_assignment c = ae_assignment (ca_entry c)"

definition describe_assignment :: "priority_assignment \<Rightarrow> string" where
  "describe_assignment a =
     cat [assignment_kind_to_string (as_kind a), '' assignment '', quoted (id_str (as_id a)), '' in scope '',
          quoted (id_str (as_scope a)), '' selects class '', quoted (id_str (as_cls a))]"

definition make_step :: "string \<Rightarrow> string \<Rightarrow> string \<Rightarrow> assignment_entry \<Rightarrow> subject_id \<Rightarrow> explanation_step" where
  "make_step stage code detail entry via =
     (let a = ae_assignment entry in
      \<lparr>ex_stage = stage, ex_code = code,
       ex_detail = (if id_valid via \<and> via \<noteq> as_subject a
                    then cat [detail, '' (inherited through '', quoted (id_str via), '')''] else detail),
       ex_assignment = Some (as_id a), ex_assignment_generation = as_generation a,
       ex_cls = Some (as_cls a), ex_class_generation = as_class_generation a,
       ex_scope = Some (as_scope a), ex_policy = as_policy a, ex_provenance = ae_provenance entry\<rparr>)"

definition make_note :: "assignment_entry \<Rightarrow> subject_id \<Rightarrow> string \<Rightarrow> string \<Rightarrow> evidence_note" where
  "make_note entry via code detail =
     (let a = ae_assignment entry in
      \<lparr>ev_assignment = as_id a, ev_assignment_generation = as_generation a, ev_cls = as_cls a,
       ev_class_generation = as_class_generation a, ev_scope = as_scope a,
       ev_via_subject = (if id_valid via \<and> via \<noteq> as_subject a then Some via else None),
       ev_reason_code = code, ev_reason = detail, ev_provenance = ae_provenance entry\<rparr>)"

definition seal :: "priority_decision \<Rightarrow> priority_decision" where
  "seal d = d\<lparr>de_digest := compute_decision_digest d\<rparr>"

definition rejected_decision :: "limits \<Rightarrow> string \<Rightarrow> string \<Rightarrow> fabric_epoch \<Rightarrow> generation \<Rightarrow> priority_decision" where
  "rejected_decision limits code reason epoch g =
     seal (decision_default\<lparr>de_outcome := Out_Rejected, de_authoritative := False, de_reason_code := code,
       de_reason := bound_text reason (max_description_length limits), de_resolution := ''none'',
       de_epoch := epoch, de_state_generation := g\<rparr>)"

section \<open>Conflict modes and policy defaults\<close>

definition effective_conflict_mode :: "state_image \<Rightarrow> scope_id \<Rightarrow> conflict_resolution \<times> string" where
  "effective_conflict_mode img scope =
     (let from_scope = (case om_find (im_scopes img) scope of
            None \<Rightarrow> (Deny, ''default'')
          | Some e \<Rightarrow> (sd_conflict_resolution (se_definition e), ''scope''))
      in case List.find (\<lambda>(_, e). pd_scope (pe_definition e) = scope \<and>
                 pd_conflict_resolution (pe_definition e) \<noteq> None) (im_policies img) of
           None \<Rightarrow> from_scope
         | Some (k, e) \<Rightarrow> (the (pd_conflict_resolution (pe_definition e)), cat [''policy:'', id_str k]))"

record default_resolution =
  df_found :: bool
  df_cls :: class_id
  df_class_generation :: generation
  df_precedence :: precedence_rank
  df_source :: string
  df_privileged :: bool
  df_available :: bool

definition default_none :: default_resolution where
  "default_none = \<lparr>df_found = False, df_cls = id_none, df_class_generation = 0, df_precedence = rank_undeclared,
     df_source = [], df_privileged = False, df_available = False\<rparr>"

definition level_default :: "state_image \<Rightarrow> scope_id \<Rightarrow> (class_id \<times> string) option" where
  "level_default img level =
     (case List.find (\<lambda>(_, e). pd_scope (pe_definition e) = level \<and>
              pd_unknown_default (pe_definition e) \<noteq> None) (im_policies img) of
        Some (k, e) \<Rightarrow> Some (the (pd_unknown_default (pe_definition e)), cat [''policy:'', id_str k])
      | None \<Rightarrow>
          (case om_find (im_scopes img) level of
             None \<Rightarrow> None
           | Some e \<Rightarrow> map_option (\<lambda>c. (c, ''scope'')) (sd_unknown_default (se_definition e))))"

definition resolve_unknown_default :: "state_image \<Rightarrow> scope_id \<Rightarrow> default_resolution" where
  "resolve_unknown_default img scope =
     (case scope_chain img scope of
        Inl _ \<Rightarrow> default_none
      | Inr chain \<Rightarrow>
          (case first_on_chain (level_default img) chain of
             None \<Rightarrow> default_none
           | Some (c, source) \<Rightarrow>
               (let found = default_none\<lparr>df_found := True, df_cls := c, df_source := source\<rparr> in
                case om_find (im_classes img) c of
                  None \<Rightarrow> found
                | Some e \<Rightarrow> found\<lparr>df_class_generation := cd_generation (ce_definition e),
                    df_precedence := cd_precedence (ce_definition e),
                    df_privileged := cd_privileged (ce_definition e),
                    df_available := class_visible img c scope\<rparr>)))"

section \<open>Checks before any evidence is read\<close>

definition stale_decision :: "state_image \<Rightarrow> string \<Rightarrow> string \<Rightarrow> priority_decision" where
  "stale_decision img code reason =
     decision_default\<lparr>de_outcome := Out_Stale, de_reason_code := code, de_reason := reason,
       de_resolution := ''none'', de_epoch := im_epoch img, de_state_generation := im_generation img\<rparr>"

definition reject_query :: "state_image \<Rightarrow> string \<Rightarrow> string \<Rightarrow> priority_decision" where
  "reject_query img code reason =
     rejected_decision (im_limits img) code reason (im_epoch img) (im_generation img)"

definition check_query_epoch :: "state_image \<Rightarrow> priority_query \<Rightarrow> priority_decision + unit" where
  "check_query_epoch img q =
     (case qu_as_of_epoch q of
        None \<Rightarrow> Inr ()
      | Some e \<Rightarrow>
          if e > im_epoch img then
            Inl (reject_query img ''epoch_from_future''
              (cat [''the query claims epoch '', u_dec e, '' but the fabric has only reached epoch '',
                    u_dec (im_epoch img)]))
          else if e < im_epoch img then
            (let reason = cat [''the query was asked against epoch '', u_dec e,
                   '' which the fabric has superseded; the current epoch is '', u_dec (im_epoch img)]
             in Inl (seal ((stale_decision img ''epoch_superseded'' reason)
                  \<lparr>de_chain := [plain_step ''query'' ''epoch_superseded'' reason]\<rparr>)))
          else Inr ())"

definition effective_policy_generation :: "state_image \<Rightarrow> scope_id \<Rightarrow> generation" where
  "effective_policy_generation img scope =
     (case effective_policy img scope of
        None \<Rightarrow> gen_unset
      | Some p \<Rightarrow> (case om_find (im_policies img) p of None \<Rightarrow> gen_unset | Some e \<Rightarrow> pd_generation (pe_definition e)))"

definition query_scope_generation :: "state_image \<Rightarrow> scope_id \<Rightarrow> generation" where
  "query_scope_generation img scope =
     (case om_find (im_scopes img) scope of None \<Rightarrow> gen_unset | Some e \<Rightarrow> sd_generation (se_definition e))"

definition check_required_generations :: "state_image \<Rightarrow> priority_query \<Rightarrow> priority_decision + unit" where
  "check_required_generations img q =
     (let pg = effective_policy_generation img (qu_scope q); sg = query_scope_generation img (qu_scope q) in
      if gen_is_set (qu_require_policy_generation q) \<and> pg < qu_require_policy_generation q then
        Inl (seal ((stale_decision img ''required_policy_generation_not_reached''
          (cat [''the caller requires policy generation '', u_dec (qu_require_policy_generation q),
                '' but the effective policy of scope '', quoted (id_str (qu_scope q)), '' is at generation '', u_dec pg]))
          \<lparr>de_policy_generation := pg, de_scope_generation := sg\<rparr>))
      else if gen_is_set (qu_require_scope_generation q) \<and> sg < qu_require_scope_generation q then
        Inl (seal ((stale_decision img ''required_scope_generation_not_reached''
          (cat [''the caller requires scope generation '', u_dec (qu_require_scope_generation q),
                '' but scope '', quoted (id_str (qu_scope q)), '' is at generation '', u_dec sg]))
          \<lparr>de_policy_generation := pg, de_scope_generation := sg\<rparr>))
      else Inr ())"

text \<open>The checks in order; success gives the subject's generation and the scope chain.\<close>

definition precheck :: "state_image \<Rightarrow> priority_query \<Rightarrow> priority_decision + (generation \<times> scope_id list)" where
  "precheck img q =
     (if im_health img \<noteq> Healthy then
        Inl (reject_query img ''state_degraded''
          (cat [''the fabric state is degraded and cannot authorize a priority: '', im_health_detail img]))
      else if \<not> id_valid (qu_subject q) then
        Inl (reject_query img ''invalid_subject_id'' ''the query does not name a subject'')
      else if \<not> id_valid (qu_scope q) then
        Inl (reject_query img ''invalid_scope_id'' ''the query does not name a policy scope'')
      else
        rbind (check_query_epoch img q) (\<lambda>_.
        case om_find (im_subjects img) (qu_subject q) of
          None \<Rightarrow>
            Inl (reject_query img ''subject_not_registered''
              (cat [''subject '', quoted (id_str (qu_subject q)), '' is not registered in this fabric state'']))
        | Some subject \<Rightarrow>
            if gen_is_set (qu_subject_generation q) \<and>
               qu_subject_generation q \<noteq> ud_generation (ue_definition subject) then
              Inl (seal (stale_decision img ''subject_generation_superseded''
                (cat [''the query names subject '', quoted (id_str (qu_subject q)), '' generation '',
                      u_dec (qu_subject_generation q), '' but the subject is at generation '',
                      u_dec (ud_generation (ue_definition subject))])))
            else case scope_chain img (qu_scope q) of
              Inl e \<Rightarrow> Inl (reject_query img ''scope_unusable'' (st_message e))
            | Inr scopes \<Rightarrow>
                rbind (check_required_generations img q) (\<lambda>_.
                  Inr (ud_generation (ue_definition subject), scopes))))"

section \<open>Collecting evidence\<close>

text \<open>What one assignment of a scanned subject amounts to: not offered to this query, refused with
  a reason, or accepted at a level of the scope chain.\<close>

datatype verdict = Skip | Refuse string string bool | Accept nat

definition judge_bindings :: "state_image \<Rightarrow> assignment_entry \<Rightarrow> nat \<Rightarrow> verdict" where
  "judge_bindings img entry level =
     (let a = ae_assignment entry; name = quoted (id_str (as_id a)) in
      if (case om_find (im_subjects img) (as_subject a) of
            None \<Rightarrow> True | Some e \<Rightarrow> ud_generation (ue_definition e) \<noteq> as_subject_generation a) then
        Refuse ''subject_generation_stale''
          (cat [''assignment '', name, '' binds subject '', quoted (id_str (as_subject a)), '' generation '',
                u_dec (as_subject_generation a), '' which has been superseded'']) False
      else if (case om_find (im_scopes img) (as_scope a) of
            None \<Rightarrow> True | Some e \<Rightarrow> sd_generation (se_definition e) \<noteq> as_scope_generation a) then
        Refuse ''scope_generation_stale''
          (cat [''assignment '', name, '' binds scope '', quoted (id_str (as_scope a)), '' generation '',
                u_dec (as_scope_generation a), '' which has been superseded'']) False
      else case om_find (im_classes img) (as_cls a) of
        None \<Rightarrow>
          Refuse ''class_not_registered''
            (cat [''assignment '', name, '' names class '', quoted (id_str (as_cls a)),
                  '' which is no longer registered'']) False
      | Some cls \<Rightarrow>
          if cd_generation (ce_definition cls) \<noteq> as_class_generation a then
            Refuse ''class_generation_stale''
              (cat [''assignment '', name, '' binds class '', quoted (id_str (as_cls a)), '' generation '',
                    u_dec (as_class_generation a), '' which has been superseded by generation '',
                    u_dec (cd_generation (ce_definition cls))]) False
          else if (case as_policy a of
                 None \<Rightarrow> False
               | Some p \<Rightarrow> (case om_find (im_policies img) p of
                     None \<Rightarrow> True | Some e \<Rightarrow> pd_generation (pe_definition e) \<noteq> as_policy_generation a)) then
            Refuse ''policy_generation_stale''
              (cat [''assignment '', name, '' binds policy '', quoted (id_str (the (as_policy a))), '' generation '',
                    u_dec (as_policy_generation a), '' which has been superseded'']) False
          else if \<not> class_visible img (as_cls a) (as_scope a) then
            Refuse ''class_not_visible''
              (cat [''class '', quoted (id_str (as_cls a)), '' is not visible in scope '', quoted (id_str (as_scope a)),
                    '' under the effective policy'']) False
          else Accept level)"

definition judge :: "state_image \<Rightarrow> scope_id list \<Rightarrow> nat \<Rightarrow> assignment_entry \<Rightarrow> verdict" where
  "judge img scopes distance entry =
     (let a = ae_assignment entry; p = ae_provenance entry; name = quoted (id_str (as_id a)) in
      if distance > 0 \<and> as_kind a \<noteq> Inherited then Skip
      else case find_index (as_scope a) scopes of
        None \<Rightarrow> Skip
      | Some level \<Rightarrow>
          if \<not> ae_active entry then
            Refuse ''assignment_retired''
              (cat [''assignment '', name, '' was retired: '',
                    (if ae_retirement_reason entry = [] then ''no reason recorded'' else ae_retirement_reason entry)]) False
          else if (case om_find (im_authority img) (pv_publisher p, pv_boot p) of
                 None \<Rightarrow> True | Some e \<Rightarrow> he_state e \<noteq> Granted) then
            Refuse ''publisher_incarnation_fenced''
              (cat [''assignment '', name, '' was published by publisher '', quoted (id_str (pv_publisher p)),
                    '' incarnation '', boot_hex (pv_boot p), '' which no longer holds authority'']) True
          else if pv_epoch p \<noteq> im_epoch img then
            Refuse ''epoch_superseded''
              (cat [''assignment '', name, '' was published under epoch '', u_dec (pv_epoch p),
                    '' and the fabric is at epoch '', u_dec (im_epoch img)]) True
          else judge_bindings img entry level)"

definition rejection :: "assignment_entry \<Rightarrow> subject_id \<Rightarrow> string \<Rightarrow> string \<Rightarrow> bool \<Rightarrow> rejected_evidence" where
  "rejection entry via code detail authority_related =
     \<lparr>rj_entry = entry, rj_via_subject = via, rj_code = code, rj_detail = detail,
      rj_authority_related = authority_related\<rparr>"

type_synonym evidence = "candidate list \<times> rejected_evidence list"

fun collect_loop :: "state_image \<Rightarrow> scope_id list \<Rightarrow> subject_id \<Rightarrow> nat \<Rightarrow> assignment_id list \<Rightarrow> nat \<Rightarrow> evidence \<Rightarrow> evidence" where
  "collect_loop img scopes subject distance [] steps acc = acc"
| "collect_loop img scopes subject distance (i # ids) steps (accepted, rejected) =
     (case om_find (im_assignments img) i of
        None \<Rightarrow> collect_loop img scopes subject distance ids steps (accepted, rejected)
      | Some entry \<Rightarrow>
          if Suc steps > max_query_steps (im_limits img) then
            (accepted, rejected @ [rejection entry subject ''evidence_scan_budget_exhausted''
               (cat [''subject '', quoted (id_str subject), '' holds more assignments than the evaluation budget of '',
                     to_dec (max_query_steps (im_limits img))]) False])
          else
            collect_loop img scopes subject distance ids (Suc steps)
              (case judge img scopes distance entry of
                 Skip \<Rightarrow> (accepted, rejected)
               | Refuse code detail auth \<Rightarrow> (accepted, rejected @ [rejection entry subject code detail auth])
               | Accept level \<Rightarrow>
                   (accepted @ [\<lparr>ca_level = level, ca_entry = entry, ca_via_subject = subject, ca_distance = distance\<rparr>],
                    rejected)))"

definition collect_for_subject :: "state_image \<Rightarrow> scope_id list \<Rightarrow> subject_id \<Rightarrow> nat \<Rightarrow> evidence \<Rightarrow> evidence" where
  "collect_for_subject img scopes subject distance acc =
     (case om_find (im_assignments_by_subject img) subject of
        None \<Rightarrow> acc
      | Some bucket \<Rightarrow> collect_loop img scopes subject distance bucket 0 acc)"

text \<open>The ancestor tier stops at the first ancestor that offered any evidence.\<close>

fun collect_ancestors :: "state_image \<Rightarrow> scope_id list \<Rightarrow> ancestor list \<Rightarrow> evidence \<Rightarrow> evidence" where
  "collect_ancestors img scopes [] acc = acc"
| "collect_ancestors img scopes ((subject, distance) # rest) acc =
     (let acc' = collect_for_subject img scopes subject distance acc in
      if length (fst acc') > length (fst acc) \<or> length (snd acc') > length (snd acc) then acc'
      else collect_ancestors img scopes rest acc')"

definition gather :: "state_image \<Rightarrow> priority_query \<Rightarrow> scope_id list \<Rightarrow> priority_decision + evidence" where
  "gather img q scopes =
     (let own = collect_for_subject img scopes (qu_subject q) 0 ([], []) in
      if fst own \<noteq> [] then Inr own
      else case subject_ancestors img (qu_subject q) of
        Inl e \<Rightarrow> Inl (reject_query img ''inheritance_unusable'' (st_message e))
      | Inr ancestors \<Rightarrow> Inr (collect_ancestors img scopes ancestors own))"

section \<open>Exceptions and overrides\<close>

definition displaces_target :: "candidate list \<Rightarrow> candidate \<Rightarrow> bool" where
  "displaces_target accepted c =
     (case as_displaces (ca_assignment c) of
        None \<Rightarrow> True
      | Some d \<Rightarrow> list_ex (\<lambda>other. ca_level other > ca_level c \<and> as_cls (ca_assignment other) = d) accepted)"

definition filter_step :: "candidate list \<Rightarrow> candidate \<Rightarrow> evidence \<Rightarrow> evidence" where
  "filter_step accepted c acc =
     (let a = ca_assignment c; name = quoted (id_str (as_id a)) in
      if as_kind a = Exception \<and> as_displaces a = None then
        (fst acc, snd acc @ [rejection (ca_entry c) (ca_via_subject c) ''exception_without_target''
          (cat [''assignment '', name, '' is declared as an exception but names no class to displace'']) False])
      else if as_displaces a \<noteq> None \<and> \<not> displaces_target accepted c then
        (fst acc, snd acc @ [rejection (ca_entry c) (ca_via_subject c) ''exception_target_mismatch''
          (cat [''assignment '', name, '' displaces class '', quoted (id_str (the (as_displaces a))),
                '' but no valid broader assignment offers that class'']) False])
      else (fst acc @ [c], snd acc))"

definition filter_exceptions :: "evidence \<Rightarrow> evidence" where
  "filter_exceptions ev = fold (filter_step (fst ev)) (fst ev) ([], snd ev)"

section \<open>The deciding level and the winner\<close>

definition non_overridable :: "state_image \<Rightarrow> scope_id \<Rightarrow> bool" where
  "non_overridable img scope =
     (case om_find (im_scopes img) scope of None \<Rightarrow> False | Some e \<Rightarrow> \<not> sd_allow_override (se_definition e))"

definition narrowest_level :: "candidate list \<Rightarrow> nat" where
  "narrowest_level accepted = foldl (\<lambda>l c. min l (ca_level c)) (ca_level (hd accepted)) accepted"

definition authoritative_level :: "state_image \<Rightarrow> scope_id list \<Rightarrow> candidate list \<Rightarrow> nat option" where
  "authoritative_level img scopes accepted =
     foldl (\<lambda>best c.
       if non_overridable img (scopes ! ca_level c) \<and>
          (case best of None \<Rightarrow> True | Some b \<Rightarrow> ca_level c < b) then Some (ca_level c) else best) None accepted"

definition deciding_level :: "state_image \<Rightarrow> scope_id list \<Rightarrow> candidate list \<Rightarrow> nat" where
  "deciding_level img scopes accepted =
     (case authoritative_level img scopes accepted of Some l \<Rightarrow> l | None \<Rightarrow> narrowest_level accepted)"

definition has_conflict :: "candidate list \<Rightarrow> bool" where
  "has_conflict winning =
     list_ex (\<lambda>c. as_cls (ca_assignment c) \<noteq> as_cls (ca_assignment (hd winning))) (tl winning)"

definition pick_higher :: "state_image \<Rightarrow> candidate list \<Rightarrow> nat" where
  "pick_higher img winning =
     foldl (\<lambda>w i.
       case om_find (im_classes img) (as_cls (ca_assignment (winning ! i))) of
         None \<Rightarrow> w
       | Some node \<Rightarrow>
           (case om_find (im_classes img) (as_cls (ca_assignment (winning ! w))) of
              None \<Rightarrow> i
            | Some best \<Rightarrow>
                if rank_value (cd_precedence (ce_definition node)) > rank_value (cd_precedence (ce_definition best))
                then i else w)) 0 [0 ..< length winning]"

definition pick_id_order :: "candidate list \<Rightarrow> nat" where
  "pick_id_order winning =
     foldl (\<lambda>w i. if as_id (ca_assignment (winning ! i)) < as_id (ca_assignment (winning ! w)) then i else w)
       0 [0 ..< length winning]"

text \<open>The winner and the resolution text; \<open>None\<close> is the null winner of a denied conflict.\<close>

definition resolve_conflict :: "state_image \<Rightarrow> priority_query \<Rightarrow> scope_id \<Rightarrow> candidate list \<Rightarrow> nat option \<times> string" where
  "resolve_conflict img q scope winning =
     (case effective_conflict_mode img scope of (mode, source) \<Rightarrow>
        if qu_strict_conflicts q \<or> mode = Deny then
          (None, if qu_strict_conflicts q then ''denied_by_caller'' else cat [''denied_by_'', source])
        else if mode = HigherPrecedence then
          (Some (pick_higher img winning), cat [''higher_precedence_by_'', source])
        else (Some (pick_id_order winning), cat [''assignment_id_order_by_'', source]))"

section \<open>Decisions\<close>

definition conflict_text :: "candidate \<Rightarrow> string" where
  "conflict_text c =
     cat [describe_assignment (ca_assignment c), '' (subject '',
          quoted (id_str (if id_valid (ca_via_subject c) then ca_via_subject c else as_subject (ca_assignment c))), '')'']"

definition loser_notes :: "candidate list \<Rightarrow> nat option \<Rightarrow> string \<Rightarrow> evidence_note list" where
  "loser_notes winning winner resolution =
     map (\<lambda>i. let c = winning ! i in
       make_note (ca_entry c) (ca_via_subject c) ''conflict_loser''
         (cat [describe_assignment (ca_assignment c), '' lost the deterministic conflict resolution ('', resolution, '')'']))
       (filter (\<lambda>i. Some i \<noteq> winner) [0 ..< length winning])"

definition displaced_note :: "scope_id list \<Rightarrow> nat \<Rightarrow> candidate \<Rightarrow> evidence_note" where
  "displaced_note scopes level c =
     (let narrower = ca_level c < level; deciding = quoted (id_str (scopes ! level)) in
      make_note (ca_entry c) (ca_via_subject c)
        (if narrower then ''displaced_by_authoritative_scope'' else ''broader_scope_displaced'')
        (cat [describe_assignment (ca_assignment c),
              (if narrower then cat ['' was displaced because scope '', deciding, '' declares itself non-overridable'']
               else cat ['' was displaced by narrower evidence in scope '', deciding])]))"

definition conflict_outcome :: "string \<Rightarrow> nat option \<Rightarrow> string \<Rightarrow> priority_decision \<Rightarrow> priority_decision" where
  "conflict_outcome deciding winner resolution d =
     (let d = d\<lparr>de_outcome := Out_Conflict, de_authoritative := (winner \<noteq> None), de_resolution := resolution\<rparr> in
      if winner \<noteq> None then
        d\<lparr>de_reason_code := ''conflict_resolved'',
          de_reason := cat [''contradictory assignments were found at scope '', deciding,
            ''; the policy resolved them deterministically ('', resolution, '')'']\<rparr>
      else
        d\<lparr>de_reason_code := ''conflict_unresolved'',
          de_reason := cat [''contradictory assignments were found at scope '', deciding,
            '' and the effective conflict policy denies rather than guessing'']\<rparr>)"

definition plain_outcome :: "priority_query \<Rightarrow> string \<Rightarrow> candidate \<Rightarrow> bool \<Rightarrow> priority_decision \<Rightarrow> priority_decision" where
  "plain_outcome q deciding winner any_superseded d =
     (let d = d\<lparr>de_authoritative := True, de_resolution := (if any_superseded then ''narrower_scope'' else ''unique'')\<rparr>;
          name = quoted (id_str (as_id (ca_assignment winner))) in
      if any_superseded then
        d\<lparr>de_outcome := Out_Overridden, de_reason_code := ''narrower_scope_overrides'',
          de_reason := cat [''assignment '', name, '' in scope '', deciding,
            '' displaces broader evidence in the enclosing scopes'']\<rparr>
      else if ca_distance winner > 0 then
        d\<lparr>de_outcome := Out_Inherited, de_reason_code := ''inherited_from_ancestor'',
          de_reason := cat [''subject '', quoted (id_str (qu_subject q)),
            '' holds no assignment of its own; the class comes from ancestor '',
            quoted (id_str (ca_via_subject winner)), '' at inheritance distance '', to_dec (ca_distance winner)]\<rparr>
      else
        d\<lparr>de_outcome := Out_Assigned, de_reason_code := ''explicit_assignment'',
          de_reason := cat [''assignment '', name, '' names subject '', quoted (id_str (qu_subject q)),
            '' directly in scope '', deciding]\<rparr>)"

definition bind_class :: "state_image \<Rightarrow> candidate \<Rightarrow> priority_decision \<Rightarrow> priority_decision" where
  "bind_class img winner d =
     (case om_find (im_classes img) (as_cls (ca_assignment winner)) of
        None \<Rightarrow> d\<lparr>de_authoritative := False, de_outcome := Out_Rejected, de_reason_code := ''class_disappeared'',
          de_reason := ''the winning assignment names a class that is not registered''\<rparr>
      | Some e \<Rightarrow> d\<lparr>de_cls := as_cls (ca_assignment winner), de_class_generation := cd_generation (ce_definition e),
          de_precedence := cd_precedence (ce_definition e), de_privileged_class := cd_privileged (ce_definition e)\<rparr>)"

definition final_step :: "candidate option \<Rightarrow> priority_decision \<Rightarrow> explanation_step" where
  "final_step winner d =
     (let s = plain_step ''decision'' (de_reason_code d) (de_reason d) in
      case winner of
        None \<Rightarrow> s
      | Some w \<Rightarrow>
          if de_authoritative d then
            s\<lparr>ex_assignment := Some (as_id (ca_assignment w)), ex_assignment_generation := as_generation (ca_assignment w),
              ex_cls := Some (de_cls d), ex_class_generation := de_class_generation d,
              ex_scope := Some (as_scope (ca_assignment w)), ex_provenance := ae_provenance (ca_entry w)\<rparr>
          else s)"

definition decide :: "state_image \<Rightarrow> priority_query \<Rightarrow> scope_id list \<Rightarrow> candidate list \<Rightarrow> chain_builder \<Rightarrow>
    priority_decision \<Rightarrow> priority_decision" where
  "decide img q scopes accepted builder base =
     (let level = deciding_level img scopes accepted;
          winning = filter (\<lambda>c. ca_level c = level) accepted;
          losing = filter (\<lambda>c. ca_level c \<noteq> level) accepted;
          deciding = quoted (id_str (scopes ! level));
          conflict = has_conflict winning;
          resolved = (if conflict then resolve_conflict img q (scopes ! level) winning else (Some 0, ''unique''));
          winner = map_option ((!) winning) (fst resolved);
          d1 = (if conflict then
                  conflict_outcome deciding (fst resolved) (snd resolved)
                    (base\<lparr>de_conflicts := map conflict_text winning,
                          de_superseded := loser_notes winning (fst resolved) (snd resolved)\<rparr>)
                else plain_outcome q deciding (hd winning) (losing \<noteq> []) base);
          d2 = (case winner of
                  None \<Rightarrow> d1
                | Some w \<Rightarrow> if de_authoritative d1 then bind_class img w d1 else d1);
          d3 = d2\<lparr>de_superseded := de_superseded d2 @ map (displaced_note scopes level) losing\<rparr>
      in seal (d3\<lparr>de_chain := cb_steps (chain_push (final_step winner d3) builder)\<rparr>))"

definition no_evidence :: "state_image \<Rightarrow> priority_query \<Rightarrow> rejected_evidence list \<Rightarrow> chain_builder \<Rightarrow>
    priority_decision \<Rightarrow> priority_decision" where
  "no_evidence img q rejected builder base =
     (let fallback = resolve_unknown_default img (qu_scope q);
          any_authority = list_ex rj_authority_related rejected;
          (d, b) =
            (if rejected \<noteq> [] then
               (base\<lparr>de_outcome := (if any_authority then Out_Fenced else Out_Stale),
                  de_reason_code := (if any_authority then ''evidence_fenced'' else ''evidence_stale''),
                  de_reason := cat [''the fabric holds '', to_dec (length rejected),
                    '' piece(s) of evidence for this subject and scope, and every one of them lost its authority: '',
                    rj_code (hd rejected)],
                  de_resolution := ''none''\<rparr>, builder)
             else if df_found fallback \<and> df_available fallback then
               (let reason = cat [''no assignment exists for subject '', quoted (id_str (qu_subject q)), '' in scope '',
                      quoted (id_str (qu_scope q)), ''; the policy declared by '', df_source fallback,
                      '' supplies the default class '', quoted (id_str (df_cls fallback))]
                in (base\<lparr>de_outcome := Out_Assigned, de_authoritative := True, de_cls := df_cls fallback,
                      de_class_generation := df_class_generation fallback, de_precedence := df_precedence fallback,
                      de_privileged_class := df_privileged fallback, de_reason_code := ''policy_declared_default'',
                      de_reason := reason, de_resolution := ''policy_default''\<rparr>,
                    chain_push ((plain_step ''default.apply'' ''policy_declared_default'' reason)
                      \<lparr>ex_cls := Some (df_cls fallback), ex_class_generation := df_class_generation fallback\<rparr>) builder))
             else if df_found fallback then
               (base\<lparr>de_outcome := Out_Unknown, de_reason_code := ''default_class_unavailable'',
                  de_reason := cat [''the policy declares default class '', quoted (id_str (df_cls fallback)),
                    '' for unassigned subjects but that class is not usable in scope '', quoted (id_str (qu_scope q)),
                    ''; the fabric does not substitute another class''],
                  de_resolution := ''none''\<rparr>, builder)
             else
               (base\<lparr>de_outcome := Out_Unknown, de_reason_code := ''no_authoritative_assignment'',
                  de_reason := cat [''no assignment, inheritance or policy default covers subject '',
                    quoted (id_str (qu_subject q)), '' in scope '', quoted (id_str (qu_scope q)),
                    ''; the fabric reports UNKNOWN rather than assuming a low class''],
                  de_resolution := ''none''\<rparr>, builder))
      in seal (d\<lparr>de_chain := cb_steps (chain_push (plain_step ''decision'' (de_reason_code d) (de_reason d)) b)\<rparr>))"

definition step_budget :: "limits \<Rightarrow> priority_query \<Rightarrow> nat" where
  "step_budget limits q =
     max 2 (min (if qu_max_explanation_steps q = 0 then max_explanation_steps limits
                 else unat (qu_max_explanation_steps q)) (max_explanation_steps limits))"

definition evidence_chain :: "state_image \<Rightarrow> priority_query \<Rightarrow> generation \<Rightarrow> evidence \<Rightarrow> chain_builder" where
  "evidence_chain img q subject_generation ev =
     (let b0 = \<lparr>cb_steps = [], cb_limit = step_budget (im_limits img) q, cb_truncated = False\<rparr>;
          b1 = chain_push (plain_step ''query'' ''validated''
            (cat [''subject '', quoted (id_str (qu_subject q)), '' generation '', u_dec subject_generation,
                  '' in scope '', quoted (id_str (qu_scope q)), '' generation '',
                  u_dec (query_scope_generation img (qu_scope q)), '' at epoch '', u_dec (im_epoch img)])) b0;
          b2 = fold (\<lambda>c. chain_push (make_step ''candidate.accept'' ''binding_ok''
                 (describe_assignment (ca_assignment c)) (ca_entry c) (ca_via_subject c))) (fst ev) b1
      in fold (\<lambda>r. chain_push (make_step ''candidate.reject'' (rj_code r) (rj_detail r) (rj_entry r)
                 (rj_via_subject r))) (snd ev) b2)"

definition base_decision :: "state_image \<Rightarrow> priority_query \<Rightarrow> rejected_evidence list \<Rightarrow> priority_decision" where
  "base_decision img q rejected =
     decision_default\<lparr>de_epoch := im_epoch img, de_state_generation := im_generation img,
       de_policy_generation := effective_policy_generation img (qu_scope q),
       de_scope_generation := query_scope_generation img (qu_scope q),
       de_rejected_evidence := map (\<lambda>r. make_note (rj_entry r) (rj_via_subject r) (rj_code r) (rj_detail r)) rejected\<rparr>"

definition evaluate_query :: "state_image \<Rightarrow> priority_query \<Rightarrow> priority_decision" where
  "evaluate_query img q =
     (case precheck img q of
        Inl d \<Rightarrow> d
      | Inr (subject_generation, scopes) \<Rightarrow>
          (case gather img q scopes of
             Inl d \<Rightarrow> d
           | Inr gathered \<Rightarrow>
               (let ev = filter_exceptions gathered;
                    builder = evidence_chain img q subject_generation ev;
                    rejected = take (max_query_steps (im_limits img)) (snd ev);
                    base = base_decision img q rejected
                in if fst ev = [] then no_evidence img q rejected builder base
                   else decide img q scopes (fst ev) builder base)))"

end
