(* ===== verification/StateCodec.thy ===== *)
theory StateCodec
  imports State
begin

text \<open>
  The durable encodings of \<^verbatim>\<open>src/state.cpp\<close>: \<^verbatim>\<open>encode_state\<close>/\<^verbatim>\<open>decode_state\<close> for a snapshot and
  \<^verbatim>\<open>encode_mutation\<close>/\<^verbatim>\<open>decode_mutation\<close> for a journal record, with the round trips that recovery
  relies on.
\<close>

section \<open>Shared parts\<close>

definition kStateMagic :: u32 where "kStateMagic = 0x31544650"
definition kFormatVersion :: u16 where "kFormatVersion = 1"

definition encode_blob :: "string \<Rightarrow> string" where
  "encode_blob blob = enc_u32 (of_nat (length blob)) @ blob"

definition decode_blob :: "nat \<Rightarrow> string decoder" where
  "decode_blob bound = dec_str bound"

text \<open>A definition stored as a blob of its own, and a provenance blob, which is read without
  checking that it ends where the provenance ends.\<close>

definition dec_definition_blob :: "limits \<Rightarrow> (string \<Rightarrow> limits \<Rightarrow> 'a result) \<Rightarrow> 'a decoder" where
  "dec_definition_blob limits decode =
     dec_bind (decode_blob (max_record_payload limits)) (\<lambda>blob s.
       rbind (decode blob limits) (\<lambda>x. Inr (x, s)))"

definition dec_stored_provenance :: "limits \<Rightarrow> provenance decoder" where
  "dec_stored_provenance limits =
     dec_bind (decode_blob (max_record_payload limits)) (\<lambda>blob s.
       rbind (decode_provenance limits blob) (\<lambda>(p, _). Inr (p, s)))"

definition read_entity_count :: "nat \<Rightarrow> string \<Rightarrow> u32 decoder" where
  "read_entity_count bound what = dec_bind dec_u32 (\<lambda>count.
     if unat count > bound then
       dec_fail (make_error St_LimitExceeded
         (cat [''state image declares '', u_dec count, '' '', what, '', limit is '', to_dec bound]))
     else dec_return count)"

fun dec_loop :: "nat \<Rightarrow> ('s \<Rightarrow> 's decoder) \<Rightarrow> 's \<Rightarrow> 's decoder" where
  "dec_loop 0 body acc = dec_return acc"
| "dec_loop (Suc n) body acc = dec_bind (body acc) (dec_loop n body)"

text \<open>Read one entry and emplace it.\<close>

definition dec_emplace :: "('k::linorder \<times> 'v) decoder \<Rightarrow> ('k, 'v) omap \<Rightarrow> ('k, 'v) omap decoder" where
  "dec_emplace entry m = dec_bind entry (\<lambda>(k, v). dec_return (om_emplace k v m))"

definition dec_entities :: "nat \<Rightarrow> string \<Rightarrow> ('k::linorder \<times> 'v) decoder \<Rightarrow> ('k, 'v) omap decoder" where
  "dec_entities bound what entry =
     dec_bind (read_entity_count bound what) (\<lambda>count. dec_loop (unat count) (dec_emplace entry) [])"

section \<open>Entries\<close>

definition enc_class_entry :: "class_id \<times> class_entry \<Rightarrow> string" where
  "enc_class_entry entry =
     encode_blob (encode_class_definition (ce_definition (snd entry))) @
     encode_blob (encode_provenance (ce_provenance (snd entry)))"

definition dec_class_entry :: "limits \<Rightarrow> (class_id \<times> class_entry) decoder" where
  "dec_class_entry limits =
     dec_bind (dec_definition_blob limits decode_class_definition) (\<lambda>d.
     dec_bind (dec_stored_provenance limits) (\<lambda>p.
       dec_return (cd_id d, \<lparr>ce_definition = d, ce_provenance = p\<rparr>)))"

definition enc_scope_entry :: "scope_id \<times> scope_entry \<Rightarrow> string" where
  "enc_scope_entry entry =
     encode_blob (encode_scope_definition (se_definition (snd entry))) @
     encode_blob (encode_provenance (se_provenance (snd entry)))"

definition dec_scope_entry :: "limits \<Rightarrow> (scope_id \<times> scope_entry) decoder" where
  "dec_scope_entry limits =
     dec_bind (dec_definition_blob limits decode_scope_definition) (\<lambda>d.
     dec_bind (dec_stored_provenance limits) (\<lambda>p.
       dec_return (sd_id d, \<lparr>se_definition = d, se_provenance = p\<rparr>)))"

definition enc_policy_entry :: "policy_id \<times> policy_entry \<Rightarrow> string" where
  "enc_policy_entry entry =
     encode_blob (encode_policy_definition (pe_definition (snd entry))) @
     encode_blob (encode_provenance (pe_provenance (snd entry)))"

definition dec_policy_entry :: "limits \<Rightarrow> (policy_id \<times> policy_entry) decoder" where
  "dec_policy_entry limits =
     dec_bind (dec_definition_blob limits decode_policy_definition) (\<lambda>d.
     dec_bind (dec_stored_provenance limits) (\<lambda>p.
       dec_return (pd_id d, \<lparr>pe_definition = d, pe_provenance = p\<rparr>)))"

definition enc_subject_entry :: "subject_id \<times> subject_entry \<Rightarrow> string" where
  "enc_subject_entry entry =
     encode_blob (encode_subject_definition (ue_definition (snd entry))) @
     encode_blob (encode_provenance (ue_provenance (snd entry)))"

definition dec_subject_entry :: "limits \<Rightarrow> (subject_id \<times> subject_entry) decoder" where
  "dec_subject_entry limits =
     dec_bind (dec_definition_blob limits decode_subject_definition) (\<lambda>d.
     dec_bind (dec_stored_provenance limits) (\<lambda>p.
       dec_return (ud_id d, \<lparr>ue_definition = d, ue_provenance = p\<rparr>)))"

definition enc_assignment_entry :: "assignment_id \<times> assignment_entry \<Rightarrow> string" where
  "enc_assignment_entry entry =
     encode_blob (encode_assignment (ae_assignment (snd entry))) @
     encode_blob (encode_provenance (ae_provenance (snd entry))) @ enc_bool (ae_active (snd entry)) @
     enc_str (ae_retirement_reason (snd entry)) @
     encode_blob (encode_provenance (ae_retired_by (snd entry)))"

definition dec_assignment_entry :: "limits \<Rightarrow> (assignment_id \<times> assignment_entry) decoder" where
  "dec_assignment_entry limits =
     dec_bind (dec_definition_blob limits decode_assignment) (\<lambda>a.
     dec_bind (dec_stored_provenance limits) (\<lambda>p. dec_bind dec_bool (\<lambda>active.
     dec_bind (dec_str (max_note_length limits)) (\<lambda>reason.
     dec_bind (dec_stored_provenance limits) (\<lambda>retired_by.
       dec_return (as_id a, \<lparr>ae_assignment = a, ae_provenance = p, ae_active = active,
         ae_retirement_reason = reason, ae_retired_by = retired_by\<rparr>))))))"

definition enc_authority_entry :: "authority_key \<times> authority_entry \<Rightarrow> string" where
  "enc_authority_entry entry =
     enc_id (he_publisher (snd entry)) @ enc_raw (he_boot (snd entry)) @
     enc_u64 (he_epoch (snd entry)) @ enc_u64 (he_token (snd entry)) @
     enc_u8 (authority_state_value (he_state (snd entry))) @
     encode_blob (encode_provenance (he_provenance (snd entry)))"

definition dec_authority_entry :: "limits \<Rightarrow> (authority_key \<times> authority_entry) decoder" where
  "dec_authority_entry limits =
     dec_bind (dec_id limits) (\<lambda>publisher. dec_bind decode_boot (\<lambda>boot.
     dec_bind dec_u64 (\<lambda>epoch. dec_bind dec_u64 (\<lambda>token. dec_bind dec_u8 (\<lambda>state.
       if state > authority_state_value Expired then
         dec_fail (make_error St_Corrupt ''authority record carries an unknown lifecycle state'')
       else dec_bind (dec_stored_provenance limits) (\<lambda>p.
         dec_return ((publisher, boot), \<lparr>he_publisher = publisher, he_boot = boot, he_epoch = epoch,
           he_token = token, he_state = authority_state_of state, he_provenance = p\<rparr>)))))))"

definition dec_emplace_authority ::
  "limits \<Rightarrow> (authority_key, authority_entry) omap \<Rightarrow> (authority_key, authority_entry) omap decoder" where
  "dec_emplace_authority limits m =
     dec_bind (dec_authority_entry limits) (\<lambda>(k, v).
       if length m \<ge> max_publishers limits * max_boots_per_publisher limits then
         dec_fail (make_error St_LimitExceeded ''state image holds more authority records than the limit allows'')
       else dec_return (om_emplace k v m))"

definition enc_audit_blob :: "audit_entry \<Rightarrow> string" where
  "enc_audit_blob e = encode_blob (encode_audit_entry e)"

definition dec_audit_blob :: "limits \<Rightarrow> audit_entry decoder" where
  "dec_audit_blob limits = dec_blob (max_record_payload limits) decode_audit_entry"

section \<open>The state image\<close>

definition encode_state :: "state_image \<Rightarrow> string" where
  "encode_state img =
     enc_u32 kStateMagic @ enc_u16 kFormatVersion @ enc_u64 (im_epoch img) @
     enc_u64 (im_generation img) @ enc_u64 (im_last_sequence img) @
     enc_u64 (im_next_fencing_token img) @ enc_u64 (im_next_audit_sequence img) @
     enc_u8 (health_value (im_health img)) @ enc_str (im_health_detail img) @
     enc_list enc_class_entry (im_classes img) @ enc_list enc_scope_entry (im_scopes img) @
     enc_list enc_policy_entry (im_policies img) @ enc_list enc_subject_entry (im_subjects img) @
     enc_list enc_assignment_entry (im_assignments img) @
     enc_list enc_authority_entry (im_authority img) @ enc_list enc_audit_blob (im_audit img)"

definition state_header :: "(u64 \<times> u64 \<times> u64 \<times> u64 \<times> u64 \<times> health \<times> string) decoder" where
  "state_header =
     dec_bind dec_u32 (\<lambda>magic.
       if magic \<noteq> kStateMagic then
         dec_fail (make_error St_Corrupt ''state image has a wrong magic value'')
       else dec_bind dec_u16 (\<lambda>format.
       if format \<noteq> kFormatVersion then
         dec_fail (make_error St_Unsupported
           (cat [''state image declares format version '', u_dec format, '', this build implements '',
                 u_dec kFormatVersion]))
       else
         dec_bind dec_u64 (\<lambda>epoch. dec_bind dec_u64 (\<lambda>g. dec_bind dec_u64 (\<lambda>last_sequence.
         dec_bind dec_u64 (\<lambda>next_token. dec_bind dec_u64 (\<lambda>next_audit.
         dec_bind dec_u8 (\<lambda>h.
           if h > health_value Degraded then
             dec_fail (make_error St_Corrupt ''state image carries an unknown health value'')
           else dec_bind (dec_str 1024) (\<lambda>detail.
             dec_return (epoch, g, last_sequence, next_token, next_audit, health_of h, detail))))))))))"

definition state_fields :: "limits \<Rightarrow> state_image decoder" where
  "state_fields limits =
     dec_bind state_header (\<lambda>(epoch, g, last_sequence, next_token, next_audit, h, detail).
     dec_bind (dec_entities (max_classes limits) ''classes'' (dec_class_entry limits)) (\<lambda>classes.
     dec_bind (dec_entities (max_scopes limits) ''scopes'' (dec_scope_entry limits)) (\<lambda>scopes.
     dec_bind (dec_entities (max_policies limits) ''policies'' (dec_policy_entry limits)) (\<lambda>policies.
     dec_bind (dec_entities (max_subjects limits) ''subjects'' (dec_subject_entry limits)) (\<lambda>subjects.
     dec_bind (dec_entities (max_assignments limits) ''assignments'' (dec_assignment_entry limits)) (\<lambda>assignments.
     dec_bind (read_entity_count (max_publishers limits) ''authority records'') (\<lambda>authority_count.
     dec_bind (dec_loop (unat authority_count) (dec_emplace_authority limits) []) (\<lambda>authority.
     dec_bind (read_entity_count (max_audit_entries limits) ''audit entries'') (\<lambda>audit_count.
     dec_bind (dec_repeat (unat audit_count) (dec_audit_blob limits)) (\<lambda>audit.
       dec_return \<lparr>im_epoch = epoch, im_generation = g, im_last_sequence = last_sequence,
         im_next_fencing_token = next_token, im_next_audit_sequence = next_audit,
         im_limits = limits, im_classes = classes, im_scopes = scopes, im_policies = policies,
         im_subjects = subjects, im_assignments = assignments, im_assignments_by_subject = [],
         im_authority = authority, im_audit = audit, im_health = h, im_health_detail = detail\<rparr>))))))))))"

definition decode_state :: "string \<Rightarrow> limits \<Rightarrow> state_image result" where
  "decode_state payload limits =
     rbind (dec_whole (state_fields limits) payload) (\<lambda>img. Inr (rebuild_indexes img))"

definition state_digest :: "state_image \<Rightarrow> digest" where
  "state_digest img = sha256_text (encode_state img)"

section \<open>Mutations\<close>

definition mutation_payload :: "mutation \<Rightarrow> string" where
  "mutation_payload m =
     (case mu_op m of
        DefineClass \<Rightarrow> encode_blob (encode_class_definition (mu_cls m))
      | DefineScope \<Rightarrow> encode_blob (encode_scope_definition (mu_scope m))
      | DefinePolicy \<Rightarrow> encode_blob (encode_policy_definition (mu_policy m))
      | DefineSubject \<Rightarrow> encode_blob (encode_subject_definition (mu_subject m))
      | Assign \<Rightarrow> encode_blob (encode_assignment (mu_assignment m))
      | RetireAssignment \<Rightarrow> enc_id (mu_retire_target m)
      | GrantAuthority \<Rightarrow> []
      | AdvanceEpoch \<Rightarrow> []
      | FenceAuthority \<Rightarrow> enc_id (mu_fence_publisher m) @ enc_raw (mu_fence_boot m))"

definition encode_mutation :: "mutation \<Rightarrow> string" where
  "encode_mutation m =
     enc_u16 (mutation_op_value (mu_op m)) @ enc_u64 (mu_epoch m) @ enc_id (mu_publisher m) @
     enc_raw (mu_boot m) @ enc_u64 (mu_token m) @ enc_u64 (mu_recorded_at_ms m) @
     enc_str (mu_reason m) @ mutation_payload m @ enc_u64 (mu_resulting_generation m)"

definition mutation_ops :: "mutation_op list" where
  "mutation_ops = [DefineClass, DefineScope, DefinePolicy, DefineSubject, Assign, RetireAssignment,
     GrantAuthority, FenceAuthority, AdvanceEpoch]"

definition mutation_op_of :: "u16 \<Rightarrow> mutation_op" where
  "mutation_op_of v = mutation_ops ! (unat v - 1)"

definition dec_mutation_op :: "mutation_op decoder" where
  "dec_mutation_op = dec_bind dec_u16 (\<lambda>v.
     if v < mutation_op_value DefineClass \<or> v > mutation_op_value AdvanceEpoch then
       dec_fail (make_error St_Corrupt (cat [''journal record carries an unknown operation '', u_dec v]))
     else dec_return (mutation_op_of v))"

definition dec_mutation_payload :: "limits \<Rightarrow> mutation \<Rightarrow> mutation decoder" where
  "dec_mutation_payload limits m =
     (case mu_op m of
        DefineClass \<Rightarrow>
          dec_bind (dec_definition_blob limits decode_class_definition) (\<lambda>d. dec_return (m\<lparr>mu_cls := d\<rparr>))
      | DefineScope \<Rightarrow>
          dec_bind (dec_definition_blob limits decode_scope_definition) (\<lambda>d. dec_return (m\<lparr>mu_scope := d\<rparr>))
      | DefinePolicy \<Rightarrow>
          dec_bind (dec_definition_blob limits decode_policy_definition) (\<lambda>d. dec_return (m\<lparr>mu_policy := d\<rparr>))
      | DefineSubject \<Rightarrow>
          dec_bind (dec_definition_blob limits decode_subject_definition) (\<lambda>d. dec_return (m\<lparr>mu_subject := d\<rparr>))
      | Assign \<Rightarrow>
          dec_bind (dec_definition_blob limits decode_assignment) (\<lambda>a. dec_return (m\<lparr>mu_assignment := a\<rparr>))
      | RetireAssignment \<Rightarrow> dec_bind (dec_id limits) (\<lambda>i. dec_return (m\<lparr>mu_retire_target := i\<rparr>))
      | GrantAuthority \<Rightarrow> dec_return m
      | AdvanceEpoch \<Rightarrow> dec_return m
      | FenceAuthority \<Rightarrow>
          dec_bind (dec_id limits) (\<lambda>publisher. dec_bind decode_boot (\<lambda>boot.
            dec_return (m\<lparr>mu_fence_publisher := publisher, mu_fence_boot := boot\<rparr>))))"

definition mutation_fields :: "limits \<Rightarrow> mutation decoder" where
  "mutation_fields limits =
     dec_bind dec_mutation_op (\<lambda>op. dec_bind dec_u64 (\<lambda>epoch. dec_bind (dec_id limits) (\<lambda>publisher.
     dec_bind decode_boot (\<lambda>boot. dec_bind dec_u64 (\<lambda>token. dec_bind dec_u64 (\<lambda>recorded_at.
     dec_bind (dec_str (max_note_length limits)) (\<lambda>reason.
     dec_bind (dec_mutation_payload limits (mutation_default\<lparr>mu_op := op, mu_epoch := epoch,
         mu_publisher := publisher, mu_boot := boot, mu_token := token,
         mu_recorded_at_ms := recorded_at, mu_reason := reason\<rparr>)) (\<lambda>m.
     dec_bind dec_u64 (\<lambda>resulting. dec_return (m\<lparr>mu_resulting_generation := resulting\<rparr>))))))))))"

definition decode_mutation :: "string \<Rightarrow> limits \<Rightarrow> mutation result" where
  "decode_mutation payload limits = dec_whole (mutation_fields limits) payload"

section \<open>What can be stored\<close>

definition blob_ok :: "limits \<Rightarrow> string \<Rightarrow> bool" where
  "blob_ok limits b \<longleftrightarrow> str_ok (max_record_payload limits) b"

definition stored_provenance_ok :: "limits \<Rightarrow> provenance \<Rightarrow> bool" where
  "stored_provenance_ok limits p \<longleftrightarrow> provenance_ok limits p \<and> blob_ok limits (encode_provenance p)"

definition class_entry_ok :: "limits \<Rightarrow> class_id \<times> class_entry \<Rightarrow> bool" where
  "class_entry_ok limits = (\<lambda>(k, e). k = cd_id (ce_definition e) \<and> class_ok limits (ce_definition e) \<and>
     blob_ok limits (encode_class_definition (ce_definition e)) \<and> stored_provenance_ok limits (ce_provenance e))"

definition scope_entry_ok :: "limits \<Rightarrow> scope_id \<times> scope_entry \<Rightarrow> bool" where
  "scope_entry_ok limits = (\<lambda>(k, e). k = sd_id (se_definition e) \<and> scope_ok limits (se_definition e) \<and>
     blob_ok limits (encode_scope_definition (se_definition e)) \<and> stored_provenance_ok limits (se_provenance e))"

definition policy_entry_ok :: "limits \<Rightarrow> policy_id \<times> policy_entry \<Rightarrow> bool" where
  "policy_entry_ok limits = (\<lambda>(k, e). k = pd_id (pe_definition e) \<and> policy_ok limits (pe_definition e) \<and>
     blob_ok limits (encode_policy_definition (pe_definition e)) \<and> stored_provenance_ok limits (pe_provenance e))"

definition subject_entry_ok :: "limits \<Rightarrow> subject_id \<times> subject_entry \<Rightarrow> bool" where
  "subject_entry_ok limits = (\<lambda>(k, e). k = ud_id (ue_definition e) \<and> subject_ok limits (ue_definition e) \<and>
     blob_ok limits (encode_subject_definition (ue_definition e)) \<and> stored_provenance_ok limits (ue_provenance e))"

definition assignment_entry_ok :: "limits \<Rightarrow> assignment_id \<times> assignment_entry \<Rightarrow> bool" where
  "assignment_entry_ok limits = (\<lambda>(k, e). k = as_id (ae_assignment e) \<and> assignment_ok limits (ae_assignment e) \<and>
     blob_ok limits (encode_assignment (ae_assignment e)) \<and> stored_provenance_ok limits (ae_provenance e) \<and>
     str_ok (max_note_length limits) (ae_retirement_reason e) \<and> stored_provenance_ok limits (ae_retired_by e))"

definition authority_entry_ok :: "limits \<Rightarrow> authority_key \<times> authority_entry \<Rightarrow> bool" where
  "authority_entry_ok limits = (\<lambda>(k, e). k = (he_publisher e, he_boot e) \<and> id_ok limits (he_publisher e) \<and>
     boot_wf (he_boot e) \<and> stored_provenance_ok limits (he_provenance e))"

definition image_ok :: "state_image \<Rightarrow> bool" where
  "image_ok img \<longleftrightarrow>
     (let limits = im_limits img in
      om_wf (im_classes img) \<and> list_ok (max_classes limits) (class_entry_ok limits) (im_classes img) \<and>
      om_wf (im_scopes img) \<and> list_ok (max_scopes limits) (scope_entry_ok limits) (im_scopes img) \<and>
      om_wf (im_policies img) \<and> list_ok (max_policies limits) (policy_entry_ok limits) (im_policies img) \<and>
      om_wf (im_subjects img) \<and> list_ok (max_subjects limits) (subject_entry_ok limits) (im_subjects img) \<and>
      om_wf (im_assignments img) \<and>
        list_ok (max_assignments limits) (assignment_entry_ok limits) (im_assignments img) \<and>
      om_wf (im_authority img) \<and>
        list_ok (max_publishers limits) (authority_entry_ok limits) (im_authority img) \<and>
        (im_authority img = [] \<or> max_boots_per_publisher limits \<noteq> 0) \<and>
      list_ok (max_audit_entries limits)
        (\<lambda>e. audit_ok e \<and> str_ok (max_record_payload limits) (encode_audit_entry e)) (im_audit img) \<and>
      str_ok 1024 (im_health_detail img))"

definition mutation_payload_ok :: "limits \<Rightarrow> mutation \<Rightarrow> bool" where
  "mutation_payload_ok limits m \<longleftrightarrow>
     (case mu_op m of
        DefineClass \<Rightarrow> class_ok limits (mu_cls m) \<and> blob_ok limits (encode_class_definition (mu_cls m))
      | DefineScope \<Rightarrow> scope_ok limits (mu_scope m) \<and> blob_ok limits (encode_scope_definition (mu_scope m))
      | DefinePolicy \<Rightarrow> policy_ok limits (mu_policy m) \<and> blob_ok limits (encode_policy_definition (mu_policy m))
      | DefineSubject \<Rightarrow> subject_ok limits (mu_subject m) \<and> blob_ok limits (encode_subject_definition (mu_subject m))
      | Assign \<Rightarrow> assignment_ok limits (mu_assignment m) \<and> blob_ok limits (encode_assignment (mu_assignment m))
      | RetireAssignment \<Rightarrow> id_ok limits (mu_retire_target m)
      | GrantAuthority \<Rightarrow> True
      | AdvanceEpoch \<Rightarrow> True
      | FenceAuthority \<Rightarrow> id_ok limits (mu_fence_publisher m) \<and> boot_wf (mu_fence_boot m))"

definition mutation_ok :: "limits \<Rightarrow> mutation \<Rightarrow> bool" where
  "mutation_ok limits m \<longleftrightarrow> id_ok limits (mu_publisher m) \<and> boot_wf (mu_boot m) \<and>
     str_ok (max_note_length limits) (mu_reason m) \<and> mutation_payload_ok limits m"

text \<open>The part of a mutation that its journal record carries: the fields its operation uses.\<close>

definition durable_part :: "mutation \<Rightarrow> mutation" where
  "durable_part m =
     (let base = mutation_default\<lparr>mu_op := mu_op m, mu_epoch := mu_epoch m, mu_publisher := mu_publisher m,
        mu_boot := mu_boot m, mu_token := mu_token m, mu_recorded_at_ms := mu_recorded_at_ms m,
        mu_reason := mu_reason m, mu_resulting_generation := mu_resulting_generation m\<rparr>
      in case mu_op m of
        DefineClass \<Rightarrow> base\<lparr>mu_cls := mu_cls m\<rparr>
      | DefineScope \<Rightarrow> base\<lparr>mu_scope := mu_scope m\<rparr>
      | DefinePolicy \<Rightarrow> base\<lparr>mu_policy := mu_policy m\<rparr>
      | DefineSubject \<Rightarrow> base\<lparr>mu_subject := mu_subject m\<rparr>
      | Assign \<Rightarrow> base\<lparr>mu_assignment := mu_assignment m\<rparr>
      | RetireAssignment \<Rightarrow> base\<lparr>mu_retire_target := mu_retire_target m\<rparr>
      | GrantAuthority \<Rightarrow> base
      | AdvanceEpoch \<Rightarrow> base
      | FenceAuthority \<Rightarrow> base\<lparr>mu_fence_publisher := mu_fence_publisher m, mu_fence_boot := mu_fence_boot m\<rparr>)"

section \<open>Lemmas\<close>

lemma encode_blob_str: "blob_ok limits b \<Longrightarrow> encode_blob b = enc_str b"
  by (simp add: encode_blob_def blob_ok_def str_ok_def enc_str_short)

lemma bind_definition_blob:
  assumes "blob_ok limits (enc d)" and "decode (enc d) limits = Inr d"
  shows "dec_bind (dec_definition_blob limits decode) f (encode_blob (enc d) @ rest) = f d rest"
  using assms by (simp add: dec_definition_blob_def decode_blob_def encode_blob_str dec_bind_def
      str.dec_enc blob_ok_def)

lemma bind_stored_provenance:
  assumes "stored_provenance_ok limits p"
  shows "dec_bind (dec_stored_provenance limits) f (encode_blob (encode_provenance p) @ rest) = f p rest"
proof -
  have ok: "provenance_ok limits p" "blob_ok limits (encode_provenance p)"
    using assms by (simp_all add: stored_provenance_ok_def)
  then have "encode_blob (encode_provenance p) = enc_str (encode_provenance p)"
    by (simp add: encode_blob_str)
  then show ?thesis
    using ok provenance.dec_enc[of limits p "[]"]
    by (simp add: dec_stored_provenance_def decode_blob_def dec_bind_def str.dec_enc blob_ok_def)
qed

lemma decode_definition_encode:
  "class_ok limits c \<Longrightarrow> decode_class_definition (encode_class_definition c) limits = Inr c"
  "scope_ok limits sd \<Longrightarrow> decode_scope_definition (encode_scope_definition sd) limits = Inr sd"
  "policy_ok limits pd \<Longrightarrow> decode_policy_definition (encode_policy_definition pd) limits = Inr pd"
  "subject_ok limits ud \<Longrightarrow> decode_subject_definition (encode_subject_definition ud) limits = Inr ud"
  "assignment_ok limits a \<Longrightarrow> decode_assignment (encode_assignment a) limits = Inr a"
  by (simp_all add: decode_class_definition_def decode_scope_definition_def decode_policy_definition_def
      decode_subject_definition_def decode_assignment_def class_definition.dec_whole_enc
      scope_definition.dec_whole_enc policy_definition.dec_whole_enc subject_definition.dec_whole_enc
      assignment.dec_whole_enc)

lemmas stored_simps = bind_definition_blob bind_stored_provenance decode_definition_encode bind_encs dec_return_def

interpretation class_entry: field_codec enc_class_entry "dec_class_entry limits" "class_entry_ok limits" for limits
  by unfold_locales (auto simp: enc_class_entry_def dec_class_entry_def class_entry_ok_def stored_simps)

interpretation scope_entry: field_codec enc_scope_entry "dec_scope_entry limits" "scope_entry_ok limits" for limits
  by unfold_locales (auto simp: enc_scope_entry_def dec_scope_entry_def scope_entry_ok_def stored_simps)

interpretation policy_entry: field_codec enc_policy_entry "dec_policy_entry limits" "policy_entry_ok limits" for limits
  by unfold_locales (auto simp: enc_policy_entry_def dec_policy_entry_def policy_entry_ok_def stored_simps)

interpretation subject_entry: field_codec enc_subject_entry "dec_subject_entry limits" "subject_entry_ok limits" for limits
  by unfold_locales (auto simp: enc_subject_entry_def dec_subject_entry_def subject_entry_ok_def stored_simps)

interpretation assignment_entry: field_codec enc_assignment_entry "dec_assignment_entry limits"
  "assignment_entry_ok limits" for limits
  by unfold_locales
    (auto simp: enc_assignment_entry_def dec_assignment_entry_def assignment_entry_ok_def stored_simps)

interpretation authority_entry: field_codec enc_authority_entry "dec_authority_entry limits"
  "authority_entry_ok limits" for limits
  using authority_state_wire(2)
  by unfold_locales
    (auto simp: enc_authority_entry_def dec_authority_entry_def authority_entry_ok_def stored_simps
      encode_boot_def[symmetric])

interpretation audit_blob: field_codec enc_audit_blob "dec_audit_blob limits"
  "\<lambda>e. audit_ok e \<and> str_ok (max_record_payload limits) (encode_audit_entry e)" for limits
  using audit_entry.blob_field[of "max_record_payload limits"]
  unfolding field_codec_def dec_audit_blob_def enc_audit_blob_def
  by (auto simp: encode_blob_str[of limits] blob_ok_def)

text \<open>Reading back an ordered map, entry by entry.\<close>

lemma dec_loop_emplace:
  fixes vs :: "('k::linorder \<times> 'v) list"
  assumes codec: "field_codec enc dec ok" and "om_wf (m @ vs)" and "list_all ok vs"
    and "\<And>j. j < length m + length vs \<Longrightarrow> \<not> full j"
  shows "dec_loop (length vs)
      (\<lambda>m. dec_bind dec (\<lambda>(k, v). if full (length m) then dec_fail e else dec_return (om_emplace k v m))) m
      (concat (map enc vs) @ rest) = Inr (m @ vs, rest)"
  using assms(2-4)
proof (induction vs arbitrary: m)
  case Nil
  then show ?case by (simp add: dec_return_def)
next
  case (Cons kv vs)
  obtain k v where kv: "kv = (k, v)" by (cases kv)
  have wf: "om_wf (m @ [(k, v)])" using Cons.prems(1) by (auto simp: kv om_wf_def sorted_wrt_append)
  have "\<not> full (length m)" using Cons.prems(3)[of "length m"] by simp
  then show ?case
    using Cons.prems Cons.IH[of "m @ [(k, v)]"]
    by (simp add: kv dec_bind_def[of _ _ "_ @ _"] field_codec.dec_enc[OF codec] om_emplace_snoc[OF wf])
      (simp add: dec_bind_def dec_return_def)
qed

lemma read_entity_count_enc:
  assumes "length vs \<le> bound" and "length vs < 2 ^ 32"
  shows "dec_bind (read_entity_count bound what) f (enc_list enc vs @ rest) =
    f (of_nat (length vs)) (concat (map enc vs) @ rest)" and "unat (of_nat (length vs) :: u32) = length vs"
proof -
  show len: "unat (of_nat (length vs) :: u32) = length vs"
    using assms by (simp add: unat_of_nat take_bit_nat_eq_self)
  show "dec_bind (read_entity_count bound what) f (enc_list enc vs @ rest) =
    f (of_nat (length vs)) (concat (map enc vs) @ rest)"
    using assms len by (simp add: read_entity_count_def enc_list_def dec_bind_def u32.dec_enc dec_return_def)
qed

lemma bind_entities:
  assumes "field_codec enc dec ok" and "om_wf vs" and "list_ok bound ok vs"
  shows "dec_bind (dec_entities bound what dec) f (enc_list enc vs @ rest) = f vs rest"
proof -
  have body: "dec_emplace dec = (\<lambda>m. dec_bind dec (\<lambda>(k, v). if False then dec_fail undefined else dec_return (om_emplace k v m)))"
    by (simp add: dec_emplace_def fun_eq_iff)
  have len: "length vs \<le> bound" "length vs < 2 ^ 32" using assms(3) by (simp_all add: list_ok_def)
  have "dec_loop (length vs) (dec_emplace dec) [] (concat (map enc vs) @ rest) = Inr (vs, rest)"
    unfolding body using dec_loop_emplace[OF assms(1), of "[]" vs "\<lambda>_. False"] assms(2,3)
    by (simp add: list_ok_def)
  then have "dec_entities bound what dec (enc_list enc vs @ rest) = Inr (vs, rest)"
    unfolding dec_entities_def read_entity_count_enc(1)[OF len] by (simp add: read_entity_count_enc(2)[OF len])
  then show ?thesis by (simp add: dec_bind_def)
qed

lemma authority_loop:
  assumes "om_wf vs" and "list_ok (max_publishers limits) (authority_entry_ok limits) vs"
    and "vs = [] \<or> max_boots_per_publisher limits \<noteq> 0"
  shows "dec_loop (length vs) (dec_emplace_authority limits) [] (concat (map enc_authority_entry vs) @ rest) =
    Inr (vs, rest)"
proof -
  have "\<not> max_publishers limits * max_boots_per_publisher limits \<le> j" if "j < length vs" for j
  proof -
    have "length vs \<le> max_publishers limits * 1" using assms(2) by (simp add: list_ok_def)
    also have "\<dots> \<le> max_publishers limits * max_boots_per_publisher limits"
      using assms(3) that by (intro mult_le_mono2) auto
    finally show ?thesis using that by simp
  qed
  then show ?thesis
    unfolding dec_emplace_authority_def[abs_def]
    using dec_loop_emplace[OF authority_entry.field_codec_axioms, of "[]" vs limits
        "\<lambda>j. max_publishers limits * max_boots_per_publisher limits \<le> j"] assms(1,2)
    by (simp add: list_ok_def)
qed

lemma state_header_enc:
  assumes "str_ok 1024 detail"
  shows "dec_bind state_header f (enc_u32 kStateMagic @ enc_u16 kFormatVersion @ enc_u64 a @ enc_u64 b @
      enc_u64 c @ enc_u64 d @ enc_u64 e @ enc_u8 (health_value h) @ enc_str detail @ rest) =
    f (a, b, c, d, e, h, detail) rest"
proof -
  have "\<not> 1 < health_value h" by (rule health_wire(2))
  then have "state_header (enc_u32 kStateMagic @ enc_u16 kFormatVersion @ enc_u64 a @ enc_u64 b @
      enc_u64 c @ enc_u64 d @ enc_u64 e @ enc_u8 (health_value h) @ enc_str detail @ rest) =
    Inr ((a, b, c, d, e, h, detail), rest)"
    using assms by (simp add: state_header_def bind_encs dec_return_def)
  then show ?thesis by (simp add: dec_bind_def)
qed

section \<open>Properties\<close>

lemma decode_state_encode:
  assumes "image_ok img"
  shows "decode_state (encode_state img) (im_limits img) = Inr (rebuild_indexes img)"
proof -
  have audit: "length (im_audit img) \<le> max_audit_entries (im_limits img)" "length (im_audit img) < 2 ^ 32"
    and auth: "length (im_authority img) \<le> max_publishers (im_limits img)" "length (im_authority img) < 2 ^ 32"
    using assms by (simp_all add: image_ok_def Let_def list_ok_def)
  have al: "dec_bind (dec_loop (length (im_authority img)) (dec_emplace_authority (im_limits img)) []) f
      (concat (map enc_authority_entry (im_authority img)) @ rest) = f (im_authority img) rest"
    for f :: "_ \<Rightarrow> state_image decoder" and rest
    using assms unfolding image_ok_def Let_def by (subst dec_bind_def, subst authority_loop) auto
  have ar: "dec_bind (dec_repeat (length (im_audit img)) (dec_audit_blob (im_limits img))) f
      (concat (map enc_audit_blob (im_audit img)) @ rest) = f (im_audit img) rest"
    for f :: "_ \<Rightarrow> state_image decoder" and rest
    using assms unfolding image_ok_def Let_def
    by (subst dec_bind_def, subst audit_blob.dec_repeat_enc) (auto simp: list_ok_def)
  have "state_fields (im_limits img) (encode_state img @ []) =
      Inr (img\<lparr>im_assignments_by_subject := []\<rparr>, [])"
    using assms al ar[where rest = "[]"]
    unfolding image_ok_def Let_def state_fields_def encode_state_def append_assoc
    by (simp add: state_header_enc bind_entities[OF class_entry.field_codec_axioms]
        bind_entities[OF scope_entry.field_codec_axioms] bind_entities[OF policy_entry.field_codec_axioms]
        bind_entities[OF subject_entry.field_codec_axioms] bind_entities[OF assignment_entry.field_codec_axioms]
        read_entity_count_enc(1)[OF auth] read_entity_count_enc(2)[OF auth]
        read_entity_count_enc(1)[OF audit, where rest = "[]", simplified] read_entity_count_enc(2)[OF audit]
        dec_return_def)
  then show ?thesis
    by (simp add: decode_state_def dec_whole_def dec_finish_def rebuild_indexes_def)
qed

text \<open>C29: a snapshot restores the state it was taken from. For an image whose maps are keyed by
  their entities' identifiers and whose populations and fields respect its own limits, decoding
  the encoded image under those limits returns every field of it, with the subject index
  rebuilt from the assignments.\<close>

theorem snapshot_roundtrip:
  "image_ok img \<Longrightarrow> decode_state (encode_state img) (im_limits img) = Inr (rebuild_indexes img)"
  by (rule decode_state_encode)

definition sample_image :: state_image where
  "sample_image = (empty_image compiled_limits_ceiling)\<lparr>im_epoch := 1, im_generation := 4,
     im_classes := [(BasicId ''gold'', \<lparr>ce_definition = sample_class, ce_provenance = provenance_none\<rparr>)]\<rparr>"

lemma sample_class_ok: "class_ok compiled_limits_ceiling sample_class"
  by (simp add: class_ok_def sample_class_def id_ok_def canonical_form_small compiled_limits_ceiling_def
      kMaxRawIdBytes_def rank_ok_def rank_make_def kMaxRank_def list_ok_def str_ok_def)

lemma provenance_none_stored: "stored_provenance_ok compiled_limits_ceiling provenance_none"
proof -
  have ok: "provenance_ok compiled_limits_ceiling provenance_none"
    by (simp add: provenance_ok_def provenance_none_def maybe_id_ok_def boot_wf_def boot_zero_def str_ok_def)
  then have "provenance_blob_ok compiled_limits_ceiling provenance_none"
    by (rule provenance_blob_fits) (simp add: compiled_limits_ceiling_def)
  with ok show ?thesis
    by (auto simp: stored_provenance_ok_def provenance_blob_ok_def blob_ok_def str_ok_def compiled_limits_ceiling_def)
qed

lemma sample_class_blob: "blob_ok compiled_limits_ceiling (encode_class_definition sample_class)"
  by (simp add: blob_ok_def str_ok_def encode_class_definition_def sample_class_def encode_precedence_def
      encode_id_list_def enc_list_def enc_id_def enc_str_short compiled_limits_ceiling_def)

theorem snapshot_roundtrip_witness:
  "decode_state (encode_state sample_image) compiled_limits_ceiling = Inr (rebuild_indexes sample_image)"
proof -
  have "im_limits sample_image = compiled_limits_ceiling" by (simp add: sample_image_def empty_image_def)
  moreover have "image_ok sample_image"
    using sample_class_ok sample_class_blob provenance_none_stored
    by (simp add: image_ok_def sample_image_def empty_image_def class_entry_ok_def list_ok_def om_wf_def str_ok_def
        Let_def) (simp add: sample_class_def compiled_limits_ceiling_def)
  ultimately show ?thesis using snapshot_roundtrip[of sample_image] by simp
qed

lemma bind_mutation_op:
  "dec_bind dec_mutation_op f (enc_u16 (mutation_op_value op) @ rest) = f op rest"
proof -
  have "dec_mutation_op (enc_u16 (mutation_op_value op) @ rest) = Inr (op, rest)"
    by (cases op) (simp_all add: dec_mutation_op_def u16.bind_enc mutation_op_of_def mutation_ops_def dec_return_def)
  then show ?thesis by (simp add: dec_bind_def)
qed

lemma bind_mutation_payload:
  assumes "mutation_payload_ok limits m"
  shows "dec_bind (dec_mutation_payload limits (mutation_default\<lparr>mu_op := mu_op m, mu_epoch := mu_epoch m,
       mu_publisher := mu_publisher m, mu_boot := mu_boot m, mu_token := mu_token m,
       mu_recorded_at_ms := mu_recorded_at_ms m, mu_reason := mu_reason m\<rparr>)) f (mutation_payload m @ rest) =
     f ((durable_part m)\<lparr>mu_resulting_generation := 0\<rparr>) rest"
proof -
  have "dec_mutation_payload limits (mutation_default\<lparr>mu_op := mu_op m, mu_epoch := mu_epoch m,
       mu_publisher := mu_publisher m, mu_boot := mu_boot m, mu_token := mu_token m,
       mu_recorded_at_ms := mu_recorded_at_ms m, mu_reason := mu_reason m\<rparr>) (mutation_payload m @ rest) =
     Inr ((durable_part m)\<lparr>mu_resulting_generation := 0\<rparr>, rest)"
    using assms
    by (cases "mu_op m")
      (auto simp: dec_mutation_payload_def mutation_payload_def mutation_payload_ok_def durable_part_def
        Let_def mutation_default_def stored_simps encode_boot_def[symmetric])
  then show ?thesis by (simp add: dec_bind_def)
qed

lemma decode_mutation_encode:
  assumes "mutation_ok limits m"
  shows "decode_mutation (encode_mutation m) limits = Inr (durable_part m)"
proof -
  have "mutation_fields limits (encode_mutation m @ []) = Inr (durable_part m, [])"
    using assms u64.dec_enc[of _ "[]"] unfolding mutation_ok_def
    by (simp add: mutation_fields_def encode_mutation_def bind_mutation_op bind_mutation_payload stored_simps
        encode_boot_def[symmetric] u64.bind_enc[where rest = "[]", simplified])
      (cases "mu_op m"; simp add: durable_part_def Let_def mutation_default_def)
  then show ?thesis by (simp add: decode_mutation_def dec_whole_def dec_finish_def)
qed

text \<open>A journal record replays the mutation it recorded. Decoding an encoded mutation whose
  fields respect the limits returns exactly the part the record carries: the header, the one
  payload its operation uses and the generation it must produce, every unused field being at
  its default and the system flag never set from disk.\<close>

theorem mutation_roundtrip:
  "mutation_ok limits m \<Longrightarrow> decode_mutation (encode_mutation m) limits = Inr (durable_part m)"
  by (rule decode_mutation_encode)

definition sample_mutation :: mutation where
  "sample_mutation = mutation_default\<lparr>mu_op := DefineClass, mu_epoch := 1, mu_publisher := BasicId ''host'',
     mu_boot := replicate 16 7, mu_token := 1, mu_cls := sample_class, mu_resulting_generation := 5,
     mu_system := True\<rparr>"

theorem mutation_roundtrip_witness:
  "decode_mutation (encode_mutation sample_mutation) compiled_limits_ceiling = Inr (durable_part sample_mutation) \<and>
   \<not> mu_system (durable_part sample_mutation)"
proof
  have "mutation_ok compiled_limits_ceiling sample_mutation"
    using sample_class_ok sample_class_blob
    by (simp add: mutation_ok_def sample_mutation_def mutation_default_def mutation_payload_ok_def boot_wf_def
        boot_size_def str_ok_def id_ok_def canonical_form_small)
      (simp add: compiled_limits_ceiling_def kMaxRawIdBytes_def)
  then show "decode_mutation (encode_mutation sample_mutation) compiled_limits_ceiling = Inr (durable_part sample_mutation)"
    by (rule mutation_roundtrip)
  show "\<not> mu_system (durable_part sample_mutation)"
    by (simp add: durable_part_def sample_mutation_def mutation_default_def Let_def)
qed

text \<open>A record whose publisher is empty is written but cannot be read back: \<^verbatim>\<open>encode_mutation\<close>
  writes an empty string where \<^verbatim>\<open>decode_mutation\<close> demands a canonical identifier.\<close>

lemma empty_publisher_unreadable:
  assumes "mu_publisher m = id_none"
  shows "\<exists>e. decode_mutation (encode_mutation m) limits = Inl e"
proof -
  have bad: "\<exists>e. (dec_id limits :: publisher_id decoder) (enc_id (id_none :: publisher_id) @ rest) = Inl e" for rest
  proof (rule ccontr)
    assume "\<nexists>e. (dec_id limits :: publisher_id decoder) (enc_id (id_none :: publisher_id) @ rest) = Inl e"
    then obtain i :: publisher_id and s where "dec_id limits (enc_id (id_none :: publisher_id) @ rest) = Inr (i, s)"
      by (metis obj_sumE surj_pair)
    then have i: "id_ok limits i" "enc_id (id_none :: publisher_id) @ rest = enc_id i @ s"
      by (simp_all add: id.dec_iff)
    then have "str_ok (length (id_str i)) (id_str i)" "str_ok (length (id_str i)) []"
      by (auto simp: id_ok_def str_ok_def kMaxRawIdBytes_def)
    then have "id_str i = []"
      using str.enc_inj[of "length (id_str i)" "[]" "id_str i" rest s] i(2) by (simp add: enc_id_def id_none_def)
    with i(1) show False by (simp add: id_ok_def canonical_form_def)
  qed
  then show ?thesis
    using assms by (auto simp: decode_mutation_def dec_whole_def mutation_fields_def encode_mutation_def
        bind_mutation_op u64.bind_enc) (simp add: dec_bind_def, metis rbind_simps(1))
qed

end
