(* ===== verification/Apply.thy ===== *)
theory Apply
  imports Validate StateCodec
begin

text \<open>
  The application half of \<^verbatim>\<open>src/state.cpp\<close>: idempotence, the generation a mutation gives its
  entity, and \<^verbatim>\<open>apply_mutation\<close> with its prologue, one definition per case of its switch and its
  epilogue. The image is passed explicitly, and a failing call returns the image as it was left:
  the audit record and the audit counter are written before the operation is attempted.
\<close>

section \<open>Idempotence and entity generations\<close>

definition is_idempotent :: "state_image \<Rightarrow> mutation \<Rightarrow> bool" where
  "is_idempotent img m =
     (case mu_op m of
        DefineClass \<Rightarrow>
          (case om_find (im_classes img) (cd_id (mu_cls m)) of
             None \<Rightarrow> False
           | Some e \<Rightarrow> same_class_content (ce_definition e) (mu_cls m) \<and> same_authority_binding (ce_provenance e) m)
      | DefineScope \<Rightarrow>
          (case om_find (im_scopes img) (sd_id (mu_scope m)) of
             None \<Rightarrow> False
           | Some e \<Rightarrow> same_scope_content (se_definition e) (mu_scope m) \<and> same_authority_binding (se_provenance e) m)
      | DefinePolicy \<Rightarrow>
          (case om_find (im_policies img) (pd_id (mu_policy m)) of
             None \<Rightarrow> False
           | Some e \<Rightarrow> same_policy_content (pe_definition e) (mu_policy m) \<and> same_authority_binding (pe_provenance e) m)
      | DefineSubject \<Rightarrow>
          (case om_find (im_subjects img) (ud_id (mu_subject m)) of
             None \<Rightarrow> False
           | Some e \<Rightarrow> same_subject_content (ue_definition e) (mu_subject m) \<and> same_authority_binding (ue_provenance e) m)
      | Assign \<Rightarrow>
          (case om_find (im_assignments img) (as_id (mu_assignment m)) of
             None \<Rightarrow> False
           | Some e \<Rightarrow> ae_active e \<and> same_assignment_content (ae_assignment e) (mu_assignment m) \<and>
               same_authority_binding (ae_provenance e) m)
      | RetireAssignment \<Rightarrow>
          (case om_find (im_assignments img) (mu_retire_target m) of None \<Rightarrow> False | Some e \<Rightarrow> \<not> ae_active e)
      | GrantAuthority \<Rightarrow> False
      | FenceAuthority \<Rightarrow> False
      | AdvanceEpoch \<Rightarrow> False)"

definition mutation_is_idempotent :: "state_image \<Rightarrow> mutation \<Rightarrow> bool" where
  "mutation_is_idempotent img m = is_idempotent img m"

text \<open>\<^verbatim>\<open>generation.next().value_or(unset())\<close>, or the first generation of a new entity.\<close>

definition bump_from :: "generation option \<Rightarrow> generation" where
  "bump_from current =
     (case current of
        None \<Rightarrow> gen_first
      | Some g \<Rightarrow> (case gen_next g of None \<Rightarrow> gen_unset | Some g' \<Rightarrow> g'))"

definition entity_generation :: "state_image \<Rightarrow> mutation \<Rightarrow> generation option" where
  "entity_generation img m =
     (case mu_op m of
        DefineClass \<Rightarrow> map_option (\<lambda>e. cd_generation (ce_definition e)) (om_find (im_classes img) (cd_id (mu_cls m)))
      | DefineScope \<Rightarrow> map_option (\<lambda>e. sd_generation (se_definition e)) (om_find (im_scopes img) (sd_id (mu_scope m)))
      | DefinePolicy \<Rightarrow> map_option (\<lambda>e. pd_generation (pe_definition e)) (om_find (im_policies img) (pd_id (mu_policy m)))
      | DefineSubject \<Rightarrow> map_option (\<lambda>e. ud_generation (ue_definition e)) (om_find (im_subjects img) (ud_id (mu_subject m)))
      | Assign \<Rightarrow> map_option (\<lambda>e. as_generation (ae_assignment e)) (om_find (im_assignments img) (as_id (mu_assignment m)))
      | RetireAssignment \<Rightarrow> map_option (\<lambda>e. as_generation (ae_assignment e)) (om_find (im_assignments img) (mu_retire_target m))
      | _ \<Rightarrow> None)"

definition bump :: "state_image \<Rightarrow> mutation \<Rightarrow> generation" where
  "bump img m =
     (case mu_op m of
        GrantAuthority \<Rightarrow> if im_next_fencing_token img = 0 then gen_unset else gen_first
      | FenceAuthority \<Rightarrow> gen_first
      | AdvanceEpoch \<Rightarrow> gen_first
      | _ \<Rightarrow> bump_from (entity_generation img m))"

definition current_entity_generation :: "state_image \<Rightarrow> mutation \<Rightarrow> generation" where
  "current_entity_generation img m =
     (if mu_op m \<in> {GrantAuthority, FenceAuthority, AdvanceEpoch} then im_generation img
      else case entity_generation img m of None \<Rightarrow> gen_unset | Some g \<Rightarrow> g)"

definition content_unchanged :: "state_image \<Rightarrow> mutation \<Rightarrow> bool" where
  "content_unchanged img m =
     (case mu_op m of
        DefineClass \<Rightarrow>
          (case om_find (im_classes img) (cd_id (mu_cls m)) of
             None \<Rightarrow> False | Some e \<Rightarrow> same_class_content (ce_definition e) (mu_cls m))
      | DefineScope \<Rightarrow>
          (case om_find (im_scopes img) (sd_id (mu_scope m)) of
             None \<Rightarrow> False | Some e \<Rightarrow> same_scope_content (se_definition e) (mu_scope m))
      | DefinePolicy \<Rightarrow>
          (case om_find (im_policies img) (pd_id (mu_policy m)) of
             None \<Rightarrow> False | Some e \<Rightarrow> same_policy_content (pe_definition e) (mu_policy m))
      | DefineSubject \<Rightarrow>
          (case om_find (im_subjects img) (ud_id (mu_subject m)) of
             None \<Rightarrow> False | Some e \<Rightarrow> same_subject_content (ue_definition e) (mu_subject m))
      | Assign \<Rightarrow>
          (case om_find (im_assignments img) (as_id (mu_assignment m)) of
             None \<Rightarrow> False
           | Some e \<Rightarrow> ae_active e \<and> same_assignment_content (ae_assignment e) (mu_assignment m))
      | _ \<Rightarrow> False)"

definition preview_entity_generation :: "state_image \<Rightarrow> mutation \<Rightarrow> generation" where
  "preview_entity_generation img m =
     (if is_idempotent img m \<or> content_unchanged img m then current_entity_generation img m
      else bump img m)"

section \<open>The prologue: admission and audit\<close>

text \<open>The checks before anything is written; the result is whether the mutation is an identical
  republication and the state generation it must produce.\<close>

definition admit :: "state_image \<Rightarrow> mutation \<Rightarrow> bool \<Rightarrow> (bool \<times> generation) result" where
  "admit img m replay =
     rbind (validate_mutation img m) (\<lambda>_.
     rbind (if \<not> replay \<and> \<not> mu_system m then check_authority img m else Inr ()) (\<lambda>_.
       let idempotent = is_idempotent img m; next_generation = gen_next (im_generation img) in
       if \<not> idempotent \<and> next_generation = None then
         Inl (make_error St_Overflow ''the fabric state generation counter is exhausted'')
       else
         (let expected = (if idempotent then im_generation img else the next_generation) in
          if gen_is_set (mu_resulting_generation m) \<and> mu_resulting_generation m \<noteq> expected then
            Inl (make_error St_Corrupt
              (cat [''durable record claims generation '', u_dec (mu_resulting_generation m),
                    '' but replay produces '', u_dec expected]))
          else Inr (idempotent, expected))))"

definition mutation_provenance :: "state_image \<Rightarrow> mutation \<Rightarrow> generation \<Rightarrow> provenance" where
  "mutation_provenance img m expected =
     \<lparr>pv_publisher = mu_publisher m, pv_boot = mu_boot m, pv_epoch = mu_epoch m, pv_token = mu_token m,
      pv_state_generation = expected, pv_audit_sequence = im_next_audit_sequence img,
      pv_recorded_at_ms = mu_recorded_at_ms m, pv_op = mutation_op_to_string (mu_op m)\<rparr>"

definition record_audit :: "state_image \<Rightarrow> mutation \<Rightarrow> generation \<Rightarrow> state_image" where
  "record_audit img m expected =
     (let p = mutation_provenance img m expected;
          entry = \<lparr>au_sequence = pv_audit_sequence p, au_op = pv_op p, au_result = St_Ok,
            au_detail = (if mu_reason m = [] then ''accepted'' else mu_reason m), au_provenance = p,
            au_state_generation = expected, au_digest = sha256_text (encode_mutation m)\<rparr>
      in append_audit (img\<lparr>im_next_audit_sequence := im_next_audit_sequence img + 1\<rparr>) entry (im_limits img))"

section \<open>The operations\<close>

definition exhausted :: "string \<Rightarrow> 'tag basic_id \<Rightarrow> status" where
  "exhausted what i =
     make_error St_Overflow (cat [what, '' generation counter is exhausted for '', quoted (id_str i)])"

text \<open>\<^verbatim>\<open>map.at(id).provenance = provenance\<close>; the entry exists on this path.\<close>

definition refresh :: "(provenance \<Rightarrow> 'v \<Rightarrow> 'v) \<Rightarrow> provenance \<Rightarrow> 'k::linorder \<Rightarrow> ('k, 'v) omap \<Rightarrow> ('k, 'v) omap" where
  "refresh set_provenance p k m =
     (case om_find m k of None \<Rightarrow> m | Some e \<Rightarrow> om_put k (set_provenance p e) m)"

definition apply_class :: "state_image \<Rightarrow> mutation \<Rightarrow> provenance \<Rightarrow> state_image result" where
  "apply_class img m p =
     (if content_unchanged img m then
        Inr (img\<lparr>im_classes := refresh (\<lambda>p e. e\<lparr>ce_provenance := p\<rparr>) p (cd_id (mu_cls m)) (im_classes img)\<rparr>)
      else
        (let d = (mu_cls m)\<lparr>cd_generation := bump img m\<rparr> in
         if \<not> gen_is_set (cd_generation d) then Inl (exhausted ''class'' (cd_id d))
         else Inr (img\<lparr>im_classes :=
                om_put (cd_id d) \<lparr>ce_definition = d, ce_provenance = p\<rparr> (im_classes img)\<rparr>)))"

definition apply_scope :: "state_image \<Rightarrow> mutation \<Rightarrow> provenance \<Rightarrow> state_image result" where
  "apply_scope img m p =
     (if content_unchanged img m then
        Inr (img\<lparr>im_scopes := refresh (\<lambda>p e. e\<lparr>se_provenance := p\<rparr>) p (sd_id (mu_scope m)) (im_scopes img)\<rparr>)
      else
        (let d = (mu_scope m)\<lparr>sd_generation := bump img m\<rparr> in
         if \<not> gen_is_set (sd_generation d) then Inl (exhausted ''scope'' (sd_id d))
         else Inr (img\<lparr>im_scopes :=
                om_put (sd_id d) \<lparr>se_definition = d, se_provenance = p\<rparr> (im_scopes img)\<rparr>)))"

definition apply_policy :: "state_image \<Rightarrow> mutation \<Rightarrow> provenance \<Rightarrow> state_image result" where
  "apply_policy img m p =
     (if content_unchanged img m then
        Inr (img\<lparr>im_policies := refresh (\<lambda>p e. e\<lparr>pe_provenance := p\<rparr>) p (pd_id (mu_policy m)) (im_policies img)\<rparr>)
      else
        (let d = (mu_policy m)\<lparr>pd_generation := bump img m\<rparr> in
         if \<not> gen_is_set (pd_generation d) then Inl (exhausted ''policy'' (pd_id d))
         else Inr (img\<lparr>im_policies :=
                om_put (pd_id d) \<lparr>pe_definition = d, pe_provenance = p\<rparr> (im_policies img)\<rparr>)))"

definition apply_subject :: "state_image \<Rightarrow> mutation \<Rightarrow> provenance \<Rightarrow> state_image result" where
  "apply_subject img m p =
     (if content_unchanged img m then
        Inr (img\<lparr>im_subjects := refresh (\<lambda>p e. e\<lparr>ue_provenance := p\<rparr>) p (ud_id (mu_subject m)) (im_subjects img)\<rparr>)
      else
        (let d = (mu_subject m)\<lparr>ud_generation := bump img m\<rparr> in
         if \<not> gen_is_set (ud_generation d) then Inl (exhausted ''subject'' (ud_id d))
         else Inr (img\<lparr>im_subjects :=
                om_put (ud_id d) \<lparr>ue_definition = d, ue_provenance = p\<rparr> (im_subjects img)\<rparr>)))"

definition apply_assign :: "state_image \<Rightarrow> mutation \<Rightarrow> provenance \<Rightarrow> state_image result" where
  "apply_assign img m p =
     (if content_unchanged img m then
        Inr (img\<lparr>im_assignments :=
          refresh (\<lambda>p e. e\<lparr>ae_provenance := p\<rparr>) p (as_id (mu_assignment m)) (im_assignments img)\<rparr>)
      else
        (let a = (mu_assignment m)\<lparr>as_generation := bump img m\<rparr> in
         if \<not> gen_is_set (as_generation a) then Inl (exhausted ''assignment'' (as_id a))
         else
           Inr (img\<lparr>im_assignments :=
                  om_put (as_id a) \<lparr>ae_assignment = a, ae_provenance = p, ae_active = True,
                    ae_retirement_reason = [], ae_retired_by = provenance_none\<rparr> (im_assignments img),
                im_assignments_by_subject :=
                  om_put (as_subject a)
                    (lower_bound_insert (as_id a) (bucket_of (im_assignments_by_subject img) (as_subject a)))
                    (im_assignments_by_subject img)\<rparr>)))"

definition apply_retire :: "state_image \<Rightarrow> mutation \<Rightarrow> provenance \<Rightarrow> state_image result" where
  "apply_retire img m p =
     (case om_find (im_assignments img) (mu_retire_target m) of
        None \<Rightarrow> Inl (make_error St_NotFound ''assignment disappeared during retirement'')
      | Some e \<Rightarrow>
          (case gen_next (as_generation (ae_assignment e)) of
             None \<Rightarrow> Inl (exhausted ''assignment'' (mu_retire_target m))
           | Some bumped \<Rightarrow>
               Inr (img\<lparr>im_assignments := om_put (mu_retire_target m)
                 (e\<lparr>ae_assignment := (ae_assignment e)\<lparr>as_generation := bumped\<rparr>, ae_active := False,
                    ae_retirement_reason := mu_reason m, ae_retired_by := p\<rparr>) (im_assignments img)\<rparr>)))"

definition apply_grant :: "state_image \<Rightarrow> mutation \<Rightarrow> provenance \<Rightarrow> state_image result" where
  "apply_grant img m p =
     (if im_next_fencing_token img = 0 \<or> im_next_fencing_token img = - 1 then
        Inl (make_error St_Overflow ''the fencing token counter is exhausted'')
      else
        (let superseded = om_update_all (\<lambda>k e.
               if fst k = mu_publisher m \<and> snd k \<noteq> mu_boot m \<and> he_state e = Granted
               then e\<lparr>he_state := Superseded\<rparr> else e) (im_authority img);
             entry = \<lparr>he_publisher = mu_publisher m, he_boot = mu_boot m, he_epoch = im_epoch img,
               he_token = im_next_fencing_token img, he_state = Granted, he_provenance = p\<rparr>
         in Inr (img\<lparr>im_authority := om_put (mu_publisher m, mu_boot m) entry superseded,
                     im_next_fencing_token := im_next_fencing_token img + 1\<rparr>)))"

definition apply_fence :: "state_image \<Rightarrow> mutation \<Rightarrow> provenance \<Rightarrow> state_image result" where
  "apply_fence img m p =
     (let key = (mu_fence_publisher m, mu_fence_boot m);
          entry = (case om_find (im_authority img) key of
              None \<Rightarrow> \<lparr>he_publisher = mu_fence_publisher m, he_boot = mu_fence_boot m, he_epoch = 0,
                he_token = 0, he_state = Fenced, he_provenance = p\<rparr>
            | Some e \<Rightarrow> e\<lparr>he_state := Fenced, he_provenance := p\<rparr>)
      in Inr (img\<lparr>im_authority := om_put key entry (im_authority img)\<rparr>))"

definition apply_advance :: "state_image \<Rightarrow> state_image result" where
  "apply_advance img =
     (case epoch_next (im_epoch img) of
        None \<Rightarrow> Inl (make_error St_Overflow ''the fabric epoch counter is exhausted'')
      | Some next \<Rightarrow>
          Inr (img\<lparr>im_epoch := next,
            im_authority := om_update_all (\<lambda>_ e.
              if he_state e = Granted \<and> he_epoch e \<noteq> next then e\<lparr>he_state := Expired\<rparr> else e)
              (im_authority img)\<rparr>))"

text \<open>The switch. An identical republication returns before any of the operations runs.\<close>

definition apply_op :: "state_image \<Rightarrow> mutation \<Rightarrow> bool \<Rightarrow> provenance \<Rightarrow> state_image result" where
  "apply_op img m idempotent p =
     (if idempotent then Inr img
      else case mu_op m of
        DefineClass \<Rightarrow> apply_class img m p
      | DefineScope \<Rightarrow> apply_scope img m p
      | DefinePolicy \<Rightarrow> apply_policy img m p
      | DefineSubject \<Rightarrow> apply_subject img m p
      | Assign \<Rightarrow> apply_assign img m p
      | RetireAssignment \<Rightarrow> apply_retire img m p
      | GrantAuthority \<Rightarrow> apply_grant img m p
      | FenceAuthority \<Rightarrow> apply_fence img m p
      | AdvanceEpoch \<Rightarrow> apply_advance img)"

definition apply_mutation :: "state_image \<Rightarrow> mutation \<Rightarrow> bool \<Rightarrow> state_image \<times> void_result" where
  "apply_mutation img m replay =
     (case admit img m replay of
        Inl e \<Rightarrow> (img, Inl e)
      | Inr (idempotent, expected) \<Rightarrow>
          (let p = mutation_provenance img m expected;
               audited = record_audit img m expected
           in case apply_op audited m idempotent p of
                Inl e \<Rightarrow> (audited, Inl e)
              | Inr img' \<Rightarrow>
                  (if idempotent then img' else img'\<lparr>im_generation := expected\<rparr>, Inr ())))"

lemmas op_defs = apply_op_def apply_class_def apply_scope_def apply_policy_def apply_subject_def
  apply_assign_def apply_retire_def apply_grant_def apply_fence_def apply_advance_def Let_def

end
