(* ===== verification/Steps.thy ===== *)
theory Steps
  imports Apply
begin

text \<open>
  Runs of the state machine. A step is a call of \<^verbatim>\<open>apply_mutation\<close>, on the commit path or on
  replay, successful or not, or one of the other changes the store and the runtime make to the
  image; the reachable images are those any sequence of steps leaves. The
  locale \<open>image_invariant\<close> is what a component has to show of an invariant, and gives it on every
  reachable image.
\<close>

section \<open>What one call can do\<close>

definition audit_after :: "state_image \<Rightarrow> mutation \<Rightarrow> generation \<Rightarrow> audit_entry list" where
  "audit_after img m g = im_audit (record_audit img m g)"

lemma record_audit_eq:
  "record_audit img m g =
     img\<lparr>im_next_audit_sequence := im_next_audit_sequence img + 1, im_audit := audit_after img m g\<rparr>"
  by (simp add: audit_after_def record_audit_def append_audit_def Let_def)

definition with_audit :: "u64 \<Rightarrow> audit_entry list \<Rightarrow> state_image \<Rightarrow> state_image" where
  "with_audit n log img = img\<lparr>im_next_audit_sequence := n, im_audit := log\<rparr>"

lemma with_audit_frame [frame_simps]:
  "im_epoch (with_audit n log img) = im_epoch img"
  "im_generation (with_audit n log img) = im_generation img"
  "im_last_sequence (with_audit n log img) = im_last_sequence img"
  "im_next_fencing_token (with_audit n log img) = im_next_fencing_token img"
  "im_limits (with_audit n log img) = im_limits img"
  "im_classes (with_audit n log img) = im_classes img"
  "im_scopes (with_audit n log img) = im_scopes img"
  "im_policies (with_audit n log img) = im_policies img"
  "im_subjects (with_audit n log img) = im_subjects img"
  "im_assignments (with_audit n log img) = im_assignments img"
  "im_assignments_by_subject (with_audit n log img) = im_assignments_by_subject img"
  "im_authority (with_audit n log img) = im_authority img"
  "im_health (with_audit n log img) = im_health img"
  by (simp_all add: with_audit_def)

lemma refused_audit:
  "append_audit (img\<lparr>im_next_audit_sequence := n\<rparr>) entry limits =
     with_audit n (im_audit (append_audit (img\<lparr>im_next_audit_sequence := n\<rparr>) entry limits)) img"
  by (simp add: append_audit_def Let_def with_audit_def)

text \<open>The operations neither read nor write the audit window.\<close>

lemma apply_op_with_audit:
  "apply_op (with_audit n log img) m b p = map_sum id (with_audit n log) (apply_op img m b p)"
proof -
  have c: "content_unchanged (img\<lparr>im_next_audit_sequence := n, im_audit := log\<rparr>) m = content_unchanged img m"
    "bump (img\<lparr>im_next_audit_sequence := n, im_audit := log\<rparr>) m = bump img m"
    by (simp_all add: content_unchanged_def bump_def entity_generation_def split: mutation_op.split)
  show ?thesis
    by (cases b; cases "mu_op m")
      (simp_all add: apply_op_def apply_class_def apply_scope_def apply_policy_def apply_subject_def
        apply_assign_def apply_retire_def apply_grant_def apply_fence_def apply_advance_def c Let_def
        frame_simps with_audit_def split: option.split)
qed

lemma admit_ok:
  assumes "admit img m replay = Inr (idem, g)"
  shows "validate_mutation img m = Inr ()" "idem = is_idempotent img m"
    and "replay \<or> mu_system m \<or> check_authority img m = Inr ()"
    and "idem \<Longrightarrow> g = im_generation img" "\<not> idem \<Longrightarrow> gen_next (im_generation img) = Some g"
    and "gen_is_set (mu_resulting_generation m) \<Longrightarrow> mu_resulting_generation m = g"
  using assms by (auto simp: admit_def ok_simps Let_def split: if_splits)

text \<open>The three ways a call can end: nothing was written, only the audit record was written, or
  the operation ran.\<close>

lemma apply_mutation_cases:
  assumes "apply_mutation img m replay = (img', r)"
  obtains (refused) e where "img' = img" and "r = Inl e" and "admit img m replay = Inl e"
  | (failed) g idem e where "admit img m replay = Inr (idem, g)"
      and "img' = with_audit (im_next_audit_sequence img + 1) (audit_after img m g) img" and "r = Inl e"
  | (identical) g where "admit img m replay = Inr (True, g)"
      and "img' = with_audit (im_next_audit_sequence img + 1) (audit_after img m g) img" and "r = Inr ()"
  | (changed) g img1 where "admit img m replay = Inr (False, g)" and "r = Inr ()"
      and "apply_op img m False (mutation_provenance img m g) = Inr img1"
      and "img' = (with_audit (im_next_audit_sequence img + 1) (audit_after img m g) img1)\<lparr>im_generation := g\<rparr>"
proof (cases "admit img m replay")
  case (Inl e)
  then show ?thesis using assms refused[of e] by (simp add: apply_mutation_def)
next
  case (Inr x)
  obtain idem g where x: "x = (idem, g)" by (cases x)
  let ?p = "mutation_provenance img m g"
  let ?w = "with_audit (im_next_audit_sequence img + 1) (audit_after img m g)"
  have ap: "record_audit img m g = ?w img" by (simp add: record_audit_eq with_audit_def)
  have res: "(img', r) = (case apply_op img m idem ?p of Inl e \<Rightarrow> (?w img, Inl e)
      | Inr i \<Rightarrow> (if idem then ?w i else (?w i)\<lparr>im_generation := g\<rparr>, Inr ()))"
    using assms Inr x
    by (cases "apply_op img m idem ?p") (simp_all add: apply_mutation_def Let_def ap apply_op_with_audit)
  show ?thesis
  proof (cases "apply_op img m idem ?p")
    case (Inl e)
    then show ?thesis using failed[of idem g e] res Inr x \<open>admit img m replay = Inr x\<close> by simp
  next
    case (Inr i)
    show ?thesis
    proof (cases idem)
      case True
      then show ?thesis using Inr res x identical[of g] \<open>admit img m replay = Inr x\<close> by (simp add: apply_op_def)
    next
      case False
      then show ?thesis using Inr res x changed[of g i] \<open>admit img m replay = Inr x\<close> by simp
    qed
  qed
qed

section \<open>Runs\<close>

text \<open>Grants do not survive a restart: \<^verbatim>\<open>FabricRuntime::open\<close> restores them as expired, and
  \<^verbatim>\<open>DurableStore::verify\<close> normalizes both sides of its comparison the same way.\<close>

definition expire_grants :: "state_image \<Rightarrow> state_image" where
  "expire_grants img =
     img\<lparr>im_authority := om_update_all (\<lambda>_ e. if he_state e = Granted then e\<lparr>he_state := Expired\<rparr> else e) (im_authority img)\<rparr>"

text \<open>Everything that happens to the image of a running fabric: a call of \<^verbatim>\<open>apply_mutation\<close>, the
  store recording the journal position of a commit, the runtime recording a refused attempt in
  the audit window, and the expiry of grants on a restart.\<close>

inductive state_step :: "state_image \<Rightarrow> state_image \<Rightarrow> bool" where
  call: "apply_mutation img m replay = (img', r) \<Longrightarrow> state_step img img'"
| position: "state_step img (img\<lparr>im_last_sequence := n\<rparr>)"
| refusal: "state_step img
    (append_audit (img\<lparr>im_next_audit_sequence := im_next_audit_sequence img + 1\<rparr>) entry limits)"
| restart: "state_step img (expire_grants img)"

inductive reachable :: "limits \<Rightarrow> state_image \<Rightarrow> bool" for limits where
  initial: "reachable limits (empty_image limits)"
| step: "reachable limits img \<Longrightarrow> state_step img img' \<Longrightarrow> reachable limits img'"

inductive_cases state_stepE: "state_step img img'"

lemma apply_op_limits: "apply_op img m b p = Inr img' \<Longrightarrow> im_limits img' = im_limits img"
  by (auto simp: apply_op_def apply_class_def apply_scope_def apply_policy_def apply_subject_def
      apply_assign_def apply_retire_def apply_grant_def apply_fence_def apply_advance_def Let_def ok_simps
      split: if_splits mutation_op.splits option.splits)

section \<open>Invariants of the image\<close>

locale image_invariant =
  fixes inv :: "state_image \<Rightarrow> bool"
  assumes inv_audit: "inv img \<Longrightarrow> inv (with_audit n log img)"
    and inv_generation: "inv img \<Longrightarrow> inv (img\<lparr>im_generation := g\<rparr>)"
    and inv_position: "inv img \<Longrightarrow> inv (img\<lparr>im_last_sequence := n\<rparr>)"
    and inv_expire: "inv img \<Longrightarrow> inv (expire_grants img)"
    and inv_op: "inv img \<Longrightarrow> validate_mutation img m = Inr () \<Longrightarrow> \<not> is_idempotent img m \<Longrightarrow>
      apply_op img m False p = Inr img' \<Longrightarrow> inv img'"
begin

lemma apply_mutation_inv:
  assumes "inv img" and "apply_mutation img m replay = (img', r)"
  shows "inv img'"
  using assms(2)
proof (cases rule: apply_mutation_cases)
  case (changed g img1)
  have "inv img1"
    using inv_op[OF assms(1) _ _ changed(3)] admit_ok(1,2)[OF changed(1)] by simp
  then show ?thesis using changed(4) inv_audit inv_generation by simp
qed (use assms(1) inv_audit in simp_all)

lemma step_inv: "state_step img img' \<Longrightarrow> inv img \<Longrightarrow> inv img'"
proof (induction rule: state_step.induct)
  case (refusal img entry limits)
  then show ?case by (subst refused_audit) (rule inv_audit)
qed (use apply_mutation_inv inv_position inv_expire in blast)+

lemma steps_inv: "state_step\<^sup>*\<^sup>* img img' \<Longrightarrow> inv img \<Longrightarrow> inv img'"
  by (induction rule: rtranclp_induct) (auto dest: step_inv)

lemma reachable_inv: "reachable limits img \<Longrightarrow> inv (empty_image limits) \<Longrightarrow> inv img"
  by (induction rule: reachable.induct) (auto dest: step_inv)

end

interpretation fixed_limits: image_invariant "\<lambda>img. im_limits img = limits" for limits
  by unfold_locales (simp_all add: frame_simps apply_op_limits expire_grants_def)

lemma reachable_limits: "reachable limits img \<Longrightarrow> im_limits img = limits"
  by (rule fixed_limits.reachable_inv) (simp_all add: empty_image_def)

text \<open>Nothing touches the health of the image.\<close>

lemma apply_op_health: "apply_op img m b p = Inr img' \<Longrightarrow> im_health img' = im_health img"
  by (auto simp: apply_op_def apply_class_def apply_scope_def apply_policy_def apply_subject_def
      apply_assign_def apply_retire_def apply_grant_def apply_fence_def apply_advance_def Let_def ok_simps
      split: if_splits mutation_op.splits option.splits)

interpretation same_health: image_invariant "\<lambda>img. im_health img = h" for h
  by unfold_locales (simp_all add: frame_simps apply_op_health expire_grants_def)

end
