(* ===== verification/Reachability.thy ===== *)
theory Reachability
  imports Graph
begin

text \<open>
  What the bounded searches of \<open>Graph\<close> decide. The search of \<^verbatim>\<open>reaches\<close> is sound, and complete
  whenever its step bound covers the edges of the graph; so the cycle check of the inheritance
  validators keeps the graphs acyclic.
\<close>

section \<open>Soundness and completeness of the search\<close>

definition edges :: "('n \<Rightarrow> 'n list) \<Rightarrow> ('n \<times> 'n) set" where
  "edges nxt = {(a, b). b \<in> set (nxt a)}"

lemma reaches_loop_sound:
  "reaches_loop nxt target skip bound steps stack visited \<Longrightarrow> \<exists>s \<in> set stack. (s, target) \<in> (edges nxt)\<^sup>*"
proof (induction nxt target skip bound steps stack visited rule: reaches_loop.induct)
  case (2 nxt target skip bound steps current stack visited)
  show ?case
  proof (cases "current = target \<or> skip current \<or> current \<in> visited")
    case True
    then show ?thesis using 2 by (auto simp: reaches_loop.simps(2) split: if_splits)
  next
    case False
    then obtain s where s: "s \<in> set (rev (nxt current) @ stack)" "(s, target) \<in> (edges nxt)\<^sup>*"
      using 2(3,4) by (auto simp: reaches_loop.simps(2) split: if_splits)
    then show ?thesis
      by (auto simp: edges_def intro: converse_rtrancl_into_rtrancl)
  qed
qed simp

text \<open>A set closed under the edges of the nodes that are not skipped.\<close>

definition closed_under :: "('n \<Rightarrow> 'n list) \<Rightarrow> ('n \<Rightarrow> bool) \<Rightarrow> 'n set \<Rightarrow> bool" where
  "closed_under nxt skip V \<longleftrightarrow> (\<forall>v \<in> V. \<not> skip v \<longrightarrow> set (nxt v) \<subseteq> V)"

text \<open>The work left: the stack and the edges of the nodes not yet visited.\<close>

definition work_left :: "('n \<Rightarrow> 'n list) \<Rightarrow> 'n set \<Rightarrow> 'n list \<Rightarrow> 'n set \<Rightarrow> nat" where
  "work_left nxt N stack visited = length stack + (\<Sum>n \<in> N - visited. length (nxt n))"

lemma work_left_expand:
  assumes "finite N" and "\<And>n. nxt n \<noteq> [] \<Longrightarrow> n \<in> N" and "current \<notin> visited"
  shows "work_left nxt N (rev (nxt current) @ stack) (insert current visited) =
    length stack + (\<Sum>n \<in> N - visited. length (nxt n))"
proof (cases "current \<in> N")
  case True
  then have "(\<Sum>n \<in> N - visited. length (nxt n)) =
      length (nxt current) + (\<Sum>n \<in> N - visited - {current}. length (nxt n))"
    using assms by (subst sum.remove[of _ current]) auto
  moreover have "N - visited - {current} = N - insert current visited" by auto
  ultimately show ?thesis by (simp add: work_left_def)
next
  case False
  then have "nxt current = []" using assms(2)[of current] by blast
  moreover have "N - insert current visited = N - visited" using False by auto
  ultimately show ?thesis by (simp add: work_left_def)
qed

lemma reaches_loop_complete:
  assumes "finite N" and "\<And>n. nxt n \<noteq> [] \<Longrightarrow> n \<in> N"
  shows "\<not> reaches_loop nxt target skip bound steps stack visited \<Longrightarrow>
    steps + work_left nxt N stack visited \<le> bound \<Longrightarrow> target \<notin> visited \<Longrightarrow>
    (\<forall>v \<in> visited. set (nxt v) \<subseteq> visited \<union> set stack \<union> {x. skip x \<and> x \<noteq> target}) \<Longrightarrow>
    \<exists>V. target \<notin> V \<and> set stack \<subseteq> V \<and> visited \<subseteq> V \<and> closed_under nxt skip V"
  using assms
proof (induction nxt target skip bound steps stack visited rule: reaches_loop.induct)
  case (1 nxt target skip bound steps visited)
  then show ?case
    by (intro exI[of _ "visited \<union> {x. skip x \<and> x \<noteq> target}"]) (auto simp: closed_under_def)
next
  case (2 nxt target skip bound steps current stack visited)
  have go: "\<not> Suc steps > bound" "current \<noteq> target"
    using "2.prems"(1,2) by (auto simp: reaches_loop.simps(2) work_left_def split: if_splits)
  show ?case
  proof (cases "skip current \<or> current \<in> visited")
    case True
    have rest: "\<not> reaches_loop nxt target skip bound (Suc steps) stack visited"
      "Suc steps + work_left nxt N stack visited \<le> bound"
      using True "2.prems"(1,2) go by (auto simp: reaches_loop.simps(2) work_left_def split: if_splits)
    have inside: "\<forall>v \<in> visited. set (nxt v) \<subseteq> visited \<union> set stack \<union> {x. skip x \<and> x \<noteq> target}"
      using True "2.prems"(4) go(2) by fastforce
    have "\<exists>V. target \<notin> V \<and> set stack \<subseteq> V \<and> visited \<subseteq> V \<and> closed_under nxt skip V"
    proof (cases "skip current")
      case skipped: True
      show ?thesis by (rule "2.IH"(1)[OF go skipped rest "2.prems"(3) inside "2.prems"(5,6)])
    next
      case kept: False
      then have "current \<in> visited" using True by blast
      from "2.IH"(2)[OF go kept this rest "2.prems"(3) inside "2.prems"(5,6)] show ?thesis .
    qed
    then obtain V where V: "target \<notin> V" "set stack \<subseteq> V" "visited \<subseteq> V" "closed_under nxt skip V" by blast
    show ?thesis
    proof (cases "skip current")
      case True
      then show ?thesis using V go by (intro exI[of _ "insert current V"]) (auto simp: closed_under_def)
    next
      case False
      then show ?thesis using V True by (intro exI[of _ V]) auto
    qed
  next
    case False
    have "\<exists>V. target \<notin> V \<and> set (rev (nxt current) @ stack) \<subseteq> V \<and> insert current visited \<subseteq> V \<and>
        closed_under nxt skip V"
    proof (rule "2.IH"(3))
      show "\<not> reaches_loop nxt target skip bound (Suc steps) (rev (nxt current) @ stack) (insert current visited)"
        using "2.prems"(1) go False by (simp add: reaches_loop.simps(2))
      show "Suc steps + work_left nxt N (rev (nxt current) @ stack) (insert current visited) \<le> bound"
        using "2.prems"(2) False work_left_expand[of N nxt current visited stack] "2.prems"(5,6)
        by (simp add: work_left_def)
      show "\<forall>v \<in> insert current visited. set (nxt v) \<subseteq>
          insert current visited \<union> set (rev (nxt current) @ stack) \<union> {x. skip x \<and> x \<noteq> target}"
        using "2.prems"(4) by fastforce
    qed (use go False "2.prems" in auto)
    then show ?thesis by auto
  qed
qed

section \<open>Acyclicity\<close>

lemma closed_rtrancl: "(a, b) \<in> (edges nxt)\<^sup>* \<Longrightarrow> closed_under nxt (\<lambda>_. False) V \<Longrightarrow> a \<in> V \<Longrightarrow> b \<in> V"
  by (induction rule: rtrancl_induct) (auto simp: closed_under_def edges_def)

text \<open>Replacing the edges of one node keeps a graph acyclic when the new successors lie in a
  closed set without the node.\<close>

lemma acyclic_redefine:
  assumes acyc: "acyclic (edges nxt)" and new: "set (nxt' self) \<subseteq> V" and "self \<notin> V"
    and closed: "closed_under nxt (\<lambda>n. n = self) V" and same: "\<And>n. n \<noteq> self \<Longrightarrow> nxt' n = nxt n"
  shows "acyclic (edges nxt')"
proof -
  have stays: "b \<in> V \<and> (a, b) \<in> (edges nxt)\<^sup>+" if "(a, b) \<in> (edges nxt')\<^sup>+" "a \<in> V" for a b
    using that
  proof (induction rule: trancl_induct)
    case (base b)
    then have "a \<noteq> self" using \<open>self \<notin> V\<close> by blast
    then have "(a, b) \<in> edges nxt \<and> b \<in> V" using base same[of a] closed by (auto simp: edges_def closed_under_def)
    then show ?case by blast
  next
    case (step b c)
    then have "b \<in> V" "(a, b) \<in> (edges nxt)\<^sup>+" "b \<noteq> self" using \<open>self \<notin> V\<close> by auto
    then have "(b, c) \<in> edges nxt \<and> c \<in> V" using step(2) same[of b] closed by (auto simp: edges_def closed_under_def)
    with \<open>(a, b) \<in> (edges nxt)\<^sup>+\<close> show ?case by (meson trancl_into_trancl)
  qed
  have outside: "(a, b) \<in> (edges nxt)\<^sup>+" if "(a, b) \<in> (edges nxt')\<^sup>+" "b \<notin> V" for a b
    using that
  proof (induction rule: converse_trancl_induct)
    case (base a)
    then have "a \<noteq> self" using new by (auto simp: edges_def)
    then show ?case using base same[of a] by (auto simp: edges_def)
  next
    case (step a c)
    have "c \<notin> V" using stays[OF step(2)] step(4) by blast
    then have "a \<noteq> self" using new step(1) by (auto simp: edges_def)
    then have "(a, c) \<in> edges nxt" using step(1) same[of a] by (auto simp: edges_def)
    with step show ?case by (meson trancl_into_trancl2)
  qed
  show ?thesis
    unfolding acyclic_def
  proof (intro allI notI)
    fix x assume "(x, x) \<in> (edges nxt')\<^sup>+"
    then have "(x, x) \<in> (edges nxt)\<^sup>+" using stays[of x x] outside[of x x] by blast
    with acyc show False by (auto simp: acyclic_def)
  qed
qed

text \<open>The cycle check over all proposed parents.\<close>

lemma reaches_all_false_closed:
  assumes "finite N" and "\<And>n. nxt n \<noteq> [] \<Longrightarrow> n \<in> N" and "1 + (\<Sum>n \<in> N. length (nxt n)) \<le> bound"
    and "\<forall>p \<in> P. \<not> reaches p self self bound nxt"
  obtains V where "self \<notin> V" and "P \<subseteq> V" and "closed_under nxt (\<lambda>n. n = self) V"
proof -
  have "\<exists>V. self \<notin> V \<and> p \<in> V \<and> closed_under nxt (\<lambda>n. n = self) V" if "p \<in> P" for p
    using reaches_loop_complete[of N nxt self "\<lambda>n. n = self" bound 0 "[p]" "{}"] assms that
    by (auto simp: reaches_def work_left_def)
  then obtain V where V: "\<And>p. p \<in> P \<Longrightarrow> self \<notin> V p \<and> p \<in> V p \<and> closed_under nxt (\<lambda>n. n = self) (V p)"
    by metis
  show thesis
  proof (rule that)
    show "self \<notin> (\<Union>p \<in> P. V p)" using V by blast
    show "P \<subseteq> (\<Union>p \<in> P. V p)" using V by blast
    show "closed_under nxt (\<lambda>n. n = self) (\<Union>p \<in> P. V p)" using V by (fastforce simp: closed_under_def)
  qed
qed

end
