(* ===== verification/Registry.thy ===== *)
theory Registry
  imports Steps Reachability
begin

text \<open>
  Invariants of the class, scope, policy and subject registries. The lookup of definitions is
  the abstraction: an operation either leaves it alone or rebinds the one identifier it names,
  and every invariant is shown of that.
\<close>

section \<open>The registries as maps of definitions\<close>

definition class_defs :: "state_image \<Rightarrow> class_id \<rightharpoonup> priority_class_def" where
  "class_defs img k = map_option ce_definition (om_find (im_classes img) k)"

definition scope_defs :: "state_image \<Rightarrow> scope_id \<rightharpoonup> policy_scope_def" where
  "scope_defs img k = map_option se_definition (om_find (im_scopes img) k)"

definition policy_defs :: "state_image \<Rightarrow> policy_id \<rightharpoonup> policy_def" where
  "policy_defs img k = map_option pe_definition (om_find (im_policies img) k)"

definition subject_defs :: "state_image \<Rightarrow> subject_id \<rightharpoonup> subject_def" where
  "subject_defs img k = map_option ue_definition (om_find (im_subjects img) k)"

lemma defs_frame [frame_simps]:
  "class_defs (with_audit n log img) = class_defs img" "scope_defs (with_audit n log img) = scope_defs img"
  "policy_defs (with_audit n log img) = policy_defs img" "subject_defs (with_audit n log img) = subject_defs img"
  "class_defs (img\<lparr>im_generation := g\<rparr>) = class_defs img" "scope_defs (img\<lparr>im_generation := g\<rparr>) = scope_defs img"
  "policy_defs (img\<lparr>im_generation := g\<rparr>) = policy_defs img" "subject_defs (img\<lparr>im_generation := g\<rparr>) = subject_defs img"
  by (simp_all add: class_defs_def[abs_def] scope_defs_def[abs_def] policy_defs_def[abs_def]
      subject_defs_def[abs_def] frame_simps)

lemma defs_frame_position [frame_simps]:
  "class_defs (img\<lparr>im_last_sequence := q\<rparr>) = class_defs img" "scope_defs (img\<lparr>im_last_sequence := q\<rparr>) = scope_defs img"
  "subject_defs (img\<lparr>im_last_sequence := q\<rparr>) = subject_defs img" "scope_parent (img\<lparr>im_last_sequence := q\<rparr>) = scope_parent img"
  "class_defs (expire_grants img) = class_defs img" "scope_defs (expire_grants img) = scope_defs img"
  "subject_defs (expire_grants img) = subject_defs img" "scope_parent (expire_grants img) = scope_parent img"
  by (simp_all add: class_defs_def[abs_def] scope_defs_def[abs_def] subject_defs_def[abs_def] scope_parent_def[abs_def]
      expire_grants_def)

lemma parents_frame [frame_simps]:
  "class_parents (with_audit n log img) = class_parents img"
  "subject_parents (with_audit n log img) = subject_parents img"
  "scope_parent (with_audit n log img) = scope_parent img"
  "class_parents (img\<lparr>im_generation := g\<rparr>) = class_parents img"
  "subject_parents (img\<lparr>im_generation := g\<rparr>) = subject_parents img"
  "scope_parent (img\<lparr>im_generation := g\<rparr>) = scope_parent img"
  by (simp_all add: class_parents_def[abs_def] subject_parents_def[abs_def] scope_parent_def[abs_def] frame_simps)

lemma parents_defs:
  "class_parents img k = (case class_defs img k of None \<Rightarrow> [] | Some d \<Rightarrow> cd_inherits_from d)"
  "subject_parents img s = (case subject_defs img s of None \<Rightarrow> [] | Some d \<Rightarrow> ud_inherits_from d)"
  "scope_parent img t = (case scope_defs img t of None \<Rightarrow> None | Some d \<Rightarrow> sd_parent d)"
  by (simp_all add: class_parents_def subject_parents_def scope_parent_def class_defs_def subject_defs_def
      scope_defs_def split: option.split)

lemma om_has_defs:
  "om_has (im_classes img) k \<longleftrightarrow> class_defs img k \<noteq> None"
  "om_has (im_scopes img) s \<longleftrightarrow> scope_defs img s \<noteq> None"
  "om_has (im_subjects img) u \<longleftrightarrow> subject_defs img u \<noteq> None"
  by (simp_all add: om_has_def class_defs_def scope_defs_def subject_defs_def)

text \<open>The effect of one operation on each registry.\<close>

lemma refresh_find:
  "om_find (refresh f p k m) k' = (if k' = k then map_option (f p) (om_find m k) else om_find m k')"
  by (simp add: refresh_def split: option.split)

lemma class_defs_after:
  assumes "apply_op img m False p = Inr img'"
  shows "class_defs img' =
    (if mu_op m = DefineClass \<and> \<not> content_unchanged img m
     then (class_defs img)(cd_id (mu_cls m) \<mapsto> (mu_cls m)\<lparr>cd_generation := bump img m\<rparr>) else class_defs img)"
  using assms
  by (cases "mu_op m")
    (auto simp: op_defs ok_simps option.map_comp comp_def
      class_defs_def[abs_def] refresh_find fun_eq_iff split: if_splits option.splits)

lemma scope_defs_after:
  assumes "apply_op img m False p = Inr img'"
  shows "scope_defs img' =
    (if mu_op m = DefineScope \<and> \<not> content_unchanged img m
     then (scope_defs img)(sd_id (mu_scope m) \<mapsto> (mu_scope m)\<lparr>sd_generation := bump img m\<rparr>) else scope_defs img)"
  using assms
  by (cases "mu_op m")
    (auto simp: op_defs ok_simps option.map_comp comp_def
      scope_defs_def[abs_def] refresh_find fun_eq_iff split: if_splits option.splits)

lemma policy_defs_after:
  assumes "apply_op img m False p = Inr img'"
  shows "policy_defs img' =
    (if mu_op m = DefinePolicy \<and> \<not> content_unchanged img m
     then (policy_defs img)(pd_id (mu_policy m) \<mapsto> (mu_policy m)\<lparr>pd_generation := bump img m\<rparr>) else policy_defs img)"
  using assms
  by (cases "mu_op m")
    (auto simp: op_defs ok_simps option.map_comp comp_def
      policy_defs_def[abs_def] refresh_find fun_eq_iff split: if_splits option.splits)

lemma subject_defs_after:
  assumes "apply_op img m False p = Inr img'"
  shows "subject_defs img' =
    (if mu_op m = DefineSubject \<and> \<not> content_unchanged img m
     then (subject_defs img)(ud_id (mu_subject m) \<mapsto> (mu_subject m)\<lparr>ud_generation := bump img m\<rparr>) else subject_defs img)"
  using assms
  by (cases "mu_op m")
    (auto simp: op_defs ok_simps option.map_comp comp_def
      subject_defs_def[abs_def] refresh_find fun_eq_iff split: if_splits option.splits)

lemmas defs_after = class_defs_after scope_defs_after policy_defs_after subject_defs_after

section \<open>What the validators establish\<close>

lemma check_parent_list_ok:
  assumes "check_parent_list msg what self defined parents = Inr ()"
  shows "distinct parents \<and> (\<forall>p \<in> set parents. id_valid p \<and> p \<noteq> self \<and> defined p)"
proof -
  have "distinct parents \<and> set parents \<inter> {} = {} \<and> (\<forall>p \<in> set parents. id_valid p \<and> p \<noteq> self \<and> defined p)"
    using assms unfolding check_parent_list_def ok_simps
    by (elim exE conjE, elim for_each_collect) (auto split: if_splits)
  then show ?thesis by simp
qed

lemma validate_inheritance_ok:
  assumes "validate_inheritance img self parents = Inr ()"
  shows "length parents \<le> max_inherits_from (im_limits img)" "distinct parents"
    and "p \<in> set parents \<Longrightarrow> p \<noteq> self \<and> class_defs img p \<noteq> None"
    and "p \<in> set parents \<Longrightarrow> \<not> reaches p self self (class_walk_bound (im_limits img)) (class_parents img)"
    and "p \<in> set parents \<Longrightarrow> 0 \<le> class_depth img p \<and> nat (class_depth img p + 1) \<le> max_inheritance_depth (im_limits img)"
  using assms check_parent_list_ok[of _ _ self "om_has (im_classes img)" parents]
  by (auto simp: validate_inheritance_def ok_simps om_has_defs check_class_depth_def Let_def not_less
      split: if_splits)

lemma validate_subject_inheritance_ok:
  assumes "validate_subject_inheritance img self parents = Inr ()"
  shows "length parents \<le> max_inherits_from (im_limits img)" "distinct parents"
    and "p \<in> set parents \<Longrightarrow> p \<noteq> self \<and> subject_defs img p \<noteq> None"
    and "p \<in> set parents \<Longrightarrow> \<not> reaches p self self (subject_walk_bound (im_limits img)) (subject_parents img)"
  using assms check_parent_list_ok[of _ _ self "om_has (im_subjects img)" parents]
  by (auto simp: validate_subject_inheritance_def ok_simps om_has_defs split: if_splits)

lemma check_precedence_free_ok:
  assumes "check_precedence_free img self rank = Inr ()" and "class_defs img k = Some d" and "k \<noteq> self"
  shows "\<not> rank_eq (cd_precedence d) rank"
  using assms by (fastforce simp: check_precedence_free_def ok_simps class_defs_def dest: om_find_in_set split: if_splits)

lemma validate_class_ok:
  assumes "validate_class img d = Inr ()"
  shows "id_valid (cd_id d)" "rank_assigned (cd_precedence d)" "rank_value (cd_precedence d) \<le> kMaxRank"
    and "validate_inheritance img (cd_id d) (cd_inherits_from d) = Inr ()"
    and "class_defs img (cd_id d) = None \<Longrightarrow> length (im_classes img) < max_classes (im_limits img)"
    and "\<not> (\<exists>e. om_find (im_classes img) (cd_id d) = Some e \<and> same_class_content (ce_definition e) d) \<Longrightarrow>
      check_precedence_free img (cd_id d) (cd_precedence d) = Inr ()"
  using assms by (auto simp: validate_class_def ok_simps check_population_def class_defs_def split: if_splits option.splits)

lemma content_unchanged_class:
  "mu_op m = DefineClass \<Longrightarrow> content_unchanged img m \<longleftrightarrow>
     (\<exists>e. om_find (im_classes img) (cd_id (mu_cls m)) = Some e \<and> same_class_content (ce_definition e) (mu_cls m))"
  by (simp add: content_unchanged_def split: option.split)

lemma bump_set:
  assumes "apply_op img m False p = Inr img'" and "\<not> content_unchanged img m"
    and "mu_op m \<in> {DefineClass, DefineScope, DefinePolicy, DefineSubject, Assign}"
  shows "gen_is_set (bump img m)"
  using assms by (auto simp: op_defs split: if_splits)

section \<open>Ranks\<close>

text \<open>Every class is stored under its own identifier, has a declared rank within the ceiling and a
  set generation, and no two classes share a rank.\<close>

definition ranks_inv :: "state_image \<Rightarrow> bool" where
  "ranks_inv img \<longleftrightarrow>
     (\<forall>k d. class_defs img k = Some d \<longrightarrow> cd_id d = k \<and> rank_assigned (cd_precedence d) \<and>
        rank_value (cd_precedence d) \<le> kMaxRank \<and> gen_is_set (cd_generation d)) \<and>
     (\<forall>k k' d d'. class_defs img k = Some d \<longrightarrow> class_defs img k' = Some d' \<longrightarrow> k \<noteq> k' \<longrightarrow>
        rank_value (cd_precedence d) \<noteq> rank_value (cd_precedence d'))"

lemma ranks_inv_op:
  assumes inv: "ranks_inv img" and v: "validate_mutation img m = Inr ()" and op: "apply_op img m False p = Inr img'"
  shows "ranks_inv img'"
proof (cases "mu_op m = DefineClass \<and> \<not> content_unchanged img m")
  case True
  let ?d = "mu_cls m"
  have vc: "validate_class img ?d = Inr ()" using v True by (simp add: validate_mutation_def)
  have free: "check_precedence_free img (cd_id ?d) (cd_precedence ?d) = Inr ()"
    using validate_class_ok(6)[OF vc] True content_unchanged_class[of m img] by blast
  have "rank_value (cd_precedence d) \<noteq> rank_value (cd_precedence ?d)"
    if "class_defs img k = Some d" "k \<noteq> cd_id ?d" for k d
    using check_precedence_free_ok[OF free that] inv that(1) validate_class_ok(2)[OF vc]
    by (auto simp: ranks_inv_def rank_eq_def)
  moreover have "gen_is_set (bump img m)" using bump_set[OF op] True by simp
  ultimately show ?thesis
    using inv validate_class_ok(2,3)[OF vc] class_defs_after[OF op] True
    unfolding ranks_inv_def by (auto split: if_splits) metis+
next
  case False
  then have "class_defs img' = class_defs img" using class_defs_after[OF op] by presburger
  then show ?thesis using inv by (simp add: ranks_inv_def)
qed

interpretation ranks: image_invariant ranks_inv
proof
  show "ranks_inv img \<Longrightarrow> ranks_inv (with_audit n log img)" for img n log by (simp add: ranks_inv_def frame_simps)
  show "ranks_inv img \<Longrightarrow> ranks_inv (img\<lparr>im_generation := g\<rparr>)" for img g by (simp add: ranks_inv_def frame_simps)
  show "ranks_inv img \<Longrightarrow> ranks_inv (img\<lparr>im_last_sequence := n\<rparr>)" for img n by (simp add: ranks_inv_def frame_simps)
  show "ranks_inv img \<Longrightarrow> ranks_inv (expire_grants img)" for img by (simp add: ranks_inv_def frame_simps)
qed (rule ranks_inv_op)

section \<open>Populations\<close>

lemma refresh_shape:
  "om_wf m \<Longrightarrow> om_wf (refresh f p k m)"
  "om_wf m \<Longrightarrow> length (refresh f p k m) = length m"
  by (simp_all add: refresh_def om.size_put split: option.split)

text \<open>The ordered maps stay well formed and within their population bounds.\<close>

definition population_inv :: "state_image \<Rightarrow> bool" where
  "population_inv img \<longleftrightarrow>
     om_wf (im_classes img) \<and> length (im_classes img) \<le> max_classes (im_limits img) \<and>
     om_wf (im_scopes img) \<and> length (im_scopes img) \<le> max_scopes (im_limits img) \<and>
     om_wf (im_policies img) \<and> length (im_policies img) \<le> max_policies (im_limits img) \<and>
     om_wf (im_subjects img) \<and> length (im_subjects img) \<le> max_subjects (im_limits img) \<and>
     om_wf (im_assignments img) \<and> length (im_assignments img) \<le> max_assignments (im_limits img)"

lemma check_population_ok:
  "check_population m k limit what = Inr () \<Longrightarrow> om_wf m \<Longrightarrow> length m \<le> limit \<Longrightarrow> length (om_put k v m) \<le> limit"
  by (auto simp: check_population_def om.size_put split: if_splits)

lemma validate_population:
  "validate_class img cd = Inr () \<Longrightarrow> check_population (im_classes img) (cd_id cd) (max_classes (im_limits img)) ''classes'' = Inr ()"
  "validate_scope img sd = Inr () \<Longrightarrow> check_population (im_scopes img) (sd_id sd) (max_scopes (im_limits img)) ''scopes'' = Inr ()"
  "validate_policy img pd = Inr () \<Longrightarrow> check_population (im_policies img) (pd_id pd) (max_policies (im_limits img)) ''policies'' = Inr ()"
  "validate_subject img ud = Inr () \<Longrightarrow> check_population (im_subjects img) (ud_id ud) (max_subjects (im_limits img)) ''subjects'' = Inr ()"
  "validate_assign img a = Inr () \<Longrightarrow> check_population (im_assignments img) (as_id a) (max_assignments (im_limits img)) ''assignments'' = Inr ()"
  by (auto simp: validate_class_def validate_scope_def validate_policy_def validate_subject_def validate_assign_def
      ok_simps check_population_def split: if_splits option.splits)

lemma population_inv_op:
  assumes inv: "population_inv img" and v: "validate_mutation img m = Inr ()" and op: "apply_op img m False p = Inr img'"
  shows "population_inv img'"
proof (cases "mu_op m")
  case DefineClass
  then show ?thesis
    using inv op v check_population_ok[OF validate_population(1)]
    by (auto simp: population_inv_def op_defs validate_mutation_def refresh_shape split: if_splits)
next
  case DefineScope
  then show ?thesis
    using inv op v check_population_ok[OF validate_population(2)]
    by (auto simp: population_inv_def op_defs validate_mutation_def refresh_shape split: if_splits)
next
  case DefinePolicy
  then show ?thesis
    using inv op v check_population_ok[OF validate_population(3)]
    by (auto simp: population_inv_def op_defs validate_mutation_def refresh_shape split: if_splits)
next
  case DefineSubject
  then show ?thesis
    using inv op v check_population_ok[OF validate_population(4)]
    by (auto simp: population_inv_def op_defs validate_mutation_def refresh_shape split: if_splits)
next
  case Assign
  then show ?thesis
    using inv op v check_population_ok[OF validate_population(5)]
    by (auto simp: population_inv_def op_defs validate_mutation_def refresh_shape split: if_splits)
qed (use inv op in \<open>auto simp: population_inv_def op_defs ok_simps om.size_put split: if_splits option.splits\<close>)

interpretation population: image_invariant population_inv
proof
  show "population_inv img \<Longrightarrow> population_inv (with_audit n log img)" for img n log
    by (simp add: population_inv_def frame_simps)
  show "population_inv img \<Longrightarrow> population_inv (img\<lparr>im_generation := g\<rparr>)" for img g
    by (simp add: population_inv_def)
  show "population_inv img \<Longrightarrow> population_inv (img\<lparr>im_last_sequence := n\<rparr>)" for img n
    by (simp add: population_inv_def)
  show "population_inv img \<Longrightarrow> population_inv (expire_grants img)" for img
    by (simp add: population_inv_def expire_grants_def)
qed (rule population_inv_op)

section \<open>Acyclic inheritance\<close>

text \<open>Under limits in which the walk bound covers the edges, the inheritance graphs of classes and
  of subjects stay acyclic, and every parent is defined.\<close>

definition walk_bound_covers :: "limits \<Rightarrow> bool" where
  "walk_bound_covers limits \<longleftrightarrow> max_inherits_from limits \<le> max_inheritance_depth limits + 1"

text \<open>The successors of a node of a registry, and its invariant: bounded out-degree, parents that
  exist, and no cycle.\<close>

definition parents_in :: "('k \<rightharpoonup> 'd) \<Rightarrow> ('d \<Rightarrow> 'k list) \<Rightarrow> 'k \<Rightarrow> 'k list" where
  "parents_in defs par k = (case defs k of None \<Rightarrow> [] | Some d \<Rightarrow> par d)"

definition inheritance_inv :: "(state_image \<Rightarrow> 'k \<rightharpoonup> 'd) \<Rightarrow> ('d \<Rightarrow> 'k list) \<Rightarrow> state_image \<Rightarrow> bool" where
  "inheritance_inv defs par img \<longleftrightarrow> walk_bound_covers (im_limits img) \<and> population_inv img \<and>
     (\<forall>k d. defs img k = Some d \<longrightarrow> length (par d) \<le> max_inherits_from (im_limits img) \<and>
        (\<forall>p \<in> set (par d). defs img p \<noteq> None)) \<and>
     acyclic (edges (parents_in (defs img) par))"

text \<open>The edge count of a registry with bounded population and bounded out-degree fits the bound.\<close>

lemma walk_bound_suffices:
  assumes "finite N" and "card N \<le> population" and "\<And>n. n \<in> N \<Longrightarrow> length (nxt n) \<le> fan" and "fan \<le> depth + 1"
  shows "1 + (\<Sum>n \<in> N. length (nxt n)) \<le> (population + 1) * (depth + 1)"
proof -
  have "length (nxt n) \<le> depth + 1" if "n \<in> N" for n using assms(3)[OF that] assms(4) by linarith
  then have "(\<Sum>n \<in> N. length (nxt n)) \<le> card N * (depth + 1)"
    using sum_bounded_above[of N "\<lambda>n. length (nxt n)" "depth + 1"] by simp
  also have "\<dots> \<le> population * (depth + 1)" using assms(2) by (rule mult_le_mono1)
  finally show ?thesis by simp
qed

text \<open>What a registry with inheritance promises: its definitions are not touched by the audit
  record, the counters or the expiry of grants, its population is bounded, and an accepted mutation either
  leaves it alone or rebinds one identifier to a definition whose parents exist and from which
  the bounded search did not reach that identifier.\<close>

locale inheritance_registry =
  fixes defs :: "state_image \<Rightarrow> 'k \<rightharpoonup> 'd"
    and par :: "'d \<Rightarrow> 'k list"
    and population :: "limits \<Rightarrow> nat"
  assumes defs_audit: "defs (with_audit n log img) = defs img"
    and defs_generation: "defs (img\<lparr>im_generation := g\<rparr>) = defs img"
    and defs_position: "defs (img\<lparr>im_last_sequence := q\<rparr>) = defs img"
    and defs_expire: "defs (expire_grants img) = defs img"
    and bounded: "population_inv img \<Longrightarrow>
      finite (dom (defs img)) \<and> card (dom (defs img)) \<le> population (im_limits img)"
    and redefinition: "validate_mutation img m = Inr () \<Longrightarrow> apply_op img m False p = Inr img' \<Longrightarrow>
      defs img' = defs img \<or>
      (\<exists>self d. defs img' = (defs img)(self \<mapsto> d) \<and> length (par d) \<le> max_inherits_from (im_limits img) \<and>
        (\<forall>q \<in> set (par d). defs img q \<noteq> None \<and>
          \<not> reaches q self self ((population (im_limits img) + 1) * (max_inheritance_depth (im_limits img) + 1))
              (parents_in (defs img) par)))"
begin

lemma redefine_acyclic:
  assumes inv: "inheritance_inv defs par img" and new: "defs img' = (defs img)(self \<mapsto> d)"
    and unreached: "\<forall>q \<in> set (par d). \<not> reaches q self self
      ((population (im_limits img) + 1) * (max_inheritance_depth (im_limits img) + 1)) (parents_in (defs img) par)"
  shows "acyclic (edges (parents_in (defs img') par))"
proof -
  let ?nxt = "parents_in (defs img) par" and ?N = "dom (defs img)"
  have N: "finite ?N" "card ?N \<le> population (im_limits img)"
    using bounded inv by (simp_all add: inheritance_inv_def)
  have "1 + (\<Sum>n \<in> ?N. length (?nxt n)) \<le>
      (population (im_limits img) + 1) * (max_inheritance_depth (im_limits img) + 1)"
    by (rule walk_bound_suffices[OF N, of _ "max_inherits_from (im_limits img)"])
      (use inv in \<open>auto simp: inheritance_inv_def parents_in_def walk_bound_covers_def\<close>)
  moreover have "n \<in> ?N" if "?nxt n \<noteq> []" for n
    using that by (auto simp: parents_in_def split: option.splits)
  ultimately obtain V where V: "self \<notin> V" "set (par d) \<subseteq> V" "closed_under ?nxt (\<lambda>n. n = self) V"
    using reaches_all_false_closed[OF N(1) _ _ unreached] by metis
  show ?thesis
  proof (rule acyclic_redefine[OF _ _ V(1,3)])
    show "acyclic (edges ?nxt)" using inv by (simp add: inheritance_inv_def)
    show "set (parents_in (defs img') par self) \<subseteq> V" using V(2) by (simp add: new parents_in_def)
    show "parents_in (defs img') par n = ?nxt n" if "n \<noteq> self" for n using that by (simp add: new parents_in_def)
  qed
qed

lemma inheritance_inv_op:
  assumes inv: "inheritance_inv defs par img" and v: "validate_mutation img m = Inr ()"
    and op: "apply_op img m False p = Inr img'"
  shows "inheritance_inv defs par img'"
proof -
  have pop: "population_inv img'" and lim: "im_limits img' = im_limits img"
    using population_inv_op[OF _ v op] inv apply_op_limits[OF op] by (simp_all add: inheritance_inv_def)
  from redefinition[OF v op] show ?thesis
  proof (elim disjE exE conjE)
    assume "defs img' = defs img"
    then show ?thesis using inv pop lim by (simp add: inheritance_inv_def)
  next
    fix self d
    assume new: "defs img' = (defs img)(self \<mapsto> d)" and len: "length (par d) \<le> max_inherits_from (im_limits img)"
      and q: "\<forall>q \<in> set (par d). defs img q \<noteq> None \<and>
          \<not> reaches q self self ((population (im_limits img) + 1) * (max_inheritance_depth (im_limits img) + 1))
              (parents_in (defs img) par)"
    then have "acyclic (edges (parents_in (defs img') par))" by (intro redefine_acyclic[OF inv new]) blast
    then show ?thesis using inv pop lim new len q by (auto simp: inheritance_inv_def)
  qed
qed

end

sublocale inheritance_registry \<subseteq> graph: image_invariant "inheritance_inv defs par"
proof
  show "inheritance_inv defs par (with_audit n log img)" if "inheritance_inv defs par img" for img n log
    using that population.inv_audit by (simp add: inheritance_inv_def defs_audit frame_simps)
  show "inheritance_inv defs par (img\<lparr>im_generation := g\<rparr>)" if "inheritance_inv defs par img" for img g
    using that population.inv_generation by (simp add: inheritance_inv_def defs_generation)
  show "inheritance_inv defs par (img\<lparr>im_last_sequence := n\<rparr>)" if "inheritance_inv defs par img" for img n
    using that population.inv_position by (simp add: inheritance_inv_def defs_position)
  show "inheritance_inv defs par (expire_grants img)" if "inheritance_inv defs par img" for img
    using that population.inv_expire by (simp add: inheritance_inv_def defs_expire) (simp add: expire_grants_def)
qed (rule inheritance_inv_op)

lemma parents_in_eq:
  "parents_in (class_defs img) cd_inherits_from = class_parents img"
  "parents_in (subject_defs img) ud_inherits_from = subject_parents img"
  by (auto simp: parents_in_def parents_defs)

lemma dom_defs:
  "population_inv img \<Longrightarrow> finite (dom (class_defs img)) \<and> card (dom (class_defs img)) \<le> max_classes (im_limits img)"
  "population_inv img \<Longrightarrow> finite (dom (subject_defs img)) \<and> card (dom (subject_defs img)) \<le> max_subjects (im_limits img)"
proof -
  have d: "dom (class_defs img) = dom (om_find (im_classes img))" "dom (subject_defs img) = dom (om_find (im_subjects img))"
    by (auto simp: class_defs_def subject_defs_def dom_def)
  show "population_inv img \<Longrightarrow> finite (dom (class_defs img)) \<and> card (dom (class_defs img)) \<le> max_classes (im_limits img)"
    "population_inv img \<Longrightarrow> finite (dom (subject_defs img)) \<and> card (dom (subject_defs img)) \<le> max_subjects (im_limits img)"
    unfolding d population_inv_def by (simp_all add: om.card_dom) (simp_all add: om.dom_entries)
qed

interpretation class_graph: inheritance_registry class_defs cd_inherits_from max_classes
proof
  fix img m p img'
  assume v: "validate_mutation img m = Inr ()" and op: "apply_op img m False p = Inr img'"
  show "class_defs img' = class_defs img \<or>
      (\<exists>self d. class_defs img' = (class_defs img)(self \<mapsto> d) \<and>
        length (cd_inherits_from d) \<le> max_inherits_from (im_limits img) \<and>
        (\<forall>q \<in> set (cd_inherits_from d). class_defs img q \<noteq> None \<and>
          \<not> reaches q self self ((max_classes (im_limits img) + 1) * (max_inheritance_depth (im_limits img) + 1))
              (parents_in (class_defs img) cd_inherits_from)))"
  proof (cases "mu_op m = DefineClass \<and> \<not> content_unchanged img m")
    case True
    then have "validate_inheritance img (cd_id (mu_cls m)) (cd_inherits_from (mu_cls m)) = Inr ()"
      using v validate_class_ok(4) by (simp add: validate_mutation_def)
    note ok = validate_inheritance_ok[OF this]
    show ?thesis
      using True class_defs_after[OF op] ok(1) ok(3,4)
      by (intro disjI2 exI[of _ "cd_id (mu_cls m)"] exI[of _ "(mu_cls m)\<lparr>cd_generation := bump img m\<rparr>"])
        (simp add: parents_in_eq class_walk_bound_def)
  next
    case False
    then show ?thesis using class_defs_after[OF op] by presburger
  qed
qed (simp_all add: frame_simps dom_defs)

lemma validate_subject_ok:
  "validate_subject img d = Inr () \<Longrightarrow> validate_subject_inheritance img (ud_id d) (ud_inherits_from d) = Inr ()"
  by (auto simp: validate_subject_def ok_simps)

interpretation subject_graph: inheritance_registry subject_defs ud_inherits_from max_subjects
proof
  fix img m p img'
  assume v: "validate_mutation img m = Inr ()" and op: "apply_op img m False p = Inr img'"
  show "subject_defs img' = subject_defs img \<or>
      (\<exists>self d. subject_defs img' = (subject_defs img)(self \<mapsto> d) \<and>
        length (ud_inherits_from d) \<le> max_inherits_from (im_limits img) \<and>
        (\<forall>q \<in> set (ud_inherits_from d). subject_defs img q \<noteq> None \<and>
          \<not> reaches q self self ((max_subjects (im_limits img) + 1) * (max_inheritance_depth (im_limits img) + 1))
              (parents_in (subject_defs img) ud_inherits_from)))"
  proof (cases "mu_op m = DefineSubject \<and> \<not> content_unchanged img m")
    case True
    then have "validate_subject_inheritance img (ud_id (mu_subject m)) (ud_inherits_from (mu_subject m)) = Inr ()"
      using v validate_subject_ok by (simp add: validate_mutation_def)
    note ok = validate_subject_inheritance_ok[OF this]
    show ?thesis
      using True subject_defs_after[OF op] ok(1) ok(3,4)
      by (intro disjI2 exI[of _ "ud_id (mu_subject m)"] exI[of _ "(mu_subject m)\<lparr>ud_generation := bump img m\<rparr>"])
        (simp add: parents_in_eq subject_walk_bound_def)
  next
    case False
    then show ?thesis using subject_defs_after[OF op] by presburger
  qed
qed (simp_all add: frame_simps dom_defs)

section \<open>The scope forest\<close>

definition scope_up :: "state_image \<Rightarrow> scope_id \<Rightarrow> scope_id list" where
  "scope_up img s = (case scope_parent img s of None \<Rightarrow> [] | Some p \<Rightarrow> [p])"

definition scope_inv :: "state_image \<Rightarrow> bool" where
  "scope_inv img \<longleftrightarrow>
     (\<forall>k d. scope_defs img k = Some d \<longrightarrow> sd_id d = k \<and> gen_is_set (sd_generation d) \<and>
        (\<forall>p. sd_parent d = Some p \<longrightarrow> scope_defs img p \<noteq> None)) \<and>
     acyclic (edges (scope_up img))"

lemma parent_walk_closed:
  "parent_walk img d parent cursor visited hops = Inr () \<Longrightarrow>
     \<exists>V. cursor \<in> V \<and> sd_id d \<notin> V \<and> closed_under (scope_up img) (\<lambda>n. n = sd_id d) V"
proof (induction img d parent cursor visited hops rule: parent_walk.induct)
  case (1 img d parent cursor visited hops)
  have ne: "cursor \<noteq> sd_id d" and "cursor \<notin> visited" and "\<not> Suc hops > max_scope_depth (im_limits img)"
    using "1.prems" by (auto simp: parent_walk.simps[of img d parent cursor] split: if_splits)
  then obtain node where node: "om_find (im_scopes img) cursor = Some node"
    using "1.prems" by (auto simp: parent_walk.simps[of img d parent cursor] split: option.splits)
  show ?case
  proof (cases "sd_parent (se_definition node)")
    case None
    then show ?thesis
      using ne node by (intro exI[of _ "{cursor}"]) (simp add: closed_under_def scope_up_def scope_parent_def)
  next
    case (Some p)
    then have "parent_walk img d parent p (insert cursor visited) (Suc hops) = Inr ()"
      using "1.prems" node ne by (simp add: parent_walk.simps[of img d parent cursor] split: if_splits)
    then obtain V where V: "p \<in> V" "sd_id d \<notin> V" "closed_under (scope_up img) (\<lambda>n. n = sd_id d) V"
      using "1.IH"[of node p] \<open>cursor \<notin> visited\<close> \<open>\<not> Suc hops > _\<close> ne node Some by blast
    then show ?thesis
      using ne node Some
      by (intro exI[of _ "insert cursor V"]) (auto simp: closed_under_def scope_up_def scope_parent_def)
  qed
qed

lemma validate_scope_ok:
  assumes "validate_scope img d = Inr ()" and "sd_parent d = Some p"
  shows "p \<noteq> sd_id d" "scope_defs img p \<noteq> None"
    and "\<exists>V. p \<in> V \<and> sd_id d \<notin> V \<and> closed_under (scope_up img) (\<lambda>n. n = sd_id d) V"
  using assms parent_walk_closed[of img d p p "{}" 0]
  by (auto simp: validate_scope_def ok_simps om_has_defs split: if_splits)

lemma scope_inv_op:
  assumes inv: "scope_inv img" and v: "validate_mutation img m = Inr ()" and op: "apply_op img m False p = Inr img'"
  shows "scope_inv img'"
proof (cases "mu_op m = DefineScope \<and> \<not> content_unchanged img m")
  case True
  let ?d = "mu_scope m"
  have vs: "validate_scope img ?d = Inr ()" using v True by (simp add: validate_mutation_def)
  have new: "scope_defs img' = (scope_defs img)(sd_id ?d \<mapsto> ?d\<lparr>sd_generation := bump img m\<rparr>)"
    using scope_defs_after[OF op] True by simp
  have up: "scope_up img' n = (if n = sd_id ?d then (case sd_parent ?d of None \<Rightarrow> [] | Some p \<Rightarrow> [p]) else scope_up img n)" for n
    by (simp add: scope_up_def parents_defs new)
  obtain V where V: "sd_id ?d \<notin> V" "closed_under (scope_up img) (\<lambda>n. n = sd_id ?d) V"
      "set (scope_up img' (sd_id ?d)) \<subseteq> V"
  proof (cases "sd_parent ?d")
    case None
    then show ?thesis using that[of "{}"] by (simp add: closed_under_def up)
  next
    case (Some p)
    then show ?thesis using validate_scope_ok(3)[OF vs Some] that by (auto simp: up)
  qed
  have "acyclic (edges (scope_up img'))"
    by (rule acyclic_redefine[of "scope_up img" "scope_up img'" "sd_id ?d", OF _ V(3,1,2)])
      (use inv in \<open>simp_all add: scope_inv_def up\<close>)
  moreover have "gen_is_set (bump img m)" using bump_set[OF op] True by simp
  ultimately show ?thesis
    using inv validate_scope_ok(2)[OF vs] by (auto simp: scope_inv_def new split: if_splits)
next
  case False
  then have "scope_defs img' = scope_defs img" using scope_defs_after[OF op] by presburger
  then show ?thesis using inv by (simp add: scope_inv_def scope_up_def[abs_def] parents_defs)
qed

interpretation scope_forest: image_invariant scope_inv
proof
  show "scope_inv img \<Longrightarrow> scope_inv (with_audit n log img)" for img n log
    by (simp add: scope_inv_def frame_simps scope_up_def[abs_def])
  show "scope_inv img \<Longrightarrow> scope_inv (img\<lparr>im_generation := g\<rparr>)" for img g
    by (simp add: scope_inv_def frame_simps scope_up_def[abs_def])
  show "scope_inv img \<Longrightarrow> scope_inv (img\<lparr>im_last_sequence := n\<rparr>)" for img n
    by (simp add: scope_inv_def frame_simps scope_up_def[abs_def])
  show "scope_inv img \<Longrightarrow> scope_inv (expire_grants img)" for img
    by (simp add: scope_inv_def frame_simps scope_up_def[abs_def])
qed (rule scope_inv_op)

text \<open>A scope chain runs from the scope to a root along the parent links.\<close>

fun parent_path :: "state_image \<Rightarrow> scope_id list \<Rightarrow> bool" where
  "parent_path img [] \<longleftrightarrow> False"
| "parent_path img [s] \<longleftrightarrow> scope_defs img s \<noteq> None \<and> scope_parent img s = None"
| "parent_path img (s # t # rest) \<longleftrightarrow> scope_parent img s = Some t \<and> parent_path img (t # rest)"

lemma scope_chain_loop_path:
  "scope_chain_loop img scope pre current visited = Inr chain \<Longrightarrow>
     \<exists>rest. chain = pre @ current # rest \<and> parent_path img (current # rest) \<and>
       length chain \<le> max_scope_depth (im_limits img)"
proof (induction img scope pre current visited rule: scope_chain_loop.induct)
  case (1 img scope pre current visited)
  obtain e where e: "current \<notin> visited" "om_find (im_scopes img) current = Some e"
      "\<not> length (pre @ [current]) > max_scope_depth (im_limits img)"
    using "1.prems"
    by (auto simp: scope_chain_loop.simps[of img scope pre current] Let_def split: if_splits option.splits)
  show ?case
  proof (cases "sd_parent (se_definition e)")
    case None
    then show ?thesis
      using "1.prems" e
      by (intro exI[of _ "[]"])
        (auto simp: scope_chain_loop.simps[of img scope pre current] scope_defs_def scope_parent_def)
  next
    case (Some p)
    then have "scope_chain_loop img scope (pre @ [current]) p (insert current visited) = Inr chain"
      using "1.prems" e by (simp add: scope_chain_loop.simps[of img scope pre current])
    then obtain rest where "chain = (pre @ [current]) @ p # rest" "parent_path img (p # rest)"
        "length chain \<le> max_scope_depth (im_limits img)"
      using "1.IH"[OF e(1,2) refl e(3) Some] by blast
    then show ?thesis using Some e(2) by (simp add: scope_parent_def)
  qed
qed

lemma scope_chain_path:
  assumes "scope_chain img scope = Inr chain"
  shows "hd chain = scope" "parent_path img chain" "length chain \<le> max_scope_depth (im_limits img)"
  using scope_chain_loop_path[of img scope "[]" scope "{}" chain] assms by (auto simp: scope_chain_def)

text \<open>In a forest the walk can fail only by its length.\<close>

lemma scope_chain_loop_total:
  "scope_inv img \<Longrightarrow> scope_defs img current \<noteq> None \<Longrightarrow>
     (\<forall>v \<in> visited. (v, current) \<in> (edges (scope_up img))\<^sup>+) \<Longrightarrow>
     scope_chain_loop img scope pre current visited = Inl e \<Longrightarrow> st_code e = St_LimitExceeded"
proof (induction img scope pre current visited rule: scope_chain_loop.induct)
  case (1 img scope pre current visited)
  have "current \<notin> visited" using "1.prems"(1,3) by (auto simp: scope_inv_def acyclic_def)
  moreover obtain n where n: "om_find (im_scopes img) current = Some n"
    using "1.prems"(2) by (auto simp: scope_defs_def)
  ultimately show ?case
  proof (cases "length (pre @ [current]) > max_scope_depth (im_limits img)")
    case True
    then show ?thesis
      using "1.prems"(4) \<open>current \<notin> visited\<close> n
      by (auto simp: scope_chain_loop.simps[of img scope pre current] make_error_def)
  next
    case False
    obtain p where p: "sd_parent (se_definition n) = Some p"
        and loop: "scope_chain_loop img scope (pre @ [current]) p (insert current visited) = Inl e"
      using "1.prems"(4) \<open>current \<notin> visited\<close> n False
      by (auto simp: scope_chain_loop.simps[of img scope pre current] Let_def split: option.splits)
    have edge: "(current, p) \<in> edges (scope_up img)"
      using n p by (simp add: edges_def scope_up_def scope_parent_def)
    have "scope_defs img current = Some (se_definition n)" using n by (simp add: scope_defs_def)
    then have "scope_defs img p \<noteq> None" using "1.prems"(1) p unfolding scope_inv_def by blast
    moreover have "\<forall>v \<in> insert current visited. (v, p) \<in> (edges (scope_up img))\<^sup>+"
      using "1.prems"(3) edge by (auto intro: trancl_into_trancl)
    ultimately show ?thesis
      using "1.IH"[OF \<open>current \<notin> visited\<close> n refl False p "1.prems"(1)] loop by blast
  qed
qed

lemma scope_chain_total:
  "scope_inv img \<Longrightarrow> scope_defs img scope \<noteq> None \<Longrightarrow> scope_chain img scope = Inl e \<Longrightarrow> st_code e = St_LimitExceeded"
  using scope_chain_loop_total[of img scope "{}" scope "[]" e] by (simp add: scope_chain_def)

end
