(* ===== verification/Authority.thy ===== *)
theory Authority
  imports Registry
begin

text \<open>
  The publisher authority table: who may mutate the fabric. An incarnation is live with a token
  when its entry is granted, under the current epoch, with that token. The invariant of the
  table, the frame of the operations on it, and the fencing properties the commit path relies
  on.
\<close>

section \<open>Live incarnations\<close>

definition live :: "state_image \<Rightarrow> publisher_id \<Rightarrow> boot_id \<Rightarrow> fencing_token \<Rightarrow> bool" where
  "live img publisher boot token =
     (case om_find (im_authority img) (publisher, boot) of
        None \<Rightarrow> False
      | Some e \<Rightarrow> he_state e = Granted \<and> he_epoch e = im_epoch img \<and> he_token e = token)"

lemma check_authority_iff:
  "check_authority img m = Inr () \<longleftrightarrow>
     id_valid (mu_publisher m) \<and> \<not> boot_is_zero (mu_boot m) \<and> is_established (im_epoch img) \<and>
     mu_epoch m = im_epoch img \<and> live img (mu_publisher m) (mu_boot m) (mu_token m)"
  by (auto simp: check_authority_def live_def split: option.splits)

lemma live_frame [frame_simps]:
  "live (with_audit n log img) = live img" "live (img\<lparr>im_generation := g\<rparr>) = live img"
  "live (img\<lparr>im_last_sequence := i\<rparr>) = live img"
  by (auto simp: live_def fun_eq_iff frame_simps split: option.splits)

section \<open>The table under one operation\<close>

lemma authority_after:
  assumes "apply_op img m False p = Inr img'"
  shows "mu_op m \<notin> {GrantAuthority, FenceAuthority, AdvanceEpoch} \<Longrightarrow>
      im_authority img' = im_authority img \<and> im_epoch img' = im_epoch img \<and>
      im_next_fencing_token img' = im_next_fencing_token img"
    and "mu_op m = FenceAuthority \<Longrightarrow>
      im_epoch img' = im_epoch img \<and> im_next_fencing_token img' = im_next_fencing_token img"
    and "mu_op m = AdvanceEpoch \<Longrightarrow>
      epoch_next (im_epoch img) = Some (im_epoch img') \<and> im_next_fencing_token img' = im_next_fencing_token img \<and>
      im_authority img' = om_update_all (\<lambda>_ e.
        if he_state e = Granted \<and> he_epoch e \<noteq> im_epoch img' then e\<lparr>he_state := Expired\<rparr> else e) (im_authority img)"
    and "mu_op m = GrantAuthority \<Longrightarrow>
      im_epoch img' = im_epoch img \<and> im_next_fencing_token img' = im_next_fencing_token img + 1 \<and>
      im_next_fencing_token img \<noteq> 0 \<and> im_next_fencing_token img \<noteq> - 1"
  using assms by (auto simp: op_defs ok_simps split: if_splits option.splits mutation_op.splits)

text \<open>Lookups in the table after a grant, a fence and an epoch advance.\<close>

lemma grant_find:
  assumes "apply_op img m False p = Inr img'" and "mu_op m = GrantAuthority"
  shows "om_find (im_authority img') k =
    (if k = (mu_publisher m, mu_boot m) then
       Some \<lparr>he_publisher = mu_publisher m, he_boot = mu_boot m, he_epoch = im_epoch img,
         he_token = im_next_fencing_token img, he_state = Granted, he_provenance = p\<rparr>
     else map_option (\<lambda>e. if fst k = mu_publisher m \<and> he_state e = Granted then e\<lparr>he_state := Superseded\<rparr> else e)
       (om_find (im_authority img) k))"
  using assms by (cases k; cases "om_find (im_authority img) k") (auto simp: op_defs split: if_splits)

lemma fence_find:
  assumes "apply_op img m False p = Inr img'" and "mu_op m = FenceAuthority"
  shows "om_find (im_authority img') k =
    (if k = (mu_fence_publisher m, mu_fence_boot m) then
       Some (case om_find (im_authority img) k of
          None \<Rightarrow> \<lparr>he_publisher = mu_fence_publisher m, he_boot = mu_fence_boot m, he_epoch = 0,
            he_token = 0, he_state = Fenced, he_provenance = p\<rparr>
        | Some e \<Rightarrow> e\<lparr>he_state := Fenced, he_provenance := p\<rparr>)
     else om_find (im_authority img) k)"
  using assms by (auto simp: op_defs)

lemma authority_wf_after:
  assumes "apply_op img m False p = Inr img'" and "om_wf (im_authority img)"
  shows "om_wf (im_authority img')"
  using assms by (auto simp: op_defs ok_simps split: if_splits option.splits mutation_op.splits)

section \<open>The invariant\<close>

text \<open>Entries sit under their own key; a granted entry was granted in the current epoch; a
  publisher has at most one granted incarnation; every issued token is below the next one and
  names one incarnation.\<close>

definition authority_inv :: "state_image \<Rightarrow> bool" where
  "authority_inv img \<longleftrightarrow> om_wf (im_authority img) \<and> im_next_fencing_token img \<noteq> 0 \<and>
     (\<forall>k e. om_find (im_authority img) k = Some e \<longrightarrow>
        k = (he_publisher e, he_boot e) \<and> he_token e < im_next_fencing_token img \<and>
        (he_state e = Granted \<longrightarrow> he_epoch e = im_epoch img)) \<and>
     (\<forall>k k' e e'. om_find (im_authority img) k = Some e \<longrightarrow> om_find (im_authority img) k' = Some e' \<longrightarrow>
        (he_state e = Granted \<and> he_state e' = Granted \<and> fst k = fst k' \<longrightarrow> k = k') \<and>
        (he_token e = he_token e' \<and> he_token e \<noteq> 0 \<longrightarrow> k = k'))"

lemma authority_invD:
  assumes "authority_inv img"
  shows "om_find (im_authority img) k = Some e \<Longrightarrow> k = (he_publisher e, he_boot e)"
    and "om_find (im_authority img) k = Some e \<Longrightarrow> he_token e < im_next_fencing_token img"
    and "om_find (im_authority img) k = Some e \<Longrightarrow> he_state e = Granted \<Longrightarrow> he_epoch e = im_epoch img"
    and "om_find (im_authority img) k = Some e \<Longrightarrow> om_find (im_authority img) k' = Some e' \<Longrightarrow>
      he_state e = Granted \<Longrightarrow> he_state e' = Granted \<Longrightarrow> fst k = fst k' \<Longrightarrow> k = k'"
    and "om_find (im_authority img) k = Some e \<Longrightarrow> om_find (im_authority img) k' = Some e' \<Longrightarrow>
      he_token e = he_token e' \<Longrightarrow> he_token e \<noteq> 0 \<Longrightarrow> k = k'"
    and "om_wf (im_authority img)" and "im_next_fencing_token img \<noteq> 0"
  using assms unfolding authority_inv_def by blast+

lemma authority_inv_cong:
  "im_authority i = im_authority j \<Longrightarrow> im_epoch i = im_epoch j \<Longrightarrow>
     im_next_fencing_token i = im_next_fencing_token j \<Longrightarrow> authority_inv i \<longleftrightarrow> authority_inv j"
  unfolding authority_inv_def by (simp only:)

lemma state_update_eq: "e\<lparr>he_state := s\<rparr> = e \<Longrightarrow> he_state e = s"
  by (cases e) auto

lemma fresh_token:
  "x \<noteq> - 1 \<Longrightarrow> x < x + 1" "x \<noteq> - 1 \<Longrightarrow> y < x \<Longrightarrow> y < x + 1" "x \<noteq> - 1 \<Longrightarrow> x + 1 \<noteq> 0" for x y :: u64
  using gen_next_Some[of x "x + 1"] by (auto simp: gen_next_def)

text \<open>An entry that keeps its key and token and is granted only if it was; and the general
  preservation argument: every entry is kept in this sense, or is the one written entry, whose
  token is fresh or absent.\<close>

definition kept_entry :: "state_image \<Rightarrow> state_image \<Rightarrow> authority_key \<Rightarrow> authority_entry \<Rightarrow> bool" where
  "kept_entry img img' k e \<longleftrightarrow> (\<exists>e0. om_find (im_authority img) k = Some e0 \<and>
     he_publisher e = he_publisher e0 \<and> he_boot e = he_boot e0 \<and> he_token e = he_token e0 \<and>
     (he_state e = Granted \<longrightarrow> he_state e0 = Granted \<and> he_epoch e = he_epoch e0 \<and> im_epoch img' = im_epoch img))"

lemma authority_inv_preserved:
  assumes inv: "authority_inv img" and wf: "om_wf (im_authority img')"
    and nxt: "im_next_fencing_token img' \<noteq> 0" "im_next_fencing_token img \<le> im_next_fencing_token img'"
    and entries: "\<And>k e. om_find (im_authority img') k = Some e \<Longrightarrow> kept_entry img img' k e \<or> (k = key \<and> e = new)"
    and new: "key = (he_publisher new, he_boot new)" "he_token new < im_next_fencing_token img'"
      "he_state new = Granted \<Longrightarrow> he_epoch new = im_epoch img'"
      "he_token new = 0 \<or> im_next_fencing_token img \<le> he_token new"
    and alone: "\<And>k e. he_state new = Granted \<Longrightarrow> om_find (im_authority img') k = Some e \<Longrightarrow>
      he_state e = Granted \<Longrightarrow> fst k = fst key \<Longrightarrow> k = key"
  shows "authority_inv img'"
  unfolding authority_inv_def
proof (intro conjI allI impI wf nxt(1))
  fix k e assume e: "om_find (im_authority img') k = Some e"
  show "k = (he_publisher e, he_boot e)"
    using entries[OF e] new(1) authority_invD(1)[OF inv, of k] by (auto simp: kept_entry_def)
  show "he_token e < im_next_fencing_token img'"
    using entries[OF e] new(2) authority_invD(2)[OF inv, of k] nxt(2) by (auto simp: kept_entry_def)
  show "he_epoch e = im_epoch img'" if "he_state e = Granted"
    using entries[OF e] that new(3) authority_invD(3)[OF inv, of k] by (auto simp: kept_entry_def)
next
  fix k k' e e'
  assume e: "om_find (im_authority img') k = Some e" and e': "om_find (im_authority img') k' = Some e'"
  show "k = k'" if g: "he_state e = Granted \<and> he_state e' = Granted \<and> fst k = fst k'"
  proof (cases "kept_entry img img' k e \<and> kept_entry img img' k' e'")
    case True
    then obtain f f' where f: "om_find (im_authority img) k = Some f" "he_state f = Granted"
        "om_find (im_authority img) k' = Some f'" "he_state f' = Granted"
      using g unfolding kept_entry_def by blast
    from authority_invD(4)[OF inv f(1,3,2,4)] g show ?thesis by blast
  next
    case False
    then have "(k = key \<and> e = new) \<or> (k' = key \<and> e' = new)" using entries[OF e] entries[OF e'] by blast
    then show ?thesis using alone[OF _ e] alone[OF _ e'] g by metis
  qed
  have old: "he_token x < im_next_fencing_token img" if "kept_entry img img' j x" for j x
    using that authority_invD(2)[OF inv, of j] by (auto simp: kept_entry_def)
  show "k = k'" if t: "he_token e = he_token e' \<and> he_token e \<noteq> 0"
  proof (cases "kept_entry img img' k e \<and> kept_entry img img' k' e'")
    case True
    then obtain f f' where f: "om_find (im_authority img) k = Some f" "om_find (im_authority img) k' = Some f'"
        "he_token f = he_token f'" "he_token f \<noteq> 0"
      using t unfolding kept_entry_def by metis
    from authority_invD(5)[OF inv f] show ?thesis .
  next
    case False
    then show ?thesis
      using entries[OF e] entries[OF e'] old[of k e] old[of k' e'] new(4) t by (metis leD)
  qed
qed

lemma grant_inv:
  assumes inv: "authority_inv img" and op: "apply_op img m False p = Inr img'" and "mu_op m = GrantAuthority"
  shows "authority_inv img'"
proof -
  note find = grant_find[OF op assms(3)]
  have same: "im_epoch img' = im_epoch img" "im_next_fencing_token img' = im_next_fencing_token img + 1"
    "im_next_fencing_token img \<noteq> - 1"
    using authority_after(4)[OF op assms(3)] by simp_all
  note fresh = fresh_token[OF same(3)]
  show ?thesis
  proof (rule authority_inv_preserved[OF inv, where key = "(mu_publisher m, mu_boot m)" and
        new = "\<lparr>he_publisher = mu_publisher m, he_boot = mu_boot m, he_epoch = im_epoch img,
         he_token = im_next_fencing_token img, he_state = Granted, he_provenance = p\<rparr>"])
    show "om_wf (im_authority img')" using authority_wf_after[OF op] inv by (simp add: authority_inv_def)
    fix k e assume e: "om_find (im_authority img') k = Some e"
    show "kept_entry img img' k e \<or> (k = (mu_publisher m, mu_boot m) \<and> e = \<lparr>he_publisher = mu_publisher m,
        he_boot = mu_boot m, he_epoch = im_epoch img, he_token = im_next_fencing_token img, he_state = Granted,
        he_provenance = p\<rparr>)"
      using e same(1) by (auto simp: find kept_entry_def split: if_splits)
    show "k = (mu_publisher m, mu_boot m)" if "he_state e = Granted" "fst k = fst (mu_publisher m, mu_boot m)"
      using e that by (auto simp: find dest: state_update_eq split: if_splits)
  qed (use same fresh in auto)
qed

lemma fence_inv:
  assumes inv: "authority_inv img" and op: "apply_op img m False p = Inr img'" and "mu_op m = FenceAuthority"
  shows "authority_inv img'"
proof -
  note find = fence_find[OF op assms(3)]
  have same: "im_epoch img' = im_epoch img" "im_next_fencing_token img' = im_next_fencing_token img"
    using authority_after(2)[OF op assms(3)] by simp_all
  show ?thesis
  proof (rule authority_inv_preserved[OF inv, where key = "(mu_fence_publisher m, mu_fence_boot m)" and
        new = "\<lparr>he_publisher = mu_fence_publisher m, he_boot = mu_fence_boot m, he_epoch = 0,
            he_token = 0, he_state = Fenced, he_provenance = p\<rparr>"])
    show "om_wf (im_authority img')" using authority_wf_after[OF op] inv by (simp add: authority_inv_def)
    fix k e assume e: "om_find (im_authority img') k = Some e"
    show "kept_entry img img' k e \<or> (k = (mu_fence_publisher m, mu_fence_boot m) \<and> e = \<lparr>he_publisher = mu_fence_publisher m,
        he_boot = mu_fence_boot m, he_epoch = 0, he_token = 0, he_state = Fenced, he_provenance = p\<rparr>)"
      using e same(1) by (auto simp: find kept_entry_def split: if_splits option.splits)
  qed (use same authority_invD(7)[OF inv] in \<open>auto simp: word_neq_0_conv\<close>)
qed

lemma epoch_next_neq: "epoch_next e = Some e' \<Longrightarrow> e \<noteq> e'"
  using epoch_next_Some[of e e'] by auto

lemma advance_find:
  assumes inv: "authority_inv img" and op: "apply_op img m False p = Inr img'" and "mu_op m = AdvanceEpoch"
  shows "om_find (im_authority img') k =
    map_option (\<lambda>e. if he_state e = Granted then e\<lparr>he_state := Expired\<rparr> else e) (om_find (im_authority img) k)"
proof -
  have "he_epoch e \<noteq> im_epoch img'" if "om_find (im_authority img) k = Some e" "he_state e = Granted" for e
    using authority_invD(3)[OF inv that] epoch_next_neq authority_after(3)[OF op assms(3)] by auto
  then show ?thesis
    using authority_after(3)[OF op assms(3)] by (cases "om_find (im_authority img) k") auto
qed

lemma expired_inv:
  assumes inv: "authority_inv img" and same: "im_next_fencing_token img' = im_next_fencing_token img" and wf: "om_wf (im_authority img')"
    and find: "\<And>k. om_find (im_authority img') k =
      map_option (\<lambda>e. if he_state e = Granted then e\<lparr>he_state := Expired\<rparr> else e) (om_find (im_authority img) k)"
  shows "authority_inv img'"
proof -
  have kept: "kept_entry img img' k e \<and> he_state e \<noteq> Granted" if "om_find (im_authority img') k = Some e" for k e
    using that by (auto simp: find kept_entry_def dest: state_update_eq split: if_splits)
  show ?thesis
  proof (rule authority_inv_preserved[OF inv, where key = "(id_none, [])" and
        new = "\<lparr>he_publisher = id_none, he_boot = [], he_epoch = 0, he_token = 0, he_state = Fenced,
          he_provenance = provenance_none\<rparr>"])
    show "om_wf (im_authority img')" by (rule wf)
  qed (use same kept authority_invD(7)[OF inv] in \<open>auto simp: word_neq_0_conv\<close>)
qed

lemma advance_inv:
  assumes inv: "authority_inv img" and op: "apply_op img m False p = Inr img'" and "mu_op m = AdvanceEpoch"
  shows "authority_inv img'"
proof (rule expired_inv[OF inv])
  show "im_next_fencing_token img' = im_next_fencing_token img" using authority_after(3)[OF op assms(3)] by simp
  have "om_wf (im_authority img)" using inv by (simp add: authority_inv_def)
  then show "om_wf (im_authority img')" by (rule authority_wf_after[OF op])
qed (rule advance_find[OF inv op assms(3)])

lemma expire_find:
  "om_find (im_authority (expire_grants img)) k =
     map_option (\<lambda>e. if he_state e = Granted then e\<lparr>he_state := Expired\<rparr> else e) (om_find (im_authority img) k)"
  by (simp add: expire_grants_def)

lemma authority_inv_expire:
  assumes inv: "authority_inv img"
  shows "authority_inv (expire_grants img)"
proof (rule expired_inv[OF inv])
  have "om_wf (im_authority img)" using inv by (simp add: authority_inv_def)
  then show "om_wf (im_authority (expire_grants img))" by (simp add: expire_grants_def)
qed (simp add: expire_grants_def, rule expire_find)

lemma authority_inv_op:
  assumes inv: "authority_inv img" and op: "apply_op img m False p = Inr img'"
  shows "authority_inv img'"
proof (cases "mu_op m \<in> {GrantAuthority, FenceAuthority, AdvanceEpoch}")
  case True
  then show ?thesis using grant_inv[OF assms] fence_inv[OF assms] advance_inv[OF assms] by blast
next
  case False
  then show ?thesis using inv authority_after(1)[OF op] authority_inv_cong[of img' img] by simp
qed

interpretation authority: image_invariant authority_inv
proof
  show "authority_inv img \<Longrightarrow> authority_inv (with_audit n log img)" for img n log
    by (subst authority_inv_cong[of _ img]) (simp_all add: frame_simps)
  show "authority_inv img \<Longrightarrow> authority_inv (img\<lparr>im_generation := g\<rparr>)" for img g
    by (subst authority_inv_cong[of _ img]) simp_all
  show "authority_inv img \<Longrightarrow> authority_inv (img\<lparr>im_last_sequence := n\<rparr>)" for img n
    by (subst authority_inv_cong[of _ img]) simp_all
qed (rule authority_inv_expire authority_inv_op, assumption+)+

lemma authority_inv_empty: "authority_inv (empty_image limits)"
  by (simp add: authority_inv_def empty_image_def)

section \<open>Fencing\<close>

text \<open>A token that is not live, and was issued before, never becomes live.\<close>

definition token_dead :: "publisher_id \<Rightarrow> boot_id \<Rightarrow> fencing_token \<Rightarrow> state_image \<Rightarrow> bool" where
  "token_dead publisher boot token img \<longleftrightarrow>
     authority_inv img \<and> token < im_next_fencing_token img \<and> \<not> live img publisher boot token"

lemma token_dead_op:
  assumes dead: "token_dead publisher boot token img" and op: "apply_op img m False p = Inr img'"
  shows "token_dead publisher boot token img'"
proof -
  have inv: "authority_inv img" and old: "token < im_next_fencing_token img" "\<not> live img publisher boot token"
    using dead by (simp_all add: token_dead_def)
  have inv': "authority_inv img'" by (rule authority_inv_op[OF inv op])
  have "token < im_next_fencing_token img' \<and> \<not> live img' publisher boot token"
  proof (cases "mu_op m")
    case GrantAuthority
    then have tok: "im_epoch img' = im_epoch img" "im_next_fencing_token img' = im_next_fencing_token img + 1"
        "im_next_fencing_token img \<noteq> - 1"
      using authority_after(4)[OF op] by simp_all
    then have "token < im_next_fencing_token img'" using fresh_token(2) old(1) by simp
    moreover have "\<not> live img' publisher boot token"
      using old tok(1) by (auto simp: live_def grant_find[OF op GrantAuthority] dest: state_update_eq split: option.splits if_splits)
    ultimately show ?thesis by simp
  next
    case FenceAuthority
    then show ?thesis
      using old authority_after(2)[OF op] by (auto simp: live_def fence_find[OF op] split: option.splits if_splits)
  next
    case AdvanceEpoch
    have "\<not> live img' publisher boot token"
      by (auto simp: live_def advance_find[OF inv op AdvanceEpoch] dest: state_update_eq split: option.splits if_splits)
    then show ?thesis using old(1) authority_after(3)[OF op AdvanceEpoch] by simp
  qed (use old authority_after(1)[OF op] in \<open>auto simp: live_def split: option.splits\<close>)
  with inv' show ?thesis by (simp add: token_dead_def)
qed

interpretation dead_token: image_invariant "token_dead publisher boot token" for publisher boot token
proof
  show "token_dead publisher boot token img \<Longrightarrow> token_dead publisher boot token (with_audit n log img)" for img n log
    by (simp add: token_dead_def authority.inv_audit frame_simps)
  show "token_dead publisher boot token img \<Longrightarrow> token_dead publisher boot token (img\<lparr>im_generation := g\<rparr>)" for img g
    by (simp add: token_dead_def authority.inv_generation frame_simps)
  show "token_dead publisher boot token img \<Longrightarrow> token_dead publisher boot token (img\<lparr>im_last_sequence := n\<rparr>)" for img n
    by (simp add: token_dead_def authority.inv_position frame_simps)
  show "token_dead publisher boot token img \<Longrightarrow> token_dead publisher boot token (expire_grants img)" for img
    using authority_inv_expire[of img]
    by (auto simp: token_dead_def live_def expire_find dest: state_update_eq split: option.splits if_splits)
      (simp_all add: expire_grants_def)
qed (rule token_dead_op)

text \<open>Fencing is final.\<close>

definition fenced :: "publisher_id \<Rightarrow> boot_id \<Rightarrow> state_image \<Rightarrow> bool" where
  "fenced publisher boot img \<longleftrightarrow> authority_inv img \<and>
     (\<exists>e. om_find (im_authority img) (publisher, boot) = Some e \<and> he_state e = Fenced)"

lemma grant_scan_fenced:
  "om_wf table \<Longrightarrow> om_find table (mu_publisher m, mu_boot m) = Some e \<Longrightarrow> he_state e = Fenced \<Longrightarrow>
     \<exists>s. grant_scan m table boots = Inl s"
proof (induction m table boots rule: grant_scan.induct)
  case (2 m k e' rest boots)
  have "om_wf rest" using "2.prems"(1) by (simp add: om_wf_def)
  then show ?case using 2 by (cases k) (auto split: if_splits)
qed simp

lemma fenced_op:
  assumes f: "fenced publisher boot img" and v: "validate_mutation img m = Inr ()"
    and op: "apply_op img m False p = Inr img'"
  shows "fenced publisher boot img'"
proof -
  obtain e where inv: "authority_inv img" and e: "om_find (im_authority img) (publisher, boot) = Some e" "he_state e = Fenced"
    using f by (auto simp: fenced_def)
  have "\<exists>e. om_find (im_authority img') (publisher, boot) = Some e \<and> he_state e = Fenced"
  proof (cases "mu_op m")
    case GrantAuthority
    then have "\<not> (publisher = mu_publisher m \<and> boot = mu_boot m)"
      using v e grant_scan_fenced[of "im_authority img" m e 0] authority_invD(6)[OF inv]
      by (auto simp: validate_mutation_def validate_grant_def split: if_splits)
    then show ?thesis using e by (auto simp: grant_find[OF op GrantAuthority])
  next
    case FenceAuthority
    then show ?thesis using e by (auto simp: fence_find[OF op])
  next
    case AdvanceEpoch
    then show ?thesis using e by (simp add: advance_find[OF inv op])
  qed (use e authority_after(1)[OF op] in auto)
  then show ?thesis using authority_inv_op[OF inv op] by (simp add: fenced_def)
qed

interpretation fenced_incarnation: image_invariant "fenced publisher boot" for publisher boot
proof
  show "fenced publisher boot img \<Longrightarrow> fenced publisher boot (with_audit n log img)" for img n log
    by (simp add: fenced_def authority.inv_audit frame_simps)
  show "fenced publisher boot img \<Longrightarrow> fenced publisher boot (img\<lparr>im_generation := g\<rparr>)" for img g
    by (simp add: fenced_def authority.inv_generation)
  show "fenced publisher boot img \<Longrightarrow> fenced publisher boot (img\<lparr>im_last_sequence := n\<rparr>)" for img n
    by (simp add: fenced_def authority.inv_position)
  show "fenced publisher boot (expire_grants img)" if f: "fenced publisher boot img" for img
  proof -
    obtain e where "om_find (im_authority img) (publisher, boot) = Some e" "he_state e = Fenced"
      using f by (auto simp: fenced_def)
    then have "om_find (im_authority (expire_grants img)) (publisher, boot) = Some e" by (simp add: expire_find)
    then show ?thesis using f authority_inv_expire[of img] \<open>he_state e = Fenced\<close> by (simp add: fenced_def)
  qed
qed (rule fenced_op)

text \<open>A call on the commit path by an incarnation that is not live changes nothing.\<close>

lemma unauthorized_unchanged:
  assumes "\<not> live img (mu_publisher m) (mu_boot m) (mu_token m)" and "\<not> mu_system m"
    and "apply_mutation img m False = (img', r)"
  shows "img' = img \<and> (\<exists>e. r = Inl e)"
  using assms(3)
proof (cases rule: apply_mutation_cases)
  case (failed g idem e)
  then show ?thesis using admit_ok(3)[OF failed(1)] assms check_authority_iff by blast
next
  case (identical g)
  then show ?thesis using admit_ok(3)[OF identical(1)] assms check_authority_iff by blast
next
  case (changed g img1)
  then show ?thesis using admit_ok(3)[OF changed(1)] assms check_authority_iff by blast
qed simp

end
