(* ===== verification/Decisions.thy ===== *)
theory Decisions
  imports Evaluate Authority
begin

text \<open>
  What a decision of \<^verbatim>\<open>evaluate_query\<close> means: an authoritative class always rests on evidence that
  is active, was published by an incarnation that still holds authority, in the current epoch,
  with every generation it binds still current; or on a default that a policy declares.
\<close>

section \<open>Accepted evidence\<close>

definition generations_current :: "state_image \<Rightarrow> priority_assignment \<Rightarrow> bool" where
  "generations_current img a \<longleftrightarrow>
     (\<exists>e. om_find (im_subjects img) (as_subject a) = Some e \<and> ud_generation (ue_definition e) = as_subject_generation a) \<and>
     (\<exists>e. om_find (im_scopes img) (as_scope a) = Some e \<and> sd_generation (se_definition e) = as_scope_generation a) \<and>
     (\<exists>e. om_find (im_classes img) (as_cls a) = Some e \<and> cd_generation (ce_definition e) = as_class_generation a) \<and>
     (\<forall>p. as_policy a = Some p \<longrightarrow>
        (\<exists>e. om_find (im_policies img) p = Some e \<and> pd_generation (pe_definition e) = as_policy_generation a))"

definition publisher_granted :: "state_image \<Rightarrow> provenance \<Rightarrow> bool" where
  "publisher_granted img p \<longleftrightarrow>
     (\<exists>h. om_find (im_authority img) (pv_publisher p, pv_boot p) = Some h \<and> he_state h = Granted)"

definition usable :: "state_image \<Rightarrow> assignment_entry \<Rightarrow> bool" where
  "usable img entry \<longleftrightarrow> ae_active entry \<and> publisher_granted img (ae_provenance entry) \<and>
     pv_epoch (ae_provenance entry) = im_epoch img \<and> generations_current img (ae_assignment entry) \<and>
     class_visible img (as_cls (ae_assignment entry)) (as_scope (ae_assignment entry))"

definition candidate_ok :: "state_image \<Rightarrow> scope_id list \<Rightarrow> candidate \<Rightarrow> bool" where
  "candidate_ok img scopes c \<longleftrightarrow> usable img (ca_entry c) \<and>
     ca_level c < length scopes \<and> scopes ! ca_level c = as_scope (ca_assignment c) \<and>
     (ca_distance c > 0 \<longrightarrow> as_kind (ca_assignment c) = Inherited) \<and>
     (\<exists>i \<in> set (bucket_of (im_assignments_by_subject img) (ca_via_subject c)).
        om_find (im_assignments img) i = Some (ca_entry c))"

lemma judge_bindings_accept:
  assumes "judge_bindings img entry level = Accept l"
  shows "l = level \<and> generations_current img (ae_assignment entry) \<and>
    class_visible img (as_cls (ae_assignment entry)) (as_scope (ae_assignment entry))"
proof -
  let ?a = "ae_assignment entry"
  have s: "\<not> (case om_find (im_subjects img) (as_subject ?a) of None \<Rightarrow> True
        | Some e \<Rightarrow> ud_generation (ue_definition e) \<noteq> as_subject_generation ?a)"
    and t: "\<not> (case om_find (im_scopes img) (as_scope ?a) of None \<Rightarrow> True
        | Some e \<Rightarrow> sd_generation (se_definition e) \<noteq> as_scope_generation ?a)"
    using assms by (auto simp only: judge_bindings_def Let_def if_True verdict.distinct split: if_splits)
  then obtain c where c: "om_find (im_classes img) (as_cls ?a) = Some c"
    using assms by (auto simp: judge_bindings_def Let_def simp del: not_None_eq split: option.splits)
  have rest: "cd_generation (ce_definition c) = as_class_generation ?a" "l = level"
      "class_visible img (as_cls ?a) (as_scope ?a)"
      "\<not> (case as_policy ?a of None \<Rightarrow> False | Some p \<Rightarrow> (case om_find (im_policies img) p of
          None \<Rightarrow> True | Some e \<Rightarrow> pd_generation (pe_definition e) \<noteq> as_policy_generation ?a))"
    using assms s t c by (simp_all add: judge_bindings_def Let_def split: if_split_asm)
  show ?thesis
    using s t c rest by (auto simp: generations_current_def split: option.splits)
qed

lemma judge_accept:
  assumes "judge img scopes distance entry = Accept level"
  shows "usable img entry" "level < length scopes" "scopes ! level = as_scope (ae_assignment entry)"
    and "distance > 0 \<Longrightarrow> as_kind (ae_assignment entry) = Inherited"
proof -
  obtain l where l: "find_index (as_scope (ae_assignment entry)) scopes = Some l"
      and far: "\<not> (distance > 0 \<and> as_kind (ae_assignment entry) \<noteq> Inherited)"
    using assms by (auto simp: judge_def Let_def split: if_splits option.splits)
  have active: "ae_active entry"
    and granted: "\<not> (case om_find (im_authority img) (pv_publisher (ae_provenance entry), pv_boot (ae_provenance entry)) of
        None \<Rightarrow> True | Some e \<Rightarrow> he_state e \<noteq> Granted)"
    and epoch: "pv_epoch (ae_provenance entry) = im_epoch img"
    and "judge_bindings img entry l = Accept level"
    using assms l far by (simp_all add: judge_def Let_def split: if_split_asm)
  then have b: "level = l" "generations_current img (ae_assignment entry)"
      "class_visible img (as_cls (ae_assignment entry)) (as_scope (ae_assignment entry))"
    using judge_bindings_accept by blast+
  have "publisher_granted img (ae_provenance entry)"
    using granted by (auto simp: publisher_granted_def split: option.splits)
  then show "usable img entry" using active epoch b by (simp add: usable_def)
  show "level < length scopes" "scopes ! level = as_scope (ae_assignment entry)"
    using find_index_Some[OF l] b(1) by simp_all
  show "distance > 0 \<Longrightarrow> as_kind (ae_assignment entry) = Inherited" using far by blast
qed

lemma collect_loop_ok:
  assumes "set ids \<subseteq> set (bucket_of (im_assignments_by_subject img) subject)"
    and "\<forall>c \<in> set (fst acc). candidate_ok img scopes c"
  shows "\<forall>c \<in> set (fst (collect_loop img scopes subject distance ids steps acc)). candidate_ok img scopes c"
  using assms
proof (induction img scopes subject distance ids steps acc rule: collect_loop.induct)
  case (2 img scopes subject distance i ids steps accepted rejected)
  show ?case
  proof (cases "om_find (im_assignments img) i")
    case None
    then show ?thesis using 2(1)[OF None] 2(3,4) by simp
  next
    case (Some entry)
    have ok: "candidate_ok img scopes \<lparr>ca_level = level, ca_entry = entry, ca_via_subject = subject, ca_distance = distance\<rparr>"
      if "judge img scopes distance entry = Accept level" for level
      using judge_accept[OF that] Some 2(3) by (auto simp: candidate_ok_def ca_assignment_def)
    show ?thesis
    proof (cases "Suc steps > max_query_steps (im_limits img)")
      case False
      let ?acc = "case judge img scopes distance entry of Skip \<Rightarrow> (accepted, rejected)
         | Refuse code detail auth \<Rightarrow> (accepted, rejected @ [rejection entry subject code detail auth])
         | Accept level \<Rightarrow> (accepted @ [\<lparr>ca_level = level, ca_entry = entry, ca_via_subject = subject,
             ca_distance = distance\<rparr>], rejected)"
      have "\<forall>c \<in> set (fst ?acc). candidate_ok img scopes c"
        using 2(4) ok by (cases "judge img scopes distance entry") simp_all
      then have "\<forall>c \<in> set (fst (collect_loop img scopes subject distance ids (Suc steps) ?acc)). candidate_ok img scopes c"
        using 2(2)[OF Some False] 2(3) by simp
      then show ?thesis using Some False by simp
    qed (use Some 2(4) in simp)
  qed
qed simp

lemma collect_for_subject_ok:
  "\<forall>c \<in> set (fst acc). candidate_ok img scopes c \<Longrightarrow>
     \<forall>c \<in> set (fst (collect_for_subject img scopes subject distance acc)). candidate_ok img scopes c"
  using collect_loop_ok[of "bucket_of (im_assignments_by_subject img) subject" img subject acc scopes distance 0]
  by (cases "om_find (im_assignments_by_subject img) subject") (simp_all add: collect_for_subject_def bucket_of_def)

lemma collect_ancestors_ok:
  "\<forall>c \<in> set (fst acc). candidate_ok img scopes c \<Longrightarrow>
     \<forall>c \<in> set (fst (collect_ancestors img scopes ancestors acc)). candidate_ok img scopes c"
proof (induction img scopes ancestors acc rule: collect_ancestors.induct)
  case (2 img scopes subject distance rest acc)
  let ?acc' = "collect_for_subject img scopes subject distance acc"
  have ok: "\<forall>c \<in> set (fst ?acc'). candidate_ok img scopes c" using 2(2) by (rule collect_for_subject_ok)
  then show ?case using 2(1)[OF refl _ ok] by (auto simp: Let_def)
qed simp

lemma gather_ok:
  assumes "gather img q scopes = Inr ev"
  shows "\<forall>c \<in> set (fst ev). candidate_ok img scopes c"
  using assms collect_for_subject_ok[of "([], [])" img scopes "qu_subject q" 0]
    collect_ancestors_ok[of "collect_for_subject img scopes (qu_subject q) 0 ([], [])" img scopes]
  by (auto simp: gather_def Let_def split: if_splits sum.splits)

lemma filter_step_fst: "fst (filter_step accepted c acc) = fst acc \<or> fst (filter_step accepted c acc) = fst acc @ [c]"
  by (auto simp: filter_step_def Let_def)

lemma filter_exceptions_subset: "set (fst (filter_exceptions ev)) \<subseteq> set (fst ev)"
proof -
  have "set (fst (fold (filter_step A) cs acc)) \<subseteq> set (fst acc) \<union> set cs" for A cs acc
  proof (induction cs arbitrary: acc)
    case (Cons c cs)
    have "set (fst (fold (filter_step A) (c # cs) acc)) \<subseteq> set (fst (filter_step A c acc)) \<union> set cs"
      unfolding fold_simps by (rule Cons)
    then show ?case using filter_step_fst[of A c acc] by auto
  qed simp
  from this[of "fst ev" "fst ev" "([], snd ev)"] show ?thesis by (simp add: filter_exceptions_def)
qed

section \<open>The deciding level\<close>

lemma foldl_min_level:
  "foldl (\<lambda>l c. min l (ca_level c)) l0 cs \<le> l0 \<and> (\<forall>c \<in> set cs. foldl (\<lambda>l c. min l (ca_level c)) l0 cs \<le> ca_level c) \<and>
   (foldl (\<lambda>l c. min l (ca_level c)) l0 cs = l0 \<or> foldl (\<lambda>l c. min l (ca_level c)) l0 cs \<in> ca_level ` set cs)"
proof (induction cs arbitrary: l0)
  case (Cons c cs)
  from Cons[of "min l0 (ca_level c)"] show ?case by (auto simp: min_def split: if_splits)
qed simp

lemma narrowest_level:
  assumes "accepted \<noteq> []"
  shows "narrowest_level accepted \<in> ca_level ` set accepted" "c \<in> set accepted \<Longrightarrow> narrowest_level accepted \<le> ca_level c"
  using assms foldl_min_level[of "ca_level (hd accepted)" accepted] by (auto simp: narrowest_level_def)

definition best_level :: "state_image \<Rightarrow> scope_id list \<Rightarrow> nat option \<Rightarrow> candidate \<Rightarrow> nat option" where
  "best_level img scopes best c =
     (if non_overridable img (scopes ! ca_level c) \<and> (case best of None \<Rightarrow> True | Some b \<Rightarrow> ca_level c < b)
      then Some (ca_level c) else best)"

lemma authoritative_level_fold:
  "authoritative_level img scopes accepted = foldl (best_level img scopes) None accepted"
  by (simp add: authoritative_level_def best_level_def[abs_def])

lemma best_level_fold:
  "(\<forall>l. foldl (best_level img scopes) best cs = Some l \<longrightarrow>
      best = Some l \<or> (\<exists>c \<in> set cs. ca_level c = l \<and> non_overridable img (scopes ! l))) \<and>
   (\<forall>b. best = Some b \<longrightarrow> (\<exists>l. foldl (best_level img scopes) best cs = Some l \<and> l \<le> b)) \<and>
   (\<forall>c \<in> set cs. non_overridable img (scopes ! ca_level c) \<longrightarrow>
      (\<exists>l. foldl (best_level img scopes) best cs = Some l \<and> l \<le> ca_level c))"
proof (induction cs arbitrary: best)
  case (Cons c cs)
  let ?b = "best_level img scopes best c"
  have IH1: "foldl (best_level img scopes) ?b cs = Some l \<Longrightarrow>
      ?b = Some l \<or> (\<exists>c \<in> set cs. ca_level c = l \<and> non_overridable img (scopes ! l))" for l
    using Cons[of ?b] by blast
  have IH2: "?b = Some b \<Longrightarrow> \<exists>l. foldl (best_level img scopes) ?b cs = Some l \<and> l \<le> b" for b
    using Cons[of ?b] by blast
  have IH3: "c' \<in> set cs \<Longrightarrow> non_overridable img (scopes ! ca_level c') \<Longrightarrow>
      \<exists>l. foldl (best_level img scopes) ?b cs = Some l \<and> l \<le> ca_level c'" for c'
    using Cons[of ?b] by blast
  have b1: "?b = Some l \<Longrightarrow> best = Some l \<or> (ca_level c = l \<and> non_overridable img (scopes ! l))" for l
    by (auto simp: best_level_def split: if_splits)
  have b2: "\<exists>b'. ?b = Some b' \<and> b' \<le> b" if "best = Some b" for b
    using that by (auto simp: best_level_def)
  have b3: "\<exists>b'. ?b = Some b' \<and> b' \<le> ca_level c" if "non_overridable img (scopes ! ca_level c)"
    using that by (cases best) (auto simp: best_level_def)
  show ?case
  proof (intro conjI allI impI ballI)
    show "best = Some l \<or> (\<exists>c' \<in> set (c # cs). ca_level c' = l \<and> non_overridable img (scopes ! l))"
      if "foldl (best_level img scopes) best (c # cs) = Some l" for l
      using IH1[of l] b1[of l] that by auto
    show "\<exists>l. foldl (best_level img scopes) best (c # cs) = Some l \<and> l \<le> b" if "best = Some b" for b
      using b2[OF that] IH2 by (metis foldl_Cons le_trans)
    show "\<exists>l. foldl (best_level img scopes) best (c # cs) = Some l \<and> l \<le> ca_level c'"
      if "c' \<in> set (c # cs)" "non_overridable img (scopes ! ca_level c')" for c'
      using that b3 IH2 IH3[of c'] by (metis foldl_Cons le_trans set_ConsD)
  qed
qed simp

text \<open>The deciding level carries evidence; it is the narrowest level, or, when some level with
  evidence is non-overridable, the narrowest of those.\<close>

lemma deciding_level_spec:
  assumes "accepted \<noteq> []"
  shows "deciding_level img scopes accepted \<in> ca_level ` set accepted"
    and "\<forall>c \<in> set accepted. \<not> non_overridable img (scopes ! ca_level c) \<Longrightarrow> c \<in> set accepted \<Longrightarrow>
      deciding_level img scopes accepted \<le> ca_level c"
    and "c \<in> set accepted \<Longrightarrow> non_overridable img (scopes ! ca_level c) \<Longrightarrow>
      non_overridable img (scopes ! deciding_level img scopes accepted) \<and>
      deciding_level img scopes accepted \<le> ca_level c"
proof -
  note f = best_level_fold[of img scopes None accepted, folded authoritative_level_fold]
  show "deciding_level img scopes accepted \<in> ca_level ` set accepted"
    using f narrowest_level(1)[OF assms]
    by (cases "authoritative_level img scopes accepted") (auto simp: deciding_level_def)
  show "deciding_level img scopes accepted \<le> ca_level c"
    if "\<forall>c \<in> set accepted. \<not> non_overridable img (scopes ! ca_level c)" "c \<in> set accepted"
  proof -
    have "authoritative_level img scopes accepted = None"
      using f that(1) by (cases "authoritative_level img scopes accepted") auto
    then show ?thesis using narrowest_level(2)[OF assms that(2)] by (simp add: deciding_level_def)
  qed
  show "non_overridable img (scopes ! deciding_level img scopes accepted) \<and> deciding_level img scopes accepted \<le> ca_level c"
    if "c \<in> set accepted" "non_overridable img (scopes ! ca_level c)"
    using f that by (fastforce simp: deciding_level_def)
qed

section \<open>The winner\<close>

lemma foldl_best:
  assumes trans: "\<And>i j k. better i j \<Longrightarrow> better j k \<Longrightarrow> better i k" and irrefl: "\<And>i. \<not> better i i"
  shows "foldl (\<lambda>w i. if better i w then i else w) 0 [0 ..< Suc n] \<le> n \<and>
    (\<forall>i \<le> n. \<not> better i (foldl (\<lambda>w i. if better i w then i else w) 0 [0 ..< Suc n]))"
proof (induction n)
  case 0
  show ?case using irrefl by simp
next
  case (Suc n)
  let ?r = "foldl (\<lambda>w i. if better i w then i else w) 0 [0 ..< Suc n]"
  have step: "foldl (\<lambda>w i. if better i w then i else w) 0 [0 ..< Suc (Suc n)] = (if better (Suc n) ?r then Suc n else ?r)"
    by simp
  have "\<not> better i (if better (Suc n) ?r then Suc n else ?r)" if "i \<le> Suc n" for i
  proof (cases "i = Suc n")
    case True
    then show ?thesis using irrefl by simp
  next
    case False
    then have "\<not> better i ?r" using Suc that by simp
    then show ?thesis using trans[of i "Suc n" ?r] by auto
  qed
  then show ?case unfolding step using Suc by auto
qed

definition class_rank :: "state_image \<Rightarrow> class_id \<Rightarrow> u32" where
  "class_rank img c =
     (case om_find (im_classes img) c of None \<Rightarrow> 0 | Some e \<Rightarrow> rank_value (cd_precedence (ce_definition e)))"

lemma pick_higher_spec:
  assumes "winning \<noteq> []" and "\<forall>c \<in> set winning. om_has (im_classes img) (as_cls (ca_assignment c))"
  shows "pick_higher img winning < length winning \<and>
    (\<forall>c \<in> set winning. class_rank img (as_cls (ca_assignment c)) \<le>
       class_rank img (as_cls (ca_assignment (winning ! pick_higher img winning))))"
proof -
  let ?rank = "\<lambda>i. class_rank img (as_cls (ca_assignment (winning ! i)))"
  have found: "\<exists>e. om_find (im_classes img) (as_cls (ca_assignment (winning ! i))) = Some e" if "i < length winning" for i
    using assms(2) that by (auto simp: om_has_def)
  obtain n where n: "length winning = Suc n" using assms(1) by (cases winning) auto
  let ?f = "\<lambda>w i. case om_find (im_classes img) (as_cls (ca_assignment (winning ! i))) of None \<Rightarrow> w
       | Some node \<Rightarrow> (case om_find (im_classes img) (as_cls (ca_assignment (winning ! w))) of None \<Rightarrow> i
            | Some best \<Rightarrow> if rank_value (cd_precedence (ce_definition node)) > rank_value (cd_precedence (ce_definition best))
                then i else w)"
  let ?g = "\<lambda>w i. if ?rank i > ?rank w then i else w"
  have same: "?f w i = ?g w i" if "w < length winning" "i < length winning" for w i
    using found[OF that(1)] found[OF that(2)] by (auto simp: class_rank_def)
  have "foldl ?f w is = foldl ?g w is \<and> foldl ?g w is < length winning"
    if "w < length winning" "set is \<subseteq> {0 ..< length winning}" for w "is"
    using that
  proof (induction "is" arbitrary: w)
    case (Cons i "is")
    have "?f w i = ?g w i" using same Cons.prems by simp
    moreover have "?g w i < length winning" using Cons.prems by simp
    ultimately show ?case using Cons.IH[of "?g w i"] Cons.prems(2) by (simp only: foldl_Cons) simp
  qed simp
  from this[of 0 "[0 ..< Suc n]"] have pick: "pick_higher img winning = foldl ?g 0 [0 ..< Suc n]"
    by (simp only: pick_higher_def n) simp
  have "pick_higher img winning \<le> n \<and> (\<forall>i \<le> n. \<not> ?rank i > ?rank (pick_higher img winning))"
    unfolding pick by (rule foldl_best) auto
  then show ?thesis using n by (auto simp: in_set_conv_nth not_less less_Suc_eq_le)
qed

lemma pick_id_order_spec:
  assumes "winning \<noteq> []"
  shows "pick_id_order winning < length winning \<and>
    (\<forall>c \<in> set winning. as_id (ca_assignment (winning ! pick_id_order winning)) \<le> as_id (ca_assignment c))"
proof -
  obtain n where n: "length winning = Suc n" using assms by (cases winning) auto
  let ?better = "\<lambda>i w. as_id (ca_assignment (winning ! i)) < as_id (ca_assignment (winning ! w))"
  have "pick_id_order winning \<le> n \<and> (\<forall>i \<le> n. \<not> ?better i (pick_id_order winning))"
    unfolding pick_id_order_def n by (rule foldl_best) auto
  then show ?thesis using n by (auto simp: in_set_conv_nth not_less less_Suc_eq_le)
qed

section \<open>Decisions from evidence\<close>

lemma seal_frame [frame_simps]:
  "de_outcome (seal d) = de_outcome d" "de_authoritative (seal d) = de_authoritative d" "de_cls (seal d) = de_cls d"
  "de_class_generation (seal d) = de_class_generation d" "de_precedence (seal d) = de_precedence d"
  "de_chain (seal d) = de_chain d" "de_conflicts (seal d) = de_conflicts d" "de_reason_code (seal d) = de_reason_code d"
  "de_epoch (seal d) = de_epoch d" "de_state_generation (seal d) = de_state_generation d"
  "de_privileged_class (seal d) = de_privileged_class d" "de_resolution (seal d) = de_resolution d"
  "de_superseded (seal d) = de_superseded d" "de_rejected_evidence (seal d) = de_rejected_evidence d"
  by (simp_all add: seal_def)

text \<open>The class fields of a decision are those of the registered class.\<close>

definition class_bound :: "state_image \<Rightarrow> class_id \<Rightarrow> priority_decision \<Rightarrow> bool" where
  "class_bound img c d \<longleftrightarrow> de_cls d = c \<and>
     (\<exists>e. om_find (im_classes img) c = Some e \<and> de_class_generation d = cd_generation (ce_definition e) \<and>
        de_precedence d = cd_precedence (ce_definition e) \<and> de_privileged_class d = cd_privileged (ce_definition e))"

lemma bind_class_found:
  assumes "om_has (im_classes img) (as_cls (ca_assignment w))"
  shows "class_bound img (as_cls (ca_assignment w)) (bind_class img w d)"
    and "de_authoritative (bind_class img w d) = de_authoritative d" "de_outcome (bind_class img w d) = de_outcome d"
    and "de_conflicts (bind_class img w d) = de_conflicts d"
  using assms by (auto simp: bind_class_def class_bound_def om_has_def)

lemma outcome_flags:
  "de_authoritative (conflict_outcome s w r d) \<longleftrightarrow> w \<noteq> None" "de_outcome (conflict_outcome s w r d) = Out_Conflict"
  "de_conflicts (conflict_outcome s w r d) = de_conflicts d" "de_cls (conflict_outcome s w r d) = de_cls d"
  "de_authoritative (plain_outcome q s c b d)" "de_outcome (plain_outcome q s c b d) =
     (if b then Out_Overridden else if ca_distance c > 0 then Out_Inherited else Out_Assigned)"
  "de_conflicts (plain_outcome q s c b d) = de_conflicts d"
  by (simp_all add: conflict_outcome_def plain_outcome_def Let_def)

text \<open>What \<^verbatim>\<open>decide\<close> returns, by the three cases of the source: no conflict, a conflict the mode
  resolves, and a conflict that is denied.\<close>

definition winners :: "state_image \<Rightarrow> scope_id list \<Rightarrow> candidate list \<Rightarrow> candidate list" where
  "winners img scopes accepted = filter (\<lambda>c. ca_level c = deciding_level img scopes accepted) accepted"

lemma winners_nonempty: "accepted \<noteq> [] \<Longrightarrow> winners img scopes accepted \<noteq> []"
  using deciding_level_spec(1)[of accepted img scopes] by (auto simp: winners_def filter_empty_conv)

lemma decide_spec:
  fixes img q scopes accepted builder base
  defines "W \<equiv> winners img scopes accepted" and "d \<equiv> decide img q scopes accepted builder base"
  defines "res \<equiv> resolve_conflict img q (scopes ! deciding_level img scopes accepted) W"
  assumes ne: "accepted \<noteq> []" and found: "\<forall>c \<in> set accepted. om_has (im_classes img) (as_cls (ca_assignment c))"
  shows "\<not> has_conflict W \<Longrightarrow> de_authoritative d \<and> class_bound img (as_cls (ca_assignment (hd W))) d \<and>
      de_outcome d = (if \<exists>c \<in> set accepted. ca_level c \<noteq> deciding_level img scopes accepted then Out_Overridden
        else if ca_distance (hd W) > 0 then Out_Inherited else Out_Assigned) \<and> de_conflicts d = de_conflicts base"
    and "has_conflict W \<Longrightarrow> fst res = Some i \<Longrightarrow> i < length W \<Longrightarrow> de_authoritative d \<and>
      class_bound img (as_cls (ca_assignment (W ! i))) d \<and> de_outcome d = Out_Conflict \<and>
      de_conflicts d = map conflict_text W"
    and "has_conflict W \<Longrightarrow> fst res = None \<Longrightarrow> \<not> de_authoritative d \<and> de_cls d = de_cls base \<and>
      de_outcome d = Out_Conflict \<and> de_conflicts d = map conflict_text W"
proof -
  have W: "W \<noteq> []" "set W \<subseteq> set accepted" using winners_nonempty[OF ne] by (auto simp: W_def winners_def)
  have hd0: "W ! 0 = hd W" using W(1) by (simp add: hd_conv_nth)
  have has: "om_has (im_classes img) (as_cls (ca_assignment (W ! i)))" if "i < length W" for i
    using found W(2) that nth_mem by blast
  have cb: "class_bound img c (x\<lparr>de_superseded := a, de_chain := b\<rparr>) = class_bound img c x"
    "class_bound img c (seal x) = class_bound img c x" for c x a b
    by (simp_all add: class_bound_def seal_def)
  have empty: "filter (\<lambda>c. ca_level c \<noteq> deciding_level img scopes accepted) accepted \<noteq> [] \<longleftrightarrow>
      (\<exists>c \<in> set accepted. ca_level c \<noteq> deciding_level img scopes accepted)"
    by (auto simp: filter_empty_conv)
  note core = decide_def Let_def winners_def[symmetric] W_def[symmetric] frame_simps cb outcome_flags
  show "de_authoritative d \<and> class_bound img (as_cls (ca_assignment (hd W))) d \<and>
      de_outcome d = (if \<exists>c \<in> set accepted. ca_level c \<noteq> deciding_level img scopes accepted then Out_Overridden
        else if ca_distance (hd W) > 0 then Out_Inherited else Out_Assigned) \<and> de_conflicts d = de_conflicts base"
    if "\<not> has_conflict W"
    using that bind_class_found[OF has[of 0]] W(1) unfolding d_def
    by (simp add: core hd0 empty del: filter_empty_conv)
  show "de_authoritative d \<and> class_bound img (as_cls (ca_assignment (W ! i))) d \<and> de_outcome d = Out_Conflict \<and>
      de_conflicts d = map conflict_text W"
    if "has_conflict W" "fst res = Some i" "i < length W"
    using that bind_class_found[OF has[of i]] unfolding d_def res_def by (simp add: core)
  show "\<not> de_authoritative d \<and> de_cls d = de_cls base \<and> de_outcome d = Out_Conflict \<and> de_conflicts d = map conflict_text W"
    if "has_conflict W" "fst res = None"
    using that unfolding d_def res_def by (simp add: core)
qed

lemma resolve_conflict_spec:
  assumes "fst (resolve_conflict img q scope W) = Some i" and "W \<noteq> []"
    and "\<forall>c \<in> set W. om_has (im_classes img) (as_cls (ca_assignment c))"
  shows "i < length W" "\<not> qu_strict_conflicts q" "fst (effective_conflict_mode img scope) \<noteq> Deny"
    and "fst (effective_conflict_mode img scope) = HigherPrecedence \<Longrightarrow> c \<in> set W \<Longrightarrow>
      class_rank img (as_cls (ca_assignment c)) \<le> class_rank img (as_cls (ca_assignment (W ! i)))"
    and "fst (effective_conflict_mode img scope) = AssignmentIdOrder \<Longrightarrow> c \<in> set W \<Longrightarrow>
      as_id (ca_assignment (W ! i)) \<le> as_id (ca_assignment c)"
  using assms pick_higher_spec[of W img] pick_id_order_spec[of W]
  by (cases "fst (effective_conflict_mode img scope)";
      auto simp: resolve_conflict_def case_prod_beta split: if_splits)+

lemma resolve_conflict_denied:
  "fst (resolve_conflict img q scope W) = None \<longleftrightarrow>
     qu_strict_conflicts q \<or> fst (effective_conflict_mode img scope) = Deny"
  by (auto simp: resolve_conflict_def case_prod_beta)

section \<open>The whole evaluation\<close>


text \<open>The early returns and the decisions without accepted evidence.\<close>

lemma reject_query_flags:
  "\<not> de_authoritative (reject_query img code reason)" "de_outcome (reject_query img code reason) = Out_Rejected"
  "de_cls (reject_query img code reason) = id_none" "de_chain (reject_query img code reason) = []"
  by (simp_all add: reject_query_def rejected_decision_def frame_simps decision_default_def)

lemma precheck_refused:
  assumes "precheck img q = Inl d"
  shows "\<not> de_authoritative d" "de_outcome d \<in> {Out_Rejected, Out_Stale}" "de_cls d = id_none" "length (de_chain d) \<le> 1"
proof -
  have stale: "\<not> de_authoritative (stale_decision img c r)" "de_outcome (stale_decision img c r) = Out_Stale"
    "de_cls (stale_decision img c r) = id_none" "de_chain (stale_decision img c r) = []" for c r
    by (simp_all add: stale_decision_def decision_default_def)
  have e: "\<not> de_authoritative x \<and> de_outcome x \<in> {Out_Rejected, Out_Stale} \<and> de_cls x = id_none \<and> length (de_chain x) \<le> 1"
    if "check_query_epoch img q = Inl x" for x
    using that stale by (auto simp: check_query_epoch_def Let_def reject_query_flags frame_simps split: option.splits if_splits)
  have r: "\<not> de_authoritative x \<and> de_outcome x \<in> {Out_Rejected, Out_Stale} \<and> de_cls x = id_none \<and> length (de_chain x) \<le> 1"
    if "check_required_generations img q = Inl x" for x
    using that stale by (auto simp: check_required_generations_def Let_def frame_simps split: if_splits)
  have "\<not> de_authoritative d \<and> de_outcome d \<in> {Out_Rejected, Out_Stale} \<and> de_cls d = id_none \<and> length (de_chain d) \<le> 1"
    using assms e[of d] r[of d]
    by (auto simp: precheck_def rbind_def reject_query_flags stale frame_simps split: if_splits sum.splits option.splits)
  then show "\<not> de_authoritative d" "de_outcome d \<in> {Out_Rejected, Out_Stale}" "de_cls d = id_none" "length (de_chain d) \<le> 1"
    by blast+
qed

lemma gather_refused:
  assumes "gather img q scopes = Inl d"
  shows "\<not> de_authoritative d" "de_outcome d = Out_Rejected" "de_cls d = id_none" "de_chain d = []"
  using assms by (auto simp: gather_def Let_def reject_query_flags split: if_splits sum.splits)

lemma base_decision_flags:
  "\<not> de_authoritative (base_decision img q r)" "de_cls (base_decision img q r) = id_none" "de_chain (base_decision img q r) = []"
  "de_conflicts (base_decision img q r) = []"
  by (simp_all add: base_decision_def decision_default_def)

lemma resolve_default_bound:
  assumes "df_found (resolve_unknown_default img scope)" "df_available (resolve_unknown_default img scope)"
  shows "\<exists>e. om_find (im_classes img) (df_cls (resolve_unknown_default img scope)) = Some e \<and>
      df_class_generation (resolve_unknown_default img scope) = cd_generation (ce_definition e) \<and>
      df_precedence (resolve_unknown_default img scope) = cd_precedence (ce_definition e) \<and>
      df_privileged (resolve_unknown_default img scope) = cd_privileged (ce_definition e)"
    and "class_visible img (df_cls (resolve_unknown_default img scope)) scope"
  using assms by (auto simp: resolve_unknown_default_def default_none_def Let_def split: sum.splits option.splits)

lemma no_evidence_flags:
  fixes img q rejected builder base
  defines "d \<equiv> no_evidence img q rejected builder base"
  defines "f \<equiv> resolve_unknown_default img (qu_scope q)"
  assumes base: "\<not> de_authoritative base" "de_cls base = id_none"
  shows "de_authoritative d \<longleftrightarrow> rejected = [] \<and> df_found f \<and> df_available f"
    and "de_authoritative d \<Longrightarrow> class_bound img (df_cls f) d"
    and "\<not> de_authoritative d \<Longrightarrow> de_cls d = id_none"
    and "de_outcome d = (if rejected \<noteq> [] then if list_ex rj_authority_related rejected then Out_Fenced else Out_Stale
       else if df_found f \<and> df_available f then Out_Assigned else Out_Unknown)"
  using base resolve_default_bound[of img "qu_scope q"]
  by (auto simp: d_def f_def no_evidence_def Let_def frame_simps class_bound_def)

text \<open>The evidence an evaluation decides on, once the checks before it have passed.\<close>

lemma evaluate_decides:
  assumes "precheck img q = Inr (g, scopes)" and "gather img q scopes = Inr gathered"
    and "fst (filter_exceptions gathered) \<noteq> []"
  shows "evaluate_query img q = decide img q scopes (fst (filter_exceptions gathered))
    (evidence_chain img q g (filter_exceptions gathered))
    (base_decision img q (take (max_query_steps (im_limits img)) (snd (filter_exceptions gathered))))"
  using assms by (simp add: evaluate_query_def Let_def)

lemma accepted_ok:
  assumes "gather img q scopes = Inr gathered" and "c \<in> set (fst (filter_exceptions gathered))"
  shows "candidate_ok img scopes c"
  using gather_ok[OF assms(1)] filter_exceptions_subset[of gathered] assms(2) by blast

lemma candidate_ok_class: "candidate_ok img scopes c \<Longrightarrow> om_has (im_classes img) (as_cls (ca_assignment c))"
  by (auto simp: candidate_ok_def usable_def generations_current_def om_has_def ca_assignment_def)

lemma evaluate_cases:
  obtains (checked) d where "precheck img q = Inl d" and "evaluate_query img q = d"
  | (broken) g scopes d where "precheck img q = Inr (g, scopes)" and "gather img q scopes = Inl d" and "evaluate_query img q = d"
  | (bare) g scopes gathered where "precheck img q = Inr (g, scopes)" and "gather img q scopes = Inr gathered"
      and "fst (filter_exceptions gathered) = []"
      and "evaluate_query img q = no_evidence img q (take (max_query_steps (im_limits img)) (snd (filter_exceptions gathered)))
        (evidence_chain img q g (filter_exceptions gathered))
        (base_decision img q (take (max_query_steps (im_limits img)) (snd (filter_exceptions gathered))))"
  | (decided) g scopes gathered where "precheck img q = Inr (g, scopes)" and "gather img q scopes = Inr gathered"
      and "fst (filter_exceptions gathered) \<noteq> []"
      and "evaluate_query img q = decide img q scopes (fst (filter_exceptions gathered))
        (evidence_chain img q g (filter_exceptions gathered))
        (base_decision img q (take (max_query_steps (im_limits img)) (snd (filter_exceptions gathered))))"
proof (cases "precheck img q")
  case (Inl d)
  then show ?thesis using checked by (simp add: evaluate_query_def)
next
  case (Inr x)
  obtain g scopes where x: "x = (g, scopes)" by (cases x)
  show ?thesis
  proof (cases "gather img q scopes")
    case (Inl d)
    then show ?thesis using broken[of g scopes d] \<open>precheck img q = Inr x\<close> x by (simp add: evaluate_query_def)
  next
    case (Inr gathered)
    then show ?thesis
      using bare[of g scopes gathered] decided[of g scopes gathered] \<open>precheck img q = Inr x\<close> x
      by (cases "fst (filter_exceptions gathered) = []") (simp_all add: evaluate_query_def Let_def)
  qed
qed


section \<open>Determinism and bounds\<close>

lemma digest_of_seal: "de_digest (seal d) = compute_decision_digest (seal d)"
  by (simp add: seal_def compute_decision_digest_def)

lemma precheck_sealed: "precheck img q = Inl d \<Longrightarrow> de_digest d = compute_decision_digest d"
  by (auto simp: precheck_def rbind_def check_query_epoch_def check_required_generations_def reject_query_def
      rejected_decision_def digest_of_seal Let_def split: if_splits sum.splits option.splits)

lemma gather_sealed: "gather img q scopes = Inl d \<Longrightarrow> de_digest d = compute_decision_digest d"
  by (auto simp: gather_def reject_query_def rejected_decision_def digest_of_seal Let_def split: if_splits sum.splits)

lemma decided_sealed:
  "de_digest (decide img q scopes accepted b base) = compute_decision_digest (decide img q scopes accepted b base)"
  "de_digest (no_evidence img q r b base) = compute_decision_digest (no_evidence img q r b base)"
  by (simp_all add: decide_def no_evidence_def Let_def digest_of_seal split: prod.splits)

text \<open>The builder never exceeds its budget.\<close>

definition within_budget :: "chain_builder \<Rightarrow> bool" where
  "within_budget b \<longleftrightarrow> length (cb_steps b) \<le> cb_limit b \<and> (\<not> cb_truncated b \<longrightarrow> length (cb_steps b) < cb_limit b)"

lemma chain_push_limit: "cb_limit (chain_push s b) = cb_limit b"
  by (simp add: chain_push_def)

lemma chain_push_budget: "within_budget b \<Longrightarrow> within_budget (chain_push s b)"
  by (auto simp: within_budget_def chain_push_def)

lemma chain_fold_budget:
  "within_budget b \<Longrightarrow> within_budget (fold (\<lambda>x. chain_push (f x)) xs b) \<and> cb_limit (fold (\<lambda>x. chain_push (f x)) xs b) = cb_limit b"
  by (induction xs arbitrary: b) (simp_all add: chain_push_budget chain_push_limit)

lemma evidence_chain_budget:
  "within_budget (evidence_chain img q g ev)" "cb_limit (evidence_chain img q g ev) = step_budget (im_limits img) q"
proof -
  have "within_budget \<lparr>cb_steps = [], cb_limit = step_budget (im_limits img) q, cb_truncated = False\<rparr>"
    by (simp add: within_budget_def step_budget_def)
  note b1 = chain_push_budget[OF this]
  let ?accept = "\<lambda>c. make_step ''candidate.accept'' ''binding_ok'' (describe_assignment (ca_assignment c)) (ca_entry c) (ca_via_subject c)"
  let ?reject = "\<lambda>r. make_step ''candidate.reject'' (rj_code r) (rj_detail r) (rj_entry r) (rj_via_subject r)"
  note b2 = chain_fold_budget[OF b1, of ?accept "fst ev"]
  note b3 = chain_fold_budget[OF conjunct1[OF b2], of ?reject "snd ev"]
  show "within_budget (evidence_chain img q g ev)"
    unfolding evidence_chain_def Let_def by (rule conjunct1[OF b3])
  show "cb_limit (evidence_chain img q g ev) = step_budget (im_limits img) q"
    unfolding evidence_chain_def Let_def conjunct2[OF b3] conjunct2[OF b2] chain_push_limit by simp
qed

lemma decided_chain_bound:
  assumes "within_budget b"
  shows "length (de_chain (decide img q scopes accepted b base)) \<le> cb_limit b"
    and "length (de_chain (no_evidence img q r b base)) \<le> cb_limit b"
proof -
  have push: "length (cb_steps (chain_push s x)) \<le> cb_limit x" if "within_budget x" for s x
    using chain_push_budget[OF that, of s] chain_push_limit[of s x] by (simp add: within_budget_def)
  then show "length (de_chain (decide img q scopes accepted b base)) \<le> cb_limit b"
    using assms by (simp add: decide_def Let_def frame_simps)
  show "length (de_chain (no_evidence img q r b base)) \<le> cb_limit b"
    using push[OF assms] push[OF chain_push_budget[OF assms]] chain_push_limit[of _ b]
    by (simp add: no_evidence_def Let_def frame_simps)
qed

section \<open>No evidence is overlooked\<close>

lemma judge_complete:
  assumes "usable img entry" and "as_scope (ae_assignment entry) \<in> set scopes"
    and "distance > 0 \<Longrightarrow> as_kind (ae_assignment entry) = Inherited"
  shows "\<exists>level. judge img scopes distance entry = Accept level"
proof -
  obtain l where l: "find_index (as_scope (ae_assignment entry)) scopes = Some l"
    using assms(2) find_index_None[of "as_scope (ae_assignment entry)" scopes] by (cases "find_index (as_scope (ae_assignment entry)) scopes") auto
  have "judge_bindings img entry l = Accept l"
    using assms(1) by (auto simp: usable_def judge_bindings_def generations_current_def Let_def split: option.splits)
  then have "judge img scopes distance entry = Accept l"
    using assms(1,3) l by (auto simp: judge_def usable_def publisher_granted_def Let_def)
  then show ?thesis ..
qed

lemma collect_loop_keeps: "set (fst acc) \<subseteq> set (fst (collect_loop img scopes subject distance ids steps acc))"
proof (induction img scopes subject distance ids steps acc rule: collect_loop.induct)
  case (2 img scopes subject distance i ids steps accepted rejected)
  show ?case
  proof (cases "om_find (im_assignments img) i")
    case None
    then show ?thesis using 2(1)[OF None] by simp
  next
    case (Some entry)
    show ?thesis
    proof (cases "Suc steps > max_query_steps (im_limits img)")
      case False
      then show ?thesis using 2(2)[OF Some False] Some by (cases "judge img scopes distance entry") auto
    qed (use Some in simp)
  qed
qed simp

lemma collect_loop_complete:
  assumes "i \<in> set ids" and "om_find (im_assignments img) i = Some entry"
    and "judge img scopes distance entry = Accept level" and "steps + length ids \<le> max_query_steps (im_limits img)"
  shows "\<lparr>ca_level = level, ca_entry = entry, ca_via_subject = subject, ca_distance = distance\<rparr>
    \<in> set (fst (collect_loop img scopes subject distance ids steps acc))"
  using assms
proof (induction ids arbitrary: steps acc)
  case (Cons j ids)
  obtain accepted rejected where acc: "acc = (accepted, rejected)" by (cases acc)
  show ?case
  proof (cases "j = i")
    case True
    then show ?thesis
      using Cons.prems collect_loop_keeps[of "(accepted @ [\<lparr>ca_level = level, ca_entry = entry, ca_via_subject = subject,
        ca_distance = distance\<rparr>], rejected)" img scopes subject distance ids "Suc steps"]
      by (auto simp: acc)
  next
    case False
    then show ?thesis using Cons by (auto simp: acc split: option.splits)
  qed
qed simp

section \<open>Where evidence may come from\<close>




















section \<open>Properties\<close>


text \<open>A decision that names no class without authority, and whose refusing outcomes carry none.\<close>

definition non_authority_silent :: "priority_decision \<Rightarrow> bool" where
  "non_authority_silent d \<longleftrightarrow> (\<not> de_authoritative d \<longrightarrow> de_cls d = id_none) \<and>
     (de_outcome d \<in> {Out_Unknown, Out_Stale, Out_Fenced, Out_Rejected} \<longrightarrow> \<not> de_authoritative d)"

lemma decide_silent:
  assumes "accepted \<noteq> []" "\<forall>c \<in> set accepted. om_has (im_classes img) (as_cls (ca_assignment c))" "de_cls base = id_none"
  shows "non_authority_silent (decide img q scopes accepted builder base)"
proof -
  note spec = decide_spec[OF assms(1,2), where scopes = scopes and q = q]
  let ?W = "winners img scopes accepted"
  let ?res = "fst (resolve_conflict img q (scopes ! deciding_level img scopes accepted) ?W)"
  have W: "?W \<noteq> []" "set ?W \<subseteq> set accepted" using winners_nonempty[OF assms(1)] by (auto simp: winners_def)
  consider (calm) "\<not> has_conflict ?W" | (denied) "has_conflict ?W" "?res = None" | (resolved) i where "has_conflict ?W" "?res = Some i"
    by (cases ?res) auto
  then show ?thesis
  proof cases
    case calm
    then show ?thesis using spec(1) by (auto simp: non_authority_silent_def split: if_splits)
  next
    case denied
    then show ?thesis using spec(3) assms(3) by (simp add: non_authority_silent_def)
  next
    case (resolved i)
    have "i < length ?W" using resolve_conflict_spec(1)[OF resolved(2) W(1)] assms(2) W(2) by blast
    then show ?thesis using spec(2)[OF resolved] by (simp add: non_authority_silent_def)
  qed
qed

text \<open>C2: without authority the fabric names no class. A decision that is not authoritative
  carries the empty class; outcomes UNKNOWN, STALE, FENCED and REJECTED are never authoritative;
  and a degraded state rejects every query.\<close>

theorem non_authoritative_names_no_class:
  "(\<not> de_authoritative (evaluate_query img q) \<longrightarrow> de_cls (evaluate_query img q) = id_none) \<and>
   (de_outcome (evaluate_query img q) \<in> {Out_Unknown, Out_Stale, Out_Fenced, Out_Rejected} \<longrightarrow>
      \<not> de_authoritative (evaluate_query img q)) \<and>
   (im_health img \<noteq> Healthy \<longrightarrow> de_outcome (evaluate_query img q) = Out_Rejected)"
proof (intro conjI impI)
  show "de_outcome (evaluate_query img q) = Out_Rejected" if "im_health img \<noteq> Healthy"
    using that by (simp add: evaluate_query_def precheck_def reject_query_flags)
  have "non_authority_silent (evaluate_query img q)"
  proof (cases rule: evaluate_cases[of img q])
    case (checked d)
    then show ?thesis using precheck_refused by (simp add: non_authority_silent_def)
  next
    case (broken g scopes d)
    then show ?thesis using gather_refused by (simp add: non_authority_silent_def)
  next
    case (bare g scopes gathered)
    let ?r = "take (max_query_steps (im_limits img)) (snd (filter_exceptions gathered))"
    note flags = no_evidence_flags[OF base_decision_flags(1,2), of img q ?r "evidence_chain img q g (filter_exceptions gathered)" img q ?r]
    show ?thesis unfolding bare(4) using flags(1,3,4) by (simp add: non_authority_silent_def split: if_splits)
  next
    case (decided g scopes gathered)
    have "\<forall>c \<in> set (fst (filter_exceptions gathered)). om_has (im_classes img) (as_cls (ca_assignment c))"
      using accepted_ok[OF decided(2)] candidate_ok_class by blast
    then show ?thesis unfolding decided(4) using decide_silent[OF decided(3)] base_decision_flags by blast
  qed
  then show "\<not> de_authoritative (evaluate_query img q) \<Longrightarrow> de_cls (evaluate_query img q) = id_none"
    "de_outcome (evaluate_query img q) \<in> {Out_Unknown, Out_Stale, Out_Fenced, Out_Rejected} \<Longrightarrow>
      \<not> de_authoritative (evaluate_query img q)"
    unfolding non_authority_silent_def by blast+
qed

text \<open>C28: contradictory evidence is always reported and is resolved only as the policy says. When
  the winning candidates at the deciding level name different classes, the outcome is CONFLICT
  and lists every one of them. It carries no authority exactly when the caller is strict or the
  effective mode denies; otherwise the class named is, under the higher-precedence mode, one of
  maximal rank among the contradictory classes, and under the id-order mode that of the smallest
  assignment identifier.\<close>

theorem conflict_reported_and_resolved:
  fixes img q scopes gathered
  defines "accepted \<equiv> fst (filter_exceptions gathered)"
  defines "W \<equiv> winners img scopes accepted"
  defines "mode \<equiv> fst (effective_conflict_mode img (scopes ! deciding_level img scopes accepted))"
  assumes pre: "precheck img q = Inr (g, scopes)" and ev: "gather img q scopes = Inr gathered"
    and conflict: "has_conflict W" "accepted \<noteq> []"
  shows "de_outcome (evaluate_query img q) = Out_Conflict \<and> de_conflicts (evaluate_query img q) = map conflict_text W \<and>
    (de_authoritative (evaluate_query img q) \<longleftrightarrow> \<not> qu_strict_conflicts q \<and> mode \<noteq> Deny) \<and>
    (de_authoritative (evaluate_query img q) \<longrightarrow>
      (\<exists>w \<in> set W. class_bound img (as_cls (ca_assignment w)) (evaluate_query img q) \<and>
        (mode = HigherPrecedence \<longrightarrow>
          (\<forall>c \<in> set W. class_rank img (as_cls (ca_assignment c)) \<le> class_rank img (as_cls (ca_assignment w)))) \<and>
        (mode = AssignmentIdOrder \<longrightarrow> (\<forall>c \<in> set W. as_id (ca_assignment w) \<le> as_id (ca_assignment c)))))"
proof -
  have found: "\<forall>c \<in> set accepted. om_has (im_classes img) (as_cls (ca_assignment c))"
    using accepted_ok[OF ev] candidate_ok_class unfolding accepted_def by blast
  have W: "W \<noteq> []" "\<forall>c \<in> set W. om_has (im_classes img) (as_cls (ca_assignment c))"
    using winners_nonempty[OF conflict(2)] found by (auto simp: W_def winners_def)
  have eval: "evaluate_query img q = decide img q scopes accepted (evidence_chain img q g (filter_exceptions gathered))
      (base_decision img q (take (max_query_steps (im_limits img)) (snd (filter_exceptions gathered))))"
    using evaluate_decides[OF pre ev] conflict(2) by (simp add: accepted_def)
  note spec = decide_spec[OF conflict(2) found, where scopes = scopes and q = q, folded W_def]
  show ?thesis
  proof (cases "fst (resolve_conflict img q (scopes ! deciding_level img scopes accepted) W)")
    case None
    then show ?thesis
      unfolding eval using spec(3)[OF conflict(1)] resolve_conflict_denied[of img q _ W] by (auto simp: mode_def)
  next
    case (Some i)
    note r = resolve_conflict_spec[OF Some W]
    show ?thesis
      unfolding eval using spec(2)[OF conflict(1) Some r(1)] r nth_mem[OF r(1)] by (auto simp: mode_def intro!: bexI[of _ "W ! i"])
  qed
qed

text \<open>C37: the narrowest scope decides, unless a scope with evidence forbids being overridden. The
  deciding level always carries accepted evidence; without a non-overridable scope among those
  with evidence it is the narrowest of them; otherwise it is a non-overridable one, and no
  narrower non-overridable scope has evidence.\<close>

theorem deciding_scope_correct:
  assumes "accepted \<noteq> []"
  shows "(\<exists>c \<in> set accepted. ca_level c = deciding_level img scopes accepted) \<and>
    (if \<exists>c \<in> set accepted. non_overridable img (scopes ! ca_level c)
     then non_overridable img (scopes ! deciding_level img scopes accepted) \<and>
       (\<forall>c \<in> set accepted. non_overridable img (scopes ! ca_level c) \<longrightarrow> deciding_level img scopes accepted \<le> ca_level c)
     else \<forall>c \<in> set accepted. deciding_level img scopes accepted \<le> ca_level c)"
  using deciding_level_spec[OF assms, where img = img and scopes = scopes] by (auto simp: image_iff)

text \<open>valid evidence is never overlooked. If a stored assignment of the queried subject's
  bucket is usable and its scope is on the chain, and the bucket fits the scan budget, then the
  evaluation collects it as a candidate at its level of the chain.\<close>

theorem usable_evidence_collected:
  assumes "usable img entry" and "om_find (im_assignments img) i = Some entry"
    and "as_scope (ae_assignment entry) \<in> set scopes"
    and "om_find (im_assignments_by_subject img) subject = Some bucket" and "i \<in> set bucket"
    and "length bucket \<le> max_query_steps (im_limits img)"
  shows "\<exists>level. scopes ! level = as_scope (ae_assignment entry) \<and>
    \<lparr>ca_level = level, ca_entry = entry, ca_via_subject = subject, ca_distance = 0\<rparr>
      \<in> set (fst (collect_for_subject img scopes subject 0 acc))"
proof -
  obtain level where level: "judge img scopes 0 entry = Accept level"
    using judge_complete[OF assms(1,3), of 0] by auto
  show ?thesis
    using collect_loop_complete[OF assms(5,2) level, of 0 subject acc] assms(4,6) judge_accept(3)[OF level]
    by (auto simp: collect_for_subject_def)
qed

text \<open>every decision is sealed and reproducible. Its digest is the digest of its own content,
  and the answer is a function of the state and of the question alone: the caller's correlation
  value does not influence it.\<close>

theorem decisions_sealed_and_deterministic:
  "de_digest (evaluate_query img q) = compute_decision_digest (evaluate_query img q) \<and>
   evaluate_query img (q\<lparr>qu_correlation := c\<rparr>) = evaluate_query img q"
proof
  show "de_digest (evaluate_query img q) = compute_decision_digest (evaluate_query img q)"
    by (cases rule: evaluate_cases[of img q]) (auto simp: precheck_sealed gather_sealed decided_sealed)
  have q: "qu_subject (q\<lparr>qu_correlation := c\<rparr>) = qu_subject q" "qu_scope (q\<lparr>qu_correlation := c\<rparr>) = qu_scope q"
    "qu_subject_generation (q\<lparr>qu_correlation := c\<rparr>) = qu_subject_generation q"
    "qu_as_of_epoch (q\<lparr>qu_correlation := c\<rparr>) = qu_as_of_epoch q"
    "qu_require_policy_generation (q\<lparr>qu_correlation := c\<rparr>) = qu_require_policy_generation q"
    "qu_require_scope_generation (q\<lparr>qu_correlation := c\<rparr>) = qu_require_scope_generation q"
    "qu_strict_conflicts (q\<lparr>qu_correlation := c\<rparr>) = qu_strict_conflicts q"
    "qu_max_explanation_steps (q\<lparr>qu_correlation := c\<rparr>) = qu_max_explanation_steps q"
    by simp_all
  have "precheck img (q\<lparr>qu_correlation := c\<rparr>) = precheck img q" "gather img (q\<lparr>qu_correlation := c\<rparr>) = gather img q"
    "no_evidence img (q\<lparr>qu_correlation := c\<rparr>) = no_evidence img q" "decide img (q\<lparr>qu_correlation := c\<rparr>) = decide img q"
    "evidence_chain img (q\<lparr>qu_correlation := c\<rparr>) = evidence_chain img q" "base_decision img (q\<lparr>qu_correlation := c\<rparr>) = base_decision img q"
    unfolding precheck_def check_query_epoch_def check_required_generations_def gather_def[abs_def] no_evidence_def[abs_def]
      decide_def[abs_def] resolve_conflict_def plain_outcome_def evidence_chain_def[abs_def] base_decision_def[abs_def]
      step_budget_def q by (rule refl)+
  note same = this
  show "evaluate_query img (q\<lparr>qu_correlation := c\<rparr>) = evaluate_query img q"
    unfolding evaluate_query_def same by (rule refl)
qed

text \<open>Explanations are bounded. The chain of a decision never has more steps than the caller's
  budget capped by the configured limit, with the floor of two steps the source keeps.\<close>

theorem explanation_bounded:
  "length (de_chain (evaluate_query img q)) \<le> step_budget (im_limits img) q \<and>
   step_budget (im_limits img) q \<le> max 2 (max_explanation_steps (im_limits img))"
proof
  have two: "2 \<le> step_budget (im_limits img) q" by (simp add: step_budget_def)
  show "length (de_chain (evaluate_query img q)) \<le> step_budget (im_limits img) q"
  proof (cases rule: evaluate_cases[of img q])
    case (checked d)
    then show ?thesis using precheck_refused(4) two by fastforce
  next
    case (broken g scopes d)
    then show ?thesis using gather_refused(4) by simp
  next
    case (bare g scopes gathered)
    then show ?thesis using decided_chain_bound(2)[OF evidence_chain_budget(1)] evidence_chain_budget(2) by simp
  next
    case (decided g scopes gathered)
    then show ?thesis using decided_chain_bound(1)[OF evidence_chain_budget(1)] evidence_chain_budget(2) by simp
  qed
  show "step_budget (im_limits img) q \<le> max 2 (max_explanation_steps (im_limits img))" by (simp add: step_budget_def)
qed

end
