(* ===== verification/Samples.thy ===== *)
theory Samples
  imports Decisions
begin

text \<open>
  A small run of the fabric, evaluated step by step: the epoch is established, a publisher is
  granted authority, and it defines a class, a scope and a subject and assigns the class. The
  properties are instantiated on its images.
\<close>

definition boot_a :: boot_id where "boot_a = replicate 16 1"
definition boot_b :: boot_id where "boot_b = replicate 16 2"

definition ops :: publisher_id where "ops = BasicId ''ops''"

definition base_mutation :: mutation where
  "base_mutation = mutation_default\<lparr>mu_epoch := 1, mu_publisher := ops, mu_boot := boot_a, mu_token := 1\<rparr>"

definition m_epoch :: mutation where
  "m_epoch = mutation_default\<lparr>mu_op := AdvanceEpoch, mu_system := True\<rparr>"

definition m_grant :: mutation where
  "m_grant = base_mutation\<lparr>mu_op := GrantAuthority, mu_token := 0, mu_system := True\<rparr>"

definition gold :: priority_class_def where
  "gold = class_default\<lparr>cd_id := BasicId ''gold'', cd_precedence := rank_make 40\<rparr>"

definition m_class :: mutation where "m_class = base_mutation\<lparr>mu_op := DefineClass, mu_cls := gold\<rparr>"

definition root_scope :: policy_scope_def where "root_scope = scope_default\<lparr>sd_id := BasicId ''root''\<rparr>"

definition m_scope :: mutation where "m_scope = base_mutation\<lparr>mu_op := DefineScope, mu_scope := root_scope\<rparr>"

definition host :: subject_def where "host = subject_default\<lparr>ud_id := BasicId ''host''\<rparr>"

definition m_subject :: mutation where "m_subject = base_mutation\<lparr>mu_op := DefineSubject, mu_subject := host\<rparr>"

definition host_gold :: priority_assignment where
  "host_gold = assignment_default\<lparr>as_id := BasicId ''a1'', as_subject := BasicId ''host'', as_subject_generation := 1,
     as_scope := BasicId ''root'', as_scope_generation := 1, as_cls := BasicId ''gold'', as_class_generation := 1\<rparr>"

definition m_assign :: mutation where "m_assign = base_mutation\<lparr>mu_op := Assign, mu_assignment := host_gold\<rparr>"

section \<open>The images\<close>

definition fabric0 :: state_image where "fabric0 = empty_image compiled_limits_ceiling"

definition after :: "state_image \<Rightarrow> mutation \<Rightarrow> state_image" where
  "after img m = fst (apply_mutation img m False)"

definition fabric1 :: state_image where "fabric1 = after fabric0 m_epoch"
definition fabric2 :: state_image where "fabric2 = after fabric1 m_grant"
definition fabric3 :: state_image where "fabric3 = after fabric2 m_class"
definition fabric4 :: state_image where "fabric4 = after fabric3 m_scope"
definition fabric5 :: state_image where "fabric5 = after fabric4 m_subject"
definition fabric6 :: state_image where "fabric6 = after fabric5 m_assign"

lemma reachable_after:
  assumes "reachable limits img"
  shows "reachable limits (after img m)"
proof -
  have "state_step img (after img m)"
    unfolding after_def by (rule state_step.call[where r = "snd (apply_mutation img m False)"]) simp
  with assms show ?thesis by (rule reachable.step)
qed

lemma fabric_reachable:
  shows reach0: "reachable compiled_limits_ceiling fabric0" and reach1: "reachable compiled_limits_ceiling fabric1"
    and reach2: "reachable compiled_limits_ceiling fabric2" and reach3: "reachable compiled_limits_ceiling fabric3"
    and reach4: "reachable compiled_limits_ceiling fabric4" and reach5: "reachable compiled_limits_ceiling fabric5"
    and reach6: "reachable compiled_limits_ceiling fabric6"
proof -
  show r0: "reachable compiled_limits_ceiling fabric0" unfolding fabric0_def by (rule reachable.initial)
  show r1: "reachable compiled_limits_ceiling fabric1" unfolding fabric1_def by (rule reachable_after[OF r0])
  show r2: "reachable compiled_limits_ceiling fabric2" unfolding fabric2_def by (rule reachable_after[OF r1])
  show r3: "reachable compiled_limits_ceiling fabric3" unfolding fabric3_def by (rule reachable_after[OF r2])
  show r4: "reachable compiled_limits_ceiling fabric4" unfolding fabric4_def by (rule reachable_after[OF r3])
  show r5: "reachable compiled_limits_ceiling fabric5" unfolding fabric5_def by (rule reachable_after[OF r4])
  show "reachable compiled_limits_ceiling fabric6" unfolding fabric6_def by (rule reachable_after[OF r5])
qed

lemma admitted:
  assumes "admit img m False = Inr (False, g)" and "apply_op img m False (mutation_provenance img m g) = Inr img1"
  shows "apply_mutation img m False =
    ((with_audit (im_next_audit_sequence img + 1) (audit_after img m g) img1)\<lparr>im_generation := g\<rparr>, Inr ())"
  using assms by (simp add: apply_mutation_def Let_def record_audit_eq with_audit_def[symmetric] apply_op_with_audit)

text \<open>The content of each image, apart from its audit window.\<close>

definition at_step :: "generation \<Rightarrow> audit_entry list \<Rightarrow> state_image \<Rightarrow> state_image" where
  "at_step g log core = (with_audit (g + 1) log core)\<lparr>im_generation := g\<rparr>"

lemmas sample_simps = m_epoch_def m_grant_def m_class_def m_scope_def m_subject_def m_assign_def base_mutation_def
  mutation_default_def gold_def root_scope_def host_def host_gold_def
  class_default_def scope_default_def subject_default_def assignment_default_def

definition provenance_at :: "generation \<Rightarrow> mutation_op \<Rightarrow> provenance" where
  "provenance_at g op = \<lparr>pv_publisher = ops, pv_boot = boot_a, pv_epoch = 1,
     pv_token = (if op = GrantAuthority then 0 else 1), pv_state_generation = g, pv_audit_sequence = g,
     pv_recorded_at_ms = 0, pv_op = mutation_op_to_string op\<rparr>"

definition ops_entry :: authority_entry where
  "ops_entry = \<lparr>he_publisher = ops, he_boot = boot_a, he_epoch = 1, he_token = 1, he_state = Granted,
     he_provenance = provenance_at 2 GrantAuthority\<rparr>"

definition core2 :: state_image where
  "core2 = fabric0\<lparr>im_epoch := 1, im_authority := [((ops, boot_a), ops_entry)], im_next_fencing_token := 2\<rparr>"

definition core3 :: state_image where
  "core3 = core2\<lparr>im_classes := [(BasicId ''gold'', \<lparr>ce_definition = gold\<lparr>cd_generation := 1\<rparr>,
     ce_provenance = provenance_at 3 DefineClass\<rparr>)]\<rparr>"

definition core4 :: state_image where
  "core4 = core3\<lparr>im_scopes := [(BasicId ''root'', \<lparr>se_definition = root_scope\<lparr>sd_generation := 1\<rparr>,
     se_provenance = provenance_at 4 DefineScope\<rparr>)]\<rparr>"

definition core5 :: state_image where
  "core5 = core4\<lparr>im_subjects := [(BasicId ''host'', \<lparr>ue_definition = host\<lparr>ud_generation := 1\<rparr>,
     ue_provenance = provenance_at 5 DefineSubject\<rparr>)]\<rparr>"

definition core6 :: state_image where
  "core6 = core5\<lparr>im_assignments := [(BasicId ''a1'', \<lparr>ae_assignment = host_gold\<lparr>as_generation := 1\<rparr>,
     ae_provenance = provenance_at 6 Assign, ae_active = True, ae_retirement_reason = [],
     ae_retired_by = provenance_none\<rparr>)],
     im_assignments_by_subject := [(BasicId ''host'', [BasicId ''a1''])]\<rparr>"

lemmas core_simps = fabric0_def core2_def core3_def core4_def core5_def core6_def empty_image_def at_step_def
  with_audit_def ops_entry_def provenance_at_def mutation_provenance_def compiled_limits_ceiling_def

lemma boots: "\<not> boot_is_zero boot_a" "\<not> boot_is_zero boot_b" "boot_a \<noteq> boot_b" "boot_wf boot_a"
  by (simp_all add: boot_a_def boot_b_def boot_is_zero_def boot_wf_def boot_size_def numeral_eq_Suc)

lemma valid_names: "id_valid (BasicId (c # s))" "id_valid ops"
  by (simp_all add: id_valid_def ops_def)

lemma step1: "apply_mutation fabric0 m_epoch False = (at_step 1 (audit_after fabric0 m_epoch 1) (fabric0\<lparr>im_epoch := 1\<rparr>), Inr ())"
proof -
  have "admit fabric0 m_epoch False = Inr (False, 1)"
    by (simp add: admit_def sample_simps core_simps validate_mutation_def validate_advance_def epoch_next_def
        is_idempotent_def gen_next_def gen_is_set_def)
  moreover have "apply_op fabric0 m_epoch False p = Inr (fabric0\<lparr>im_epoch := 1\<rparr>)" for p
    by (simp add: op_defs sample_simps core_simps epoch_next_def om_update_all_def)
  ultimately show ?thesis using admitted by (simp add: at_step_def) (simp add: core_simps)
qed

lemma fabric1: "fabric1 = at_step 1 (audit_after fabric0 m_epoch 1) (fabric0\<lparr>im_epoch := 1\<rparr>)"
  by (simp add: fabric1_def after_def step1)

lemma step2: "apply_mutation fabric1 m_grant False = (at_step 2 (audit_after fabric1 m_grant 2) core2, Inr ())"
proof -
  have "admit fabric1 m_grant False = Inr (False, 2)"
    by (simp add: admit_def fabric1 sample_simps core_simps validate_mutation_def validate_grant_def valid_names boots
        is_idempotent_def gen_next_def gen_is_set_def)
  moreover have "apply_op fabric1 m_grant False (mutation_provenance fabric1 m_grant 2) =
      Inr (fabric1\<lparr>im_authority := [((ops, boot_a), ops_entry)], im_next_fencing_token := 2\<rparr>)"
    by (simp add: op_defs fabric1 sample_simps core_simps om_update_all_def)
  ultimately show ?thesis using admitted by (simp add: fabric1 core_simps)
qed

lemma fabric2: "fabric2 = at_step 2 (audit_after fabric1 m_grant 2) core2"
  by (simp add: fabric2_def after_def step2)

lemma sample_authority:
  assumes "im_authority img = [((ops, boot_a), ops_entry)]" and "im_epoch img = 1"
    and "mu_publisher m = ops" "mu_boot m = boot_a" "mu_epoch m = 1" "mu_token m = 1"
  shows "check_authority img m = Inr ()"
  using assms by (simp add: check_authority_iff valid_names boots is_established_def live_def ops_entry_def)

lemma step3: "apply_mutation fabric2 m_class False = (at_step 3 (audit_after fabric2 m_class 3) core3, Inr ())"
proof -
  have auth: "check_authority fabric2 m_class = Inr ()"
    by (rule sample_authority) (simp_all add: fabric2 core_simps sample_simps)
  have "validate_mutation fabric2 m_class = Inr ()"
    by (simp add: validate_mutation_def validate_class_def fabric2 core_simps sample_simps valid_names rank_make_def kMaxRank_def
        check_text_bounds_def is_printable_text.simps validate_inheritance_def check_parent_list_def check_population_def
        check_precedence_free_def)
  then have "admit fabric2 m_class False = Inr (False, 3)"
    using auth by (simp add: admit_def) (simp add: fabric2 core_simps sample_simps is_idempotent_def gen_next_def gen_is_set_def)
  moreover have "apply_op fabric2 m_class False (mutation_provenance fabric2 m_class 3) = Inr (fabric2\<lparr>im_classes := im_classes core3\<rparr>)"
    by (simp add: op_defs fabric2 sample_simps core_simps content_unchanged_def bump_def bump_from_def entity_generation_def
        gen_first_def gen_is_set_def)
  ultimately show ?thesis using admitted by (simp add: fabric2 core_simps)
qed

lemma fabric3: "fabric3 = at_step 3 (audit_after fabric2 m_class 3) core3"
  by (simp add: fabric3_def after_def step3)

lemma step4: "apply_mutation fabric3 m_scope False = (at_step 4 (audit_after fabric3 m_scope 4) core4, Inr ())"
proof -
  have auth: "check_authority fabric3 m_scope = Inr ()"
    by (rule sample_authority) (simp_all add: fabric3 core_simps sample_simps)
  have "validate_mutation fabric3 m_scope = Inr ()"
    by (simp add: validate_mutation_def validate_scope_def fabric3 core_simps sample_simps valid_names
        check_text_bounds_def is_printable_text.simps check_population_def)
  then have "admit fabric3 m_scope False = Inr (False, 4)"
    using auth by (simp add: admit_def) (simp add: fabric3 core_simps sample_simps is_idempotent_def gen_next_def gen_is_set_def)
  moreover have "apply_op fabric3 m_scope False (mutation_provenance fabric3 m_scope 4) = Inr (fabric3\<lparr>im_scopes := im_scopes core4\<rparr>)"
    by (simp add: op_defs fabric3 sample_simps core_simps content_unchanged_def bump_def bump_from_def entity_generation_def
        gen_first_def gen_is_set_def)
  ultimately show ?thesis using admitted by (simp add: fabric3 core_simps)
qed

lemma fabric4: "fabric4 = at_step 4 (audit_after fabric3 m_scope 4) core4"
  by (simp add: fabric4_def after_def step4)

lemma step5: "apply_mutation fabric4 m_subject False = (at_step 5 (audit_after fabric4 m_subject 5) core5, Inr ())"
proof -
  have auth: "check_authority fabric4 m_subject = Inr ()"
    by (rule sample_authority) (simp_all add: fabric4 core_simps sample_simps)
  have "validate_mutation fabric4 m_subject = Inr ()"
    by (simp add: validate_mutation_def validate_subject_def fabric4 core_simps sample_simps valid_names
        check_text_bounds_def is_printable_text.simps check_population_def validate_subject_inheritance_def
        check_parent_list_def)
  then have "admit fabric4 m_subject False = Inr (False, 5)"
    using auth by (simp add: admit_def) (simp add: fabric4 core_simps sample_simps is_idempotent_def gen_next_def gen_is_set_def)
  moreover have "apply_op fabric4 m_subject False (mutation_provenance fabric4 m_subject 5) = Inr (fabric4\<lparr>im_subjects := im_subjects core5\<rparr>)"
    by (simp add: op_defs fabric4 sample_simps core_simps content_unchanged_def bump_def bump_from_def entity_generation_def
        gen_first_def gen_is_set_def)
  ultimately show ?thesis using admitted by (simp add: fabric4 core_simps)
qed

lemma fabric5: "fabric5 = at_step 5 (audit_after fabric4 m_subject 5) core5"
  by (simp add: fabric5_def after_def step5)

lemma chain_root:
  assumes "im_scopes img = im_scopes core4" and "im_limits img = compiled_limits_ceiling"
  shows "scope_chain img (BasicId ''root'') = Inr [BasicId ''root'']"
  using assms by (simp add: scope_chain_def scope_chain_loop.simps core_simps sample_simps)

lemma unrestricted_root:
  assumes "im_scopes img = im_scopes core4" and "im_limits img = compiled_limits_ceiling" and "im_policies img = []"
  shows "effective_policy img (BasicId ''root'') = None" "effective_visibility img (BasicId ''root'') = None"
    and "class_visible img c (BasicId ''root'')"
  using assms by (simp_all add: effective_policy_def effective_visibility_def class_visible_def chain_root first_policy_def)

lemma step6: "apply_mutation fabric5 m_assign False = (at_step 6 (audit_after fabric5 m_assign 6) core6, Inr ())"
proof -
  have auth: "check_authority fabric5 m_assign = Inr ()"
    by (rule sample_authority) (simp_all add: fabric5 core_simps sample_simps)
  have same: "im_scopes fabric5 = im_scopes core4" "im_limits fabric5 = compiled_limits_ceiling" "im_policies fabric5 = []"
    by (simp_all add: fabric5 core_simps)
  have parts: "im_subjects fabric5 = im_subjects core5" "im_classes fabric5 = im_classes core3" "im_assignments fabric5 = []"
    by (simp_all add: fabric5 core_simps)
  have finds: "\<exists>p. om_find (im_subjects core5) (BasicId ''host'') = Some \<lparr>ue_definition = host\<lparr>ud_generation := 1\<rparr>, ue_provenance = p\<rparr>"
    "\<exists>p. om_find (im_classes core3) (BasicId ''gold'') = Some \<lparr>ce_definition = gold\<lparr>cd_generation := 1\<rparr>, ce_provenance = p\<rparr>"
    "\<exists>p. om_find (im_scopes core4) (BasicId ''root'') = Some \<lparr>se_definition = root_scope\<lparr>sd_generation := 1\<rparr>, se_provenance = p\<rparr>"
    by (simp_all add: core3_def core4_def core5_def)
  have "validate_assign fabric5 host_gold = Inr ()"
    using unrestricted_root[OF same] finds
    by (auto simp: validate_assign_def host_gold_def assignment_default_def valid_names check_text_bounds_def same parts
        is_printable_text.simps check_population_def check_assignment_policy_def check_required_policy_def gen_is_set_def
        compiled_limits_ceiling_def)
  then have "validate_mutation fabric5 m_assign = Inr ()"
    by (simp add: validate_mutation_def m_assign_def base_mutation_def)
  then have "admit fabric5 m_assign False = Inr (False, 6)"
    using auth by (simp add: admit_def) (simp add: fabric5 core_simps sample_simps is_idempotent_def gen_next_def gen_is_set_def)
  moreover have "apply_op fabric5 m_assign False (mutation_provenance fabric5 m_assign 6) =
      Inr (fabric5\<lparr>im_assignments := im_assignments core6, im_assignments_by_subject := im_assignments_by_subject core6\<rparr>)"
    by (simp add: op_defs fabric5 sample_simps core_simps content_unchanged_def bump_def bump_from_def entity_generation_def
        gen_first_def gen_is_set_def bucket_of_def)
  ultimately show ?thesis using admitted by (simp add: fabric5 core_simps)
qed

lemma fabric6: "fabric6 = at_step 6 (audit_after fabric5 m_assign 6) core6"
  by (simp add: fabric6_def after_def step6)

section \<open>A query\<close>

definition ask :: priority_query where
  "ask = \<lparr>qu_subject = BasicId ''host'', qu_subject_generation = 1, qu_scope = BasicId ''root'',
     qu_as_of_epoch = Some 1, qu_require_policy_generation = 0, qu_require_scope_generation = 1,
     qu_strict_conflicts = False, qu_max_explanation_steps = 8, qu_correlation = 7\<rparr>"

lemma fabric6_parts:
  "im_scopes fabric6 = im_scopes core4" "im_limits fabric6 = compiled_limits_ceiling" "im_policies fabric6 = []"
  "im_epoch fabric6 = 1" "im_health fabric6 = Healthy" "im_subjects fabric6 = im_subjects core5"
  "im_classes fabric6 = im_classes core3" "im_authority fabric6 = [((ops, boot_a), ops_entry)]"
  "im_assignments fabric6 = im_assignments core6" "im_assignments_by_subject fabric6 = im_assignments_by_subject core6"
  by (simp_all add: fabric6 core_simps)

lemma ask_precheck: "precheck fabric6 ask = Inr (1, [BasicId ''root''])"
proof -
  have e: "check_query_epoch fabric6 ask = Inr ()" by (simp add: check_query_epoch_def ask_def fabric6_parts)
  have "query_scope_generation fabric6 (BasicId ''root'') = 1"
    by (simp add: query_scope_generation_def fabric6_parts core_simps sample_simps)
  then have r: "check_required_generations fabric6 ask = Inr ()"
    by (simp add: check_required_generations_def ask_def gen_is_set_def)
  have u: "\<exists>p. om_find (im_subjects fabric6) (BasicId ''host'') = Some \<lparr>ue_definition = host\<lparr>ud_generation := 1\<rparr>, ue_provenance = p\<rparr>"
    by (simp add: fabric6_parts core5_def)
  show ?thesis
    using e r u chain_root[OF fabric6_parts(1,2)] unfolding precheck_def
    by (auto simp: fabric6_parts ask_def valid_names)
qed

definition ask_candidate :: candidate where
  "ask_candidate = \<lparr>ca_level = 0, ca_entry = snd (hd (im_assignments core6)), ca_via_subject = BasicId ''host'', ca_distance = 0\<rparr>"

lemma ask_gather: "gather fabric6 ask [BasicId ''root''] = Inr ([ask_candidate], [])"
proof -
  have "judge fabric6 [BasicId ''root''] 0 (snd (hd (im_assignments core6))) = Accept 0"
    using unrestricted_root[OF fabric6_parts(1-3)]
    by (simp add: judge_def judge_bindings_def fabric6_parts Let_def core_simps sample_simps)
  then have "collect_for_subject fabric6 [BasicId ''root''] (BasicId ''host'') 0 ([], []) = ([ask_candidate], [])"
    by (simp add: collect_for_subject_def fabric6_parts ask_candidate_def)
      (simp add: core6_def fabric6_parts compiled_limits_ceiling_def)
  then show ?thesis by (simp add: gather_def ask_def)
qed

lemma ask_answer: "de_authoritative (evaluate_query fabric6 ask)" "de_outcome (evaluate_query fabric6 ask) = Out_Assigned"
  "de_cls (evaluate_query fabric6 ask) = BasicId ''gold''"
proof -
  have f: "filter_exceptions ([ask_candidate], []) = ([ask_candidate], [])"
    by (simp add: filter_exceptions_def filter_step_def ask_candidate_def ca_assignment_def core_simps sample_simps)
  have l: "deciding_level fabric6 [BasicId ''root''] [ask_candidate] = 0"
    by (simp add: deciding_level_def authoritative_level_def narrowest_level_def ask_candidate_def)
  have w: "winners fabric6 [BasicId ''root''] [ask_candidate] = [ask_candidate]"
    by (simp add: winners_def l) (simp add: ask_candidate_def)
  have has: "om_has (im_classes fabric6) (as_cls (ca_assignment ask_candidate))"
    by (simp add: om_has_def fabric6_parts ask_candidate_def ca_assignment_def core_simps sample_simps)
  have c: "\<not> has_conflict [ask_candidate]" by (simp add: has_conflict_def)
  have "evaluate_query fabric6 ask = decide fabric6 ask [BasicId ''root''] [ask_candidate]
      (evidence_chain fabric6 ask 1 ([ask_candidate], [])) (base_decision fabric6 ask [])"
    by (simp add: evaluate_query_def ask_precheck ask_gather f Let_def)
  with decide_spec(1)[of "[ask_candidate]" fabric6 "[BasicId ''root'']"] has c w l
  show "de_authoritative (evaluate_query fabric6 ask)" "de_outcome (evaluate_query fabric6 ask) = Out_Assigned"
    "de_cls (evaluate_query fabric6 ask) = BasicId ''gold''"
    by (simp_all add: class_bound_def) (simp_all add: ask_candidate_def ca_assignment_def core_simps sample_simps)
qed

end
