(* ===== verification/Guarantees.thy ===== *)
theory Guarantees
  imports Samples
begin

text \<open>
  What the state machine guarantees on every reachable image: who may change it, what fencing and
  epoch advances revoke, how generations move, and the shape of the registries. The statements
  are those of the invariants of \<^verbatim>\<open>Registry\<close> and \<^verbatim>\<open>Authority\<close> carried along runs, each applied
  to the sample run.
\<close>

section \<open>Helper facts\<close>

lemma authority_reachable: "reachable limits img \<Longrightarrow> authority_inv img"
  by (rule authority.reachable_inv) (simp_all add: authority_inv_empty)

lemma registries_empty:
  "ranks_inv (empty_image limits)" "population_inv (empty_image limits)" "scope_inv (empty_image limits)"
proof -
  have none: "class_defs (empty_image limits) = Map.empty" "scope_defs (empty_image limits) = Map.empty"
    by (simp_all add: class_defs_def[abs_def] scope_defs_def[abs_def] empty_image_def)
  then show "ranks_inv (empty_image limits)" by (simp add: ranks_inv_def)
  show "population_inv (empty_image limits)" by (simp add: population_inv_def empty_image_def)
  have "scope_up (empty_image limits) = (\<lambda>_. [])"
    by (simp add: fun_eq_iff scope_up_def scope_parent_def empty_image_def)
  then show "scope_inv (empty_image limits)" using none by (simp add: scope_inv_def edges_def acyclic_def)
qed

lemma registries_reachable:
  assumes "reachable limits img"
  shows "ranks_inv img" "population_inv img" "scope_inv img"
  using assms registries_empty ranks.reachable_inv population.reachable_inv scope_forest.reachable_inv by blast+

lemma no_edges: "edges (parents_in (\<lambda>_. None) f) = {}"
  by (simp add: edges_def parents_in_def)

lemma inheritance_empty:
  assumes "walk_bound_covers limits"
  shows "inheritance_inv class_defs cd_inherits_from (empty_image limits)"
    and "inheritance_inv subject_defs ud_inherits_from (empty_image limits)"
proof -
  have none: "class_defs (empty_image limits) = Map.empty" "subject_defs (empty_image limits) = Map.empty"
    by (simp_all add: class_defs_def[abs_def] subject_defs_def[abs_def] empty_image_def)
  have "im_limits (empty_image limits) = limits" by (simp add: empty_image_def)
  then show "inheritance_inv class_defs cd_inherits_from (empty_image limits)"
      "inheritance_inv subject_defs ud_inherits_from (empty_image limits)"
    using assms registries_empty(2)[of limits] none
    by (simp_all add: inheritance_inv_def no_edges) (simp_all add: acyclic_def)
qed

lemma inheritance_reachable:
  assumes "reachable limits img" and "walk_bound_covers limits"
  shows "inheritance_inv class_defs cd_inherits_from img" "inheritance_inv subject_defs ud_inherits_from img"
  using assms inheritance_empty class_graph.graph.reachable_inv subject_graph.graph.reachable_inv by blast+

lemma reachable_steps: "reachable limits img \<Longrightarrow> state_step\<^sup>*\<^sup>* img img' \<Longrightarrow> reachable limits img'"
  by (erule (1) rtranclp_induct) (rule reachable.step)

lemma fenced_not_live: "fenced publisher boot img \<Longrightarrow> \<not> live img publisher boot token"
  by (auto simp: fenced_def live_def)

lemma fenced_not_usable:
  "fenced publisher boot img \<Longrightarrow> pv_publisher (ae_provenance entry) = publisher \<Longrightarrow>
     pv_boot (ae_provenance entry) = boot \<Longrightarrow> \<not> usable img entry"
  by (auto simp: fenced_def usable_def publisher_granted_def)

text \<open>What a successful call did.\<close>

lemma success_cases:
  assumes "apply_mutation img m replay = (img', Inr ())"
  obtains (identical) g where "is_idempotent img m" and "img' = with_audit (im_next_audit_sequence img + 1) (audit_after img m g) img"
  | (changed) g img1 where "\<not> is_idempotent img m" and "gen_next (im_generation img) = Some g"
      and "validate_mutation img m = Inr ()" and "apply_op img m False (mutation_provenance img m g) = Inr img1"
      and "img' = (with_audit (im_next_audit_sequence img + 1) (audit_after img m g) img1)\<lparr>im_generation := g\<rparr>"
  using assms
proof (cases rule: apply_mutation_cases)
  case (identical g)
  then show ?thesis using that(1) admit_ok(2)[OF identical(1)] by simp
next
  case (changed g img1)
  then show ?thesis using that(2) admit_ok(1,2,5)[OF changed(1)] by simp
qed simp_all

lemma fence_succeeds:
  assumes "authority_inv img" and "mu_op m = FenceAuthority" and "apply_mutation img m replay = (img', Inr ())"
  shows "fenced (mu_fence_publisher m) (mu_fence_boot m) img'"
  using assms(3)
proof (cases rule: success_cases)
  case (identical g)
  then show ?thesis using assms(2) by (simp add: is_idempotent_def)
next
  case (changed g img1)
  have "fenced (mu_fence_publisher m) (mu_fence_boot m) img1"
    using fence_find[OF changed(4) assms(2)] authority_inv_op[OF assms(1) changed(4)]
    by (auto simp: fenced_def split: option.splits)
  then show ?thesis using changed(5) fenced_incarnation.inv_audit fenced_incarnation.inv_generation by simp
qed

section \<open>Properties\<close>

text \<open>C3: a mutation by an incarnation without authority has no effect. On the commit path, a
  mutation that is not the fabric's own and whose publisher, boot and token are not those of a
  live incarnation is refused, and the whole image stays as it was, audit window included.\<close>

theorem unauthorized_mutation_has_no_effect:
  assumes "\<not> live img (mu_publisher m) (mu_boot m) (mu_token m)" and "\<not> mu_system m"
  shows "\<exists>e. apply_mutation img m False = (img, Inl e)"
proof -
  obtain img' r where "apply_mutation img m False = (img', r)" by fastforce
  with unauthorized_unchanged[OF assms this] show ?thesis by auto
qed

text \<open>C4: fencing tokens are never resurrected. Once an issued token of an incarnation is not
  live, it is live in no later state, whatever mutations are applied, so every later mutation
  carrying it is refused.\<close>

theorem fencing_token_never_resurrected:
  assumes "reachable limits img" and "token < im_next_fencing_token img" and "\<not> live img publisher boot token"
    and "state_step\<^sup>*\<^sup>* img img'"
  shows "\<not> live img' publisher boot token \<and>
    (\<forall>m. mu_publisher m = publisher \<and> mu_boot m = boot \<and> mu_token m = token \<and> \<not> mu_system m \<longrightarrow>
      (\<exists>e. apply_mutation img' m False = (img', Inl e)))"
proof -
  have dead: "\<not> live img' publisher boot token"
    using dead_token.steps_inv[OF assms(4)] authority_reachable[OF assms(1)] assms(2,3) by (simp add: token_dead_def)
  moreover have "\<exists>e. apply_mutation img' m False = (img', Inl e)"
    if "mu_publisher m = publisher" "mu_boot m = boot" "mu_token m = token" "\<not> mu_system m" for m
    using unauthorized_unchanged[of img' m] dead that by (cases "apply_mutation img' m False") auto
  ultimately show ?thesis by blast
qed

text \<open>C5: fencing an incarnation is final. After a successful fence, in every later state the
  incarnation is not live with any token and no assignment it published is usable evidence.\<close>

theorem fencing_is_final:
  assumes "reachable limits img" and "mu_op m = FenceAuthority"
    and "apply_mutation img m replay = (img1, Inr ())" and "state_step\<^sup>*\<^sup>* img1 img'"
  shows "\<not> live img' (mu_fence_publisher m) (mu_fence_boot m) token \<and>
    (pv_publisher (ae_provenance entry) = mu_fence_publisher m \<and> pv_boot (ae_provenance entry) = mu_fence_boot m \<longrightarrow>
      \<not> usable img' entry)"
  using fenced_incarnation.steps_inv[OF assms(4) fence_succeeds[OF authority_reachable[OF assms(1)] assms(2,3)]]
    fenced_not_live fenced_not_usable by blast

text \<open>C30: the authority table is consistent in every reachable state. Entries are stored under
  their own publisher and boot; a granted entry belongs to the current epoch; a publisher has at
  most one granted incarnation; and no two incarnations ever hold the same token.\<close>

theorem authority_table_consistent:
  assumes "reachable limits img" and "om_find (im_authority img) k = Some e" and "om_find (im_authority img) k' = Some e'"
  shows "k = (he_publisher e, he_boot e) \<and> (he_state e = Granted \<longrightarrow> he_epoch e = im_epoch img) \<and>
    (he_state e = Granted \<and> he_state e' = Granted \<and> he_publisher e = he_publisher e' \<longrightarrow> k = k') \<and>
    (he_token e = he_token e' \<and> he_token e \<noteq> 0 \<longrightarrow> k = k') \<and> he_token e < im_next_fencing_token img"
proof -
  note inv = authority_reachable[OF assms(1)]
  have "fst k = he_publisher e" "fst k' = he_publisher e'"
    using authority_invD(1)[OF inv assms(2)] authority_invD(1)[OF inv assms(3)] by simp_all
  then show ?thesis using authority_invD(1-5)[OF inv] assms(2,3) by metis
qed

text \<open>C31: advancing the epoch revokes everyone. After a successful advance the epoch is the next
  one, no incarnation is live, and no stored assignment is usable until authority is granted
  again.\<close>

theorem epoch_advance_revokes:
  assumes "reachable limits img" and "mu_op m = AdvanceEpoch" and "apply_mutation img m replay = (img', Inr ())"
  shows "epoch_next (im_epoch img) = Some (im_epoch img') \<and> \<not> live img' publisher boot token \<and> \<not> usable img' entry"
  using assms(3)
proof (cases rule: success_cases)
  case (identical g)
  then show ?thesis using assms(2) by (simp add: is_idempotent_def)
next
  case (changed g img1)
  note inv = authority_reachable[OF assms(1)]
  have gone: "he_state e \<noteq> Granted" if "om_find (im_authority img') k = Some e" for k e
    using that advance_find[OF inv changed(4) assms(2)] changed(5)
    by (auto simp: frame_simps dest: state_update_eq split: if_splits)
  have "epoch_next (im_epoch img) = Some (im_epoch img')"
    using authority_after(3)[OF changed(4) assms(2)] changed(5) by (simp add: frame_simps)
  moreover have "\<not> live img' publisher boot token" using gone by (auto simp: live_def split: option.splits)
  moreover have "\<not> usable img' entry" using gone by (auto simp: usable_def publisher_granted_def)
  ultimately show ?thesis by blast
qed

text \<open>C32: the state generation counts changes. A successful mutation that republishes identical
  content leaves every registry, the authority table, the epoch and the generation as they were;
  any other successful mutation moves the generation to its successor; a refused or failed one
  leaves the generation and the registries alone.\<close>

theorem generation_counts_changes:
  assumes "apply_mutation img m replay = (img', r)"
  shows "(r \<noteq> Inr () \<or> is_idempotent img m \<longrightarrow>
      img' = img\<lparr>im_next_audit_sequence := im_next_audit_sequence img', im_audit := im_audit img'\<rparr>) \<and>
    (r = Inr () \<and> \<not> is_idempotent img m \<longrightarrow> gen_next (im_generation img) = Some (im_generation img'))"
  using assms
proof (cases rule: apply_mutation_cases)
  case (failed g idem e)
  then show ?thesis by (simp add: with_audit_def)
next
  case (identical g)
  then show ?thesis using admit_ok(2)[OF identical(1)] by (simp add: with_audit_def)
next
  case (changed g img1)
  then show ?thesis using admit_ok(2,5)[OF changed(1)] by (simp add: with_audit_def)
qed simp

text \<open>class ranks are unambiguous. In every reachable state each class is stored under its own
  identifier with a declared rank within the ceiling and a set generation, and two different
  classes never share a rank.\<close>

theorem class_ranks_unique:
  assumes "reachable limits img" and "class_defs img k = Some d" and "class_defs img k' = Some d'"
  shows "cd_id d = k \<and> rank_assigned (cd_precedence d) \<and> rank_value (cd_precedence d) \<le> kMaxRank \<and>
    gen_is_set (cd_generation d) \<and> (rank_value (cd_precedence d) = rank_value (cd_precedence d') \<longrightarrow> k = k')"
  using registries_reachable(1)[OF assms(1)] assms(2,3) unfolding ranks_inv_def by metis

text \<open>C33: inheritance never loops. Under limits in which a class may not name more parents than
  the depth limit plus one, in every reachable state no class inherits from itself and no
  subject from itself, directly or through others, and every parent is defined.\<close>

theorem inheritance_acyclic:
  assumes "reachable limits img" and "walk_bound_covers limits"
  shows "acyclic (edges (class_parents img)) \<and> acyclic (edges (subject_parents img)) \<and>
    (\<forall>k. set (class_parents img k) \<subseteq> dom (class_defs img)) \<and> (\<forall>k. set (subject_parents img k) \<subseteq> dom (subject_defs img))"
proof -
  have eq: "parents_in (class_defs img) cd_inherits_from = class_parents img"
    "parents_in (subject_defs img) ud_inherits_from = subject_parents img"
    by (simp_all add: fun_eq_iff parents_in_def parents_defs)
  note inv = inheritance_reachable[OF assms, unfolded inheritance_inv_def eq]
  have "set (class_parents img k) \<subseteq> dom (class_defs img)" for k
    using inv(1) by (cases "class_defs img k") (auto simp: parents_defs)
  moreover have "set (subject_parents img k) \<subseteq> dom (subject_defs img)" for k
    using inv(2) by (cases "subject_defs img k") (auto simp: parents_defs)
  ultimately show ?thesis using inv by blast
qed

text \<open>C34: implication between classes is reachability. Under such limits \<^verbatim>\<open>class_implies\<close> holds
  exactly when the required class is reached from the candidate along the inheritance links: its
  step bound never cuts a search short.\<close>

theorem class_implies_is_reachability:
  assumes "reachable limits img" and "walk_bound_covers limits"
  shows "class_implies img candidate required \<longleftrightarrow> (candidate, required) \<in> (edges (class_parents img))\<^sup>*"
proof
  assume "class_implies img candidate required"
  then show "(candidate, required) \<in> (edges (class_parents img))\<^sup>*"
    by (auto simp: class_implies_def split: if_splits dest: reaches_loop_sound)
next
  assume path: "(candidate, required) \<in> (edges (class_parents img))\<^sup>*"
  have eq: "parents_in (class_defs img) cd_inherits_from = class_parents img" by (simp add: fun_eq_iff parents_in_def parents_defs)
  note inv = inheritance_reachable(1)[OF assms]
  let ?N = "dom (class_defs img)"
  have N: "finite ?N" "card ?N \<le> max_classes (im_limits img)"
    using class_graph.bounded inv by (simp_all add: inheritance_inv_def)
  have fan: "length (class_parents img n) \<le> max_inherits_from (im_limits img)" if "n \<in> ?N" for n
    using inv that by (auto simp: inheritance_inv_def eq[symmetric] parents_in_def)
  have "1 + (\<Sum>n \<in> ?N. length (class_parents img n)) \<le> class_walk_bound (im_limits img)"
    unfolding class_walk_bound_def
    by (rule walk_bound_suffices[OF N fan]) (use inv in \<open>simp_all add: inheritance_inv_def walk_bound_covers_def\<close>)
  moreover have "n \<in> ?N" if "class_parents img n \<noteq> []" for n
    using that by (auto simp: parents_defs split: option.splits)
  ultimately show "class_implies img candidate required"
    using reaches_loop_complete[OF N(1), of "class_parents img" required "\<lambda>_. False" "class_walk_bound (im_limits img)" 0 "[candidate]" "{}"]
      closed_rtrancl[OF path] by (auto simp: class_implies_def work_left_def)
qed

text \<open>C35: scopes form a forest and scope chains are complete. In every reachable state no scope is
  its own ancestor and every parent exists; a successful chain starts at the queried scope,
  follows the parent links up to a root and respects the depth limit; and for a registered scope
  the walk can only fail by exceeding that limit.\<close>

theorem scope_chains_complete:
  assumes "reachable limits img" and "scope_defs img scope \<noteq> None"
  shows "acyclic (edges (scope_up img)) \<and>
    (case scope_chain img scope of
       Inr chain \<Rightarrow> hd chain = scope \<and> parent_path img chain \<and> length chain \<le> max_scope_depth limits
     | Inl e \<Rightarrow> st_code e = St_LimitExceeded)"
  using scope_chain_path[of img scope] scope_chain_total[OF registries_reachable(3)[OF assms(1)] assms(2)]
    registries_reachable(3)[OF assms(1)] reachable_limits[OF assms(1)]
  by (auto simp: scope_inv_def split: sum.split)

text \<open>C36: the registries never outgrow their limits. In every reachable state the class, scope,
  policy, subject and assignment maps are strictly ordered by identifier and hold at most as
  many entries as the limits allow.\<close>

theorem populations_bounded:
  assumes "reachable limits img"
  shows "om_wf (im_classes img) \<and> length (im_classes img) \<le> max_classes limits \<and>
    om_wf (im_scopes img) \<and> length (im_scopes img) \<le> max_scopes limits \<and>
    om_wf (im_policies img) \<and> length (im_policies img) \<le> max_policies limits \<and>
    om_wf (im_subjects img) \<and> length (im_subjects img) \<le> max_subjects limits \<and>
    om_wf (im_assignments img) \<and> length (im_assignments img) \<le> max_assignments limits"
  using registries_reachable(2)[OF assms] reachable_limits[OF assms] by (simp add: population_inv_def)

end
