(* ===== verification/Instances.thy ===== *)
theory Instances
  imports Guarantees
begin

text \<open>
  The properties of the state machine and of the query evaluation applied to the sample run: each
  of their hypotheses holds of an image the sample run produces, or of one built from it.
\<close>

section \<open>Two more steps of the run\<close>

definition m_fence :: mutation where
  "m_fence = base_mutation\<lparr>mu_op := FenceAuthority, mu_fence_publisher := ops, mu_fence_boot := boot_a, mu_system := True\<rparr>"

definition fabric7 :: state_image where "fabric7 = after fabric6 m_fence"

lemma fabric6_generation: "im_generation fabric6 = 6" "im_next_audit_sequence fabric6 = 7" "im_next_fencing_token fabric6 = 2"
  by (simp_all add: fabric6 core_simps)

lemma step7: "\<exists>img. apply_mutation fabric6 m_fence False = (img, Inr ()) \<and> im_next_fencing_token img = 2"
proof -
  have "admit fabric6 m_fence False = Inr (False, 7)"
    by (simp add: admit_def m_fence_def base_mutation_def mutation_default_def validate_mutation_def validate_fence_def valid_names boots
        is_idempotent_def gen_next_def gen_is_set_def fabric6_generation)
  moreover have "\<exists>i. apply_op fabric6 m_fence False p = Inr i \<and> im_next_fencing_token i = 2" for p
    by (simp add: op_defs m_fence_def base_mutation_def fabric6_generation)
  then obtain i where "apply_op fabric6 m_fence False (mutation_provenance fabric6 m_fence 7) = Inr i" "im_next_fencing_token i = 2"
    by blast
  ultimately show ?thesis using admitted[of fabric6 m_fence 7 i] by (simp add: frame_simps)
qed

lemma fabric7: "apply_mutation fabric6 m_fence False = (fabric7, Inr ())" "im_next_fencing_token fabric7 = 2"
  using step7 by (auto simp: fabric7_def after_def)

lemma fabric7_fenced: "fenced ops boot_a fabric7"
  using fence_succeeds[OF authority_reachable[OF reach6] _ fabric7(1)] by (simp add: m_fence_def base_mutation_def)

lemma reach7: "reachable compiled_limits_ceiling fabric7"
  unfolding fabric7_def by (rule reachable_after[OF reach6])

lemma ceiling_covers: "walk_bound_covers compiled_limits_ceiling"
  by (simp add: walk_bound_covers_def compiled_limits_ceiling_def)

section \<open>The guarantees\<close>

theorem unauthorized_mutation_has_no_effect_witness:
  "\<exists>e. apply_mutation fabric7 m_class False = (fabric7, Inl e)"
  by (rule unauthorized_mutation_has_no_effect)
    (simp_all add: m_class_def base_mutation_def mutation_default_def fenced_not_live[OF fabric7_fenced])

theorem fencing_token_never_resurrected_witness:
  "\<not> live fabric7 ops boot_a 1 \<and> (\<exists>e. apply_mutation fabric7 m_subject False = (fabric7, Inl e))"
  using fencing_token_never_resurrected[OF reach7 _ fenced_not_live[OF fabric7_fenced, of 1] rtranclp.rtrancl_refl]
  by (simp add: fabric7 m_subject_def base_mutation_def mutation_default_def)

theorem fencing_is_final_witness:
  "\<not> live fabric7 ops boot_a 1 \<and> \<not> usable fabric7 (snd (hd (im_assignments core6)))"
  using fencing_is_final[OF reach6 _ fabric7(1) rtranclp.rtrancl_refl, of 1 "snd (hd (im_assignments core6))"]
  by (simp add: m_fence_def base_mutation_def core6_def provenance_at_def)

theorem authority_table_consistent_witness:
  "he_epoch ops_entry = im_epoch fabric6 \<and> he_token ops_entry < im_next_fencing_token fabric6"
  using authority_table_consistent[OF reach6, of "(ops, boot_a)" ops_entry "(ops, boot_a)" ops_entry]
  by (simp add: fabric6_parts ops_entry_def)

theorem epoch_advance_revokes_witness: "im_epoch fabric1 = 1 \<and> \<not> live fabric1 ops boot_a 1"
proof -
  have "apply_mutation fabric0 m_epoch False = (fabric1, Inr ())" by (simp add: step1 fabric1)
  from epoch_advance_revokes[OF reach0 _ this] show ?thesis
    by (simp add: m_epoch_def fabric0_def empty_image_def epoch_next_def)
qed

theorem generation_counts_changes_witness: "gen_next (im_generation fabric2) = Some (im_generation fabric3)"
proof -
  have "apply_mutation fabric2 m_class False = (fabric3, Inr ())" by (simp add: step3 fabric3)
  moreover have "\<not> is_idempotent fabric2 m_class" by (simp add: is_idempotent_def fabric2 core_simps sample_simps)
  ultimately show ?thesis using generation_counts_changes[of fabric2 m_class False fabric3 "Inr ()"] by simp
qed

lemma gold_defined: "class_defs fabric6 (BasicId ''gold'') = Some (gold\<lparr>cd_generation := 1\<rparr>)"
  by (simp add: class_defs_def fabric6_parts core3_def)

lemma root_defined: "scope_defs fabric6 (BasicId ''root'') = Some (root_scope\<lparr>sd_generation := 1\<rparr>)"
  by (simp add: scope_defs_def fabric6_parts core4_def)

theorem class_ranks_unique_witness: "rank_value (cd_precedence gold) \<le> kMaxRank \<and> cd_id gold = BasicId ''gold''"
  using class_ranks_unique[OF reach6 gold_defined gold_defined] by simp

theorem inheritance_acyclic_witness: "acyclic (edges (class_parents fabric6)) \<and> acyclic (edges (subject_parents fabric6))"
  using inheritance_acyclic[OF reach6 ceiling_covers] by blast

theorem class_implies_is_reachability_witness: "\<not> class_implies fabric6 (BasicId ''gold'') (BasicId ''silver'')"
proof -
  have none: "class_parents fabric6 c = []" for c
    by (simp add: class_parents_def fabric6_parts core3_def gold_def class_default_def split: option.split)
  have "(BasicId ''gold'', BasicId ''silver'') \<notin> (edges (class_parents fabric6))\<^sup>*"
  proof
    assume "(BasicId ''gold'', BasicId ''silver'') \<in> (edges (class_parents fabric6))\<^sup>*"
    then show False by (cases rule: converse_rtranclE) (simp_all add: edges_def none)
  qed
  then show ?thesis using class_implies_is_reachability[OF reach6 ceiling_covers] by simp
qed

theorem scope_chains_complete_witness:
  "acyclic (edges (scope_up fabric6)) \<and> parent_path fabric6 [BasicId ''root'']"
  using scope_chains_complete[OF reach6, of "BasicId ''root''"] chain_root[OF fabric6_parts(1,2)] root_defined by simp

theorem populations_bounded_witness: "om_wf (im_classes fabric6) \<and> length (im_classes fabric6) \<le> 65536"
  using populations_bounded[OF reach6] by (simp add: compiled_limits_ceiling_def)

section \<open>The query evaluation\<close>

lemma sample_usable: "usable fabric6 (snd (hd (im_assignments core6)))"
proof -
  have "generations_current fabric6 (host_gold\<lparr>as_generation := 1\<rparr>)"
    by (simp add: generations_current_def fabric6_parts host_gold_def assignment_default_def)
      (simp add: core3_def core4_def core5_def host_def subject_default_def root_scope_def scope_default_def gold_def class_default_def)
  moreover have "publisher_granted fabric6 (provenance_at 6 Assign)"
    by (simp add: publisher_granted_def fabric6_parts provenance_at_def ops_entry_def)
  ultimately show ?thesis
    using unrestricted_root(3)[OF fabric6_parts(1-3)]
    by (simp add: usable_def core6_def fabric6_parts) (simp add: provenance_at_def host_gold_def assignment_default_def)
qed


theorem non_authoritative_names_no_class_witness:
  "de_outcome (evaluate_query (fabric6\<lparr>im_health := Degraded\<rparr>) ask) = Out_Rejected \<and>
   de_cls (evaluate_query (fabric6\<lparr>im_health := Degraded\<rparr>) ask) = id_none"
  using non_authoritative_names_no_class[of "fabric6\<lparr>im_health := Degraded\<rparr>" ask] by simp

theorem deciding_scope_correct_witness: "deciding_level fabric6 [BasicId ''root''] [ask_candidate] = 0"
  using deciding_scope_correct[of "[ask_candidate]" fabric6 "[BasicId ''root'']"] by (simp add: ask_candidate_def)

theorem usable_evidence_collected_witness:
  "\<exists>level. ([BasicId ''root''] :: scope_id list) ! level = BasicId ''root'' \<and>
     \<lparr>ca_level = level, ca_entry = snd (hd (im_assignments core6)), ca_via_subject = BasicId ''host'', ca_distance = 0\<rparr>
       \<in> set (fst (collect_for_subject fabric6 [BasicId ''root''] (BasicId ''host'') 0 ([], [])))"
  using usable_evidence_collected[OF sample_usable, of "BasicId ''a1''" "[BasicId ''root'']" "BasicId ''host''"
      "[BasicId ''a1'']" "([], [])"]
  by (simp add: fabric6_parts core6_def host_gold_def assignment_default_def compiled_limits_ceiling_def)

section \<open>Contradictory evidence\<close>

definition silver :: priority_class_def where
  "silver = gold\<lparr>cd_id := BasicId ''silver'', cd_precedence := rank_make 20, cd_generation := 1\<rparr>"

definition entry_gold :: assignment_entry where "entry_gold = snd (hd (im_assignments core6))"

definition entry_silver :: assignment_entry where
  "entry_silver = entry_gold\<lparr>ae_assignment := (ae_assignment entry_gold)\<lparr>as_id := BasicId ''a2'', as_cls := BasicId ''silver''\<rparr>\<rparr>"

definition contested :: state_image where
  "contested = fabric6\<lparr>im_classes := im_classes core3 @ [(BasicId ''silver'', \<lparr>ce_definition = silver, ce_provenance = provenance_at 3 DefineClass\<rparr>)],
     im_assignments := [(BasicId ''a1'', entry_gold), (BasicId ''a2'', entry_silver)],
     im_assignments_by_subject := [(BasicId ''host'', [BasicId ''a1'', BasicId ''a2''])]\<rparr>"

lemma contested_parts:
  "im_scopes contested = im_scopes core4" "im_limits contested = compiled_limits_ceiling" "im_policies contested = []"
  "im_epoch contested = 1" "im_health contested = Healthy" "im_subjects contested = im_subjects core5"
  "im_authority contested = [((ops, boot_a), ops_entry)]"
  by (simp_all add: contested_def fabric6_parts)

lemma contested_buckets:
  "om_find (im_assignments_by_subject contested) (BasicId ''host'') = Some [BasicId ''a1'', BasicId ''a2'']"
  "om_find (im_assignments contested) (BasicId ''a1'') = Some entry_gold"
  "om_find (im_assignments contested) (BasicId ''a2'') = Some entry_silver"
  by (simp_all add: contested_def)

lemma contested_precheck: "precheck contested ask = Inr (1, [BasicId ''root''])"
proof -
  have e: "check_query_epoch contested ask = Inr ()" by (simp add: check_query_epoch_def ask_def contested_parts)
  have "query_scope_generation contested (BasicId ''root'') = 1"
    by (simp add: query_scope_generation_def contested_parts core_simps sample_simps)
  then have r: "check_required_generations contested ask = Inr ()"
    by (simp add: check_required_generations_def ask_def gen_is_set_def)
  have u: "\<exists>p. om_find (im_subjects contested) (BasicId ''host'') = Some \<lparr>ue_definition = host\<lparr>ud_generation := 1\<rparr>, ue_provenance = p\<rparr>"
    by (simp add: contested_parts core5_def)
  show ?thesis
    using e r u chain_root[OF contested_parts(1,2)] unfolding precheck_def
    by (auto simp: contested_parts ask_def valid_names)
qed

definition contender :: "assignment_entry \<Rightarrow> candidate" where
  "contender e = \<lparr>ca_level = 0, ca_entry = e, ca_via_subject = BasicId ''host'', ca_distance = 0\<rparr>"

lemmas entry_simps = entry_gold_def entry_silver_def core6_def host_gold_def assignment_default_def

lemma contested_judge:
  "judge contested [BasicId ''root''] 0 entry_gold = Accept 0" "judge contested [BasicId ''root''] 0 entry_silver = Accept 0"
proof -
  have classes: "om_find (im_classes contested) (BasicId ''gold'') = om_find (im_classes core3) (BasicId ''gold'')"
    "om_find (im_classes contested) (BasicId ''silver'') = Some \<lparr>ce_definition = silver, ce_provenance = provenance_at 3 DefineClass\<rparr>"
    by (simp_all add: contested_def core3_def)
  show "judge contested [BasicId ''root''] 0 entry_gold = Accept 0" "judge contested [BasicId ''root''] 0 entry_silver = Accept 0"
    using unrestricted_root[OF contested_parts(1-3)]
    by (simp_all add: judge_def judge_bindings_def contested_parts classes Let_def entry_simps)
      (simp_all add: core_simps sample_simps silver_def)
qed

lemma contested_gather: "gather contested ask [BasicId ''root''] = Inr ([contender entry_gold, contender entry_silver], [])"
proof -
  have "collect_for_subject contested [BasicId ''root''] (BasicId ''host'') 0 ([], []) = ([contender entry_gold, contender entry_silver], [])"
    by (simp add: collect_for_subject_def contender_def contested_buckets contested_judge contested_parts compiled_limits_ceiling_def)
  then show ?thesis by (simp add: gather_def ask_def)
qed

theorem conflict_reported_and_resolved_witness:
  "de_outcome (evaluate_query contested ask) = Out_Conflict \<and> \<not> de_authoritative (evaluate_query contested ask)"
proof -
  let ?both = "[contender entry_gold, contender entry_silver]"
  have f: "filter_exceptions (?both, []) = (?both, [])"
    by (simp add: filter_exceptions_def filter_step_def contender_def ca_assignment_def entry_simps)
  have l: "deciding_level contested [BasicId ''root''] ?both = 0"
    by (simp add: deciding_level_def authoritative_level_def narrowest_level_def contender_def)
  have w: "winners contested [BasicId ''root''] ?both = ?both" by (simp add: winners_def l) (simp add: contender_def)
  have c: "has_conflict ?both" by (simp add: has_conflict_def contender_def ca_assignment_def entry_simps)
  have "fst (effective_conflict_mode contested (BasicId ''root'')) = Deny"
    using unrestricted_root[OF contested_parts(1-3)] chain_root[OF contested_parts(1,2)]
    by (simp add: effective_conflict_mode_def contested_parts core4_def root_scope_def scope_default_def)
  then show ?thesis
    using conflict_reported_and_resolved[OF contested_precheck contested_gather] f w c l by (simp add: ask_def)
qed

section \<open>Where the code departs from its documentation\<close>

text \<open>Publishing an assignment under an existing identifier for another subject leaves the
  identifier in the former subject's bucket: the operation only inserts into the bucket of the
  new subject.\<close>

lemma moved_assignment_keeps_old_bucket:
  assumes "apply_assign img m p = Inr img'" and "s \<noteq> as_subject (mu_assignment m)"
  shows "om_find (im_assignments_by_subject img') s = om_find (im_assignments_by_subject img) s"
  using assms by (auto simp: apply_assign_def Let_def split: if_splits)

text \<open>The evaluation does not compare the subject an assignment names with the subject whose
  bucket it was found in, so such an entry is still accepted there.\<close>

lemma judge_ignores_subject_of_bucket:
  assumes "om_find (im_assignments_by_subject img) s = Some [i]" and "om_find (im_assignments img) i = Some entry"
    and "judge img scopes 0 entry = Accept level" and "0 < max_query_steps (im_limits img)"
  shows "fst (collect_for_subject img scopes s 0 ([], [])) =
    [\<lparr>ca_level = level, ca_entry = entry, ca_via_subject = s, ca_distance = 0\<rparr>]"
  using assms by (simp add: collect_for_subject_def)

text \<open>Of two scopes that both forbid being overridden, the narrower one decides.\<close>

lemma nested_non_overridable_displaced:
  assumes "non_overridable img a" and "non_overridable img b"
  shows "deciding_level img [a, b] [e1\<lparr>ca_level := 0\<rparr>, e2\<lparr>ca_level := 1\<rparr>] = 0"
  using deciding_level_spec(3)[of "[e1\<lparr>ca_level := 0\<rparr>, e2\<lparr>ca_level := 1\<rparr>]" "e1\<lparr>ca_level := 0\<rparr>" img "[a, b]"] assms by simp

end
