(* ===== verification/Durability.thy ===== *)
theory Durability
  imports Apply
begin

text \<open>
  \<^verbatim>\<open>include/priority_fabric/durability.hpp\<close> and \<^verbatim>\<open>src/durability.cpp\<close>: the framing of journal
  records, the scan of one journal segment, the store key file and the segment names. A file is
  the string of its bytes; reading it is the business of the store, so a scan takes the content.
\<close>

section \<open>Layout\<close>

definition kJournalMagic :: u64 where "kJournalMagic = 0x314A4650"
definition kSnapshotMagic :: u64 where "kSnapshotMagic = 0x31534650"
definition kManifestMagic :: u64 where "kManifestMagic = 0x314D4650"
definition kKeyMagic :: u64 where "kKeyMagic = 0x314B4650"

definition kRecordHeaderBytes :: nat where "kRecordHeaderBytes = 4 + 2 + 2 + 8 + 4 + 4"
definition kRecordMacBytes :: nat where "kRecordMacBytes = 16"
definition kRecordOverheadBytes :: nat where "kRecordOverheadBytes = kRecordHeaderBytes + kRecordMacBytes"

definition kMaxRecordsPerSegment :: nat where "kMaxRecordsPerSegment = 4000000"
definition kStoreKeyBytes :: nat where "kStoreKeyBytes = 32"

definition format_version :: u64 where "format_version = ucast kFormatVersion"

text \<open>A little-endian field of a buffer, \<^verbatim>\<open>read_le(bytes + at, width)\<close>.\<close>

definition read_at :: "string \<Rightarrow> nat \<Rightarrow> nat \<Rightarrow> u64" where
  "read_at data at width = read_le (drop at data) width"

definition crc_of :: "string \<Rightarrow> u64" where
  "crc_of data = ucast (crc32c (bytes_of data))"

section \<open>The store key file\<close>

definition encode_key_file :: "string \<Rightarrow> string" where
  "encode_key_file key =
     (let out = append_le (append_le (append_le [] kKeyMagic 4) format_version 2) (of_nat (length key)) 4 @ key
      in append_le out (crc_of out) 4)"

definition decode_key_file :: "string \<Rightarrow> string result" where
  "decode_key_file content =
     (if length content < 4 + 2 + 4 + 4 then
        Inl (make_error St_Corrupt ''store key file is shorter than its fixed header'')
      else if read_at content 0 4 \<noteq> kKeyMagic then
        Inl (make_error St_Corrupt ''store key file has a wrong magic value'')
      else if read_at content 4 2 \<noteq> format_version then
        Inl (make_error St_Unsupported
          (cat [''store key file was written by format version '', u_dec (read_at content 4 2),
                '', this build implements '', u_dec format_version]))
      else
        (let len = unat (read_at content 6 4) in
         if 4 + 2 + 4 + len + 4 \<noteq> length content then
           Inl (make_error St_Corrupt ''store key file length field does not match the file size'')
         else if read_at content (4 + 2 + 4 + len) 4 \<noteq> crc_of (take (length content - 4) content) then
           Inl (make_error St_IntegrityFailure ''store key file failed its checksum; refusing to use a damaged key'')
         else if len \<noteq> kStoreKeyBytes then
           Inl (make_error St_Corrupt
             (cat [''store key is '', to_dec len, '' bytes, expected '', to_dec kStoreKeyBytes]))
         else Inr (take len (drop (4 + 2 + 4) content))))"

section \<open>Record kinds and segment names\<close>

datatype record_kind = Pending | Commit

fun record_kind_value :: "record_kind \<Rightarrow> u64" where
  "record_kind_value Pending = 1"
| "record_kind_value Commit = 2"

fun record_kind_to_string :: "record_kind \<Rightarrow> string" where
  "record_kind_to_string Pending = ''pending''"
| "record_kind_to_string Commit = ''commit''"

definition kJournalBaseName :: string where "kJournalBaseName = ''journal''"
definition kJournalExtension :: string where "kJournalExtension = ''.pfj''"

definition journal_segment_name :: "u32 \<Rightarrow> string" where
  "journal_segment_name index =
     (if index = 0 then kJournalBaseName @ kJournalExtension
      else kJournalBaseName @ ''.'' @ u_dec index @ kJournalExtension)"

text \<open>The digit loop; at most ten digits are read, so the 64-bit accumulator of the source cannot
  wrap.\<close>

fun parse_digits :: "string \<Rightarrow> nat \<Rightarrow> nat option" where
  "parse_digits [] value = Some value"
| "parse_digits (c # cs) value =
     (if of_char c < (48 :: nat) \<or> of_char c > (57 :: nat) then None
      else parse_digits cs (value * 10 + (of_char c - 48)))"

definition parse_journal_segment_name :: "string \<Rightarrow> u32 option" where
  "parse_journal_segment_name name =
     (if length name < length kJournalBaseName + length kJournalExtension then None
      else if take (length kJournalBaseName) name \<noteq> kJournalBaseName then None
      else if drop (length name - length kJournalExtension) name \<noteq> kJournalExtension then None
      else
        (let middle = take (length name - length kJournalBaseName - length kJournalExtension)
               (drop (length kJournalBaseName) name) in
         if middle = [] then Some 0
         else if hd middle \<noteq> CHR ''.'' then None
         else
           (let digits = tl middle in
            if digits = [] \<or> length digits > 10 then None
            else case parse_digits digits 0 of
                None \<Rightarrow> None
              | Some value \<Rightarrow> if value = 0 \<or> value > 0xFFFFFFFF then None else Some (of_nat value))))"

section \<open>Records\<close>

definition journal_record_bytes :: "u64 \<Rightarrow> u64" where
  "journal_record_bytes payload_size =
     (case checked_add payload_size (of_nat kRecordOverheadBytes) of Some n \<Rightarrow> n | None \<Rightarrow> 0)"

definition record_mac :: "string \<Rightarrow> string \<Rightarrow> string \<Rightarrow> string" where
  "record_mac key header payload =
     chars_of (take kRecordMacBytes (hmac_sha256 (bytes_of key) (bytes_of (header @ payload))))"

definition record_header :: "record_kind \<Rightarrow> u64 \<Rightarrow> string \<Rightarrow> string" where
  "record_header kind sequence payload =
     append_le (append_le (append_le (append_le (append_le (append_le []
       kJournalMagic 4) format_version 2) (record_kind_value kind) 2) sequence 8)
       (of_nat (length payload)) 4) (crc_of payload) 4"

definition encode_journal_record :: "record_kind \<Rightarrow> u64 \<Rightarrow> string \<Rightarrow> string \<Rightarrow> string" where
  "encode_journal_record kind sequence payload key =
     (let header = record_header kind sequence payload
      in header @ payload @ record_mac key header payload)"

section \<open>The scan of a segment\<close>

record journal_record =
  jr_kind :: record_kind
  jr_sequence :: u64
  jr_payload :: string
  jr_payload_crc :: u32
  jr_mac_ok :: bool
  jr_file_offset :: nat

record journal_scan_result =
  sc_records :: "journal_record list"
  sc_trailing_bytes :: nat
  sc_integrity_failures :: nat
  sc_records_read :: nat
  sc_failure_detail :: string

text \<open>One iteration of the scan loop: a record with the bytes it occupies, or the end of the scan
  with the detail and the number of integrity failures it adds.\<close>

datatype scan_step = Scanned journal_record nat | Unusable string nat

definition scan_detail :: "nat \<Rightarrow> string list \<Rightarrow> string" where
  "scan_detail offset parts = cat (''journal record at offset '' # to_dec offset # parts)"

definition scan_record :: "string \<Rightarrow> limits \<Rightarrow> string \<Rightarrow> nat \<Rightarrow> scan_step" where
  "scan_record key limits data offset =
     (let remaining = length data - offset in
      if remaining < kRecordHeaderBytes then Unusable [] 0
      else if read_at data offset 4 \<noteq> kJournalMagic then
        Unusable (scan_detail offset ['' has a wrong magic value'']) 0
      else if read_at data (offset + 4) 2 \<noteq> format_version then
        Unusable (scan_detail offset ['' declares format version '', u_dec (read_at data (offset + 4) 2),
          ''; this build implements '', u_dec format_version]) 0
      else
        (let kind_value = read_at data (offset + 6) 2 in
         if kind_value \<noteq> record_kind_value Pending \<and> kind_value \<noteq> record_kind_value Commit then
           Unusable (scan_detail offset ['' declares an unknown kind '', u_dec kind_value]) 0
         else
           (let sequence = read_at data (offset + 8) 8;
                payload_length = read_at data (offset + 16) 4;
                declared_crc = read_at data (offset + 20) 4;
                record_bytes = journal_record_bytes payload_length in
            if unat payload_length > max_record_payload limits then
              Unusable (scan_detail offset ['' declares a payload of '', u_dec payload_length, '' bytes, limit is '',
                to_dec (max_record_payload limits)]) 0
            else if record_bytes = 0 \<or> remaining < unat record_bytes then Unusable [] 0
            else
              (let header = take kRecordHeaderBytes (drop offset data);
                   payload = take (unat payload_length) (drop (offset + kRecordHeaderBytes) data);
                   stored_mac = take kRecordMacBytes (drop (offset + kRecordHeaderBytes + unat payload_length) data) in
               if crc_of payload \<noteq> declared_crc then
                 Unusable (scan_detail offset ['' failed its framing checksum'']) 1
               else if \<not> constant_time_equal (bytes_of stored_mac) (bytes_of (record_mac key header payload)) kRecordMacBytes then
                 Unusable (scan_detail offset ['' failed authentication; the record was altered or the key '',
                   ''does not belong to this store'']) 1
               else
                 Scanned \<lparr>jr_kind = (if kind_value = record_kind_value Pending then Pending else Commit),
                   jr_sequence = sequence, jr_payload = payload, jr_payload_crc = ucast declared_crc,
                   jr_mac_ok = True, jr_file_offset = offset\<rparr> (unat record_bytes)))))"

lemma scan_record_progress:
  assumes "scan_record key limits data offset = Scanned r n"
  shows "0 < n \<and> offset + n \<le> length data"
  using assms by (auto simp: scan_record_def Let_def unat_gt_0 kRecordHeaderBytes_def split: if_splits)

function scan_loop :: "string \<Rightarrow> limits \<Rightarrow> string \<Rightarrow> nat \<Rightarrow> journal_scan_result \<Rightarrow> journal_scan_result" where
  "scan_loop key limits data offset res =
     (if \<not> offset < length data then res
      else if length (sc_records res) \<ge> kMaxRecordsPerSegment then
        res\<lparr>sc_failure_detail := cat [''segment holds more than '', to_dec kMaxRecordsPerSegment, '' records''],
            sc_trailing_bytes := length data - offset\<rparr>
      else
        (case scan_record key limits data offset of
           Unusable detail failures \<Rightarrow>
             res\<lparr>sc_failure_detail := (if detail = [] then sc_failure_detail res else detail),
                 sc_integrity_failures := sc_integrity_failures res + failures,
                 sc_trailing_bytes := length data - offset\<rparr>
         | Scanned r n \<Rightarrow>
             scan_loop key limits data (offset + n)
               (res\<lparr>sc_records_read := Suc (sc_records_read res), sc_records := sc_records res @ [r]\<rparr>)))"
  by pat_completeness auto
termination
  by (relation "measure (\<lambda>(_, _, data, offset, _). length data - offset)") (auto dest: scan_record_progress)

declare scan_loop.simps [simp del]

definition scan_journal_segment :: "string \<Rightarrow> string \<Rightarrow> limits \<Rightarrow> journal_scan_result result" where
  "scan_journal_segment content key limits =
     (if key = [] then
        Inl (make_error St_InvalidArgument ''a journal scan without the store key is not verification'')
      else Inr (scan_loop key limits content 0
        \<lparr>sc_records = [], sc_trailing_bytes = 0, sc_integrity_failures = 0, sc_records_read = 0, sc_failure_detail = []\<rparr>))"

section \<open>Framing lemmas\<close>

lemma length_hmac [simp]: "length (hmac_sha256 key data) = 32"
  by (simp add: hmac_sha256_def Let_def sha_update_update[OF sha_init_wf] sha256_hash_def[symmetric] sha256_hash_length)

lemma length_record_mac [simp]: "length (record_mac key header payload) = kRecordMacBytes"
  by (simp add: record_mac_def kRecordMacBytes_def)

lemma length_record_header [simp]: "length (record_header kind sequence payload) = kRecordHeaderBytes"
  by (simp add: record_header_def append_le_def kRecordHeaderBytes_def)

lemma read_at_field: "length a = at \<Longrightarrow> read_at (a @ le_bytes v w @ b) at w = take_bit (8 * w) v"
  by (simp add: read_at_def read_le_append read_le_le_bytes)

lemma le_bytes_read_at: "w \<le> 8 \<Longrightarrow> at + w \<le> length data \<Longrightarrow> le_bytes (read_at data at w) w = take w (drop at data)"
  unfolding read_at_def
  using le_bytes_read_le[of w "take w (drop at data)"] read_le_append[of w "take w (drop at data)" "drop w (drop at data)"]
  by (simp only: append_take_drop_id) simp

lemma read_at_shift: "length pre = n \<Longrightarrow> read_at (pre @ data) (n + k) w = read_at data k w"
  by (simp add: read_at_def)

definition payload_ok :: "limits \<Rightarrow> string \<Rightarrow> bool" where
  "payload_ok limits payload \<longleftrightarrow> length payload \<le> max_record_payload limits \<and> length payload < 2 ^ 32"

lemma narrow_length: "n < 2 ^ 32 \<Longrightarrow> unat (take_bit 32 (of_nat n :: u64)) = n"
  by (simp add: unsigned_take_bit_eq take_bit_nat_eq_self unat_of_nat take_bit_nat_less_exp)

lemma small_fields [simp]:
  "take_bit 32 kJournalMagic = kJournalMagic" "take_bit 16 format_version = format_version"
  "take_bit 16 (record_kind_value kind) = record_kind_value kind" "take_bit 64 (v :: u64) = v"
  by (simp_all add: kJournalMagic_def format_version_def kFormatVersion_def take_bit_word_eq_self)
    (cases kind; simp)

lemma crc_field [simp]: "take_bit 32 (crc_of payload) = crc_of payload"
  unfolding crc_of_def by (rule bit_word_eqI) (auto simp: bit_simps dest: bit_imp_le_length)

text \<open>The fields of a header, wherever it stands in a buffer.\<close>

lemma header_fields:
  fixes kind sequence payload
  defines "h \<equiv> record_header kind sequence payload"
  assumes "length pre = n"
  shows "read_at (pre @ h @ rest) n 4 = kJournalMagic" "read_at (pre @ h @ rest) (n + 4) 2 = format_version"
    and "read_at (pre @ h @ rest) (n + 6) 2 = record_kind_value kind" "read_at (pre @ h @ rest) (n + 8) 8 = sequence"
    and "read_at (pre @ h @ rest) (n + 16) 4 = take_bit 32 (of_nat (length payload))"
    and "read_at (pre @ h @ rest) (n + 20) 4 = crc_of payload"
proof -
  let ?l = "le_bytes (of_nat (length payload)) 4" and ?c = "le_bytes (crc_of payload) 4"
  let ?m = "le_bytes kJournalMagic 4" and ?f = "le_bytes format_version 2"
  let ?k = "le_bytes (record_kind_value kind) 2" and ?s = "le_bytes sequence 8"
  have h: "h = ?m @ ?f @ ?k @ ?s @ ?l @ ?c" by (simp add: h_def record_header_def append_le_def)
  show "read_at (pre @ h @ rest) n 4 = kJournalMagic"
    using read_at_field[of pre n kJournalMagic 4 "?f @ ?k @ ?s @ ?l @ ?c @ rest"] assms(2) by (simp add: h)
  show "read_at (pre @ h @ rest) (n + 4) 2 = format_version"
    using read_at_field[of "pre @ ?m" "n + 4" format_version 2 "?k @ ?s @ ?l @ ?c @ rest"] assms(2) by (simp add: h)
  show "read_at (pre @ h @ rest) (n + 6) 2 = record_kind_value kind"
    using read_at_field[of "pre @ ?m @ ?f" "n + 6" "record_kind_value kind" 2 "?s @ ?l @ ?c @ rest"] assms(2) by (simp add: h)
  show "read_at (pre @ h @ rest) (n + 8) 8 = sequence"
    using read_at_field[of "pre @ ?m @ ?f @ ?k" "n + 8" sequence 8 "?l @ ?c @ rest"] assms(2) by (simp add: h)
  show "read_at (pre @ h @ rest) (n + 16) 4 = take_bit 32 (of_nat (length payload))"
    using read_at_field[of "pre @ ?m @ ?f @ ?k @ ?s" "n + 16" "of_nat (length payload)" 4 "?c @ rest"] assms(2) by (simp add: h)
  show "read_at (pre @ h @ rest) (n + 20) 4 = crc_of payload"
    using read_at_field[of "pre @ ?m @ ?f @ ?k @ ?s @ ?l" "n + 20" "crc_of payload" 4 rest] assms(2) by (simp add: h)
qed

text \<open>The size of a record on disk.\<close>

lemma record_bytes_small:
  assumes "unat n < 2 ^ 32"
  shows "unat (journal_record_bytes n) = unat n + kRecordOverheadBytes" "journal_record_bytes n \<noteq> 0"
proof -
  have "unat (n + 40) = unat n + 40" using assms by (subst unat_add_lem[THEN iffD1]) simp_all
  moreover have "n \<le> - 1 - 40" using assms by (simp add: word_le_nat_alt)
  then have "checked_add n 40 = Some (n + 40)" by (simp add: checked_add_def)
  ultimately show u: "unat (journal_record_bytes n) = unat n + kRecordOverheadBytes"
    by (simp add: journal_record_bytes_def kRecordOverheadBytes_def kRecordHeaderBytes_def kRecordMacBytes_def)
  show "journal_record_bytes n \<noteq> 0"
    using u by (auto simp: kRecordOverheadBytes_def kRecordHeaderBytes_def kRecordMacBytes_def)
qed

lemma length_encoded [simp]:
  "length (encode_journal_record kind sequence payload key) = length payload + kRecordOverheadBytes"
  by (simp add: encode_journal_record_def Let_def kRecordOverheadBytes_def)

text \<open>The record the scan reports for an encoding at an offset.\<close>

definition scanned :: "record_kind \<Rightarrow> u64 \<Rightarrow> string \<Rightarrow> nat \<Rightarrow> journal_record" where
  "scanned kind sequence payload offset =
     \<lparr>jr_kind = kind, jr_sequence = sequence, jr_payload = payload, jr_payload_crc = crc32c (bytes_of payload),
      jr_mac_ok = True, jr_file_offset = offset\<rparr>"

lemma scan_record_encoded:
  assumes "payload_ok limits payload" and "length pre = offset"
  shows "scan_record key limits (pre @ encode_journal_record kind sequence payload key @ rest) offset =
    Scanned (scanned kind sequence payload offset) (length payload + kRecordOverheadBytes)"
proof -
  let ?h = "record_header kind sequence payload" and ?len = "take_bit 32 (of_nat (length payload)) :: u64"
  let ?tail = "payload @ record_mac key ?h payload @ rest"
  let ?data = "pre @ ?h @ ?tail"
  have data: "pre @ encode_journal_record kind sequence payload key @ rest = ?data"
    by (simp add: encode_journal_record_def Let_def)
  note f = header_fields[OF assms(2), of kind sequence payload ?tail]
  have len: "unat ?len = length payload" using assms(1) narrow_length by (simp add: payload_ok_def)
  have small: "length payload \<le> max_record_payload limits" using assms(1) by (simp add: payload_ok_def)
  note bytes = record_bytes_small[of ?len, unfolded len]
  have cuts: "take kRecordHeaderBytes (drop offset ?data) = ?h"
    "take (length payload) (drop (offset + kRecordHeaderBytes) ?data) = payload"
    "take kRecordMacBytes (drop (offset + kRecordHeaderBytes + length payload) ?data) = record_mac key ?h payload"
    using assms(2) by (simp_all add: add.assoc)
  have kinds: "(if record_kind_value kind = record_kind_value Pending then Pending else Commit) = kind"
    "record_kind_value kind = record_kind_value Pending \<or> record_kind_value kind = record_kind_value Commit"
    by (cases kind; simp)+
  have crc: "(ucast (crc_of payload) :: u32) = crc32c (bytes_of payload)"
    unfolding crc_of_def by (rule bit_word_eqI) (simp add: bit_simps)
  have same: "constant_time_equal (bytes_of m) (bytes_of m) kRecordMacBytes" if "length m = kRecordMacBytes" for m
    using that by (simp add: constant_time_equal_iff)
  have room: "\<not> length ?data - offset < kRecordHeaderBytes"
    "\<not> length ?data - offset < length payload + kRecordOverheadBytes"
    using assms(2) by (simp_all add: kRecordOverheadBytes_def)
  have ok: "length payload < 2 ^ 32" using assms(1) by (simp add: payload_ok_def)
  show ?thesis
    unfolding data scan_record_def Let_def f len cuts
    using room kinds bytes ok small by (simp add: crc same scanned_def)
qed

lemma unat_read_at: "w \<le> 7 \<Longrightarrow> unat (read_at data at w) < 2 ^ (8 * w)"
proof -
  assume w: "w \<le> 7"
  have "take_bit (8 * w) (read_at data at w) = read_at data at w"
    unfolding read_at_def by (rule bit_word_eqI) (auto simp: bit_simps bit_read_le)
  then have "unat (read_at data at w) = take_bit (8 * w) (unat (read_at data at w))"
    using unsigned_take_bit_eq[of "8 * w" "read_at data at w"] by simp
  then show ?thesis using take_bit_nat_less_exp[of "8 * w" "unat (read_at data at w)"] by simp
qed

lemma cut_header:
  "take 24 xs = take 4 xs @ take 2 (drop 4 xs) @ take 2 (drop 6 xs) @ take 8 (drop 8 xs) @ take 4 (drop 16 xs) @ take 4 (drop 20 xs)"
  using take_add[of 4 20 xs] take_add[of 2 18 "drop 4 xs"] take_add[of 2 16 "drop 6 xs"] take_add[of 8 8 "drop 8 xs"]
    take_add[of 4 4 "drop 16 xs"] by simp

lemma cut_parts:
  "drop n xs = take a (drop n xs) @ take b (drop (n + a) xs) @ take c (drop (n + a + b) xs) @ drop (n + a + b + c) xs"
proof -
  have step: "drop k xs = take m (drop k xs) @ drop (k + m) xs" for k m
    using append_take_drop_id[of m "drop k xs"] by (simp add: add.commute)
  show ?thesis
    using step[of n a] step[of "n + a" b] step[of "n + a + b" c] by simp
qed

text \<open>A record the scan reports stands in the buffer as the encoding under the key.\<close>

lemma scan_record_sound:
  assumes "scan_record key limits data offset = Scanned r n"
  shows "\<exists>kind sequence payload. r = scanned kind sequence payload offset \<and> payload_ok limits payload \<and>
    n = length payload + kRecordOverheadBytes \<and>
    drop offset data = encode_journal_record kind sequence payload key @ drop (offset + n) data"
proof -
  define len where "len = read_at data (offset + 16) 4"
  define kv where "kv = read_at data (offset + 6) 2"
  define h where "h = take kRecordHeaderBytes (drop offset data)"
  define payload where "payload = take (unat len) (drop (offset + kRecordHeaderBytes) data)"
  define mac where "mac = take kRecordMacBytes (drop (offset + kRecordHeaderBytes + unat len) data)"
  define kind where "kind = (if kv = record_kind_value Pending then Pending else Commit)"
  have len32: "unat len < 2 ^ 32" unfolding len_def using unat_read_at[of 4 data "offset + 16"] by simp
  note bytes = record_bytes_small[OF len32]
  from assms have facts: "kRecordHeaderBytes \<le> length data - offset" "read_at data offset 4 = kJournalMagic"
      "read_at data (offset + 4) 2 = format_version" "kv = record_kind_value Pending \<or> kv = record_kind_value Commit"
      "unat len \<le> max_record_payload limits" "unat (journal_record_bytes len) \<le> length data - offset"
      "crc_of payload = read_at data (offset + 20) 4"
      "constant_time_equal (bytes_of mac) (bytes_of (record_mac key h payload)) kRecordMacBytes"
      "n = unat (journal_record_bytes len)"
      "r = \<lparr>jr_kind = kind, jr_sequence = read_at data (offset + 8) 8, jr_payload = payload,
        jr_payload_crc = ucast (read_at data (offset + 20) 4), jr_mac_ok = True, jr_file_offset = offset\<rparr>"
    unfolding len_def[symmetric] kv_def[symmetric] scan_record_def Let_def h_def payload_def mac_def kind_def
    by (simp_all split: if_splits)
  have room: "unat len + 40 \<le> length data - offset" using facts(6) bytes(1)
    by (simp add: kRecordOverheadBytes_def kRecordHeaderBytes_def kRecordMacBytes_def)
  then have plen: "length payload = unat len" and mlen: "length mac = kRecordMacBytes"
    by (simp_all add: payload_def mac_def kRecordHeaderBytes_def kRecordMacBytes_def)
  have kv: "kv = record_kind_value kind" using facts(4) by (auto simp: kind_def)
  have mac: "mac = record_mac key h payload"
  proof -
    have "bytes_of mac = bytes_of (record_mac key h payload)"
      using facts(8) mlen by (simp add: constant_time_equal_iff)
    then show ?thesis by (metis bytes_chars_roundtrip(2))
  qed
  have field: "le_bytes (read_at data (offset + k) w) w = take w (drop (offset + k) data)" if "w \<le> 8" "k + w \<le> 24" for k w
    using that room by (intro le_bytes_read_at) auto
  have "h = le_bytes (read_at data offset 4) 4 @ le_bytes (read_at data (offset + 4) 2) 2 @
      le_bytes (read_at data (offset + 6) 2) 2 @ le_bytes (read_at data (offset + 8) 8) 8 @
      le_bytes (read_at data (offset + 16) 4) 4 @ le_bytes (read_at data (offset + 20) 4) 4"
    using field[of 4 0] field[of 2 4] field[of 2 6] field[of 8 8] field[of 4 16] field[of 4 20] cut_header[of "drop offset data"]
    by (simp add: h_def kRecordHeaderBytes_def add.commute)
  then have h: "h = record_header kind (read_at data (offset + 8) 8) payload"
    using facts(2,3,7) kv plen by (simp add: record_header_def append_le_def kv_def[symmetric] len_def[symmetric])
  have "drop offset data = h @ payload @ mac @ drop (offset + n) data"
    using bytes(1) facts(9) cut_parts[of offset data kRecordHeaderBytes "unat len" kRecordMacBytes]
    by (simp add: h_def payload_def mac_def kRecordOverheadBytes_def ac_simps)
  moreover have "(ucast (crc_of payload) :: u32) = crc32c (bytes_of payload)"
    unfolding crc_of_def by (rule bit_word_eqI) (simp add: bit_simps)
  ultimately show ?thesis
    using facts(5,7,9,10) bytes(1) plen len32 h mac
    by (intro exI[of _ kind] exI[of _ "read_at data (offset + 8) 8"] exI[of _ payload])
      (simp add: scanned_def payload_ok_def encode_journal_record_def Let_def)
qed

text \<open>A run of encoded records, at an offset.\<close>

type_synonym framed = "record_kind \<times> u64 \<times> string"

definition frame :: "string \<Rightarrow> framed \<Rightarrow> string" where
  "frame key = (\<lambda>(kind, sequence, payload). encode_journal_record kind sequence payload key)"

definition frames :: "string \<Rightarrow> framed list \<Rightarrow> string" where
  "frames key rs = concat (map (frame key) rs)"

definition framed_ok :: "limits \<Rightarrow> framed \<Rightarrow> bool" where
  "framed_ok limits = (\<lambda>(_, _, payload). payload_ok limits payload)"

fun scanned_at :: "string \<Rightarrow> nat \<Rightarrow> framed list \<Rightarrow> journal_record list" where
  "scanned_at key offset [] = []"
| "scanned_at key offset (r # rs) =
     (case r of (kind, sequence, payload) \<Rightarrow> scanned kind sequence payload offset) #
       scanned_at key (offset + length (frame key r)) rs"

lemma frames_simps [simp]: "frames key [] = []" "frames key (r # rs) = frame key r @ frames key rs"
  "frames key (rs @ ss) = frames key rs @ frames key ss"
  by (simp_all add: frames_def)

lemma length_frame: "0 < length (frame key r)"
  by (cases r) (simp add: frame_def kRecordOverheadBytes_def kRecordHeaderBytes_def)

lemma length_scanned_at [simp]: "length (scanned_at key offset rs) = length rs"
  by (induction rs arbitrary: offset) auto

lemma scanned_at_append:
  "scanned_at key offset (rs @ ss) = scanned_at key offset rs @ scanned_at key (offset + length (frames key rs)) ss"
  by (induction rs arbitrary: offset) (simp_all add: add.assoc)

definition add_records :: "journal_record list \<Rightarrow> journal_scan_result \<Rightarrow> journal_scan_result" where
  "add_records rs res = res\<lparr>sc_records_read := sc_records_read res + length rs, sc_records := sc_records res @ rs\<rparr>"

lemma scan_loop_frames:
  assumes "list_all (framed_ok limits) rs" and "length (sc_records res) + length rs \<le> kMaxRecordsPerSegment"
    and "length pre = offset"
  shows "scan_loop key limits (pre @ frames key rs @ rest) offset res =
    scan_loop key limits (pre @ frames key rs @ rest) (offset + length (frames key rs))
      (add_records (scanned_at key offset rs) res)"
  using assms
proof (induction rs arbitrary: pre offset res)
  case Nil
  then show ?case by (simp add: add_records_def)
next
  case (Cons r rs)
  obtain kind sequence payload where r: "r = (kind, sequence, payload)" by (cases r)
  let ?data = "pre @ frames key (r # rs) @ rest"
  have "scan_record key limits ?data offset = Scanned (scanned kind sequence payload offset) (length (frame key r))"
    using Cons.prems(1,3) scan_record_encoded[of limits payload pre offset key kind sequence "frames key rs @ rest"]
    by (simp add: r frame_def framed_ok_def)
  then have "scan_loop key limits ?data offset res =
      scan_loop key limits ((pre @ frame key r) @ frames key rs @ rest) (offset + length (frame key r))
        (add_records [scanned kind sequence payload offset] res)"
    using Cons.prems(2,3) length_frame[of key r]
    by (subst scan_loop.simps) (simp add: add_records_def)
  also have "\<dots> = scan_loop key limits ((pre @ frame key r) @ frames key rs @ rest)
      (offset + length (frame key r) + length (frames key rs))
      (add_records (scanned_at key (offset + length (frame key r)) rs) (add_records [scanned kind sequence payload offset] res))"
    using Cons.prems by (intro Cons.IH) (simp_all add: add_records_def)
  finally show ?case by (simp add: r add_records_def add.assoc)
qed

text \<open>Whatever the content, what a scan reports is a run of encodings at its start.\<close>

lemma scan_loop_sound:
  assumes "offset \<le> length data" and "sc_trailing_bytes res = 0"
  shows "\<exists>rs rest. list_all (framed_ok limits) rs \<and> drop offset data = frames key rs @ rest \<and>
    sc_records (scan_loop key limits data offset res) = sc_records res @ scanned_at key offset rs \<and>
    sc_records_read (scan_loop key limits data offset res) = sc_records_read res + length rs \<and>
    sc_trailing_bytes (scan_loop key limits data offset res) = length rest"
  using assms
proof (induction key limits data offset res rule: scan_loop.induct)
  case (1 key limits data offset res)
  let ?stop = "\<lambda>res'. scan_loop key limits data offset res = res' \<and> sc_records res' = sc_records res \<and>
    sc_records_read res' = sc_records_read res \<and> sc_trailing_bytes res' = length data - offset"
  have stopped: ?case if "?stop res'" for res'
    using that by (intro exI[of _ "[]"] exI[of _ "drop offset data"]) simp
  show ?case
  proof (cases "\<not> offset < length data \<or> length (sc_records res) \<ge> kMaxRecordsPerSegment")
    case True
    then show ?thesis
      using "1.prems" stopped[of "scan_loop key limits data offset res"] by (auto simp: scan_loop.simps[of key limits data offset res])
  next
    case False
    show ?thesis
    proof (cases "scan_record key limits data offset")
      case (Unusable detail failures)
      then show ?thesis
        using False stopped[of "scan_loop key limits data offset res"] by (simp add: scan_loop.simps[of key limits data offset res])
    next
      case (Scanned r n)
      let ?res = "res\<lparr>sc_records_read := Suc (sc_records_read res), sc_records := sc_records res @ [r]\<rparr>"
      have loop: "scan_loop key limits data offset res = scan_loop key limits data (offset + n) ?res"
        using False Scanned by (simp add: scan_loop.simps[of key limits data offset res])
      obtain kind sequence payload where p: "r = scanned kind sequence payload offset" "payload_ok limits payload"
          "n = length payload + kRecordOverheadBytes"
          "drop offset data = encode_journal_record kind sequence payload key @ drop (offset + n) data"
        using scan_record_sound[OF Scanned] by blast
      obtain rs rest where ih: "list_all (framed_ok limits) rs" "drop (offset + n) data = frames key rs @ rest"
          "sc_records (scan_loop key limits data (offset + n) ?res) = sc_records ?res @ scanned_at key (offset + n) rs"
          "sc_records_read (scan_loop key limits data (offset + n) ?res) = sc_records_read ?res + length rs"
          "sc_trailing_bytes (scan_loop key limits data (offset + n) ?res) = length rest"
        using "1.IH"[OF _ _ Scanned] False scan_record_progress[OF Scanned] "1.prems"(2) by auto
      show ?thesis
        using ih p unfolding loop
        by (intro exI[of _ "(kind, sequence, payload) # rs"] exI[of _ rest]) (simp add: framed_ok_def frame_def)
    qed
  qed
qed

text \<open>An append that was cut short leaves a strict prefix of a record, which the scan reports as
  trailing bytes and nothing else.\<close>

definition torn :: "string \<Rightarrow> limits \<Rightarrow> string \<Rightarrow> bool" where
  "torn key limits t \<longleftrightarrow> (\<exists>r more. framed_ok limits r \<and> frame key r = t @ more \<and> more \<noteq> [])"

lemma torn_prefix: "framed_ok limits r \<Longrightarrow> n < length (frame key r) \<Longrightarrow> torn key limits (take n (frame key r))"
  unfolding torn_def by (intro exI[of _ r] exI[of _ "drop n (frame key r)"]) simp

lemma scan_record_torn:
  assumes "torn key limits t" and "length pre = offset"
  shows "scan_record key limits (pre @ t) offset = Unusable [] 0"
proof (cases "length t < kRecordHeaderBytes")
  case True
  then show ?thesis using assms(2) by (simp add: scan_record_def)
next
  case False
  obtain kind sequence payload more where r: "payload_ok limits payload" "more \<noteq> []"
      "encode_journal_record kind sequence payload key = t @ more"
    using assms(1) by (auto simp: torn_def framed_ok_def frame_def)
  let ?h = "record_header kind sequence payload" and ?len = "take_bit 32 (of_nat (length payload)) :: u64"
  have "take kRecordHeaderBytes t = ?h"
    using arg_cong[OF r(3), of "take kRecordHeaderBytes"] False by (simp add: encode_journal_record_def Let_def)
  then have t: "t = ?h @ drop kRecordHeaderBytes t" by (metis append_take_drop_id)
  note f = header_fields[OF assms(2), of kind sequence payload "drop kRecordHeaderBytes t", folded t]
  have len: "unat ?len = length payload" using r(1) narrow_length by (simp add: payload_ok_def)
  note bytes = record_bytes_small[of ?len, unfolded len]
  have ok: "length payload < 2 ^ 32" "length payload \<le> max_record_payload limits" using r(1) by (simp_all add: payload_ok_def)
  have "length t < length payload + kRecordOverheadBytes"
    using arg_cong[OF r(3), of length] r(2) by (cases more) simp_all
  moreover have "record_kind_value kind = record_kind_value Pending \<or> record_kind_value kind = record_kind_value Commit"
    by (cases kind) simp_all
  ultimately show ?thesis
    unfolding scan_record_def Let_def f len using False assms(2) bytes ok by auto
qed

text \<open>The scan of complete records followed by a torn one, or by nothing.\<close>

lemma scan_segment_frames:
  assumes "key \<noteq> []" and "list_all (framed_ok limits) rs" and "length rs < kMaxRecordsPerSegment"
    and "torn key limits t \<or> t = []"
  shows "scan_journal_segment (frames key rs @ t) key limits =
    Inr \<lparr>sc_records = scanned_at key 0 rs, sc_trailing_bytes = length t, sc_integrity_failures = 0,
      sc_records_read = length rs, sc_failure_detail = []\<rparr>"
proof -
  let ?res = "\<lparr>sc_records = scanned_at key 0 rs, sc_trailing_bytes = 0, sc_integrity_failures = 0,
      sc_records_read = length rs, sc_failure_detail = []\<rparr>"
  have "scan_loop key limits (frames key rs @ t) (length (frames key rs)) ?res = ?res\<lparr>sc_trailing_bytes := length t\<rparr>"
  proof (cases "t = []")
    case True
    then show ?thesis by (subst scan_loop.simps) simp
  next
    case False
    then show ?thesis
      using assms(3,4) scan_record_torn[of key limits t "frames key rs" "length (frames key rs)"]
      by (subst scan_loop.simps) simp
  qed
  then show ?thesis
    using scan_loop_frames[OF assms(2), of "\<lparr>sc_records = [], sc_trailing_bytes = 0, sc_integrity_failures = 0,
      sc_records_read = 0, sc_failure_detail = []\<rparr>" "[]" 0 key t] assms(1,3)
    by (simp add: scan_journal_segment_def add_records_def)
qed

text \<open>The scan of complete records followed by one whose payload does not have the checksum its header
  declares: it ends there, with one integrity failure.\<close>

lemma scan_record_altered:
  assumes "payload_ok limits payload" "length payload' = length payload" "crc_of payload' \<noteq> crc_of payload"
    and "length mac = kRecordMacBytes" "length pre = offset"
  shows "\<exists>detail. detail \<noteq> [] \<and>
    scan_record key limits (pre @ record_header kind sequence payload @ payload' @ mac @ rest) offset = Unusable detail 1"
proof -
  let ?h = "record_header kind sequence payload" and ?len = "take_bit 32 (of_nat (length payload)) :: u64"
  note f = header_fields[OF assms(5), of kind sequence payload "payload' @ mac @ rest"]
  have len: "unat ?len = length payload" using assms(1) narrow_length by (simp add: payload_ok_def)
  note bytes = record_bytes_small[of ?len, unfolded len]
  have ok: "length payload < 2 ^ 32" "length payload \<le> max_record_payload limits" using assms(1) by (simp_all add: payload_ok_def)
  have "record_kind_value kind = record_kind_value Pending \<or> record_kind_value kind = record_kind_value Commit"
    by (cases kind) simp_all
  then show ?thesis
    unfolding scan_record_def Let_def f len using assms bytes ok
    by (auto simp: scan_detail_def cat_def kRecordOverheadBytes_def)
qed

lemma scan_segment_altered:
  fixes kind sequence rest
  assumes "key \<noteq> []" "list_all (framed_ok limits) rs" "length rs < kMaxRecordsPerSegment"
    and "payload_ok limits payload" "length payload' = length payload" "crc_of payload' \<noteq> crc_of payload" "length mac = kRecordMacBytes"
  defines "bad \<equiv> record_header kind sequence payload @ payload' @ mac @ rest"
  shows "\<exists>detail. scan_journal_segment (frames key rs @ bad) key limits =
    Inr \<lparr>sc_records = scanned_at key 0 rs, sc_trailing_bytes = length bad, sc_integrity_failures = 1,
      sc_records_read = length rs, sc_failure_detail = detail\<rparr>"
proof -
  let ?res = "\<lparr>sc_records = scanned_at key 0 rs, sc_trailing_bytes = 0, sc_integrity_failures = 0,
      sc_records_read = length rs, sc_failure_detail = []\<rparr>"
  obtain detail where r: "detail \<noteq> []" "scan_record key limits (frames key rs @ bad) (length (frames key rs)) = Unusable detail 1"
    using scan_record_altered[OF assms(4-7) refl, where pre = "frames key rs"] unfolding bad_def by blast
  have "bad \<noteq> []" using assms(7) by (auto simp: bad_def kRecordMacBytes_def)
  then have "scan_loop key limits (frames key rs @ bad) (length (frames key rs)) ?res =
      ?res\<lparr>sc_trailing_bytes := length bad, sc_integrity_failures := 1, sc_failure_detail := detail\<rparr>"
    using assms(3) r by (subst scan_loop.simps) simp
  then show ?thesis
    using scan_loop_frames[OF assms(2), of "\<lparr>sc_records = [], sc_trailing_bytes = 0, sc_integrity_failures = 0,
      sc_records_read = 0, sc_failure_detail = []\<rparr>" "[]" 0 key bad] assms(1,3)
    by (simp add: scan_journal_segment_def add_records_def)
qed

section \<open>Names and keys\<close>

lemma parse_digits_append:
  "parse_digits (xs @ ys) v = (case parse_digits xs v of None \<Rightarrow> None | Some w \<Rightarrow> parse_digits ys w)"
  by (induction xs arbitrary: v) auto

lemma parse_digit: "d < 10 \<Longrightarrow> parse_digits [digit_char d] v = Some (v * 10 + d)"
  by (simp add: digit_char_def)

lemma parse_to_dec: "parse_digits (to_dec n) 0 = Some n"
proof (induction n rule: to_dec.induct)
  case (1 n)
  then show ?case
    using parse_digit[of n 0] parse_digit[of "n mod 10" "n div 10"]
    by (subst to_dec.simps) (auto simp: parse_digits_append simp del: parse_digits.simps)
qed

lemma length_to_dec: "n < 10 ^ Suc k \<Longrightarrow> length (to_dec n) \<le> Suc k"
proof (induction k arbitrary: n)
  case 0
  then show ?case by (subst to_dec.simps) simp
next
  case (Suc k)
  have "n div 10 < 10 ^ Suc k" using Suc.prems by (simp add: less_mult_imp_div_less)
  then show ?case using Suc.IH by (subst to_dec.simps) simp
qed

lemma to_dec_nonempty: "to_dec n \<noteq> []"
  by (subst to_dec.simps) simp

lemma segment_name_parses: "parse_journal_segment_name (journal_segment_name index) = Some index"
proof (cases "index = 0")
  case True
  then show ?thesis
    by (simp add: parse_journal_segment_name_def journal_segment_name_def kJournalBaseName_def kJournalExtension_def)
next
  case False
  have lt: "unat index < 2 ^ 32" using unsigned_less[of index, where ?'a = nat] by simp
  then have "unat index < 10 ^ Suc 9" by simp
  then have "length (u_dec index) \<le> 10" using length_to_dec[of "unat index" 9] by simp
  moreover have "unat index \<le> 0xFFFFFFFF" using lt by simp
  ultimately show ?thesis
    using False to_dec_nonempty[of "unat index"] parse_to_dec[of "unat index"]
    by (simp add: parse_journal_segment_name_def journal_segment_name_def kJournalBaseName_def kJournalExtension_def
        Let_def unat_eq_zero)
qed

lemma key_file_iff:
  "decode_key_file content = Inr key \<longleftrightarrow> length key = kStoreKeyBytes \<and> content = encode_key_file key"
proof
  assume dec: "decode_key_file content = Inr key"
  define len where "len = unat (read_at content 6 4)"
  from dec have d: "\<not> length content < 14" "read_at content 0 4 = kKeyMagic" "read_at content 4 2 = format_version"
      "length content = len + 14" "read_at content (10 + len) 4 = crc_of (take (length content - 4) content)"
      "len = kStoreKeyBytes" "key = take len (drop 10 content)"
    by (auto simp: decode_key_file_def Let_def len_def split: if_splits)
  have k: "length key = kStoreKeyBytes" using d(4,6,7) by simp
  have head: "take 10 content = le_bytes kKeyMagic 4 @ le_bytes format_version 2 @ le_bytes (of_nat (length key)) 4"
  proof -
    have "take 10 content = take 4 content @ take 2 (drop 4 content) @ take 4 (drop 6 content)"
      using take_add[of 4 6 content] take_add[of 2 4 "drop 4 content"] by simp
    moreover have "read_at content 6 4 = of_nat (length key)"
    proof -
      have "read_at content 6 4 = of_nat len" by (simp add: len_def)
      then show ?thesis using d(6) k by simp
    qed
    ultimately show ?thesis
      using le_bytes_read_at[of 4 0 content] le_bytes_read_at[of 2 4 content] le_bytes_read_at[of 4 6 content] d(2,3,4) by simp
  qed
  have body: "take (length content - 4) content = take 10 content @ key"
    using d(4,7) take_add[of 10 len content] by simp
  have "content = take (length content - 4) content @ take 4 (drop (10 + len) content)"
    using d(4) append_take_drop_id[of "len + 10" content] by (simp add: add.commute)
  also have "take 4 (drop (10 + len) content) = le_bytes (crc_of (take 10 content @ key)) 4"
    using le_bytes_read_at[of 4 "10 + len" content] d(4,5) body by simp
  finally show "length key = kStoreKeyBytes \<and> content = encode_key_file key"
    using k head body by (simp add: encode_key_file_def Let_def append_le_def)
next
  assume "length key = kStoreKeyBytes \<and> content = encode_key_file key"
  then have k: "length key = 32" and content: "content = encode_key_file key" by (simp_all add: kStoreKeyBytes_def)
  let ?m = "le_bytes kKeyMagic 4" and ?f = "le_bytes format_version 2" and ?l = "le_bytes (of_nat (length key) :: u64) 4"
  let ?out = "?m @ ?f @ ?l @ key"
  have c: "content = ?out @ le_bytes (crc_of ?out) 4" by (simp add: content encode_key_file_def Let_def append_le_def)
  have "read_at content 0 4 = kKeyMagic" "read_at content 4 2 = format_version" "read_at content 6 4 = 32"
    using read_at_field[of "[]" 0 kKeyMagic 4 "?f @ ?l @ key @ le_bytes (crc_of ?out) 4"]
      read_at_field[of "?m" 4 format_version 2 "?l @ key @ le_bytes (crc_of ?out) 4"]
      read_at_field[of "?m @ ?f" 6 "of_nat (length key)" 4 "key @ le_bytes (crc_of ?out) 4"] k
    by (simp_all add: c kKeyMagic_def)
  moreover have "read_at content 42 4 = crc_of ?out" using read_at_field[of ?out 42 "crc_of ?out" 4 "[]"] k by (simp add: c)
  ultimately show "decode_key_file content = Inr key"
    using k by (simp add: decode_key_file_def Let_def kStoreKeyBytes_def) (simp add: c)
qed

section \<open>Properties\<close>

text \<open>C39: a journal survives a crash in the middle of an append. Scanning a segment that holds
  complete records followed by a strict prefix of a further one reports exactly those records, in
  order and with their offsets, counts the prefix as trailing bytes, and reports no integrity
  failure and no failure detail.\<close>

theorem journal_scan_recovers_records:
  assumes "key \<noteq> []" and "list_all (framed_ok limits) rs" and "length rs < kMaxRecordsPerSegment"
    and "framed_ok limits r" and "n < length (frame key r)"
  shows "scan_journal_segment (frames key rs @ take n (frame key r)) key limits =
    Inr \<lparr>sc_records = scanned_at key 0 rs, sc_trailing_bytes = n, sc_integrity_failures = 0,
      sc_records_read = length rs, sc_failure_detail = []\<rparr>"
  using scan_segment_frames[OF assms(1-3), of "take n (frame key r)"] torn_prefix[OF assms(4,5)] assms(5) by simp

theorem journal_scan_recovers_records_witness:
  "\<exists>res. scan_journal_segment (frames ''k'' [(Pending, 1, ''payload'')] @ take 30 (frame ''k'' (Commit, 1, ''done''))) ''k''
      compiled_limits_ceiling = Inr res \<and> sc_trailing_bytes res = 30 \<and> sc_records_read res = 1"
  using journal_scan_recovers_records[of "''k''" compiled_limits_ceiling "[(Pending, 1, ''payload'')]" "(Commit, 1, ''done'')" 30]
  by (simp add: framed_ok_def payload_ok_def compiled_limits_ceiling_def kMaxRecordsPerSegment_def frame_def
      kRecordOverheadBytes_def kRecordHeaderBytes_def kRecordMacBytes_def)

text \<open>C40: a scan only reports authentic records. Whatever the content of the segment, the records
  reported are those of a run of complete record encodings under the store key at its start, each
  with its checksum and its authentication tag over header and payload, and the trailing bytes
  are exactly what follows the run; nothing after the first unusable byte is read.\<close>

theorem journal_scan_authentic:
  assumes "scan_journal_segment content key limits = Inr res"
  shows "\<exists>rs rest. content = frames key rs @ rest \<and> list_all (framed_ok limits) rs \<and>
    sc_records res = scanned_at key 0 rs \<and> sc_records_read res = length rs \<and> sc_trailing_bytes res = length rest"
  using assms scan_loop_sound[of 0 content "\<lparr>sc_records = [], sc_trailing_bytes = 0, sc_integrity_failures = 0,
      sc_records_read = 0, sc_failure_detail = []\<rparr>" limits key]
  by (auto simp: scan_journal_segment_def split: if_splits)

lemma altered_checksum: "crc_of ''n'' \<noteq> crc_of ''y''"
proof -
  have eight: "(crc_bit ^^ 8) x = crc_bit (crc_bit (crc_bit (crc_bit (crc_bit (crc_bit (crc_bit (crc_bit x)))))))" for x
    by (simp add: numeral_eq_Suc)
  have start: "NOT 0 XOR ucast (110 :: u8) = (0xFFFFFF91 :: u32)" "NOT 0 XOR ucast (121 :: u8) = (0xFFFFFF86 :: u32)"
    by code_simp+
  have "crc32c [110] = NOT ((crc_bit ^^ 8) 0xFFFFFF91)" "crc32c [121] = NOT ((crc_bit ^^ 8) 0xFFFFFF86)"
    by (simp_all only: crc32c_def crc32c_table_correct crc32c_bitwise_def fold.simps id_comp comp_id id_def comp_def start)
  moreover have "bytes_of ''n'' = [110]" "bytes_of ''y'' = [121]" by code_simp+
  moreover have "(crc_bit ^^ 8) 0xFFFFFF91 \<noteq> (crc_bit ^^ 8) 0xFFFFFF86"
    unfolding eight by (simp add: crc_bit_def kPoly_def)
  moreover have "a = b" if "(ucast a :: u64) = ucast b" for a b :: u32
  proof (rule bit_word_eqI)
    show "bit a n = bit b n" if "n < LENGTH(32)" for n
      using arg_cong[OF \<open>ucast a = ucast b\<close>, of "\<lambda>w. bit w n"] that by (simp add: bit_simps)
  qed
  ultimately show ?thesis unfolding crc_of_def by (metis bit.double_compl)
qed

theorem journal_scan_authentic_witness:
  "\<exists>res rs rest. scan_journal_segment (frames ''k'' [(Pending, 1, ''payload'')] @ record_header Commit 1 ''y'' @ ''n'' @ replicate 16 CHR ''x'')
       ''k'' compiled_limits_ceiling = Inr res \<and> sc_integrity_failures res = 1 \<and>
     frames ''k'' [(Pending, 1, ''payload'')] @ record_header Commit 1 ''y'' @ ''n'' @ replicate 16 CHR ''x'' = frames ''k'' rs @ rest \<and>
     list_all (framed_ok compiled_limits_ceiling) rs \<and> length rs = 1 \<and> length rest = 41 \<and>
     sc_records res = scanned_at ''k'' 0 rs \<and> map jr_payload (sc_records res) = [''payload'']"
proof -
  let ?bad = "record_header Commit 1 ''y'' @ ''n'' @ replicate 16 CHR ''x'' @ []"
  let ?rs = "[(Pending, 1 :: u64, ''payload'')]"
  have ok: "list_all (framed_ok compiled_limits_ceiling) ?rs" "payload_ok compiled_limits_ceiling ''y''"
    by (simp_all add: framed_ok_def payload_ok_def compiled_limits_ceiling_def)
  obtain detail where scan: "scan_journal_segment (frames ''k'' ?rs @ ?bad) ''k'' compiled_limits_ceiling =
      Inr \<lparr>sc_records = scanned_at ''k'' 0 ?rs, sc_trailing_bytes = length ?bad, sc_integrity_failures = 1,
        sc_records_read = length ?rs, sc_failure_detail = detail\<rparr>"
  proof -
    have "\<exists>detail. scan_journal_segment (frames ''k'' ?rs @ ?bad) ''k'' compiled_limits_ceiling =
      Inr \<lparr>sc_records = scanned_at ''k'' 0 ?rs, sc_trailing_bytes = length ?bad, sc_integrity_failures = 1,
        sc_records_read = length ?rs, sc_failure_detail = detail\<rparr>"
      by (rule scan_segment_altered[OF _ ok(1) _ ok(2) _ altered_checksum]) (simp_all add: kMaxRecordsPerSegment_def kRecordMacBytes_def)
    then show thesis using that by blast
  qed
  have bad: "length ?bad = 41" "map jr_payload (scanned_at ''k'' 0 ?rs) = [''payload'']"
    by (simp_all add: kRecordHeaderBytes_def scanned_def)
  obtain rs rest where run: "frames ''k'' ?rs @ ?bad = frames ''k'' rs @ rest" "list_all (framed_ok compiled_limits_ceiling) rs"
      "scanned_at ''k'' 0 ?rs = scanned_at ''k'' 0 rs" "length rs = 1" "length rest = 41"
    using journal_scan_authentic[OF scan] bad by auto
  have tail: "?bad = record_header Commit 1 ''y'' @ ''n'' @ replicate 16 CHR ''x''" by simp
  show ?thesis
    by (rule exI, rule exI[of _ rs], rule exI[of _ rest], rule conjI[OF scan[unfolded tail]])
      (use run[unfolded tail] bad(2) in \<open>simp only: journal_scan_result.select_convs simp_thms\<close>)
qed

text \<open>segment names and key files are unambiguous. Every segment index is recovered from its
  file name, so no two indices share a name; and a key file is accepted if and only if it is,
  byte for byte, the file written for that 32-byte key.\<close>

theorem store_artifacts_unambiguous:
  "parse_journal_segment_name (journal_segment_name index) = Some index \<and>
   (decode_key_file content = Inr key \<longleftrightarrow> length key = kStoreKeyBytes \<and> content = encode_key_file key)"
  by (simp add: segment_name_parses key_file_iff)

text \<open>The reader of segment names accepts leading zeros, which no writer produces.\<close>

lemma leading_zero_segment_name: "parse_journal_segment_name ''journal.01.pfj'' = Some 1"
  by (simp add: parse_journal_segment_name_def kJournalBaseName_def kJournalExtension_def Let_def)

end
