(* ===== verification/Files.thy ===== *)
theory Files
  imports Durability
begin

text \<open>
  \<^verbatim>\<open>src/fsutil.cpp\<close> over a state directory. A directory maps file names to their bytes. The
  operating system is the parameter \<open>io_env\<close>: for every system call the code makes it says
  whether the call fails and with which text, how many bytes of a failing write reached the
  file, and what the entropy source delivers; a call that does not fail has its documented effect. The chunks of a write loop are one
  call, and of the two platforms the POSIX branch is the one modelled.
\<close>

type_synonym disk = "(string, string) omap"

datatype io_call =
    Io_stat string
  | Io_open_read string
  | Io_open_append string
  | Io_open_truncate string
  | Io_read string
  | Io_write string string
  | Io_flush string string
  | Io_close string
  | Io_rename string
  | Io_truncate string
  | Io_remove string
  | Io_restrict string
  | Io_list
  | Io_lock string
  | Io_make_directory

record io_env =
  ev_directory :: string
  ev_fault :: "io_call \<Rightarrow> string option"
  ev_short :: "io_call \<Rightarrow> nat"
  ev_entropy :: "nat \<Rightarrow> string option"

text \<open>A system in which no call fails.\<close>

definition calm :: "io_env \<Rightarrow> bool" where
  "calm env \<longleftrightarrow> ev_fault env = (\<lambda>_. None)"

definition path_of :: "io_env \<Rightarrow> string \<Rightarrow> string" where
  "path_of env name = cat [ev_directory env, ''/'', name]"

definition io_error :: "io_env \<Rightarrow> string \<Rightarrow> string \<Rightarrow> string \<Rightarrow> status" where
  "io_error env what name reason =
     make_error St_IoError (cat [what, '' '', quoted (path_of env name), '' failed: '', reason])"

definition temporary_sibling :: "string \<Rightarrow> string \<Rightarrow> string" where
  "temporary_sibling name suffix = cat [name, ''.pftmp-'', suffix]"

text \<open>\<^verbatim>\<open>std::map::erase\<close> of a key.\<close>

definition om_erase :: "'k \<Rightarrow> ('k, 'v) omap \<Rightarrow> ('k, 'v) omap" where
  "om_erase k m = filter (\<lambda>e. fst e \<noteq> k) m"

definition no_such_file :: string where "no_such_file = ''No such file or directory''"

section \<open>Reading\<close>

definition fs_exists :: "io_env \<Rightarrow> disk \<Rightarrow> string \<Rightarrow> bool" where
  "fs_exists env d name \<longleftrightarrow> ev_fault env (Io_stat name) = None \<and> om_has d name"

definition file_size :: "io_env \<Rightarrow> disk \<Rightarrow> string \<Rightarrow> nat result" where
  "file_size env d name =
     (case (ev_fault env (Io_stat name), om_find d name) of
        (None, Some content) \<Rightarrow> Inr (length content)
      | (fault, _) \<Rightarrow> Inl (make_error St_IoError
          (cat [''cannot determine the size of '', quoted (path_of env name), '': '',
                (case fault of Some e \<Rightarrow> e | None \<Rightarrow> no_such_file)])))"

definition open_read :: "io_env \<Rightarrow> disk \<Rightarrow> string \<Rightarrow> void_result" where
  "open_read env d name =
     (case (ev_fault env (Io_open_read name), om_find d name) of
        (None, Some _) \<Rightarrow> Inr ()
      | (fault, _) \<Rightarrow> Inl (io_error env ''open for read'' name (case fault of Some e \<Rightarrow> e | None \<Rightarrow> no_such_file)))"

definition read_all :: "io_env \<Rightarrow> disk \<Rightarrow> string \<Rightarrow> nat \<Rightarrow> string result" where
  "read_all env d name max_bytes =
     rbind (file_size env d name) (\<lambda>n.
       if n > max_bytes then
         Inl (make_error St_LimitExceeded
           (cat [''durable artifact '', quoted (path_of env name), '' is '', to_dec n, '' bytes, limit is '', to_dec max_bytes]))
       else
         rbind (open_read env d name) (\<lambda>_.
           case (if n = 0 then None else ev_fault env (Io_read name), om_find d name) of
             (None, Some content) \<Rightarrow> Inr content
           | (fault, _) \<Rightarrow> Inl (make_error St_IoError
               (cat [''reading a durable file failed: '', (case fault of Some e \<Rightarrow> e | None \<Rightarrow> no_such_file)]))))"

section \<open>Writing\<close>

text \<open>Each operation returns the directory it leaves, whether it succeeds or not.\<close>

definition open_append :: "io_env \<Rightarrow> disk \<Rightarrow> string \<Rightarrow> disk \<times> void_result" where
  "open_append env d name =
     (case ev_fault env (Io_open_append name) of
        Some e \<Rightarrow> (d, Inl (io_error env ''open for append'' name e))
      | None \<Rightarrow> (if om_has d name then d else om_put name [] d, Inr ()))"

definition open_truncate :: "io_env \<Rightarrow> disk \<Rightarrow> string \<Rightarrow> disk \<times> void_result" where
  "open_truncate env d name =
     (case ev_fault env (Io_open_truncate name) of
        Some e \<Rightarrow> (d, Inl (io_error env ''open for write'' name e))
      | None \<Rightarrow> (om_put name [] d, Inr ()))"

definition append_bytes :: "string \<Rightarrow> string \<Rightarrow> disk \<Rightarrow> disk" where
  "append_bytes name bytes d = (case om_find d name of None \<Rightarrow> d | Some content \<Rightarrow> om_put name (content @ bytes) d)"

definition write_all :: "io_env \<Rightarrow> disk \<Rightarrow> string \<Rightarrow> string \<Rightarrow> disk \<times> void_result" where
  "write_all env d name bytes =
     (case ev_fault env (Io_write name bytes) of
        Some e \<Rightarrow>
          (append_bytes name (take (ev_short env (Io_write name bytes)) bytes) d,
           Inl (make_error St_IoError (cat [''writing a durable file failed: '', e])))
      | None \<Rightarrow> (append_bytes name bytes d, Inr ()))"

definition flush_to_platform :: "io_env \<Rightarrow> string \<Rightarrow> string \<Rightarrow> void_result" where
  "flush_to_platform env name bytes =
     (case ev_fault env (Io_flush name bytes) of
        Some e \<Rightarrow> Inl (make_error St_IoError ''flushing a durable file failed'')
      | None \<Rightarrow> Inr ())"

definition close_file :: "io_env \<Rightarrow> string \<Rightarrow> void_result" where
  "close_file env name =
     (case ev_fault env (Io_close name) of
        Some e \<Rightarrow> Inl (make_error St_IoError ''closing a durable file failed'')
      | None \<Rightarrow> Inr ())"

text \<open>\<^verbatim>\<open>truncate(2)\<close> takes a signed length: a value with the top bit set is refused.\<close>

definition truncate_file :: "io_env \<Rightarrow> disk \<Rightarrow> string \<Rightarrow> u64 \<Rightarrow> disk \<times> void_result" where
  "truncate_file env d name n =
     (case (if unat n \<ge> 2 ^ 63 then Some ''Invalid argument'' else ev_fault env (Io_truncate name), om_find d name) of
        (None, Some content) \<Rightarrow>
          (om_put name (take (unat n) content @ replicate (unat n - length content) (CHR 0x00)) d, Inr ())
      | (fault, _) \<Rightarrow> (d, Inl (io_error env ''truncate'' name (case fault of Some e \<Rightarrow> e | None \<Rightarrow> no_such_file))))"

definition atomic_replace :: "io_env \<Rightarrow> disk \<Rightarrow> string \<Rightarrow> string \<Rightarrow> disk \<times> void_result" where
  "atomic_replace env d source destination =
     (case (ev_fault env (Io_rename destination), om_find d source) of
        (None, Some content) \<Rightarrow> (om_put destination content (om_erase source d), Inr ())
      | (fault, _) \<Rightarrow> (d, Inl (io_error env ''atomic rename to'' destination (case fault of Some e \<Rightarrow> e | None \<Rightarrow> no_such_file))))"

definition remove_file :: "io_env \<Rightarrow> disk \<Rightarrow> string \<Rightarrow> disk \<times> void_result" where
  "remove_file env d name =
     (case ev_fault env (Io_remove name) of
        Some e \<Rightarrow> (d, Inl (make_error St_IoError (cat [''removing '', quoted (path_of env name), '' failed: '', e])))
      | None \<Rightarrow> (om_erase name d, Inr ()))"

definition restrict_to_owner :: "io_env \<Rightarrow> string \<Rightarrow> void_result" where
  "restrict_to_owner env name =
     (case ev_fault env (Io_restrict name) of
        Some e \<Rightarrow> Inl (io_error env ''restrict permissions on'' name e)
      | None \<Rightarrow> Inr ())"

definition write_atomic :: "io_env \<Rightarrow> disk \<Rightarrow> string \<Rightarrow> string \<Rightarrow> bool \<Rightarrow> disk \<times> void_result" where
  "write_atomic env d name content sync =
     (let temp = temporary_sibling name ''write'' in
      case open_truncate env d temp of
        (d1, Inl e) \<Rightarrow> (d1, Inl e)
      | (d1, Inr _) \<Rightarrow>
          (case (if content \<noteq> [] then write_all env d1 temp content else (d1, Inr ())) of
             (d2, Inl e) \<Rightarrow> (fst (remove_file env d2 temp), Inl e)
           | (d2, Inr _) \<Rightarrow>
               (case rbind (if sync then flush_to_platform env temp content else Inr ()) (\<lambda>_. close_file env temp) of
                  Inl e \<Rightarrow> (fst (remove_file env d2 temp), Inl e)
                | Inr _ \<Rightarrow>
                    (case atomic_replace env d2 temp name of
                       (d3, Inl e) \<Rightarrow> (fst (remove_file env d3 temp), Inl e)
                     | (d3, Inr _) \<Rightarrow> (d3, Inr ())))))"

section \<open>The directory\<close>

definition list_files :: "io_env \<Rightarrow> disk \<Rightarrow> string + string list" where
  "list_files env d = (case ev_fault env Io_list of Some e \<Rightarrow> Inl e | None \<Rightarrow> Inr (map fst d))"

definition directory_bytes :: "io_env \<Rightarrow> disk \<Rightarrow> nat \<Rightarrow> (nat \<times> nat) result" where
  "directory_bytes env d max_entries =
     (case list_files env d of
        Inl e \<Rightarrow> Inl (make_error St_IoError (cat [''cannot enumerate '', quoted (ev_directory env), '': '', e]))
      | Inr names \<Rightarrow>
          if length names > max_entries then
            Inl (make_error St_LimitExceeded (cat [''state directory holds more than '', to_dec max_entries, '' entries'']))
          else
            Inr (sum_list (map (\<lambda>name. case file_size env d name of Inr n \<Rightarrow> n | Inl _ \<Rightarrow> 0) names), length names))"

section \<open>Lemmas\<close>

lemma om_find_erase [simp]: "om_find (om_erase k m) k' = (if k' = k then None else om_find m k')"
  by (induction m) (auto simp: om_erase_def om_find_def)

lemma om_wf_erase: "om_wf m \<Longrightarrow> om_wf (om_erase k m)"
  by (induction m) (auto simp: om_erase_def om_wf_def)

lemma calm_faults [simp]: "calm env \<Longrightarrow> ev_fault env c = None"
  by (simp add: calm_def)

lemma read_all_calm:
  "calm env \<Longrightarrow> om_find d name = Some content \<Longrightarrow> length content \<le> max_bytes \<Longrightarrow> read_all env d name max_bytes = Inr content"
  by (simp add: read_all_def file_size_def open_read_def)

lemma sibling_neq: "temporary_sibling name suffix \<noteq> name"
  by (simp add: temporary_sibling_def cat_def)

text \<open>What a reader sees after an atomic write: the new content on success, the old one on any
  failure; no other file than the destination and its temporary sibling is touched.\<close>

lemma write_atomic_spec:
  assumes "write_atomic env d name content sync = (d', r)"
  shows "om_find d' name = (if r = Inr () then Some content else om_find d name)"
    and "k \<noteq> name \<Longrightarrow> k \<noteq> temporary_sibling name ''write'' \<Longrightarrow> om_find d' k = om_find d k"
  using assms sibling_neq[of name "''write''"]
  by (auto simp: write_atomic_def Let_def open_truncate_def write_all_def append_bytes_def atomic_replace_def remove_file_def
      flush_to_platform_def close_file_def split: option.splits if_splits sum.splits)

lemma write_atomic_calm:
  assumes "calm env"
  shows "snd (write_atomic env d name content sync) = Inr ()"
  using assms sibling_neq[of name "''write''"]
  by (auto simp: write_atomic_def Let_def open_truncate_def write_all_def append_bytes_def atomic_replace_def
      flush_to_platform_def close_file_def split: option.splits if_splits)

end
