(* ===== verification/Store.thy ===== *)
theory Store
  imports Files Steps
begin

text \<open>
  \<^verbatim>\<open>src/store.hpp\<close> and \<^verbatim>\<open>src/store.cpp\<close>: the durable store of one state directory. The manifest
  and the snapshot with their integrity envelopes, the replay of the journal, opening, the
  commit protocol, the checkpoint and the verification. The directory, the store object and the
  image are passed explicitly and returned as the operation leaves them.
\<close>

definition kManifestName :: string where "kManifestName = ''manifest.pfm''"
definition kSnapshotName :: string where "kSnapshotName = ''snapshot.pfs''"
definition kKeyName :: string where "kKeyName = ''key.pfk''"
definition kLockName :: string where "kLockName = ''lock.pfk''"

definition kSegmentRollBytes :: u64 where "kSegmentRollBytes = 64 * 1024 * 1024"
definition kSnapshotHeaderBytes :: nat where "kSnapshotHeaderBytes = 4 + 2 + 4 + 32"

record store_options =
  op_limits :: limits
  op_create_if_missing :: bool
  op_fsync :: bool
  op_exclusive_lock :: bool

record durable_store =
  ds_options :: store_options
  ds_key :: string
  ds_segment_index :: u32
  ds_segment_bytes :: u64
  ds_durable_bytes :: u64
  ds_journal_records :: nat
  ds_next_sequence :: u64
  ds_segment_open :: bool
  ds_open :: bool

definition store_default :: "store_options \<Rightarrow> durable_store" where
  "store_default opts = \<lparr>ds_options = opts, ds_key = [], ds_segment_index = 0, ds_segment_bytes = 0, ds_durable_bytes = 0,
     ds_journal_records = 0, ds_next_sequence = 1, ds_segment_open = False, ds_open = False\<rparr>"

record integrity_report =
  ir_ok :: bool
  ir_health :: health
  ir_records_scanned :: nat
  ir_records_applied :: nat
  ir_records_rejected :: nat
  ir_unfinished_attempts :: nat
  ir_trailing_bytes_discarded :: nat
  ir_detail :: string
  ir_state_digest :: digest
  ir_state_generation :: generation
  ir_epoch :: fabric_epoch

definition report_default :: integrity_report where
  "report_default = \<lparr>ir_ok = False, ir_health = Healthy, ir_records_scanned = 0, ir_records_applied = 0,
     ir_records_rejected = 0, ir_unfinished_attempts = 0, ir_trailing_bytes_discarded = 0, ir_detail = [],
     ir_state_digest = digest_zero, ir_state_generation = gen_unset, ir_epoch = 0\<rparr>"

section \<open>Commit payloads\<close>

definition encode_commit_payload :: "u64 \<Rightarrow> digest \<Rightarrow> string" where
  "encode_commit_payload sequence d = append_le [] sequence 8 @ chars_of d"

definition decode_commit_payload :: "string \<Rightarrow> (u64 \<times> digest) result" where
  "decode_commit_payload payload =
     (if length payload \<noteq> 8 + 32 then
        Inl (make_error St_Corrupt
          (cat [''commit record carries '', to_dec (length payload), '' bytes, expected '', to_dec (8 + 32)]))
      else Inr (read_at payload 0 8, bytes_of (take 32 (drop 8 payload))))"

section \<open>Manifest\<close>

record manifest =
  mf_epoch :: fabric_epoch
  mf_state_generation :: generation
  mf_last_sequence :: u64
  mf_first_segment :: u32
  mf_snapshot_present :: bool
  mf_snapshot_digest :: digest
  mf_snapshot_bytes :: u64

definition manifest_default :: manifest where
  "manifest_default = \<lparr>mf_epoch = 0, mf_state_generation = gen_unset, mf_last_sequence = 0, mf_first_segment = 0,
     mf_snapshot_present = False, mf_snapshot_digest = digest_zero, mf_snapshot_bytes = 0\<rparr>"

definition kManifestPayloadBytes :: nat where "kManifestPayloadBytes = 4 + 2 + 8 + 8 + 8 + 4 + 1 + 32 + 8"

definition manifest_payload :: "manifest \<Rightarrow> string" where
  "manifest_payload m =
     append_le (append_le (append_le (append_le (append_le (append_le (append_le (append_le [] kManifestMagic 4)
       format_version 2) (mf_epoch m) 8) (mf_state_generation m) 8) (mf_last_sequence m) 8)
       (ucast (mf_first_segment m)) 4) (if mf_snapshot_present m then 1 else 0) 1 @ chars_of (mf_snapshot_digest m))
       (mf_snapshot_bytes m) 8"

definition encode_manifest :: "string \<Rightarrow> manifest \<Rightarrow> string" where
  "encode_manifest key m =
     (let payload = manifest_payload m; crc = append_le [] (crc_of payload) 4
      in payload @ crc @ record_mac key payload crc)"

definition write_manifest :: "io_env \<Rightarrow> store_options \<Rightarrow> string \<Rightarrow> manifest \<Rightarrow> disk \<Rightarrow> disk \<times> void_result" where
  "write_manifest env opts key m d = write_atomic env d kManifestName (encode_manifest key m) (op_fsync opts)"

definition parse_manifest :: "string \<Rightarrow> string \<Rightarrow> manifest result" where
  "parse_manifest key data =
     (let expected = kManifestPayloadBytes + 4 + kRecordMacBytes;
          payload = take kManifestPayloadBytes data;
          crc = take 4 (drop kManifestPayloadBytes data) in
      if length data \<noteq> expected then
        Inl (make_error St_Corrupt (cat [''manifest has '', to_dec (length data), '' bytes, expected '', to_dec expected]))
      else if read_at data 0 4 \<noteq> kManifestMagic then
        Inl (make_error St_Corrupt ''manifest has a wrong magic value'')
      else if read_at data 4 2 \<noteq> format_version then
        Inl (make_error St_Unsupported (cat [''manifest was written by format version '', u_dec (read_at data 4 2)]))
      else if read_at data kManifestPayloadBytes 4 \<noteq> crc_of payload then
        Inl (make_error St_IntegrityFailure ''manifest failed its checksum'')
      else if \<not> constant_time_equal (bytes_of (drop (kManifestPayloadBytes + 4) data)) (bytes_of (record_mac key payload crc))
                kRecordMacBytes then
        Inl (make_error St_IntegrityFailure ''manifest failed authentication; it was altered or belongs to another store'')
      else if read_at data 34 1 > 1 then
        Inl (make_error St_Corrupt ''manifest carries an invalid snapshot flag'')
      else
        Inr \<lparr>mf_epoch = read_at data 6 8, mf_state_generation = read_at data 14 8, mf_last_sequence = read_at data 22 8,
          mf_first_segment = ucast (read_at data 30 4), mf_snapshot_present = (read_at data 34 1 = 1),
          mf_snapshot_digest = bytes_of (take 32 (drop 35 data)), mf_snapshot_bytes = read_at data (35 + 32) 8\<rparr>)"

definition read_manifest :: "io_env \<Rightarrow> string \<Rightarrow> disk \<Rightarrow> manifest result" where
  "read_manifest env key d = rbind (read_all env d kManifestName 4096) (parse_manifest key)"

section \<open>Snapshot\<close>

definition encode_snapshot :: "string \<Rightarrow> string \<Rightarrow> string" where
  "encode_snapshot key payload =
     (let header = append_le (append_le (append_le [] kSnapshotMagic 4) format_version 2) (of_nat (length payload)) 4 @
            chars_of (sha256_text payload)
      in header @ payload @ record_mac key header payload)"

definition write_snapshot :: "io_env \<Rightarrow> durable_store \<Rightarrow> state_image \<Rightarrow> disk \<Rightarrow> disk \<times> void_result" where
  "write_snapshot env s img d =
     (let payload = encode_state img; bound = max_state_bytes (op_limits (ds_options s)) in
      if length payload > bound then
        (d, Inl (make_error St_LimitExceeded
          (cat [''state image is '', to_dec (length payload), '' bytes, the durable growth bound is '', to_dec bound])))
      else write_atomic env d kSnapshotName (encode_snapshot (ds_key s) payload) (op_fsync (ds_options s)))"

definition parse_snapshot :: "store_options \<Rightarrow> string \<Rightarrow> manifest \<Rightarrow> string \<Rightarrow> state_image result" where
  "parse_snapshot opts key m data =
     (if length data < kSnapshotHeaderBytes + kRecordMacBytes then
        Inl (make_error St_Truncated ''snapshot is shorter than its fixed header'')
      else if read_at data 0 4 \<noteq> kSnapshotMagic then
        Inl (make_error St_Corrupt ''snapshot has a wrong magic value'')
      else if read_at data 4 2 \<noteq> format_version then
        Inl (make_error St_Unsupported (cat [''snapshot was written by format version '', u_dec (read_at data 4 2)]))
      else
        (let payload_length = unat (read_at data 6 4) in
         if kSnapshotHeaderBytes + payload_length + kRecordMacBytes \<noteq> length data then
           Inl (make_error St_Truncated
             (cat [''snapshot declares '', to_dec payload_length, '' payload bytes but the file holds '', to_dec (length data)]))
         else if payload_length > max_state_bytes (op_limits opts) then
           Inl (make_error St_LimitExceeded ''snapshot payload exceeds the growth bound'')
         else
           (let declared = bytes_of (take 32 (drop 10 data));
                payload = take payload_length (drop kSnapshotHeaderBytes data);
                header = take kSnapshotHeaderBytes data in
            if sha256_text payload \<noteq> declared then
              Inl (make_error St_IntegrityFailure ''snapshot payload digest does not match the declared digest'')
            else if \<not> constant_time_equal (bytes_of (drop (kSnapshotHeaderBytes + payload_length) data))
                      (bytes_of (record_mac key header payload)) kRecordMacBytes then
              Inl (make_error St_IntegrityFailure
                ''snapshot failed authentication; it was altered or belongs to another store'')
            else if mf_snapshot_present m \<and> mf_snapshot_digest m \<noteq> declared then
              Inl (make_error St_IntegrityFailure ''snapshot does not match the digest recorded in the manifest'')
            else decode_state payload (op_limits opts))))"

definition read_snapshot :: "io_env \<Rightarrow> store_options \<Rightarrow> string \<Rightarrow> manifest \<Rightarrow> disk \<Rightarrow> state_image result" where
  "read_snapshot env opts key m d =
     rbind (read_all env d kSnapshotName (max_state_bytes (op_limits opts))) (parse_snapshot opts key m)"

section \<open>Replay\<close>

record replay_state =
  rp_image :: state_image
  rp_report :: integrity_report
  rp_expected :: u64
  rp_pending :: "(u64, string) omap"

text \<open>The body of the record loop: \<open>Inl\<close> is its \<^verbatim>\<open>break\<close>.\<close>

definition reject_record :: "string \<Rightarrow> replay_state \<Rightarrow> replay_state" where
  "reject_record detail rs =
     rs\<lparr>rp_report := (rp_report rs)\<lparr>ir_records_rejected := Suc (ir_records_rejected (rp_report rs)),
        ir_health := Degraded, ir_detail := detail\<rparr>\<rparr>"

definition replay_pending :: "journal_record \<Rightarrow> replay_state \<Rightarrow> replay_state + replay_state" where
  "replay_pending r rs =
     (if jr_sequence r < rp_expected rs then
        Inl (reject_record (cat [''journal repeats sequence '', u_dec (jr_sequence r), '', which is already committed'']) rs)
      else if om_has (rp_pending rs) (jr_sequence r) then
        Inl (reject_record (cat [''journal holds two pending records for sequence '', u_dec (jr_sequence r)]) rs)
      else Inr (rs\<lparr>rp_pending := om_put (jr_sequence r) (jr_payload r) (rp_pending rs)\<rparr>))"

definition replay_apply :: "u64 \<Rightarrow> mutation \<Rightarrow> replay_state \<Rightarrow> replay_state + replay_state" where
  "replay_apply sequence m rs =
     (case apply_mutation (rp_image rs) m True of
        (img, Inl e) \<Rightarrow>
          Inl (reject_record (cat [''replaying sequence '', u_dec sequence, '' failed: '', st_message e]) (rs\<lparr>rp_image := img\<rparr>))
      | (img, Inr _) \<Rightarrow>
          Inr (rs\<lparr>rp_image := img\<lparr>im_last_sequence := sequence\<rparr>, rp_expected := sequence + 1,
            rp_pending := om_erase sequence (rp_pending rs),
            rp_report := (rp_report rs)\<lparr>ir_records_applied := Suc (ir_records_applied (rp_report rs))\<rparr>\<rparr>))"

definition replay_commit :: "limits \<Rightarrow> journal_record \<Rightarrow> replay_state \<Rightarrow> replay_state + replay_state" where
  "replay_commit limits r rs =
     (case decode_commit_payload (jr_payload r) of
        Inl e \<Rightarrow> Inl (reject_record (st_message e) rs)
      | Inr (sequence, d) \<Rightarrow>
          if sequence \<noteq> jr_sequence r then
            Inl (reject_record (cat [''commit record for sequence '', u_dec (jr_sequence r), '' names sequence '', u_dec sequence]) rs)
          else case om_find (rp_pending rs) sequence of
            None \<Rightarrow>
              Inl (reject_record (cat [''commit record for sequence '', u_dec sequence, '' has no matching pending record'']) rs)
          | Some payload \<Rightarrow>
              (case decode_mutation payload limits of
                 Inl e \<Rightarrow> Inl (reject_record (st_message e) rs)
               | Inr m \<Rightarrow>
                   if sequence \<noteq> rp_expected rs then
                     Inl (reject_record (cat [''journal jumps from sequence '', u_dec (rp_expected rs - 1), '' to '', u_dec sequence]) rs)
                   else if sha256_text (encode_mutation m) \<noteq> d then
                     Inl (reject_record (cat [''commit record digest does not match the pending payload for sequence '', u_dec sequence]) rs)
                   else replay_apply sequence m rs))"

definition replay_record :: "limits \<Rightarrow> journal_record \<Rightarrow> replay_state \<Rightarrow> replay_state + replay_state" where
  "replay_record limits r rs = (if jr_kind r = Pending then replay_pending r rs else replay_commit limits r rs)"

fun replay_records :: "limits \<Rightarrow> journal_record list \<Rightarrow> replay_state \<Rightarrow> replay_state" where
  "replay_records limits [] rs = rs"
| "replay_records limits (r # others) rs =
     (case replay_record limits r rs of Inl stopped \<Rightarrow> stopped | Inr rs' \<Rightarrow> replay_records limits others rs')"

text \<open>What the scan of a segment contributes to the report before its records are replayed.\<close>

definition count_scan :: "journal_scan_result \<Rightarrow> replay_state \<Rightarrow> replay_state" where
  "count_scan res rs =
     (let report = (rp_report rs)\<lparr>ir_records_scanned := ir_records_scanned (rp_report rs) + sc_records_read res\<rparr> in
      rs\<lparr>rp_report :=
        (if sc_integrity_failures res > 0 then
           report\<lparr>ir_records_rejected := ir_records_rejected report + sc_integrity_failures res,
             ir_health := Degraded, ir_detail := sc_failure_detail res\<rparr>
         else report)\<rparr>)"

definition degrade :: "string \<Rightarrow> replay_state \<Rightarrow> replay_state" where
  "degrade detail rs = rs\<lparr>rp_report := (rp_report rs)\<lparr>ir_health := Degraded, ir_detail := detail\<rparr>\<rparr>"

text \<open>\<^verbatim>\<open>file_size(path).value_or(0)\<close>.\<close>

definition size_or_zero :: "io_env \<Rightarrow> disk \<Rightarrow> string \<Rightarrow> u64" where
  "size_or_zero env d name = (case file_size env d name of Inr n \<Rightarrow> of_nat n | Inl _ \<Rightarrow> 0)"

text \<open>The tail of a segment: dropped from the last segment, corruption in an earlier one.\<close>

definition replay_tail :: "io_env \<Rightarrow> u32 \<Rightarrow> bool \<Rightarrow> nat \<Rightarrow> disk \<Rightarrow> replay_state \<Rightarrow> disk \<times> replay_state" where
  "replay_tail env index is_last trailing d rs =
     (if trailing = 0 then (d, rs)
      else if is_last then
        (let report = (rp_report rs)\<lparr>ir_unfinished_attempts := ir_unfinished_attempts (rp_report rs) + trailing,
               ir_trailing_bytes_discarded := ir_trailing_bytes_discarded (rp_report rs) + trailing\<rparr>;
             name = journal_segment_name index;
             good = size_or_zero env d name - of_nat trailing in
         case truncate_file env d name good of
           (d', Inl e) \<Rightarrow> (d', degrade (st_message e) (rs\<lparr>rp_report := report\<rparr>))
         | (d', Inr _) \<Rightarrow> (d', rs\<lparr>rp_report := report\<rparr>))
      else
        (d, degrade (cat [''journal segment '', u_dec index, '' ends with '', to_dec trailing,
             '' unusable bytes while a later segment exists'']) rs))"

definition scan_segment :: "io_env \<Rightarrow> store_options \<Rightarrow> string \<Rightarrow> disk \<Rightarrow> u32 \<Rightarrow> journal_scan_result result" where
  "scan_segment env opts key d index =
     (if key = [] then scan_journal_segment [] key (op_limits opts)
      else rbind (read_all env d (journal_segment_name index) (max_state_bytes (op_limits opts)))
             (\<lambda>content. scan_journal_segment content key (op_limits opts)))"

fun replay_segments :: "io_env \<Rightarrow> store_options \<Rightarrow> string \<Rightarrow> u32 list \<Rightarrow> disk \<Rightarrow> replay_state \<Rightarrow>
    disk \<times> replay_state \<times> void_result" where
  "replay_segments env opts key [] d rs = (d, rs, Inr ())"
| "replay_segments env opts key (index # others) d rs =
     (case scan_segment env opts key d index of
        Inl e \<Rightarrow> (d, rs, Inl e)
      | Inr res \<Rightarrow>
          (let rs1 = replay_records (op_limits opts) (sc_records res) (count_scan res rs) in
           if ir_health (rp_report rs1) = Degraded then (d, rs1, Inr ())
           else case replay_tail env index (others = []) (sc_trailing_bytes res) d rs1 of
             (d2, rs2) \<Rightarrow>
               if ir_health (rp_report rs2) = Degraded then (d2, rs2, Inr ())
               else replay_segments env opts key others d2 rs2))"

text \<open>The segment indices of a directory, in the order of the names.\<close>

definition segments_of :: "string list \<Rightarrow> u32 list" where
  "segments_of names = List.map_filter parse_journal_segment_name names"

definition finish_report :: "replay_state \<Rightarrow> state_image \<times> integrity_report" where
  "finish_report rs =
     (let img = rp_image rs; r0 = rp_report rs;
          r1 = (if ir_health r0 = Healthy \<and> rp_pending rs \<noteq> [] then
                  r0\<lparr>ir_unfinished_attempts := ir_unfinished_attempts r0 + length (rp_pending rs)\<rparr> else r0);
          ok = (ir_health r1 = Healthy);
          r2 = r1\<lparr>ir_ok := ok, ir_state_generation := im_generation img, ir_epoch := im_epoch img,
                 ir_state_digest := state_digest img\<rparr>;
          r3 = (if ir_detail r2 = [] then
                  r2\<lparr>ir_detail := (if ok then ''durable state verified'' else ''durable state is degraded'')\<rparr> else r2)
      in (if ok then img else img\<lparr>im_health := Degraded, im_health_detail := ir_detail r3\<rparr>, r3))"

text \<open>The result of a replay: the directory, the image as the caller's variable is left, and the
  report or the failure.\<close>

definition replay_journal :: "io_env \<Rightarrow> store_options \<Rightarrow> string \<Rightarrow> manifest \<Rightarrow> state_image \<Rightarrow> nat \<Rightarrow> disk \<Rightarrow>
    disk \<times> state_image \<times> integrity_report result" where
  "replay_journal env opts key m img applied d =
     (case list_files env d of
        Inl e \<Rightarrow> (d, img, Inl (make_error St_IoError (cat [''cannot enumerate the state directory: '', e])))
      | Inr names \<Rightarrow>
          (let segments = sort (filter (\<lambda>i. i \<ge> mf_first_segment m) (segments_of names)) in
           if length segments > max_journal_segments (op_limits opts) then
             (d, img, Inl (make_error St_LimitExceeded
               (cat [''state directory holds '', to_dec (length segments), '' journal segments, limit is '',
                     to_dec (max_journal_segments (op_limits opts))])))
           else
             (case replay_segments env opts key segments d
                     \<lparr>rp_image = img, rp_report = report_default\<lparr>ir_records_applied := applied\<rparr>,
                      rp_expected = mf_last_sequence m + 1, rp_pending = []\<rparr> of
                (d', rs, Inl e) \<Rightarrow> (d', rp_image rs, Inl e)
              | (d', rs, Inr _) \<Rightarrow> (case finish_report rs of (img', report) \<Rightarrow> (d', img', Inr report)))))"

text \<open>The image the journal is replayed onto: the snapshot the manifest names, or the empty image.\<close>

definition replay_base :: "io_env \<Rightarrow> store_options \<Rightarrow> string \<Rightarrow> manifest \<Rightarrow> disk \<Rightarrow> (state_image \<times> nat) result" where
  "replay_base env opts key m d =
     (if mf_snapshot_present m then map_sum id (\<lambda>img. (img, 1)) (read_snapshot env opts key m d)
      else Inr (empty_image (op_limits opts), 0))"

definition restore_counters :: "manifest \<Rightarrow> state_image \<Rightarrow> state_image" where
  "restore_counters m img =
     img\<lparr>im_epoch := mf_epoch m, im_generation := mf_state_generation m, im_last_sequence := mf_last_sequence m\<rparr>"

definition replay :: "io_env \<Rightarrow> store_options \<Rightarrow> string \<Rightarrow> disk \<Rightarrow> disk \<times> state_image \<times> integrity_report result" where
  "replay env opts key d =
     (let blank = empty_image (op_limits opts) in
      if \<not> fs_exists env d kManifestName then
        (d, blank, Inr (report_default\<lparr>ir_ok := True, ir_detail := ''fresh state directory: no manifest, no journal, no snapshot'',
          ir_state_generation := im_generation blank, ir_epoch := im_epoch blank, ir_state_digest := state_digest blank\<rparr>))
      else case read_manifest env key d of
        Inl e \<Rightarrow> (d, blank, Inl e)
      | Inr m \<Rightarrow>
          (case replay_base env opts key m d of
             Inl e \<Rightarrow> (d, blank, Inl e)
           | Inr (img, applied) \<Rightarrow> replay_journal env opts key m (restore_counters m img) applied d))"

section \<open>The store key\<close>

definition read_store_key :: "io_env \<Rightarrow> disk \<Rightarrow> string result" where
  "read_store_key env d =
     (if \<not> fs_exists env d kKeyName then
        Inl (make_error St_NotFound (cat [''state directory has no '', kKeyName, ''; refusing to open an unauthenticated store'']))
      else rbind (read_all env d kKeyName 4096) decode_key_file)"

definition create_store_key :: "io_env \<Rightarrow> disk \<Rightarrow> disk \<times> string result" where
  "create_store_key env d =
     (if fs_exists env d kKeyName then
        (d, Inl (make_error St_AlreadyExists ''state directory already holds a store key; refusing to replace it''))
      else case ev_entropy env kStoreKeyBytes of
        None \<Rightarrow> (d, Inl (make_error St_Internal
          ''the operating system entropy source is unavailable; refusing to create a store with a predictable key''))
      | Some key \<Rightarrow>
          (case write_atomic env d kKeyName (encode_key_file key) True of
             (d1, Inl e) \<Rightarrow> (d1, Inl e)
           | (d1, Inr _) \<Rightarrow> (d1, rbind (restrict_to_owner env kKeyName) (\<lambda>_. Inr key))))"

section \<open>Opening\<close>

definition recompute_durable_bytes :: "io_env \<Rightarrow> disk \<Rightarrow> durable_store \<Rightarrow> durable_store" where
  "recompute_durable_bytes env d s =
     s\<lparr>ds_durable_bytes := (case directory_bytes env d 4096 of Inr (n, _) \<Rightarrow> of_nat n | Inl _ \<Rightarrow> 0)\<rparr>"

definition acquire_lock :: "io_env \<Rightarrow> disk \<Rightarrow> disk \<times> void_result" where
  "acquire_lock env d =
     (case open_append env d kLockName of
        (d1, Inl _) \<Rightarrow> (d1, Inl (io_error env ''open lock file'' kLockName
          (case ev_fault env (Io_open_append kLockName) of Some e \<Rightarrow> e | None \<Rightarrow> [])))
      | (d1, Inr _) \<Rightarrow>
          (d1, if ev_fault env (Io_lock kLockName) = None then Inr ()
               else Inl (make_error St_AlreadyExists
                 (cat [''another live process already holds the fabric state directory '', quoted (ev_directory env)]))))"

text \<open>What the path of the state directory names.\<close>

datatype place = Missing | Not_directory | Directory disk

text \<open>An opening leaves the directory, the caller's image and report, and returns the store.\<close>

type_synonym opened = "disk \<times> state_image \<times> integrity_report \<times> durable_store result"

definition open_segment :: "io_env \<Rightarrow> u32 \<Rightarrow> durable_store \<Rightarrow> disk \<Rightarrow> disk \<times> durable_store \<times> void_result" where
  "open_segment env index s d =
     (let name = journal_segment_name index in
      case open_append env d name of
        (d1, Inl e) \<Rightarrow> (d1, s, Inl e)
      | (d1, Inr _) \<Rightarrow>
          (d1, s\<lparr>ds_segment_index := index, ds_segment_open := True, ds_segment_bytes := size_or_zero env d1 name\<rparr>, Inr ()))"

definition create_store :: "io_env \<Rightarrow> store_options \<Rightarrow> state_image \<Rightarrow> integrity_report \<Rightarrow> disk \<Rightarrow> opened" where
  "create_store env opts img report d =
     (if \<not> op_create_if_missing opts then
        (d, img, report, Inl (make_error St_NotFound
          (cat [''state directory '', quoted (ev_directory env), '' holds no fabric store and create_if_missing is false''])))
      else case list_files env d of
        Inl e \<Rightarrow> (d, img, report, Inl (make_error St_IoError (cat [''cannot enumerate the state directory: '', e])))
      | Inr names \<Rightarrow>
          (case find (\<lambda>n. parse_journal_segment_name n \<noteq> None) names of
             Some n \<Rightarrow> (d, img, report, Inl (make_error St_Corrupt
               (cat [''state directory holds journal segment '', quoted n,
                     '' but no manifest; refusing to guess which records are authoritative''])))
           | None \<Rightarrow>
               (case (if fs_exists env d kKeyName then (d, read_store_key env d) else create_store_key env d) of
                  (d1, Inl e) \<Rightarrow> (d1, img, report, Inl e)
                | (d1, Inr key) \<Rightarrow>
                    (case write_manifest env opts key manifest_default d1 of
                       (d2, Inl e) \<Rightarrow> (d2, img, report, Inl e)
                     | (d2, Inr _) \<Rightarrow>
                         (let blank = empty_image (op_limits opts);
                              report' = report\<lparr>ir_ok := True, ir_health := Healthy, ir_detail := ''created a new fabric store'',
                                ir_state_digest := state_digest blank\<rparr>;
                              s = recompute_durable_bytes env d2
                                    ((store_default opts)\<lparr>ds_key := key, ds_open := True, ds_next_sequence := 1\<rparr>) in
                          case open_append env d2 (journal_segment_name 0) of
                            (d3, Inl e) \<Rightarrow> (d3, blank, report', Inl e)
                          | (d3, Inr _) \<Rightarrow>
                              (d3, blank, report',
                               Inr (s\<lparr>ds_segment_open := True, ds_segment_index := 0, ds_segment_bytes := 0\<rparr>)))))))"

text \<open>Appending resumes after the highest segment that exists.\<close>

definition highest_segment :: "u32 list \<Rightarrow> u32" where
  "highest_segment segments = foldl max 0 segments"

definition resume_store :: "io_env \<Rightarrow> store_options \<Rightarrow> state_image \<Rightarrow> integrity_report \<Rightarrow> disk \<Rightarrow> opened" where
  "resume_store env opts img report d =
     (case read_store_key env d of
        Inl e \<Rightarrow> (d, img, report, Inl e)
      | Inr key \<Rightarrow>
          (case replay env opts key d of
             (d1, img1, Inl e) \<Rightarrow> (d1, img1, report, Inl e)
           | (d1, img1, Inr r) \<Rightarrow>
               (let report1 = (if im_health img1 = Degraded then r\<lparr>ir_health := Degraded, ir_ok := False\<rparr> else r) in
                case list_files env d1 of
                  Inl e \<Rightarrow> (d1, img1, report1, Inl (make_error St_IoError (cat [''cannot enumerate the state directory: '', e])))
                | Inr names \<Rightarrow>
                    (case open_segment env (highest_segment (segments_of names)) ((store_default opts)\<lparr>ds_key := key\<rparr>) d1 of
                       (d2, s, Inl e) \<Rightarrow> (d2, img1, report1, Inl e)
                     | (d2, s, Inr _) \<Rightarrow>
                         (d2, img1, report1, Inr (recompute_durable_bytes env d2
                            (s\<lparr>ds_next_sequence := im_last_sequence img1 + 1, ds_open := True\<rparr>)))))))"

definition open_directory :: "io_env \<Rightarrow> store_options \<Rightarrow> state_image \<Rightarrow> integrity_report \<Rightarrow> disk \<Rightarrow> opened" where
  "open_directory env opts img report d =
     (case (if op_exclusive_lock opts then acquire_lock env d else (d, Inr ())) of
        (d1, Inl e) \<Rightarrow> (d1, img, report, Inl e)
      | (d1, Inr _) \<Rightarrow>
          if \<not> fs_exists env d1 kManifestName then create_store env opts img report d1
          else resume_store env opts img report d1)"

definition open_store :: "io_env \<Rightarrow> store_options \<Rightarrow> state_image \<Rightarrow> integrity_report \<Rightarrow> place \<Rightarrow>
    place \<times> state_image \<times> integrity_report \<times> durable_store result" where
  "open_store env opts img report p =
     (if \<not> limits_within_compiled_ceiling (op_limits opts) then
        (p, img, report, Inl (make_error St_LimitExceeded ''the requested limits exceed the compiled ceiling''))
      else if ev_directory env = [] then
        (p, img, report, Inl (make_error St_InvalidArgument ''no state directory was given''))
      else case p of
        Missing \<Rightarrow>
          if \<not> op_create_if_missing opts then
            (p, img, report, Inl (make_error St_NotFound
              (cat [''state directory '', quoted (ev_directory env), '' does not exist and create_if_missing is false''])))
          else (case ev_fault env Io_make_directory of
              Some e \<Rightarrow> (p, img, report, Inl (make_error St_IoError
                (cat [''creating '', quoted (ev_directory env), '' failed: '', e])))
            | None \<Rightarrow> apfst Directory (open_directory env opts img report []))
      | Not_directory \<Rightarrow>
          (p, img, report, Inl (make_error St_InvalidArgument (cat [quoted (ev_directory env), '' is not a directory''])))
      | Directory d \<Rightarrow> apfst Directory (open_directory env opts img report d))"

section \<open>Committing\<close>

definition roll_segment_if_needed :: "io_env \<Rightarrow> durable_store \<Rightarrow> disk \<Rightarrow> disk \<times> durable_store \<times> void_result" where
  "roll_segment_if_needed env s d =
     (if ds_segment_bytes s < kSegmentRollBytes then (d, s, Inr ())
      else if unat (ds_segment_index s + 1) \<ge> max_journal_segments (op_limits (ds_options s)) then
        (d, s, Inl (make_error St_LimitExceeded
          (cat [''journal has reached '', u_dec (ds_segment_index s + 1), '' segments; run a checkpoint to compact the store''])))
      else open_segment env (ds_segment_index s + 1)
             (s\<lparr>ds_segment_open := False, ds_segment_index := ds_segment_index s + 1\<rparr>) d)"

definition append_record :: "io_env \<Rightarrow> string \<Rightarrow> durable_store \<Rightarrow> disk \<Rightarrow> disk \<times> durable_store \<times> void_result" where
  "append_record env bytes s d =
     (let name = journal_segment_name (ds_segment_index s) in
      if \<not> ds_segment_open s then (d, s, Inl (make_error St_NotReady ''the journal segment is not open''))
      else case write_all env d name bytes of
        (d1, Inl e) \<Rightarrow> (d1, s, Inl e)
      | (d1, Inr _) \<Rightarrow>
          (case (if op_fsync (ds_options s) then flush_to_platform env name bytes else Inr ()) of
             Inl e \<Rightarrow> (d1, s, Inl e)
           | Inr _ \<Rightarrow>
               (d1, s\<lparr>ds_segment_bytes := ds_segment_bytes s + of_nat (length bytes),
                      ds_durable_bytes := ds_durable_bytes s + of_nat (length bytes)\<rparr>, Inr ())))"

text \<open>The plan: the generation the mutation must produce, and the durable size after both of its
  records, with the saturating inner sum of the source.\<close>

definition planned_generation :: "state_image \<Rightarrow> mutation \<Rightarrow> generation" where
  "planned_generation live m =
     (if mutation_is_idempotent live m then im_generation live
      else case gen_next (im_generation live) of Some g \<Rightarrow> g | None \<Rightarrow> gen_unset)"

definition projected_bytes :: "durable_store \<Rightarrow> string \<Rightarrow> u64 option" where
  "projected_bytes s payload =
     checked_add
       (case checked_add (ds_durable_bytes s) (journal_record_bytes (of_nat (length payload))) of Some n \<Rightarrow> n | None \<Rightarrow> - 1)
       (journal_record_bytes (8 + 32))"

text \<open>Everything a commit checks before it writes: the planned mutation and its payload.\<close>

definition plan_commit :: "durable_store \<Rightarrow> mutation \<Rightarrow> state_image \<Rightarrow> (mutation \<times> string) result" where
  "plan_commit s m live =
     (let limits = op_limits (ds_options s) in
      if \<not> ds_open s then Inl (make_error St_NotReady ''the store is not open'')
      else if im_health live \<noteq> Healthy then
        Inl (make_error St_Degraded (cat [''the store is degraded ('', im_health_detail live,
          ''); refusing to extend it until the state is repaired'']))
      else rbind (validate_mutation live m) (\<lambda>_.
        let planned = m\<lparr>mu_resulting_generation := planned_generation live m\<rparr>;
            payload = encode_mutation planned in
        if \<not> gen_is_set (mu_resulting_generation planned) then
          Inl (make_error St_Overflow ''the fabric state generation counter is exhausted'')
        else if length payload > max_record_payload limits then
          Inl (make_error St_LimitExceeded (cat [''mutation encodes to '', to_dec (length payload),
            '' bytes, the record limit is '', to_dec (max_record_payload limits)]))
        else if (case projected_bytes s payload of None \<Rightarrow> True | Some n \<Rightarrow> unat n > max_state_bytes limits) then
          Inl (make_error St_LimitExceeded (cat [''committing this mutation would grow the durable store beyond '',
            to_dec (max_state_bytes limits), '' bytes; run a checkpoint'']))
        else Inr (planned, payload)))"

text \<open>The second half of the protocol, once the pending record is durable: perform, verify and
  confirm.\<close>

definition perform_commit :: "io_env \<Rightarrow> mutation \<Rightarrow> string \<Rightarrow> durable_store \<Rightarrow> state_image \<Rightarrow> disk \<Rightarrow>
    disk \<times> durable_store \<times> state_image \<times> void_result" where
  "perform_commit env planned payload s live d =
     (case apply_mutation live planned False of
        (live1, Inl e) \<Rightarrow> (d, s, live1, Inl e)
      | (live1, Inr _) \<Rightarrow>
          if im_generation live1 \<noteq> mu_resulting_generation planned then
            (d, s, live1, Inl (make_error St_Internal (cat [''the applier produced generation '', u_dec (im_generation live1),
              '' but the plan said '', u_dec (mu_resulting_generation planned)])))
          else
            (let sequence = ds_next_sequence s;
                 confirmation = encode_commit_payload sequence (sha256_text payload) in
             case append_record env (encode_journal_record Commit sequence confirmation (ds_key s)) s d of
               (d1, s1, Inl e) \<Rightarrow> (d1, s1, live1, Inl e)
             | (d1, s1, Inr _) \<Rightarrow>
                 (d1, s1\<lparr>ds_journal_records := Suc (ds_journal_records s1), ds_next_sequence := ds_next_sequence s1 + 1\<rparr>,
                  live1\<lparr>im_last_sequence := sequence\<rparr>, Inr ())))"

definition commit_mutation :: "io_env \<Rightarrow> mutation \<Rightarrow> durable_store \<Rightarrow> state_image \<Rightarrow> disk \<Rightarrow>
    disk \<times> durable_store \<times> state_image \<times> void_result" where
  "commit_mutation env m s live d =
     (case plan_commit s m live of
        Inl e \<Rightarrow> (d, s, live, Inl e)
      | Inr (planned, payload) \<Rightarrow>
          (case roll_segment_if_needed env s d of
             (d1, s1, Inl e) \<Rightarrow> (d1, s1, live, Inl e)
           | (d1, s1, Inr _) \<Rightarrow>
               (case append_record env (encode_journal_record Pending (ds_next_sequence s1) payload (ds_key s1)) s1 d1 of
                  (d2, s2, Inl e) \<Rightarrow> (d2, s2, live, Inl e)
                | (d2, s2, Inr _) \<Rightarrow>
                    perform_commit env planned payload (s2\<lparr>ds_journal_records := Suc (ds_journal_records s2)\<rparr>) live d2)))"

section \<open>Checkpoint and verification\<close>

definition retire_segments :: "io_env \<Rightarrow> u32 \<Rightarrow> u32 \<Rightarrow> disk \<Rightarrow> disk" where
  "retire_segments env old_index first_segment d =
     foldl (\<lambda>d' index. fst (remove_file env d' (journal_segment_name index))) d
       (takeWhile (\<lambda>index. index < first_segment) (map of_nat [0..<Suc (unat old_index)]))"

definition checkpoint_manifest :: "io_env \<Rightarrow> durable_store \<Rightarrow> state_image \<Rightarrow> disk \<Rightarrow> manifest" where
  "checkpoint_manifest env s img d =
     \<lparr>mf_epoch = im_epoch img, mf_state_generation = im_generation img, mf_last_sequence = im_last_sequence img,
      mf_first_segment = ds_segment_index s + 1, mf_snapshot_present = True,
      mf_snapshot_digest = sha256_text (encode_state img), mf_snapshot_bytes = size_or_zero env d kSnapshotName\<rparr>"

definition checkpoint :: "io_env \<Rightarrow> durable_store \<Rightarrow> state_image \<Rightarrow> disk \<Rightarrow> disk \<times> durable_store \<times> generation result" where
  "checkpoint env s img d =
     (if \<not> ds_open s then (d, s, Inl (make_error St_NotReady ''the store is not open''))
      else if im_health img \<noteq> Healthy then
        (d, s, Inl (make_error St_Degraded ''the store is degraded; refusing to snapshot degraded state''))
      else case write_snapshot env s img d of
        (d1, Inl e) \<Rightarrow> (d1, s, Inl e)
      | (d1, Inr _) \<Rightarrow>
          (let m = checkpoint_manifest env s img d1 in
           case write_manifest env (ds_options s) (ds_key s) m d1 of
             (d2, Inl e) \<Rightarrow> (d2, s, Inl e)
           | (d2, Inr _) \<Rightarrow>
               (let s1 = s\<lparr>ds_segment_open := False, ds_segment_index := mf_first_segment m\<rparr> in
                if unat (ds_segment_index s1 + 1) \<ge> max_journal_segments (op_limits (ds_options s)) then
                  (d2, s1, Inl (make_error St_LimitExceeded ''journal segment counter is exhausted''))
                else case open_segment env (ds_segment_index s1) s1 d2 of
                  (d3, s2, Inl e) \<Rightarrow> (d3, s2, Inl e)
                | (d3, s2, Inr _) \<Rightarrow>
                    (let d4 = retire_segments env (ds_segment_index s) (mf_first_segment m) d3
                     in (d4, recompute_durable_bytes env d4 s2, Inr (im_generation img))))))"

definition verify_against :: "state_image \<Rightarrow> state_image \<Rightarrow> integrity_report \<Rightarrow> integrity_report" where
  "verify_against scratch live report =
     (if ir_health report \<noteq> Healthy then report
      else
        (let r = report\<lparr>ir_state_digest := state_digest (expire_grants scratch),
               ir_state_generation := im_generation scratch, ir_epoch := im_epoch scratch\<rparr> in
         if ir_state_digest r \<noteq> state_digest (expire_grants live) then
           r\<lparr>ir_ok := False, ir_health := Degraded,
             ir_detail := ''the live image does not match a fresh replay of the durable store''\<rparr>
         else if ir_state_generation r \<noteq> im_generation live \<or> ir_epoch r \<noteq> im_epoch live then
           r\<lparr>ir_ok := False, ir_health := Degraded,
             ir_detail := ''the live image generation or epoch does not match the durable store''\<rparr>
         else r\<lparr>ir_ok := True\<rparr>))"

definition verify_store :: "io_env \<Rightarrow> durable_store \<Rightarrow> state_image \<Rightarrow> disk \<Rightarrow> disk \<times> integrity_report result" where
  "verify_store env s live d =
     (case replay env (ds_options s) (ds_key s) d of
        (d1, _, Inl e) \<Rightarrow> (d1, Inl e)
      | (d1, scratch, Inr report) \<Rightarrow> (d1, Inr (verify_against scratch live report)))"

end
