(* ===== verification/Redo.thy ===== *)
theory Redo
  imports Store
begin

text \<open>
  What the journal means. A history is the list of mutations a store has committed; its records
  are a pending record and a commit record per mutation, with consecutive sequence numbers, and
  its meaning is the image that applying the mutations in order produces. The lemmas connect the
  record loop of \<^verbatim>\<open>DurableStore::replay\<close> with that meaning.
\<close>

section \<open>A mutation and its durable part\<close>

lemma durable_fields [simp]:
  "mu_op (durable_part m) = mu_op m" "mu_epoch (durable_part m) = mu_epoch m"
  "mu_publisher (durable_part m) = mu_publisher m" "mu_boot (durable_part m) = mu_boot m"
  "mu_token (durable_part m) = mu_token m" "mu_recorded_at_ms (durable_part m) = mu_recorded_at_ms m"
  "mu_reason (durable_part m) = mu_reason m" "mu_resulting_generation (durable_part m) = mu_resulting_generation m"
  by (cases "mu_op m"; simp add: durable_part_def Let_def)+

lemma durable_payload [simp]:
  "mu_op m = DefineClass \<Longrightarrow> mu_cls (durable_part m) = mu_cls m"
  "mu_op m = DefineScope \<Longrightarrow> mu_scope (durable_part m) = mu_scope m"
  "mu_op m = DefinePolicy \<Longrightarrow> mu_policy (durable_part m) = mu_policy m"
  "mu_op m = DefineSubject \<Longrightarrow> mu_subject (durable_part m) = mu_subject m"
  "mu_op m = Assign \<Longrightarrow> mu_assignment (durable_part m) = mu_assignment m"
  "mu_op m = RetireAssignment \<Longrightarrow> mu_retire_target (durable_part m) = mu_retire_target m"
  "mu_op m = FenceAuthority \<Longrightarrow> mu_fence_publisher (durable_part m) = mu_fence_publisher m"
  "mu_op m = FenceAuthority \<Longrightarrow> mu_fence_boot (durable_part m) = mu_fence_boot m"
  by (simp_all add: durable_part_def Let_def)

lemma encode_durable [simp]: "encode_mutation (durable_part m) = encode_mutation m"
  by (cases "mu_op m") (simp_all add: encode_mutation_def mutation_payload_def)

lemma grant_scan_durable [simp]: "grant_scan (durable_part m) entries n = grant_scan m entries n"
  by (induction m entries n rule: grant_scan.induct) simp_all

lemma validate_grant_durable [simp]: "validate_grant img (durable_part m) = validate_grant img m"
  unfolding validate_grant_def durable_fields grant_scan_durable by (rule refl)

lemma validate_durable [simp]: "validate_mutation img (durable_part m) = validate_mutation img m"
  by (cases "mu_op m") (simp_all add: validate_mutation_def validate_retire_def validate_fence_def)

lemma idempotent_durable [simp]: "is_idempotent img (durable_part m) = is_idempotent img m"
  by (cases "mu_op m") (simp_all add: is_idempotent_def same_authority_binding_def split: option.split)

lemma entity_generation_durable: "entity_generation img (durable_part m) = entity_generation img m"
  by (cases "mu_op m") (simp_all add: entity_generation_def)

lemma bump_durable [simp]: "bump img (durable_part m) = bump img m"
  by (cases "mu_op m") (simp_all add: bump_def entity_generation_durable)

lemma content_unchanged_durable [simp]: "content_unchanged img (durable_part m) = content_unchanged img m"
  by (cases "mu_op m") (simp_all add: content_unchanged_def split: option.split)

lemma provenance_durable [simp]: "mutation_provenance img (durable_part m) g = mutation_provenance img m g"
  by (simp add: mutation_provenance_def)

lemma apply_op_durable [simp]: "apply_op img (durable_part m) i p = apply_op img m i p"
  by (cases "mu_op m") (simp_all add: op_defs cong: option.case_cong)

text \<open>What the commit path accepts, replay accepts, with the same effect.\<close>

lemma admit_replay: "admit img m False = Inr r \<Longrightarrow> admit img (durable_part m) True = Inr r"
  by (auto simp: admit_def rbind_def Let_def split: sum.splits if_splits)

lemma record_audit_durable [simp]: "record_audit img (durable_part m) g = record_audit img m g"
  by (simp add: record_audit_def)

lemma apply_durable:
  assumes "apply_mutation img m False = (img', Inr ())"
  shows "apply_mutation img (durable_part m) True = (img', Inr ())"
proof (cases "admit img m False")
  case (Inl e)
  then show ?thesis using assms by (simp add: apply_mutation_def)
next
  case (Inr r)
  then show ?thesis using assms admit_replay[OF Inr] by (cases r) (simp add: apply_mutation_def)
qed

section \<open>Histories\<close>

fun entries :: "u64 \<Rightarrow> mutation list \<Rightarrow> framed list" where
  "entries q [] = []"
| "entries q (m # ms) =
     (Pending, q, encode_mutation m) #
     (Commit, q, encode_commit_payload q (sha256_text (encode_mutation m))) # entries (q + 1) ms"

fun redo :: "state_image \<Rightarrow> mutation list \<Rightarrow> state_image option" where
  "redo img [] = Some img"
| "redo img (m # ms) =
     (case apply_mutation img (durable_part m) True of
        (img', Inr _) \<Rightarrow> redo (img'\<lparr>im_last_sequence := im_last_sequence img + 1\<rparr>) ms
      | (_, Inl _) \<Rightarrow> None)"

lemma entries_append: "entries q (ms @ ns) = entries q ms @ entries (q + of_nat (length ms)) ns"
  by (induction ms arbitrary: q) (simp_all add: ac_simps)

lemma length_entries [simp]: "length (entries q ms) = 2 * length ms"
  by (induction ms arbitrary: q) auto

lemma redo_append: "redo img (ms @ ns) = Option.bind (redo img ms) (\<lambda>img'. redo img' ns)"
  by (induction ms arbitrary: img) (auto split: prod.splits sum.splits)

text \<open>A record payload the scan accepts, for both records of a mutation.\<close>

definition entry_ok :: "limits \<Rightarrow> mutation \<Rightarrow> bool" where
  "entry_ok limits m \<longleftrightarrow> mutation_ok limits m \<and> payload_ok limits (encode_mutation m) \<and> 40 \<le> max_record_payload limits"

lemma length_sha256_text [simp]: "length (sha256_text t) = 32"
  by (simp add: sha256_text_def sha256_hash_length)

lemma length_commit_payload [simp]: "length (encode_commit_payload q (sha256_text t)) = 40"
  by (simp add: encode_commit_payload_def append_le_def)

lemma entries_framed_ok: "list_all (entry_ok limits) ms \<Longrightarrow> list_all (framed_ok limits) (entries q ms)"
  by (induction ms arbitrary: q) (auto simp: framed_ok_def entry_ok_def payload_ok_def)

lemma commit_payload_roundtrip [simp]:
  "decode_commit_payload (encode_commit_payload q (sha256_text t)) = Inr (q, sha256_text t)"
proof -
  have "read_at (le_bytes q 8 @ chars_of (sha256_text t)) 0 8 = q"
    using read_at_field[of "[]" 0 q 8 "chars_of (sha256_text t)"] by simp
  then show ?thesis
    by (simp add: decode_commit_payload_def) (simp add: encode_commit_payload_def append_le_def bytes_chars_roundtrip)
qed

text \<open>The images a history passes through keep the limits and the sequence.\<close>

definition applied :: "state_image \<Rightarrow> nat \<Rightarrow> replay_state \<Rightarrow> replay_state" where
  "applied img n rs = rs\<lparr>rp_image := img, rp_expected := rp_expected rs + of_nat n,
     rp_report := (rp_report rs)\<lparr>ir_records_applied := ir_records_applied (rp_report rs) + n\<rparr>\<rparr>"

lemma replay_pair:
  assumes "rp_pending rs = []" "entry_ok limits m"
    and "apply_mutation (rp_image rs) (durable_part m) True = (img, Inr ())"
    and "rp_expected rs = q" "q = im_last_sequence (rp_image rs) + 1"
  shows "replay_records limits (scanned Pending q (encode_mutation m) a #
      scanned Commit q (encode_commit_payload q (sha256_text (encode_mutation m))) b # others) rs =
    replay_records limits others (applied (img\<lparr>im_last_sequence := q\<rparr>) 1 rs)"
proof -
  have dec: "decode_mutation (encode_mutation m) limits = Inr (durable_part m)"
    using assms(2) by (simp add: entry_ok_def decode_mutation_encode)
  show ?thesis
    using assms(1,3,4) dec
    by (cases rs) (simp add: replay_record_def scanned_def replay_pending_def om_has_def om_find_def replay_commit_def replay_apply_def
        applied_def om_erase_def assms(5))
qed

lemma replay_entries:
  assumes "rp_pending rs = []" "list_all (entry_ok limits) ms" "redo (rp_image rs) ms = Some img"
    and "rp_expected rs = im_last_sequence (rp_image rs) + 1"
  shows "replay_records limits (scanned_at key off (entries (rp_expected rs) ms) @ others) rs =
    replay_records limits others (applied img (length ms) rs)"
  using assms
proof (induction ms arbitrary: rs off)
  case Nil
  then show ?case by (cases rs) (simp add: applied_def)
next
  case (Cons m ms)
  let ?q = "rp_expected rs"
  from Cons.prems(3) obtain img1 where s: "apply_mutation (rp_image rs) (durable_part m) True = (img1, Inr ())"
      "redo (img1\<lparr>im_last_sequence := ?q\<rparr>) ms = Some img"
    using Cons.prems(4) by (auto split: prod.splits sum.splits)
  let ?rs = "applied (img1\<lparr>im_last_sequence := ?q\<rparr>) 1 rs"
  have ih: "replay_records limits (scanned_at key o' (entries (rp_expected ?rs) ms) @ others) ?rs =
      replay_records limits others (applied img (length ms) ?rs)" for o'
    using Cons.prems s(2) by (intro Cons.IH) (simp_all add: applied_def)
  have "applied img (length ms) ?rs = applied img (length (m # ms)) rs" by (simp add: applied_def ac_simps)
  moreover have "rp_expected ?rs = ?q + 1" by (simp add: applied_def)
  ultimately show ?case
    using ih replay_pair[OF Cons.prems(1) _ s(1) refl] Cons.prems(2,4) by simp
qed

text \<open>A pending record that was never confirmed only leaves itself in the table.\<close>

lemma replay_unfinished:
  assumes "rp_pending rs = []"
  shows "replay_records limits [scanned Pending (rp_expected rs) payload off] rs =
    rs\<lparr>rp_pending := [(rp_expected rs, payload)]\<rparr>"
  using assms by (simp add: replay_record_def scanned_def replay_pending_def om_has_def om_find_def)

end
