(* ===== verification/Recovery.thy ===== *)
theory Recovery
  imports Redo
begin

text \<open>
  Recovery of the durable store. \<open>recovers\<close> says what a restart finds on a directory; the lemmas
  show that a directory whose journal spells out a history recovers the meaning of the history,
  also when the last append was cut short, and that the store keeps this shape: opening, committing
  and checkpointing under any pattern of failing system calls.
\<close>

section \<open>Reading a directory\<close>

definition manifest_stored :: "string \<Rightarrow> disk \<Rightarrow> manifest \<Rightarrow> bool" where
  "manifest_stored key d m \<longleftrightarrow>
     (\<exists>c. om_find d kManifestName = Some c \<and> length c \<le> 4096 \<and> parse_manifest key c = Inr m)"

definition base_stored :: "store_options \<Rightarrow> string \<Rightarrow> disk \<Rightarrow> manifest \<Rightarrow> state_image \<Rightarrow> bool" where
  "base_stored opts key d m base \<longleftrightarrow>
     (if mf_snapshot_present m then
        (\<exists>c. om_find d kSnapshotName = Some c \<and> length c \<le> max_state_bytes (op_limits opts) \<and>
          parse_snapshot opts key m c = Inr base)
      else base = empty_image (op_limits opts))"

definition own_segments :: "u32 \<Rightarrow> disk \<Rightarrow> u32 list" where
  "own_segments first d = sort (filter (\<lambda>i. i \<ge> first) (segments_of (map fst d)))"

text \<open>A restart succeeds, with an intact report, on this image, and leaves the directory \<open>d'\<close>.\<close>

definition recovers_to :: "store_options \<Rightarrow> string \<Rightarrow> disk \<Rightarrow> disk \<Rightarrow> state_image \<Rightarrow> bool" where
  "recovers_to opts key d d' img \<longleftrightarrow>
     (\<forall>env. calm env \<longrightarrow> (\<exists>report. replay env opts key d = (d', img, Inr report) \<and> ir_ok report \<and> ir_health report = Healthy))"

definition recovers :: "store_options \<Rightarrow> string \<Rightarrow> disk \<Rightarrow> state_image \<Rightarrow> bool" where
  "recovers opts key d img \<longleftrightarrow> (\<exists>d'. recovers_to opts key d d' img)"

text \<open>The segments of a closed part of the journal: each spells out its share of the history.\<close>

definition segment_ok :: "limits \<Rightarrow> string \<Rightarrow> u64 \<Rightarrow> mutation list \<Rightarrow> bool" where
  "segment_ok limits key q ms \<longleftrightarrow> list_all (entry_ok limits) ms \<and> 2 * length ms < kMaxRecordsPerSegment \<and>
     length (frames key (entries q ms)) \<le> max_state_bytes limits"

fun segments_hold :: "limits \<Rightarrow> string \<Rightarrow> disk \<Rightarrow> u64 \<Rightarrow> u32 list \<Rightarrow> mutation list list \<Rightarrow> bool" where
  "segments_hold limits key d q [] [] \<longleftrightarrow> True"
| "segments_hold limits key d q (i # ix) (ms # mss) \<longleftrightarrow>
     om_find d (journal_segment_name i) = Some (frames key (entries q ms)) \<and> segment_ok limits key q ms \<and>
     segments_hold limits key d (q + of_nat (length ms)) ix mss"
| "segments_hold limits key d q _ _ \<longleftrightarrow> False"

lemma redo_sequence: "redo img ms = Some img' \<Longrightarrow> im_last_sequence img' = im_last_sequence img + of_nat (length ms)"
  by (induction ms arbitrary: img) (fastforce split: prod.splits sum.splits)+

lemma segments_hold_append:
  "length ix = length mss \<Longrightarrow> segments_hold limits key d q (ix @ js) (mss @ nss) \<longleftrightarrow>
     segments_hold limits key d q ix mss \<and> segments_hold limits key d (q + of_nat (length (concat mss))) js nss"
  by (induction ix mss arbitrary: q rule: list_induct2) (auto simp: ac_simps)

lemma segments_hold_length: "segments_hold limits key d q ix mss \<Longrightarrow> length ix = length mss"
  by (induction limits key d q ix mss rule: segments_hold.induct) auto

lemma segments_hold_cong:
  assumes "\<And>i. i \<in> set ix \<Longrightarrow> om_find d' (journal_segment_name i) = om_find d (journal_segment_name i)"
  shows "segments_hold limits key d' q ix mss = segments_hold limits key d q ix mss"
  using assms by (induction limits key d q ix mss rule: segments_hold.induct) auto

text \<open>The replay of complete segments.\<close>

definition advanced :: "state_image \<Rightarrow> nat \<Rightarrow> replay_state \<Rightarrow> replay_state \<Rightarrow> bool" where
  "advanced img n rs rs' \<longleftrightarrow> rp_image rs' = img \<and> rp_expected rs' = rp_expected rs + of_nat n \<and>
     rp_pending rs' = rp_pending rs \<and> ir_health (rp_report rs') = ir_health (rp_report rs)"

lemma scan_segment_calm:
  assumes "calm env" "key \<noteq> []" "om_find d (journal_segment_name i) = Some (frames key rs @ t)"
    and "length (frames key rs @ t) \<le> max_state_bytes (op_limits opts)" "list_all (framed_ok (op_limits opts)) rs"
    and "length rs < kMaxRecordsPerSegment" "torn key (op_limits opts) t \<or> t = []"
  shows "scan_segment env opts key d i =
    Inr \<lparr>sc_records = scanned_at key 0 rs, sc_trailing_bytes = length t, sc_integrity_failures = 0,
      sc_records_read = length rs, sc_failure_detail = []\<rparr>"
  using assms scan_segment_frames[OF assms(2,5-7)] by (simp add: scan_segment_def read_all_calm)

lemma replay_one_segment:
  assumes "calm env" "key \<noteq> []" "om_find d (journal_segment_name i) = Some (frames key (entries (rp_expected rs) ms))"
    and "segment_ok (op_limits opts) key (rp_expected rs) ms" "rp_pending rs = []" "ir_health (rp_report rs) = Healthy"
    and "rp_expected rs = im_last_sequence (rp_image rs) + 1" "redo (rp_image rs) ms = Some img"
  shows "\<exists>rs'. advanced img (length ms) rs rs' \<and>
    replay_segments env opts key (i # js) d rs = replay_segments env opts key js d rs'"
proof -
  let ?res = "\<lparr>sc_records = scanned_at key 0 (entries (rp_expected rs) ms), sc_trailing_bytes = 0, sc_integrity_failures = 0,
      sc_records_read = 2 * length ms, sc_failure_detail = []\<rparr>"
  have scan: "scan_segment env opts key d i = Inr ?res"
    using assms(4) scan_segment_calm[OF assms(1,2), of d i "entries (rp_expected rs) ms" "[]" opts] assms(3) entries_framed_ok
    by (simp add: segment_ok_def)
  have "replay_records (op_limits opts) (sc_records ?res) (count_scan ?res rs) = applied img (length ms) (count_scan ?res rs)"
    using assms(4-8) replay_entries[of "count_scan ?res rs" "op_limits opts" ms img key 0 "[]"]
    by (simp add: count_scan_def Let_def segment_ok_def)
  then show ?thesis
    using scan assms(6)
    by (intro exI[of _ "applied img (length ms) (count_scan ?res rs)"])
      (simp add: advanced_def applied_def count_scan_def Let_def replay_tail_def)
qed

lemma replay_closed_segments:
  assumes "calm env" "key \<noteq> []" "segments_hold (op_limits opts) key d (rp_expected rs) ix mss"
    and "rp_pending rs = []" "ir_health (rp_report rs) = Healthy"
    and "rp_expected rs = im_last_sequence (rp_image rs) + 1" "redo (rp_image rs) (concat mss) = Some img"
  shows "\<exists>rs'. advanced img (length (concat mss)) rs rs' \<and>
    replay_segments env opts key (ix @ js) d rs = replay_segments env opts key js d rs'"
  using assms(3-7)
proof (induction ix arbitrary: mss rs)
  case Nil
  then show ?case by (cases mss) (auto simp: advanced_def)
next
  case (Cons i ix)
  then obtain ms nss where mss: "mss = ms # nss" by (cases mss) auto
  obtain img1 where r: "redo (rp_image rs) ms = Some img1" "redo img1 (concat nss) = Some img"
    using Cons.prems(5) by (auto simp: mss redo_append Option.bind_eq_Some_conv)
  obtain rs1 where rs1: "advanced img1 (length ms) rs rs1"
      "replay_segments env opts key (i # ix @ js) d rs = replay_segments env opts key (ix @ js) d rs1"
    using replay_one_segment[OF assms(1,2) _ _ Cons.prems(2,3,4) r(1), of d i opts "ix @ js"] Cons.prems(1) by (auto simp: mss)
  obtain rs2 where rs2: "advanced img (length (concat nss)) rs1 rs2"
      "replay_segments env opts key (ix @ js) d rs1 = replay_segments env opts key js d rs2"
    using Cons.IH[of rs1 nss] Cons.prems rs1(1) r redo_sequence[OF r(1)] by (auto simp: mss advanced_def ac_simps)
  show ?case
    using rs1 rs2 by (intro exI[of _ rs2]) (auto simp: mss advanced_def)
qed

text \<open>The replay of the segment being appended to, which may end in an unconfirmed pending record
  and in a torn one.\<close>

lemma truncate_tail_calm:
  assumes "calm env" "om_find d name = Some (content @ t)" "length (content @ t) < 2 ^ 63"
  shows "truncate_file env d name (size_or_zero env d name - of_nat (length t)) = (om_put name content d, Inr ())"
proof -
  have n: "size_or_zero env d name - of_nat (length t) = of_nat (length content)"
    using assms(1,2) by (simp add: size_or_zero_def file_size_def)
  have "unat (of_nat (length content) :: u64) = length content"
    using assms(3) by (simp add: unat_of_nat)
  then show ?thesis
    using assms by (simp add: n truncate_file_def)
qed

definition tail_ok :: "limits \<Rightarrow> string \<Rightarrow> u64 \<Rightarrow> framed list \<Rightarrow> string \<Rightarrow> bool" where
  "tail_ok limits key q us t \<longleftrightarrow> (us = [] \<or> (\<exists>payload. us = [(Pending, q, payload)] \<and> payload_ok limits payload)) \<and>
     (t = [] \<or> torn key limits t)"

lemma replay_last_segment:
  assumes "calm env" "key \<noteq> []" "om_find d (journal_segment_name i) = Some (frames key (entries (rp_expected rs) ms @ us) @ t)"
    and "list_all (entry_ok (op_limits opts)) ms" "2 * length ms + length us < kMaxRecordsPerSegment"
    and "length (frames key (entries (rp_expected rs) ms @ us) @ t) \<le> max_state_bytes (op_limits opts)"
    and "max_state_bytes (op_limits opts) < 2 ^ 63"
    and "rp_pending rs = []" "ir_health (rp_report rs) = Healthy"
    and "rp_expected rs = im_last_sequence (rp_image rs) + 1" "redo (rp_image rs) ms = Some img"
    and "tail_ok (op_limits opts) key (rp_expected rs + of_nat (length ms)) us t"
    and "d' = (if t = [] then d else om_put (journal_segment_name i) (frames key (entries (rp_expected rs) ms @ us)) d)"
  shows "\<exists>rs'. replay_segments env opts key [i] d rs = (d', rs', Inr ()) \<and> rp_image rs' = img \<and>
    ir_health (rp_report rs') = Healthy"
proof -
  let ?res = "\<lparr>sc_records = scanned_at key 0 (entries (rp_expected rs) ms @ us), sc_trailing_bytes = length t,
      sc_integrity_failures = 0, sc_records_read = 2 * length ms + length us, sc_failure_detail = []\<rparr>"
  define R where "R = applied img (length ms) (count_scan ?res rs)"
  have R: "rp_expected R = rp_expected rs + of_nat (length ms)" "rp_pending R = []" "rp_image R = img"
      "ir_health (rp_report R) = Healthy"
    using assms(8,9) by (simp_all add: R_def applied_def count_scan_def Let_def)
  have "list_all (framed_ok (op_limits opts)) us" using assms(12) by (auto simp: tail_ok_def framed_ok_def)
  then have scan: "scan_segment env opts key d i = Inr ?res"
    using assms(4-7,12) scan_segment_calm[OF assms(1-3,6)] entries_framed_ok by (auto simp: tail_ok_def)
  have "replay_records (op_limits opts) (sc_records ?res) (count_scan ?res rs) =
      replay_records (op_limits opts) (scanned_at key (length (frames key (entries (rp_expected rs) ms))) us) R"
    using assms(4,8,10,11) replay_entries[of "count_scan ?res rs" "op_limits opts" ms img key 0]
    by (simp add: R_def count_scan_def Let_def scanned_at_append)
  also have "\<exists>table. \<dots> = R\<lparr>rp_pending := table\<rparr>"
  proof (cases us)
    case Nil
    then show ?thesis by (intro exI[of _ "rp_pending R"]) simp
  next
    case (Cons u us')
    then obtain payload where us: "us = [(Pending, rp_expected R, payload)]"
      using assms(12) by (auto simp: tail_ok_def R(1))
    show ?thesis unfolding us scanned_at.simps prod.case replay_unfinished[OF R(2)] by blast
  qed
  finally obtain table where records: "replay_records (op_limits opts) (sc_records ?res) (count_scan ?res rs) =
      R\<lparr>rp_pending := table\<rparr>" by blast
  obtain rs' where "replay_tail env i True (length t) d (R\<lparr>rp_pending := table\<rparr>) = (d', rs')"
      "rp_image rs' = img" "ir_health (rp_report rs') = Healthy"
    using R(3,4) truncate_tail_calm[OF assms(1,3)] assms(6,7,13)
    by (cases "t = []") (auto simp: replay_tail_def Let_def)
  then show ?thesis using scan records R(4) by simp
qed

text \<open>What a restart finds.\<close>

lemma read_manifest_calm: "calm env \<Longrightarrow> manifest_stored key d m \<Longrightarrow> read_manifest env key d = Inr m"
  by (auto simp: manifest_stored_def read_manifest_def read_all_calm)

lemma replay_base_calm:
  "calm env \<Longrightarrow> base_stored opts key d m base \<Longrightarrow> \<exists>n. replay_base env opts key m d = Inr (base, n)"
  by (auto simp: base_stored_def replay_base_def read_snapshot_def read_all_calm split: if_splits)

lemma finish_healthy:
  assumes "ir_health (rp_report rs) = Healthy"
  shows "\<exists>report. finish_report rs = (rp_image rs, report) \<and> ir_ok report \<and> ir_health report = Healthy"
  using assms by (simp add: finish_report_def Let_def)

lemma recovers_segments:
  assumes "manifest_stored key d m" "base_stored opts key d m base"
    and "length (own_segments (mf_first_segment m) d) \<le> max_journal_segments (op_limits opts)"
    and "\<And>env (rs :: replay_state). \<lbrakk>calm env; rp_image rs = restore_counters m base; rp_expected rs = mf_last_sequence m + 1;
      rp_pending rs = []; ir_health (rp_report rs) = Healthy\<rbrakk> \<Longrightarrow>
      \<exists>rs'. replay_segments env opts key (own_segments (mf_first_segment m) d) d rs = (d', rs', Inr ()) \<and>
        rp_image rs' = img \<and> ir_health (rp_report rs') = Healthy"
  shows "recovers_to opts key d d' img"
  unfolding recovers_to_def
proof (intro allI impI)
  fix env assume calm: "calm env"
  obtain n where n: "replay_base env opts key m d = Inr (base, n)" using replay_base_calm[OF calm assms(2)] by blast
  let ?rs = "\<lparr>rp_image = restore_counters m base, rp_report = report_default\<lparr>ir_records_applied := n\<rparr>,
    rp_expected = mf_last_sequence m + 1, rp_pending = []\<rparr>"
  obtain rs' where r: "replay_segments env opts key (own_segments (mf_first_segment m) d) d ?rs = (d', rs', Inr ())"
      "rp_image rs' = img" "ir_health (rp_report rs') = Healthy"
    using assms(4)[OF calm, of ?rs] by (auto simp: report_default_def)
  have "fs_exists env d kManifestName"
    using calm assms(1) by (auto simp: fs_exists_def manifest_stored_def om_has_def)
  then show "\<exists>report. replay env opts key d = (d', img, Inr report) \<and> ir_ok report \<and> ir_health report = Healthy"
    using calm n r assms(3) read_manifest_calm[OF calm assms(1)] finish_healthy[OF r(3)]
    by (auto simp: replay_def replay_journal_def list_files_def own_segments_def Let_def)
qed

lemma restore_counters_sequence [simp]: "im_last_sequence (restore_counters m img) = mf_last_sequence m"
  by (simp add: restore_counters_def)

lemma recovers_history:
  assumes "manifest_stored key d m" "base_stored opts key d m base" "key \<noteq> []"
    and "own_segments (mf_first_segment m) d = ix @ [i]" "Suc (length ix) \<le> max_journal_segments (op_limits opts)"
    and "segments_hold (op_limits opts) key d (mf_last_sequence m + 1) ix mss"
    and "redo (restore_counters m base) (concat mss @ ms) = Some img" "list_all (entry_ok (op_limits opts)) ms"
    and "q = mf_last_sequence m + 1 + of_nat (length (concat mss))"
    and "om_find d (journal_segment_name i) = Some (frames key (entries q ms @ us) @ t)"
    and "tail_ok (op_limits opts) key (q + of_nat (length ms)) us t"
    and "2 * length ms + length us < kMaxRecordsPerSegment"
    and "length (frames key (entries q ms @ us) @ t) \<le> max_state_bytes (op_limits opts)"
    and "max_state_bytes (op_limits opts) < 2 ^ 63"
    and "d' = (if t = [] then d else om_put (journal_segment_name i) (frames key (entries q ms @ us)) d)"
  shows "recovers_to opts key d d' img"
proof (rule recovers_segments[OF assms(1,2)])
  show "length (own_segments (mf_first_segment m) d) \<le> max_journal_segments (op_limits opts)"
    using assms(4,5) by simp
  fix env and rs :: replay_state assume env: "calm env" and rs: "rp_image rs = restore_counters m base" "rp_expected rs = mf_last_sequence m + 1"
    "rp_pending rs = []" "ir_health (rp_report rs) = Healthy"
  obtain img1 where r: "redo (rp_image rs) (concat mss) = Some img1" "redo img1 ms = Some img"
    using assms(7) rs(1) by (auto simp: redo_append Option.bind_eq_Some_conv)
  obtain rs1 where rs1: "advanced img1 (length (concat mss)) rs rs1"
      "replay_segments env opts key (ix @ [i]) d rs = replay_segments env opts key [i] d rs1"
    using replay_closed_segments[OF env assms(3) _ rs(3,4) _ r(1), of opts d ix "[i]"] assms(6) rs(1,2)
    by (auto simp del: replay_segments.simps)
  have e: "rp_expected rs1 = q" "im_last_sequence (rp_image rs1) + 1 = q"
    using rs1(1) rs(1,2) assms(9) redo_sequence[OF r(1)] by (simp_all add: advanced_def ac_simps)
  show "\<exists>rs'. replay_segments env opts key (own_segments (mf_first_segment m) d) d rs = (d', rs', Inr ()) \<and>
      rp_image rs' = img \<and> ir_health (rp_report rs') = Healthy"
    unfolding assms(4) rs1(2)
    by (rule replay_last_segment[OF env assms(3,10)[folded e(1)] assms(8,12) assms(13)[folded e(1)] assms(14) _ _ _ _
          assms(11,15)[folded e(1)]])
      (use rs1(1) rs(3,4) e r(2) in \<open>simp_all add: advanced_def\<close>)
qed

end
