(* ===== verification/Commits.thy ===== *)
theory Commits
  imports Recovery "HOL-Library.Multiset"
begin

text \<open>
  The invariant of an open store and its preservation. \<open>store_inv\<close> ties the store object, the image
  it serves and the directory together: the journal on disk spells out a history whose meaning is
  the image. Committing keeps it, whatever system call fails, up to the failing commit itself.
\<close>

section \<open>Names and the segment list\<close>

lemma segment_name_inject [simp]: "journal_segment_name i = journal_segment_name j \<longleftrightarrow> i = j"
  by (metis segment_name_parses option.inject)

lemma other_names [simp]:
  "parse_journal_segment_name kManifestName = None" "parse_journal_segment_name kSnapshotName = None"
  "parse_journal_segment_name kKeyName = None" "parse_journal_segment_name kLockName = None"
  "parse_journal_segment_name (temporary_sibling kManifestName ''write'') = None"
  "parse_journal_segment_name (temporary_sibling kSnapshotName ''write'') = None"
  "parse_journal_segment_name (temporary_sibling kKeyName ''write'') = None"
  by (simp_all add: parse_journal_segment_name_def kJournalBaseName_def kManifestName_def kSnapshotName_def kKeyName_def
      kLockName_def temporary_sibling_def cat_def)

lemma segment_name_other: "parse_journal_segment_name n = None \<Longrightarrow> journal_segment_name i \<noteq> n"
  using segment_name_parses[of i] by auto

lemma artifact_names [simp]:
  "journal_segment_name i \<noteq> kManifestName" "journal_segment_name i \<noteq> kSnapshotName" "journal_segment_name i \<noteq> kKeyName"
  by (simp_all add: segment_name_other)

lemmas artifact_names_sym [simp] = artifact_names[THEN not_sym]

lemma names_put_old: "om_has d k \<Longrightarrow> om_wf d \<Longrightarrow> map fst (om_put k v d) = map fst d"
proof (induction k v d rule: om_put.induct)
  case (2 k v a b m)
  show ?case
  proof (cases "k < a")
    case True
    then have "\<forall>x \<in> set (map fst m). k < x" using "2.prems"(2) by (auto simp: om_wf_def)
    then have "om_find ((a, b) # m) k = None" using True by (force simp: om_find_None_notin)
    then show ?thesis using "2.prems"(1) by (simp add: om_has_def)
  next
    case False
    then show ?thesis using "2" by (auto simp: om_wf_def om_has_def)
  qed
qed (simp add: om_has_def)

lemma segments_of_simps [simp]:
  "segments_of [] = []"
  "segments_of (n # ns) = (case parse_journal_segment_name n of None \<Rightarrow> segments_of ns | Some i \<Rightarrow> i # segments_of ns)"
  by (simp_all add: segments_of_def List.map_filter_simps split: option.split)

text \<open>The segment list only depends on the names, and only on those of segments.\<close>

lemma own_segments_cong: "mset (segments_of (map fst d)) = mset (segments_of (map fst d')) \<Longrightarrow> own_segments first d = own_segments first d'"
  unfolding own_segments_def by (rule properties_for_sort) simp_all

lemma own_segments_sorted [simp]: "sorted (own_segments first d)"
  by (simp add: own_segments_def)

lemma own_segments_put_old: "om_has d k \<Longrightarrow> om_wf d \<Longrightarrow> own_segments first (om_put k v d) = own_segments first d"
  by (simp add: own_segments_def names_put_old)

lemma segments_put_new:
  "\<not> om_has d k \<Longrightarrow> mset (segments_of (map fst (om_put k v d))) = mset (segments_of (k # map fst d))"
  by (induction k v d rule: om_put.induct) (auto simp: om_has_def split: option.splits)

lemma own_segments_put_other:
  "parse_journal_segment_name k = None \<Longrightarrow> om_wf d \<Longrightarrow> own_segments first (om_put k v d) = own_segments first d"
  by (cases "om_has d k") (auto simp: own_segments_put_old intro!: own_segments_cong simp: segments_put_new)

lemma own_segments_erase_other:
  assumes "parse_journal_segment_name k = None"
  shows "own_segments first (om_erase k d) = own_segments first d"
proof -
  have "segments_of (map fst (om_erase k d)) = segments_of (map fst d)"
    using assms by (induction d) (auto simp: om_erase_def split: option.split)
  then show ?thesis by (simp add: own_segments_def)
qed

lemma own_segments_put_next:
  assumes "\<not> om_has d (journal_segment_name j)" "first \<le> j" "\<And>i. i \<in> set (own_segments first d) \<Longrightarrow> i \<le> j"
  shows "own_segments first (om_put (journal_segment_name j) v d) = own_segments first d @ [j]"
  unfolding own_segments_def[of first "om_put (journal_segment_name j) v d"]
proof (rule properties_for_sort)
  have "mset (filter ((\<le>) first) (segments_of (map fst (om_put (journal_segment_name j) v d)))) =
      filter_mset ((\<le>) first) (mset (segments_of (journal_segment_name j # map fst d)))"
    by (simp only: mset_filter segments_put_new[OF assms(1)])
  then show "mset (own_segments first d @ [j]) =
      mset (filter ((\<le>) first) (segments_of (map fst (om_put (journal_segment_name j) v d))))"
    using assms(2) by (simp add: own_segments_def segment_name_parses)
  show "sorted (own_segments first d @ [j])"
    using assms(3) by (simp add: sorted_append)
qed

section \<open>The invariant\<close>

definition journal_state :: "durable_store \<Rightarrow> state_image \<Rightarrow> disk \<Rightarrow> manifest \<Rightarrow> state_image \<Rightarrow> u32 list \<Rightarrow>
    mutation list list \<Rightarrow> mutation list \<Rightarrow> bool" where
  "journal_state s live d m base ix mss ms \<longleftrightarrow>
     manifest_stored (ds_key s) d m \<and> base_stored (ds_options s) (ds_key s) d m base \<and>
     own_segments (mf_first_segment m) d = ix @ [ds_segment_index s] \<and> length ix \<le> unat (ds_segment_index s) \<and>
     (\<forall>i \<in> set ix. i < ds_segment_index s) \<and>
     unat (ds_segment_index s) < max_journal_segments (op_limits (ds_options s)) \<and>
     segments_hold (op_limits (ds_options s)) (ds_key s) d (mf_last_sequence m + 1) ix mss \<and>
     redo (restore_counters m base) (concat mss @ ms) = Some live \<and>
     (let q = mf_last_sequence m + 1 + of_nat (length (concat mss)); content = frames (ds_key s) (entries q ms) in
      om_find d (journal_segment_name (ds_segment_index s)) = Some content \<and>
      segment_ok (op_limits (ds_options s)) (ds_key s) q ms \<and>
      ds_segment_bytes s = of_nat (length content) \<and> length content \<le> unat (ds_durable_bytes s))"

definition store_ready :: "durable_store \<Rightarrow> state_image \<Rightarrow> disk \<Rightarrow> bool" where
  "store_ready s live d \<longleftrightarrow> ds_open s \<and> ds_segment_open s \<and> ds_key s \<noteq> [] \<and>
     length (ds_key s) = kStoreKeyBytes \<and> om_find d kKeyName = Some (encode_key_file (ds_key s)) \<and>
     limits_within_compiled_ceiling (op_limits (ds_options s)) \<and> om_wf d \<and> ds_next_sequence s = im_last_sequence live + 1"

definition store_inv :: "durable_store \<Rightarrow> state_image \<Rightarrow> disk \<Rightarrow> bool" where
  "store_inv s live d \<longleftrightarrow> store_ready s live d \<and> (\<exists>m base ix mss ms. journal_state s live d m base ix mss ms)"

lemma ceiling_sizes:
  assumes "limits_within_compiled_ceiling l"
  shows "max_state_bytes l \<le> 268435456" "max_record_payload l \<le> 1048576" "max_journal_segments l \<le> 1024"
  using assms by (simp_all add: limits_within_compiled_ceiling_def compiled_limits_ceiling_def Let_def)

lemma length_frames_entries: "80 * length ms \<le> length (frames key (entries q ms))"
proof (induction ms arbitrary: q)
  case (Cons m ms)
  show ?case
    using Cons.IH[of "q + 1"] by (simp add: frame_def kRecordOverheadBytes_def kRecordHeaderBytes_def kRecordMacBytes_def)
qed simp

lemma put_put [simp]: "om_put k v (om_put k w d) = om_put k v d"
  by (induction k w d rule: om_put.induct) auto

lemma put_same: "om_wf d \<Longrightarrow> om_find d k = Some v \<Longrightarrow> om_put k v d = d"
  using om.entries_unique[of "om_put k v d" d] by (simp add: fun_upd_idem)

lemma append_nothing: "om_wf d \<Longrightarrow> append_bytes name [] d = d"
  by (simp add: append_bytes_def put_same split: option.split)

text \<open>What a restart finds after bytes were appended to the current segment.\<close>

lemma recovers_appended:
  assumes "journal_state s live d m base ix mss ms" "store_ready s live d"
    and "tail_ok (op_limits (ds_options s)) (ds_key s) (ds_next_sequence s) us t"
    and "unat (ds_segment_bytes s) + length (frames (ds_key s) us @ t) \<le> max_state_bytes (op_limits (ds_options s))"
    and "2 * length ms + length us < kMaxRecordsPerSegment"
  shows "recovers_to (ds_options s) (ds_key s)
    (append_bytes (journal_segment_name (ds_segment_index s)) (frames (ds_key s) us @ t) d)
    (append_bytes (journal_segment_name (ds_segment_index s)) (frames (ds_key s) us) d) live"
proof -
  let ?l = "op_limits (ds_options s)" and ?name = "journal_segment_name (ds_segment_index s)"
  define q where "q = mf_last_sequence m + 1 + of_nat (length (concat mss))"
  let ?content = "frames (ds_key s) (entries q ms)"
  note j = assms(1)[unfolded journal_state_def Let_def, folded q_def]
  let ?d = "append_bytes ?name (frames (ds_key s) us @ t) d"
  have d: "?d = om_put ?name (frames (ds_key s) (entries q ms @ us) @ t) d"
    using j by (simp add: append_bytes_def)
  have big: "max_state_bytes ?l < 2 ^ 63" "length ?content < 2 ^ 64"
    using j assms(2) ceiling_sizes[of ?l] by (auto simp: store_ready_def segment_ok_def)
  have next_q: "q + of_nat (length ms) = ds_next_sequence s"
    using redo_sequence[of "restore_counters m base" "concat mss @ ms" live] j assms(2)
    by (simp add: q_def store_ready_def ac_simps)
  have own: "own_segments (mf_first_segment m) ?d = ix @ [ds_segment_index s]"
    unfolding d using j assms(2) own_segments_put_old[of d ?name] by (auto simp: store_ready_def om_has_def)
  have hold: "segments_hold ?l (ds_key s) ?d (mf_last_sequence m + 1) ix mss"
    unfolding d using j by (subst segments_hold_cong[where d = d]) auto
  show ?thesis
  proof (rule recovers_history[OF _ _ _ own _ hold _ _ q_def])
    show "append_bytes ?name (frames (ds_key s) us) d =
        (if t = [] then ?d else om_put ?name (frames (ds_key s) (entries q ms @ us)) ?d)"
      using j by (simp add: append_bytes_def)
    show "manifest_stored (ds_key s) ?d m" "base_stored (ds_options s) (ds_key s) ?d m base"
      unfolding d using j by (simp_all add: manifest_stored_def base_stored_def)
    show "ds_key s \<noteq> []" using assms(2) by (simp add: store_ready_def)
    show "om_find ?d ?name = Some (frames (ds_key s) (entries q ms @ us) @ t)" unfolding d by simp
    show "length (frames (ds_key s) (entries q ms @ us) @ t) \<le> max_state_bytes ?l"
      using assms(4) big(2) j by (simp add: unat_of_nat)
  qed (use j assms(3,5) big(1) next_q in \<open>auto simp: segment_ok_def\<close>)
qed

lemma store_inv_recovers_to:
  assumes "store_inv s live d"
    and "t = [] \<or> torn (ds_key s) (op_limits (ds_options s)) t"
    and "unat (ds_segment_bytes s) + length t \<le> max_state_bytes (op_limits (ds_options s))"
  shows "recovers_to (ds_options s) (ds_key s) (append_bytes (journal_segment_name (ds_segment_index s)) t d) d live"
proof -
  obtain m base ix mss ms where j: "store_ready s live d" "journal_state s live d m base ix mss ms"
    using assms(1) by (auto simp: store_inv_def)
  let ?name = "journal_segment_name (ds_segment_index s)"
  have "append_bytes ?name [] d = d"
    by (rule append_nothing) (use j(1) in \<open>simp add: store_ready_def\<close>)
  then show ?thesis
    using recovers_appended[OF j(2,1), of "[]" t] j(2) assms(2,3)
    by (simp add: tail_ok_def journal_state_def segment_ok_def Let_def)
qed

lemma segment_bytes_bound:
  assumes "journal_state s live d m base ix mss ms" "store_ready s live d"
  shows "unat (ds_segment_bytes s) \<le> max_state_bytes (op_limits (ds_options s))"
  using assms ceiling_sizes(1)[of "op_limits (ds_options s)"]
  by (auto simp: journal_state_def Let_def store_ready_def segment_ok_def unat_of_nat)

lemma store_inv_recovers: "store_inv s live d \<Longrightarrow> recovers_to (ds_options s) (ds_key s) d d live"
  using store_inv_recovers_to[of s live d "[]"] append_nothing[of d] segment_bytes_bound
  by (auto simp: store_inv_def store_ready_def)

section \<open>The steps of a commit\<close>

lemma journal_state_cong:
  assumes "journal_state s live d m base ix mss ms"
    and "ds_key s' = ds_key s" "ds_options s' = ds_options s" "ds_segment_index s' = ds_segment_index s"
    and "ds_segment_bytes s' = ds_segment_bytes s" "ds_durable_bytes s' = ds_durable_bytes s"
  shows "journal_state s' live d m base ix mss ms"
  using assms by (simp add: journal_state_def)

text \<open>Starting a new segment.\<close>

lemma next_segment_fresh:
  assumes "journal_state s live d m base ix mss ms" "store_ready s live d"
  defines "i \<equiv> ds_segment_index s"
  shows "unat (i + 1) = Suc (unat i)" "i < i + 1" "mf_first_segment m \<le> i" "\<not> om_has d (journal_segment_name (i + 1))"
    and "own_segments (mf_first_segment m) (om_put (journal_segment_name (i + 1)) v d) = (ix @ [i]) @ [i + 1]"
proof -
  have j: "own_segments (mf_first_segment m) d = ix @ [i]" "\<forall>k \<in> set ix. k < i"
      "unat i < max_journal_segments (op_limits (ds_options s))"
    using assms(1) by (simp_all add: journal_state_def i_def)
  have "unat i < 1024" using j(3) assms(2) ceiling_sizes(3)[of "op_limits (ds_options s)"] by (auto simp: store_ready_def)
  then show up: "unat (i + 1) = Suc (unat i)" "i < i + 1"
    by (simp_all add: unat_word_ariths word_less_nat_alt)
  have below: "k \<le> i" if "k \<in> set (own_segments (mf_first_segment m) d)" for k
    using that j by (auto simp: order.strict_implies_order)
  have "i \<in> set (own_segments (mf_first_segment m) d)" using j by simp
  then show first: "mf_first_segment m \<le> i" by (simp add: own_segments_def)
  show fresh: "\<not> om_has d (journal_segment_name (i + 1))"
  proof
    assume "om_has d (journal_segment_name (i + 1))"
    then have "journal_segment_name (i + 1) \<in> set (map fst d)" by (force simp: om_has_def om_find_def dest!: map_of_SomeD)
    then have "i + 1 \<in> set (segments_of (map fst d))"
      by (induction d) (auto simp: segment_name_parses split: option.split)
    then have "i + 1 \<in> set (own_segments (mf_first_segment m) d)" using first up(2) by (simp add: own_segments_def)
    then show False using below up(2) by (meson leD)
  qed
  have a: "mf_first_segment m \<le> i + 1" using first up(2) by (rule order_trans[OF _ order.strict_implies_order])
  have b: "k \<le> i + 1" if "k \<in> set (own_segments (mf_first_segment m) d)" for k
    using below[OF that] up(2) by (rule order_trans[OF _ order.strict_implies_order])
  show "own_segments (mf_first_segment m) (om_put (journal_segment_name (i + 1)) v d) = (ix @ [i]) @ [i + 1]"
    using own_segments_put_next[OF fresh a b, of v] j(1) by simp
qed

lemma next_segment_state:
  assumes "journal_state s live d m base ix mss ms" "store_ready s live d"
    and "unat (ds_segment_index s + 1) < max_journal_segments (op_limits (ds_options s))"
    and "ds_key s' = ds_key s" "ds_options s' = ds_options s" "ds_segment_index s' = ds_segment_index s + 1"
    and "ds_segment_bytes s' = 0"
  shows "journal_state s' live (om_put (journal_segment_name (ds_segment_index s + 1)) [] d) m base
      (ix @ [ds_segment_index s]) (mss @ [ms]) []"
proof -
  let ?l = "op_limits (ds_options s)" and ?i = "ds_segment_index s"
  let ?d = "om_put (journal_segment_name (?i + 1)) [] d"
  define q where "q = mf_last_sequence m + 1 + of_nat (length (concat mss))"
  note j = assms(1)[unfolded journal_state_def Let_def, folded q_def]
  note up = next_segment_fresh[OF assms(1,2)]
  have less: "\<forall>k \<in> set (ix @ [?i]). k < ?i + 1" using j up(2) by (auto intro: less_trans)
  have len: "length ix = length mss" using j segments_hold_length by blast
  have "segments_hold ?l (ds_key s) d (mf_last_sequence m + 1) (ix @ [?i]) (mss @ [ms])"
    using j unfolding segments_hold_append[OF len] q_def by simp
  then have hold: "segments_hold ?l (ds_key s) ?d (mf_last_sequence m + 1) (ix @ [?i]) (mss @ [ms])"
    using segments_hold_cong[of "ix @ [?i]" ?d d] less by fastforce
  show ?thesis
    unfolding journal_state_def Let_def assms(4-7)
    using j up(5)[of "[]"] hold less up(1) assms(3)
    by (simp add: manifest_stored_def base_stored_def segment_ok_def kMaxRecordsPerSegment_def)
qed

lemma roll_outcomes:
  assumes "roll_segment_if_needed env s d = (d1, s1, r)"
  obtains (stayed) "d1 = d" "s1 = s" "r = Inr ()" "ds_segment_bytes s < kSegmentRollBytes"
    | (refused) e where "d1 = d" "s1 = s" "r = Inl e"
    | (failed) e where "d1 = d" "s1 = s\<lparr>ds_segment_open := False, ds_segment_index := ds_segment_index s + 1\<rparr>" "r = Inl e"
    | (rolled) name where "name = journal_segment_name (ds_segment_index s + 1)"
        "unat (ds_segment_index s + 1) < max_journal_segments (op_limits (ds_options s))"
        "d1 = (if om_has d name then d else om_put name [] d)"
        "s1 = s\<lparr>ds_segment_open := True, ds_segment_index := ds_segment_index s + 1, ds_segment_bytes := size_or_zero env d1 name\<rparr>"
        "r = Inr ()"
proof -
  let ?name = "journal_segment_name (ds_segment_index s + 1)"
  consider "ds_segment_bytes s < kSegmentRollBytes" | "\<not> ds_segment_bytes s < kSegmentRollBytes"
      "unat (ds_segment_index s + 1) \<ge> max_journal_segments (op_limits (ds_options s))"
    | e where "\<not> ds_segment_bytes s < kSegmentRollBytes"
      "\<not> unat (ds_segment_index s + 1) \<ge> max_journal_segments (op_limits (ds_options s))"
      "ev_fault env (Io_open_append ?name) = Some e"
    | "\<not> ds_segment_bytes s < kSegmentRollBytes"
      "\<not> unat (ds_segment_index s + 1) \<ge> max_journal_segments (op_limits (ds_options s))"
      "ev_fault env (Io_open_append ?name) = None"
    by (cases "ev_fault env (Io_open_append ?name)") auto
  then show ?thesis
  proof cases
    case 1
    then show ?thesis using assms stayed by (simp add: roll_segment_if_needed_def)
  next
    case 2
    then have "d1 = d \<and> s1 = s \<and> (\<exists>e. r = Inl e)" using assms by (auto simp: roll_segment_if_needed_def)
    then show ?thesis using refused by blast
  next
    case 3
    then have "d1 = d \<and> s1 = s\<lparr>ds_segment_open := False, ds_segment_index := ds_segment_index s + 1\<rparr> \<and> (\<exists>e. r = Inl e)"
      using assms by (auto simp: roll_segment_if_needed_def open_segment_def open_append_def Let_def)
    then show ?thesis using failed by blast
  next
    case 4
    then show ?thesis
      using assms by (intro rolled[OF refl]) (auto simp: roll_segment_if_needed_def open_segment_def open_append_def Let_def)
  qed
qed

lemma roll_keeps:
  assumes "store_inv s live d" "roll_segment_if_needed env s d = (d1, s1, r)"
  shows "r = Inl e \<Longrightarrow> d1 = d"
    and "r = Inr u \<Longrightarrow> store_inv s1 live d1 \<and> ds_segment_bytes s1 < kSegmentRollBytes"
    and "ds_key s1 = ds_key s \<and> ds_options s1 = ds_options s \<and> ds_next_sequence s1 = ds_next_sequence s \<and>
      ds_durable_bytes s1 = ds_durable_bytes s"
proof -
  note outcomes = roll_outcomes[OF assms(2)]
  show "r = Inl e \<Longrightarrow> d1 = d" by (rule outcomes) simp_all
  show "ds_key s1 = ds_key s \<and> ds_options s1 = ds_options s \<and> ds_next_sequence s1 = ds_next_sequence s \<and>
      ds_durable_bytes s1 = ds_durable_bytes s"
    by (rule outcomes) simp_all
  show "r = Inr u \<Longrightarrow> store_inv s1 live d1 \<and> ds_segment_bytes s1 < kSegmentRollBytes"
  proof (rule outcomes)
    fix name
    assume r: "name = journal_segment_name (ds_segment_index s + 1)"
      "unat (ds_segment_index s + 1) < max_journal_segments (op_limits (ds_options s))"
      "d1 = (if om_has d name then d else om_put name [] d)"
      "s1 = s\<lparr>ds_segment_open := True, ds_segment_index := ds_segment_index s + 1, ds_segment_bytes := size_or_zero env d1 name\<rparr>"
    obtain m base ix mss ms where j: "store_ready s live d" "journal_state s live d m base ix mss ms"
      using assms(1) by (auto simp: store_inv_def)
    note step = next_segment_state[OF j(2,1) r(2)]
    have d1: "d1 = om_put name [] d" using r(1,3) next_segment_fresh(4)[OF j(2,1)] by simp
    then have "ds_segment_bytes s1 = 0" unfolding r(4) by (simp add: size_or_zero_def file_size_def split: option.split)
    moreover from this have "journal_state s1 live d1 m base (ix @ [ds_segment_index s]) (mss @ [ms]) []"
      using step[of s1] unfolding d1 r(1) by (simp add: r(4))
    moreover have "store_ready s1 live d1" using j(1) unfolding d1 r(1,4) by (simp add: store_ready_def)
    moreover from calculation(1) have "ds_segment_bytes s1 < kSegmentRollBytes" by (simp add: kSegmentRollBytes_def)
    ultimately show "store_inv s1 live d1 \<and> ds_segment_bytes s1 < kSegmentRollBytes"
      unfolding store_inv_def by blast
  qed (use assms(1) in simp_all)
qed

text \<open>Appending a record: a prefix of it reaches the file, all of it on success.\<close>

lemma append_record_outcomes:
  assumes "append_record env bytes s d = (d1, s1, r)" "ds_segment_open s"
  obtains (written) "d1 = append_bytes (journal_segment_name (ds_segment_index s)) bytes d"
      "s1 = s\<lparr>ds_segment_bytes := ds_segment_bytes s + of_nat (length bytes),
        ds_durable_bytes := ds_durable_bytes s + of_nat (length bytes)\<rparr>" "r = Inr ()"
    | (failed) n e where "d1 = append_bytes (journal_segment_name (ds_segment_index s)) (take n bytes) d" "s1 = s" "r = Inl e"
proof -
  let ?name = "journal_segment_name (ds_segment_index s)"
  have w: "write_all env d ?name bytes = (case ev_fault env (Io_write ?name bytes) of
      Some e \<Rightarrow> (append_bytes ?name (take (ev_short env (Io_write ?name bytes)) bytes) d,
        Inl (make_error St_IoError (cat [''writing a durable file failed: '', e])))
    | None \<Rightarrow> (append_bytes ?name bytes d, Inr ()))"
    by (simp add: write_all_def)
  show ?thesis
  proof (cases "ev_fault env (Io_write ?name bytes)")
    case (Some e)
    then show ?thesis
      using assms by (intro failed[of "ev_short env (Io_write ?name bytes)"]) (auto simp: append_record_def Let_def w)
  next
    case None
    show ?thesis
    proof (cases "op_fsync (ds_options s) \<and> ev_fault env (Io_flush ?name bytes) \<noteq> None")
      case True
      then show ?thesis
        using assms None by (intro failed[of "length bytes"]) (auto simp: append_record_def Let_def w flush_to_platform_def)
    next
      case False
      then show ?thesis
        using assms None by (intro written) (auto simp: append_record_def Let_def w flush_to_platform_def split: if_splits)
    qed
  qed
qed

text \<open>What the checks before the first write guarantee.\<close>

lemma enc_str_prefix: "4 \<le> length (enc_str t)"
  by (simp add: enc_str_def enc_u32_def append_le_def Let_def)

lemma length_encode_mutation: "40 \<le> length (encode_mutation m)"
  using enc_str_prefix[of "id_str (mu_publisher m)"] enc_str_prefix[of "mu_reason m"]
  by (simp add: encode_mutation_def enc_u16_def enc_u64_def append_le_def enc_id_def)

lemma unat_checked_add: "checked_add a b = Some c \<Longrightarrow> unat c = unat a + unat (b :: 'a::len word)"
proof -
  assume "checked_add a b = Some c"
  then have c: "c = a + b" "a \<le> - 1 - b" by (auto simp: checked_add_def split: if_splits)
  have "unat (- 1 - b) = unat (- 1 :: 'a word) - unat b" by (rule unat_sub) simp
  moreover have "unat b \<le> unat (- 1 :: 'a word)" by (simp add: word_le_nat_alt[symmetric])
  ultimately have "unat a + unat b \<le> unat (- 1 :: 'a word)" using c(2) by (simp add: word_le_nat_alt)
  then have "unat a + unat b < 2 ^ LENGTH('a)" using unsigned_less[of "- 1 :: 'a word", where ?'a = nat] by (rule le_less_trans)
  then show "unat c = unat a + unat b" unfolding c(1) by (rule unat_add_lem[THEN iffD1])
qed

lemma plan_commit_facts:
  assumes "plan_commit s m live = Inr (planned, payload)" "limits_within_compiled_ceiling (op_limits (ds_options s))"
  shows "planned = m\<lparr>mu_resulting_generation := planned_generation live m\<rparr>" "gen_is_set (planned_generation live m)"
    and "payload = encode_mutation planned" "payload_ok (op_limits (ds_options s)) payload"
    and "40 \<le> max_record_payload (op_limits (ds_options s))"
    and "unat (ds_durable_bytes s) + (length payload + 120) \<le> max_state_bytes (op_limits (ds_options s))"
    and "im_health live = Healthy"
proof -
  let ?l = "op_limits (ds_options s)"
  have p: "planned = m\<lparr>mu_resulting_generation := planned_generation live m\<rparr>" "gen_is_set (planned_generation live m)"
      "length payload \<le> max_record_payload ?l" "payload = encode_mutation planned" "im_health live = Healthy"
      "\<not> (case projected_bytes s payload of None \<Rightarrow> True | Some n \<Rightarrow> unat n > max_state_bytes ?l)"
    using assms(1) by (auto simp: plan_commit_def Let_def ok_simps)
  then obtain total where total: "projected_bytes s payload = Some total" "unat total \<le> max_state_bytes ?l"
    by (auto split: option.splits)
  show "planned = m\<lparr>mu_resulting_generation := planned_generation live m\<rparr>" "gen_is_set (planned_generation live m)"
    "payload = encode_mutation planned" "im_health live = Healthy" using p by simp_all
  have small: "length payload < 2 ^ 32" using p(3) ceiling_sizes(2)[OF assms(2)] by simp
  then show "payload_ok ?l payload" using p(3) by (simp add: payload_ok_def)
  show "40 \<le> max_record_payload ?l" using p(3,4) length_encode_mutation[of planned] by simp
  have len: "unat (of_nat (length payload) :: u64) = length payload" using small by (simp add: unat_of_nat)
  have rec: "unat (journal_record_bytes (of_nat (length payload))) = length payload + 40" "unat (journal_record_bytes 40) = 80"
    using record_bytes_small(1)[of "of_nat (length payload)"] record_bytes_small(1)[of 40] len small
    by (simp_all add: kRecordOverheadBytes_def kRecordHeaderBytes_def kRecordMacBytes_def)
  have "checked_add (- 1 :: u64) (journal_record_bytes 40) = None"
    using rec(2) by (auto simp: checked_add_def word_less_nat_alt unat_sub_if' unsigned_minus_1_eq_mask mask_eq_exp_minus_1)
  then obtain n where n: "checked_add (ds_durable_bytes s) (journal_record_bytes (of_nat (length payload))) = Some n"
    using total(1) by (auto simp: projected_bytes_def split: option.splits)
  show "unat (ds_durable_bytes s) + (length payload + 120) \<le> max_state_bytes ?l"
    using total unat_checked_add[OF n] unat_checked_add[of n "journal_record_bytes 40" total] rec by (simp add: projected_bytes_def n)
qed

text \<open>The last step: the store after both records of a mutation are on disk.\<close>

lemma committed_state:
  assumes "journal_state s live d m base ix mss ms" "store_ready s live d"
    and "entry_ok (op_limits (ds_options s)) p" "apply_mutation live p False = (live1, Inr ())"
    and "n = length (frames (ds_key s) (entries (ds_next_sequence s) [p]))"
    and "unat (ds_durable_bytes s) + n \<le> max_state_bytes (op_limits (ds_options s))"
    and "2 * length ms + 2 < kMaxRecordsPerSegment"
    and "ds_key s' = ds_key s" "ds_options s' = ds_options s" "ds_segment_index s' = ds_segment_index s"
    and "ds_segment_bytes s' = ds_segment_bytes s + of_nat n" "ds_durable_bytes s' = ds_durable_bytes s + of_nat n"
  shows "journal_state s' (live1\<lparr>im_last_sequence := ds_next_sequence s\<rparr>)
    (append_bytes (journal_segment_name (ds_segment_index s)) (frames (ds_key s) (entries (ds_next_sequence s) [p])) d)
    m base ix mss (ms @ [p])"
proof -
  let ?l = "op_limits (ds_options s)" and ?name = "journal_segment_name (ds_segment_index s)"
  define q where "q = mf_last_sequence m + 1 + of_nat (length (concat mss))"
  note j = assms(1)[unfolded journal_state_def Let_def, folded q_def]
  let ?content = "frames (ds_key s) (entries q ms)" and ?new = "frames (ds_key s) (entries (ds_next_sequence s) [p])"
  define D where "D = append_bytes ?name ?new d"
  define content where "content = frames (ds_key s) (entries q (ms @ [p]))"
  have next_q: "q + of_nat (length ms) = ds_next_sequence s"
    using redo_sequence[of "restore_counters m base" "concat mss @ ms" live] j assms(2)
    by (simp add: q_def store_ready_def ac_simps)
  then have content: "content = ?content @ ?new" by (simp add: content_def entries_append)
  have len: "length content = length ?content + n" by (simp add: content assms(5))
  have d: "D = om_put ?name content d" using j by (simp add: D_def content append_bytes_def)
  have sizes: "length ?content + n \<le> max_state_bytes ?l" "max_state_bytes ?l \<le> 268435456"
    using j assms(2,6) ceiling_sizes(1)[of ?l] by (auto simp: store_ready_def)
  have durable: "unat (ds_durable_bytes s + of_nat n) = unat (ds_durable_bytes s) + n"
    using assms(6) sizes(2) by (simp add: unat_word_ariths unat_of_nat)
  have ok: "segment_ok ?l (ds_key s) q (ms @ [p])"
    using j assms(3,7) sizes(1) len unfolding segment_ok_def content_def by simp
  have redo: "redo (restore_counters m base) (concat mss @ ms @ [p]) = Some (live1\<lparr>im_last_sequence := ds_next_sequence s\<rparr>)"
    using j apply_durable[OF assms(4)] assms(2) redo_append[of _ "concat mss @ ms" "[p]"] by (simp add: store_ready_def)
  have hold: "segments_hold ?l (ds_key s) D (mf_last_sequence m + 1) ix mss"
    unfolding d using j by (subst segments_hold_cong[where d = d]) auto
  have own: "own_segments (mf_first_segment m) D = ix @ [ds_segment_index s]"
    unfolding d using j assms(2) own_segments_put_old[of d ?name] by (auto simp: store_ready_def om_has_def)
  have stored: "manifest_stored (ds_key s) D m" "base_stored (ds_options s) (ds_key s) D m base" "om_find D ?name = Some content"
    unfolding d using j by (simp_all add: manifest_stored_def base_stored_def)
  show ?thesis
    unfolding journal_state_def Let_def assms(8-12) q_def[symmetric] durable D_def[symmetric] content_def[symmetric] len
    using j own hold redo ok stored by simp
qed

lemma append_bytes_twice: "append_bytes name b (append_bytes name a d) = append_bytes name (a @ b) d"
  by (simp add: append_bytes_def split: option.split)

text \<open>The room a commit reserves covers what it writes.\<close>

lemma commit_room:
  assumes "journal_state s live d m base ix mss ms" "store_ready s live d" "ds_segment_bytes s < kSegmentRollBytes"
  shows "unat (ds_segment_bytes s) \<le> unat (ds_durable_bytes s)" "2 * length ms + 2 < kMaxRecordsPerSegment"
proof -
  define q where "q = mf_last_sequence m + 1 + of_nat (length (concat mss))"
  let ?content = "frames (ds_key s) (entries q ms)"
  have j: "ds_segment_bytes s = of_nat (length ?content)" "length ?content \<le> unat (ds_durable_bytes s)"
      "length ?content \<le> max_state_bytes (op_limits (ds_options s))"
    using assms(1) by (simp_all add: journal_state_def Let_def segment_ok_def q_def)
  have len: "unat (ds_segment_bytes s) = length ?content"
    using j assms(2) ceiling_sizes(1)[of "op_limits (ds_options s)"] by (simp add: store_ready_def unat_of_nat)
  then show "unat (ds_segment_bytes s) \<le> unat (ds_durable_bytes s)" using j(2) by simp
  show "2 * length ms + 2 < kMaxRecordsPerSegment"
    using assms(3) len length_frames_entries[of ms "ds_key s" q]
    by (simp add: word_less_nat_alt kSegmentRollBytes_def kMaxRecordsPerSegment_def)
qed

lemma length_entry_frames: "length (frames key (entries q [p])) = length (encode_mutation p) + 120"
  by (simp add: frame_def kRecordOverheadBytes_def kRecordHeaderBytes_def kRecordMacBytes_def)

text \<open>Both records of a mutation that applies are on disk: the invariant holds of the applied image.\<close>

lemma committed_store_inv:
  assumes "journal_state s live d m base ix mss ms" "store_ready s live d" "ds_segment_bytes s < kSegmentRollBytes"
    and "entry_ok (op_limits (ds_options s)) p" "apply_mutation live p False = (live1, Inr ())"
    and "unat (ds_durable_bytes s) + (length (encode_mutation p) + 120) \<le> max_state_bytes (op_limits (ds_options s))"
  defines "bytes \<equiv> frames (ds_key s) (entries (ds_next_sequence s) [p])"
  assumes "ds_key s' = ds_key s" "ds_options s' = ds_options s" "ds_segment_index s' = ds_segment_index s"
    and "ds_segment_bytes s' = ds_segment_bytes s + of_nat (length bytes)" "ds_durable_bytes s' = ds_durable_bytes s + of_nat (length bytes)"
    and "ds_open s' = ds_open s" "ds_segment_open s' = ds_segment_open s" "ds_next_sequence s' = ds_next_sequence s + 1"
  shows "store_inv s' (live1\<lparr>im_last_sequence := ds_next_sequence s\<rparr>) (append_bytes (journal_segment_name (ds_segment_index s)) bytes d)"
proof -
  note s' = assms(8-15)[unfolded bytes_def]
  have "journal_state s' (live1\<lparr>im_last_sequence := ds_next_sequence s\<rparr>) (append_bytes (journal_segment_name (ds_segment_index s)) bytes d)
      m base ix mss (ms @ [p])"
    unfolding bytes_def
    by (rule committed_state[OF assms(1,2,4,5) refl _ commit_room(2)[OF assms(1-3)]])
      (use assms(6) s' in \<open>simp_all add: length_entry_frames del: entries.simps frames_simps\<close>)
  moreover have "store_ready s' (live1\<lparr>im_last_sequence := ds_next_sequence s\<rparr>) (append_bytes (journal_segment_name (ds_segment_index s)) bytes d)"
    using assms(1,2) s' by (auto simp: store_ready_def journal_state_def Let_def append_bytes_def)
  ultimately show ?thesis unfolding store_inv_def by blast
qed

text \<open>A failed commit: some prefix of its two records reached the file.\<close>

lemma recovers_partial:
  assumes "journal_state s live d m base ix mss ms" "store_ready s live d" "ds_segment_bytes s < kSegmentRollBytes"
    and "entry_ok (op_limits (ds_options s)) p" "apply_mutation live p False = (live1, r)"
    and "unat (ds_durable_bytes s) + (length (encode_mutation p) + 120) \<le> max_state_bytes (op_limits (ds_options s))"
    and "bytes = take n (frames (ds_key s) (entries (ds_next_sequence s) [p]))"
    and "r \<noteq> Inr () \<Longrightarrow> n \<le> length (frame (ds_key s) (Pending, ds_next_sequence s, encode_mutation p))"
  shows "recovers (ds_options s) (ds_key s) (append_bytes (journal_segment_name (ds_segment_index s)) bytes d) live \<or>
    r = Inr () \<and> recovers (ds_options s) (ds_key s) (append_bytes (journal_segment_name (ds_segment_index s)) bytes d)
      (live1\<lparr>im_last_sequence := ds_next_sequence s\<rparr>)"
proof -
  let ?l = "op_limits (ds_options s)" and ?q = "ds_next_sequence s" and ?name = "journal_segment_name (ds_segment_index s)"
  define P where "P = (Pending, ?q, encode_mutation p)"
  define C where "C = (Commit, ?q, encode_commit_payload ?q (sha256_text (encode_mutation p)))"
  have entries: "entries ?q [p] = [P, C]" by (simp add: P_def C_def)
  have taken: "bytes = take n (frame (ds_key s) P @ frame (ds_key s) C)" unfolding assms(7) entries by simp
  have ok: "framed_ok ?l P" "framed_ok ?l C" using entries_framed_ok[of ?l "[p]" ?q] assms(4) by (simp_all add: P_def C_def)
  have len: "length (frame (ds_key s) P) = length (encode_mutation p) + 40" "length (frame (ds_key s) C) = 80"
    by (simp_all add: P_def C_def frame_def kRecordOverheadBytes_def kRecordHeaderBytes_def kRecordMacBytes_def)
  note room = commit_room[OF assms(1-3)]
  have live: "recovers_to (ds_options s) (ds_key s) (append_bytes ?name (frames (ds_key s) us @ t) d)
      (append_bytes ?name (frames (ds_key s) us) d) live"
    if "tail_ok ?l (ds_key s) ?q us t" "length (frames (ds_key s) us @ t) \<le> length (encode_mutation p) + 120" for us t
  proof (rule recovers_appended[OF assms(1,2) that(1)])
    show "unat (ds_segment_bytes s) + length (frames (ds_key s) us @ t) \<le> max_state_bytes ?l"
      using room(1) assms(6) that(2) by simp
    show "2 * length ms + length us < kMaxRecordsPerSegment" using room(2) that(1) by (auto simp: tail_ok_def)
  qed
  consider (cut) "n < length (frame (ds_key s) P)"
    | (middle) k where "n = length (frame (ds_key s) P) + k" "k < length (frame (ds_key s) C)"
    | (all) "n \<ge> length (frame (ds_key s) P) + length (frame (ds_key s) C)"
    by (metis add_diff_inverse_nat leI nat_add_left_cancel_less)
  then show ?thesis
  proof cases
    case cut
    then have "bytes = take n (frame (ds_key s) P)" by (simp add: taken)
    then show ?thesis using live[of "[]" bytes] torn_prefix[OF ok(1) cut] cut len by (auto simp: tail_ok_def recovers_def)
  next
    case middle
    then have "bytes = frame (ds_key s) P @ take k (frame (ds_key s) C)" by (simp add: taken)
    then show ?thesis
      using live[of "[P]" "take k (frame (ds_key s) C)"] torn_prefix[OF ok(2) middle(2)] ok(1) middle len
      by (auto simp: tail_ok_def P_def framed_ok_def recovers_def)
  next
    case all
    then have bytes: "bytes = frames (ds_key s) (entries ?q [p])" unfolding entries by (simp add: taken)
    have "r = Inr ()" using all assms(8) len by (cases "r = Inr ()") (auto simp: P_def)
    then have applied: "apply_mutation live p False = (live1, Inr ())" using assms(5) by simp
    define s1 where "s1 = s\<lparr>ds_segment_bytes := ds_segment_bytes s + of_nat (length bytes),
      ds_durable_bytes := ds_durable_bytes s + of_nat (length bytes), ds_next_sequence := ?q + 1\<rparr>"
    have "store_inv s1 (live1\<lparr>im_last_sequence := ?q\<rparr>) (append_bytes ?name bytes d)"
      unfolding bytes by (rule committed_store_inv[OF assms(1-4) applied assms(6)]) (simp_all add: s1_def bytes)
    from store_inv_recovers[OF this] show ?thesis using \<open>r = Inr ()\<close> by (auto simp: s1_def recovers_def)
  qed
qed

section \<open>Committing\<close>

definition planned :: "state_image \<Rightarrow> mutation \<Rightarrow> mutation" where
  "planned live m = m\<lparr>mu_resulting_generation := planned_generation live m\<rparr>"

lemma planned_entry_ok:
  assumes "plan_commit s m live = Inr (p, payload)" "limits_within_compiled_ceiling (op_limits (ds_options s))"
    and "mutation_ok (op_limits (ds_options s)) m"
  shows "p = planned live m" "entry_ok (op_limits (ds_options s)) p"
proof -
  note f = plan_commit_facts[OF assms(1,2)]
  show p: "p = planned live m" by (simp add: f(1) planned_def)
  have "mutation_ok (op_limits (ds_options s)) p"
    using assms(3) by (cases "mu_op m") (simp_all add: p planned_def mutation_ok_def mutation_payload_ok_def)
  then show "entry_ok (op_limits (ds_options s)) p" using f(3-5) by (simp add: entry_ok_def)
qed

text \<open>The second half of a commit, from a store whose current segment has room.\<close>

text \<open>The second half of a commit stops before its commit record, or comes to appending it.\<close>

lemma perform_cases:
  assumes "perform_commit env p payload s2 live d2 = (d', s', live', r)" "apply_mutation live p False = (live1, r1)"
  defines "confirm \<equiv> encode_journal_record Commit (ds_next_sequence s2) (encode_commit_payload (ds_next_sequence s2) (sha256_text payload)) (ds_key s2)"
  obtains (stopped) "d' = d2" "r \<noteq> Inr ()"
    | (confirmed) s1 r2 where "r1 = Inr ()" "append_record env confirm s2 d2 = (d', s1, r2)"
        "r2 = Inr () \<longrightarrow> r = Inr () \<and> live' = live1\<lparr>im_last_sequence := ds_next_sequence s2\<rparr> \<and>
          s' = s1\<lparr>ds_journal_records := Suc (ds_journal_records s1), ds_next_sequence := ds_next_sequence s1 + 1\<rparr>"
        "r2 \<noteq> Inr () \<longrightarrow> r \<noteq> Inr ()"
  using assms(1,2) unfolding perform_commit_def Let_def
  by (cases r1; cases "append_record env confirm s2 d2") (auto simp: confirm_def split: if_splits sum.splits prod.splits)

definition after_pending :: "string \<Rightarrow> nat \<Rightarrow> durable_store \<Rightarrow> durable_store" where
  "after_pending pending k s = s\<lparr>ds_segment_bytes := ds_segment_bytes s + of_nat (length pending),
     ds_durable_bytes := ds_durable_bytes s + of_nat (length pending), ds_journal_records := k\<rparr>"

lemma after_pending_sel [simp]:
  "ds_key (after_pending b k s) = ds_key s" "ds_options (after_pending b k s) = ds_options s" "ds_segment_index (after_pending b k s) = ds_segment_index s"
  "ds_next_sequence (after_pending b k s) = ds_next_sequence s" "ds_open (after_pending b k s) = ds_open s"
  "ds_segment_open (after_pending b k s) = ds_segment_open s"
  "ds_segment_bytes (after_pending b k s) = ds_segment_bytes s + of_nat (length b)"
  "ds_durable_bytes (after_pending b k s) = ds_durable_bytes s + of_nat (length b)"
  by (simp_all add: after_pending_def)

lemma perform_failed:
  assumes "journal_state s live d m base ix mss ms" "store_ready s live d" "ds_segment_bytes s < kSegmentRollBytes"
    and "entry_ok (op_limits (ds_options s)) p"
    and "unat (ds_durable_bytes s) + (length (encode_mutation p) + 120) \<le> max_state_bytes (op_limits (ds_options s))"
  defines "pending \<equiv> encode_journal_record Pending (ds_next_sequence s) (encode_mutation p) (ds_key s)"
  assumes "perform_commit env p (encode_mutation p) (after_pending pending k s) live
      (append_bytes (journal_segment_name (ds_segment_index s)) pending d) = (d', s', live', Inl e)"
  shows "recovers (ds_options s) (ds_key s) d' live \<or>
      (\<exists>live1. apply_mutation live p False = (live1, Inr ()) \<and>
        recovers (ds_options s) (ds_key s) d' (live1\<lparr>im_last_sequence := ds_next_sequence s\<rparr>))"
proof -
  let ?q = "ds_next_sequence s" and ?name = "journal_segment_name (ds_segment_index s)"
  define confirm where "confirm = encode_journal_record Commit ?q (encode_commit_payload ?q (sha256_text (encode_mutation p))) (ds_key s)"
  have frames: "frames (ds_key s) (entries ?q [p]) = pending @ confirm" by (simp add: pending_def confirm_def frame_def)
  obtain live1 r1 where a: "apply_mutation live p False = (live1, r1)" by (cases "apply_mutation live p False")
  note partial = recovers_partial[OF assms(1-4) a assms(5) refl]
  show ?thesis
  proof (cases rule: perform_cases[OF assms(7) a])
    case 1
    then have "d' = append_bytes ?name (take (length pending) (frames (ds_key s) (entries ?q [p]))) d"
      unfolding frames by simp
    then show ?thesis using partial[of "length pending"] a by (auto simp: pending_def frame_def)
  next
    case (2 s1 r2)
    then have "r2 \<noteq> Inr ()" by auto
    moreover have "ds_segment_open (after_pending pending k s)" using assms(2) by (simp add: store_ready_def)
    ultimately obtain n where "d' = append_bytes ?name (take n confirm) (append_bytes ?name pending d)"
      using append_record_outcomes[OF 2(2)] by (auto simp: confirm_def)
    then have "d' = append_bytes ?name (take (length pending + n) (frames (ds_key s) (entries ?q [p]))) d"
      unfolding frames by (simp add: append_bytes_twice)
    then show ?thesis using partial[of "length pending + n"] a 2(1) by auto
  qed
qed

lemma perform_acknowledged:
  assumes "journal_state s live d m base ix mss ms" "store_ready s live d" "ds_segment_bytes s < kSegmentRollBytes"
    and "entry_ok (op_limits (ds_options s)) p"
    and "unat (ds_durable_bytes s) + (length (encode_mutation p) + 120) \<le> max_state_bytes (op_limits (ds_options s))"
  defines "pending \<equiv> encode_journal_record Pending (ds_next_sequence s) (encode_mutation p) (ds_key s)"
  assumes "perform_commit env p (encode_mutation p) (after_pending pending k s) live
      (append_bytes (journal_segment_name (ds_segment_index s)) pending d) = (d', s', live', Inr ())"
  shows "store_inv s' live' d' \<and> ds_options s' = ds_options s \<and> ds_key s' = ds_key s"
proof -
  let ?q = "ds_next_sequence s" and ?name = "journal_segment_name (ds_segment_index s)"
  define confirm where "confirm = encode_journal_record Commit ?q (encode_commit_payload ?q (sha256_text (encode_mutation p))) (ds_key s)"
  have frames: "frames (ds_key s) (entries ?q [p]) = pending @ confirm" by (simp add: pending_def confirm_def frame_def)
  obtain live1 r1 where a: "apply_mutation live p False = (live1, r1)" by (cases "apply_mutation live p False")
  show ?thesis
  proof (cases rule: perform_cases[OF assms(7) a])
    case (2 s1 r2)
    then have r2: "r2 = Inr ()" by (cases r2) auto
    moreover have "ds_segment_open (after_pending pending k s)" using assms(2) by (simp add: store_ready_def)
    ultimately have written: "d' = append_bytes ?name confirm (append_bytes ?name pending d)"
        "s1 = (after_pending pending k s)\<lparr>ds_segment_bytes := ds_segment_bytes s + of_nat (length pending) + of_nat (length confirm),
          ds_durable_bytes := ds_durable_bytes s + of_nat (length pending) + of_nat (length confirm)\<rparr>"
      using append_record_outcomes[OF 2(2)] by (auto simp: confirm_def)
    have d': "d' = append_bytes ?name (frames (ds_key s) (entries ?q [p])) d" by (simp only: written(1) append_bytes_twice frames)
    have live': "live' = live1\<lparr>im_last_sequence := ?q\<rparr>" "s' = s1\<lparr>ds_journal_records := Suc (ds_journal_records s1), ds_next_sequence := ?q + 1\<rparr>"
      using 2(3) r2 by (simp_all add: written(2))
    have "store_inv s' live' d'"
      unfolding live'(1) d'
      by (rule committed_store_inv[OF assms(1-4) _ assms(5)]) (use a 2(1) in \<open>simp_all add: live'(2) written(2) frames del: entries.simps frames_simps\<close>)
    then show ?thesis by (simp add: live'(2) written(2))
  qed simp
qed

lemma recovers_pending:
  assumes "journal_state s live d m base ix mss ms" "store_ready s live d" "ds_segment_bytes s < kSegmentRollBytes"
    and "entry_ok (op_limits (ds_options s)) p"
    and "unat (ds_durable_bytes s) + (length (encode_mutation p) + 120) \<le> max_state_bytes (op_limits (ds_options s))"
  defines "pending \<equiv> encode_journal_record Pending (ds_next_sequence s) (encode_mutation p) (ds_key s)"
  shows "recovers (ds_options s) (ds_key s) (append_bytes (journal_segment_name (ds_segment_index s)) (take n pending) d) live \<or>
    (\<exists>live1. apply_mutation live p False = (live1, Inr ()) \<and> recovers (ds_options s) (ds_key s)
      (append_bytes (journal_segment_name (ds_segment_index s)) (take n pending) d)
      (live1\<lparr>im_last_sequence := ds_next_sequence s\<rparr>))"
proof -
  let ?k = "min n (length pending)"
  have "take n pending = take ?k (frames (ds_key s) (entries (ds_next_sequence s) [p]))"
    by (simp add: pending_def frame_def min_def)
  moreover have "?k \<le> length (frame (ds_key s) (Pending, ds_next_sequence s, encode_mutation p))"
    by (simp add: pending_def frame_def)
  ultimately show ?thesis
    using recovers_partial[OF assms(1-4) surjective_pairing assms(5), of "take n pending" ?k]
    by (metis surjective_pairing)
qed

text \<open>A commit once its segment has room.\<close>

lemma commit_in_segment:
  assumes "store_inv s live d" "ds_segment_bytes s < kSegmentRollBytes" "entry_ok (op_limits (ds_options s)) p"
    and "unat (ds_durable_bytes s) + (length (encode_mutation p) + 120) \<le> max_state_bytes (op_limits (ds_options s))"
    and "append_record env (encode_journal_record Pending (ds_next_sequence s) (encode_mutation p) (ds_key s)) s d = (d2, s2, r2)"
    and "(case r2 of Inl e \<Rightarrow> (d2, s2, live, Inl e)
        | Inr _ \<Rightarrow> perform_commit env p (encode_mutation p) (s2\<lparr>ds_journal_records := Suc (ds_journal_records s2)\<rparr>) live d2) = (d', s', live', r)"
  shows "(r = Inr () \<longrightarrow> store_inv s' live' d' \<and> ds_options s' = ds_options s \<and> ds_key s' = ds_key s) \<and>
      (\<forall>e. r = Inl e \<longrightarrow> recovers (ds_options s) (ds_key s) d' live \<or>
        (\<exists>live1. apply_mutation live p False = (live1, Inr ()) \<and>
          recovers (ds_options s) (ds_key s) d' (live1\<lparr>im_last_sequence := ds_next_sequence s\<rparr>)))"
proof -
  obtain mf base ix mss ms where j: "store_ready s live d" "journal_state s live d mf base ix mss ms"
    using assms(1) by (auto simp: store_inv_def)
  have "ds_segment_open s" using j(1) by (simp add: store_ready_def)
  with assms(5) show ?thesis
  proof (cases rule: append_record_outcomes)
    case written
    then have run: "perform_commit env p (encode_mutation p)
        (after_pending (encode_journal_record Pending (ds_next_sequence s) (encode_mutation p) (ds_key s)) (Suc (ds_journal_records s)) s) live
        (append_bytes (journal_segment_name (ds_segment_index s)) (encode_journal_record Pending (ds_next_sequence s) (encode_mutation p) (ds_key s)) d) =
        (d', s', live', r)"
      using assms(6) by (simp add: after_pending_def)
    show ?thesis
    proof (cases "r = Inr ()")
      case True
      then show ?thesis using perform_acknowledged[OF j(2,1) assms(2-4) run[unfolded True]] by simp
    next
      case False
      then obtain e where e: "r = Inl e" by (cases r) auto
      then show ?thesis using perform_failed[OF j(2,1) assms(2-4) run[unfolded e]] by simp
    qed
  next
    case (failed n e)
    then show ?thesis using assms(6) recovers_pending[OF j(2,1) assms(2-4), of n] by auto
  qed
qed

lemma commit_outcome:
  assumes "store_inv s live d" "mutation_ok (op_limits (ds_options s)) m"
    and "commit_mutation env m s live d = (d', s', live', r)"
  shows "r = Inr () \<Longrightarrow> store_inv s' live' d' \<and> ds_options s' = ds_options s \<and> ds_key s' = ds_key s"
    and "r = Inl e \<Longrightarrow> recovers (ds_options s) (ds_key s) d' live \<or>
      (\<exists>live1. apply_mutation live (planned live m) False = (live1, Inr ()) \<and>
        recovers (ds_options s) (ds_key s) d' (live1\<lparr>im_last_sequence := im_last_sequence live + 1\<rparr>))"
proof -
  let ?good = "\<lambda>d'. recovers (ds_options s) (ds_key s) d' live \<or>
      (\<exists>live1. apply_mutation live (planned live m) False = (live1, Inr ()) \<and>
        recovers (ds_options s) (ds_key s) d' (live1\<lparr>im_last_sequence := im_last_sequence live + 1\<rparr>))"
  have next_seq: "ds_next_sequence s = im_last_sequence live + 1" and ceiling: "limits_within_compiled_ceiling (op_limits (ds_options s))"
    using assms(1) by (simp_all add: store_inv_def store_ready_def)
  have both: "(r = Inr () \<longrightarrow> store_inv s' live' d' \<and> ds_options s' = ds_options s \<and> ds_key s' = ds_key s) \<and>
      (\<forall>e. r = Inl e \<longrightarrow> ?good d')"
  proof (cases "plan_commit s m live")
    case (Inl e)
    then show ?thesis using assms(3) store_inv_recovers[OF assms(1)] by (auto simp: commit_mutation_def recovers_def)
  next
    case (Inr a)
    then obtain p payload where plan: "plan_commit s m live = Inr (p, payload)" by (cases a) auto
    note f = plan_commit_facts[OF plan ceiling] and p = planned_entry_ok[OF plan ceiling assms(2)]
    obtain d1 s1 r1 where roll: "roll_segment_if_needed env s d = (d1, s1, r1)" by (metis prod_cases3)
    note k = roll_keeps[OF assms(1) roll]
    show ?thesis
    proof (cases r1)
      case (Inl e)
      then have "d' = d" "r = Inl e" using assms(3) plan roll k(1)[OF Inl] by (simp_all add: commit_mutation_def)
      then show ?thesis using store_inv_recovers[OF assms(1)] by (auto simp: recovers_def)
    next
      case (Inr u)
      have same: "ds_key s1 = ds_key s" "ds_options s1 = ds_options s" "ds_next_sequence s1 = ds_next_sequence s"
          "ds_durable_bytes s1 = ds_durable_bytes s" using k(3) by simp_all
      have k2: "store_inv s1 live d1" "ds_segment_bytes s1 < kSegmentRollBytes" using k(2)[OF Inr] by auto
      have ok: "entry_ok (op_limits (ds_options s1)) p"
          "unat (ds_durable_bytes s1) + (length (encode_mutation p) + 120) \<le> max_state_bytes (op_limits (ds_options s1))"
        using p(2) f(4,6) same f(3) by simp_all
      obtain d2 s2 r2 where app: "append_record env (encode_journal_record Pending (ds_next_sequence s1) (encode_mutation p) (ds_key s1)) s1 d1 =
          (d2, s2, r2)" by (metis prod_cases3)
      have "(case r2 of Inl e \<Rightarrow> (d2, s2, live, Inl e)
        | Inr _ \<Rightarrow> perform_commit env p (encode_mutation p) (s2\<lparr>ds_journal_records := Suc (ds_journal_records s2)\<rparr>) live d2) = (d', s', live', r)"
        using assms(3) plan roll Inr app f(3) by (simp add: commit_mutation_def split: sum.splits)
      from commit_in_segment[OF k2 ok app this] show ?thesis using same next_seq p(1) by simp
    qed
  qed
  then show "r = Inr () \<Longrightarrow> store_inv s' live' d' \<and> ds_options s' = ds_options s \<and> ds_key s' = ds_key s" "r = Inl e \<Longrightarrow> ?good d'"
    by blast+
qed

end
