(* ===== verification/Envelopes.thy ===== *)
theory Envelopes
  imports Store
begin

text \<open>
  The integrity envelopes of the two files that are replaced as a whole: the manifest, whose
  accepted contents are exactly its encodings, and the snapshot, whose envelope hands the state
  decoder exactly the payload that was written.
\<close>

section \<open>The manifest\<close>

definition manifest_wf :: "manifest \<Rightarrow> bool" where
  "manifest_wf m \<longleftrightarrow> length (mf_snapshot_digest m) = 32"

lemma manifest_payload_bytes:
  "manifest_payload m = le_bytes kManifestMagic 4 @ le_bytes format_version 2 @ le_bytes (mf_epoch m) 8 @
     le_bytes (mf_state_generation m) 8 @ le_bytes (mf_last_sequence m) 8 @ le_bytes (ucast (mf_first_segment m)) 4 @
     le_bytes (if mf_snapshot_present m then 1 else 0) 1 @ chars_of (mf_snapshot_digest m) @ le_bytes (mf_snapshot_bytes m) 8"
  by (simp add: manifest_payload_def append_le_def)

lemma length_manifest_payload: "manifest_wf m \<Longrightarrow> length (manifest_payload m) = kManifestPayloadBytes"
  by (simp add: manifest_payload_bytes manifest_wf_def kManifestPayloadBytes_def)

lemma length_encode_manifest: "manifest_wf m \<Longrightarrow> length (encode_manifest key m) = kManifestPayloadBytes + 4 + kRecordMacBytes"
  by (simp add: encode_manifest_def Let_def length_manifest_payload append_le_def)

lemma manifest_fields:
  fixes rest
  assumes "manifest_wf m"
  defines "data \<equiv> manifest_payload m @ rest"
  shows "read_at data 0 4 = kManifestMagic" "read_at data 4 2 = format_version" "read_at data 6 8 = mf_epoch m"
    and "read_at data 14 8 = mf_state_generation m" "read_at data 22 8 = mf_last_sequence m"
    and "ucast (read_at data 30 4) = mf_first_segment m" "read_at data 34 1 = (if mf_snapshot_present m then 1 else 0)"
    and "bytes_of (take 32 (drop 35 data)) = mf_snapshot_digest m" "read_at data 67 8 = mf_snapshot_bytes m"
proof -
  let ?m = "le_bytes kManifestMagic 4" and ?f = "le_bytes format_version 2" and ?e = "le_bytes (mf_epoch m) 8"
  let ?g = "le_bytes (mf_state_generation m) 8" and ?q = "le_bytes (mf_last_sequence m) 8"
  let ?i = "le_bytes (ucast (mf_first_segment m) :: u64) 4" and ?p = "le_bytes (if mf_snapshot_present m then 1 else 0 :: u64) 1"
  let ?d = "chars_of (mf_snapshot_digest m)" and ?b = "le_bytes (mf_snapshot_bytes m) 8"
  have dlen: "length ?d = 32" using assms(1) by (simp add: manifest_wf_def)
  show "read_at data 0 4 = kManifestMagic"
    using read_at_field[of "[]" 0 kManifestMagic 4 "?f @ ?e @ ?g @ ?q @ ?i @ ?p @ ?d @ ?b @ rest"]
    by (simp add: data_def manifest_payload_bytes kManifestMagic_def)
  show "read_at data 4 2 = format_version"
    using read_at_field[of ?m 4 format_version 2 "?e @ ?g @ ?q @ ?i @ ?p @ ?d @ ?b @ rest"]
    by (simp add: data_def manifest_payload_bytes)
  show "read_at data 6 8 = mf_epoch m"
    using read_at_field[of "?m @ ?f" 6 "mf_epoch m" 8 "?g @ ?q @ ?i @ ?p @ ?d @ ?b @ rest"]
    by (simp add: data_def manifest_payload_bytes)
  show "read_at data 14 8 = mf_state_generation m"
    using read_at_field[of "?m @ ?f @ ?e" 14 "mf_state_generation m" 8 "?q @ ?i @ ?p @ ?d @ ?b @ rest"]
    by (simp add: data_def manifest_payload_bytes)
  show "read_at data 22 8 = mf_last_sequence m"
    using read_at_field[of "?m @ ?f @ ?e @ ?g" 22 "mf_last_sequence m" 8 "?i @ ?p @ ?d @ ?b @ rest"]
    by (simp add: data_def manifest_payload_bytes)
  have "read_at data 30 4 = take_bit 32 (ucast (mf_first_segment m))"
    using read_at_field[of "?m @ ?f @ ?e @ ?g @ ?q" 30 "ucast (mf_first_segment m)" 4 "?p @ ?d @ ?b @ rest"]
    by (simp add: data_def manifest_payload_bytes)
  then show "ucast (read_at data 30 4) = mf_first_segment m"
    by (simp only:) (rule bit_word_eqI, simp add: bit_simps)
  show "read_at data 34 1 = (if mf_snapshot_present m then 1 else 0)"
    using read_at_field[of "?m @ ?f @ ?e @ ?g @ ?q @ ?i" 34 "if mf_snapshot_present m then 1 else 0" 1 "?d @ ?b @ rest"]
    by (simp add: data_def manifest_payload_bytes)
  show "bytes_of (take 32 (drop 35 data)) = mf_snapshot_digest m"
    using dlen by (simp add: data_def manifest_payload_bytes bytes_chars_roundtrip)
  show "read_at data 67 8 = mf_snapshot_bytes m"
    using read_at_field[of "?m @ ?f @ ?e @ ?g @ ?q @ ?i @ ?p @ ?d" 67 "mf_snapshot_bytes m" 8 rest] dlen
    by (simp add: data_def manifest_payload_bytes)
qed

lemma parse_encode_manifest:
  assumes "manifest_wf m"
  shows "parse_manifest key (encode_manifest key m) = Inr m"
proof -
  let ?p = "manifest_payload m"
  define crc where "crc = le_bytes (crc_of ?p) 4"
  define data where "data = ?p @ crc @ record_mac key ?p crc"
  have data: "encode_manifest key m = data" by (simp add: encode_manifest_def Let_def crc_def data_def append_le_def)
  note f = manifest_fields[OF assms, of "crc @ record_mac key ?p crc", folded data_def]
  note len = length_manifest_payload[OF assms]
  have cuts: "take kManifestPayloadBytes data = ?p" "take 4 (drop kManifestPayloadBytes data) = crc"
      "drop (kManifestPayloadBytes + 4) data = record_mac key ?p crc" "length data = kManifestPayloadBytes + 4 + kRecordMacBytes"
    by (simp_all add: data_def len[symmetric] crc_def)
  have "read_at data kManifestPayloadBytes 4 = crc_of ?p"
    using read_at_field[OF len, of "crc_of ?p" 4 "record_mac key ?p crc"] by (simp add: data_def crc_def)
  then show ?thesis
    unfolding data parse_manifest_def Let_def cuts f by (simp add: f(9) constant_time_equal_iff)
qed

lemma read_one_byte: "read_at data at 1 \<le> 1 \<Longrightarrow> read_at data at 1 = (if read_at data at 1 = 1 then 1 else 0)"
  using word_le_nat_alt[of "read_at data at 1" 1] unat_eq_zero[of "read_at data at 1"]
  by (cases "unat (read_at data at 1)") (auto simp: word_unat_eq_iff)

lemma encode_parse_manifest:
  assumes "parse_manifest key data = Inr m"
  shows "manifest_wf m \<and> data = encode_manifest key m"
proof -
  define crc where "crc = take 4 (drop kManifestPayloadBytes data)"
  define payload where "payload = take kManifestPayloadBytes data"
  have d: "length data = 95" "read_at data 0 4 = kManifestMagic" "read_at data 4 2 = format_version"
      "read_at data kManifestPayloadBytes 4 = crc_of payload" "read_at data 34 1 \<le> 1"
      "constant_time_equal (bytes_of (drop (kManifestPayloadBytes + 4) data)) (bytes_of (record_mac key payload crc)) kRecordMacBytes"
      "m = \<lparr>mf_epoch = read_at data 6 8, mf_state_generation = read_at data 14 8, mf_last_sequence = read_at data 22 8,
          mf_first_segment = ucast (read_at data 30 4), mf_snapshot_present = (read_at data 34 1 = 1),
          mf_snapshot_digest = bytes_of (take 32 (drop 35 data)), mf_snapshot_bytes = read_at data 67 8\<rparr>"
    using assms by (auto simp: parse_manifest_def Let_def payload_def crc_def kManifestPayloadBytes_def kRecordMacBytes_def
        split: if_splits)
  have field: "le_bytes (read_at data at w) w = take w (drop at data)" if "w \<le> 8" "at + w \<le> 95" for at w
    using that d(1) by (intro le_bytes_read_at) auto
  have first: "le_bytes (ucast (ucast (read_at data 30 4) :: u32) :: u64) 4 = take 4 (drop 30 data)"
  proof -
    have "unat (read_at data 30 4) < 2 ^ 32" using unat_read_at[of 4 data 30] by simp
    then have "take_bit 32 (read_at data 30 4) = read_at data 30 4"
      by (simp add: word_unat_eq_iff unsigned_take_bit_eq take_bit_nat_eq_self)
    moreover have "(ucast (ucast w :: u32) :: u64) = take_bit 32 w" for w :: u64
      by (rule bit_word_eqI) (auto simp: bit_simps)
    ultimately have "(ucast (ucast (read_at data 30 4) :: u32) :: u64) = read_at data 30 4" by simp
    then show ?thesis using field[of 4 30] by simp
  qed
  have cut: "take (a + b) xs = take a xs @ take b (drop a xs)" for a b and xs :: string by (rule take_add)
  have "payload = take 4 data @ take 2 (drop 4 data) @ take 8 (drop 6 data) @ take 8 (drop 14 data) @ take 8 (drop 22 data) @
      take 4 (drop 30 data) @ take 1 (drop 34 data) @ take 32 (drop 35 data) @ take 8 (drop 67 data)"
    using cut[of 4 71 data] cut[of 2 69 "drop 4 data"] cut[of 8 61 "drop 6 data"] cut[of 8 53 "drop 14 data"]
      cut[of 8 45 "drop 22 data"] cut[of 4 41 "drop 30 data"] cut[of 1 40 "drop 34 data"] cut[of 32 8 "drop 35 data"]
    by (simp add: payload_def kManifestPayloadBytes_def)
  moreover have "le_bytes (if read_at data 34 1 = 1 then 1 else 0 :: u64) 1 = take 1 (drop 34 data)"
    using read_one_byte[OF d(5)] field[of 1 34] by simp
  ultimately have payload: "payload = manifest_payload m"
    using field[of 4 0] field[of 2 4] field[of 8 6] field[of 8 14] field[of 8 22] field[of 8 67] first d(2,3)
    by (simp add: manifest_payload_bytes d(7) bytes_chars_roundtrip)
  have crc: "crc = le_bytes (crc_of payload) 4"
    using field[of 4 75] d(4) by (simp add: crc_def kManifestPayloadBytes_def)
  have "bytes_of (drop (kManifestPayloadBytes + 4) data) = bytes_of (record_mac key payload crc)"
    using d(1,6) by (simp add: constant_time_equal_iff kManifestPayloadBytes_def kRecordMacBytes_def)
  then have "drop (kManifestPayloadBytes + 4) data = record_mac key payload crc" by (metis bytes_chars_roundtrip(2))
  then have "data = payload @ crc @ record_mac key payload crc"
    by (metis append_take_drop_id crc_def drop_drop payload_def add.commute)
  moreover have "manifest_wf m" using d(1,7) by (simp add: manifest_wf_def)
  ultimately show ?thesis by (simp add: encode_manifest_def Let_def append_le_def crc payload)
qed

lemma manifest_iff: "parse_manifest key data = Inr m \<longleftrightarrow> manifest_wf m \<and> data = encode_manifest key m"
  using parse_encode_manifest encode_parse_manifest by blast

section \<open>The snapshot\<close>

lemma parse_encode_snapshot:
  assumes "length payload \<le> max_state_bytes (op_limits opts)" "length payload < 2 ^ 32"
  shows "parse_snapshot opts key m (encode_snapshot key payload) =
    (if mf_snapshot_present m \<and> mf_snapshot_digest m \<noteq> sha256_text payload then
       Inl (make_error St_IntegrityFailure ''snapshot does not match the digest recorded in the manifest'')
     else decode_state payload (op_limits opts))"
proof -
  let ?m = "le_bytes kSnapshotMagic 4" and ?f = "le_bytes format_version 2" and ?l = "le_bytes (of_nat (length payload) :: u64) 4"
  let ?d = "chars_of (sha256_text payload)"
  define header where "header = ?m @ ?f @ ?l @ ?d"
  define data where "data = header @ payload @ record_mac key header payload"
  have data: "encode_snapshot key payload = data"
    by (simp add: encode_snapshot_def Let_def append_le_def header_def data_def)
  have hlen: "length header = kSnapshotHeaderBytes"
    by (simp add: header_def kSnapshotHeaderBytes_def sha256_text_def sha256_hash_length)
  have f: "read_at data 0 4 = kSnapshotMagic" "read_at data 4 2 = format_version"
      "read_at data 6 4 = take_bit 32 (of_nat (length payload))"
    using read_at_field[of "[]" 0 kSnapshotMagic 4 "?f @ ?l @ ?d @ payload @ record_mac key header payload"]
      read_at_field[of ?m 4 format_version 2 "?l @ ?d @ payload @ record_mac key header payload"]
      read_at_field[of "?m @ ?f" 6 "of_nat (length payload)" 4 "?d @ payload @ record_mac key header payload"]
    by (simp_all add: data_def header_def kSnapshotMagic_def)
  have len: "unat (read_at data 6 4) = length payload" using narrow_length[OF assms(2)] by (simp add: f(3))
  have cuts: "take kSnapshotHeaderBytes data = header" "take (length payload) (drop kSnapshotHeaderBytes data) = payload"
      "drop (kSnapshotHeaderBytes + length payload) data = record_mac key header payload"
      "length data = kSnapshotHeaderBytes + length payload + kRecordMacBytes" "bytes_of (take 32 (drop 10 data)) = sha256_text payload"
    by (simp_all add: data_def hlen[symmetric]) (simp add: header_def sha256_text_def sha256_hash_length bytes_chars_roundtrip)
  show ?thesis
    unfolding data parse_snapshot_def Let_def f(1,2) len cuts using assms(1) by (simp add: constant_time_equal_iff)
qed

end
