(* ===== verification/Sessions.thy ===== *)
theory Sessions
  imports Commits Envelopes
begin

text \<open>
  Sessions of the durable store: creating it, committing, checkpointing and opening it again.
  Every state a session reaches satisfies the store invariant, so whatever was acknowledged is
  what a restart finds.
\<close>

section \<open>Atomic replacement and the invariant\<close>

lemma write_atomic_disk:
  assumes "write_atomic env d name content sync = (d', r)" "om_wf d"
    and "parse_journal_segment_name name = None" "parse_journal_segment_name (temporary_sibling name ''write'') = None"
  shows "om_wf d'" "own_segments first d' = own_segments first d"
proof -
  define temp where "temp = temporary_sibling name ''write''"
  define ok where "ok x \<longleftrightarrow> om_wf x \<and> own_segments first x = own_segments first d" for x
  have put: "ok x \<Longrightarrow> parse_journal_segment_name k = None \<Longrightarrow> ok (om_put k v x)" for k v x
    by (simp add: ok_def own_segments_put_other)
  have erase: "ok x \<Longrightarrow> parse_journal_segment_name k = None \<Longrightarrow> ok (om_erase k x)" for k x
    by (simp add: ok_def own_segments_erase_other om_wf_erase)
  have append: "ok x \<Longrightarrow> ok (append_bytes temp b x)" for b x
    using put assms(4) by (simp add: append_bytes_def temp_def split: option.split)
  have remove: "ok x \<Longrightarrow> ok (fst (remove_file env x temp))" for x
    using erase assms(4) by (simp add: remove_file_def temp_def split: option.split)
  have "ok (om_put temp [] d)" using put[of d temp] assms(2,4) by (simp add: ok_def temp_def)
  then have "ok d'"
    using assms(1,3,4) put erase append remove \<open>om_wf d\<close>
    unfolding write_atomic_def Let_def temp_def[symmetric] open_truncate_def write_all_def atomic_replace_def
    by (auto split: option.splits if_splits sum.splits simp: ok_def)
  then show "om_wf d'" "own_segments first d' = own_segments first d" by (simp_all add: ok_def)
qed

lemmas write_manifest_disk = write_atomic_disk[where name = kManifestName, simplified]
lemmas write_snapshot_disk = write_atomic_disk[where name = kSnapshotName, simplified]

lemma names_differ [simp]:
  "kManifestName \<noteq> kSnapshotName" "kManifestName \<noteq> kKeyName" "kSnapshotName \<noteq> kKeyName"
  "kSnapshotName \<noteq> kManifestName" "kKeyName \<noteq> kManifestName" "kKeyName \<noteq> kSnapshotName"
  "kLockName \<noteq> kManifestName" "kLockName \<noteq> kSnapshotName" "kLockName \<noteq> kKeyName"
  "kManifestName \<noteq> kLockName" "kSnapshotName \<noteq> kLockName" "kKeyName \<noteq> kLockName"
  "kManifestName \<noteq> temporary_sibling kSnapshotName ''write''" "kKeyName \<noteq> temporary_sibling kSnapshotName ''write''"
  "kSnapshotName \<noteq> temporary_sibling kManifestName ''write''" "kKeyName \<noteq> temporary_sibling kManifestName ''write''"
  "kManifestName \<noteq> temporary_sibling kKeyName ''write''" "kSnapshotName \<noteq> temporary_sibling kKeyName ''write''"
  by (simp_all add: kManifestName_def kSnapshotName_def kKeyName_def kLockName_def temporary_sibling_def cat_def)

lemma segment_not_temporary [simp]:
  "journal_segment_name i \<noteq> temporary_sibling kSnapshotName ''write''"
  "journal_segment_name i \<noteq> temporary_sibling kManifestName ''write''"
  "journal_segment_name i \<noteq> kLockName" "kLockName \<noteq> journal_segment_name i"
  using segment_name_other[of _ i] by force+

text \<open>Files other than the store's own do not matter.\<close>

lemma store_inv_put_other:
  assumes "store_inv s live d" "parse_journal_segment_name k = None" "k \<noteq> kManifestName" "k \<noteq> kSnapshotName" "k \<noteq> kKeyName"
  shows "store_inv s live (om_put k v d)"
proof -
  obtain m base ix mss ms where j: "store_ready s live d" "journal_state s live d m base ix mss ms"
    using assms(1) by (auto simp: store_inv_def)
  have seg: "om_find (om_put k v d) (journal_segment_name i) = om_find d (journal_segment_name i)" for i
    using segment_name_other[OF assms(2), of i] by simp
  have "journal_state s live (om_put k v d) m base ix mss ms"
    using j assms(2-5) unfolding journal_state_def Let_def seg segments_hold_cong[of ix "om_put k v d" d, OF seg]
    by (simp add: manifest_stored_def base_stored_def own_segments_put_other store_ready_def)
  moreover have "store_ready s live (om_put k v d)" using j(1) assms(5) by (simp add: store_ready_def)
  ultimately show ?thesis unfolding store_inv_def by blast
qed

section \<open>Creating a store\<close>

lemma empty_counters: "restore_counters manifest_default (empty_image l) = empty_image l"
  by (simp add: restore_counters_def manifest_default_def empty_image_def gen_unset_def)

lemma no_segments_found: "segments_of names = [] \<Longrightarrow> find (\<lambda>n. parse_journal_segment_name n \<noteq> None) names = None"
  by (induction names) (auto split: option.splits)

lemma no_segment_file: "own_segments first d = [] \<Longrightarrow> first \<le> i \<Longrightarrow> \<not> om_has d (journal_segment_name i)"
proof
  assume none: "own_segments first d = []" "first \<le> i" and "om_has d (journal_segment_name i)"
  then have "journal_segment_name i \<in> set (map fst d)" by (force simp: om_has_def om_find_def dest!: map_of_SomeD)
  then have "i \<in> set (segments_of (map fst d))"
    by (induction d) (auto simp: segment_name_parses split: option.split)
  then have "i \<in> set (own_segments first d)" using none(2) by (simp add: own_segments_def)
  then show False by (simp add: none)
qed

lemma manifest_default_wf: "manifest_wf manifest_default"
  by (simp add: manifest_wf_def manifest_default_def digest_zero_def)

lemma manifest_stored_written:
  "manifest_wf m \<Longrightarrow> om_find d kManifestName = Some (encode_manifest key m) \<Longrightarrow> manifest_stored key d m"
  by (auto simp: manifest_stored_def parse_encode_manifest length_encode_manifest kManifestPayloadBytes_def kRecordMacBytes_def)

text \<open>A store that has just started a segment on top of what its manifest names.\<close>

lemma based_state:
  assumes "limits_within_compiled_ceiling (op_limits (ds_options s))"
    and "unat (ds_segment_index s) < max_journal_segments (op_limits (ds_options s))"
    and "om_wf d" "own_segments (ds_segment_index s) d = [ds_segment_index s]"
    and "om_find d (journal_segment_name (ds_segment_index s)) = Some []"
    and "length (ds_key s) = kStoreKeyBytes" "om_find d kKeyName = Some (encode_key_file (ds_key s))"
    and "manifest_stored (ds_key s) d m" "mf_first_segment m = ds_segment_index s" "base_stored (ds_options s) (ds_key s) d m base"
    and "restore_counters m base = live" "ds_open s" "ds_segment_open s" "ds_segment_bytes s = 0"
    and "ds_next_sequence s = im_last_sequence live + 1"
  shows "store_inv s live d"
proof -
  have "journal_state s live d m base [] [] []"
    using assms by (simp add: journal_state_def segment_ok_def kMaxRecordsPerSegment_def)
  moreover have "store_ready s live d"
    using assms by (auto simp: store_ready_def kStoreKeyBytes_def)
  ultimately show ?thesis unfolding store_inv_def by blast
qed

lemma created_state:
  assumes "limits_within_compiled_ceiling (op_limits opts)" "0 < max_journal_segments (op_limits opts)"
    and "om_wf d" "own_segments 0 d = []" "length key = kStoreKeyBytes"
    and "om_find d kKeyName = Some (encode_key_file key)" "om_find d kManifestName = Some (encode_manifest key manifest_default)"
    and "ds_key s = key" "ds_options s = opts" "ds_open s" "ds_segment_open s" "ds_segment_index s = 0" "ds_segment_bytes s = 0"
      "ds_next_sequence s = 1"
  shows "store_inv s (empty_image (op_limits opts)) (om_put (journal_segment_name 0) [] d)"
proof (rule based_state)
  let ?d = "om_put (journal_segment_name 0) [] d"
  show "own_segments (ds_segment_index s) ?d = [ds_segment_index s]"
    using own_segments_put_next[OF no_segment_file[OF assms(4)], where first = 0 and v = "[]"] assms(4,12) by simp
  show "manifest_stored (ds_key s) ?d manifest_default"
    using assms(7,8) by (intro manifest_stored_written manifest_default_wf) simp
  show "base_stored (ds_options s) (ds_key s) ?d manifest_default (empty_image (op_limits opts))"
    using assms(9) by (simp add: base_stored_def manifest_default_def)
  show "restore_counters manifest_default (empty_image (op_limits opts)) = empty_image (op_limits opts)" by (rule empty_counters)
qed (use assms in \<open>simp_all add: manifest_default_def empty_image_def\<close>)

lemma create_store_inv:
  assumes "calm env" "limits_within_compiled_ceiling (op_limits opts)" "0 < max_journal_segments (op_limits opts)"
    and "op_create_if_missing opts" "om_wf d" "segments_of (map fst d) = []" "\<not> om_has d kKeyName"
    and "ev_entropy env kStoreKeyBytes = Some key" "length key = kStoreKeyBytes"
  shows "\<exists>d' report' s. create_store env opts img report d = (d', empty_image (op_limits opts), report', Inr s) \<and>
    ds_options s = opts \<and> store_inv s (empty_image (op_limits opts)) d'"
proof -
  obtain d1 where w1: "write_atomic env d kKeyName (encode_key_file key) True = (d1, Inr ())"
    using write_atomic_calm[OF assms(1)] by (metis surjective_pairing)
  obtain d2 where w2: "write_manifest env opts key manifest_default d1 = (d2, Inr ())"
    using write_atomic_calm[OF assms(1)] unfolding write_manifest_def by (metis surjective_pairing)
  note w2' = w2[unfolded write_manifest_def]
  have own: "own_segments 0 d = []" using assms(6) by (simp add: own_segments_def)
  have d1: "om_wf d1" "own_segments 0 d1 = []" "om_find d1 kKeyName = Some (encode_key_file key)"
    using write_atomic_disk[OF w1 assms(5)] write_atomic_spec[OF w1] own by simp_all
  have d2: "om_wf d2" "own_segments 0 d2 = []" "om_find d2 kKeyName = Some (encode_key_file key)"
      "om_find d2 kManifestName = Some (encode_manifest key manifest_default)"
    using write_atomic_disk[OF w2' d1(1)] write_atomic_spec(1)[OF w2'] write_atomic_spec(2)[OF w2', of kKeyName] d1 by simp_all
  have key: "create_store_key env d = (d1, Inr key)"
    using assms(1,7,8) w1 by (simp add: create_store_key_def fs_exists_def restrict_to_owner_def)
  have "\<not> fs_exists env d kKeyName" using assms(7) by (simp add: fs_exists_def)
  moreover have "open_append env d2 (journal_segment_name 0) = (om_put (journal_segment_name 0) [] d2, Inr ())"
    using assms(1) no_segment_file[OF d2(2), of 0] by (simp add: open_append_def)
  ultimately show ?thesis
    using assms(1,4) no_segments_found[OF assms(6)] key w2 created_state[OF assms(2,3) d2(1,2) assms(9) d2(3,4)]
    by (simp add: create_store_def list_files_def Let_def recompute_durable_bytes_def store_default_def)
qed

section \<open>Opening an existing store\<close>

lemma foldl_max: "foldl max a xs \<le> (b :: u32) \<longleftrightarrow> a \<le> b \<and> (\<forall>x \<in> set xs. x \<le> b)"
  by (induction xs arbitrary: a) auto

lemma foldl_max_ge: "x \<in> set xs \<Longrightarrow> x \<le> foldl max (a :: u32) xs"
  using foldl_max[of a xs "foldl max a xs"] by simp

lemma highest_segment_current:
  assumes "journal_state s live d m base ix mss ms"
  shows "highest_segment (segments_of (map fst d)) = ds_segment_index s"
proof (rule antisym)
  let ?i = "ds_segment_index s" and ?own = "own_segments (mf_first_segment m) d"
  have own: "?own = ix @ [?i]" "\<forall>k \<in> set ix. k < ?i" using assms by (simp_all add: journal_state_def)
  then have mem: "?i \<in> set ?own" and all: "\<forall>k \<in> set ?own. k \<le> ?i" by (auto intro: order.strict_implies_order)
  have "mf_first_segment m \<le> ?i" using mem by (simp add: own_segments_def)
  then have "k \<le> ?i" if "k \<in> set (segments_of (map fst d))" for k
    using that all by (cases "mf_first_segment m \<le> k") (auto simp: own_segments_def)
  then show "highest_segment (segments_of (map fst d)) \<le> ?i" by (simp add: highest_segment_def foldl_max)
  show "?i \<le> highest_segment (segments_of (map fst d))"
    using mem by (simp add: highest_segment_def own_segments_def foldl_max_ge)
qed

text \<open>A directory the size measurement of the store can cope with.\<close>

definition measurable :: "disk \<Rightarrow> bool" where
  "measurable d \<longleftrightarrow> length d \<le> 4096 \<and> sum_list (map (\<lambda>(_, content). length content) d) < 2 ^ 64"

definition disk_bytes :: "disk \<Rightarrow> nat" where
  "disk_bytes d = sum_list (map (\<lambda>(_, content). length content) d)"

lemma measured_total:
  assumes "calm env" "om_wf d" "measurable d"
  shows "ds_durable_bytes (recompute_durable_bytes env d s) = of_nat (disk_bytes d)"
proof -
  have size: "(case file_size env d (fst e) of Inl _ \<Rightarrow> 0 | Inr n \<Rightarrow> n) = length (snd e)" if "e \<in> set d" for e
    using that assms(1) om_wf_find_entry[OF assms(2), of "fst e" "snd e"] by (simp add: file_size_def)
  have total: "sum_list (map (\<lambda>name. case file_size env d name of Inl _ \<Rightarrow> 0 | Inr n \<Rightarrow> n) (map fst d)) =
      sum_list (map (\<lambda>(_, content). length content) d)"
    using size by (intro arg_cong[where f = sum_list]) auto
  then show ?thesis
    using assms(1,3) by (simp add: recompute_durable_bytes_def directory_bytes_def list_files_def measurable_def disk_bytes_def)
qed

lemma measured_bytes:
  assumes "calm env" "om_wf d" "measurable d" "om_find d name = Some content"
  shows "length content \<le> unat (ds_durable_bytes (recompute_durable_bytes env d s))"
proof -
  have "(name, content) \<in> set d" using assms(2,4) by (simp add: om_wf_find_entry)
  then have "length content \<le> disk_bytes d"
    unfolding disk_bytes_def by (intro member_le_sum_list) (force, simp)
  then show ?thesis
    using assms(3) by (simp add: measured_total[OF assms(1-3)] measurable_def disk_bytes_def unat_of_nat take_bit_nat_eq_self)
qed

text \<open>What a store that was opened again has in common with the one before.\<close>

definition reopened :: "disk \<Rightarrow> durable_store \<Rightarrow> durable_store \<Rightarrow> bool" where
  "reopened d s s' \<longleftrightarrow> ds_key s' = ds_key s \<and> ds_options s' = ds_options s \<and> ds_segment_index s' = ds_segment_index s \<and>
     ds_segment_bytes s' = ds_segment_bytes s \<and> ds_durable_bytes s' = of_nat (disk_bytes d)"

lemma stored_key_read:
  assumes "calm env" "store_ready s live d"
  shows "read_store_key env (append_bytes (journal_segment_name i) t d) = Inr (ds_key s)"
proof -
  have "om_find (append_bytes (journal_segment_name i) t d) kKeyName = Some (encode_key_file (ds_key s))"
    using assms(2) by (simp add: append_bytes_def store_ready_def split: option.split)
  moreover have "length (encode_key_file (ds_key s)) \<le> 4096" "decode_key_file (encode_key_file (ds_key s)) = Inr (ds_key s)"
    using assms(2) key_file_iff[of _ "ds_key s"]
    by (simp_all add: store_ready_def encode_key_file_def Let_def append_le_def kStoreKeyBytes_def)
  ultimately show ?thesis
    using assms(1) by (simp add: read_store_key_def fs_exists_def om_has_def read_all_calm)
qed

lemma resume_store_inv:
  assumes "calm env" "store_inv s live d" "im_health live \<noteq> Degraded" "measurable d"
    and "t = [] \<or> torn (ds_key s) (op_limits (ds_options s)) t"
    and "unat (ds_segment_bytes s) + length t \<le> max_state_bytes (op_limits (ds_options s))"
  shows "\<exists>report' s'. resume_store env (ds_options s) img report
      (append_bytes (journal_segment_name (ds_segment_index s)) t d) = (d, live, report', Inr s') \<and>
    ir_ok report' \<and> ir_health report' = Healthy \<and> ds_options s' = ds_options s \<and> store_inv s' live d \<and> reopened d s s'"
proof -
  let ?name = "journal_segment_name (ds_segment_index s)"
  obtain m base ix mss ms where j: "store_ready s live d" "journal_state s live d m base ix mss ms"
    using assms(2) by (auto simp: store_inv_def)
  define content where "content = frames (ds_key s) (entries (mf_last_sequence m + 1 + of_nat (length (concat mss))) ms)"
  have seg: "om_find d ?name = Some content" "ds_segment_bytes s = of_nat (length content)"
    using j(2) by (simp_all add: journal_state_def Let_def content_def)
  note key = stored_key_read[OF assms(1) j(1), of "ds_segment_index s" t]
  obtain report1 where replayed: "replay env (ds_options s) (ds_key s) (append_bytes ?name t d) = (d, live, Inr report1)"
      "ir_ok report1" "ir_health report1 = Healthy"
    using store_inv_recovers_to[OF assms(2,5,6)] assms(1) by (auto simp: recovers_to_def)
  let ?s1 = "(store_default (ds_options s))\<lparr>ds_key := ds_key s, ds_segment_index := ds_segment_index s,
    ds_segment_open := True, ds_segment_bytes := of_nat (length content)\<rparr>"
  define s' where "s' = recompute_durable_bytes env d (?s1\<lparr>ds_next_sequence := im_last_sequence live + 1, ds_open := True\<rparr>)"
  have opened: "open_segment env (highest_segment (segments_of (map fst d))) ((store_default (ds_options s))\<lparr>ds_key := ds_key s\<rparr>) d =
      (d, ?s1, Inr ())"
    using assms(1) seg(1) highest_segment_current[OF j(2)]
    by (simp add: open_segment_def Let_def open_append_def om_has_def size_or_zero_def file_size_def)
  have s': "ds_key s' = ds_key s" "ds_options s' = ds_options s" "ds_segment_index s' = ds_segment_index s"
      "ds_segment_bytes s' = ds_segment_bytes s" "ds_open s'" "ds_segment_open s'" "ds_next_sequence s' = im_last_sequence live + 1"
    by (simp_all add: s'_def recompute_durable_bytes_def store_default_def seg(2))
  have "length content \<le> unat (ds_durable_bytes s')"
    unfolding s'_def using j(1) by (intro measured_bytes[OF assms(1) _ assms(4) seg(1)]) (simp add: store_ready_def)
  then have "journal_state s' live d m base ix mss ms"
    using j(2) s' by (simp add: journal_state_def Let_def content_def)
  moreover have "store_ready s' live d" using j(1) s' by (simp add: store_ready_def)
  ultimately have "store_inv s' live d" unfolding store_inv_def by blast
  moreover have "reopened d s s'"
    using s' measured_total[OF assms(1) _ assms(4)] j(1) by (simp add: reopened_def store_ready_def) (simp add: s'_def)
  ultimately show ?thesis
    using assms(1,3) key replayed opened s'(2)
    by (intro exI[of _ report1] exI[of _ s']) (simp add: resume_store_def list_files_def Let_def s'_def)
qed

lemma put_commute:
  assumes "om_wf d" "k \<noteq> k'"
  shows "om_put k v (om_put k' v' d) = om_put k' v' (om_put k v d)"
  using om.entries_unique[of "om_put k v (om_put k' v' d)" "om_put k' v' (om_put k v d)"] assms by (simp add: fun_upd_twist)

text \<open>The lock file is created on the first opening and then stays.\<close>

definition locked :: "store_options \<Rightarrow> disk \<Rightarrow> disk" where
  "locked opts d = (if op_exclusive_lock opts \<and> \<not> om_has d kLockName then om_put kLockName [] d else d)"

lemma locked_calm:
  "calm env \<Longrightarrow> (if op_exclusive_lock opts then acquire_lock env d else (d, Inr ())) = (locked opts d, Inr ())"
  by (simp add: acquire_lock_def open_append_def locked_def)

lemma locked_append:
  "om_wf d \<Longrightarrow> locked opts (append_bytes (journal_segment_name i) t d) = append_bytes (journal_segment_name i) t (locked opts d)"
  by (auto simp: locked_def append_bytes_def put_commute split: option.split)

lemma store_inv_locked: "store_inv s live d \<Longrightarrow> store_inv s live (locked opts d)"
  by (simp add: locked_def store_inv_put_other)

lemma open_existing:
  assumes "calm env" "ev_directory env \<noteq> []" "store_inv s live d" "im_health live \<noteq> Degraded" "measurable (locked (ds_options s) d)"
    and "t = [] \<or> torn (ds_key s) (op_limits (ds_options s)) t"
    and "unat (ds_segment_bytes s) + length t \<le> max_state_bytes (op_limits (ds_options s))"
  shows "\<exists>report' s'. open_store env (ds_options s) img report
      (Directory (append_bytes (journal_segment_name (ds_segment_index s)) t d)) =
      (Directory (locked (ds_options s) d), live, report', Inr s') \<and>
    ir_ok report' \<and> ir_health report' = Healthy \<and> ds_options s' = ds_options s \<and> store_inv s' live (locked (ds_options s) d) \<and>
    reopened (locked (ds_options s) d) s s'"
proof -
  let ?name = "journal_segment_name (ds_segment_index s)" and ?d = "locked (ds_options s) d"
  have inv: "store_inv s live ?d" using assms(3) by (rule store_inv_locked)
  have ready: "limits_within_compiled_ceiling (op_limits (ds_options s))" "om_wf d"
    using assms(3) by (simp_all add: store_inv_def store_ready_def)
  obtain m base ix mss ms where "journal_state s live ?d m base ix mss ms" using inv by (auto simp: store_inv_def)
  then have "fs_exists env (append_bytes ?name t ?d) kManifestName"
    using assms(1) by (auto simp: journal_state_def manifest_stored_def fs_exists_def om_has_def append_bytes_def split: option.split)
  then show ?thesis
    using resume_store_inv[OF assms(1) inv assms(4,5,6,7), of img report] assms(1,2) ready
    by (auto simp: open_store_def open_directory_def locked_calm[OF assms(1)] locked_append)
qed

lemma open_missing:
  assumes "calm env" "ev_directory env \<noteq> []" "limits_within_compiled_ceiling (op_limits opts)"
    and "0 < max_journal_segments (op_limits opts)" "op_create_if_missing opts"
    and "ev_entropy env kStoreKeyBytes = Some key" "length key = kStoreKeyBytes"
  shows "\<exists>d' report' s. open_store env opts img report Missing = (Directory d', empty_image (op_limits opts), report', Inr s) \<and>
    ds_options s = opts \<and> store_inv s (empty_image (op_limits opts)) d'"
proof -
  have "om_wf (locked opts [])" "segments_of (map fst (locked opts [])) = []" "\<not> om_has (locked opts []) kKeyName"
      "\<not> fs_exists env (locked opts []) kManifestName"
    by (simp_all add: locked_def om_has_def fs_exists_def om_find_def om_wf_def)
  then show ?thesis
    using create_store_inv[OF assms(1,3,4,5) _ _ _ assms(6,7), of "locked opts []" img report] assms
    by (auto simp: open_store_def open_directory_def locked_calm[OF assms(1)])
qed

section \<open>Checkpoints\<close>

text \<open>The images a snapshot can carry, within the bound the reader imposes on the whole file.\<close>

definition snapshot_ok :: "durable_store \<Rightarrow> state_image \<Rightarrow> bool" where
  "snapshot_ok s img \<longleftrightarrow> image_ok img \<and> im_limits img = op_limits (ds_options s) \<and> rebuild_indexes img = img \<and>
     kSnapshotHeaderBytes + length (encode_state img) + kRecordMacBytes \<le> max_state_bytes (op_limits (ds_options s))"

lemma length_encode_snapshot: "length (encode_snapshot key payload) = kSnapshotHeaderBytes + length payload + kRecordMacBytes"
  by (simp add: encode_snapshot_def Let_def append_le_def kSnapshotHeaderBytes_def sha256_text_def sha256_hash_length)

lemma base_stored_written:
  assumes "snapshot_ok s img" "limits_within_compiled_ceiling (op_limits (ds_options s))"
    and "om_find d kSnapshotName = Some (encode_snapshot key (encode_state img))"
    and "mf_snapshot_present m" "mf_snapshot_digest m = sha256_text (encode_state img)"
  shows "base_stored (ds_options s) key d m img"
proof -
  have "length (encode_state img) \<le> max_state_bytes (op_limits (ds_options s))" "length (encode_state img) < 2 ^ 32"
    using assms(1) ceiling_sizes(1)[OF assms(2)] by (simp_all add: snapshot_ok_def)
  then have "parse_snapshot (ds_options s) key m (encode_snapshot key (encode_state img)) = Inr img"
    using assms(1,5) parse_encode_snapshot[of "encode_state img" "ds_options s" key m] decode_state_encode[of img]
    by (simp add: snapshot_ok_def)
  then show ?thesis
    using assms(1,3,4) by (simp add: base_stored_def length_encode_snapshot snapshot_ok_def)
qed

lemma checkpoint_counters:
  "restore_counters (checkpoint_manifest env s img d) img = img"
  by (simp add: restore_counters_def checkpoint_manifest_def)

text \<open>Removing the retired segments touches nothing the new manifest refers to.\<close>

lemma retire_keeps:
  assumes "retire_segments env old first d = d'" "om_wf d"
  shows "om_wf d' \<and> own_segments first d' = own_segments first d \<and>
    (\<forall>k. (\<forall>i < first. k \<noteq> journal_segment_name i) \<longrightarrow> om_find d' k = om_find d k)"
proof -
  define ok where "ok x \<longleftrightarrow> om_wf x \<and> own_segments first x = own_segments first d \<and>
    (\<forall>k. (\<forall>i < first. k \<noteq> journal_segment_name i) \<longrightarrow> om_find x k = om_find d k)" for x
  have step: "ok (fst (remove_file env x (journal_segment_name i)))" if "ok x" "i < first" for x i
  proof -
    have "filter (\<lambda>j. first \<le> j) (segments_of (map fst (om_erase (journal_segment_name i) x))) =
        filter (\<lambda>j. first \<le> j) (segments_of (map fst x))"
      using that(2) by (induction x) (auto simp: om_erase_def segment_name_parses split: option.split)
    then show ?thesis
      using that by (auto simp: ok_def remove_file_def own_segments_def om_wf_erase split: option.split)
  qed
  have fold: "ok (foldl (\<lambda>d' i. fst (remove_file env d' (journal_segment_name i))) x is')" if "ok x" "\<forall>i \<in> set is'. i < first" for x is'
    using that by (induction is' arbitrary: x) (auto simp: step)
  have "ok d'"
    unfolding assms(1)[symmetric] retire_segments_def
    by (rule fold) (use assms(2) in \<open>simp add: ok_def\<close>, blast dest: set_takeWhileD)
  then show ?thesis unfolding ok_def .
qed

lemma own_segments_above:
  assumes "journal_state s live d m base ix mss ms" "store_ready s live d"
  shows "own_segments (ds_segment_index s + 1) d = []"
proof -
  let ?i = "ds_segment_index s" and ?own = "own_segments (mf_first_segment m) d"
  have "?own = ix @ [?i]" "\<forall>k \<in> set ix. k < ?i" using assms(1) by (simp_all add: journal_state_def)
  then have all: "\<forall>k \<in> set ?own. k \<le> ?i" by (auto intro: order.strict_implies_order)
  have first: "mf_first_segment m \<le> ?i" and up: "?i < ?i + 1" using next_segment_fresh[OF assms] by simp_all
  have "\<not> ?i + 1 \<le> k" if "k \<in> set (segments_of (map fst d))" for k
  proof
    assume k: "?i + 1 \<le> k"
    then have "mf_first_segment m \<le> k" using first up by (meson le_less_trans less_le_trans order.strict_implies_order)
    then have "k \<le> ?i" using that all by (simp add: own_segments_def)
    then show False using k up by simp
  qed
  then show ?thesis by (simp add: own_segments_def filter_False)
qed

text \<open>The steps of a checkpoint that succeeded.\<close>

lemma checkpoint_steps:
  assumes "checkpoint env s live d = (d', s', Inr g)"
  defines "i \<equiv> ds_segment_index s + 1"
  obtains d1 mf d2 d3 s2 where
      "write_atomic env d kSnapshotName (encode_snapshot (ds_key s) (encode_state live)) (op_fsync (ds_options s)) = (d1, Inr ())"
      "mf = checkpoint_manifest env s live d1"
      "write_atomic env d1 kManifestName (encode_manifest (ds_key s) mf) (op_fsync (ds_options s)) = (d2, Inr ())"
      "unat (i + 1) < max_journal_segments (op_limits (ds_options s))"
      "open_segment env i (s\<lparr>ds_segment_open := False, ds_segment_index := i\<rparr>) d2 = (d3, s2, Inr ())"
      "d' = retire_segments env (ds_segment_index s) i d3" "s' = recompute_durable_bytes env d' s2" "g = im_generation live"
proof -
  obtain d1 r1 where w1: "write_snapshot env s live d = (d1, r1)" by (cases "write_snapshot env s live d")
  have r1: "r1 = Inr ()" using assms(1) by (cases r1) (auto simp: checkpoint_def w1 split: if_splits)
  define mf where "mf = checkpoint_manifest env s live d1"
  have mf: "mf_first_segment mf = i" by (simp add: mf_def checkpoint_manifest_def i_def)
  obtain d2 r2 where w2: "write_manifest env (ds_options s) (ds_key s) mf d1 = (d2, r2)"
    by (cases "write_manifest env (ds_options s) (ds_key s) mf d1")
  define s1 where "s1 = s\<lparr>ds_segment_open := False, ds_segment_index := i\<rparr>"
  obtain d3 s2 r3 where o: "open_segment env i s1 d2 = (d3, s2, r3)" by (cases "open_segment env i s1 d2") auto
  note run = assms(1)[unfolded checkpoint_def Let_def w1 r1 prod.case sum.case mf_def[symmetric] w2 mf s1_def[symmetric]]
  have r2: "r2 = Inr ()" using run by (cases r2) (auto split: if_splits)
  have room: "unat (i + 1) < max_journal_segments (op_limits (ds_options s))" using run r2 by (auto simp: s1_def split: if_splits)
  have r3: "r3 = Inr ()" using run r2 room o by (cases r3) (auto simp: s1_def split: if_splits)
  have c: "d' = retire_segments env (ds_segment_index s) i d3" "s' = recompute_durable_bytes env d' s2" "g = im_generation live"
    using run r2 r3 room o by (auto simp: s1_def split: if_splits)
  have "write_atomic env d kSnapshotName (encode_snapshot (ds_key s) (encode_state live)) (op_fsync (ds_options s)) = (d1, Inr ())"
    using w1 r1 by (simp add: write_snapshot_def Let_def split: if_splits)
  then show ?thesis using that mf_def w2[unfolded write_manifest_def r2] room o[unfolded r3 s1_def] c by blast
qed

lemma checkpoint_inv:
  assumes "store_inv s old d" "im_last_sequence live = im_last_sequence old" "snapshot_ok s live"
    and "checkpoint env s live d = (d', s', Inr g)"
  shows "store_inv s' live d'" "g = im_generation live" "ds_options s' = ds_options s" "ds_key s' = ds_key s"
proof -
  let ?i = "ds_segment_index s + 1" and ?l = "op_limits (ds_options s)"
  let ?name = "journal_segment_name (ds_segment_index s + 1)"
  obtain m base ix mss ms where j: "store_ready s old d" "journal_state s old d m base ix mss ms"
    using assms(1) by (auto simp: store_inv_def)
  obtain d1 mf d2 d3 s2 where a1: "write_atomic env d kSnapshotName (encode_snapshot (ds_key s) (encode_state live)) (op_fsync (ds_options s)) = (d1, Inr ())"
    and mf_def: "mf = checkpoint_manifest env s live d1"
    and a2: "write_atomic env d1 kManifestName (encode_manifest (ds_key s) mf) (op_fsync (ds_options s)) = (d2, Inr ())"
    and room: "unat (?i + 1) < max_journal_segments ?l"
    and o: "open_segment env ?i (s\<lparr>ds_segment_open := False, ds_segment_index := ?i\<rparr>) d2 = (d3, s2, Inr ())"
    and c: "d' = retire_segments env (ds_segment_index s) ?i d3" "s' = recompute_durable_bytes env d' s2" "g = im_generation live"
    using checkpoint_steps[OF assms(4)] by blast
  show "g = im_generation live" by (rule c(3))
  have mf: "mf_first_segment mf = ?i" by (simp add: mf_def checkpoint_manifest_def)
  have d1: "om_wf d1" "own_segments ?i d1 = []" "om_find d1 kSnapshotName = Some (encode_snapshot (ds_key s) (encode_state live))"
      "om_find d1 kKeyName = Some (encode_key_file (ds_key s))"
    using j(1) write_snapshot_disk[OF a1] write_atomic_spec(1)[OF a1] write_atomic_spec(2)[OF a1, of kKeyName] own_segments_above[OF j(2,1)]
    by (simp_all add: store_ready_def)
  have d2: "om_wf d2" "own_segments ?i d2 = []" "om_find d2 kManifestName = Some (encode_manifest (ds_key s) mf)"
      "om_find d2 kSnapshotName = Some (encode_snapshot (ds_key s) (encode_state live))"
      "om_find d2 kKeyName = Some (encode_key_file (ds_key s))"
    using d1 write_manifest_disk[OF a2 d1(1)] write_atomic_spec(1)[OF a2] write_atomic_spec(2)[OF a2, of kKeyName]
      write_atomic_spec(2)[OF a2, of kSnapshotName] by simp_all
  have fresh: "\<not> om_has d2 ?name" by (rule no_segment_file[OF d2(2)]) simp
  have d3: "d3 = om_put ?name [] d2" and "s2 = s\<lparr>ds_segment_index := ?i, ds_segment_open := True, ds_segment_bytes := size_or_zero env d3 ?name\<rparr>"
    using o fresh by (auto simp: open_segment_def open_append_def Let_def split: option.splits)
  then have s': "ds_options s' = ds_options s" "ds_key s' = ds_key s" "ds_segment_index s' = ?i" "ds_segment_bytes s' = 0"
      "ds_open s' = ds_open s" "ds_segment_open s'" "ds_next_sequence s' = ds_next_sequence s"
    by (simp_all add: c(2) recompute_durable_bytes_def size_or_zero_def file_size_def split: option.split)
  then show "ds_options s' = ds_options s" "ds_key s' = ds_key s" by simp_all
  note kept = retire_keeps[OF c(1)[symmetric]]
  have find': "om_find d' k = om_find d3 k" if "\<forall>i < ?i. k \<noteq> journal_segment_name i" for k
    using kept d2(1) that unfolding d3 by simp
  have "\<forall>i < ?i. ?name \<noteq> journal_segment_name i" by auto
  note find'' = find'[OF this]
  have d': "om_wf d'" "own_segments ?i d' = [?i]" "om_find d' ?name = Some []" "om_find d' kManifestName = Some (encode_manifest (ds_key s) mf)"
      "om_find d' kSnapshotName = Some (encode_snapshot (ds_key s) (encode_state live))" "om_find d' kKeyName = Some (encode_key_file (ds_key s))"
    using kept d2 own_segments_put_next[OF fresh, where first = ?i and v = "[]"] find'' find'[of kManifestName]
      find'[of kSnapshotName] find'[of kKeyName] unfolding d3 by simp_all
  have up: "unat (?i + 1) = Suc (unat ?i)" "unat ?i < 1024"
    using next_segment_fresh(1)[OF j(2,1)] j ceiling_sizes(3)[of ?l] room
    by (auto simp: store_ready_def journal_state_def unat_word_ariths)
  have wf: "manifest_wf mf" by (simp add: mf_def checkpoint_manifest_def manifest_wf_def)
  show "store_inv s' live d'"
  proof (rule based_state)
    show "manifest_stored (ds_key s') d' mf" using manifest_stored_written[OF wf d'(4)] s' by simp
    show "base_stored (ds_options s') (ds_key s') d' mf live"
      using base_stored_written[OF assms(3) _ d'(5), of mf] j(1) s'
      by (simp add: store_ready_def mf_def checkpoint_manifest_def)
    show "restore_counters mf live = live" unfolding mf_def by (rule checkpoint_counters)
  qed (use d' s' j(1) mf up room assms(2) in \<open>simp_all add: store_ready_def\<close>)
qed

end
