(* ===== verification/Lifecycle.thy ===== *)
theory Lifecycle
  imports Sessions Samples
begin

text \<open>
  The life of a durable store: the directory is created, mutations are committed, checkpoints
  compact the journal, and the store is opened again after a clean stop or after a crash that
  left a torn record. Along every such life the image the code holds is one the abstract state
  machine can reach, and it is the one the next opening finds.
\<close>

section \<open>One acknowledged commit\<close>

lemma applied_generation:
  assumes "apply_mutation img m b = (img1, Inr ())" "gen_is_set (mu_resulting_generation m)"
  shows "im_generation img1 = mu_resulting_generation m"
  using assms(1)
proof (cases rule: apply_mutation_cases)
  case (identical g)
  then show ?thesis using admit_ok(4,6)[OF identical(1)] assms(2) by (simp add: frame_simps)
next
  case (changed g mid)
  then show ?thesis using admit_ok(6)[OF changed(1)] assms(2) by simp
qed simp_all

lemma append_record_next: "append_record env bytes s d = (d1, s1, r) \<Longrightarrow> ds_next_sequence s1 = ds_next_sequence s"
  by (auto simp: append_record_def Let_def split: if_splits prod.splits sum.splits)

lemma perform_image:
  assumes "perform_commit env p payload s img d = (d', s', img', Inr ())"
  shows "\<exists>img1. apply_mutation img p False = (img1, Inr ()) \<and> img' = img1\<lparr>im_last_sequence := ds_next_sequence s\<rparr>"
  using assms by (auto simp: perform_commit_def Let_def split: prod.splits sum.splits if_splits)

lemma commit_image:
  assumes "commit_mutation env m s img d = (d', s', img', Inr ())"
  shows "\<exists>img1. apply_mutation img (planned img m) False = (img1, Inr ()) \<and>
    img' = img1\<lparr>im_last_sequence := ds_next_sequence s\<rparr> \<and> im_health img = Healthy"
proof -
  obtain p payload where plan: "plan_commit s m img = Inr (p, payload)"
    using assms by (cases "plan_commit s m img") (auto simp: commit_mutation_def)
  then have p: "p = planned img m" "im_health img = Healthy"
    by (auto simp: plan_commit_def Let_def ok_simps planned_def)
  obtain d1 s1 r1 where roll: "roll_segment_if_needed env s d = (d1, s1, r1)" by (metis prod_cases3)
  then obtain u where r1: "r1 = Inr u" using assms plan by (cases r1) (auto simp: commit_mutation_def)
  have s1: "ds_next_sequence s1 = ds_next_sequence s" by (rule roll_outcomes[OF roll]) simp_all
  obtain d2 s2 r2 where app: "append_record env (encode_journal_record Pending (ds_next_sequence s1) payload (ds_key s1)) s1 d1 = (d2, s2, r2)"
    by (metis prod_cases3)
  then obtain v where "r2 = Inr v" using assms plan roll r1 by (cases r2) (auto simp: commit_mutation_def)
  then have "perform_commit env p payload (s2\<lparr>ds_journal_records := Suc (ds_journal_records s2)\<rparr>) img d2 = (d', s', img', Inr ())"
    using assms plan roll r1 app by (simp add: commit_mutation_def)
  from perform_image[OF this] show ?thesis using p s1 append_record_next[OF app] by simp
qed

text \<open>With no fault, a commit that plans, applies and has a segment to go to is acknowledged.\<close>

lemma append_record_calm:
  assumes "calm env" "ds_segment_open s"
  shows "append_record env bytes s d = (append_bytes (journal_segment_name (ds_segment_index s)) bytes d,
    s\<lparr>ds_segment_bytes := ds_segment_bytes s + of_nat (length bytes),
      ds_durable_bytes := ds_durable_bytes s + of_nat (length bytes)\<rparr>, Inr ())"
  using assms by (simp add: append_record_def write_all_def flush_to_platform_def calm_def Let_def)

definition segment_room :: "durable_store \<Rightarrow> bool" where
  "segment_room s \<longleftrightarrow> ds_segment_bytes s < kSegmentRollBytes \<or>
     unat (ds_segment_index s + 1) < max_journal_segments (op_limits (ds_options s))"

lemma roll_calm:
  assumes "calm env" "segment_room s" "ds_segment_open s"
  shows "\<exists>d1 s1. roll_segment_if_needed env s d = (d1, s1, Inr ()) \<and> ds_segment_open s1"
  using assms by (auto simp: roll_segment_if_needed_def segment_room_def open_segment_def open_append_def calm_def Let_def)

lemma commit_calm:
  assumes "calm env" "segment_room s" "ds_segment_open s" "plan_commit s m img = Inr (p, payload)"
    and "apply_mutation img p False = (img1, Inr ())"
  shows "\<exists>d' s'. commit_mutation env m s img d = (d', s', img1\<lparr>im_last_sequence := ds_next_sequence s\<rparr>, Inr ())"
proof -
  obtain d1 s1 where roll: "roll_segment_if_needed env s d = (d1, s1, Inr ())" "ds_segment_open s1"
    using roll_calm[OF assms(1-3)] by blast
  have s1: "ds_next_sequence s1 = ds_next_sequence s" by (rule roll_outcomes[OF roll(1)]) simp_all
  have "gen_is_set (mu_resulting_generation p)" using assms(4) by (auto simp: plan_commit_def Let_def ok_simps)
  then have g: "im_generation img1 = mu_resulting_generation p" using applied_generation[OF assms(5)] by simp
  show ?thesis
    by (simp add: commit_mutation_def assms(4) roll(1) append_record_calm[OF assms(1)] roll(2) perform_commit_def assms(5) g Let_def s1)
qed

text \<open>When the current segment has room, both records of the mutation go to its end.\<close>

lemma commit_calm_disk:
  assumes "calm env" "ds_segment_bytes s < kSegmentRollBytes" "ds_segment_open s" "plan_commit s m img = Inr (p, payload)"
    and "apply_mutation img p False = (img1, Inr ())"
  defines "bytes \<equiv> frames (ds_key s) (entries (ds_next_sequence s) [p])"
  shows "commit_mutation env m s img d =
    (append_bytes (journal_segment_name (ds_segment_index s)) bytes d,
     s\<lparr>ds_segment_bytes := ds_segment_bytes s + of_nat (length bytes), ds_durable_bytes := ds_durable_bytes s + of_nat (length bytes),
       ds_journal_records := Suc (Suc (ds_journal_records s)), ds_next_sequence := ds_next_sequence s + 1\<rparr>,
     img1\<lparr>im_last_sequence := ds_next_sequence s\<rparr>, Inr ())"
proof -
  have p: "gen_is_set (mu_resulting_generation p)" "payload = encode_mutation p"
    using assms(4) by (auto simp: plan_commit_def Let_def ok_simps)
  have g: "im_generation img1 = mu_resulting_generation p" using applied_generation[OF assms(5) p(1)] .
  show ?thesis
    by (simp add: commit_mutation_def assms(2-5) roll_segment_if_needed_def append_record_calm[OF assms(1)] perform_commit_def g Let_def
        p(2) append_bytes_twice frame_def bytes_def add.assoc)
qed

section \<open>Lives of a store\<close>

text \<open>The lives the promises about restarts are for: created on a system without faults, acknowledged
  commits of mutations the journal decoder accepts, acknowledged checkpoints of images a snapshot can
  carry, and openings on a system without faults, after a clean stop or with a torn record. A commit
  that the plan refuses changes neither the store nor the image nor the directory. A commit that fails
  after its pending record was written is no part of such a life: it spoils the journal for the next.\<close>

inductive session :: "store_options \<Rightarrow> durable_store \<Rightarrow> state_image \<Rightarrow> disk \<Rightarrow> bool" for opts where
  created: "calm env \<Longrightarrow> 0 < max_journal_segments (op_limits opts) \<Longrightarrow> (\<And>n key. ev_entropy env n = Some key \<Longrightarrow> length key = n) \<Longrightarrow>
    open_store env opts seed report Missing = (Directory d, img, report', Inr s) \<Longrightarrow> session opts s img d"
| committed: "session opts s img d \<Longrightarrow> mutation_ok (op_limits opts) m \<Longrightarrow>
    commit_mutation env m s img d = (d', s', img', Inr ()) \<Longrightarrow> session opts s' img' d'"
| checkpointed: "session opts s img d \<Longrightarrow> snapshot_ok s img \<Longrightarrow>
    checkpoint env s img d = (d', s', Inr g) \<Longrightarrow> session opts s' img d'"
| reopened: "session opts s img d \<Longrightarrow> calm env \<Longrightarrow> measurable (locked opts d) \<Longrightarrow>
    t = [] \<or> torn (ds_key s) (op_limits opts) t \<Longrightarrow>
    unat (ds_segment_bytes s) + length t \<le> max_state_bytes (op_limits opts) \<Longrightarrow>
    open_store env opts seed report (Directory (append_bytes (journal_segment_name (ds_segment_index s)) t d)) =
      (Directory d', img', report', Inr s') \<Longrightarrow> session opts s' img' d'"

lemma open_store_given:
  "open_store env opts seed report p = (p', seed', report', Inr s) \<Longrightarrow>
     ev_directory env \<noteq> [] \<and> limits_within_compiled_ceiling (op_limits opts)"
  by (auto simp: open_store_def split: if_splits)

lemma created_empty:
  assumes "calm env" "0 < max_journal_segments (op_limits opts)" "\<And>n key. ev_entropy env n = Some key \<Longrightarrow> length key = n"
    and "open_store env opts seed report Missing = (Directory d, img, report', Inr s)"
  shows "img = empty_image (op_limits opts)" "ds_options s = opts" "store_inv s img d"
proof -
  have dir: "ev_directory env \<noteq> []" "limits_within_compiled_ceiling (op_limits opts)"
    using open_store_given[OF assms(4)] by simp_all
  have create: "op_create_if_missing opts" using assms(4) dir by (auto simp: open_store_def split: if_splits)
  have "segments_of (map fst (locked opts [])) = []" "\<not> om_has (locked opts []) kKeyName"
      "\<not> fs_exists env (locked opts []) kManifestName"
    by (simp_all add: locked_def om_has_def fs_exists_def om_find_def)
  then have made: "create_store env opts seed report (locked opts []) = (d, img, report', Inr s)"
    using assms(1,4) dir create
    by (auto simp: open_store_def open_directory_def locked_calm[OF assms(1)] calm_def apfst_def map_prod_def split: prod.splits)
  obtain key where key: "ev_entropy env kStoreKeyBytes = Some key"
  proof (cases "ev_entropy env kStoreKeyBytes")
    case None
    then have "\<exists>st. create_store_key env (locked opts []) = (locked opts [], Inl st)"
      by (simp add: create_store_key_def)
    then show thesis
      using made create \<open>\<not> om_has (locked opts []) kKeyName\<close>
      by (auto simp: create_store_def fs_exists_def split: sum.splits option.splits)
  qed (rule that)
  from open_missing[OF assms(1) dir(1,2) assms(2) create key assms(3)[OF key], of seed report] assms(4)
  show "img = empty_image (op_limits opts)" "ds_options s = opts" "store_inv s img d" by auto
qed

text \<open>What holds all along.\<close>

lemma session_inv:
  assumes "session opts s img d"
  shows "store_inv s img d \<and> ds_options s = opts \<and> im_health img = Healthy \<and> reachable (op_limits opts) img"
  using assms
proof (induction rule: session.induct)
  case (created env seed report d img report' s)
  note c = created_empty[OF created]
  show ?case using c reachable.initial[of "op_limits opts"] by (simp add: empty_image_def)
next
  case (committed s img d m env d' s' img')
  obtain img1 where a: "apply_mutation img (planned img m) False = (img1, Inr ())"
      "img' = img1\<lparr>im_last_sequence := ds_next_sequence s\<rparr>" using commit_image[OF committed(3)] by blast
  have "reachable (op_limits opts) img1" using committed(4) a(1) by (auto intro: reachable.step state_step.call)
  then have r: "reachable (op_limits opts) img'" unfolding a(2) by (rule reachable.step) (rule state_step.position)
  have "im_health img1 = Healthy" using committed(4) same_health.apply_mutation_inv[OF _ a(1)] by blast
  then show ?case using commit_outcome(1)[OF _ _ committed(3)] committed(2,4) r a(2) by simp
next
  case (checkpointed s img d env d' s' g)
  then show ?case using checkpoint_inv[OF _ refl checkpointed(2,3)] by simp
next
  case (reopened s img d env t seed report d' img' report' s')
  have "ev_directory env \<noteq> []" using open_store_given[OF reopened(6)] by simp
  then show ?case
    using open_existing[OF reopened(2), of s img d t seed report] reopened(3-7) by auto
qed

end
