(* ===== verification/Restarts.thy ===== *)
theory Restarts
  imports Lifecycle
begin

text \<open>
  What the durable store promises its callers, over every life of a store: the image is one of
  the state machine's, a crash in the middle of a commit loses at most the commit that was not
  acknowledged, and what was acknowledged is what the next opening returns. The lemmas before
  the properties run the model on a small store, on which the properties are instantiated.
\<close>

section \<open>A sample store\<close>

definition sample_env :: io_env where
  "sample_env = \<lparr>ev_directory = ''state'', ev_fault = (\<lambda>_. None), ev_short = (\<lambda>_. 0), ev_entropy = (\<lambda>n. Some (replicate n (CHR ''k'')))\<rparr>"

definition sample_options :: store_options where
  "sample_options = \<lparr>op_limits = compiled_limits_ceiling, op_create_if_missing = True, op_fsync = True, op_exclusive_lock = True\<rparr>"

definition sample_key :: string where "sample_key = replicate kStoreKeyBytes (CHR ''k'')"

definition sample_disk :: disk where
  "sample_disk = [(''journal.pfj'', []), (kKeyName, encode_key_file sample_key), (kLockName, []),
     (kManifestName, encode_manifest sample_key manifest_default)]"

definition sample_store :: durable_store where
  "sample_store = (store_default sample_options)\<lparr>ds_key := sample_key, ds_open := True, ds_next_sequence := 1,
     ds_segment_open := True, ds_durable_bytes := of_nat (length (encode_key_file sample_key) + length (encode_manifest sample_key manifest_default))\<rparr>"

lemma sample_calm [simp]: "calm sample_env" by (simp add: calm_def sample_env_def)

lemma sample_within: "limits_within_compiled_ceiling compiled_limits_ceiling"
  by (simp add: limits_within_compiled_ceiling_def compiled_limits_ceiling_def)

lemma sample_sel [simp]:
  "op_limits sample_options = compiled_limits_ceiling" "op_create_if_missing sample_options" "op_fsync sample_options"
  "op_exclusive_lock sample_options" "ev_directory sample_env = ''state''" "ev_fault sample_env = (\<lambda>_. None)"
  "ev_entropy sample_env n = Some (replicate n (CHR ''k''))"
  by (simp_all add: sample_options_def sample_env_def)

lemmas file_names = kKeyName_def kLockName_def kManifestName_def kSnapshotName_def kJournalBaseName_def kJournalExtension_def

lemmas file_steps = write_atomic_def open_truncate_def write_all_def flush_to_platform_def append_bytes_def
  atomic_replace_def remove_file_def restrict_to_owner_def temporary_sibling_def cat_def om_erase_def open_append_def close_file_def
  fs_exists_def list_files_def om_has_def om_find_def

lemma sample_locked: "acquire_lock sample_env [] = ([(kLockName, [])], Inr ())"
  by (simp add: acquire_lock_def file_steps)

lemma sample_key_made:
  "create_store_key sample_env [(kLockName, [])] = ([(kKeyName, encode_key_file sample_key), (kLockName, [])], Inr sample_key)"
  by (simp add: create_store_key_def file_steps file_names sample_key_def Let_def)

lemma sample_manifest_made:
  "write_manifest sample_env sample_options sample_key manifest_default [(kKeyName, k), (kLockName, [])] =
     ([(kKeyName, k), (kLockName, []), (kManifestName, encode_manifest sample_key manifest_default)], Inr ())"
  by (simp add: write_manifest_def file_steps file_names Let_def)

lemma sample_created:
  "\<exists>report'. open_store sample_env sample_options fabric0 report_default Missing = (Directory sample_disk, fabric0, report', Inr sample_store)"
proof -
  have none: "parse_journal_segment_name kLockName = None" "kLockName \<noteq> kManifestName" "kLockName \<noteq> kKeyName" by simp_all
  have seg: "open_append sample_env [(kKeyName, k), (kLockName, []), (kManifestName, v)] (journal_segment_name 0) =
     ([(''journal.pfj'', []), (kKeyName, k), (kLockName, []), (kManifestName, v)], Inr ())" for k v
    by (simp add: file_steps file_names journal_segment_name_def)
  have bytes: "recompute_durable_bytes sample_env [(kKeyName, k), (kLockName, []), (kManifestName, v)] s =
     s\<lparr>ds_durable_bytes := of_nat (length k + length v)\<rparr>" for k v s
    by (simp add: recompute_durable_bytes_def directory_bytes_def file_size_def file_steps file_names)
  have "\<exists>report'. create_store sample_env sample_options fabric0 report_default [(kLockName, [])] = (sample_disk, fabric0, report', Inr sample_store)"
    by (simp add: create_store_def list_files_def fs_exists_def om_has_def om_find_def sample_key_made sample_manifest_made seg bytes Let_def
      sample_disk_def sample_store_def store_default_def fabric0_def)
  then show ?thesis
    by (auto simp: open_store_def sample_within open_directory_def sample_locked fs_exists_def om_has_def om_find_def)
qed
lemma sample_session: "session sample_options sample_store fabric0 sample_disk"
proof -
  obtain report' where "open_store sample_env sample_options fabric0 report_default Missing = (Directory sample_disk, fabric0, report', Inr sample_store)"
    using sample_created by blast
  then show ?thesis by (rule session.created[rotated 3]) (auto simp: compiled_limits_ceiling_def)
qed

text \<open>The first commit: the epoch is established in the name of a publisher.\<close>

definition m_open :: mutation where
  "m_open = mutation_default\<lparr>mu_op := AdvanceEpoch, mu_publisher := ops, mu_boot := boot_a, mu_token := 1, mu_recorded_at_ms := 7,
     mu_reason := ''fabric epoch established'', mu_system := True\<rparr>"

lemma m_open_ok: "mutation_ok compiled_limits_ceiling m_open"
  by (simp add: mutation_ok_def m_open_def mutation_default_def ops_def boot_a_def id_ok_def boot_wf_def
      str_ok_def mutation_payload_ok_def compiled_limits_ceiling_def boot_size_def
      canonical_form_scan is_lower_alnum_def scan_segments.simps kMaxRawIdBytes_def)

definition sample_planned :: mutation where "sample_planned = m_open\<lparr>mu_resulting_generation := 1\<rparr>"

lemma sample_planned_length: "length (encode_mutation sample_planned) = 85"
  by (simp add: encode_mutation_def sample_planned_def m_open_def enc_u16_def append_le_def enc_id_def ops_def boot_a_def enc_raw_def
      mutation_payload_def mutation_default_def enc_str_short enc_u32_def)

lemma sample_sizes: "length (encode_key_file sample_key) = 46" "length (encode_manifest sample_key manifest_default) = 95"
  by (simp_all add: encode_key_file_def Let_def append_le_def sample_key_def kStoreKeyBytes_def length_encode_manifest
      manifest_default_wf kManifestPayloadBytes_def kRecordMacBytes_def)

lemma sample_plan: "plan_commit sample_store m_open fabric0 = Inr (sample_planned, encode_mutation sample_planned)"
proof -
  have "validate_mutation fabric0 m_open = Inr ()" 
    by (simp add: m_open_def mutation_default_def validate_mutation_def validate_advance_def epoch_next_def fabric0_def empty_image_def)
  moreover have "planned_generation fabric0 m_open = 1"
    by (simp add: planned_generation_def m_open_def mutation_default_def mutation_is_idempotent_def is_idempotent_def fabric0_def empty_image_def gen_next_def)
  ultimately show ?thesis
    by (simp add: plan_commit_def sample_planned_length[unfolded sample_planned_def] sample_sizes sample_store_def store_default_def sample_planned_def projected_bytes_def checked_add_def
        journal_record_bytes_def kRecordOverheadBytes_def kRecordHeaderBytes_def kRecordMacBytes_def compiled_limits_ceiling_def
        fabric0_def empty_image_def gen_is_set_def Let_def)
qed

lemma sample_applied:
  "apply_mutation fabric0 sample_planned False =
     (at_step 1 (audit_after fabric0 sample_planned 1) (fabric0\<lparr>im_epoch := 1\<rparr>), Inr ())"
proof -
  note defs = sample_planned_def m_open_def mutation_default_def core_simps
  have "admit fabric0 sample_planned False = Inr (False, 1)"
    by (simp add: admit_def defs validate_mutation_def validate_advance_def epoch_next_def is_idempotent_def gen_next_def gen_is_set_def)
  moreover have "apply_op fabric0 sample_planned False p = Inr (fabric0\<lparr>im_epoch := 1\<rparr>)" for p
    by (simp add: op_defs defs epoch_next_def om_update_all_def)
  ultimately show ?thesis using admitted by (simp add: at_step_def) (simp add: core_simps)
qed

section \<open>A sample life\<close>

definition committed_disk :: disk where
  "committed_disk = append_bytes (journal_segment_name 0) (frames sample_key (entries 1 [sample_planned])) sample_disk"

definition committed_image :: state_image where
  "committed_image = (at_step 1 (audit_after fabric0 sample_planned 1) (fabric0\<lparr>im_epoch := 1\<rparr>))\<lparr>im_last_sequence := 1\<rparr>"

lemma sample_store_sel [simp]:
  "ds_key sample_store = sample_key" "ds_options sample_store = sample_options" "ds_segment_index sample_store = 0"
  "ds_segment_bytes sample_store = 0" "ds_segment_open sample_store" "ds_next_sequence sample_store = 1"
  by (simp_all add: sample_store_def store_default_def)

lemma sample_frames: "length (frames sample_key (entries 1 [sample_planned])) = 205"
  by (simp add: length_entry_frames sample_planned_length del: entries.simps frames_simps)

definition committed_store :: durable_store where
  "committed_store = sample_store\<lparr>ds_segment_bytes := 205, ds_durable_bytes := 346, ds_journal_records := 2, ds_next_sequence := 2\<rparr>"

lemma sample_commit:
  "commit_mutation sample_env m_open sample_store fabric0 sample_disk = (committed_disk, committed_store, committed_image, Inr ())"
proof -
  have "ds_durable_bytes sample_store = 141" by (simp add: sample_store_def sample_sizes)
  moreover have "ds_journal_records sample_store = 0" by (simp add: sample_store_def store_default_def)
  ultimately show ?thesis
    using commit_calm_disk[OF sample_calm _ _ sample_plan sample_applied, of sample_disk] sample_frames
    by (simp add: kSegmentRollBytes_def committed_disk_def committed_image_def committed_store_def del: entries.simps frames_simps)
qed

lemma sample_committed: "session sample_options committed_store committed_image committed_disk"
  using m_open_ok sample_commit by (intro session.committed[OF sample_session]) simp_all

lemma committed_store_sel [simp]:
  "ds_key committed_store = sample_key" "ds_options committed_store = sample_options" "ds_segment_index committed_store = 0"
  "ds_segment_bytes committed_store = 205" "ds_segment_open committed_store" "ds_next_sequence committed_store = 2"
  by (simp_all add: committed_store_def)

lemma committed_measurable: "measurable (locked sample_options committed_disk)"
  by (simp add: measurable_def locked_def committed_disk_def sample_disk_def append_bytes_def om_has_def om_find_def
      journal_segment_name_def file_names sample_frames sample_sizes del: entries.simps frames_simps)

text \<open>A crash that left nine bytes of the next record.\<close>

definition sample_torn :: string where
  "sample_torn = take 9 (frame sample_key (Pending, 2, encode_mutation sample_planned))"

lemma sample_torn: "torn sample_key compiled_limits_ceiling sample_torn"
  unfolding sample_torn_def
  by (rule torn_prefix)
    (simp_all add: framed_ok_def payload_ok_def frame_def sample_planned_length compiled_limits_ceiling_def kRecordOverheadBytes_def
      kRecordHeaderBytes_def kRecordMacBytes_def)

lemma sample_torn_small: "unat (ds_segment_bytes committed_store) + length sample_torn \<le> max_state_bytes compiled_limits_ceiling"
  by (simp add: sample_torn_def compiled_limits_ceiling_def min_le_iff_disj)

text \<open>A device that is full: every write fails after seventeen bytes.\<close>

definition full_env :: io_env where
  "full_env = sample_env\<lparr>ev_fault := (\<lambda>call. case call of Io_write _ _ \<Rightarrow> Some ''no space left on device'' | _ \<Rightarrow> None),
     ev_short := (\<lambda>_. 17)\<rparr>"

section \<open>Properties\<close>

text \<open>C6: What was acknowledged survives a restart of an undisturbed store. Take a store whose life so far is
  a \<open>session\<close>: it was created on a fault-free system; every commit that got past the plan was
  acknowledged, and its mutation is one the journal decoder accepts (\<open>mutation_ok\<close>: it names a
  publisher, among others); every checkpoint was acknowledged, of an image a snapshot can carry
  (\<open>snapshot_ok\<close>); and it was reopened only on a fault-free system, with at most 4096 files and a size
  that fits 64 bits (\<open>measurable\<close>). Then opening its directory again on a fault-free system, after a
  clean stop or with a torn record behind the last complete one, while directory and segment stay
  within their bounds, returns exactly the image the store was holding, with a clean report, cuts the
  torn record off, and leaves a store whose life goes on. Lives with a commit refused after its pending
  record (theory Losses) or with the opening epoch advance (theory Takeovers) are no sessions, and there
  the promise fails.\<close>

theorem acknowledged_state_survives_restart:
  assumes "session opts s img d" "calm env" "ev_directory env \<noteq> []" "measurable (locked opts d)"
    and "t = [] \<or> torn (ds_key s) (op_limits opts) t"
    and "unat (ds_segment_bytes s) + length t \<le> max_state_bytes (op_limits opts)"
  shows "\<exists>report' s'. open_store env opts seed report
      (Directory (append_bytes (journal_segment_name (ds_segment_index s)) t d)) = (Directory (locked opts d), img, report', Inr s') \<and>
    ir_ok report' \<and> session opts s' img (locked opts d)"
proof -
  have inv: "store_inv s img d" "ds_options s = opts" "im_health img \<noteq> Degraded" using session_inv[OF assms(1)] by simp_all
  obtain report' s' where o: "open_store env opts seed report
      (Directory (append_bytes (journal_segment_name (ds_segment_index s)) t d)) = (Directory (locked opts d), img, report', Inr s')"
      "ir_ok report'"
    using open_existing[OF assms(2,3) inv(1,3), of t seed report] assms(4-6) inv(2) by auto
  moreover have "session opts s' img (locked opts d)" by (rule session.reopened[OF assms(1,2,4-6) o(1)])
  ultimately show ?thesis by blast
qed

theorem acknowledged_state_survives_restart_witness:
  "\<exists>report' s'. open_store sample_env sample_options fabric0 report_default
       (Directory (append_bytes (journal_segment_name 0) sample_torn committed_disk)) =
       (Directory (locked sample_options committed_disk), committed_image, report', Inr s') \<and> ir_ok report'"
  using acknowledged_state_survives_restart[OF sample_committed sample_calm _ committed_measurable, of sample_torn fabric0 report_default]
    sample_torn sample_torn_small by auto

text \<open>C7: A commit on an undisturbed store is atomic across faults. Take a store whose life so far is a
  \<open>session\<close>, as above, and a mutation the journal decoder accepts (\<open>mutation_ok\<close>). Whichever system
  call of its commit fails, and however many bytes of a failing write reached the file, replaying the
  directory on a fault-free system yields the image before the commit or the image with the whole
  mutation applied; and when the commit was acknowledged, it yields the image the caller was given.
  Both hypotheses are needed: after a refused commit the next acknowledged one is lost (theory Losses),
  and so is an acknowledged mutation that does not decode (theory Takeovers).\<close>

theorem commit_crash_safe:
  assumes "session opts s img d" "mutation_ok (op_limits opts) m"
    and "commit_mutation env m s img d = (d', s', img', r)"
  shows "case r of
      Inr _ \<Rightarrow> recovers opts (ds_key s) d' img'
    | Inl _ \<Rightarrow> recovers opts (ds_key s) d' img \<or>
        (\<exists>img1. apply_mutation img (planned img m) False = (img1, Inr ()) \<and>
          recovers opts (ds_key s) d' (img1\<lparr>im_last_sequence := im_last_sequence img + 1\<rparr>))"
proof -
  have inv: "store_inv s img d" "ds_options s = opts" using session_inv[OF assms(1)] by simp_all
  note out = commit_outcome[OF inv(1) _ assms(3)]
  show ?thesis
  proof (cases r)
    case (Inl e)
    then show ?thesis using out(2)[of e] assms(2) inv(2) by simp
  next
    case (Inr u)
    then have "store_inv s' img' d'" "ds_options s' = opts" "ds_key s' = ds_key s" using out(1) assms(2) inv(2) by simp_all
    then show ?thesis using store_inv_recovers[of s' img' d'] Inr by (auto simp: recovers_def)
  qed
qed

theorem commit_crash_safe_witness:
  "\<exists>d' s' e. commit_mutation full_env m_open sample_store fabric0 sample_disk = (d', s', fabric0, Inl e) \<and>
     (recovers sample_options sample_key d' fabric0 \<or>
      (\<exists>img1. apply_mutation fabric0 (planned fabric0 m_open) False = (img1, Inr ()) \<and>
          recovers sample_options sample_key d' (img1\<lparr>im_last_sequence := im_last_sequence fabric0 + 1\<rparr>)))"
proof -
  have fails: "\<exists>d' s' e. commit_mutation full_env m_open sample_store fabric0 sample_disk = (d', s', fabric0, Inl e)"
    by (simp add: commit_mutation_def sample_plan roll_segment_if_needed_def kSegmentRollBytes_def append_record_def write_all_def
        full_env_def Let_def)
  then obtain d' s' e where c: "commit_mutation full_env m_open sample_store fabric0 sample_disk = (d', s', fabric0, Inl e)" by blast
  show ?thesis using commit_crash_safe[OF sample_session _ c] m_open_ok c by simp
qed

text \<open>C11: An undisturbed store refines the state machine. Whenever the life of a store is a \<open>session\<close>, as above
  (so without a commit refused after its pending record and without mutations that do not decode), its image is reachable by the abstract steps, it is healthy, and replaying the
  directory on a system without faults reports a clean replay of that very image.\<close>

theorem store_refines_state_machine:
  assumes "session opts s img d"
  shows "reachable (op_limits opts) img \<and> im_health img = Healthy \<and> recovers opts (ds_key s) d img"
  using session_inv[OF assms] store_inv_recovers[of s img d] by (auto simp: recovers_def)

theorem store_refines_state_machine_witness:
  "reachable compiled_limits_ceiling committed_image \<and> recovers sample_options sample_key committed_disk committed_image"
  using store_refines_state_machine[OF sample_committed] by simp

text \<open>C12: Commits succeed. On a system without faults a mutation that passes the checks of the plan, is
  admitted and applied, and finds a journal segment, is acknowledged; the image is the applied
  one at the next journal position, and the life of the store goes on.\<close>

theorem commit_acknowledged:
  assumes "session opts s img d" "calm env" "segment_room s" "mutation_ok (op_limits opts) m"
    and "plan_commit s m img = Inr (p, payload)" "apply_mutation img p False = (img1, Inr ())"
  shows "\<exists>d' s'. commit_mutation env m s img d = (d', s', img1\<lparr>im_last_sequence := im_last_sequence img + 1\<rparr>, Inr ()) \<and>
    session opts s' (img1\<lparr>im_last_sequence := im_last_sequence img + 1\<rparr>) d'"
proof -
  have "store_inv s img d" using session_inv[OF assms(1)] by simp
  then have inv: "ds_segment_open s" "ds_next_sequence s = im_last_sequence img + 1" by (simp_all add: store_inv_def store_ready_def)
  from commit_calm[OF assms(2,3) inv(1) assms(5,6), of d] obtain d' s'
    where "commit_mutation env m s img d = (d', s', img1\<lparr>im_last_sequence := im_last_sequence img + 1\<rparr>, Inr ())"
    unfolding inv(2) by blast
  then show ?thesis using session.committed[OF assms(1,4)] by blast
qed

theorem commit_acknowledged_witness:
  "\<exists>d' s'. commit_mutation sample_env m_open sample_store fabric0 sample_disk = (d', s', committed_image, Inr ())"
  using commit_acknowledged[OF sample_session sample_calm _ _ sample_plan sample_applied] m_open_ok
  by (auto simp: segment_room_def kSegmentRollBytes_def committed_image_def) (simp add: fabric0_def empty_image_def)

end
