(* ===== verification/Runtime.thy ===== *)
theory Runtime
  imports Restarts
begin

text \<open>
  \<^verbatim>\<open>src/runtime.cpp\<close>: the fabric runtime, which owns one state image and one durable store. A
  call takes the runtime (absent for a runtime that was moved from) and the directory and
  returns both with its result. A call holds the state lock from its first access to the image
  to its end, so calls are steps of one sequence. \<open>call_env\<close> is what a call reads from the
  system: the answers of the file system, the wall clock and the boot id generator.
\<close>

section \<open>Sessions and statistics\<close>

record fabric_session =
  fs_publisher :: publisher_id
  fs_boot :: boot_id
  fs_epoch :: fabric_epoch
  fs_token :: fencing_token

definition session_shape_valid :: "fabric_session \<Rightarrow> bool" where
  "session_shape_valid s \<longleftrightarrow> id_valid (fs_publisher s) \<and> \<not> boot_is_zero (fs_boot s) \<and>
     is_established (fs_epoch s) \<and> token_is_valid (fs_token s)"

record fabric_stats =
  st_evaluations :: u64
  st_evaluations_assigned :: u64
  st_evaluations_inherited :: u64
  st_evaluations_overridden :: u64
  st_evaluations_conflict :: u64
  st_evaluations_unknown :: u64
  st_evaluations_stale :: u64
  st_evaluations_fenced :: u64
  st_evaluations_rejected :: u64
  st_mutations_accepted :: u64
  st_mutations_rejected :: u64
  st_idempotent_noops :: u64
  st_durable_commits :: u64
  st_recoveries :: u64
  st_epoch_advances :: u64
  st_fences_issued :: u64
  st_authorities_granted :: u64

definition stats_zero :: fabric_stats where
  "stats_zero = \<lparr>st_evaluations = 0, st_evaluations_assigned = 0, st_evaluations_inherited = 0,
     st_evaluations_overridden = 0, st_evaluations_conflict = 0, st_evaluations_unknown = 0,
     st_evaluations_stale = 0, st_evaluations_fenced = 0, st_evaluations_rejected = 0,
     st_mutations_accepted = 0, st_mutations_rejected = 0, st_idempotent_noops = 0,
     st_durable_commits = 0, st_recoveries = 0, st_epoch_advances = 0, st_fences_issued = 0,
     st_authorities_granted = 0\<rparr>"

record state_stats =
  ss_classes :: u64
  ss_scopes :: u64
  ss_policies :: u64
  ss_subjects :: u64
  ss_assignments :: u64
  ss_retired_assignments :: u64
  ss_publishers :: u64
  ss_fenced_boots :: u64
  ss_audit_entries :: u64
  ss_durable_bytes :: u64
  ss_journal_records :: u64
  ss_state_generation :: generation
  ss_epoch :: fabric_epoch

record fabric_runtime =
  rt_image :: state_image
  rt_store :: durable_store
  rt_limits :: limits
  rt_instance_boot :: boot_id
  rt_state_dir :: string
  rt_closed :: bool
  rt_allow_new_publishers :: bool
  rt_stats :: fabric_stats

record runtime_options =
  ro_limits :: limits
  ro_create_if_missing :: bool
  ro_fsync_records :: bool
  ro_fail_on_degraded :: bool
  ro_instance_boot_id :: "boot_id option"
  ro_allow_new_publishers :: bool
  ro_advance_epoch_on_open :: bool
  ro_exclusive_lock :: bool

record call_env =
  ce_io :: io_env
  ce_stamp :: "mutation_op \<Rightarrow> u64"
  ce_rejected_at :: u64
  ce_boot :: "boot_id result"

type_synonym handle = "fabric_runtime option"
type_synonym 'a call = "disk \<times> fabric_runtime \<times> 'a result"

definition never_opened :: status where
  "never_opened = make_error St_NotReady ''the runtime was never opened''"

definition runtime_closed :: status where
  "runtime_closed = make_error St_NotReady ''the runtime is closed''"

section \<open>Committing and refusing\<close>

record commit_result =
  co_entity_generation :: generation
  co_state_generation :: generation
  co_noop :: bool

definition runtime_commit :: "call_env \<Rightarrow> mutation \<Rightarrow> fabric_runtime \<Rightarrow> disk \<Rightarrow> commit_result call" where
  "runtime_commit env m rt d =
     (let noop = mutation_is_idempotent (rt_image rt) m;
          entity = preview_entity_generation (rt_image rt) m in
      case commit_mutation (ce_io env) m (rt_store rt) (rt_image rt) d of
        (d', s', img', r) \<Rightarrow>
          (d', rt\<lparr>rt_store := s', rt_image := img'\<rparr>,
           map_sum id (\<lambda>_. \<lparr>co_entity_generation = entity, co_state_generation = im_generation img', co_noop = noop\<rparr>) r))"

text \<open>A refused attempt is recorded in the audit window only.\<close>

definition rejection_entry :: "call_env \<Rightarrow> state_image \<Rightarrow> string \<Rightarrow> status \<Rightarrow> fabric_session \<Rightarrow> audit_entry" where
  "rejection_entry env img op status actor =
     \<lparr>au_sequence = im_next_audit_sequence img, au_op = op, au_result = st_code status, au_detail = st_message status,
      au_provenance = \<lparr>pv_publisher = fs_publisher actor, pv_boot = fs_boot actor, pv_epoch = fs_epoch actor,
        pv_token = fs_token actor, pv_state_generation = im_generation img, pv_audit_sequence = im_next_audit_sequence img,
        pv_recorded_at_ms = ce_rejected_at env, pv_op = op\<rparr>,
      au_state_generation = im_generation img, au_digest = digest_zero\<rparr>"

definition record_rejection :: "call_env \<Rightarrow> limits \<Rightarrow> string \<Rightarrow> status \<Rightarrow> fabric_session \<Rightarrow> state_image \<Rightarrow> state_image" where
  "record_rejection env limits op status actor img =
     append_audit (img\<lparr>im_next_audit_sequence := im_next_audit_sequence img + 1\<rparr>) (rejection_entry env img op status actor) limits"

definition count_rejected :: "fabric_runtime \<Rightarrow> fabric_runtime" where
  "count_rejected rt = rt\<lparr>rt_stats := (rt_stats rt)\<lparr>st_mutations_rejected := st_mutations_rejected (rt_stats rt) + 1\<rparr>\<rparr>"

definition count_accepted :: "fabric_runtime \<Rightarrow> fabric_runtime" where
  "count_accepted rt = rt\<lparr>rt_stats := (rt_stats rt)
     \<lparr>st_mutations_accepted := st_mutations_accepted (rt_stats rt) + 1,
      st_durable_commits := st_durable_commits (rt_stats rt) + 1\<rparr>\<rparr>"

definition refuse :: "call_env \<Rightarrow> string \<Rightarrow> status \<Rightarrow> fabric_session \<Rightarrow> fabric_runtime \<Rightarrow> fabric_runtime" where
  "refuse env op status actor rt =
     count_rejected (rt\<lparr>rt_image := record_rejection env (rt_limits rt) op status actor (rt_image rt)\<rparr>)"

definition base_mutation_of :: "call_env \<Rightarrow> fabric_session \<Rightarrow> mutation_op \<Rightarrow> string \<Rightarrow> mutation" where
  "base_mutation_of env actor op reason = mutation_default\<lparr>mu_op := op, mu_epoch := fs_epoch actor,
     mu_publisher := fs_publisher actor, mu_boot := fs_boot actor, mu_token := fs_token actor,
     mu_recorded_at_ms := ce_stamp env op, mu_reason := reason\<rparr>"

text \<open>The prologue the mutating calls share, and the tail of the calls that answer with the
  generation of an entity.\<close>

definition acting :: "fabric_session \<Rightarrow> void_result \<Rightarrow> (fabric_runtime \<Rightarrow> disk \<Rightarrow> 'a call) \<Rightarrow> handle \<Rightarrow> disk \<Rightarrow>
    disk \<times> handle \<times> 'a result" where
  "acting actor check body h d =
     (case h of
        None \<Rightarrow> (d, h, Inl never_opened)
      | Some rt \<Rightarrow>
          if \<not> session_shape_valid actor then
            (d, h, Inl (make_error St_Unauthorized ''the caller holds no usable session''))
          else case check of
            Inl e \<Rightarrow> (d, h, Inl e)
          | Inr _ \<Rightarrow>
              if rt_closed rt then (d, h, Inl runtime_closed)
              else (case body rt d of (d', rt', r) \<Rightarrow> (d', Some rt', r)))"

definition commit_as :: "call_env \<Rightarrow> string \<Rightarrow> fabric_session \<Rightarrow> mutation \<Rightarrow>
    (commit_result \<Rightarrow> fabric_runtime \<Rightarrow> fabric_runtime \<times> 'a) \<Rightarrow> fabric_runtime \<Rightarrow> disk \<Rightarrow> 'a call" where
  "commit_as env name actor m answer rt d =
     (case runtime_commit env m rt d of
        (d', rt', Inl e) \<Rightarrow> (d', refuse env name e actor rt', Inl e)
      | (d', rt', Inr outcome) \<Rightarrow> (case answer outcome (count_accepted rt') of (rt2, v) \<Rightarrow> (d', rt2, Inr v)))"

definition entity_answer :: "commit_result \<Rightarrow> fabric_runtime \<Rightarrow> fabric_runtime \<times> generation" where
  "entity_answer outcome rt =
     (rt\<lparr>rt_stats := (rt_stats rt)\<lparr>st_idempotent_noops := st_idempotent_noops (rt_stats rt) + (if co_noop outcome then 1 else 0)\<rparr>\<rparr>,
      co_entity_generation outcome)"

section \<open>Opening and closing\<close>

definition store_options_of :: "runtime_options \<Rightarrow> store_options" where
  "store_options_of opts = \<lparr>op_limits = ro_limits opts, op_create_if_missing = ro_create_if_missing opts,
     op_fsync = ro_fsync_records opts, op_exclusive_lock = ro_exclusive_lock opts\<rparr>"

definition choose_boot :: "call_env \<Rightarrow> runtime_options \<Rightarrow> boot_id result" where
  "choose_boot env opts =
     (case ro_instance_boot_id opts of
        Some b \<Rightarrow> if boot_is_zero b then Inl (make_error St_InvalidArgument ''the supplied instance boot id is all zero'') else Inr b
      | None \<Rightarrow> ce_boot env)"

definition opening_advance :: "call_env \<Rightarrow> state_image \<Rightarrow> mutation" where
  "opening_advance env img = mutation_default\<lparr>mu_op := AdvanceEpoch, mu_epoch := im_epoch img,
     mu_recorded_at_ms := ce_stamp env AdvanceEpoch,
     mu_reason := ''state directory opened by a new authority incarnation'', mu_system := True\<rparr>"

definition count_recovery :: "fabric_runtime \<Rightarrow> fabric_runtime" where
  "count_recovery rt = rt\<lparr>rt_stats := (rt_stats rt)\<lparr>st_recoveries := st_recoveries (rt_stats rt) + 1\<rparr>\<rparr>"

definition opened_runtime :: "call_env \<Rightarrow> runtime_options \<Rightarrow> boot_id \<Rightarrow> state_image \<Rightarrow> durable_store \<Rightarrow> fabric_runtime" where
  "opened_runtime env opts boot img s =
     \<lparr>rt_image = expire_grants (img\<lparr>im_limits := ro_limits opts\<rparr>), rt_store = s, rt_limits = ro_limits opts,
      rt_instance_boot = boot, rt_state_dir = ev_directory (ce_io env), rt_closed = False,
      rt_allow_new_publishers = ro_allow_new_publishers opts, rt_stats = stats_zero\<rparr>"

definition open_runtime :: "call_env \<Rightarrow> runtime_options \<Rightarrow> place \<Rightarrow> place \<times> fabric_runtime result" where
  "open_runtime env opts p =
     (if \<not> limits_within_compiled_ceiling (ro_limits opts) then
        (p, Inl (make_error St_LimitExceeded
          ''the requested limits exceed the compiled ceiling; the fabric refuses to run with unbounded configuration''))
      else if ev_directory (ce_io env) = [] then
        (p, Inl (make_error St_InvalidArgument ''no state directory was given''))
      else case choose_boot env opts of
        Inl e \<Rightarrow> (p, Inl e)
      | Inr boot \<Rightarrow>
          (case open_store (ce_io env) (store_options_of opts) (empty_image compiled_limits_ceiling) report_default p of
             (p1, img, report, Inl e) \<Rightarrow> (p1, Inl e)
           | (p1, img, report, Inr s) \<Rightarrow>
               if ro_fail_on_degraded opts \<and> ir_health report \<noteq> Healthy then
                 (p1, Inl (make_error St_Degraded
                   (cat [''the durable state is degraded and fail_on_degraded is set: '', ir_detail report])))
               else
                 (let rt = opened_runtime env opts boot img s in
                  case p1 of
                    Directory d \<Rightarrow>
                      if ro_advance_epoch_on_open opts \<and> is_established (im_epoch (rt_image rt)) \<and> im_health (rt_image rt) = Healthy then
                        (case runtime_commit env (opening_advance env (rt_image rt)) rt d of
                           (d', rt', Inl e) \<Rightarrow> (Directory d', Inl e)
                         | (d', rt', Inr _) \<Rightarrow> (Directory d', Inr (count_recovery rt')))
                      else (p1, Inr (count_recovery rt))
                  | _ \<Rightarrow> (p1, Inr (count_recovery rt)))))"

definition close_runtime :: "handle \<Rightarrow> handle \<times> void_result" where
  "close_runtime h =
     (case h of
        None \<Rightarrow> (h, Inr ())
      | Some rt \<Rightarrow>
          if rt_closed rt then (h, Inr ())
          else (Some (rt\<lparr>rt_closed := True,
                  rt_store := store_default \<lparr>op_limits = compiled_limits_ceiling, op_create_if_missing = False,
                    op_fsync = True, op_exclusive_lock = True\<rparr>\<rparr>), Inr ()))"

definition is_closed :: "handle \<Rightarrow> bool" where
  "is_closed h = (case h of None \<Rightarrow> True | Some rt \<Rightarrow> rt_closed rt)"

section \<open>Authority\<close>

text \<open>The state of the table that decides how a grant proceeds.\<close>

definition known_publisher :: "state_image \<Rightarrow> publisher_id \<Rightarrow> bool" where
  "known_publisher img publisher \<longleftrightarrow> list_ex (\<lambda>(k, e). fst k = publisher) (im_authority img)"

definition live_other_incarnation :: "state_image \<Rightarrow> publisher_id \<Rightarrow> boot_id \<Rightarrow> bool" where
  "live_other_incarnation img publisher boot \<longleftrightarrow>
     list_ex (\<lambda>(k, e). fst k = publisher \<and> snd k \<noteq> boot \<and> he_state e = Granted) (im_authority img)"

definition grant_epoch :: "call_env \<Rightarrow> publisher_id \<Rightarrow> boot_id \<Rightarrow> fabric_runtime \<Rightarrow> disk \<Rightarrow> unit call" where
  "grant_epoch env publisher boot rt d =
     (let img = rt_image rt;
          other = live_other_incarnation img publisher boot;
          bootstrap = \<lparr>fs_publisher = publisher, fs_boot = boot, fs_epoch = im_epoch img, fs_token = im_next_fencing_token img\<rparr> in
      if is_established (im_epoch img) \<and> \<not> other then (d, rt, Inr ())
      else case runtime_commit env ((base_mutation_of env bootstrap AdvanceEpoch
              (if other then ''publisher incarnation replaced'' else ''fabric epoch established''))\<lparr>mu_system := True\<rparr>) rt d of
        (d', rt', Inl e) \<Rightarrow> (d', count_rejected rt', Inl e)
      | (d', rt', Inr _) \<Rightarrow>
          (let rt2 = count_accepted rt' in
           (d', rt2\<lparr>rt_stats := (rt_stats rt2)\<lparr>st_epoch_advances := st_epoch_advances (rt_stats rt2) + 1\<rparr>\<rparr>, Inr ())))"

definition grant_commit :: "call_env \<Rightarrow> publisher_id \<Rightarrow> boot_id \<Rightarrow> fabric_runtime \<Rightarrow> disk \<Rightarrow> fabric_session call" where
  "grant_commit env publisher boot rt d =
     (let img = rt_image rt;
          actor = \<lparr>fs_publisher = publisher, fs_boot = boot, fs_epoch = im_epoch img, fs_token = im_next_fencing_token img\<rparr> in
      case runtime_commit env ((base_mutation_of env actor GrantAuthority ''authority granted'')\<lparr>mu_system := True\<rparr>) rt d of
        (d', rt', Inl e) \<Rightarrow> (d', count_rejected rt', Inl e)
      | (d', rt', Inr _) \<Rightarrow>
          (case om_find (im_authority (rt_image rt')) (publisher, boot) of
             None \<Rightarrow> (d', rt', Inl (make_error St_Internal ''the grant did not produce an authority record''))
           | Some e \<Rightarrow>
               (let rt2 = count_accepted rt' in
                (d', rt2\<lparr>rt_stats := (rt_stats rt2)\<lparr>st_authorities_granted := st_authorities_granted (rt_stats rt2) + 1\<rparr>\<rparr>,
                 Inr \<lparr>fs_publisher = publisher, fs_boot = boot, fs_epoch = he_epoch e, fs_token = he_token e\<rparr>))))"

definition grant_table :: "call_env \<Rightarrow> publisher_id \<Rightarrow> boot_id \<Rightarrow> fabric_runtime \<Rightarrow> disk \<Rightarrow> fabric_session call" where
  "grant_table env publisher boot rt d =
     (if \<not> known_publisher (rt_image rt) publisher \<and> \<not> rt_allow_new_publishers rt then
        (d, rt, Inl (make_error St_Unauthorized (cat [''publisher '', quoted (id_str publisher),
          '' is not registered and this fabric does not accept new publishers''])))
      else case grant_epoch env publisher boot rt d of
        (d', rt', Inl e) \<Rightarrow> (d', rt', Inl e)
      | (d', rt', Inr _) \<Rightarrow> grant_commit env publisher boot rt' d')"

definition grant_authority :: "call_env \<Rightarrow> publisher_id \<Rightarrow> boot_id \<Rightarrow> handle \<Rightarrow> disk \<Rightarrow> disk \<times> handle \<times> fabric_session result" where
  "grant_authority env publisher boot h d =
     (case h of
        None \<Rightarrow> (d, h, Inl never_opened)
      | Some rt \<Rightarrow>
          if \<not> id_valid publisher then (d, h, Inl (make_error St_MalformedId ''authority request carries no publisher id''))
          else if boot_is_zero boot then
            (d, h, Inl (make_error St_InvalidArgument ''authority request carries an all-zero boot id''))
          else if rt_closed rt then (d, h, Inl runtime_closed)
          else if im_health (rt_image rt) \<noteq> Healthy then
            (d, h, Inl (make_error St_Degraded (im_health_detail (rt_image rt))))
          else
            (let issue = (case grant_table env publisher boot rt d of (d', rt', r) \<Rightarrow> (d', Some rt', r)) in
             case om_find (im_authority (rt_image rt)) (publisher, boot) of
               None \<Rightarrow> issue
             | Some e \<Rightarrow>
                 if he_state e = Fenced then
                   (d, h, Inl (make_error St_Fenced (cat [''publisher '', quoted (id_str publisher), '' incarnation '',
                     boot_hex boot, '' was fenced; it cannot be granted authority again''])))
                 else if he_state e = Granted \<and> he_epoch e = im_epoch (rt_image rt) then
                   (d, h, Inr \<lparr>fs_publisher = publisher, fs_boot = boot, fs_epoch = he_epoch e, fs_token = he_token e\<rparr>)
                 else issue))"

definition or_else :: "string \<Rightarrow> string \<Rightarrow> string" where
  "or_else reason default_reason = (if reason = [] then default_reason else reason)"

definition advance_epoch :: "call_env \<Rightarrow> fabric_session \<Rightarrow> string \<Rightarrow> handle \<Rightarrow> disk \<Rightarrow> disk \<times> handle \<times> fabric_epoch result" where
  "advance_epoch env actor reason =
     acting actor (Inr ()) (\<lambda>rt d.
       commit_as env ''advance_epoch'' actor (base_mutation_of env actor AdvanceEpoch (or_else reason ''epoch advanced''))
         (\<lambda>_ rt'. (rt'\<lparr>rt_stats := (rt_stats rt')\<lparr>st_epoch_advances := st_epoch_advances (rt_stats rt') + 1\<rparr>\<rparr>,
                   im_epoch (rt_image rt'))) rt d)"

definition fence :: "call_env \<Rightarrow> fabric_session \<Rightarrow> publisher_id \<Rightarrow> boot_id \<Rightarrow> string \<Rightarrow> handle \<Rightarrow> disk \<Rightarrow>
    disk \<times> handle \<times> void_result" where
  "fence env actor publisher boot reason =
     acting actor
       (if \<not> id_valid publisher \<or> boot_is_zero boot then
          Inl (make_error St_InvalidArgument ''the fence request names no incarnation'') else Inr ())
       (\<lambda>rt d.
         let already_fenced = (case om_find (im_authority (rt_image rt)) (publisher, boot) of
               None \<Rightarrow> False | Some e \<Rightarrow> he_state e = Fenced) in
         commit_as env ''fence'' actor
           ((base_mutation_of env actor FenceAuthority (or_else reason ''fenced''))
              \<lparr>mu_fence_publisher := publisher, mu_fence_boot := boot\<rparr>)
           (\<lambda>_ rt'. (if already_fenced then rt'
              else rt'\<lparr>rt_stats := (rt_stats rt')\<lparr>st_fences_issued := st_fences_issued (rt_stats rt') + 1\<rparr>\<rparr>, ())) rt d)"

definition runtime_authority_state :: "publisher_id \<Rightarrow> boot_id \<Rightarrow> handle \<Rightarrow> authority_state result" where
  "runtime_authority_state publisher boot h =
     (case h of
        None \<Rightarrow> Inl never_opened
      | Some rt \<Rightarrow>
          (case om_find (im_authority (rt_image rt)) (publisher, boot) of
             None \<Rightarrow> Inl (make_error St_NotFound ''no such publisher incarnation'')
           | Some e \<Rightarrow> Inr (he_state e)))"

section \<open>Definitions and assignments\<close>

definition define_class :: "call_env \<Rightarrow> fabric_session \<Rightarrow> priority_class_def \<Rightarrow> handle \<Rightarrow> disk \<Rightarrow> disk \<times> handle \<times> generation result" where
  "define_class env actor definition' =
     acting actor (Inr ()) (commit_as env ''define_class'' actor
       ((base_mutation_of env actor DefineClass ''define class'')\<lparr>mu_cls := definition'\<lparr>cd_generation := gen_unset\<rparr>\<rparr>) entity_answer)"

definition define_scope :: "call_env \<Rightarrow> fabric_session \<Rightarrow> policy_scope_def \<Rightarrow> handle \<Rightarrow> disk \<Rightarrow> disk \<times> handle \<times> generation result" where
  "define_scope env actor definition' =
     acting actor (Inr ()) (commit_as env ''define_scope'' actor
       ((base_mutation_of env actor DefineScope ''define scope'')\<lparr>mu_scope := definition'\<lparr>sd_generation := gen_unset\<rparr>\<rparr>) entity_answer)"

definition define_subject :: "call_env \<Rightarrow> fabric_session \<Rightarrow> subject_def \<Rightarrow> handle \<Rightarrow> disk \<Rightarrow> disk \<times> handle \<times> generation result" where
  "define_subject env actor definition' =
     acting actor (Inr ()) (commit_as env ''define_subject'' actor
       ((base_mutation_of env actor DefineSubject ''define subject'')\<lparr>mu_subject := definition'\<lparr>ud_generation := gen_unset\<rparr>\<rparr>) entity_answer)"

text \<open>A policy is stamped with the generation of its scope, an assignment with the generations
  of everything it names; the stamp fails on the first name that is not defined.\<close>

definition undefined_name :: "string \<Rightarrow> string \<Rightarrow> 'tag basic_id \<Rightarrow> status" where
  "undefined_name what kind i = make_error St_NotFound (cat [what, '' names '', kind, '' '', quoted (id_str i), '' which is not defined''])"

definition stamp_policy :: "state_image \<Rightarrow> policy_def \<Rightarrow> policy_def result" where
  "stamp_policy img p =
     (case om_find (im_scopes img) (pd_scope p) of
        None \<Rightarrow> Inl (undefined_name ''policy'' ''scope'' (pd_scope p))
      | Some e \<Rightarrow> Inr (p\<lparr>pd_generation := gen_unset, pd_scope_generation := sd_generation (se_definition e)\<rparr>))"

definition define_policy :: "call_env \<Rightarrow> fabric_session \<Rightarrow> policy_def \<Rightarrow> handle \<Rightarrow> disk \<Rightarrow> disk \<times> handle \<times> generation result" where
  "define_policy env actor definition' =
     acting actor (Inr ()) (\<lambda>rt d.
       case stamp_policy (rt_image rt) definition' of
         Inl e \<Rightarrow> (d, refuse env ''define_policy'' e actor rt, Inl e)
       | Inr stamped \<Rightarrow> commit_as env ''define_policy'' actor
           ((base_mutation_of env actor DefinePolicy ''define policy'')\<lparr>mu_policy := stamped\<rparr>) entity_answer rt d)"

definition stamp_assignment :: "state_image \<Rightarrow> priority_assignment \<Rightarrow> priority_assignment result" where
  "stamp_assignment img a =
     (case om_find (im_subjects img) (as_subject a) of
        None \<Rightarrow> Inl (undefined_name ''assignment'' ''subject'' (as_subject a))
      | Some subject \<Rightarrow>
     (case om_find (im_scopes img) (as_scope a) of
        None \<Rightarrow> Inl (undefined_name ''assignment'' ''scope'' (as_scope a))
      | Some scope \<Rightarrow>
     (case om_find (im_classes img) (as_cls a) of
        None \<Rightarrow> Inl (undefined_name ''assignment'' ''class'' (as_cls a))
      | Some cls \<Rightarrow>
     (let stamped = a\<lparr>as_generation := gen_unset, as_subject_generation := ud_generation (ue_definition subject),
            as_scope_generation := sd_generation (se_definition scope), as_class_generation := cd_generation (ce_definition cls)\<rparr> in
      case as_policy a of
        None \<Rightarrow> Inr (stamped\<lparr>as_policy_generation := gen_unset\<rparr>)
      | Some i \<Rightarrow>
          (case om_find (im_policies img) i of
             None \<Rightarrow> Inl (undefined_name ''assignment'' ''policy'' i)
           | Some policy \<Rightarrow> Inr (stamped\<lparr>as_policy_generation := pd_generation (pe_definition policy)\<rparr>))))))"

definition assign :: "call_env \<Rightarrow> fabric_session \<Rightarrow> priority_assignment \<Rightarrow> handle \<Rightarrow> disk \<Rightarrow> disk \<times> handle \<times> generation result" where
  "assign env actor a =
     acting actor (Inr ()) (\<lambda>rt d.
       if as_kind a = Default then
         (d, rt, Inl (make_error St_InvalidArgument
           ''Default is produced by the fabric from a policy declaration and cannot be published as an assignment''))
       else case stamp_assignment (rt_image rt) a of
         Inl e \<Rightarrow> (d, refuse env ''assign'' e actor rt, Inl e)
       | Inr stamped \<Rightarrow> commit_as env ''assign'' actor
           ((base_mutation_of env actor Assign ''assign'')\<lparr>mu_assignment := stamped\<rparr>) entity_answer rt d)"

definition retire_assignment :: "call_env \<Rightarrow> fabric_session \<Rightarrow> assignment_id \<Rightarrow> string \<Rightarrow> handle \<Rightarrow> disk \<Rightarrow>
    disk \<times> handle \<times> generation result" where
  "retire_assignment env actor i reason =
     acting actor (Inr ()) (commit_as env ''retire_assignment'' actor
       ((base_mutation_of env actor RetireAssignment (or_else reason ''retired''))\<lparr>mu_retire_target := i\<rparr>) entity_answer)"

section \<open>Evaluation\<close>

definition count_outcome :: "outcome \<Rightarrow> fabric_stats \<Rightarrow> fabric_stats" where
  "count_outcome r s =
     (let s1 = s\<lparr>st_evaluations := st_evaluations s + 1\<rparr> in
      case r of
        Out_Assigned \<Rightarrow> s1\<lparr>st_evaluations_assigned := st_evaluations_assigned s + 1\<rparr>
      | Out_Inherited \<Rightarrow> s1\<lparr>st_evaluations_inherited := st_evaluations_inherited s + 1\<rparr>
      | Out_Overridden \<Rightarrow> s1\<lparr>st_evaluations_overridden := st_evaluations_overridden s + 1\<rparr>
      | Out_Conflict \<Rightarrow> s1\<lparr>st_evaluations_conflict := st_evaluations_conflict s + 1\<rparr>
      | Out_Unknown \<Rightarrow> s1\<lparr>st_evaluations_unknown := st_evaluations_unknown s + 1\<rparr>
      | Out_Stale \<Rightarrow> s1\<lparr>st_evaluations_stale := st_evaluations_stale s + 1\<rparr>
      | Out_Fenced \<Rightarrow> s1\<lparr>st_evaluations_fenced := st_evaluations_fenced s + 1\<rparr>
      | Out_Rejected \<Rightarrow> s1\<lparr>st_evaluations_rejected := st_evaluations_rejected s + 1\<rparr>)"

definition runtime_evaluate :: "priority_query \<Rightarrow> handle \<Rightarrow> handle \<times> priority_decision" where
  "runtime_evaluate query h =
     (case h of
        None \<Rightarrow> (h, seal (decision_default\<lparr>de_outcome := Out_Rejected, de_reason_code := ''runtime_not_open'',
          de_reason := ''the runtime was never opened'', de_resolution := ''none''\<rparr>))
      | Some rt \<Rightarrow>
          (let img = rt_image rt;
               decision = (if rt_closed rt then
                   seal (decision_default\<lparr>de_outcome := Out_Rejected, de_reason_code := ''runtime_closed'',
                     de_reason := ''the runtime is closed and no longer answers authoritatively'', de_resolution := ''none'',
                     de_epoch := im_epoch img, de_state_generation := im_generation img\<rparr>)
                 else evaluate_query img query)
           in (Some (rt\<lparr>rt_stats := count_outcome (de_outcome decision) (rt_stats rt)\<rparr>), decision)))"

section \<open>Introspection and maintenance\<close>

definition state_stats_of :: "fabric_runtime \<Rightarrow> state_stats" where
  "state_stats_of rt =
     (let img = rt_image rt in
      \<lparr>ss_classes = of_nat (length (im_classes img)), ss_scopes = of_nat (length (im_scopes img)),
       ss_policies = of_nat (length (im_policies img)), ss_subjects = of_nat (length (im_subjects img)),
       ss_assignments = of_nat (length (im_assignments img)),
       ss_retired_assignments = of_nat (length (filter (\<lambda>(_, e). \<not> ae_active e) (im_assignments img))),
       ss_publishers = of_nat (length (im_authority img)),
       ss_fenced_boots = of_nat (length (filter (\<lambda>(_, e). he_state e = Fenced) (im_authority img))),
       ss_audit_entries = of_nat (length (im_audit img)), ss_durable_bytes = ds_durable_bytes (rt_store rt),
       ss_journal_records = of_nat (ds_journal_records (rt_store rt)), ss_state_generation = im_generation img,
       ss_epoch = im_epoch img\<rparr>)"

definition audit_window :: "nat \<Rightarrow> fabric_runtime \<Rightarrow> audit_entry list" where
  "audit_window max_entries rt =
     (let entries = im_audit (rt_image rt);
          count = min (min max_entries (max_audit_return (rt_limits rt))) (length entries)
      in List.drop (length entries - count) entries)"

definition list_classes :: "fabric_runtime \<Rightarrow> priority_class_def list" where
  "list_classes rt = map (\<lambda>(_, e). ce_definition e) (im_classes (rt_image rt))"

definition list_scopes :: "fabric_runtime \<Rightarrow> policy_scope_def list" where
  "list_scopes rt = map (\<lambda>(_, e). se_definition e) (im_scopes (rt_image rt))"

definition list_policies :: "fabric_runtime \<Rightarrow> policy_def list" where
  "list_policies rt = map (\<lambda>(_, e). pe_definition e) (im_policies (rt_image rt))"

definition list_subjects :: "fabric_runtime \<Rightarrow> subject_def list" where
  "list_subjects rt = map (\<lambda>(_, e). ue_definition e) (im_subjects (rt_image rt))"

definition list_assignments :: "fabric_runtime \<Rightarrow> priority_assignment list" where
  "list_assignments rt = map (\<lambda>(_, e). ae_assignment e) (im_assignments (rt_image rt))"

definition defined_as :: "string \<Rightarrow> 'tag basic_id \<Rightarrow> 'a option \<Rightarrow> 'a result" where
  "defined_as kind i found =
     (case found of
        None \<Rightarrow> Inl (make_error St_NotFound (cat [kind, '' '', quoted (id_str i), '' is not defined'']))
      | Some v \<Rightarrow> Inr v)"

definition class_definition :: "class_id \<Rightarrow> fabric_runtime \<Rightarrow> priority_class_def result" where
  "class_definition i rt = defined_as ''class'' i (map_option ce_definition (om_find (im_classes (rt_image rt)) i))"

definition scope_definition :: "scope_id \<Rightarrow> fabric_runtime \<Rightarrow> policy_scope_def result" where
  "scope_definition i rt = defined_as ''scope'' i (map_option se_definition (om_find (im_scopes (rt_image rt)) i))"

definition policy_definition :: "policy_id \<Rightarrow> fabric_runtime \<Rightarrow> policy_def result" where
  "policy_definition i rt = defined_as ''policy'' i (map_option pe_definition (om_find (im_policies (rt_image rt)) i))"

definition subject_definition :: "subject_id \<Rightarrow> fabric_runtime \<Rightarrow> subject_def result" where
  "subject_definition i rt = defined_as ''subject'' i (map_option ue_definition (om_find (im_subjects (rt_image rt)) i))"

definition assignment_definition :: "assignment_id \<Rightarrow> fabric_runtime \<Rightarrow> priority_assignment result" where
  "assignment_definition i rt = defined_as ''assignment'' i (map_option ae_assignment (om_find (im_assignments (rt_image rt)) i))"

definition runtime_integrity :: "call_env \<Rightarrow> fabric_runtime \<Rightarrow> disk \<Rightarrow> disk \<times> integrity_report" where
  "runtime_integrity env rt d =
     (if rt_closed rt then
        (d, report_default\<lparr>ir_ok := False, ir_health := Degraded, ir_detail := ''the runtime is closed''\<rparr>)
      else case verify_store (ce_io env) (rt_store rt) (rt_image rt) d of
        (d', Inl e) \<Rightarrow> (d', report_default\<lparr>ir_ok := False, ir_health := Degraded, ir_detail := st_message e\<rparr>)
      | (d', Inr report) \<Rightarrow> (d', report))"

definition runtime_checkpoint :: "call_env \<Rightarrow> handle \<Rightarrow> disk \<Rightarrow> disk \<times> handle \<times> generation result" where
  "runtime_checkpoint env h d =
     (case h of
        None \<Rightarrow> (d, h, Inl never_opened)
      | Some rt \<Rightarrow>
          if rt_closed rt then (d, h, Inl runtime_closed)
          else case checkpoint (ce_io env) (rt_store rt) (rt_image rt) d of
            (d', s', r) \<Rightarrow> (d', Some (rt\<lparr>rt_store := s'\<rparr>), r))"

end
