(* ===== verification/Agreement.thy ===== *)
theory Agreement
  imports Steps
begin

text \<open>
  What a running fabric and the replay of its journal have in common. Refused attempts and the
  expiry of grants on a restart change the live image but are not journaled, so replay does not
  reproduce the image: it may differ in the audit window, in the audit numbers that provenance
  carries, and in which unfenced incarnations count as granted. \<open>forget\<close> removes exactly that,
  and every mutation the live image accepts is accepted by the replayed one with the same
  remainder.
\<close>

section \<open>What replay does not reproduce\<close>

definition anonymous :: "provenance \<Rightarrow> provenance" where
  "anonymous p = p\<lparr>pv_audit_sequence := 0\<rparr>"

definition settled :: "authority_state \<Rightarrow> authority_state" where
  "settled s = (if s = Fenced then Fenced else Expired)"

definition plain_class :: "class_entry \<Rightarrow> class_entry" where
  "plain_class e = e\<lparr>ce_provenance := anonymous (ce_provenance e)\<rparr>"

definition plain_scope :: "scope_entry \<Rightarrow> scope_entry" where
  "plain_scope e = e\<lparr>se_provenance := anonymous (se_provenance e)\<rparr>"

definition plain_policy :: "policy_entry \<Rightarrow> policy_entry" where
  "plain_policy e = e\<lparr>pe_provenance := anonymous (pe_provenance e)\<rparr>"

definition plain_subject :: "subject_entry \<Rightarrow> subject_entry" where
  "plain_subject e = e\<lparr>ue_provenance := anonymous (ue_provenance e)\<rparr>"

definition plain_assignment :: "assignment_entry \<Rightarrow> assignment_entry" where
  "plain_assignment e = e\<lparr>ae_provenance := anonymous (ae_provenance e), ae_retired_by := anonymous (ae_retired_by e)\<rparr>"

definition plain_authority :: "authority_entry \<Rightarrow> authority_entry" where
  "plain_authority e = e\<lparr>he_state := settled (he_state e), he_provenance := anonymous (he_provenance e)\<rparr>"

definition forget :: "state_image \<Rightarrow> state_image" where
  "forget img = img\<lparr>im_next_audit_sequence := 0, im_audit := [],
     im_classes := om_update_all (\<lambda>_. plain_class) (im_classes img),
     im_scopes := om_update_all (\<lambda>_. plain_scope) (im_scopes img),
     im_policies := om_update_all (\<lambda>_. plain_policy) (im_policies img),
     im_subjects := om_update_all (\<lambda>_. plain_subject) (im_subjects img),
     im_assignments := om_update_all (\<lambda>_. plain_assignment) (im_assignments img),
     im_authority := om_update_all (\<lambda>_. plain_authority) (im_authority img)\<rparr>"

lemma plain_sel [simp]:
  "ce_definition (plain_class e) = ce_definition e" "se_definition (plain_scope f) = se_definition f"
  "pe_definition (plain_policy g) = pe_definition g" "ue_definition (plain_subject h) = ue_definition h"
  "ae_assignment (plain_assignment a) = ae_assignment a" "ae_active (plain_assignment a) = ae_active a"
  "ae_retirement_reason (plain_assignment a) = ae_retirement_reason a"
  "he_epoch (plain_authority b) = he_epoch b" "he_token (plain_authority b) = he_token b"
  "he_state (plain_authority b) = settled (he_state b)"
  by (simp_all add: plain_class_def plain_scope_def plain_policy_def plain_subject_def plain_assignment_def plain_authority_def)

lemma anonymous_binding [simp]: "same_authority_binding (anonymous p) m = same_authority_binding p m"
  by (simp add: same_authority_binding_def anonymous_def)

lemma plain_provenance [simp]:
  "ce_provenance (plain_class e) = anonymous (ce_provenance e)" "se_provenance (plain_scope f) = anonymous (se_provenance f)"
  "pe_provenance (plain_policy g) = anonymous (pe_provenance g)" "ue_provenance (plain_subject h) = anonymous (ue_provenance h)"
  "ae_provenance (plain_assignment a) = anonymous (ae_provenance a)"
  by (simp_all add: plain_class_def plain_scope_def plain_policy_def plain_subject_def plain_assignment_def)

lemma forget_sel [simp]:
  "im_epoch (forget img) = im_epoch img" "im_generation (forget img) = im_generation img"
  "im_last_sequence (forget img) = im_last_sequence img" "im_next_fencing_token (forget img) = im_next_fencing_token img"
  "im_limits (forget img) = im_limits img" "im_health (forget img) = im_health img"
  "im_assignments_by_subject (forget img) = im_assignments_by_subject img"
  "im_classes (forget img) = om_update_all (\<lambda>_. plain_class) (im_classes img)"
  "im_scopes (forget img) = om_update_all (\<lambda>_. plain_scope) (im_scopes img)"
  "im_policies (forget img) = om_update_all (\<lambda>_. plain_policy) (im_policies img)"
  "im_subjects (forget img) = om_update_all (\<lambda>_. plain_subject) (im_subjects img)"
  "im_assignments (forget img) = om_update_all (\<lambda>_. plain_assignment) (im_assignments img)"
  "im_authority (forget img) = om_update_all (\<lambda>_. plain_authority) (im_authority img)"
  by (simp_all add: forget_def)

section \<open>Validation does not look at it\<close>

lemma case_mapped: "(case map_option f x of None \<Rightarrow> a | Some y \<Rightarrow> g y) = (case x of None \<Rightarrow> a | Some z \<Rightarrow> g (f z))"
  by (cases x) simp_all

lemma update_all_length [simp]: "length (om_update_all f m) = length m"
  by (simp add: om_update_all_def)

lemma update_all_has [simp]: "om_has (om_update_all f m) = om_has m"
  by (simp add: om_has_def fun_eq_iff)

lemma update_all_keys [simp]: "fst ` set (om_update_all f m) = fst ` set m"
  by (force simp: om_update_all_def)

lemma parents_forget [simp]:
  "class_parents (forget img) = class_parents img" "subject_parents (forget img) = subject_parents img"
  by (simp_all add: class_parents_def subject_parents_def fun_eq_iff case_mapped cong: option.case_cong)

lemma class_implies_forget [simp]: "class_implies (forget img) = class_implies img"
  by (simp add: class_implies_def fun_eq_iff)

lemma class_depth_loop_forget: "class_depth_loop (forget img) depth in_progress stack = class_depth_loop img depth in_progress stack"
proof -
  have e: "expanded_depth (forget img) = expanded_depth img" for img
    by (simp add: expanded_depth_def fun_eq_iff case_mapped cong: option.case_cong)
  show ?thesis by (induction img depth in_progress stack rule: class_depth_loop.induct) (simp_all add: e del: fun_upd_apply)
qed

lemma class_depth_forget [simp]: "check_class_depth (forget img) = check_class_depth img"
  by (simp add: check_class_depth_def class_depth_def class_depth_loop_forget Let_def fun_eq_iff del: class_depth_loop.simps)

lemma inheritance_forget [simp]:
  "validate_inheritance (forget img) = validate_inheritance img"
  "validate_subject_inheritance (forget img) = validate_subject_inheritance img"
  by (simp_all add: validate_inheritance_def validate_subject_inheritance_def fun_eq_iff)

lemma for_each_map: "for_each f (map g xs) = for_each (\<lambda>x. f (g x)) xs"
proof (induction xs)
  case (Cons x xs)
  show ?case by (rule ext) (simp add: Cons.IH)
qed (simp add: fun_eq_iff)

lemma for_all_ok_map: "for_all_ok f (map g xs) = for_all_ok (\<lambda>x. f (g x)) xs"
  by (simp add: for_all_ok_def for_each_map)

lemma precedence_free_forget [simp]: "check_precedence_free (forget img) = check_precedence_free img"
  by (auto simp: check_precedence_free_def fun_eq_iff om_update_all_def for_all_ok_map case_prod_unfold cong: if_cong)

lemma parent_walk_forget: "parent_walk (forget img) d parent cursor visited hops = parent_walk img d parent cursor visited hops"
proof (induction img d parent cursor visited hops rule: parent_walk.induct)
  case (1 img d parent cursor visited hops)
  show ?case
    by (subst (1 2) parent_walk.simps)
      (use 1 in \<open>auto simp: case_mapped split: option.split\<close>)
qed

lemma scope_chain_loop_forget: "scope_chain_loop (forget img) scope chain current visited = scope_chain_loop img scope chain current visited"
proof (induction img scope chain current visited rule: scope_chain_loop.induct)
  case (1 img scope chain current visited)
  show ?case
    by (subst (1 2) scope_chain_loop.simps)
      (use 1 in \<open>auto simp: case_mapped Let_def split: option.split\<close>)
qed

lemma scope_chain_forget [simp]: "scope_chain (forget img) = scope_chain img"
  by (simp add: scope_chain_def scope_chain_loop_forget fun_eq_iff)

lemma find_update_all:
  "List.find P (om_update_all f m) = map_option (\<lambda>(k, v). (k, f k v)) (List.find (\<lambda>(k, v). P (k, f k v)) m)"
  by (induction m) (auto simp: om_update_all_def)

lemma first_policy_forget:
  "first_policy (forget img) accept level = map_option (\<lambda>(k, e). (k, plain_policy e)) (first_policy img accept level)"
  by (simp add: first_policy_def find_update_all case_prod_unfold)

lemma first_on_chain_map: "first_on_chain (\<lambda>l. map_option g (f l)) ls = map_option g (first_on_chain f ls)"
  by (induction ls) (auto split: option.split)

lemma policy_chain_forget:
  "first_on_chain (first_policy (forget img) accept) ls = map_option (\<lambda>(k, e). (k, plain_policy e)) (first_on_chain (first_policy img accept) ls)"
  using first_on_chain_map[of "\<lambda>(k, e). (k, plain_policy e)" "first_policy img accept" ls] by (simp add: first_policy_forget[abs_def])

lemma effective_forget [simp]:
  "effective_policy (forget img) = effective_policy img" "effective_visibility (forget img) = effective_visibility img"
  by (simp_all add: effective_policy_def effective_visibility_def fun_eq_iff policy_chain_forget option.map_comp comp_def
      case_prod_unfold split: sum.split)

lemma population_update_all [simp]: "check_population (om_update_all f m) = check_population m"
  by (simp add: check_population_def fun_eq_iff)

lemma validate_forget:
  assumes "mu_op m \<noteq> GrantAuthority"
  shows "validate_mutation (forget img) m = validate_mutation img m"
proof -
  have c: "validate_class (forget img) d = validate_class img d" for d
    by (simp add: validate_class_def case_mapped cong: option.case_cong if_cong)
  have s: "validate_scope (forget img) d = validate_scope img d" for d
    by (simp add: validate_scope_def parent_walk_forget cong: option.case_cong if_cong)
  have p: "validate_policy (forget img) d = validate_policy img d" for d
    by (simp add: validate_policy_def check_visible_list_def case_mapped cong: option.case_cong if_cong)
  have u: "validate_subject (forget img) d = validate_subject img d" for d
    by (simp add: validate_subject_def)
  have a: "validate_assign (forget img) d = validate_assign img d" for d
    by (simp add: validate_assign_def check_assignment_policy_def check_required_policy_def class_visible_def
        case_mapped cong: option.case_cong if_cong)
  show ?thesis
    using assms by (cases "mu_op m") (simp_all add: validate_mutation_def c s p u a validate_retire_def validate_advance_def)
qed

lemma idempotent_forget [simp]:
  "is_idempotent (forget img) m = is_idempotent img m" "content_unchanged (forget img) m = content_unchanged img m"
  "bump (forget img) m = bump img m"
  by (simp_all add: is_idempotent_def content_unchanged_def bump_def entity_generation_def case_mapped comp_def option.map_comp
      cong: option.case_cong split: mutation_op.split)

section \<open>Operations change it the same way\<close>

lemma update_all_put: "om_update_all f (om_put k v m) = om_put k (f k v) (om_update_all f m)"
  by (induction k v m rule: om_put.induct) (auto simp: om_update_all_def)

lemma update_all_twice: "om_update_all f (om_update_all g m) = om_update_all (\<lambda>k v. f k (g k v)) m"
  by (simp add: om_update_all_def case_prod_unfold)

lemma plain_twice [simp]:
  "anonymous (anonymous p) = anonymous p" "settled (settled s) = settled s" "plain_class (plain_class e) = plain_class e"
  "plain_scope (plain_scope f) = plain_scope f" "plain_policy (plain_policy g) = plain_policy g"
  "plain_subject (plain_subject h) = plain_subject h" "plain_assignment (plain_assignment a) = plain_assignment a"
  "plain_authority (plain_authority b) = plain_authority b"
  by (simp_all add: anonymous_def settled_def plain_class_def plain_scope_def plain_policy_def plain_subject_def
      plain_assignment_def plain_authority_def)

lemma forget_twice [simp]: "forget (forget img) = forget img"
  by (simp add: forget_def update_all_twice)

lemma refresh_update_all:
  assumes "\<And>k e. f k (set_p p e) = f k (set_p (anonymous p) (f k e))" "\<And>k e. f k (f k e) = f k e"
  shows "om_update_all f (refresh set_p (anonymous p) k (om_update_all f m)) = om_update_all f (refresh set_p p k m)"
  using assms(1)[symmetric] assms(2) by (simp add: refresh_def update_all_put update_all_twice split: option.split)

lemmas refresh_plain =
  refresh_update_all[where f = "\<lambda>_. plain_class" and set_p = "\<lambda>p e. e\<lparr>ce_provenance := p\<rparr>"]
  refresh_update_all[where f = "\<lambda>_. plain_scope" and set_p = "\<lambda>p e. e\<lparr>se_provenance := p\<rparr>"]
  refresh_update_all[where f = "\<lambda>_. plain_policy" and set_p = "\<lambda>p e. e\<lparr>pe_provenance := p\<rparr>"]
  refresh_update_all[where f = "\<lambda>_. plain_subject" and set_p = "\<lambda>p e. e\<lparr>ue_provenance := p\<rparr>"]
  refresh_update_all[where f = "\<lambda>_. plain_assignment" and set_p = "\<lambda>p e. e\<lparr>ae_provenance := p\<rparr>"]

lemma plain_updates [simp]:
  "plain_class ((plain_class e)\<lparr>ce_provenance := anonymous p\<rparr>) = plain_class (e\<lparr>ce_provenance := p\<rparr>)"
  "plain_scope ((plain_scope f)\<lparr>se_provenance := anonymous p\<rparr>) = plain_scope (f\<lparr>se_provenance := p\<rparr>)"
  "plain_policy ((plain_policy g)\<lparr>pe_provenance := anonymous p\<rparr>) = plain_policy (g\<lparr>pe_provenance := p\<rparr>)"
  "plain_subject ((plain_subject h)\<lparr>ue_provenance := anonymous p\<rparr>) = plain_subject (h\<lparr>ue_provenance := p\<rparr>)"
  "plain_assignment ((plain_assignment a)\<lparr>ae_provenance := anonymous p\<rparr>) = plain_assignment (a\<lparr>ae_provenance := p\<rparr>)"
  "plain_assignment ((plain_assignment a)\<lparr>ae_assignment := d, ae_active := b, ae_retirement_reason := r, ae_retired_by := anonymous p\<rparr>) =
     plain_assignment (a\<lparr>ae_assignment := d, ae_active := b, ae_retirement_reason := r, ae_retired_by := p\<rparr>)"
  "plain_authority ((plain_authority i)\<lparr>he_state := q, he_provenance := anonymous p\<rparr>) = plain_authority (i\<lparr>he_state := q, he_provenance := p\<rparr>)"
  by (simp_all add: plain_class_def plain_scope_def plain_policy_def plain_subject_def plain_assignment_def plain_authority_def)

lemma plain_make [simp]:
  "plain_class \<lparr>ce_definition = c, ce_provenance = anonymous p\<rparr> = plain_class \<lparr>ce_definition = c, ce_provenance = p\<rparr>"
  "plain_scope \<lparr>se_definition = s, se_provenance = anonymous p\<rparr> = plain_scope \<lparr>se_definition = s, se_provenance = p\<rparr>"
  "plain_policy \<lparr>pe_definition = q, pe_provenance = anonymous p\<rparr> = plain_policy \<lparr>pe_definition = q, pe_provenance = p\<rparr>"
  "plain_subject \<lparr>ue_definition = u, ue_provenance = anonymous p\<rparr> = plain_subject \<lparr>ue_definition = u, ue_provenance = p\<rparr>"
  "plain_assignment \<lparr>ae_assignment = a, ae_provenance = anonymous p, ae_active = b, ae_retirement_reason = r, ae_retired_by = n\<rparr> =
     plain_assignment \<lparr>ae_assignment = a, ae_provenance = p, ae_active = b, ae_retirement_reason = r, ae_retired_by = n\<rparr>"
  "plain_authority \<lparr>he_publisher = i, he_boot = j, he_epoch = k, he_token = l, he_state = w, he_provenance = anonymous p\<rparr> =
     plain_authority \<lparr>he_publisher = i, he_boot = j, he_epoch = k, he_token = l, he_state = w, he_provenance = p\<rparr>"
  by (simp_all add: plain_class_def plain_scope_def plain_policy_def plain_subject_def plain_assignment_def plain_authority_def)

text \<open>Expiring or superseding a grant is invisible.\<close>

lemma plain_settles [simp]:
  "he_state e = Granted \<Longrightarrow> q \<noteq> Fenced \<Longrightarrow> plain_authority (e\<lparr>he_state := q\<rparr>) = plain_authority e"
  by (cases e) (simp add: plain_authority_def settled_def)

lemma settled_simps [simp]: "settled s \<noteq> Granted" "settled s = Fenced \<longleftrightarrow> s = Fenced" "settled Fenced = Fenced"
  by (auto simp: settled_def)

lemma plain_expired [simp]:
  "plain_authority (if he_state e = Granted \<and> c then e\<lparr>he_state := Expired\<rparr> else e) = plain_authority e"
  "plain_authority (if he_state e = Granted then e\<lparr>he_state := Expired\<rparr> else e) = plain_authority e"
  "plain_authority (if a \<and> c \<and> he_state e = Granted then e\<lparr>he_state := Superseded\<rparr> else e) = plain_authority e"
  by simp_all

lemmas forget_update_simps = forget_def update_all_twice update_all_put refresh_plain

lemma operation_forget:
  "map_sum id forget (apply_op (forget img) m b (anonymous p)) = map_sum id forget (apply_op img m b p)"
proof (cases b)
  case False
  have "map_sum id forget (apply_class (forget img) m (anonymous p)) = map_sum id forget (apply_class img m p)"
    by (simp add: apply_class_def Let_def) (simp add: forget_update_simps)
  moreover have "map_sum id forget (apply_scope (forget img) m (anonymous p)) = map_sum id forget (apply_scope img m p)"
    by (simp add: apply_scope_def Let_def) (simp add: forget_update_simps)
  moreover have "map_sum id forget (apply_policy (forget img) m (anonymous p)) = map_sum id forget (apply_policy img m p)"
    by (simp add: apply_policy_def Let_def) (simp add: forget_update_simps)
  moreover have "map_sum id forget (apply_subject (forget img) m (anonymous p)) = map_sum id forget (apply_subject img m p)"
    by (simp add: apply_subject_def Let_def) (simp add: forget_update_simps)
  moreover have "map_sum id forget (apply_assign (forget img) m (anonymous p)) = map_sum id forget (apply_assign img m p)"
    by (simp add: apply_assign_def Let_def) (simp add: forget_update_simps)
  moreover have "map_sum id forget (apply_retire (forget img) m (anonymous p)) = map_sum id forget (apply_retire img m p)"
    by (simp add: apply_retire_def case_mapped split: option.split) (simp add: forget_update_simps)
  moreover have "map_sum id forget (apply_fence (forget img) m (anonymous p)) = map_sum id forget (apply_fence img m p)"
    by (simp add: apply_fence_def Let_def case_mapped split: option.split) (simp add: forget_update_simps)
  moreover have "map_sum id forget (apply_advance (forget img)) = map_sum id forget (apply_advance img)"
    by (simp add: apply_advance_def split: option.split) (simp add: forget_update_simps)
  moreover have "map_sum id forget (apply_grant (forget img) m (anonymous p)) = map_sum id forget (apply_grant img m p)"
    by (simp add: apply_grant_def Let_def) (simp add: forget_update_simps)
  ultimately show ?thesis using False by (simp add: apply_op_def split: mutation_op.split)
qed (simp add: apply_op_def)

section \<open>Agreement\<close>

text \<open>The replayed image agrees with the live one when they are equal up to \<open>forget\<close> and every
  grant the live image honours is also granted in the replayed one.\<close>

definition covers :: "authority_key \<times> authority_entry \<Rightarrow> authority_key \<times> authority_entry \<Rightarrow> bool" where
  "covers x y \<longleftrightarrow> fst x = fst y \<and> (he_state (snd y) = Granted \<longrightarrow> he_state (snd x) = Granted)"

lemma covers_pair [simp]: "covers (k, e) (k', e') \<longleftrightarrow> k = k' \<and> (he_state e' = Granted \<longrightarrow> he_state e = Granted)"
  by (simp add: covers_def)

definition agrees :: "state_image \<Rightarrow> state_image \<Rightarrow> bool" where
  "agrees j r \<longleftrightarrow> forget j = forget r \<and> list_all2 covers (im_authority j) (im_authority r)"

lemma agrees_refl [simp]: "agrees img img"
  by (simp add: agrees_def covers_def list.rel_refl)

lemma forget_eqD:
  assumes "forget j = forget r"
  shows "im_epoch j = im_epoch r" "im_generation j = im_generation r" "im_last_sequence j = im_last_sequence r"
    "im_next_fencing_token j = im_next_fencing_token r" "im_limits j = im_limits r" "im_health j = im_health r"
    "om_update_all (\<lambda>_. plain_authority) (im_authority j) = om_update_all (\<lambda>_. plain_authority) (im_authority r)"
  using arg_cong[OF assms, of im_epoch] arg_cong[OF assms, of im_generation] arg_cong[OF assms, of im_last_sequence]
    arg_cong[OF assms, of im_next_fencing_token] arg_cong[OF assms, of im_limits] arg_cong[OF assms, of im_health]
    arg_cong[OF assms, of im_authority] by simp_all

lemmas agreesD = forget_eqD[OF agrees_def[THEN iffD1, THEN conjunct1]]

lemma forget_audit [simp]: "forget (with_audit n log img) = forget img"
  by (simp add: forget_def with_audit_def)

lemma forget_expire [simp]: "forget (expire_grants img) = forget img"
  by (simp add: forget_def expire_grants_def update_all_twice)

lemma agrees_audit: "agrees j r \<Longrightarrow> agrees (with_audit n log j) (with_audit n' log' r)"
  by (simp add: agrees_def frame_simps)

lemma agrees_refused: "agrees j r \<Longrightarrow> agrees j (with_audit n log r)"
  by (simp add: agrees_def frame_simps)

lemma agrees_expire: "agrees j r \<Longrightarrow> agrees j (expire_grants r)"
proof -
  have "list_all2 covers js rs \<Longrightarrow> list_all2 covers js
      (om_update_all (\<lambda>_ e. if he_state e = Granted then e\<lparr>he_state := Expired\<rparr> else e) rs)" for js rs
    by (induction rule: list_all2_induct) (auto simp: om_update_all_def)
  then show "agrees j r \<Longrightarrow> agrees j (expire_grants r)" unfolding agrees_def forget_expire by (simp add: expire_grants_def)
qed

lemma forget_counters:
  "forget (img\<lparr>im_last_sequence := n\<rparr>) = (forget img)\<lparr>im_last_sequence := n\<rparr>"
  "forget (img\<lparr>im_generation := g\<rparr>) = (forget img)\<lparr>im_generation := g\<rparr>"
  by (simp_all add: forget_def)

lemma agrees_counters:
  "agrees j r \<Longrightarrow> agrees (j\<lparr>im_last_sequence := n\<rparr>) (r\<lparr>im_last_sequence := n\<rparr>)"
  "agrees j r \<Longrightarrow> agrees (j\<lparr>im_generation := g\<rparr>) (r\<lparr>im_generation := g\<rparr>)"
  by (simp_all add: agrees_def forget_counters)

lemma covers_find:
  "list_all2 covers js rs \<Longrightarrow> om_find rs k = Some e \<Longrightarrow>
     \<exists>e'. om_find js k = Some e' \<and> (he_state e = Granted \<longrightarrow> he_state e' = Granted)"
  by (induction rule: list_all2_induct) (auto split: if_splits)

lemma covers_put:
  "list_all2 covers js rs \<Longrightarrow> (he_state v' = Granted \<longrightarrow> he_state v = Granted) \<Longrightarrow>
     list_all2 covers (om_put k v js) (om_put k v' rs)"
  by (induction rule: list_all2_induct) auto

lemma covers_update_all:
  "list_all2 covers js rs \<Longrightarrow> (\<And>k e e'. (he_state e' = Granted \<longrightarrow> he_state e = Granted) \<Longrightarrow>
      he_state (f k e') = Granted \<longrightarrow> he_state (f k e) = Granted) \<Longrightarrow>
     list_all2 covers (om_update_all f js) (om_update_all f rs)"
  by (induction rule: list_all2_induct) (auto simp: om_update_all_def)

section \<open>The live image drives the replayed one\<close>

lemma check_authority_agrees:
  assumes "agrees j r" "check_authority r m = Inr ()"
  shows "check_authority j m = Inr ()"
proof -
  note f = agreesD[OF assms(1)]
  obtain e where e: "om_find (im_authority r) (mu_publisher m, mu_boot m) = Some e" "he_state e = Granted"
      "he_epoch e = im_epoch r" "he_token e = mu_token m"
    and shape: "id_valid (mu_publisher m)" "\<not> boot_is_zero (mu_boot m)" "is_established (im_epoch r)" "mu_epoch m = im_epoch r"
    using assms(2) by (auto simp: check_authority_def split: if_splits option.splits)
  obtain e' where e': "om_find (im_authority j) (mu_publisher m, mu_boot m) = Some e'" "he_state e' = Granted"
    using covers_find[OF _ e(1)] assms(1) e(2) by (auto simp: agrees_def)
  have "plain_authority e' = plain_authority e"
    using arg_cong[OF f(7), of "\<lambda>m'. om_find m' (mu_publisher m, mu_boot m)"] e(1) e'(1) by simp
  then have "he_epoch e' = he_epoch e" "he_token e' = he_token e"
    by (metis plain_sel(8), metis plain_sel(9))
  then show ?thesis using e e' shape f(1) by (simp add: check_authority_def)
qed

lemma grant_scan_agrees:
  "list_all2 covers js rs \<Longrightarrow> om_update_all (\<lambda>_. plain_authority) js = om_update_all (\<lambda>_. plain_authority) rs \<Longrightarrow>
     grant_scan m rs n = Inr x \<Longrightarrow> grant_scan m js n = Inr None \<or> grant_scan m js n = Inr x"
proof (induction arbitrary: n rule: list_all2_induct)
  case (Cons a js b rs)
  obtain k e k' e' where ab: "a = (k, e)" "b = (k', e')" by (metis surj_pair)
  have k: "k' = k" "plain_authority e = plain_authority e'" "he_state e' = Granted \<longrightarrow> he_state e = Granted"
    using Cons.hyps Cons.prems(1) ab by (simp_all add: om_update_all_def)
  then have "he_state e = Fenced \<longleftrightarrow> he_state e' = Fenced" by (metis plain_sel(10) settled_simps(2))
  then show ?case using Cons.IH Cons.prems k ab by (auto simp: om_update_all_def split: if_splits)
qed simp

lemma validate_agrees:
  assumes "agrees j r" "validate_mutation r m = Inr ()"
  shows "validate_mutation j m = Inr ()"
proof (cases "mu_op m = GrantAuthority")
  case True
  note f = agreesD[OF assms(1)]
  have "grant_scan m (im_authority r) 0 \<noteq> Inl e" for e
    using assms(2) True by (auto simp: validate_mutation_def validate_grant_def split: if_splits)
  then obtain x where x: "grant_scan m (im_authority r) 0 = Inr x" by (cases "grant_scan m (im_authority r) 0") auto
  then have "grant_scan m (im_authority j) 0 = Inr None \<or> grant_scan m (im_authority j) 0 = Inr x"
    using grant_scan_agrees[OF _ f(7)] assms(1) by (simp add: agrees_def)
  then show ?thesis using assms(2) True x f(5)
    by (auto simp: validate_mutation_def validate_grant_def split: if_splits option.splits)
next
  case False
  then show ?thesis using assms validate_forget[of m j] validate_forget[of m r] by (simp add: agrees_def)
qed

lemma idempotent_agrees: "agrees j r \<Longrightarrow> is_idempotent j m = is_idempotent r m"
  by (metis agrees_def idempotent_forget(1))

lemma admit_agrees:
  assumes "agrees j r" "admit r m False = Inr x"
  shows "admit j m False = Inr x"
proof -
  have v: "validate_mutation r m = Inr ()" and c: "mu_system m \<or> check_authority r m = Inr ()"
    using assms(2) admit_ok(1,3)[of r m False "fst x" "snd x"] by simp_all
  have "im_generation j = im_generation r" by (rule agreesD(2)[OF assms(1)])
  moreover have "is_idempotent j m = is_idempotent r m" by (rule idempotent_agrees[OF assms(1)])
  moreover have "(if \<not> False \<and> \<not> mu_system m then check_authority j m else Inr ()) = Inr ()"
      "(if \<not> False \<and> \<not> mu_system m then check_authority r m else Inr ()) = Inr ()"
    using c check_authority_agrees[OF assms(1)] by auto
  ultimately show ?thesis
    using assms(2) validate_agrees[OF assms(1) v] v unfolding admit_def Let_def by (simp cong: if_cong)
qed

lemma authority_op_covers:
  assumes "list_all2 covers (im_authority j) (im_authority r)"
    and "apply_op j m b p = Inr j'" "apply_op r m b q = Inr r'" "im_epoch j = im_epoch r"
    and "om_update_all (\<lambda>_. plain_authority) (im_authority j) = om_update_all (\<lambda>_. plain_authority) (im_authority r)"
  shows "list_all2 covers (im_authority j') (im_authority r')"
proof (cases "b \<or> mu_op m \<notin> {GrantAuthority, FenceAuthority, AdvanceEpoch}")
  case True
  then have "im_authority j' = im_authority j" "im_authority r' = im_authority r"
    using assms(2,3) by (auto simp: op_defs split: if_splits option.splits mutation_op.splits)
  then show ?thesis using assms(1) by simp
next
  case False
  then consider "mu_op m = GrantAuthority" | "mu_op m = FenceAuthority" | "mu_op m = AdvanceEpoch" by blast
  then show ?thesis
  proof cases
    case 1
    then show ?thesis
      using False assms(2,3) by (auto simp: op_defs split: if_splits intro!: covers_put covers_update_all[OF assms(1)])
  next
    case 2
    then show ?thesis
      using False assms(2,3) by (auto simp: op_defs split: option.splits intro!: covers_put assms(1))
  next
    case 3
    have epochs: "list_all2 covers js rs \<Longrightarrow> om_update_all (\<lambda>_. plain_authority) js = om_update_all (\<lambda>_. plain_authority) rs \<Longrightarrow>
       list_all2 covers (om_update_all (\<lambda>_ e. if he_state e = Granted \<and> he_epoch e \<noteq> n then e\<lparr>he_state := Expired\<rparr> else e) js)
        (om_update_all (\<lambda>_ e. if he_state e = Granted \<and> he_epoch e \<noteq> n then e\<lparr>he_state := Expired\<rparr> else e) rs)" for js rs n
    proof (induction rule: list_all2_induct)
      case (Cons x js y rs)
      then have "he_epoch (snd x) = he_epoch (snd y)" by (cases x; cases y) (auto simp: om_update_all_def dest: arg_cong[of _ _ he_epoch])
      then show ?case using Cons by (cases x; cases y) (auto simp: om_update_all_def)
    qed (simp add: om_update_all_def)
    show ?thesis using 3 False assms(2,3,4) epochs[OF assms(1,5)] by (auto simp: op_defs split: option.splits)
  qed
qed

lemma anonymous_provenance: "anonymous (mutation_provenance j m g) = anonymous (mutation_provenance r m g)"
  by (simp add: anonymous_def mutation_provenance_def)

lemma operation_agrees:
  assumes "agrees j r" "apply_op r m b (mutation_provenance r m g) = Inr r'"
  shows "\<exists>j'. apply_op j m b (mutation_provenance j m g) = Inr j' \<and> agrees j' r'"
proof -
  let ?p = "mutation_provenance j m g" and ?q = "mutation_provenance r m g"
  have "map_sum id forget (apply_op j m b ?p) = map_sum id forget (apply_op (forget j) m b (anonymous ?p))"
    by (rule operation_forget[symmetric])
  also have "\<dots> = map_sum id forget (apply_op (forget r) m b (anonymous ?q))"
    using assms(1) anonymous_provenance[of j m g r] by (simp add: agrees_def)
  also have "\<dots> = map_sum id forget (apply_op r m b ?q)" by (rule operation_forget)
  finally have eq: "map_sum id forget (apply_op j m b ?p) = Inr (forget r')" using assms(2) by simp
  then obtain j' where j': "apply_op j m b ?p = Inr j'" "forget j' = forget r'"
    by (cases "apply_op j m b ?p") auto
  then show ?thesis
    using authority_op_covers[OF _ j'(1) assms(2) agreesD(1,7)[OF assms(1)]] assms(1) by (auto simp: agrees_def)
qed

text \<open>The simulation: a call the live image accepts is accepted by the replayed image, and the
  results agree.\<close>

lemma apply_agrees:
  assumes "agrees j r" "apply_mutation r m False = (r', Inr ())"
  shows "\<exists>j'. apply_mutation j m False = (j', Inr ()) \<and> agrees j' r'"
proof -
  have step: "apply_mutation i m False = (if idem then with_audit (im_next_audit_sequence i + 1) (audit_after i m g) i'
      else (with_audit (im_next_audit_sequence i + 1) (audit_after i m g) i')\<lparr>im_generation := g\<rparr>, Inr ())"
    if "admit i m False = Inr (idem, g)" "apply_op i m idem (mutation_provenance i m g) = Inr i'" for i idem g i'
    using that by (simp add: apply_mutation_def Let_def record_audit_eq with_audit_def[symmetric] apply_op_with_audit)
  show ?thesis
    using assms(2)
  proof (cases rule: apply_mutation_cases)
    case (identical g)
    then have "apply_op j m True (mutation_provenance j m g) = Inr j" by (simp add: apply_op_def)
    then show ?thesis
      using step[OF admit_agrees[OF assms(1) identical(1)]] identical agrees_audit[OF assms(1)] by simp
  next
    case (changed g r1)
    obtain j1 where j1: "apply_op j m False (mutation_provenance j m g) = Inr j1" "agrees j1 r1"
      using operation_agrees[OF assms(1) changed(3)] by blast
    show ?thesis
      using step[OF admit_agrees[OF assms(1) changed(1)] j1(1)] changed(4) agrees_counters(2)[OF agrees_audit[OF j1(2)]] by simp
  qed simp_all
qed

end
