(* ===== verification/Serving.thy ===== *)
theory Serving
  imports Runtime Agreement
begin

text \<open>
  Runs of the runtime over its durable store. The image it serves is not the one its journal
  replays to, since refusals and restarts change it without being journaled; the two agree, and
  a restart finds everything but the audit window and the grants.
\<close>

section \<open>A commit seen from both images\<close>

lemma plan_agrees:
  assumes "agrees j r" "plan_commit s m r = Inr x"
  shows "plan_commit s m j = Inr x"
proof -
  have v: "validate_mutation r m = Inr ()" using assms(2) by (auto simp: plan_commit_def Let_def ok_simps)
  have "planned_generation j m = planned_generation r m"
    using agreesD(2)[OF assms(1)] idempotent_agrees[OF assms(1), of m]
    by (simp add: planned_generation_def mutation_is_idempotent_def cong: option.case_cong)
  then show ?thesis
    using assms(2) v validate_agrees[OF assms(1) v] agreesD(6)[OF assms(1)]
    by (simp add: plan_commit_def Let_def ok_simps split: if_splits)
qed

lemma perform_agrees:
  assumes "agrees j r" "perform_commit env p payload s r d = (d', s', r', Inr ())"
  shows "\<exists>j'. perform_commit env p payload s j d = (d', s', j', Inr ()) \<and> agrees j' r'"
proof -
  obtain r1 where r1: "apply_mutation r p False = (r1, Inr ())" "r' = r1\<lparr>im_last_sequence := ds_next_sequence s\<rparr>"
    using perform_image[OF assms(2)] by blast
  obtain j1 where j1: "apply_mutation j p False = (j1, Inr ())" "agrees j1 r1" using apply_agrees[OF assms(1) r1(1)] by blast
  have "im_generation j1 = im_generation r1" by (rule agreesD(2)[OF j1(2)])
  then have "perform_commit env p payload s j d = (d', s', j1\<lparr>im_last_sequence := ds_next_sequence s\<rparr>, Inr ())"
    using assms(2) r1 j1(1)
    by (auto simp: perform_commit_def Let_def split: if_splits prod.splits sum.splits)
  then show ?thesis using agrees_counters(1)[OF j1(2)] r1(2) by blast
qed

lemma commit_agrees:
  assumes "agrees j r" "commit_mutation env m s r d = (d', s', r', Inr ())"
  shows "\<exists>j'. commit_mutation env m s j d = (d', s', j', Inr ()) \<and> agrees j' r'"
proof -
  obtain p payload where plan: "plan_commit s m r = Inr (p, payload)"
    using assms(2) by (cases "plan_commit s m r") (auto simp: commit_mutation_def)
  obtain d1 s1 r1 where roll: "roll_segment_if_needed env s d = (d1, s1, r1)" by (metis prod_cases3)
  then obtain u where r1: "r1 = Inr u" using assms(2) plan by (cases r1) (auto simp: commit_mutation_def)
  obtain d2 s2 r2 where app: "append_record env (encode_journal_record Pending (ds_next_sequence s1) payload (ds_key s1)) s1 d1 = (d2, s2, r2)"
    by (metis prod_cases3)
  then obtain v where r2: "r2 = Inr v" using assms(2) plan roll r1 by (cases r2) (auto simp: commit_mutation_def)
  have "perform_commit env p payload (s2\<lparr>ds_journal_records := Suc (ds_journal_records s2)\<rparr>) r d2 = (d', s', r', Inr ())"
    using assms(2) plan roll r1 app r2 by (simp add: commit_mutation_def)
  from perform_agrees[OF assms(1) this] show ?thesis
    using plan_agrees[OF assms(1) plan] roll r1 app r2 by (simp add: commit_mutation_def)
qed

section \<open>Runs\<close>

text \<open>What a sequence of calls does to the runtime: acknowledged commits, recorded refusals,
  counters, checkpoints, and restarts after a clean stop or with a torn record. A commit that
  fails after its pending record was written is left out: it spoils the journal for the next
  commit.\<close>

inductive serving :: "runtime_options \<Rightarrow> fabric_runtime \<Rightarrow> disk \<Rightarrow> bool" for opts where
  started: "calm (ce_io env) \<Longrightarrow> 0 < max_journal_segments (ro_limits opts) \<Longrightarrow>
    (\<And>n key. ev_entropy (ce_io env) n = Some key \<Longrightarrow> length key = n) \<Longrightarrow>
    open_runtime env opts Missing = (Directory d, Inr rt) \<Longrightarrow> serving opts rt d"
| committed: "serving opts rt d \<Longrightarrow> mutation_ok (ro_limits opts) m \<Longrightarrow>
    runtime_commit env m rt d = (d', rt', Inr outcome) \<Longrightarrow> serving opts rt' d'"
| refused: "serving opts rt d \<Longrightarrow> serving opts (refuse env name e actor rt) d"
| counted: "serving opts rt d \<Longrightarrow> serving opts (rt\<lparr>rt_stats := stats\<rparr>) d"
| checkpointed: "serving opts rt d \<Longrightarrow> snapshot_ok (rt_store rt) (rt_image rt) \<Longrightarrow>
    checkpoint io (rt_store rt) (rt_image rt) d = (d', s', Inr g) \<Longrightarrow> serving opts (rt\<lparr>rt_store := s'\<rparr>) d'"
| restarted: "serving opts rt d \<Longrightarrow> calm (ce_io env) \<Longrightarrow> measurable (locked (store_options_of opts) d) \<Longrightarrow>
    \<not> ro_advance_epoch_on_open opts \<Longrightarrow> t = [] \<or> torn (ds_key (rt_store rt)) (ro_limits opts) t \<Longrightarrow>
    unat (ds_segment_bytes (rt_store rt)) + length t \<le> max_state_bytes (ro_limits opts) \<Longrightarrow>
    open_runtime env opts (Directory (append_bytes (journal_segment_name (ds_segment_index (rt_store rt))) t d)) = (Directory d', Inr rt') \<Longrightarrow>
    serving opts rt' d'"

definition serving_image :: "runtime_options \<Rightarrow> fabric_runtime \<Rightarrow> disk \<Rightarrow> state_image \<Rightarrow> bool" where
  "serving_image opts rt d j \<longleftrightarrow> store_inv (rt_store rt) j d \<and> ds_options (rt_store rt) = store_options_of opts \<and>
     agrees j (rt_image rt) \<and> reachable (ro_limits opts) (rt_image rt) \<and> reachable (ro_limits opts) j \<and>
     im_health (rt_image rt) = Healthy"

lemma store_options_sel [simp]: "op_limits (store_options_of opts) = ro_limits opts"
  by (simp add: store_options_of_def)

lemma reachable_same_limits: "reachable l img \<Longrightarrow> img\<lparr>im_limits := l\<rparr> = img"
  using reachable_limits[of l img] by simp

lemma reachable_expire: "reachable l img \<Longrightarrow> reachable l (expire_grants img)"
  by (blast intro: reachable.step state_step.restart)

text \<open>Opening the store is opening the runtime, except for what happens to the image.\<close>

lemma open_runtime_store:
  assumes "open_runtime env opts p = (Directory d, Inr rt)"
  obtains img report s rt0 boot d0 where
      "open_store (ce_io env) (store_options_of opts) (empty_image compiled_limits_ceiling) report_default p = (Directory d0, img, report, Inr s)"
      "rt0 = opened_runtime env opts boot img s"
      "\<not> (ro_advance_epoch_on_open opts \<and> is_established (im_epoch (rt_image rt0)) \<and> im_health (rt_image rt0) = Healthy) \<Longrightarrow>
        rt = count_recovery rt0 \<and> d0 = d"
proof -
  obtain boot where boot: "choose_boot env opts = Inr boot"
    using assms by (auto simp: open_runtime_def split: if_splits sum.splits)
  obtain p1 img report r where o: "open_store (ce_io env) (store_options_of opts) (empty_image compiled_limits_ceiling) report_default p = (p1, img, report, r)"
    by (metis prod_cases4)
  then obtain s where r: "r = Inr s" using assms boot by (cases r) (auto simp: open_runtime_def split: if_splits)
  define rt0 where "rt0 = opened_runtime env opts boot img s"
  note run = assms[unfolded open_runtime_def boot o r Let_def, simplified]
  have "\<exists>d0. p1 = Directory d0" using run by (cases p1) (auto simp: Let_def split: if_splits)
  then obtain d0 where d0: "p1 = Directory d0" by blast
  show ?thesis
  proof (rule that[OF o[unfolded d0 r] rt0_def])
    show "rt = count_recovery rt0 \<and> d0 = d"
      if "\<not> (ro_advance_epoch_on_open opts \<and> is_established (im_epoch (rt_image rt0)) \<and> im_health (rt_image rt0) = Healthy)"
      using run that d0 by (auto simp: rt0_def split: if_splits)
  qed
qed

lemma opened_image:
  "rt_image (count_recovery (opened_runtime env opts boot img s)) = expire_grants (img\<lparr>im_limits := ro_limits opts\<rparr>)"
  "rt_store (count_recovery (opened_runtime env opts boot img s)) = s"
  by (simp_all add: count_recovery_def opened_runtime_def)

lemma expire_empty: "expire_grants (empty_image l) = empty_image l"
  by (simp add: expire_grants_def empty_image_def om_update_all_def)

lemma started_image:
  assumes "calm (ce_io env)" "0 < max_journal_segments (ro_limits opts)"
    and "\<And>n key. ev_entropy (ce_io env) n = Some key \<Longrightarrow> length key = n"
    and "open_runtime env opts Missing = (Directory d, Inr rt)"
  shows "serving_image opts rt d (empty_image (ro_limits opts))"
proof -
  obtain img report s rt0 boot d0 where
      o: "open_store (ce_io env) (store_options_of opts) (empty_image compiled_limits_ceiling) report_default Missing = (Directory d0, img, report, Inr s)"
    and rt0: "rt0 = opened_runtime env opts boot img s"
    and stay: "\<not> (ro_advance_epoch_on_open opts \<and> is_established (im_epoch (rt_image rt0)) \<and> im_health (rt_image rt0) = Healthy) \<Longrightarrow>
        rt = count_recovery rt0 \<and> d0 = d"
    by (rule open_runtime_store[OF assms(4)]) blast
  note c = created_empty[OF assms(1) _ assms(3) o]
  have c: "img = empty_image (ro_limits opts)" "ds_options s = store_options_of opts" "store_inv s img d0"
    using c assms(2) by simp_all
  have "img\<lparr>im_limits := ro_limits opts\<rparr> = img" by (simp add: c(1) empty_image_def)
  then have i: "rt_image (count_recovery rt0) = empty_image (ro_limits opts)" "rt_store (count_recovery rt0) = s"
    by (simp_all add: rt0 opened_image expire_empty c(1))
  then have "\<not> is_established (im_epoch (rt_image rt0))"
    by (simp add: count_recovery_def empty_image_def is_established_def)
  then have "rt = count_recovery rt0" "d0 = d" using stay by simp_all
  then show ?thesis
    using i c reachable.initial[of "ro_limits opts"] by (simp add: serving_image_def) (simp add: empty_image_def)
qed

lemma runtime_commit_ok:
  assumes "runtime_commit env m rt d = (d', rt', Inr outcome)"
  shows "\<exists>s' r'. commit_mutation (ce_io env) m (rt_store rt) (rt_image rt) d = (d', s', r', Inr ()) \<and>
    rt' = rt\<lparr>rt_store := s', rt_image := r'\<rparr>"
proof -
  obtain d1 s1 r1 q where c: "commit_mutation (ce_io env) m (rt_store rt) (rt_image rt) d = (d1, s1, r1, q)" by (metis prod_cases4)
  then have "q = Inr ()" using assms by (cases q) (simp_all add: runtime_commit_def Let_def)
  then show ?thesis using assms c by (simp add: runtime_commit_def Let_def)
qed

lemma committed_image_step:
  assumes "serving_image opts rt d j" "mutation_ok (ro_limits opts) m" "runtime_commit env m rt d = (d', rt', Inr outcome)"
  shows "\<exists>j'. serving_image opts rt' d' j'"
proof -
  note i = assms(1)[unfolded serving_image_def]
  obtain s' r' where c: "commit_mutation (ce_io env) m (rt_store rt) (rt_image rt) d = (d', s', r', Inr ())"
      "rt' = rt\<lparr>rt_store := s', rt_image := r'\<rparr>"
    using runtime_commit_ok[OF assms(3)] by blast
  obtain j' where j': "commit_mutation (ce_io env) m (rt_store rt) j d = (d', s', j', Inr ())" "agrees j' r'"
    using commit_agrees[OF _ c(1)] i by blast
  have inv: "store_inv s' j' d'" "ds_options s' = store_options_of opts"
    using commit_outcome(1)[OF _ _ j'(1)] i assms(2) by simp_all
  have reach: "reachable (ro_limits opts) b" if start: "reachable (ro_limits opts) a" and run: "commit_mutation (ce_io env) m (rt_store rt) a d = (d', s', b, Inr ())" for a b
  proof -
    obtain a1 where "apply_mutation a (planned a m) False = (a1, Inr ())" "b = a1\<lparr>im_last_sequence := ds_next_sequence (rt_store rt)\<rparr>"
      using commit_image[OF run] by blast
    then show ?thesis using start by (metis reachable.step state_step.call state_step.position)
  qed
  obtain r1 where r1: "apply_mutation (rt_image rt) (planned (rt_image rt) m) False = (r1, Inr ())"
      "r' = r1\<lparr>im_last_sequence := ds_next_sequence (rt_store rt)\<rparr>"
    using commit_image[OF c(1)] by blast
  have "im_health r' = Healthy" using same_health.apply_mutation_inv[OF _ r1(1)] i r1(2) by simp
  then show ?thesis using inv j' c reach[OF _ j'(1)] reach[OF _ c(1)] i by (auto simp: serving_image_def)
qed

lemma restarted_image:
  assumes "serving_image opts rt d j" "calm (ce_io env)" "measurable (locked (store_options_of opts) d)" "\<not> ro_advance_epoch_on_open opts"
    and "t = [] \<or> torn (ds_key (rt_store rt)) (ro_limits opts) t"
    and "unat (ds_segment_bytes (rt_store rt)) + length t \<le> max_state_bytes (ro_limits opts)"
    and "open_runtime env opts (Directory (append_bytes (journal_segment_name (ds_segment_index (rt_store rt))) t d)) = (Directory d', Inr rt')"
  shows "serving_image opts rt' d' j \<and> d' = locked (store_options_of opts) d \<and> rt_image rt' = expire_grants j"
proof -
  note i = assms(1)[unfolded serving_image_def]
  obtain img report s rt0 boot d0 where
      o: "open_store (ce_io env) (store_options_of opts) (empty_image compiled_limits_ceiling) report_default
        (Directory (append_bytes (journal_segment_name (ds_segment_index (rt_store rt))) t d)) = (Directory d0, img, report, Inr s)"
    and rt0: "rt0 = opened_runtime env opts boot img s"
    and stay: "\<not> (ro_advance_epoch_on_open opts \<and> is_established (im_epoch (rt_image rt0)) \<and> im_health (rt_image rt0) = Healthy) \<Longrightarrow>
        rt' = count_recovery rt0 \<and> d0 = d'"
    by (rule open_runtime_store[OF assms(7)]) blast
  have "ev_directory (ce_io env) \<noteq> []" using open_store_given[OF o] by simp
  moreover have "im_health j \<noteq> Degraded" using i agreesD(6)[of j "rt_image rt"] by simp
  ultimately obtain report' s' where "open_store (ce_io env) (store_options_of opts) (empty_image compiled_limits_ceiling) report_default
      (Directory (append_bytes (journal_segment_name (ds_segment_index (rt_store rt))) t d)) =
      (Directory (locked (store_options_of opts) d), j, report', Inr s')"
      "ds_options s' = store_options_of opts" "store_inv s' j (locked (store_options_of opts) d)"
    using open_existing[OF assms(2), of "rt_store rt" j d t "empty_image compiled_limits_ceiling" report_default] i assms(3,5,6) by auto
  then have s: "img = j" "s = s'" "d0 = locked (store_options_of opts) d" "ds_options s = store_options_of opts" "store_inv s j d0"
    using o by auto
  have rt': "rt' = count_recovery rt0" "d' = d0" using stay assms(4) by simp_all
  have "j\<lparr>im_limits := ro_limits opts\<rparr> = j" using i by (simp add: reachable_same_limits)
  then have r: "rt_image rt' = expire_grants j" "rt_store rt' = s" by (simp_all add: rt' rt0 opened_image s(1))
  have "im_health (expire_grants j) = Healthy" using i agreesD(6)[of j "rt_image rt"] by (simp add: expire_grants_def)
  then show ?thesis using i s r rt' agrees_expire[OF agrees_refl, of j] reachable_expire[of "ro_limits opts" j] by (simp add: serving_image_def)
qed

lemma serving_inv: "serving opts rt d \<Longrightarrow> \<exists>j. serving_image opts rt d j"
proof (induction rule: serving.induct)
  case (started env d rt)
  then show ?case using started_image by blast
next
  case (committed rt d m env d' rt' outcome)
  then show ?case using committed_image_step by blast
next
  case (refused rt d env name e actor)
  then obtain j where i: "serving_image opts rt d j" by blast
  let ?img = "record_rejection env (rt_limits rt) name e actor (rt_image rt)"
  have "state_step (rt_image rt) ?img" unfolding record_rejection_def by (rule state_step.refusal)
  moreover have "agrees j ?img" unfolding record_rejection_def
    by (subst refused_audit) (use i in \<open>simp add: serving_image_def agrees_refused\<close>)
  moreover have "im_health ?img = im_health (rt_image rt)" by (simp add: record_rejection_def frame_simps)
  ultimately show ?case
    using i by (auto simp: serving_image_def refuse_def count_rejected_def intro: reachable.step)
next
  case (counted rt d stats)
  then show ?case by (auto simp: serving_image_def)
next
  case (checkpointed rt d io d' s' g)
  then obtain j where i: "serving_image opts rt d j" by blast
  have "im_last_sequence (rt_image rt) = im_last_sequence j" using agreesD(3)[of j "rt_image rt"] i by (simp add: serving_image_def)
  from checkpoint_inv[OF _ this checkpointed(2,3)] i show ?case by (auto simp: serving_image_def)
next
  case (restarted rt d env t d' rt')
  then show ?case using restarted_image by blast
qed

end
