(* ===== verification/Calls.thy ===== *)
theory Calls
  imports Serving
begin

text \<open>
  The calls of the runtime as one interface: every call that needs a session ends in one of four
  ways, and what the runtime promises about sessions, refusals, restarts and statistics follows
  from that.
\<close>

section \<open>The calls that need a session\<close>

datatype runtime_call =
    Advance_epoch string
  | Fence publisher_id boot_id string
  | Define_class priority_class_def
  | Define_scope policy_scope_def
  | Define_policy policy_def
  | Define_subject subject_def
  | Publish priority_assignment
  | Retire assignment_id string

definition perform_call :: "call_env \<Rightarrow> fabric_session \<Rightarrow> runtime_call \<Rightarrow> handle \<Rightarrow> disk \<Rightarrow> disk \<times> handle \<times> u64 result" where
  "perform_call env actor c h d =
     (case c of
        Advance_epoch reason \<Rightarrow> advance_epoch env actor reason h d
      | Fence publisher boot reason \<Rightarrow>
          (case fence env actor publisher boot reason h d of (d', h', r) \<Rightarrow> (d', h', map_sum id (\<lambda>_. 0) r))
      | Define_class x \<Rightarrow> define_class env actor x h d
      | Define_scope x \<Rightarrow> define_scope env actor x h d
      | Define_policy x \<Rightarrow> define_policy env actor x h d
      | Define_subject x \<Rightarrow> define_subject env actor x h d
      | Publish a \<Rightarrow> assign env actor a h d
      | Retire i reason \<Rightarrow> retire_assignment env actor i reason h d)"

text \<open>The mutation a call commits.\<close>

definition call_mutation :: "call_env \<Rightarrow> fabric_session \<Rightarrow> state_image \<Rightarrow> runtime_call \<Rightarrow> mutation result" where
  "call_mutation env actor img c =
     (case c of
        Advance_epoch reason \<Rightarrow> Inr (base_mutation_of env actor AdvanceEpoch (or_else reason ''epoch advanced''))
      | Fence publisher boot reason \<Rightarrow>
          Inr ((base_mutation_of env actor FenceAuthority (or_else reason ''fenced''))\<lparr>mu_fence_publisher := publisher, mu_fence_boot := boot\<rparr>)
      | Define_class x \<Rightarrow> Inr ((base_mutation_of env actor DefineClass ''define class'')\<lparr>mu_cls := x\<lparr>cd_generation := gen_unset\<rparr>\<rparr>)
      | Define_scope x \<Rightarrow> Inr ((base_mutation_of env actor DefineScope ''define scope'')\<lparr>mu_scope := x\<lparr>sd_generation := gen_unset\<rparr>\<rparr>)
      | Define_policy x \<Rightarrow>
          map_sum id (\<lambda>p. (base_mutation_of env actor DefinePolicy ''define policy'')\<lparr>mu_policy := p\<rparr>) (stamp_policy img x)
      | Define_subject x \<Rightarrow> Inr ((base_mutation_of env actor DefineSubject ''define subject'')\<lparr>mu_subject := x\<lparr>ud_generation := gen_unset\<rparr>\<rparr>)
      | Publish a \<Rightarrow> map_sum id (\<lambda>s. (base_mutation_of env actor Assign ''assign'')\<lparr>mu_assignment := s\<rparr>) (stamp_assignment img a)
      | Retire i reason \<Rightarrow> Inr ((base_mutation_of env actor RetireAssignment (or_else reason ''retired''))\<lparr>mu_retire_target := i\<rparr>))"

lemma map_sum_Inr: "map_sum f g x = Inr y \<longleftrightarrow> (\<exists>z. x = Inr z \<and> y = g z)"
  by (cases x) auto

lemma call_mutation_binding:
  "call_mutation env actor img c = Inr m \<Longrightarrow>
     mu_publisher m = fs_publisher actor \<and> mu_boot m = fs_boot actor \<and> mu_token m = fs_token actor \<and>
     mu_epoch m = fs_epoch actor \<and> \<not> mu_system m"
  by (cases c) (auto simp: call_mutation_def base_mutation_of_def mutation_default_def map_sum_Inr)

definition only_stats :: "(commit_result \<Rightarrow> fabric_runtime \<Rightarrow> fabric_runtime \<times> 'a) \<Rightarrow> bool" where
  "only_stats answer \<longleftrightarrow> (\<forall>outcome rt. \<exists>stats. fst (answer outcome rt) = rt\<lparr>rt_stats := stats\<rparr>)"

lemma same_stats: "rt\<lparr>rt_stats := rt_stats rt\<rparr> = (rt :: fabric_runtime)"
  by simp

lemma same_store: "rt = rt\<lparr>rt_store := rt_store rt\<rparr>" for rt :: fabric_runtime
  by simp

lemma same_runtime: "rt = rt\<lparr>rt_image := rt_image rt, rt_store := rt_store rt, rt_stats := rt_stats rt\<rparr>" for rt :: fabric_runtime
  by simp

lemma entity_answer_stats: "only_stats entity_answer"
  unfolding only_stats_def entity_answer_def by (metis fst_conv)

lemma commit_as_cases:
  assumes "commit_as env name actor m answer rt d = (d', rt', r)" "only_stats answer"
  obtains (done_) rt1 outcome stats v where "runtime_commit env m rt d = (d', rt1, Inr outcome)"
      "rt' = rt1\<lparr>rt_stats := stats\<rparr>" "r = Inr v"
    | (failed) rt1 e where "runtime_commit env m rt d = (d', rt1, Inl e)" "rt' = refuse env name e actor rt1" "r = Inl e"
proof -
  obtain d1 rt1 q where c: "runtime_commit env m rt d = (d1, rt1, q)" by (metis prod_cases3)
  show ?thesis
  proof (cases q)
    case (Inl e)
    then show ?thesis using failed[of rt1 e] assms(1) c by (simp add: commit_as_def)
  next
    case (Inr outcome)
    obtain rt2 v where a: "answer outcome (count_accepted rt1) = (rt2, v)" by (metis surj_pair)
    have "\<exists>stats. fst (answer outcome (count_accepted rt1)) = (count_accepted rt1)\<lparr>rt_stats := stats\<rparr>"
      using assms(2) unfolding only_stats_def by blast
    then obtain stats where "rt2 = rt1\<lparr>rt_stats := stats\<rparr>" using a by (auto simp: count_accepted_def)
    then show ?thesis using done_[of rt1 outcome stats v] assms(1) c Inr a by (simp add: commit_as_def)
  qed
qed

lemma acting_cases:
  assumes "acting actor check body (Some rt) d = (d', h', r)"
  obtains (refused) e where "d' = d" "h' = Some rt" "r = Inl e"
    | (ran) rt' where "body rt d = (d', rt', r)" "h' = Some rt'" "\<not> rt_closed rt" "session_shape_valid actor" "check = Inr ()"
  using assms by (cases check) (auto simp: acting_def split: if_splits prod.splits)

definition call_result :: "call_env \<Rightarrow> fabric_session \<Rightarrow> mutation result \<Rightarrow> fabric_runtime \<Rightarrow> disk \<Rightarrow> disk \<Rightarrow> handle \<Rightarrow> 'a result \<Rightarrow> bool" where
  "call_result env actor mr rt d d' h' r \<longleftrightarrow>
     (\<exists>e. d' = d \<and> h' = Some rt \<and> r = Inl e) \<or>
     (\<exists>e name. d' = d \<and> h' = Some (refuse env name e actor rt) \<and> r = Inl e) \<or>
     (\<exists>m rt1 e name. mr = Inr m \<and> runtime_commit env m rt d = (d', rt1, Inl e) \<and> h' = Some (refuse env name e actor rt1) \<and> r = Inl e) \<or>
     (\<exists>m rt1 outcome stats v. mr = Inr m \<and> runtime_commit env m rt d = (d', rt1, Inr outcome) \<and>
        h' = Some (rt1\<lparr>rt_stats := stats\<rparr>) \<and> r = Inr v)"

lemma acting_commit:
  assumes "acting actor check body (Some rt) d = (d', h', r)" "body rt d = commit_as env name actor m answer rt d" "only_stats answer"
  shows "call_result env actor (Inr m) rt d d' h' r"
  using assms(1)
proof (cases rule: acting_cases)
  case (refused e)
  then show ?thesis by (auto simp: call_result_def)
next
  case (ran rt')
  from ran(1)[unfolded assms(2)] assms(3) show ?thesis
    by (cases rule: commit_as_cases) (use ran(2) in \<open>auto simp: call_result_def\<close>)
qed

text \<open>The four ways a call can end: refused before anything happened, refused and recorded,
  failed in the commit and recorded, or acknowledged.\<close>

lemma stamped_call:
  assumes "acting actor check (\<lambda>rt d. case stamp (rt_image rt) of Inl e \<Rightarrow> (d, refuse env name e actor rt, Inl e)
      | Inr x \<Rightarrow> commit_as env name actor (build x) entity_answer rt d) (Some rt) d = (d', h', r)"
  shows "call_result env actor (map_sum id build (stamp (rt_image rt))) rt d d' h' r"
proof (cases "stamp (rt_image rt)")
  case (Inl e)
  show ?thesis using assms by (cases rule: acting_cases) (use Inl in \<open>auto simp: call_result_def\<close>)
next
  case (Inr x)
  then show ?thesis using acting_commit[OF assms, of env name "build x" entity_answer] entity_answer_stats by simp
qed

lemma perform_call_result:
  assumes "perform_call env actor c (Some rt) d = (d', h', r)"
  shows "call_result env actor (call_mutation env actor (rt_image rt) c) rt d d' h' r"
proof (cases c)
  case (Advance_epoch reason)
  then show ?thesis
    using assms unfolding perform_call_def advance_epoch_def call_mutation_def
    by (auto intro!: acting_commit simp: only_stats_def)
next
  case (Fence publisher boot reason)
  obtain q where q: "fence env actor publisher boot reason (Some rt) d = (d', h', q)" "r = map_sum id (\<lambda>_. 0) q"
    using assms Fence by (auto simp: perform_call_def split: prod.splits)
  have stats: "only_stats (\<lambda>_ rt'. (if b then rt' else rt'\<lparr>rt_stats := f (rt_stats rt')\<rparr>, ()))" for b f
    unfolding only_stats_def by (cases b) (simp_all, metis same_stats, blast)
  have "call_result env actor (call_mutation env actor (rt_image rt) c) rt d d' h' q"
    using q(1) Fence unfolding fence_def call_mutation_def
    by (auto intro!: acting_commit[OF _ _ stats] simp: Let_def)
  then show ?thesis using q(2) by (auto simp: call_result_def)
next
  case (Publish a)
  show ?thesis
  proof (cases "as_kind a = Default")
    case True
    then show ?thesis using assms Publish unfolding perform_call_def assign_def
      by simp (cases rule: acting_cases, auto simp: call_result_def)
  next
    case False
    then show ?thesis using assms Publish stamped_call[where stamp = "\<lambda>img. stamp_assignment img a" and name = "''assign''"]
      by (simp add: perform_call_def assign_def call_mutation_def)
  qed
next
  case (Define_policy x)
  then show ?thesis using assms stamped_call[where stamp = "\<lambda>img. stamp_policy img x" and name = "''define_policy''"]
    by (simp add: perform_call_def define_policy_def call_mutation_def)
qed (use assms entity_answer_stats in \<open>auto simp: perform_call_def define_class_def define_scope_def define_subject_def
    retire_assignment_def call_mutation_def intro!: acting_commit\<close>)

lemma acknowledged_call_serves:
  assumes "serving opts rt d" "perform_call env actor c (Some rt) d = (d', Some rt', Inr v)"
    and "\<And>m. call_mutation env actor (rt_image rt) c = Inr m \<Longrightarrow> mutation_ok (ro_limits opts) m"
  shows "serving opts rt' d'"
  using perform_call_result[OF assms(2)] assms(3) unfolding call_result_def
  by (auto intro: serving.counted serving.committed[OF assms(1)])

section \<open>What a commit leaves of the image\<close>

lemma commit_image_any:
  assumes "commit_mutation env m s img d = (d', s', img', r)"
  shows "img' = img \<or> (\<exists>img1 q. apply_mutation img (planned img m) False = (img1, q) \<and>
    (img' = img1 \<or> q = Inr () \<and> img' = img1\<lparr>im_last_sequence := ds_next_sequence s\<rparr>))"
proof (cases r)
  case (Inr u)
  then show ?thesis using commit_image[of env m s img d d' s' img'] assms by auto
next
  case (Inl e)
  obtain x where plan: "plan_commit s m img = x" by blast
  show ?thesis
  proof (cases x)
    case (Inl e)
    then show ?thesis using assms plan by (simp add: commit_mutation_def)
  next
    case x: (Inr y)
    obtain p payload where y: "y = (p, payload)" by (cases y)
    have p: "p = planned img m" using plan x y by (auto simp: plan_commit_def Let_def ok_simps planned_def)
    show ?thesis
      using assms plan x y Inl
      by (auto simp: commit_mutation_def perform_commit_def p Let_def split: prod.splits sum.splits if_splits)
  qed
qed

lemma runtime_commit_image:
  assumes "runtime_commit env m rt d = (d', rt', r)"
  obtains s' img' q where "commit_mutation (ce_io env) m (rt_store rt) (rt_image rt) d = (d', s', img', q)"
    "rt' = rt\<lparr>rt_store := s', rt_image := img'\<rparr>" "(\<exists>v. r = Inr v) \<longleftrightarrow> q = Inr ()"
proof -
  obtain d1 s1 r1 q where c: "commit_mutation (ce_io env) m (rt_store rt) (rt_image rt) d = (d1, s1, r1, q)" by (metis prod_cases4)
  then show ?thesis using assms that[of s1 r1 q] by (cases q) (auto simp: runtime_commit_def Let_def)
qed

lemma refuse_image [simp]:
  "forget (rt_image (refuse env name e actor rt)) = forget (rt_image rt)"
  "im_authority (rt_image (refuse env name e actor rt)) = im_authority (rt_image rt)"
  unfolding refuse_def count_rejected_def record_rejection_def
  by (simp_all add: frame_simps) (subst refused_audit, simp)

lemma planned_binding [simp]:
  "mu_publisher (planned img m) = mu_publisher m" "mu_boot (planned img m) = mu_boot m" "mu_token (planned img m) = mu_token m"
  "mu_system (planned img m) = mu_system m" "mu_op (planned img m) = mu_op m"
  by (simp_all add: planned_def)

lemma unauthorized_commit:
  assumes "\<not> live img (mu_publisher m) (mu_boot m) (mu_token m)" "\<not> mu_system m"
    and "commit_mutation env m s img d = (d', s', img', r)"
  shows "img' = img \<and> r \<noteq> Inr ()"
proof -
  have refused: "img1 = img \<and> q \<noteq> Inr ()" if "apply_mutation img (planned img m) False = (img1, q)" for img1 q
    using unauthorized_unchanged[OF _ _ that] assms(1,2) by auto
  have "r \<noteq> Inr ()" using commit_image[of env m s img d d' s' img'] assms(3) refused by blast
  then show ?thesis using commit_image_any[OF assms(3)] refused by blast
qed

section \<open>Registration\<close>

lemma serving_authority: "serving opts rt d \<Longrightarrow> authority_inv (rt_image rt)"
  using serving_inv[of opts rt d] authority.reachable_inv[OF _ authority_inv_empty] by (auto simp: serving_image_def)

lemma commit_authority:
  assumes "runtime_commit env m rt d = (d', rt', Inr v)" "authority_inv (rt_image rt)"
  shows "authority_inv (rt_image rt')"
proof -
  obtain s' img' where c: "commit_mutation (ce_io env) m (rt_store rt) (rt_image rt) d = (d', s', img', Inr ())"
      "rt' = rt\<lparr>rt_store := s', rt_image := img'\<rparr>" using runtime_commit_ok[OF assms(1)] by blast
  obtain img1 where "apply_mutation (rt_image rt) (planned (rt_image rt) m) False = (img1, Inr ())"
      "img' = img1\<lparr>im_last_sequence := ds_next_sequence (rt_store rt)\<rparr>" using commit_image[OF c(1)] by blast
  then show ?thesis
    using authority.apply_mutation_inv[OF assms(2)] authority.inv_position c(2) by simp
qed

lemma committed_grant:
  assumes "runtime_commit env m rt d = (d', rt', Inr v)" "mu_op m = GrantAuthority"
  shows "\<exists>e. om_find (im_authority (rt_image rt')) (mu_publisher m, mu_boot m) = Some e \<and> he_state e = Granted \<and>
    he_epoch e = im_epoch (rt_image rt')"
proof -
  obtain s' img' where c: "commit_mutation (ce_io env) m (rt_store rt) (rt_image rt) d = (d', s', img', Inr ())"
      "rt' = rt\<lparr>rt_store := s', rt_image := img'\<rparr>" using runtime_commit_ok[OF assms(1)] by blast
  obtain img1 where a: "apply_mutation (rt_image rt) (planned (rt_image rt) m) False = (img1, Inr ())"
      "img' = img1\<lparr>im_last_sequence := ds_next_sequence (rt_store rt)\<rparr>" using commit_image[OF c(1)] by blast
  from a(1) show ?thesis
  proof (cases rule: apply_mutation_cases)
    case (identical g)
    then show ?thesis using admit_ok(2)[OF identical(1)] assms(2) by (simp add: is_idempotent_def)
  next
    case (changed g img2)
    then have "im_epoch img2 = im_epoch (rt_image rt)" using authority_after(4)[OF changed(3)] assms(2) by simp
    then show ?thesis using grant_find[OF changed(3)] changed(4) a(2) c(2) assms(2) by (simp add: frame_simps)
  qed simp_all
qed

lemma grant_epoch_authority:
  assumes "grant_epoch env publisher boot rt d = (d', rt', Inr u)" "authority_inv (rt_image rt)"
  shows "authority_inv (rt_image rt')"
  using assms commit_authority
  by (fastforce simp: grant_epoch_def Let_def count_accepted_def split: if_splits prod.splits sum.splits)

lemma granted_entry:
  assumes "serving opts rt d" "grant_authority env publisher boot (Some rt) d = (d', Some rt', Inr s)"
  shows "\<exists>e. om_find (im_authority (rt_image rt')) (publisher, boot) = Some e \<and> he_state e = Granted \<and>
    he_epoch e = im_epoch (rt_image rt') \<and>
    s = \<lparr>fs_publisher = publisher, fs_boot = boot, fs_epoch = he_epoch e, fs_token = he_token e\<rparr> \<and> authority_inv (rt_image rt')"
proof -
  note inv = serving_authority[OF assms(1)]
  have issued: ?thesis if t: "grant_table env publisher boot rt d = (d', rt', Inr s)"
  proof -
    obtain d1 rt1 u where g: "grant_epoch env publisher boot rt d = (d1, rt1, Inr u)" and c: "grant_commit env publisher boot rt1 d1 = (d', rt', Inr s)"
      using t by (auto simp: grant_table_def split: if_splits prod.splits sum.splits)
    define m where "m = (base_mutation_of env \<lparr>fs_publisher = publisher, fs_boot = boot, fs_epoch = im_epoch (rt_image rt1),
      fs_token = im_next_fencing_token (rt_image rt1)\<rparr> GrantAuthority ''authority granted'')\<lparr>mu_system := True\<rparr>"
    have m: "mu_op m = GrantAuthority" "mu_publisher m = publisher" "mu_boot m = boot" by (simp_all add: m_def base_mutation_of_def)
    obtain d2 rt2 q where r: "runtime_commit env m rt1 d1 = (d2, rt2, q)" by (metis prod_cases3)
    then obtain v where q: "q = Inr v" using c by (cases q) (auto simp: grant_commit_def Let_def m_def[symmetric])
    obtain e where e: "om_find (im_authority (rt_image rt2)) (publisher, boot) = Some e" "he_state e = Granted" "he_epoch e = im_epoch (rt_image rt2)"
      using committed_grant[OF r[unfolded q] m(1)] m by auto
    have "rt_image rt' = rt_image rt2" "s = \<lparr>fs_publisher = publisher, fs_boot = boot, fs_epoch = he_epoch e, fs_token = he_token e\<rparr>"
      using c r q e(1) by (auto simp: grant_commit_def Let_def m_def[symmetric] count_accepted_def)
    then show ?thesis using e commit_authority[OF r[unfolded q] grant_epoch_authority[OF g inv]] by simp
  qed
  show ?thesis
  proof (cases "\<exists>e. om_find (im_authority (rt_image rt)) (publisher, boot) = Some e \<and> he_state e = Granted \<and> he_epoch e = im_epoch (rt_image rt)")
    case True
    then show ?thesis using assms(2) inv by (auto simp: grant_authority_def Let_def split: if_splits)
  next
    case False
    then have "grant_table env publisher boot rt d = (d', rt', Inr s)"
      using assms(2) by (auto simp: grant_authority_def Let_def split: if_splits option.splits prod.splits)
    then show ?thesis by (rule issued)
  qed
qed

section \<open>Reopening\<close>

lemma reopen_succeeds:
  assumes "serving_image opts rt d j" "calm (ce_io env)" "ev_directory (ce_io env) \<noteq> []" "choose_boot env opts = Inr boot"
    and "measurable (locked (store_options_of opts) d)" "\<not> ro_advance_epoch_on_open opts"
    and "t = [] \<or> torn (ds_key (rt_store rt)) (ro_limits opts) t"
    and "unat (ds_segment_bytes (rt_store rt)) + length t \<le> max_state_bytes (ro_limits opts)"
  shows "\<exists>rt'. open_runtime env opts (Directory (append_bytes (journal_segment_name (ds_segment_index (rt_store rt))) t d)) =
    (Directory (locked (store_options_of opts) d), Inr rt')"
proof -
  note i = assms(1)[unfolded serving_image_def]
  have "im_health j \<noteq> Degraded" using i agreesD(6)[of j "rt_image rt"] by simp
  then obtain report' s' where "open_store (ce_io env) (store_options_of opts) (empty_image compiled_limits_ceiling) report_default
      (Directory (append_bytes (journal_segment_name (ds_segment_index (rt_store rt))) t d)) =
      (Directory (locked (store_options_of opts) d), j, report', Inr s')" "ir_health report' = Healthy"
    using open_existing[OF assms(2,3), of "rt_store rt" j d t "empty_image compiled_limits_ceiling" report_default] i assms(5,7,8) by auto
  moreover have "limits_within_compiled_ceiling (ro_limits opts)"
    using i unfolding store_inv_def store_ready_def by (metis store_options_sel)
  ultimately show ?thesis using assms(3,4,6) by (simp add: open_runtime_def Let_def)
qed

section \<open>What a refused call leaves behind\<close>

text \<open>Whatever becomes of a commit, it only adds to the journal: files that are not journal segments
  are as they were, and no byte of a segment is lost.\<close>

definition journal_grows :: "disk \<Rightarrow> disk \<Rightarrow> bool" where
  "journal_grows d d' \<longleftrightarrow>
     (\<forall>name. parse_journal_segment_name name = None \<longrightarrow> om_find d' name = om_find d name) \<and>
     (\<forall>name content. om_find d name = Some content \<longrightarrow> (\<exists>more. om_find d' name = Some (content @ more)))"

lemma journal_grows_refl [simp]: "journal_grows d d"
  by (simp add: journal_grows_def)

lemma journal_grows_trans:
  assumes "journal_grows d d1" "journal_grows d1 d2"
  shows "journal_grows d d2"
proof -
  have "\<exists>more. om_find d2 name = Some (content @ more)" if old: "om_find d name = Some content" for name content
  proof -
    obtain more where more: "om_find d1 name = Some (content @ more)"
      using assms(1) old unfolding journal_grows_def by blast
    obtain more' where "om_find d2 name = Some ((content @ more) @ more')"
      using assms(2) more unfolding journal_grows_def by blast
    then show ?thesis by simp
  qed
  then show ?thesis using assms by (auto simp: journal_grows_def)
qed

lemma append_grows: "journal_grows d (append_bytes (journal_segment_name i) b d)"
  by (auto simp: journal_grows_def append_bytes_def segment_name_parses split: option.split)

lemma new_segment_grows: "journal_grows d (if om_has d (journal_segment_name i) then d else om_put (journal_segment_name i) [] d)"
  by (auto simp: journal_grows_def segment_name_parses om_has_def)

lemma append_record_grows:
  assumes "append_record env bytes s d = (d', s', r)"
  shows "journal_grows d d'" "ds_key s' = ds_key s \<and> ds_options s' = ds_options s \<and> ds_next_sequence s' = ds_next_sequence s"
  using assms append_grows
  by (auto simp: append_record_def write_all_def Let_def split: if_splits option.splits sum.splits prod.splits)

lemma roll_grows:
  assumes "roll_segment_if_needed env s d = (d', s', r)"
  shows "journal_grows d d' \<and> ds_key s' = ds_key s \<and> ds_options s' = ds_options s \<and> ds_next_sequence s' = ds_next_sequence s"
  by (rule roll_outcomes[OF assms]) (use new_segment_grows in \<open>auto split: if_splits\<close>)

lemma perform_grows:
  assumes "perform_commit env p payload s img d = (d', s', img', r)" "r \<noteq> Inr ()"
  shows "journal_grows d d' \<and> ds_key s' = ds_key s \<and> ds_options s' = ds_options s \<and> ds_next_sequence s' = ds_next_sequence s"
  using assms append_record_grows by (fastforce simp: perform_commit_def Let_def split: prod.splits sum.splits if_splits)

lemma failed_commit_grows:
  assumes "commit_mutation env m s img d = (d', s', img', r)" "r \<noteq> Inr ()"
  shows "journal_grows d d' \<and> ds_key s' = ds_key s \<and> ds_options s' = ds_options s \<and> ds_next_sequence s' = ds_next_sequence s"
proof (cases "plan_commit s m img")
  case (Inl e)
  then show ?thesis using assms by (simp add: commit_mutation_def)
next
  case (Inr y)
  obtain p payload where y: "y = (p, payload)" by (cases y)
  obtain d1 s1 r1 where roll: "roll_segment_if_needed env s d = (d1, s1, r1)" by (metis prod_cases3)
  note g1 = roll_grows[OF roll]
  obtain d2 s2 r2 where app: "append_record env (encode_journal_record Pending (ds_next_sequence s1) payload (ds_key s1)) s1 d1 = (d2, s2, r2)"
    by (metis prod_cases3)
  note g2 = append_record_grows[OF app]
  let ?s2 = "s2\<lparr>ds_journal_records := Suc (ds_journal_records s2)\<rparr>"
  have run: "commit_mutation env m s img d = (case r1 of Inl e \<Rightarrow> (d1, s1, img, Inl e) | Inr _ \<Rightarrow> (case r2 of Inl e \<Rightarrow> (d2, s2, img, Inl e)
      | Inr _ \<Rightarrow> perform_commit env p payload ?s2 img d2))"
    using Inr y roll app by (cases r1; cases r2) (simp_all add: commit_mutation_def)
  show ?thesis
  proof (cases r1)
    case r1: (Inr u)
    have g12: "journal_grows d d2" using g1 g2(1) by (blast intro: journal_grows_trans)
    show ?thesis
    proof (cases r2)
      case (Inr v)
      have "perform_commit env p payload ?s2 img d2 = (d', s', img', r)" using run r1 Inr assms(1) by simp
      then show ?thesis using perform_grows[OF _ assms(2)] g1 g2(2) g12 by (fastforce intro: journal_grows_trans)
    qed (use run r1 g1 g2 g12 assms(1) in auto)
  qed (use run g1 assms(1) in auto)
qed

text \<open>What a call that is refused for want of authority does: it may record the attempt in the audit
  window, count it, and leave bytes in the journal; the position in the journal does not move.\<close>

definition only_refused :: "fabric_runtime \<Rightarrow> disk \<Rightarrow> fabric_runtime \<Rightarrow> disk \<Rightarrow> bool" where
  "only_refused rt d rt' d' \<longleftrightarrow>
     (\<exists>n log. rt_image rt' = with_audit n log (rt_image rt)) \<and>
     ds_key (rt_store rt') = ds_key (rt_store rt) \<and> ds_options (rt_store rt') = ds_options (rt_store rt) \<and>
     ds_next_sequence (rt_store rt') = ds_next_sequence (rt_store rt) \<and>
     rt' = rt\<lparr>rt_image := rt_image rt', rt_store := rt_store rt', rt_stats := rt_stats rt'\<rparr> \<and>
     rt_stats rt' \<in> {rt_stats rt, (rt_stats rt)\<lparr>st_mutations_rejected := st_mutations_rejected (rt_stats rt) + 1\<rparr>} \<and>
     journal_grows d d'"

lemma same_audit: "with_audit (im_next_audit_sequence img) (im_audit img) img = img"
  by (simp add: with_audit_def)

lemma only_refused_refl: "only_refused rt d rt d"
  unfolding only_refused_def by (metis (no_types, lifting) insertI1 journal_grows_refl same_audit same_runtime)

lemma refuse_only:
  assumes "rt1 = rt\<lparr>rt_store := s'\<rparr>" "ds_key s' = ds_key (rt_store rt)" "ds_options s' = ds_options (rt_store rt)"
    and "ds_next_sequence s' = ds_next_sequence (rt_store rt)" "journal_grows d d'"
  shows "only_refused rt d (refuse env name e actor rt1) d'"
proof -
  have "\<exists>n log. record_rejection env (rt_limits rt) name e actor (rt_image rt) = with_audit n log (rt_image rt)"
    unfolding record_rejection_def using refused_audit by blast
  then show ?thesis using assms by (simp add: only_refused_def refuse_def count_rejected_def)
qed

lemma stale_call:
  assumes "perform_call env actor c (Some rt) d = (d', h', r)"
    and "\<not> live (rt_image rt) (fs_publisher actor) (fs_boot actor) (fs_token actor)"
  shows "\<exists>rt' e. h' = Some rt' \<and> r = Inl e \<and> only_refused rt d rt' d'"
proof -
  have stale: "(\<forall>v. q \<noteq> Inr v) \<and> only_refused rt d (refuse env name e actor rt1) d'"
    if call: "call_mutation env actor (rt_image rt) c = Inr m" and run: "runtime_commit env m rt d = (d', rt1, q)" for m rt1 q name e
  proof -
    have "\<not> live (rt_image rt) (mu_publisher m) (mu_boot m) (mu_token m)" "\<not> mu_system m"
      using call_mutation_binding[OF call] assms(2) by simp_all
    note un = unauthorized_commit[OF this]
    show ?thesis
    proof (rule runtime_commit_image[OF run])
      fix s' img' qc
      assume c: "commit_mutation (ce_io env) m (rt_store rt) (rt_image rt) d = (d', s', img', qc)"
        and rt1: "rt1 = rt\<lparr>rt_store := s', rt_image := img'\<rparr>" and q: "(\<exists>v. q = Inr v) \<longleftrightarrow> qc = Inr ()"
      have u: "img' = rt_image rt" "qc \<noteq> Inr ()" using un[OF c] by simp_all
      then have "rt1 = rt\<lparr>rt_store := s'\<rparr>" using rt1 by simp
      then show ?thesis using refuse_only[of rt1 s' rt] failed_commit_grows[OF c u(2)] u(2) q by blast
    qed
  qed
  show ?thesis
    using perform_call_result[OF assms(1)] only_refused_refl refuse_only[OF same_store refl refl refl journal_grows_refl]
    unfolding call_result_def by (fastforce dest: stale)
qed

section \<open>Properties\<close>

text \<open>C9: A session that is not live changes nothing of the fabric. Whatever a caller asks for with a publisher,
  boot id and token that are not those of a live incarnation is refused. The image is the same but
  for the audit window, so no definition, assignment, grant, epoch or generation changes; of the
  runtime only the counter of refused mutations may change besides; and in the directory no file but
  a journal segment changes, to which bytes may be added while the sequence number stays. These bytes
  are a pending record without its confirmation, and theory Losses says what they do to the next commit.\<close>

theorem stale_session_changes_nothing:
  assumes "perform_call env actor c (Some rt) d = (d', h', r)"
    and "\<not> live (rt_image rt) (fs_publisher actor) (fs_boot actor) (fs_token actor)"
  shows "\<exists>rt' e. h' = Some rt' \<and> r = Inl e \<and>
    (\<exists>n log. rt_image rt' = with_audit n log (rt_image rt)) \<and>
    rt' = rt\<lparr>rt_image := rt_image rt', rt_store := rt_store rt', rt_stats := rt_stats rt'\<rparr> \<and>
    rt_stats rt' \<in> {rt_stats rt, (rt_stats rt)\<lparr>st_mutations_rejected := st_mutations_rejected (rt_stats rt) + 1\<rparr>} \<and>
    ds_next_sequence (rt_store rt') = ds_next_sequence (rt_store rt) \<and> journal_grows d d'"
  using stale_call[OF assms] unfolding only_refused_def by blast

text \<open>C10: A granted session is live, and it is the only one of its publisher. When a registration is
  acknowledged, the session it returns carries the publisher, the boot id and the current epoch,
  its token is live in the image, and no other incarnation of the publisher is.\<close>

theorem granted_session_is_live:
  assumes "serving opts rt d" "grant_authority env publisher boot (Some rt) d = (d', Some rt', Inr s)"
  shows "fs_publisher s = publisher \<and> fs_boot s = boot \<and> fs_epoch s = im_epoch (rt_image rt') \<and>
    live (rt_image rt') publisher boot (fs_token s) \<and>
    (\<forall>b t. live (rt_image rt') publisher b t \<longrightarrow> b = boot \<and> t = fs_token s)"
proof -
  obtain e where e: "om_find (im_authority (rt_image rt')) (publisher, boot) = Some e" "he_state e = Granted"
      "he_epoch e = im_epoch (rt_image rt')" "s = \<lparr>fs_publisher = publisher, fs_boot = boot, fs_epoch = he_epoch e, fs_token = he_token e\<rparr>"
      and inv: "authority_inv (rt_image rt')"
    using granted_entry[OF assms] by blast
  have "b = boot \<and> t = he_token e" if l: "live (rt_image rt') publisher b t" for b t
  proof -
    obtain e' where "om_find (im_authority (rt_image rt')) (publisher, b) = Some e'" "he_state e' = Granted" "he_token e' = t"
      using l by (auto simp: live_def split: option.splits)
    then show ?thesis using inv e(1,2) unfolding authority_inv_def by (metis fst_conv option.inject prod.inject)
  qed
  then show ?thesis using e by (auto simp: live_def)
qed

text \<open>C8: A restart of an undisturbed runtime preserves the fabric and revokes every grant. Take a runtime
  whose run so far is \<open>serving\<close>: it was opened on a new directory of a fault-free system; every
  commit that reached the journal was acknowledged, of a mutation the journal decoder accepts, and every
  other call was refused before the journal; checkpoints were acknowledged, of images a snapshot can carry; and every
  restart was one of the kind stated here. Then opening the directory again on a fault-free system
  without the epoch advance, also with a torn record at the end of the journal, while directory and
  segment stay within their bounds, succeeds; the new runtime holds the same image up to the audit
  window, the audit numbers of provenance and the state of unfenced grants, no incarnation is granted,
  and the run goes on. A commit refused after its pending record (theory Losses) and an opening with the
  epoch advance (theory Takeovers) are not part of such a run, and break this promise.\<close>

theorem restart_preserves_fabric:
  assumes "serving opts rt d" "calm (ce_io env)" "ev_directory (ce_io env) \<noteq> []" "choose_boot env opts = Inr boot"
    and "measurable (locked (store_options_of opts) d)" "\<not> ro_advance_epoch_on_open opts"
    and "t = [] \<or> torn (ds_key (rt_store rt)) (ro_limits opts) t"
    and "unat (ds_segment_bytes (rt_store rt)) + length t \<le> max_state_bytes (ro_limits opts)"
  shows "\<exists>rt'. open_runtime env opts (Directory (append_bytes (journal_segment_name (ds_segment_index (rt_store rt))) t d)) =
      (Directory (locked (store_options_of opts) d), Inr rt') \<and>
    forget (rt_image rt') = forget (rt_image rt) \<and>
    (\<forall>k e. om_find (im_authority (rt_image rt')) k = Some e \<longrightarrow> he_state e \<noteq> Granted) \<and>
    serving opts rt' (locked (store_options_of opts) d)"
proof -
  obtain j where i: "serving_image opts rt d j" using serving_inv[OF assms(1)] by blast
  obtain rt' where o: "open_runtime env opts (Directory (append_bytes (journal_segment_name (ds_segment_index (rt_store rt))) t d)) =
      (Directory (locked (store_options_of opts) d), Inr rt')"
    using reopen_succeeds[OF i assms(2-8)] by blast
  have r: "rt_image rt' = expire_grants j" using restarted_image[OF i assms(2,5,6,7,8) o] by simp
  then have "forget (rt_image rt') = forget (rt_image rt)" using i by (simp add: serving_image_def agrees_def)
  moreover have "\<forall>k e. om_find (im_authority (rt_image rt')) k = Some e \<longrightarrow> he_state e \<noteq> Granted"
  proof (intro allI impI)
    fix k e assume "om_find (im_authority (rt_image rt')) k = Some e"
    then obtain e0 where "e = (if he_state e0 = Granted then e0\<lparr>he_state := Expired\<rparr> else e0)" by (auto simp: r expire_find)
    then show "he_state e \<noteq> Granted" by auto
  qed
  moreover have "serving opts rt' (locked (store_options_of opts) d)"
    by (rule serving.restarted[OF assms(1,2,5,6,7,8) o])
  ultimately show ?thesis using o by blast
qed

section \<open>A sample run\<close>

definition sample_call_env :: call_env where
  "sample_call_env = \<lparr>ce_io = sample_env, ce_stamp = (\<lambda>_. 7), ce_rejected_at = 8, ce_boot = Inr boot_a\<rparr>"

definition sample_runtime_options :: runtime_options where
  "sample_runtime_options = \<lparr>ro_limits = compiled_limits_ceiling, ro_create_if_missing = True, ro_fsync_records = True,
     ro_fail_on_degraded = False, ro_instance_boot_id = None, ro_allow_new_publishers = True, ro_advance_epoch_on_open = False,
     ro_exclusive_lock = True\<rparr>"

lemma sample_runtime_sel [simp]:
  "ce_io sample_call_env = sample_env" "choose_boot sample_call_env sample_runtime_options = Inr boot_a"
  "store_options_of sample_runtime_options = sample_options" "ro_limits sample_runtime_options = compiled_limits_ceiling"
  "\<not> ro_advance_epoch_on_open sample_runtime_options" "\<not> ro_fail_on_degraded sample_runtime_options"
  by (simp_all add: sample_call_env_def sample_runtime_options_def choose_boot_def store_options_of_def sample_options_def)

definition sample_runtime :: fabric_runtime where
  "sample_runtime = count_recovery (opened_runtime sample_call_env sample_runtime_options boot_a fabric0 sample_store)"

lemma sample_runtime_parts [simp]:
  "rt_image sample_runtime = fabric0" "rt_store sample_runtime = sample_store" "\<not> rt_closed sample_runtime"
  "rt_allow_new_publishers sample_runtime"
  using expire_empty[of compiled_limits_ceiling]
  by (simp_all add: sample_runtime_def opened_image fabric0_def)
    (simp_all add: empty_image_def count_recovery_def opened_runtime_def sample_runtime_options_def)

lemma sample_started: "serving sample_runtime_options sample_runtime sample_disk"
proof (rule serving.started)
  obtain report' where o: "open_store sample_env sample_options fabric0 report_default Missing = (Directory sample_disk, fabric0, report', Inr sample_store)"
    using sample_created by blast
  then show "open_runtime sample_call_env sample_runtime_options Missing = (Directory sample_disk, Inr sample_runtime)"
    by (simp add: open_runtime_def Let_def sample_within fabric0_def[symmetric] sample_runtime_def)
qed (auto simp: compiled_limits_ceiling_def)

text \<open>A publisher registers: the epoch is established and authority is granted.\<close>

definition m_join :: mutation where
  "m_join = mutation_default\<lparr>mu_op := GrantAuthority, mu_epoch := 1, mu_publisher := ops, mu_boot := boot_a, mu_token := 1,
     mu_recorded_at_ms := 7, mu_reason := ''authority granted'', mu_system := True\<rparr>"

definition join_planned :: mutation where "join_planned = m_join\<lparr>mu_resulting_generation := 2\<rparr>"

lemma m_join_ok: "mutation_ok compiled_limits_ceiling m_join"
  by (simp add: mutation_ok_def m_join_def mutation_default_def ops_def boot_a_def id_ok_def boot_wf_def
      str_ok_def mutation_payload_ok_def compiled_limits_ceiling_def boot_size_def
      canonical_form_scan is_lower_alnum_def scan_segments.simps kMaxRawIdBytes_def)

lemma join_length: "length (encode_mutation join_planned) = 78"
  by (simp add: encode_mutation_def join_planned_def m_join_def enc_u16_def append_le_def enc_id_def ops_def boot_a_def enc_raw_def
      mutation_payload_def mutation_default_def enc_str_short enc_u32_def)

lemma committed_parts:
  "im_epoch committed_image = 1" "im_generation committed_image = 1" "im_authority committed_image = []"
  "im_next_fencing_token committed_image = 1" "im_limits committed_image = compiled_limits_ceiling" "im_health committed_image = Healthy"
  by (simp_all add: committed_image_def core_simps)

lemma join_valid: "validate_mutation committed_image m_join = Inr ()" "is_idempotent committed_image m_join = False"
  by (simp_all add: m_join_def mutation_default_def validate_mutation_def validate_grant_def committed_parts valid_names boots is_idempotent_def)
    (simp add: compiled_limits_ceiling_def)

lemma join_plan: "plan_commit committed_store m_join committed_image = Inr (join_planned, encode_mutation join_planned)"
proof -
  have "planned_generation committed_image m_join = 2"
    by (simp add: planned_generation_def mutation_is_idempotent_def join_valid committed_parts gen_next_def)
  moreover have "ds_open committed_store" "ds_durable_bytes committed_store = 346" by (simp_all add: committed_store_def sample_store_def)
  ultimately show ?thesis
    using join_length[unfolded join_planned_def]
    by (simp add: plan_commit_def join_valid committed_parts join_planned_def projected_bytes_def checked_add_def
        journal_record_bytes_def kRecordOverheadBytes_def kRecordHeaderBytes_def kRecordMacBytes_def compiled_limits_ceiling_def
        gen_is_set_def Let_def)
qed

lemma join_applied: "\<exists>img1. apply_mutation committed_image join_planned False = (img1, Inr ())"
proof -
  have "validate_mutation committed_image join_planned = validate_mutation committed_image m_join"
      "is_idempotent committed_image join_planned = False" "mu_op join_planned = GrantAuthority" "mu_system join_planned"
    by (simp_all add: join_planned_def m_join_def mutation_default_def validate_mutation_def validate_grant_def is_idempotent_def committed_parts)
  then have "admit committed_image join_planned False = Inr (False, 2)"
    by (simp add: admit_def join_valid committed_parts gen_next_def) (simp add: join_planned_def)
  moreover have "\<exists>img1. apply_op committed_image join_planned False p = Inr img1" for p
    by (simp add: op_defs committed_parts join_planned_def m_join_def)
  ultimately show ?thesis using admitted by blast
qed

lemma sample_registration:
  "\<exists>rt' d' s. grant_authority sample_call_env ops boot_a (Some sample_runtime) sample_disk = (d', Some rt', Inr s)"
proof -
  have epoch: "(base_mutation_of sample_call_env \<lparr>fs_publisher = ops, fs_boot = boot_a, fs_epoch = im_epoch fabric0,
      fs_token = im_next_fencing_token fabric0\<rparr> AdvanceEpoch ''fabric epoch established'')\<lparr>mu_system := True\<rparr> = m_open"
    by (simp add: base_mutation_of_def m_open_def mutation_default_def sample_call_env_def fabric0_def empty_image_def)
  define rt1 where "rt1 = (let rt2 = count_accepted (sample_runtime\<lparr>rt_store := committed_store, rt_image := committed_image\<rparr>) in
    rt2\<lparr>rt_stats := (rt_stats rt2)\<lparr>st_epoch_advances := st_epoch_advances (rt_stats rt2) + 1\<rparr>\<rparr>)"
  have rt1: "rt_image rt1 = committed_image" "rt_store rt1 = committed_store" by (simp_all add: rt1_def Let_def count_accepted_def)
  have g: "grant_epoch sample_call_env ops boot_a sample_runtime sample_disk = (committed_disk, rt1, Inr ())"
    using sample_commit epoch
    by (simp add: grant_epoch_def runtime_commit_def Let_def live_other_incarnation_def fabric0_def empty_image_def is_established_def rt1_def)
  obtain img1 where a: "apply_mutation committed_image join_planned False = (img1, Inr ())" using join_applied by blast
  obtain d' s' where c: "commit_mutation sample_env m_join committed_store committed_image committed_disk = (d', s', img1\<lparr>im_last_sequence := 2\<rparr>, Inr ())"
    using commit_calm_disk[OF sample_calm _ _ join_plan a, of committed_disk] by (simp add: kSegmentRollBytes_def)
  have join: "(base_mutation_of sample_call_env \<lparr>fs_publisher = ops, fs_boot = boot_a, fs_epoch = im_epoch committed_image,
      fs_token = im_next_fencing_token committed_image\<rparr> GrantAuthority ''authority granted'')\<lparr>mu_system := True\<rparr> = m_join"
    by (simp add: base_mutation_of_def m_join_def mutation_default_def sample_call_env_def committed_parts)
  obtain rt2 v where r: "runtime_commit sample_call_env m_join rt1 committed_disk = (d', rt2, Inr v)"
    using c by (simp add: runtime_commit_def rt1 Let_def)
  obtain e where "om_find (im_authority (rt_image rt2)) (ops, boot_a) = Some e"
    using committed_grant[OF r] by (auto simp: m_join_def)
  then have "\<exists>rt' s. grant_commit sample_call_env ops boot_a rt1 committed_disk = (d', rt', Inr s)"
    using r join by (simp add: grant_commit_def Let_def rt1)
  then show ?thesis
    using g by (auto simp: grant_authority_def grant_table_def valid_names boots fabric0_def empty_image_def)
qed

lemma sample_serving: "serving sample_runtime_options (sample_runtime\<lparr>rt_store := committed_store, rt_image := committed_image\<rparr>) committed_disk"
proof (rule serving.committed[OF sample_started])
  show "runtime_commit sample_call_env m_open sample_runtime sample_disk =
      (committed_disk, sample_runtime\<lparr>rt_store := committed_store, rt_image := committed_image\<rparr>,
       Inr \<lparr>co_entity_generation = preview_entity_generation fabric0 m_open, co_state_generation = im_generation committed_image,
         co_noop = mutation_is_idempotent fabric0 m_open\<rparr>)"
    using sample_commit by (simp add: runtime_commit_def)
qed (simp add: m_open_ok)

theorem stale_session_changes_nothing_witness:
  "\<exists>d' rt' e. perform_call sample_call_env \<lparr>fs_publisher = ops, fs_boot = boot_b, fs_epoch = 1, fs_token = 9\<rparr> (Advance_epoch [])
      (Some sample_runtime) sample_disk = (d', Some rt', Inl e) \<and>
     (\<exists>n log. rt_image rt' = with_audit n log fabric0) \<and> ds_next_sequence (rt_store rt') = 1 \<and>
     om_find d' kManifestName = om_find sample_disk kManifestName"
proof -
  let ?actor = "\<lparr>fs_publisher = ops, fs_boot = boot_b, fs_epoch = 1, fs_token = 9\<rparr>"
  have dead: "\<not> live (rt_image sample_runtime) (fs_publisher ?actor) (fs_boot ?actor) (fs_token ?actor)"
    by (simp add: live_def fabric0_def empty_image_def)
  obtain d' h' r where call: "perform_call sample_call_env ?actor (Advance_epoch []) (Some sample_runtime) sample_disk = (d', h', r)"
    by (metis prod_cases3)
  obtain rt' e where out: "h' = Some rt'" "r = Inl e" "\<exists>n log. rt_image rt' = with_audit n log (rt_image sample_runtime)"
      "ds_next_sequence (rt_store rt') = ds_next_sequence (rt_store sample_runtime)" "journal_grows sample_disk d'"
    using stale_session_changes_nothing[OF call dead] by blast
  have "om_find d' kManifestName = om_find sample_disk kManifestName"
    using out(5) by (simp add: journal_grows_def)
  moreover have "ds_next_sequence (rt_store rt') = 1" using out(4) by simp
  ultimately show ?thesis using call out(1-3) unfolding sample_runtime_parts by blast
qed

theorem granted_session_is_live_witness:
  "\<exists>d' rt' s. grant_authority sample_call_env ops boot_a (Some sample_runtime) sample_disk = (d', Some rt', Inr s) \<and>
     live (rt_image rt') ops boot_a (fs_token s)"
  using sample_registration granted_session_is_live[OF sample_started] by blast

theorem restart_preserves_fabric_witness:
  "\<exists>rt'. open_runtime sample_call_env sample_runtime_options (Directory (append_bytes (journal_segment_name 0) sample_torn committed_disk)) =
      (Directory (locked sample_options committed_disk), Inr rt') \<and> forget (rt_image rt') = forget committed_image"
  using restart_preserves_fabric[OF sample_serving, of sample_call_env boot_a sample_torn] committed_measurable sample_torn sample_torn_small
  by auto

end
