(* ===== verification/Wire.thy ===== *)
theory Wire
  imports Runtime
begin

text \<open>
  \<^verbatim>\<open>include/priority_fabric/wire.hpp\<close> and \<^verbatim>\<open>src/wire.cpp\<close>: the frames of the protocol and the
  encodings of its requests and replies. A frame header carries the 16-bit operation as it came
  from the peer, since the source casts any value to its enumeration; \<open>wire_op\<close> are the
  enumerators and \<open>op_of\<close> reads one back.
\<close>

section \<open>Operations\<close>

datatype wire_op = Op_Hello | Op_HelloAck | Op_DefineClass | Op_DefineScope | Op_DefinePolicy
  | Op_DefineSubject | Op_Assign | Op_Retire | Op_Query | Op_AdvanceEpoch | Op_Fence | Op_Stats
  | Op_Checkpoint | Op_Audit | Op_Integrity | Op_Ping | Op_Shutdown | Op_Response | Op_Error

fun op_value :: "wire_op \<Rightarrow> u16" where
  "op_value Op_Hello = 1"
| "op_value Op_HelloAck = 2"
| "op_value Op_DefineClass = 10"
| "op_value Op_DefineScope = 11"
| "op_value Op_DefinePolicy = 12"
| "op_value Op_DefineSubject = 13"
| "op_value Op_Assign = 14"
| "op_value Op_Retire = 15"
| "op_value Op_Query = 20"
| "op_value Op_AdvanceEpoch = 30"
| "op_value Op_Fence = 31"
| "op_value Op_Stats = 40"
| "op_value Op_Checkpoint = 41"
| "op_value Op_Audit = 42"
| "op_value Op_Integrity = 43"
| "op_value Op_Ping = 50"
| "op_value Op_Shutdown = 60"
| "op_value Op_Response = 100"
| "op_value Op_Error = 101"

definition wire_ops :: "wire_op list" where
  "wire_ops = [Op_Hello, Op_HelloAck, Op_DefineClass, Op_DefineScope, Op_DefinePolicy, Op_DefineSubject, Op_Assign,
     Op_Retire, Op_Query, Op_AdvanceEpoch, Op_Fence, Op_Stats, Op_Checkpoint, Op_Audit, Op_Integrity, Op_Ping,
     Op_Shutdown, Op_Response, Op_Error]"

definition op_of :: "u16 \<Rightarrow> wire_op option" where
  "op_of v = List.find (\<lambda>o'. op_value o' = v) wire_ops"

fun op_name :: "wire_op \<Rightarrow> string" where
  "op_name Op_Hello = ''hello''"
| "op_name Op_HelloAck = ''hello_ack''"
| "op_name Op_DefineClass = ''define_class''"
| "op_name Op_DefineScope = ''define_scope''"
| "op_name Op_DefinePolicy = ''define_policy''"
| "op_name Op_DefineSubject = ''define_subject''"
| "op_name Op_Assign = ''assign''"
| "op_name Op_Retire = ''retire''"
| "op_name Op_Query = ''query''"
| "op_name Op_AdvanceEpoch = ''advance_epoch''"
| "op_name Op_Fence = ''fence''"
| "op_name Op_Stats = ''stats''"
| "op_name Op_Checkpoint = ''checkpoint''"
| "op_name Op_Audit = ''audit''"
| "op_name Op_Integrity = ''integrity''"
| "op_name Op_Ping = ''ping''"
| "op_name Op_Shutdown = ''shutdown''"
| "op_name Op_Response = ''response''"
| "op_name Op_Error = ''error''"

definition op_to_string :: "u16 \<Rightarrow> string" where
  "op_to_string v = (case op_of v of Some o' \<Rightarrow> op_name o' | None \<Rightarrow> ''unknown'')"

definition parse_op :: "string \<Rightarrow> wire_op option" where
  "parse_op tx =
     (let lowered = ascii_lower tx in
      if lowered = ''hello'' then Some Op_Hello
      else if lowered = ''define-class'' then Some Op_DefineClass
      else if lowered = ''define-scope'' then Some Op_DefineScope
      else if lowered = ''define-policy'' then Some Op_DefinePolicy
      else if lowered = ''define-subject'' then Some Op_DefineSubject
      else if lowered = ''assign'' then Some Op_Assign
      else if lowered = ''retire'' then Some Op_Retire
      else if lowered = ''query'' then Some Op_Query
      else if lowered = ''advance-epoch'' then Some Op_AdvanceEpoch
      else if lowered = ''fence'' then Some Op_Fence
      else if lowered = ''stats'' then Some Op_Stats
      else if lowered = ''checkpoint'' then Some Op_Checkpoint
      else if lowered = ''audit'' then Some Op_Audit
      else if lowered = ''integrity'' then Some Op_Integrity
      else if lowered = ''ping'' then Some Op_Ping
      else if lowered = ''shutdown'' then Some Op_Shutdown
      else None)"

section \<open>Frames\<close>

definition kFrameMagic :: u64 where "kFrameMagic = 0x50465731"
definition kHeaderBytes :: nat where "kHeaderBytes = 24"
definition kTrailerBytes :: nat where "kTrailerBytes = 4"

record frame_header =
  fh_format :: u16
  fh_op :: u16
  fh_flags :: u32
  fh_request_id :: u64
  fh_payload_length :: u32

text \<open>The declared length of an encoded frame is that of the payload, whatever the header says.\<close>

definition frame_prefix :: "frame_header \<Rightarrow> string \<Rightarrow> string" where
  "frame_prefix header payload =
     le_bytes kFrameMagic 4 @ le_bytes (ucast (fh_format header)) 2 @ le_bytes (ucast (fh_op header)) 2 @
     le_bytes (ucast (fh_flags header)) 4 @ le_bytes (fh_request_id header) 8 @ le_bytes (of_nat (length payload)) 4"

definition encode_frame :: "frame_header \<Rightarrow> string \<Rightarrow> string" where
  "encode_frame header payload =
     (let frame = frame_prefix header payload @ payload in frame @ le_bytes (crc_of frame) 4)"

definition validate_frame_header :: "frame_header \<Rightarrow> limits \<Rightarrow> void_result" where
  "validate_frame_header header limits =
     (if fh_format header \<noteq> kFormatVersion then
        Inl (make_error St_ProtocolError (cat [''frame declares format version '', u_dec (fh_format header),
          ''; this build implements '', u_dec kFormatVersion]))
      else if fh_flags header \<noteq> 0 then
        Inl (make_error St_ProtocolError (cat [''frame carries reserved flags ('', u_dec (fh_flags header),
          ''); reserved bits are rejected rather than ignored'']))
      else if unat (fh_payload_length header) > max_frame_payload limits then
        Inl (make_error St_LimitExceeded (cat [''frame declares a payload of '', u_dec (fh_payload_length header),
          '' bytes, limit is '', to_dec (max_frame_payload limits)]))
      else Inr ())"

definition verify_frame_checksum :: "string \<Rightarrow> frame_header \<Rightarrow> void_result" where
  "verify_frame_checksum buffer header =
     (let expected = kHeaderBytes + unat (fh_payload_length header) + kTrailerBytes in
      if length buffer \<noteq> expected then
        Inl (make_error St_ProtocolError (cat [''frame buffer holds '', to_dec (length buffer),
          '' bytes but the header describes '', to_dec expected]))
      else
        (let covered = length buffer - kTrailerBytes in
         if crc_of (take covered buffer) \<noteq> read_at buffer covered 4 then
           Inl (make_error St_ProtocolError ''frame checksum mismatch'')
         else Inr ()))"

text \<open>The fields of a received header, as both ends of a connection read them.\<close>

definition header_of :: "string \<Rightarrow> frame_header" where
  "header_of bytes =
     \<lparr>fh_format = ucast (read_at bytes 4 2), fh_op = ucast (read_at bytes 6 2), fh_flags = ucast (read_at bytes 8 4),
      fh_request_id = read_at bytes 12 8, fh_payload_length = ucast (read_at bytes 20 4)\<rparr>"

definition has_magic :: "string \<Rightarrow> bool" where
  "has_magic bytes \<longleftrightarrow> read_at bytes 0 4 = kFrameMagic"

section \<open>Requests\<close>

record hello_request =
  hq_publisher :: publisher_id
  hq_boot :: boot_id
  hq_client_label :: string
  hq_nonce :: u64

record hello_response =
  hr_node_id :: publisher_id
  hr_node_boot :: boot_id
  hr_epoch :: fabric_epoch
  hr_token :: fencing_token
  hr_state_generation :: generation
  hr_node_pid :: u64

definition encode_hello :: "hello_request \<Rightarrow> string" where
  "encode_hello r = enc_id (hq_publisher r) @ encode_boot (hq_boot r) @ enc_str (bound_text (hq_client_label r) 128) @
     enc_u64 (hq_nonce r)"

definition hello_fields :: "limits \<Rightarrow> hello_request decoder" where
  "hello_fields limits =
     dec_bind (dec_id limits) (\<lambda>publisher. dec_bind decode_boot (\<lambda>boot.
     dec_bind (dec_str 128) (\<lambda>label. dec_bind dec_u64 (\<lambda>nonce.
       dec_return \<lparr>hq_publisher = publisher, hq_boot = boot, hq_client_label = label, hq_nonce = nonce\<rparr>))))"

definition decode_hello :: "string \<Rightarrow> limits \<Rightarrow> hello_request result" where
  "decode_hello payload limits = dec_whole (hello_fields limits) payload"

definition encode_hello_response :: "hello_response \<Rightarrow> string" where
  "encode_hello_response r = enc_id (hr_node_id r) @ encode_boot (hr_node_boot r) @ enc_u64 (hr_epoch r) @
     enc_u64 (hr_token r) @ enc_u64 (hr_state_generation r) @ enc_u64 (hr_node_pid r)"

definition hello_response_fields :: "limits \<Rightarrow> hello_response decoder" where
  "hello_response_fields limits =
     dec_bind (dec_id limits) (\<lambda>node_id. dec_bind decode_boot (\<lambda>node_boot.
     dec_bind dec_u64 (\<lambda>epoch. dec_bind dec_u64 (\<lambda>token. dec_bind dec_u64 (\<lambda>g. dec_bind dec_u64 (\<lambda>pid.
       dec_return \<lparr>hr_node_id = node_id, hr_node_boot = node_boot, hr_epoch = epoch, hr_token = token,
         hr_state_generation = g, hr_node_pid = pid\<rparr>))))))"

definition decode_hello_response :: "string \<Rightarrow> limits \<Rightarrow> hello_response result" where
  "decode_hello_response payload limits = dec_whole (hello_response_fields limits) payload"

definition encode_session :: "fabric_session \<Rightarrow> string" where
  "encode_session s = enc_id (fs_publisher s) @ encode_boot (fs_boot s) @ enc_u64 (fs_epoch s) @ enc_u64 (fs_token s)"

definition decode_session :: "limits \<Rightarrow> fabric_session decoder" where
  "decode_session limits =
     dec_bind (dec_id limits) (\<lambda>publisher. dec_bind decode_boot (\<lambda>boot.
     dec_bind dec_u64 (\<lambda>epoch. dec_bind dec_u64 (\<lambda>token.
       dec_return \<lparr>fs_publisher = publisher, fs_boot = boot, fs_epoch = epoch, fs_token = token\<rparr>))))"

definition encode_retire_request :: "assignment_id \<times> string \<Rightarrow> string" where
  "encode_retire_request r = enc_id (fst r) @ enc_str (bound_text (snd r) 512)"

definition retire_request_fields :: "limits \<Rightarrow> (assignment_id \<times> string) decoder" where
  "retire_request_fields limits =
     dec_bind (dec_id limits) (\<lambda>i. dec_bind (dec_str (max_note_length limits)) (\<lambda>reason. dec_return (i, reason)))"

definition decode_retire_request :: "string \<Rightarrow> limits \<Rightarrow> (assignment_id \<times> string) result" where
  "decode_retire_request payload limits = dec_whole (retire_request_fields limits) payload"

record fence_request =
  fq_publisher :: publisher_id
  fq_boot :: boot_id
  fq_reason :: string

definition encode_fence_request :: "fence_request \<Rightarrow> string" where
  "encode_fence_request r = enc_id (fq_publisher r) @ encode_boot (fq_boot r) @ enc_str (bound_text (fq_reason r) 512)"

definition fence_request_fields :: "limits \<Rightarrow> fence_request decoder" where
  "fence_request_fields limits =
     dec_bind (dec_id limits) (\<lambda>publisher. dec_bind decode_boot (\<lambda>boot.
     dec_bind (dec_str (max_note_length limits)) (\<lambda>reason.
       dec_return \<lparr>fq_publisher = publisher, fq_boot = boot, fq_reason = reason\<rparr>)))"

definition decode_fence_request :: "string \<Rightarrow> limits \<Rightarrow> fence_request result" where
  "decode_fence_request payload limits = dec_whole (fence_request_fields limits) payload"

definition encode_reason :: "string \<Rightarrow> string" where
  "encode_reason reason = enc_str (bound_text reason 512)"

definition decode_reason :: "string \<Rightarrow> limits \<Rightarrow> string result" where
  "decode_reason payload limits = dec_whole (dec_str (max_note_length limits)) payload"

section \<open>Replies\<close>

record stats_reply =
  sr_stats :: fabric_stats
  sr_state :: state_stats
  sr_node_boot :: boot_id
  sr_node_id :: publisher_id

definition stats_fields :: "fabric_stats \<Rightarrow> state_stats \<Rightarrow> u64 list" where
  "stats_fields s t =
     [st_evaluations s, st_evaluations_assigned s, st_evaluations_inherited s, st_evaluations_overridden s,
      st_evaluations_conflict s, st_evaluations_unknown s, st_evaluations_stale s, st_evaluations_fenced s,
      st_evaluations_rejected s, st_mutations_accepted s, st_mutations_rejected s, st_idempotent_noops s,
      st_durable_commits s, st_recoveries s, st_epoch_advances s, st_fences_issued s, st_authorities_granted s,
      ss_classes t, ss_scopes t, ss_policies t, ss_subjects t, ss_assignments t, ss_retired_assignments t,
      ss_publishers t, ss_fenced_boots t, ss_audit_entries t, ss_durable_bytes t, ss_journal_records t,
      ss_state_generation t, ss_epoch t]"

definition fabric_stats_from :: "u64 list \<Rightarrow> fabric_stats" where
  "fabric_stats_from v = \<lparr>st_evaluations = v ! 0, st_evaluations_assigned = v ! 1, st_evaluations_inherited = v ! 2,
     st_evaluations_overridden = v ! 3, st_evaluations_conflict = v ! 4, st_evaluations_unknown = v ! 5,
     st_evaluations_stale = v ! 6, st_evaluations_fenced = v ! 7, st_evaluations_rejected = v ! 8,
     st_mutations_accepted = v ! 9, st_mutations_rejected = v ! 10, st_idempotent_noops = v ! 11,
     st_durable_commits = v ! 12, st_recoveries = v ! 13, st_epoch_advances = v ! 14, st_fences_issued = v ! 15,
     st_authorities_granted = v ! 16\<rparr>"

definition state_stats_from :: "u64 list \<Rightarrow> state_stats" where
  "state_stats_from v = \<lparr>ss_classes = v ! 17, ss_scopes = v ! 18, ss_policies = v ! 19, ss_subjects = v ! 20,
     ss_assignments = v ! 21, ss_retired_assignments = v ! 22, ss_publishers = v ! 23, ss_fenced_boots = v ! 24,
     ss_audit_entries = v ! 25, ss_durable_bytes = v ! 26, ss_journal_records = v ! 27,
     ss_state_generation = v ! 28, ss_epoch = v ! 29\<rparr>"

definition encode_stats_reply :: "stats_reply \<Rightarrow> string" where
  "encode_stats_reply r = enc_id (sr_node_id r) @ encode_boot (sr_node_boot r) @
     concat (map enc_u64 (stats_fields (sr_stats r) (sr_state r)))"

definition stats_reply_fields :: "limits \<Rightarrow> stats_reply decoder" where
  "stats_reply_fields limits =
     dec_bind (dec_id limits) (\<lambda>node_id. dec_bind decode_boot (\<lambda>node_boot. dec_bind (dec_repeat 30 dec_u64) (\<lambda>v.
       dec_return \<lparr>sr_stats = fabric_stats_from v, sr_state = state_stats_from v, sr_node_boot = node_boot,
         sr_node_id = node_id\<rparr>)))"

definition decode_stats_reply :: "string \<Rightarrow> limits \<Rightarrow> stats_reply result" where
  "decode_stats_reply payload limits = dec_whole (stats_reply_fields limits) payload"

definition encode_integrity_reply :: "integrity_report \<Rightarrow> string" where
  "encode_integrity_reply r =
     enc_bool (ir_ok r) @ enc_u8 (health_value (ir_health r)) @ enc_u64 (of_nat (ir_records_scanned r)) @
     enc_u64 (of_nat (ir_records_applied r)) @ enc_u64 (of_nat (ir_records_rejected r)) @
     enc_u64 (of_nat (ir_unfinished_attempts r)) @ enc_u64 (of_nat (ir_trailing_bytes_discarded r)) @
     enc_str (bound_text (ir_detail r) 1024) @ enc_raw (ir_state_digest r) @ enc_u64 (ir_state_generation r) @
     enc_u64 (ir_epoch r)"

definition dec_health :: "health decoder" where
  "dec_health = dec_enum 1 (\<lambda>_. ''integrity reply carries an unknown health'') health_of"

definition integrity_reply_fields :: "integrity_report decoder" where
  "integrity_reply_fields =
     dec_bind dec_bool (\<lambda>ok. dec_bind dec_health (\<lambda>health.
     dec_bind dec_u64 (\<lambda>scanned. dec_bind dec_u64 (\<lambda>applied'. dec_bind dec_u64 (\<lambda>rejected.
     dec_bind dec_u64 (\<lambda>unfinished. dec_bind dec_u64 (\<lambda>discarded.
     dec_bind (dec_str 1024) (\<lambda>detail. dec_bind (dec_bytes 32) (\<lambda>state_digest'.
     dec_bind dec_u64 (\<lambda>g. dec_bind dec_u64 (\<lambda>epoch.
       dec_return \<lparr>ir_ok = ok, ir_health = health, ir_records_scanned = unat scanned,
         ir_records_applied = unat applied', ir_records_rejected = unat rejected,
         ir_unfinished_attempts = unat unfinished, ir_trailing_bytes_discarded = unat discarded,
         ir_detail = detail, ir_state_digest = state_digest', ir_state_generation = g, ir_epoch = epoch\<rparr>)))))))))))"

definition decode_integrity_reply :: "string \<Rightarrow> integrity_report result" where
  "decode_integrity_reply payload = dec_whole integrity_reply_fields payload"

definition encode_error_reply :: "status_code \<Rightarrow> string \<Rightarrow> string" where
  "encode_error_reply code message = enc_u16 (status_code_value code) @ enc_str (bound_text message 1024)"

definition error_reply_fields :: "(status_code \<times> string) decoder" where
  "error_reply_fields =
     dec_bind dec_u16 (\<lambda>v.
       if v > 26 then dec_fail (make_error St_ProtocolError ''error reply carries an undefined status code'')
       else dec_bind (dec_str 1024) (\<lambda>message. dec_return (status_code_of v, message)))"

definition decode_error_reply :: "string \<Rightarrow> (status_code \<times> string) result" where
  "decode_error_reply payload = dec_whole error_reply_fields payload"

section \<open>Frames are read back as they were written\<close>

lemma op_of_value [simp]: "op_of (op_value o') = Some o'"
  by (cases o') (simp_all add: op_of_def wire_ops_def)

lemma op_of_Some: "op_of v = Some o' \<longleftrightarrow> v = op_value o'"
proof
  assume "op_of v = Some o'"
  then show "v = op_value o'" by (auto simp: op_of_def find_Some_iff)
qed simp

lemma kFrameMagic_small [simp]: "take_bit 32 kFrameMagic = kFrameMagic"
  by (simp add: kFrameMagic_def take_bit_word_eq_self)

lemma length_frame_prefix [simp]: "length (frame_prefix h payload) = kHeaderBytes"
  by (simp add: frame_prefix_def kHeaderBytes_def)

lemma length_encode_frame [simp]: "length (encode_frame h payload) = kHeaderBytes + length payload + kTrailerBytes"
  by (simp add: encode_frame_def Let_def kTrailerBytes_def)

lemma frame_nonempty [simp]: "encode_frame h payload \<noteq> []"
proof
  assume "encode_frame h payload = []"
  then show False using length_encode_frame[of h payload] by (simp add: kHeaderBytes_def)
qed

text \<open>A field is narrowed to its width when it is read and widened when it is written.\<close>

lemma ucast_down_up [simp]:
  "(ucast (take_bit 16 (ucast (v :: u16) :: u64)) :: u16) = v" "(ucast (take_bit 32 (ucast (w :: u32) :: u64)) :: u32) = w"
  by (rule bit_word_eqI, simp add: bit_simps)+

lemma ucast_up_down [simp]:
  "(ucast (ucast (read_at b i 2) :: u16) :: u64) = read_at b i 2" "(ucast (ucast (read_at b i 4) :: u32) :: u64) = read_at b i 4"
  by (rule bit_word_eqI, auto simp: bit_simps read_at_def bit_read_le)+

lemma frame_fields:
  "has_magic (frame_prefix h payload @ rest)"
  "header_of (frame_prefix h payload @ rest) = h\<lparr>fh_payload_length := of_nat (length payload)\<rparr>"
proof -
  let ?m = "le_bytes kFrameMagic 4" and ?f = "le_bytes (ucast (fh_format h)) 2" and ?o = "le_bytes (ucast (fh_op h)) 2"
  let ?g = "le_bytes (ucast (fh_flags h)) 4" and ?r = "le_bytes (fh_request_id h) 8" and ?l = "le_bytes (of_nat (length payload)) 4"
  let ?b = "frame_prefix h payload @ rest"
  have b: "?b = ?m @ ?f @ ?o @ ?g @ ?r @ ?l @ rest" by (simp add: frame_prefix_def)
  have "read_at ?b 0 4 = kFrameMagic" using read_at_field[of "[]" 0 kFrameMagic 4 "?f @ ?o @ ?g @ ?r @ ?l @ rest"] by (simp add: b)
  then show "has_magic ?b" by (simp add: has_magic_def)
  have "read_at ?b 4 2 = take_bit 16 (ucast (fh_format h))"
    using read_at_field[of ?m 4 "ucast (fh_format h)" 2 "?o @ ?g @ ?r @ ?l @ rest"] by (simp add: b)
  moreover have "read_at ?b 6 2 = take_bit 16 (ucast (fh_op h))"
    using read_at_field[of "?m @ ?f" 6 "ucast (fh_op h)" 2 "?g @ ?r @ ?l @ rest"] by (simp add: b)
  moreover have "read_at ?b 8 4 = take_bit 32 (ucast (fh_flags h))"
    using read_at_field[of "?m @ ?f @ ?o" 8 "ucast (fh_flags h)" 4 "?r @ ?l @ rest"] by (simp add: b)
  moreover have "read_at ?b 12 8 = fh_request_id h"
    using read_at_field[of "?m @ ?f @ ?o @ ?g" 12 "fh_request_id h" 8 "?l @ rest"] by (simp add: b)
  moreover have "read_at ?b 20 4 = take_bit 32 (of_nat (length payload))"
    using read_at_field[of "?m @ ?f @ ?o @ ?g @ ?r" 20 "of_nat (length payload)" 4 rest] by (simp add: b)
  moreover have "(ucast (take_bit 32 (of_nat (length payload) :: u64)) :: u32) = of_nat (length payload)"
    by (rule bit_word_eqI) (simp add: bit_simps)
  ultimately show "header_of ?b = h\<lparr>fh_payload_length := of_nat (length payload)\<rparr>" by (simp add: header_of_def)
qed

lemma frame_prefix_read:
  assumes "kHeaderBytes \<le> length b" "has_magic b" "unat (fh_payload_length (header_of b)) = length payload"
  shows "take kHeaderBytes b = frame_prefix (header_of b) payload"
proof -
  have cut: "take (i + w) (drop k b) = take i (drop k b) @ take w (drop (k + i) b)" for i w k
    by (simp add: take_add add.commute)
  have "(of_nat (length payload) :: u64) = read_at b 20 4"
  proof -
    have "(of_nat (length payload) :: u64) = of_nat (unat (fh_payload_length (header_of b)))" using assms(3) by simp
    also have "\<dots> = ucast (fh_payload_length (header_of b))" by simp
    also have "\<dots> = read_at b 20 4" unfolding header_of_def frame_header.simps by (rule ucast_up_down)
    finally show ?thesis .
  qed
  moreover have "le_bytes kFrameMagic 4 = take 4 (drop 0 b)"
    using assms(1,2) le_bytes_read_at[of 4 0 b] by (simp add: has_magic_def kHeaderBytes_def)
  ultimately have "frame_prefix (header_of b) payload =
      take 4 (drop 0 b) @ take 2 (drop 4 b) @ take 2 (drop 6 b) @ take 4 (drop 8 b) @ take 8 (drop 12 b) @ take 4 (drop 20 b)"
    using assms(1) by (simp add: frame_prefix_def header_of_def le_bytes_read_at kHeaderBytes_def)
  also have "\<dots> = take 24 (drop 0 b)"
    using cut[of 4 20 0] cut[of 2 18 4] cut[of 2 16 6] cut[of 4 12 8] cut[of 8 4 12] by simp
  finally show ?thesis by (simp add: kHeaderBytes_def)
qed

definition frame_ok :: "limits \<Rightarrow> frame_header \<Rightarrow> string \<Rightarrow> bool" where
  "frame_ok limits h payload \<longleftrightarrow> fh_format h = kFormatVersion \<and> fh_flags h = 0 \<and>
     unat (fh_payload_length h) = length payload \<and> length payload \<le> max_frame_payload limits"

lemma frame_verified:
  assumes "verify_frame_checksum b h = Inr ()" "header_of b = h" "has_magic b"
  shows "b = encode_frame h (take (unat (fh_payload_length h)) (drop kHeaderBytes b))"
proof -
  let ?n = "unat (fh_payload_length h)"
  let ?p = "take ?n (drop kHeaderBytes b)"
  have len: "length b = kHeaderBytes + ?n + kTrailerBytes" and crc: "crc_of (take (kHeaderBytes + ?n) b) = read_at b (kHeaderBytes + ?n) 4"
    using assms(1) by (auto simp: verify_frame_checksum_def Let_def split: if_splits)
  have "take (kHeaderBytes + ?n) b = frame_prefix h ?p @ ?p"
    using frame_prefix_read[of b ?p] len assms(2,3) by (simp add: take_add)
  moreover have "drop (kHeaderBytes + ?n) b = le_bytes (read_at b (kHeaderBytes + ?n) 4) 4"
    using le_bytes_read_at[of 4 "kHeaderBytes + ?n" b] len by (simp add: kTrailerBytes_def)
  ultimately show ?thesis
    unfolding encode_frame_def Let_def crc[symmetric] by (metis append_take_drop_id)
qed

lemma frame_ok_length: "frame_ok limits h payload \<Longrightarrow> of_nat (length payload) = fh_payload_length h"
proof -
  assume "frame_ok limits h payload"
  then have "of_nat (length payload) = (of_nat (unat (fh_payload_length h)) :: u32)" by (simp add: frame_ok_def)
  then show ?thesis by simp
qed

lemma encoded_frame_ok:
  assumes "frame_ok limits h payload"
  shows "has_magic (encode_frame h payload @ rest)" "header_of (encode_frame h payload @ rest) = h"
    and "validate_frame_header h limits = Inr ()" "verify_frame_checksum (encode_frame h payload) h = Inr ()"
    and "take (unat (fh_payload_length h)) (drop kHeaderBytes (encode_frame h payload)) = payload"
proof -
  note len = frame_ok_length[OF assms]
  show "has_magic (encode_frame h payload @ rest)" "header_of (encode_frame h payload @ rest) = h"
    using frame_fields[of h payload "payload @ le_bytes (crc_of (frame_prefix h payload @ payload)) 4 @ rest"] len
    by (simp_all add: encode_frame_def Let_def)
  show "validate_frame_header h limits = Inr ()" using assms by (simp add: validate_frame_header_def frame_ok_def)
  have n: "unat (fh_payload_length h) = length payload" using assms by (simp add: frame_ok_def)
  show "verify_frame_checksum (encode_frame h payload) h = Inr ()"
    using read_at_field[of "frame_prefix h payload @ payload" "kHeaderBytes + length payload" "crc_of (frame_prefix h payload @ payload)" 4 "[]"] n
    by (simp add: verify_frame_checksum_def encode_frame_def Let_def kTrailerBytes_def)
  show "take (unat (fh_payload_length h)) (drop kHeaderBytes (encode_frame h payload)) = payload"
    using n by (simp add: encode_frame_def Let_def)
qed

section \<open>Messages are canonical\<close>

lemma bound_text_short [simp]: "length tx \<le> limit \<Longrightarrow> bound_text tx limit = tx"
  using bound_text_correct by blast

definition hello_ok :: "limits \<Rightarrow> hello_request \<Rightarrow> bool" where
  "hello_ok limits r \<longleftrightarrow> id_ok limits (hq_publisher r) \<and> boot_wf (hq_boot r) \<and> str_ok 128 (hq_client_label r)"

definition hello_response_ok :: "limits \<Rightarrow> hello_response \<Rightarrow> bool" where
  "hello_response_ok limits r \<longleftrightarrow> id_ok limits (hr_node_id r) \<and> boot_wf (hr_node_boot r)"

definition session_ok :: "limits \<Rightarrow> fabric_session \<Rightarrow> bool" where
  "session_ok limits s \<longleftrightarrow> id_ok limits (fs_publisher s) \<and> boot_wf (fs_boot s)"

definition reason_ok :: "limits \<Rightarrow> string \<Rightarrow> bool" where
  "reason_ok limits reason \<longleftrightarrow> length reason \<le> max_note_length limits \<and> length reason \<le> 512"

definition retire_ok :: "limits \<Rightarrow> assignment_id \<times> string \<Rightarrow> bool" where
  "retire_ok limits r \<longleftrightarrow> id_ok limits (fst r) \<and> reason_ok limits (snd r)"

definition fence_request_ok :: "limits \<Rightarrow> fence_request \<Rightarrow> bool" where
  "fence_request_ok limits r \<longleftrightarrow> id_ok limits (fq_publisher r) \<and> boot_wf (fq_boot r) \<and> reason_ok limits (fq_reason r)"

definition stats_reply_ok :: "limits \<Rightarrow> stats_reply \<Rightarrow> bool" where
  "stats_reply_ok limits r \<longleftrightarrow> id_ok limits (sr_node_id r) \<and> boot_wf (sr_node_boot r)"

definition integrity_reply_ok :: "integrity_report \<Rightarrow> bool" where
  "integrity_reply_ok r \<longleftrightarrow> str_ok 1024 (ir_detail r) \<and> length (ir_state_digest r) = 32 \<and>
     list_all (\<lambda>n. n < 2 ^ 64) [ir_records_scanned r, ir_records_applied r, ir_records_rejected r,
       ir_unfinished_attempts r, ir_trailing_bytes_discarded r]"

interpretation hello: canonical_codec encode_hello "hello_fields limits" "hello_ok limits" for limits
  by unfold_locales
    (auto simp: encode_hello_def hello_fields_def bind_encs bind_iffs dec_return_def hello_ok_def str_ok_def)

interpretation hello_response: canonical_codec encode_hello_response "hello_response_fields limits"
  "hello_response_ok limits" for limits
  by unfold_locales
    (auto simp: encode_hello_response_def hello_response_fields_def bind_encs bind_iffs dec_return_def
      hello_response_ok_def)

interpretation session_block: canonical_codec encode_session "decode_session limits" "session_ok limits" for limits
  by unfold_locales
    (auto simp: encode_session_def decode_session_def bind_encs bind_iffs dec_return_def session_ok_def)

text \<open>Reasons are truncated to 512 bytes by the encoder and bounded by the configured note length
  when they are read, so they are canonical under limits that respect the compiled ceiling.\<close>

lemma reason_str: "reason_ok limits t \<Longrightarrow> str_ok (max_note_length limits) t \<and> bound_text t 512 = t"
  "max_note_length limits \<le> 512 \<Longrightarrow> str_ok (max_note_length limits) t \<longleftrightarrow> reason_ok limits t"
  by (auto simp: reason_ok_def str_ok_def)

interpretation reason: field_codec encode_reason "dec_str (max_note_length limits)" "reason_ok limits" for limits
  by unfold_locales (simp add: encode_reason_def reason_str str.dec_enc)

interpretation retire_request: field_codec encode_retire_request "retire_request_fields limits" "retire_ok limits" for limits
  by unfold_locales
    (auto simp: encode_retire_request_def retire_request_fields_def bind_encs reason_str dec_return_def retire_ok_def)

interpretation fence_request: field_codec encode_fence_request "fence_request_fields limits" "fence_request_ok limits" for limits
  by unfold_locales
    (auto simp: encode_fence_request_def fence_request_fields_def bind_encs reason_str dec_return_def fence_request_ok_def)

lemma note_ceiling: "limits_within_compiled_ceiling limits \<Longrightarrow> max_note_length limits \<le> 512"
  by (simp add: limits_within_compiled_ceiling_def compiled_limits_ceiling_def)

lemma reasons_canonical:
  assumes "limits_within_compiled_ceiling limits"
  shows "canonical_codec encode_reason (dec_str (max_note_length limits)) (reason_ok limits)"
    and "canonical_codec encode_retire_request (retire_request_fields limits) (retire_ok limits)"
    and "canonical_codec encode_fence_request (fence_request_fields limits) (fence_request_ok limits)"
proof -
  note n = reason_str(2)[OF note_ceiling[OF assms]]
  show "canonical_codec encode_reason (dec_str (max_note_length limits)) (reason_ok limits)"
    by unfold_locales (auto simp: encode_reason_def n str.dec_iff reason_str)
  show "canonical_codec encode_retire_request (retire_request_fields limits) (retire_ok limits)"
    by unfold_locales
      (auto simp: encode_retire_request_def retire_request_fields_def bind_iffs n dec_return_def retire_ok_def reason_str)
  show "canonical_codec encode_fence_request (fence_request_fields limits) (fence_request_ok limits)"
    by unfold_locales
      (auto simp: encode_fence_request_def fence_request_fields_def bind_iffs n dec_return_def fence_request_ok_def reason_str)
qed

text \<open>The thirty counters of a statistics reply.\<close>

lemma stats_from_fields [simp]:
  "fabric_stats_from (stats_fields s t) = s" "state_stats_from (stats_fields s t) = t"
  by (simp_all add: fabric_stats_from_def state_stats_from_def stats_fields_def)

lemma length_stats_fields [simp]: "length (stats_fields s t) = 30"
  by (simp add: stats_fields_def)

lemma fields_from_stats: "length v = 30 \<Longrightarrow> stats_fields (fabric_stats_from v) (state_stats_from v) = v"
  by (rule nth_equalityI)
    (auto simp: fabric_stats_from_def state_stats_from_def stats_fields_def less_Suc_eq numeral_eq_Suc)

interpretation counters: canonical_codec "\<lambda>v. concat (map enc_u64 v)" "dec_repeat 30 dec_u64" "\<lambda>v. length v = 30"
  by unfold_locales (use u64.dec_repeat_iff[of 30] in \<open>auto simp: list_all_iff\<close>)

interpretation stats_reply: canonical_codec encode_stats_reply "stats_reply_fields limits" "stats_reply_ok limits" for limits
proof unfold_locales
  show "stats_reply_fields limits (encode_stats_reply v @ rest) = Inr (v, rest)" if "stats_reply_ok limits v" for v rest
    using that
    by (simp add: stats_reply_fields_def encode_stats_reply_def bind_encs counters.bind_enc stats_reply_ok_def dec_return_def)
  show "stats_reply_ok limits v \<and> s = encode_stats_reply v @ rest" if "stats_reply_fields limits s = Inr (v, rest)" for s v rest
    using that
    by (auto simp: stats_reply_fields_def encode_stats_reply_def bind_iffs counters.bind_iff stats_reply_ok_def
        dec_return_def fields_from_stats)
qed

interpretation health_byte: canonical_codec "\<lambda>h. enc_u8 (health_value h)" dec_health "\<lambda>_. True"
  unfolding dec_health_def
proof (rule enum_canonical)
  show "health_value (health_of v) = v" if "\<not> v > 1" for v
  proof -
    have "v = 0 \<or> v = 1" using that by (auto simp: word_less_nat_alt word_unat_eq_iff not_less le_Suc_eq)
    then show ?thesis by (auto simp: health_of_def)
  qed
qed simp_all

lemma of_nat_bounded: "n < 2 ^ 64 \<Longrightarrow> unat (of_nat n :: u64) = n"
  by (simp add: unat_of_nat take_bit_nat_eq_self)

lemma unat_bounded: "unat (v :: u64) < 2 ^ 64"
  using unsigned_less[of v] by simp

interpretation integrity_reply: canonical_codec encode_integrity_reply integrity_reply_fields integrity_reply_ok
proof unfold_locales
  show "integrity_reply_fields (encode_integrity_reply v @ rest) = Inr (v, rest)" if "integrity_reply_ok v" for v rest
  proof -
    have "bound_text (ir_detail v) 1024 = ir_detail v" using that by (simp add: integrity_reply_ok_def str_ok_def)
    then show ?thesis
      using that by (simp add: integrity_reply_fields_def encode_integrity_reply_def bind_encs health_byte.bind_enc
        integrity_reply_ok_def dec_return_def of_nat_bounded)
  qed
  show "integrity_reply_ok v \<and> s = encode_integrity_reply v @ rest" if "integrity_reply_fields s = Inr (v, rest)" for s v rest
    using that unat_bounded
    by (auto simp: integrity_reply_fields_def encode_integrity_reply_def bind_iffs health_byte.bind_iff
        integrity_reply_ok_def dec_return_def str_ok_def)
qed

lemma status_value_of: "\<not> 26 < w \<Longrightarrow> status_code_value (status_code_of w) = w"
proof -
  assume "\<not> 26 < w"
  then have "unat w < 27" by (simp add: word_less_nat_alt)
  moreover have "\<forall>n \<in> {..<27}. status_code_value (status_codes ! n) = of_nat n"
    by (simp add: status_codes_def lessThan_Suc numeral_eq_Suc)
  ultimately show ?thesis by (simp add: status_code_of_def)
qed

interpretation error_reply: canonical_codec "\<lambda>(c, t). encode_error_reply c t" error_reply_fields "\<lambda>(c, t). str_ok 1024 t"
proof unfold_locales
  show "error_reply_fields ((case v of (c, t) \<Rightarrow> encode_error_reply c t) @ rest) = Inr (v, rest)"
    if "case v of (c, t) \<Rightarrow> str_ok 1024 t" for v rest
  proof -
    obtain c t where v: "v = (c, t)" by (cases v)
    then have "str_ok 1024 t" "bound_text t 1024 = t" using that by (simp_all add: str_ok_def)
    then show ?thesis by (simp add: v error_reply_fields_def encode_error_reply_def bind_encs dec_return_def)
  qed
  show "(case v of (c, t) \<Rightarrow> str_ok 1024 t) \<and> s = (case v of (c, t) \<Rightarrow> encode_error_reply c t) @ rest"
    if d: "error_reply_fields s = Inr (v, rest)" for s v rest
  proof -
    obtain w t where w: "s = enc_u16 w @ enc_str t @ rest" "\<not> 26 < w" "v = (status_code_of w, t)" "str_ok 1024 t"
      using d by (auto simp: error_reply_fields_def bind_iffs dec_return_def dec_fail_def split: if_splits)
    have "status_code_value (status_code_of w) = w"
      using w(2) by (rule status_value_of)
    then show ?thesis using w by (simp add: encode_error_reply_def str_ok_def)
  qed
qed

section \<open>Properties\<close>

text \<open>C26: Frames are canonical and checked as a whole. A buffer passes the magic, the header checks
  and the checksum exactly when it is the encoding of its header and some payload of the declared
  length; that payload is the one the reader takes from the buffer, and the header of an encoded
  frame is read back whatever follows it in the stream.\<close>

theorem frame_canonical:
  "(has_magic b \<and> header_of b = h \<and> validate_frame_header h limits = Inr () \<and> verify_frame_checksum b h = Inr () \<and>
      payload = take (unat (fh_payload_length h)) (drop kHeaderBytes b)) =
     (frame_ok limits h payload \<and> b = encode_frame h payload) \<and>
   (frame_ok limits h payload \<longrightarrow> has_magic (encode_frame h payload @ rest) \<and> header_of (encode_frame h payload @ rest) = h)"
proof -
  have "frame_ok limits h payload \<and> b = encode_frame h payload"
    if "has_magic b" "header_of b = h" and v: "validate_frame_header h limits = Inr ()" and c: "verify_frame_checksum b h = Inr ()"
      and p: "payload = take (unat (fh_payload_length h)) (drop kHeaderBytes b)"
  proof -
    have "length payload = unat (fh_payload_length h)"
      using c p by (auto simp: verify_frame_checksum_def Let_def split: if_splits)
    then have "frame_ok limits h payload" using v by (auto simp: validate_frame_header_def frame_ok_def split: if_splits)
    then show ?thesis using frame_verified[OF c that(2,1)] p by simp
  qed
  moreover have "has_magic b \<and> header_of b = h \<and> validate_frame_header h limits = Inr () \<and> verify_frame_checksum b h = Inr () \<and>
      payload = take (unat (fh_payload_length h)) (drop kHeaderBytes b)"
    if "frame_ok limits h payload" "b = encode_frame h payload"
    using encoded_frame_ok(1,2)[OF that(1), of "[]"] encoded_frame_ok(3-5)[OF that(1)] that(2) by simp
  ultimately show ?thesis using encoded_frame_ok(1,2)[of limits h payload rest] by blast
qed

theorem frame_canonical_witness:
  "has_magic (encode_frame \<lparr>fh_format = kFormatVersion, fh_op = op_value Op_Ping, fh_flags = 0, fh_request_id = 9, fh_payload_length = 2\<rparr> ''ok'' @ ''x'')"
  using frame_canonical[of "encode_frame \<lparr>fh_format = kFormatVersion, fh_op = op_value Op_Ping, fh_flags = 0, fh_request_id = 9, fh_payload_length = 2\<rparr> ''ok''"
      "\<lparr>fh_format = kFormatVersion, fh_op = op_value Op_Ping, fh_flags = 0, fh_request_id = 9, fh_payload_length = 2\<rparr>"
      compiled_limits_ceiling "''ok''" "''x''"]
  by (simp add: frame_ok_def compiled_limits_ceiling_def)

text \<open>C27: Messages are canonical, with three exceptions. Under limits within the compiled ceiling, each
  of these payloads has exactly one accepted encoding (decoding it yields a message exactly when the
  payload is the encoding of that message and the message respects the limits): registrations and their
  answers, session blocks, definitions of scopes, policies and subjects, assignments, retirements,
  fences and reasons; generation, epoch, statistics, integrity and error replies. Definitions of
  classes, queries and decisions only round-trip: decoding the encoding of one that respects the limits
  gives it back, but the value field of an absent rank or epoch is ignored when it is read.\<close>

theorem messages_canonical:
  assumes "limits_within_compiled_ceiling limits"
  shows "(decode_hello payload limits = Inr hello \<longleftrightarrow> hello_ok limits hello \<and> payload = encode_hello hello) \<and>
    (decode_hello_response payload limits = Inr answer \<longleftrightarrow> hello_response_ok limits answer \<and> payload = encode_hello_response answer) \<and>
    (dec_whole (decode_session limits) payload = Inr session' \<longleftrightarrow> session_ok limits session' \<and> payload = encode_session session') \<and>
    (decode_scope_definition payload limits = Inr sd \<longleftrightarrow> scope_ok limits sd \<and> payload = encode_scope_definition sd) \<and>
    (decode_policy_definition payload limits = Inr pd \<longleftrightarrow> policy_ok limits pd \<and> payload = encode_policy_definition pd) \<and>
    (decode_subject_definition payload limits = Inr ud \<longleftrightarrow> subject_ok limits ud \<and> payload = encode_subject_definition ud) \<and>
    (decode_assignment payload limits = Inr a \<longleftrightarrow> assignment_ok limits a \<and> payload = encode_assignment a) \<and>
    (decode_retire_request payload limits = Inr retire \<longleftrightarrow> retire_ok limits retire \<and> payload = encode_retire_request retire) \<and>
    (decode_fence_request payload limits = Inr fence' \<longleftrightarrow> fence_request_ok limits fence' \<and> payload = encode_fence_request fence') \<and>
    (decode_reason payload limits = Inr reason' \<longleftrightarrow> reason_ok limits reason' \<and> payload = encode_reason reason') \<and>
    (decode_generation payload = Inr g \<longleftrightarrow> payload = encode_generation g) \<and>
    (decode_epoch payload = Inr epoch \<longleftrightarrow> payload = encode_epoch epoch) \<and>
    (decode_stats_reply payload limits = Inr stats \<longleftrightarrow> stats_reply_ok limits stats \<and> payload = encode_stats_reply stats) \<and>
    (decode_integrity_reply payload = Inr report \<longleftrightarrow> integrity_reply_ok report \<and> payload = encode_integrity_reply report) \<and>
    (decode_error_reply payload = Inr (code, message) \<longleftrightarrow> str_ok 1024 message \<and> payload = encode_error_reply code message) \<and>
    (class_ok limits c \<longrightarrow> decode_class_definition (encode_class_definition c) limits = Inr c) \<and>
    (query_ok limits q \<longrightarrow> decode_query (encode_query q) limits = Inr q) \<and>
    (decision_ok limits d \<longrightarrow> decode_decision (encode_decision d) limits = Inr d)"
  using canonical_codec.dec_whole_iff[OF reasons_canonical(1)[OF assms]] canonical_codec.dec_whole_iff[OF reasons_canonical(2)[OF assms]]
    canonical_codec.dec_whole_iff[OF reasons_canonical(3)[OF assms]]
    error_reply.dec_whole_iff[where v = "(code, message)"]
  by (simp add: decode_hello_def hello.dec_whole_iff decode_hello_response_def hello_response.dec_whole_iff
      session_block.dec_whole_iff definition_encodings_canonical decode_retire_request_def decode_fence_request_def decode_reason_def
      decode_generation_def encode_generation_def decode_epoch_def encode_epoch_def u64.dec_whole_iff
      decode_stats_reply_def stats_reply.dec_whole_iff decode_integrity_reply_def integrity_reply.dec_whole_iff
      decode_error_reply_def decode_class_definition_def decode_query_def decode_decision_def
      class_definition.dec_whole_enc query.dec_whole_enc decision.dec_whole_enc)

theorem messages_canonical_witness:
  "decode_reason (encode_reason ''done'') compiled_limits_ceiling = Inr ''done'' \<and>
   decode_query (encode_query sample_query) compiled_limits_ceiling = Inr sample_query"
proof -
  have "query_ok compiled_limits_ceiling sample_query"
    by (simp add: query_ok_def sample_query_def id_ok_def canonical_form_small compiled_limits_ceiling_def kMaxRawIdBytes_def)
  then show ?thesis
    using messages_canonical[OF compiled_limits_accepted, where payload = "encode_reason ''done''" and reason' = "''done''" and q = sample_query]
    by (simp add: reason_ok_def compiled_limits_ceiling_def)
qed

end
