(* ===== verification/Transport.thy ===== *)
theory Transport
  imports Ident
begin

text \<open>
  \<^verbatim>\<open>src/net.cpp\<close>: stream sockets. The operating system is explicit: a socket holds the arrivals that
  the calls of \<^verbatim>\<open>recv\<close> will see (chunks of bytes or errors; the end of the list is the peer closing)
  and what the calls of \<^verbatim>\<open>send\<close> will accept. Name resolution and the outcome of binding or
  connecting to each resolved address are arguments. What a caller relies on is that chunking is
  invisible: \<open>recv_exact\<close> reads a stream.
\<close>

section \<open>Sockets\<close>

datatype socket_error = ETIMEDOUT | ECONNRESET | ECONNREFUSED | ENOTCONN | EINTR | ENOBUFS | EMFILE
  | Other_error string

fun error_text :: "socket_error \<Rightarrow> string" where
  "error_text ETIMEDOUT = ''the peer did not answer before the deadline''"
| "error_text ECONNRESET = ''the peer reset the connection''"
| "error_text ECONNREFUSED = ''the peer refused the connection''"
| "error_text ENOTCONN = ''the socket is not connected''"
| "error_text EINTR = ''the operation was interrupted''"
| "error_text ENOBUFS = ''the socket buffer is exhausted''"
| "error_text EMFILE = ''the process is out of socket handles''"
| "error_text (Other_error t) = cat [''socket error '', t]"

datatype arrival = Arrive string | Recv_fails socket_error
datatype acceptance = Accepts nat | Send_fails socket_error

record socket =
  sk_valid :: bool
  sk_inbox :: "arrival list"
  sk_acceptance :: "acceptance list"
  sk_sent :: string

definition closed_socket :: socket where
  "closed_socket = \<lparr>sk_valid = False, sk_inbox = [], sk_acceptance = [], sk_sent = []\<rparr>"

definition not_open :: status where
  "not_open = make_error St_NotReady ''the socket is closed''"

text \<open>One call of \<^verbatim>\<open>recv\<close> for at most \<open>chunk\<close> bytes: the bytes it returns, none when the peer has
  closed, and the arrivals left.\<close>

fun recv_call :: "nat \<Rightarrow> arrival list \<Rightarrow> arrival list \<times> (socket_error + string)" where
  "recv_call chunk [] = ([], Inr [])"
| "recv_call chunk (Recv_fails e # rest) = (rest, Inl e)"
| "recv_call chunk (Arrive bs # rest) =
     (if length bs \<le> chunk then (rest, Inr bs) else (Arrive (drop chunk bs) # rest, Inr (take chunk bs)))"

function recv_loop :: "nat \<Rightarrow> string \<Rightarrow> arrival list \<Rightarrow> arrival list \<times> string result" where
  "recv_loop want received inbox =
     (if length received < want then
        (case recv_call (want - length received) inbox of
           (rest, Inl e) \<Rightarrow> (rest, Inl (make_error St_TransportError (error_text e)))
         | (rest, Inr bs) \<Rightarrow>
             if bs = [] then (rest, Inl (make_error St_TransportError ''the peer closed the connection''))
             else recv_loop want (received @ bs) rest)
      else (inbox, Inr received))"
  by pat_completeness auto
termination by (relation "measure (\<lambda>(want, received, inbox). want - length received)") (auto simp: length_greater_0_conv[symmetric] simp del: length_greater_0_conv)

declare recv_loop.simps [simp del]

definition recv_exact :: "nat \<Rightarrow> socket \<Rightarrow> socket \<times> string result" where
  "recv_exact want s =
     (if \<not> sk_valid s then (s, Inl not_open)
      else case recv_loop want [] (sk_inbox s) of (rest, r) \<Rightarrow> (s\<lparr>sk_inbox := rest\<rparr>, r))"

text \<open>One call of \<^verbatim>\<open>send\<close> for \<open>chunk\<close> bytes; with nothing foreseen it accepts everything.\<close>

fun send_call :: "nat \<Rightarrow> acceptance list \<Rightarrow> acceptance list \<times> (socket_error + nat)" where
  "send_call chunk [] = ([], Inr chunk)"
| "send_call chunk (Send_fails e # rest) = (rest, Inl e)"
| "send_call chunk (Accepts n # rest) = (rest, Inr (min n chunk))"

function send_loop :: "string \<Rightarrow> acceptance list \<Rightarrow> string \<Rightarrow> acceptance list \<times> string \<times> void_result" where
  "send_loop bytes acceptance out =
     (if bytes \<noteq> [] then
        (case send_call (length bytes) acceptance of
           (rest, Inl e) \<Rightarrow> (rest, out, Inl (make_error St_TransportError (error_text e)))
         | (rest, Inr n) \<Rightarrow>
             if n = 0 then (rest, out, Inl (make_error St_TransportError ''the connection stopped accepting data''))
             else send_loop (drop n bytes) rest (out @ take n bytes))
      else (acceptance, out, Inr ()))"
  by pat_completeness auto
termination by (relation "measure (\<lambda>(bytes, acceptance, out). length bytes)") auto

declare send_loop.simps [simp del]

definition send_all :: "string \<Rightarrow> socket \<Rightarrow> socket \<times> void_result" where
  "send_all bytes s =
     (if \<not> sk_valid s then (s, Inl not_open)
      else case send_loop bytes (sk_acceptance s) (sk_sent s) of
        (acceptance', out, r) \<Rightarrow> (s\<lparr>sk_acceptance := acceptance', sk_sent := out\<rparr>, r))"

section \<open>Listening and connecting\<close>

definition is_loopback_address :: "string \<Rightarrow> bool" where
  "is_loopback_address address \<longleftrightarrow>
     address = ''127.0.0.1'' \<or> address = ''::1'' \<or> address = ''localhost'' \<or>
     length address \<ge> 4 \<and> take 4 address = ''127.''"

record listener =
  ls_address :: string
  ls_port :: u16

text \<open>\<open>resolved\<close> is the answer of the resolver: nothing, or for each address the listener that
  opening, binding and listening there gives, if they succeed.\<close>

definition listen_on :: "string \<Rightarrow> u16 \<Rightarrow> bool \<Rightarrow> (listener option) list option \<Rightarrow> socket_error \<Rightarrow> listener result" where
  "listen_on address port allow_non_loopback resolved last_error =
     (if \<not> allow_non_loopback \<and> \<not> is_loopback_address address then
        Inl (make_error St_Unauthorized (cat [quoted address,
          '' is not a loopback address; binding a fabric node to a routable interface requires the explicit override'']))
      else case resolved of
        None \<Rightarrow> Inl (make_error St_InvalidArgument (cat [''cannot resolve '', quoted address]))
      | Some [] \<Rightarrow> Inl (make_error St_InvalidArgument (cat [''cannot resolve '', quoted address]))
      | Some candidates \<Rightarrow>
          (case List.find (\<lambda>c. c \<noteq> None) candidates of
             Some (Some l) \<Rightarrow> Inr l
           | _ \<Rightarrow> Inl (make_error St_TransportError
               (cat [''could not bind '', quoted (cat [address, '':'', u_dec port]), '': '', error_text last_error]))))"

text \<open>\<open>resolve attempt\<close> is the answer of the resolver in one attempt: for each address the socket that
  connecting there gives, or the error.\<close>

fun try_candidates :: "(socket_error + socket) list \<Rightarrow> string \<Rightarrow> string \<times> socket option" where
  "try_candidates [] last_error = (last_error, None)"
| "try_candidates (Inl e # cs) last_error = try_candidates cs (error_text e)"
| "try_candidates (Inr s # cs) last_error = (last_error, Some s)"

function connect_loop :: "(nat \<Rightarrow> (socket_error + socket) list option) \<Rightarrow> string \<Rightarrow> string \<Rightarrow> nat \<Rightarrow> nat \<Rightarrow> string \<Rightarrow> socket result" where
  "connect_loop resolve address_text port_text attempts attempt last_error =
     (if attempt < attempts then
        (case resolve attempt of
           None \<Rightarrow> Inl (make_error St_InvalidArgument (cat [''cannot resolve '', quoted address_text]))
         | Some [] \<Rightarrow> Inl (make_error St_InvalidArgument (cat [''cannot resolve '', quoted address_text]))
         | Some candidates \<Rightarrow>
             (case try_candidates candidates last_error of
                (_, Some s) \<Rightarrow> Inr s
              | (last_error', None) \<Rightarrow> connect_loop resolve address_text port_text attempts (Suc attempt) last_error'))
      else Inl (make_error St_TransportError
        (cat [''could not connect to '', quoted (cat [address_text, '':'', port_text]), '' after '', to_dec attempts,
              '' attempt(s): '', last_error])))"
  by pat_completeness auto
termination by (relation "measure (\<lambda>(_, _, _, attempts, attempt, _). attempts - attempt)") auto

declare connect_loop.simps [simp del]

definition connect_to :: "(nat \<Rightarrow> (socket_error + socket) list option) \<Rightarrow> string \<Rightarrow> u16 \<Rightarrow> nat \<Rightarrow> socket result" where
  "connect_to resolve address port attempts =
     (if attempts = 0 then Inl (make_error St_InvalidArgument ''connect attempts must be at least one'')
      else connect_loop resolve address (u_dec port) attempts 0 ''no attempt was made'')"

section \<open>A socket is a stream\<close>

text \<open>The bytes that can still be read before the connection fails or ends.\<close>

fun readable :: "arrival list \<Rightarrow> string" where
  "readable [] = []"
| "readable (Recv_fails e # rest) = []"
| "readable (Arrive bs # rest) = (if bs = [] then [] else bs @ readable rest)"

lemma recv_call_readable:
  "recv_call chunk inbox = (rest, Inr bs) \<Longrightarrow> bs \<noteq> [] \<Longrightarrow> readable inbox = bs @ readable rest \<and> length bs \<le> chunk"
  by (cases "(chunk, inbox)" rule: recv_call.cases) (auto split: if_splits)

lemma recv_call_end:
  "recv_call chunk inbox = (rest, r) \<Longrightarrow> 0 < chunk \<Longrightarrow> r = Inr [] \<or> (\<exists>e. r = Inl e) \<Longrightarrow> readable inbox = []"
  by (cases "(chunk, inbox)" rule: recv_call.cases) (auto split: if_splits)

lemma recv_loop_stream:
  "length received \<le> want \<Longrightarrow> recv_loop want received inbox = (rest, r) \<Longrightarrow>
     (if want \<le> length received + length (readable inbox) then
        r = Inr (received @ take (want - length received) (readable inbox)) \<and>
        readable rest = drop (want - length received) (readable inbox)
      else \<exists>e. r = Inl e)"
proof (induction want received inbox arbitrary: rest r rule: recv_loop.induct)
  case (1 want received inbox)
  show ?case
  proof (cases "length received < want")
    case True
    obtain rest1 q where q: "recv_call (want - length received) inbox = (rest1, q)" by fastforce
    have "readable inbox = []" if "q = Inr [] \<or> (\<exists>e. q = Inl e)"
      using recv_call_end[OF q _ that] True by simp
    moreover have ?thesis if bs: "q = Inr bs" "bs \<noteq> []" for bs
    proof -
      have s: "readable inbox = bs @ readable rest1" "length bs \<le> want - length received"
        using recv_call_readable[OF q[unfolded bs(1)] bs(2)] by simp_all
      have l: "recv_loop want (received @ bs) rest1 = (rest, r)"
        using 1(3) True q bs by (subst (asm) recv_loop.simps) simp
      have "length (received @ bs) \<le> want" using s(2) 1(2) by simp
      note ih = 1(1)[OF True q[symmetric] bs(1) bs(2) this l]
      then show ?thesis using s True by (auto simp: diff_diff_add)
    qed
    ultimately show ?thesis
      using 1(3) True q by (subst (asm) recv_loop.simps) (auto split: sum.splits if_splits)
  next
    case False
    then show ?thesis using 1(2,3) by (subst (asm) recv_loop.simps) auto
  qed
qed

lemma recv_exact_stream:
  assumes "sk_valid s"
  shows "\<exists>rest. recv_exact n s = (s\<lparr>sk_inbox := rest\<rparr>, snd (recv_exact n s)) \<and>
    (if n \<le> length (readable (sk_inbox s)) then
       snd (recv_exact n s) = Inr (take n (readable (sk_inbox s))) \<and> readable rest = drop n (readable (sk_inbox s))
     else \<exists>e. snd (recv_exact n s) = Inl e)"
proof -
  obtain rest r where l: "recv_loop n [] (sk_inbox s) = (rest, r)" by fastforce
  show ?thesis using recv_loop_stream[OF _ l] assms by (auto simp: recv_exact_def l)
qed

text \<open>A send that succeeds delivered every byte, in order; one that fails delivered a prefix.\<close>

lemma send_loop_delivers:
  "send_loop bytes acceptance out = (acceptance', out', r) \<Longrightarrow>
     (\<exists>k. out' = out @ take k bytes) \<and> (r = Inr () \<longrightarrow> out' = out @ bytes)"
proof (induction bytes acceptance out arbitrary: acceptance' out' r rule: send_loop.induct)
  case (1 bytes acceptance out)
  show ?case
  proof (cases "bytes = []")
    case True
    then show ?thesis using 1(2) by (subst (asm) send_loop.simps) auto
  next
    case False
    obtain rest q where q: "send_call (length bytes) acceptance = (rest, q)" by fastforce
    show ?thesis
    proof (cases "\<exists>n. q = Inr n \<and> n \<noteq> 0")
      case True
      then obtain n where n: "q = Inr n" "n \<noteq> 0" by blast
      then have l: "send_loop (drop n bytes) rest (out @ take n bytes) = (acceptance', out', r)"
        using 1(2) False q by (subst (asm) send_loop.simps) simp
      obtain k where k: "out' = (out @ take n bytes) @ take k (drop n bytes)" "r = Inr () \<longrightarrow> out' = (out @ take n bytes) @ drop n bytes"
        using 1(1)[OF False q[symmetric] n l] by blast
      then have "out' = out @ take (n + k) bytes" by (simp add: take_add)
      then show ?thesis using k(2) by auto
    next
      case no: False
      have "out' = out @ take 0 bytes \<and> r \<noteq> Inr ()"
        using 1(2) False q no by (subst (asm) send_loop.simps) (auto split: sum.splits if_splits)
      then show ?thesis by blast
    qed
  qed
qed

text \<open>A host name may begin like a loopback address without being one.\<close>

lemma loopback_prefix_host: "is_loopback_address ''127.example.org''"
  by (simp add: is_loopback_address_def)

end
