(* ===== verification/Node.thy ===== *)
theory Node
  imports Calls Wire Transport
begin

text \<open>
  \<^verbatim>\<open>src/node.cpp\<close>: the node, which owns a runtime and serves the framed protocol. A connection is
  a socket of \<open>Transport\<close>; one iteration of its loop reads a frame, dispatches the request and sends
  the reply. The runtime serializes its calls, so a dispatch is a step of the shared state; each
  takes the system environment it runs in. A node that is not listening has no runtime, and
  nothing is dispatched on it.
\<close>

section \<open>Requests with an authority block\<close>

definition decode_session_request :: "string \<Rightarrow> limits \<Rightarrow> (fabric_session \<times> string) result" where
  "decode_session_request payload limits =
     rbind (dec_str (max_record_payload limits) payload) (\<lambda>(blob, inner).
     rbind (dec_whole (decode_session limits) blob) (\<lambda>s. Inr (s, inner)))"

definition encode_session_request :: "fabric_session \<Rightarrow> string \<Rightarrow> string" where
  "encode_session_request s inner = enc_str (encode_session s) @ inner"

section \<open>The node\<close>

record node_options =
  no_bind_address :: string
  no_port :: u16
  no_limits :: limits
  no_create_if_missing :: bool
  no_fsync_records :: bool
  no_ready_file :: string
  no_allow_non_loopback :: bool
  no_fence_on_disconnect :: bool
  no_advance_epoch_on_open :: bool
  no_allow_remote_shutdown :: bool
  no_max_connections :: nat

record fabric_node =
  nd_options :: node_options
  nd_runtime :: handle
  nd_listener :: "listener option"
  nd_id :: publisher_id
  nd_boot :: boot_id
  nd_stopping :: bool
  nd_listening :: bool

definition node_identity :: "string \<Rightarrow> limits \<Rightarrow> publisher_id result" where
  "node_identity state_dir limits = id_parse (cat [''pf.node.'', u_dec (fnv1a64 (bytes_of state_dir))]) limits"

definition node_runtime_options :: "node_options \<Rightarrow> boot_id \<Rightarrow> runtime_options" where
  "node_runtime_options opts boot =
     \<lparr>ro_limits = no_limits opts, ro_create_if_missing = no_create_if_missing opts, ro_fsync_records = no_fsync_records opts,
      ro_fail_on_degraded = False, ro_instance_boot_id = Some boot, ro_allow_new_publishers = True,
      ro_advance_epoch_on_open = no_advance_epoch_on_open opts, ro_exclusive_lock = True\<rparr>"

definition ready_contents :: "listener \<Rightarrow> fabric_node \<Rightarrow> u64 \<Rightarrow> string" where
  "ready_contents l node pid =
     cat [''port='', u_dec (ls_port l), [CHR 0x0A], ''address='', ls_address l, [CHR 0x0A],
          ''node_id='', id_str (nd_id node), [CHR 0x0A], ''node_boot='', boot_hex (nd_boot node), [CHR 0x0A],
          ''pid='', u_dec pid, [CHR 0x0A]]"

text \<open>Besides the state directory a node may write a ready file, in a directory of its own.\<close>

definition listen_node :: "call_env \<Rightarrow> io_env \<Rightarrow> u64 \<Rightarrow> (listener option) list option \<Rightarrow> socket_error \<Rightarrow> node_options \<Rightarrow>
    fabric_node \<Rightarrow> place \<Rightarrow> disk \<Rightarrow> place \<times> disk \<times> fabric_node \<times> void_result" where
  "listen_node env ready_env pid resolved last_error opts node0 p ready =
     (let node = node0\<lparr>nd_options := opts\<rparr> in
      case ce_boot env of
        Inl e \<Rightarrow> (p, ready, node, Inl e)
      | Inr boot \<Rightarrow>
     (let node1 = node\<lparr>nd_boot := boot\<rparr> in
      case node_identity (ev_directory (ce_io env)) (no_limits opts) of
        Inl e \<Rightarrow> (p, ready, node1, Inl e)
      | Inr i \<Rightarrow>
     (let node2 = node1\<lparr>nd_id := i\<rparr> in
      case listen_on (no_bind_address opts) (no_port opts) (no_allow_non_loopback opts) resolved last_error of
        Inl e \<Rightarrow> (p, ready, node2, Inl e)
      | Inr l \<Rightarrow>
          (case open_runtime env (node_runtime_options opts boot) p of
             (p', Inl e) \<Rightarrow> (p', ready, node2\<lparr>nd_listener := None\<rparr>, Inl e)
           | (p', Inr rt) \<Rightarrow>
               (let node3 = node2\<lparr>nd_listener := Some l, nd_runtime := Some rt, nd_listening := True\<rparr> in
                if no_ready_file opts \<noteq> [] then
                  (case write_atomic ready_env ready (no_ready_file opts) (ready_contents l node3 pid) True of
                     (ready', r) \<Rightarrow> (p', ready', node3, r))
                else (p', ready, node3, Inr ()))))))"

section \<open>Dispatch\<close>

type_synonym 'a served = "disk \<times> fabric_node \<times> 'a result"

definition on_runtime :: "(handle \<Rightarrow> disk \<Rightarrow> disk \<times> handle \<times> 'a result) \<Rightarrow> fabric_node \<Rightarrow> disk \<Rightarrow> 'a served" where
  "on_runtime call node d = (case call (nd_runtime node) d of (d', h, r) \<Rightarrow> (d', node\<lparr>nd_runtime := h\<rparr>, r))"

definition answering :: "('a \<Rightarrow> string) \<Rightarrow> 'a served \<Rightarrow> string served" where
  "answering encode s = (case s of (d, node, r) \<Rightarrow> (d, node, map_sum id encode r))"

definition with_request :: "'q result \<Rightarrow> ('q \<Rightarrow> fabric_node \<Rightarrow> disk \<Rightarrow> string served) \<Rightarrow> fabric_node \<Rightarrow> disk \<Rightarrow> string served" where
  "with_request decoded serve node d = (case decoded of Inl e \<Rightarrow> (d, node, Inl e) | Inr q \<Rightarrow> serve q node d)"

definition encode_audit_reply :: "audit_entry list \<Rightarrow> string" where
  "encode_audit_reply es = enc_u32 (of_nat (length es)) @ concat (map (\<lambda>e. enc_str (encode_audit_entry e)) es)"

definition not_valid_here :: "u16 \<Rightarrow> status" where
  "not_valid_here op = make_error St_ProtocolError (cat [''operation '', quoted (op_to_string op), '' is not valid in this position''])"

definition dispatch_hello :: "call_env \<Rightarrow> u64 \<Rightarrow> hello_request \<Rightarrow> fabric_node \<Rightarrow> disk \<Rightarrow> string served" where
  "dispatch_hello env pid q node d =
     (case on_runtime (grant_authority env (hq_publisher q) (hq_boot q)) node d of
        (d', node', Inl e) \<Rightarrow> (d', node', Inl e)
      | (d', node', Inr s) \<Rightarrow>
          (d', node', Inr (encode_hello_response
             \<lparr>hr_node_id = nd_id node, hr_node_boot = nd_boot node, hr_epoch = fs_epoch s, hr_token = fs_token s,
              hr_state_generation = (case nd_runtime node' of Some rt \<Rightarrow> im_generation (rt_image rt) | None \<Rightarrow> gen_unset),
              hr_node_pid = pid\<rparr>)))"

definition dispatch_query :: "priority_query \<Rightarrow> fabric_node \<Rightarrow> disk \<Rightarrow> string served" where
  "dispatch_query q node d =
     (case runtime_evaluate q (nd_runtime node) of (h, decision) \<Rightarrow> (d, node\<lparr>nd_runtime := h\<rparr>, Inr (encode_decision decision)))"

definition dispatch_shutdown :: "fabric_node \<Rightarrow> disk \<Rightarrow> string served" where
  "dispatch_shutdown node d =
     (if \<not> no_allow_remote_shutdown (nd_options node) then
        (d, node, Inl (make_error St_Unauthorized ''this node does not accept remote shutdown requests''))
      else (d, node\<lparr>nd_stopping := True, nd_listener := None\<rparr>, Inr []))"

definition reading :: "(fabric_runtime \<Rightarrow> disk \<Rightarrow> disk \<times> string) \<Rightarrow> fabric_node \<Rightarrow> disk \<Rightarrow> string served" where
  "reading f node d =
     (case nd_runtime node of
        None \<Rightarrow> (d, node, Inl never_opened)
      | Some rt \<Rightarrow> (case f rt d of (d', reply) \<Rightarrow> (d', node, Inr reply)))"

definition dispatch_session :: "call_env \<Rightarrow> frame_header \<Rightarrow> fabric_session \<Rightarrow> string \<Rightarrow> fabric_node \<Rightarrow> disk \<Rightarrow> string served" where
  "dispatch_session env header s inner node d =
     (let limits = no_limits (nd_options node) in
      case op_of (fh_op header) of
        Some Op_DefineClass \<Rightarrow> with_request (decode_class_definition inner limits)
          (\<lambda>x n d. answering encode_generation (on_runtime (define_class env s x) n d)) node d
      | Some Op_DefineScope \<Rightarrow> with_request (decode_scope_definition inner limits)
          (\<lambda>x n d. answering encode_generation (on_runtime (define_scope env s x) n d)) node d
      | Some Op_DefinePolicy \<Rightarrow> with_request (decode_policy_definition inner limits)
          (\<lambda>x n d. answering encode_generation (on_runtime (define_policy env s x) n d)) node d
      | Some Op_DefineSubject \<Rightarrow> with_request (decode_subject_definition inner limits)
          (\<lambda>x n d. answering encode_generation (on_runtime (define_subject env s x) n d)) node d
      | Some Op_Assign \<Rightarrow> with_request (decode_assignment inner limits)
          (\<lambda>x n d. answering encode_generation (on_runtime (assign env s x) n d)) node d
      | Some Op_Retire \<Rightarrow> with_request (decode_retire_request inner limits)
          (\<lambda>(i, reason) n d. answering encode_generation (on_runtime (retire_assignment env s i reason) n d)) node d
      | Some Op_Query \<Rightarrow> with_request (decode_query inner limits) dispatch_query node d
      | Some Op_AdvanceEpoch \<Rightarrow> with_request (decode_reason inner limits)
          (\<lambda>reason n d. answering encode_epoch (on_runtime (advance_epoch env s reason) n d)) node d
      | Some Op_Fence \<Rightarrow> with_request (decode_fence_request inner limits)
          (\<lambda>q n d. answering (\<lambda>_. []) (on_runtime (fence env s (fq_publisher q) (fq_boot q) (fq_reason q)) n d)) node d
      | Some Op_Stats \<Rightarrow> reading (\<lambda>rt d. (d, encode_stats_reply
          \<lparr>sr_stats = rt_stats rt, sr_state = state_stats_of rt, sr_node_boot = nd_boot node, sr_node_id = nd_id node\<rparr>)) node d
      | Some Op_Checkpoint \<Rightarrow> answering encode_generation (on_runtime (runtime_checkpoint env) node d)
      | Some Op_Integrity \<Rightarrow> reading (\<lambda>rt d. case runtime_integrity env rt d of (d', report) \<Rightarrow> (d', encode_integrity_reply report)) node d
      | Some Op_Audit \<Rightarrow> reading (\<lambda>rt d. (d, encode_audit_reply (audit_window (max_audit_return limits) rt))) node d
      | Some Op_Ping \<Rightarrow> (d, node, Inr [])
      | Some Op_Shutdown \<Rightarrow> dispatch_shutdown node d
      | _ \<Rightarrow> (d, node, Inl (not_valid_here (fh_op header))))"

definition dispatch :: "call_env \<Rightarrow> u64 \<Rightarrow> frame_header \<Rightarrow> string \<Rightarrow> fabric_node \<Rightarrow> disk \<Rightarrow> string served" where
  "dispatch env pid header payload node d =
     (let limits = no_limits (nd_options node) in
      if fh_op header = op_value Op_Hello then with_request (decode_hello payload limits) (dispatch_hello env pid) node d
      else with_request (decode_session_request payload limits) (\<lambda>(s, inner). dispatch_session env header s inner) node d)"

section \<open>Connections\<close>

definition reply_header :: "wire_op \<Rightarrow> u64 \<Rightarrow> string \<Rightarrow> frame_header" where
  "reply_header op request_id payload =
     \<lparr>fh_format = kFormatVersion, fh_op = op_value op, fh_flags = 0, fh_request_id = request_id,
      fh_payload_length = of_nat (length payload)\<rparr>"

definition response_frame :: "wire_op \<Rightarrow> u64 \<Rightarrow> string \<Rightarrow> string" where
  "response_frame op request_id payload = encode_frame (reply_header op request_id payload) payload"

definition send_error :: "u64 \<Rightarrow> status_code \<Rightarrow> string \<Rightarrow> socket \<Rightarrow> socket \<times> void_result" where
  "send_error request_id code message = send_all (response_frame Op_Error request_id (encode_error_reply code message))"

text \<open>A connection the node has no room for gets an error frame and nothing else.\<close>

definition refuse_connection :: "fabric_node \<Rightarrow> socket \<Rightarrow> socket" where
  "refuse_connection node s =
     fst (send_error 0 St_LimitExceeded (cat [''the node is already serving its maximum of '',
       to_dec (no_max_connections (nd_options node)), '' connections'']) s)"

text \<open>Reading one frame: nothing more when the peer is gone, a refusal to send, or a request.\<close>

datatype incoming = Gone | Refused u64 status | Request frame_header string

definition receive_frame :: "limits \<Rightarrow> socket \<Rightarrow> socket \<times> incoming" where
  "receive_frame limits s =
     (case recv_exact kHeaderBytes s of
        (s1, Inl e) \<Rightarrow> (s1, Gone)
      | (s1, Inr header_bytes) \<Rightarrow>
          if \<not> has_magic header_bytes then
            (s1, Refused 0 (make_error St_ProtocolError ''the frame does not start with the fabric magic value''))
          else
            (let header = header_of header_bytes in
             case validate_frame_header header limits of
               Inl e \<Rightarrow> (s1, Refused (fh_request_id header) e)
             | Inr _ \<Rightarrow>
                 (case recv_exact (unat (fh_payload_length header) + kTrailerBytes) s1 of
                    (s2, Inl e) \<Rightarrow> (s2, Gone)
                  | (s2, Inr body) \<Rightarrow>
                      (case verify_frame_checksum (header_bytes @ body) header of
                         Inl e \<Rightarrow> (s2, Refused (fh_request_id header) e)
                       | Inr _ \<Rightarrow> (s2, Request header (take (unat (fh_payload_length header)) (drop kHeaderBytes (header_bytes @ body))))))))"

record connection =
  cn_socket :: socket
  cn_node :: fabric_node
  cn_disk :: disk
  cn_last_session :: fabric_session

text \<open>One iteration; the flag says whether the loop goes on.\<close>

definition answer_request :: "call_env \<Rightarrow> u64 \<Rightarrow> frame_header \<Rightarrow> string \<Rightarrow> connection \<Rightarrow> connection \<times> bool" where
  "answer_request env pid header payload c =
     (let limits = no_limits (nd_options (cn_node c));
          last = (case decode_session_request payload limits of Inr (s, _) \<Rightarrow> s | Inl _ \<Rightarrow> cn_last_session c) in
      case dispatch env pid header payload (cn_node c) (cn_disk c) of
        (d', node', Inl e) \<Rightarrow>
          (\<lparr>cn_socket = fst (send_error (fh_request_id header) (st_code e) (st_message e) (cn_socket c)), cn_node = node',
            cn_disk = d', cn_last_session = last\<rparr>, fh_op header \<noteq> op_value Op_Hello)
      | (d', node', Inr reply) \<Rightarrow>
          (case send_all (response_frame Op_Response (fh_request_id header) reply) (cn_socket c) of
             (s', r) \<Rightarrow> (\<lparr>cn_socket = s', cn_node = node', cn_disk = d', cn_last_session = last\<rparr>, r = Inr ())))"

definition serve_frame :: "call_env \<Rightarrow> u64 \<Rightarrow> connection \<Rightarrow> connection \<times> bool" where
  "serve_frame env pid c =
     (case receive_frame (no_limits (nd_options (cn_node c))) (cn_socket c) of
        (s, Gone) \<Rightarrow> (c\<lparr>cn_socket := s\<rparr>, False)
      | (s, Refused request_id e) \<Rightarrow> (c\<lparr>cn_socket := fst (send_error request_id (st_code e) (st_message e) s)\<rparr>, False)
      | (s, Request header payload) \<Rightarrow> answer_request env pid header payload (c\<lparr>cn_socket := s\<rparr>))"

text \<open>The loop, with the number of requests the connection may still make and the environments of
  those requests; and what happens when it ends.\<close>

fun serve_loop :: "(nat \<Rightarrow> call_env) \<Rightarrow> u64 \<Rightarrow> nat \<Rightarrow> connection \<Rightarrow> connection" where
  "serve_loop envs pid 0 c = c"
| "serve_loop envs pid (Suc left) c =
     (if nd_stopping (cn_node c) then c
      else case serve_frame (envs left) pid c of (c', go_on) \<Rightarrow> if go_on then serve_loop envs pid left c' else c')"

definition session_none :: fabric_session where
  "session_none = \<lparr>fs_publisher = id_none, fs_boot = replicate boot_size 0, fs_epoch = 0, fs_token = 0\<rparr>"

definition handle_connection :: "(nat \<Rightarrow> call_env) \<Rightarrow> call_env \<Rightarrow> u64 \<Rightarrow> socket \<Rightarrow> fabric_node \<Rightarrow> disk \<Rightarrow> connection" where
  "handle_connection envs env pid s node d =
     (let c = serve_loop envs pid (max_requests_per_connection (no_limits (nd_options node)))
            \<lparr>cn_socket = s, cn_node = node, cn_disk = d, cn_last_session = session_none\<rparr>;
          c1 = c\<lparr>cn_socket := (cn_socket c)\<lparr>sk_valid := False\<rparr>\<rparr> in
      if no_fence_on_disconnect (nd_options node) \<and> session_shape_valid (cn_last_session c) \<and> \<not> nd_stopping (cn_node c) then
        (case on_runtime (advance_epoch env (cn_last_session c) ''publisher socket closed'') (cn_node c) (cn_disk c) of
           (d', node', _) \<Rightarrow> c1\<lparr>cn_node := node', cn_disk := d'\<rparr>)
      else c1)"

definition stop_node :: "fabric_node \<Rightarrow> fabric_node" where
  "stop_node node = node\<lparr>nd_stopping := True, nd_listener := None, nd_runtime := fst (close_runtime (nd_runtime node)),
     nd_listening := False\<rparr>"

section \<open>Frames on a stream\<close>

lemma send_all_free:
  assumes "sk_valid s" "sk_acceptance s = []"
  shows "send_all b s = (s\<lparr>sk_sent := sk_sent s @ b\<rparr>, Inr ())"
proof -
  have "send_loop b [] out = ([], out @ b, Inr ())" for out
    by (cases "b = []"; subst send_loop.simps) (simp_all, simp add: send_loop.simps)
  then show ?thesis using assms by (simp add: send_all_def)
qed

lemma receive_exactly:
  assumes "sk_valid s" "readable (sk_inbox s) = a @ b" "length a = n"
  shows "\<exists>rest. recv_exact n s = (s\<lparr>sk_inbox := rest\<rparr>, Inr a) \<and> readable rest = b"
  using recv_exact_stream[OF assms(1), of n] assms(2,3) by auto

lemma receive_frame_stream:
  assumes "sk_valid s" "readable (sk_inbox s) = encode_frame h payload @ rest" "frame_ok limits h payload"
  shows "\<exists>inbox. receive_frame limits s = (s\<lparr>sk_inbox := inbox\<rparr>, Request h payload) \<and> readable inbox = rest"
proof -
  let ?f = "encode_frame h payload"
  let ?n = "unat (fh_payload_length h) + kTrailerBytes"
  have n: "unat (fh_payload_length h) = length payload" using assms(3) by (simp add: frame_ok_def)
  obtain r1 where r1: "recv_exact kHeaderBytes s = (s\<lparr>sk_inbox := r1\<rparr>, Inr (take kHeaderBytes ?f))"
      "readable r1 = drop kHeaderBytes ?f @ rest"
    using receive_exactly[OF assms(1), of "take kHeaderBytes ?f" "drop kHeaderBytes ?f @ rest" kHeaderBytes] assms(2) by auto
  obtain r2 where r2: "recv_exact ?n (s\<lparr>sk_inbox := r1\<rparr>) = (s\<lparr>sk_inbox := r2\<rparr>, Inr (drop kHeaderBytes ?f))" "readable r2 = rest"
    using receive_exactly[of "s\<lparr>sk_inbox := r1\<rparr>" "drop kHeaderBytes ?f" rest ?n] assms(1) r1(2) n by auto
  have p: "take kHeaderBytes ?f = frame_prefix h payload" by (simp add: encode_frame_def Let_def)
  have head: "has_magic (take kHeaderBytes ?f)" "header_of (take kHeaderBytes ?f) = h"
    using frame_fields[of h payload "[]"] frame_ok_length[OF assms(3)] unfolding p by simp_all
  show ?thesis
    unfolding receive_frame_def r1(1) prod.case sum.case head Let_def encoded_frame_ok(3)[OF assms(3)] r2(1)
      append_take_drop_id encoded_frame_ok(4,5)[OF assms(3)]
    using r2(2) head(1) by auto
qed

text \<open>Conversely a request that is dispatched was on the stream as a whole, authentic frame.\<close>

lemma receive_frame_authentic:
  assumes "sk_valid s" "receive_frame limits s = (s', Request h payload)"
  shows "frame_ok limits h payload \<and> readable (sk_inbox s) = encode_frame h payload @ readable (sk_inbox s')"
proof -
  let ?in = "readable (sk_inbox s)"
  obtain s1 hb where 1: "recv_exact kHeaderBytes s = (s1, Inr hb)"
    using assms(2) by (auto simp: receive_frame_def split: prod.splits sum.splits)
  obtain r1 where r1: "s1 = s\<lparr>sk_inbox := r1\<rparr>" "hb = take kHeaderBytes ?in" "readable r1 = drop kHeaderBytes ?in" "length hb = kHeaderBytes"
    using recv_exact_stream[OF assms(1), of kHeaderBytes] 1 by (auto split: if_splits)
  have 2: "has_magic hb" "validate_frame_header (header_of hb) limits = Inr ()"
    using assms(2) 1 by (auto simp: receive_frame_def Let_def split: if_splits sum.splits)
  let ?n = "unat (fh_payload_length (header_of hb)) + kTrailerBytes"
  obtain s2 body where 3: "recv_exact ?n s1 = (s2, Inr body)" "verify_frame_checksum (hb @ body) (header_of hb) = Inr ()"
      "s' = s2" "h = header_of hb" "payload = take (unat (fh_payload_length (header_of hb))) (drop kHeaderBytes (hb @ body))"
    using assms(2) 1 2 by (auto simp: receive_frame_def Let_def split: prod.splits sum.splits)
  obtain r2 where r2: "s2 = s\<lparr>sk_inbox := r2\<rparr>" "body = take ?n (readable r1)" "readable r2 = drop ?n (readable r1)"
    using recv_exact_stream[of s1 ?n] assms(1) 3(1) r1(1) by (auto split: if_splits)
  have hd: "has_magic (hb @ body)" "header_of (hb @ body) = header_of hb"
    using 2(1) r1(4) by (simp_all add: has_magic_def header_of_def read_at_def read_le_append kHeaderBytes_def)
  have "hb @ body = encode_frame h payload"
    unfolding 3(4,5) by (rule frame_verified[OF 3(2) hd(2,1)])
  moreover have "length payload = unat (fh_payload_length h)"
    using 3(2,4,5) by (auto simp: verify_frame_checksum_def Let_def split: if_splits)
  moreover have "frame_ok limits h payload"
    using 2(2) calculation(2) 3(4) by (auto simp: validate_frame_header_def frame_ok_def split: if_splits)
  moreover have "?in = hb @ body @ readable r2" unfolding r2(2,3) r1(2,3) by (simp only: append_take_drop_id)
  ultimately show ?thesis using 3(3) r2(1) by simp
qed

section \<open>Requests as calls\<close>

text \<open>The call of the runtime that a request asks for, if it is one that needs authority, and the
  payload of its reply.\<close>

definition call_of :: "u16 \<Rightarrow> string \<Rightarrow> limits \<Rightarrow> runtime_call result option" where
  "call_of op inner limits =
     (case op_of op of
        Some Op_DefineClass \<Rightarrow> Some (map_sum id Define_class (decode_class_definition inner limits))
      | Some Op_DefineScope \<Rightarrow> Some (map_sum id Define_scope (decode_scope_definition inner limits))
      | Some Op_DefinePolicy \<Rightarrow> Some (map_sum id Define_policy (decode_policy_definition inner limits))
      | Some Op_DefineSubject \<Rightarrow> Some (map_sum id Define_subject (decode_subject_definition inner limits))
      | Some Op_Assign \<Rightarrow> Some (map_sum id Publish (decode_assignment inner limits))
      | Some Op_Retire \<Rightarrow> Some (map_sum id (\<lambda>(i, reason). Retire i reason) (decode_retire_request inner limits))
      | Some Op_AdvanceEpoch \<Rightarrow> Some (map_sum id Advance_epoch (decode_reason inner limits))
      | Some Op_Fence \<Rightarrow> Some (map_sum id (\<lambda>q. Fence (fq_publisher q) (fq_boot q) (fq_reason q)) (decode_fence_request inner limits))
      | _ \<Rightarrow> None)"

definition answer_of :: "runtime_call \<Rightarrow> u64 \<Rightarrow> string" where
  "answer_of c v = (case c of Fence _ _ _ \<Rightarrow> [] | _ \<Rightarrow> enc_u64 v)"

lemma sum_cases: "(case map_sum id f r of Inl e \<Rightarrow> a e | Inr c \<Rightarrow> b c) = (case r of Inl e \<Rightarrow> a e | Inr x \<Rightarrow> b (f x))"
  by (cases r) simp_all

lemma answering_fence:
  "answering (\<lambda>_. []) (on_runtime (fence env s p b t) n d) = answering (answer_of (Fence p b t)) (on_runtime (perform_call env s (Fence p b t)) n d)"
  by (simp add: answering_def on_runtime_def perform_call_def answer_of_def[abs_def] sum.map_comp comp_def id_def split: prod.split)

lemma dispatch_call:
  "call_of (fh_op h) inner (no_limits (nd_options node)) = Some q \<Longrightarrow>
     dispatch_session env h s inner node d =
       with_request q (\<lambda>c n d. answering (answer_of c) (on_runtime (perform_call env s c) n d)) node d"
  by (auto simp: call_of_def dispatch_session_def Let_def with_request_def sum_cases answering_fence
      split: option.splits wire_op.splits sum.splits)
    (simp_all add: answering_def on_runtime_def perform_call_def answer_of_def[abs_def] encode_generation_def[abs_def] encode_epoch_def[abs_def])

text \<open>The operations that need authority, and what a request without it may do to the node and its
  directory. A checkpoint and an integrity check work on the store's own files, and a shutdown where the
  options allow it stops the node.\<close>

definition needs_authority :: "u16 \<Rightarrow> bool" where
  "needs_authority op \<longleftrightarrow> op_of op \<in> Some ` {Op_DefineClass, Op_DefineScope, Op_DefinePolicy, Op_DefineSubject, Op_Assign, Op_Retire,
     Op_AdvanceEpoch, Op_Fence}"

definition powerless :: "u16 \<Rightarrow> fabric_runtime \<Rightarrow> fabric_node \<Rightarrow> disk \<Rightarrow> disk \<Rightarrow> fabric_node \<Rightarrow> string result \<Rightarrow> bool" where
  "powerless op rt node d d' node' r \<longleftrightarrow>
     (\<exists>rt' n log. nd_runtime node' = Some rt' \<and> rt_image rt' = with_audit n log (rt_image rt) \<and>
        (node' = node\<lparr>nd_runtime := Some rt'\<rparr> \<or>
         op = op_value Op_Shutdown \<and> no_allow_remote_shutdown (nd_options node) \<and>
         node' = node\<lparr>nd_stopping := True, nd_listener := None\<rparr>)) \<and>
     (op_of op \<notin> {Some Op_Checkpoint, Some Op_Integrity} \<longrightarrow> journal_grows d d') \<and>
     (needs_authority op \<longrightarrow> (\<exists>e. r = Inl e))"

lemma powerless_image:
  assumes "rt_image rt' = rt_image rt" "op_of op \<notin> {Some Op_Checkpoint, Some Op_Integrity} \<Longrightarrow> d' = d"
    and "needs_authority op \<Longrightarrow> \<exists>e. r = Inl e"
  shows "powerless op rt node d d' (node\<lparr>nd_runtime := Some rt'\<rparr>) r"
  using assms same_audit[of "rt_image rt"] unfolding powerless_def by (metis (no_types, lifting) fabric_node.select_convs(2)
    fabric_node.surjective fabric_node.update_convs(2) journal_grows_refl)

lemma powerless_same:
  assumes "nd_runtime node = Some rt" "op_of op \<notin> {Some Op_Checkpoint, Some Op_Integrity} \<Longrightarrow> d' = d"
    and "needs_authority op \<Longrightarrow> \<exists>e. r = Inl e"
  shows "powerless op rt node d d' node r"
proof -
  have "node\<lparr>nd_runtime := Some rt\<rparr> = node" using assms(1) by simp
  then show ?thesis using powerless_image[of rt rt op d' d r node] assms(2,3) by simp
qed

lemma dispatch_other:
  assumes none: "call_of (fh_op h) inner (no_limits (nd_options node)) = None" and rt: "nd_runtime node = Some rt"
    and run: "dispatch_session env h s inner node d = (d', node', r)"
  shows "powerless (fh_op h) rt node d d' node' r"
proof (cases "op_of (fh_op h)")
  case None
  then show ?thesis using run powerless_same[OF rt] by (auto simp: dispatch_session_def Let_def needs_authority_def)
next
  case (Some o')
  have plain: "\<not> needs_authority (fh_op h)"
    using none Some by (auto simp: call_of_def needs_authority_def)
  note same = powerless_same[OF rt, of "fh_op h" _ d] and image = powerless_image[of _ rt "fh_op h" _ d _ node]
  note runs = run[unfolded dispatch_session_def Let_def Some option.case]
  consider "o' = Op_Query" | "o' = Op_Checkpoint" | "o' = Op_Shutdown" | "o' \<notin> {Op_Query, Op_Checkpoint, Op_Shutdown}" by auto
  then show ?thesis
  proof cases
    case 1
    then show ?thesis using runs plain same image rt
      by (auto simp: with_request_def dispatch_query_def runtime_evaluate_def Let_def split: sum.splits prod.splits)
  next
    case 2
    then show ?thesis using runs plain same image rt Some
      by (auto simp: answering_def on_runtime_def runtime_checkpoint_def split: prod.splits if_splits)
  next
    case 3
    have "with_audit (im_next_audit_sequence (rt_image rt)) (im_audit (rt_image rt)) (rt_image rt) = rt_image rt" by (rule same_audit)
    then show ?thesis using 3 runs plain same rt Some unfolding dispatch_shutdown_def powerless_def
      by (auto simp: op_of_Some split: if_splits) metis+
  next
    case 4
    then show ?thesis using runs plain same rt Some none
      by (cases o') (auto simp: reading_def call_of_def split: prod.splits)
  qed
qed

lemma stale_request:
  assumes "dispatch env pid h payload node d = (d', node', r)" "nd_runtime node = Some rt" "fh_op h \<noteq> op_value Op_Hello"
    and "\<And>s inner. decode_session_request payload (no_limits (nd_options node)) = Inr (s, inner) \<Longrightarrow>
      \<not> live (rt_image rt) (fs_publisher s) (fs_boot s) (fs_token s)"
  shows "powerless (fh_op h) rt node d d' node' r"
proof (cases "decode_session_request payload (no_limits (nd_options node))")
  case (Inl e)
  then show ?thesis using assms(1-3) powerless_same[OF assms(2), of "fh_op h" d' d r] by (auto simp: dispatch_def Let_def with_request_def)
next
  case (Inr q)
  obtain s inner where q: "q = (s, inner)" by (cases q)
  have ds: "dispatch_session env h s inner node d = (d', node', r)"
    using assms(1,3) Inr q by (simp add: dispatch_def Let_def with_request_def)
  show ?thesis
  proof (cases "call_of (fh_op h) inner (no_limits (nd_options node))")
    case None
    then show ?thesis using dispatch_other[OF None assms(2) ds] by auto
  next
    case (Some cr)
    note dc = ds[unfolded dispatch_call[OF Some]]
    show ?thesis
    proof (cases cr)
      case (Inl e)
      then show ?thesis using dc powerless_same[OF assms(2), of "fh_op h" d' d r] by (auto simp: with_request_def)
    next
      case (Inr c)
      obtain d1 h1 r1 where pc: "perform_call env s c (Some rt) d = (d1, h1, r1)" by (metis prod_cases3)
      then have out: "d' = d1 \<and> node' = node\<lparr>nd_runtime := h1\<rparr> \<and> r = map_sum id (answer_of c) r1"
        using dc Inr assms(2) by (auto simp: with_request_def answering_def on_runtime_def)
      obtain rt' e where "h1 = Some rt'" "r1 = Inl e" "only_refused rt d rt' d1"
        using stale_call[OF pc assms(4)] \<open>decode_session_request _ _ = Inr q\<close> q by blast
      then show ?thesis using out unfolding only_refused_def powerless_def by auto
    qed
  qed
qed

section \<open>Connections answer every request\<close>

definition wire_frames :: "(frame_header \<times> string) list \<Rightarrow> string" where
  "wire_frames fs = concat (map (\<lambda>(h, p). encode_frame h p) fs)"

definition answers :: "frame_header \<times> string \<Rightarrow> frame_header \<times> string \<Rightarrow> bool" where
  "answers reply req \<longleftrightarrow> fh_request_id (fst reply) = fh_request_id (fst req) \<and>
     fh_op (fst reply) \<in> {op_value Op_Response, op_value Op_Error} \<and>
     fh_format (fst reply) = kFormatVersion \<and> fh_flags (fst reply) = 0 \<and>
     fh_payload_length (fst reply) = of_nat (length (snd reply))"

lemma dispatch_frame_conditions:
  assumes "dispatch env pid h payload node d = (d', node', r)"
  shows "nd_options node' = nd_options node" "fh_op h \<noteq> op_value Op_Shutdown \<Longrightarrow> nd_stopping node' = nd_stopping node"
proof -
  have session: "nd_options node' = nd_options node \<and> (fh_op h = op_value Op_Shutdown \<or> nd_stopping node' = nd_stopping node)"
    if ds: "dispatch_session env h s inner node d = (d', node', r)" for s inner
  proof (cases "call_of (fh_op h) inner (no_limits (nd_options node))")
    case (Some q)
    then show ?thesis
      using ds unfolding dispatch_call[OF Some] by (auto simp: with_request_def answering_def on_runtime_def split: sum.splits prod.splits)
  next
    case None
    then show ?thesis
      using ds
      by (cases "op_of (fh_op h)"; cases "the (op_of (fh_op h))")
        (auto simp: op_of_Some call_of_def dispatch_session_def Let_def with_request_def dispatch_query_def
          dispatch_shutdown_def reading_def answering_def on_runtime_def
          split: sum.splits prod.splits if_splits option.splits)
  qed
  have hello: "nd_options node' = nd_options node \<and> nd_stopping node' = nd_stopping node"
    if "dispatch_hello env pid q node d = (d', node', r)" for q
    using that by (auto simp: dispatch_hello_def on_runtime_def split: sum.splits prod.splits)
  show "nd_options node' = nd_options node" "fh_op h \<noteq> op_value Op_Shutdown \<Longrightarrow> nd_stopping node' = nd_stopping node"
    using assms session hello by (auto simp: dispatch_def Let_def with_request_def split: sum.splits if_splits)
qed

lemma answer_request_replies:
  assumes "sk_valid (cn_socket c)" "sk_acceptance (cn_socket c) = []" "answer_request env pid h payload c = (c', go)"
  shows "\<exists>reply. cn_socket c' = (cn_socket c)\<lparr>sk_sent := sk_sent (cn_socket c) @ wire_frames [reply]\<rparr> \<and> answers reply (h, payload) \<and>
    nd_options (cn_node c') = nd_options (cn_node c) \<and> (fh_op h \<noteq> op_value Op_Hello \<longrightarrow> go) \<and>
    (fh_op h \<noteq> op_value Op_Shutdown \<longrightarrow> nd_stopping (cn_node c') = nd_stopping (cn_node c))"
proof -
  obtain d' node' r where dd: "dispatch env pid h payload (cn_node c) (cn_disk c) = (d', node', r)" by (metis prod_cases3)
  note keep = dispatch_frame_conditions[OF dd]
  show ?thesis
  proof (cases r)
    case (Inl e)
    let ?p = "encode_error_reply (st_code e) (st_message e)"
    show ?thesis
      by (rule exI[of _ "(reply_header Op_Error (fh_request_id h) ?p, ?p)"])
        (use assms dd keep Inl send_all_free[OF assms(1,2)] in
          \<open>auto simp: answer_request_def Let_def send_error_def response_frame_def wire_frames_def answers_def reply_header_def\<close>)
  next
    case (Inr p)
    show ?thesis
      by (rule exI[of _ "(reply_header Op_Response (fh_request_id h) p, p)"])
        (use assms dd keep Inr send_all_free[OF assms(1,2)] in
          \<open>auto simp: answer_request_def Let_def response_frame_def wire_frames_def answers_def reply_header_def\<close>)
  qed
qed

lemma serve_frame_end:
  "sk_valid (cn_socket c) \<Longrightarrow> readable (sk_inbox (cn_socket c)) = [] \<Longrightarrow>
     \<exists>inbox. serve_frame env pid c = (c\<lparr>cn_socket := (cn_socket c)\<lparr>sk_inbox := inbox\<rparr>\<rparr>, False)"
  using recv_exact_stream[of "cn_socket c" kHeaderBytes]
  by (auto simp: serve_frame_def receive_frame_def kHeaderBytes_def split: prod.splits sum.splits)

lemma serve_loop_answers:
  assumes "list_all (\<lambda>(h, p). frame_ok (no_limits (nd_options (cn_node c))) h p) reqs" "length reqs \<le> left"
    and "sk_valid (cn_socket c)" "sk_acceptance (cn_socket c) = []" "readable (sk_inbox (cn_socket c)) = wire_frames reqs"
  shows "\<exists>replies. sk_sent (cn_socket (serve_loop envs pid left c)) = sk_sent (cn_socket c) @ wire_frames replies \<and>
    length replies \<le> length reqs \<and> list_all2 answers replies (take (length replies) reqs) \<and>
    (\<not> nd_stopping (cn_node c) \<and> list_all (\<lambda>(h, p). fh_op h \<notin> {op_value Op_Hello, op_value Op_Shutdown}) reqs \<longrightarrow>
       length replies = length reqs)"
  using assms
proof (induction reqs arbitrary: left c)
  case Nil
  obtain inbox where "serve_frame (envs (left - 1)) pid c = (c\<lparr>cn_socket := (cn_socket c)\<lparr>sk_inbox := inbox\<rparr>\<rparr>, False)"
    using serve_frame_end[of c "envs (left - 1)" pid] Nil.prems by (auto simp: wire_frames_def)
  then show ?case by (cases left) (auto simp: wire_frames_def)
next
  case (Cons req reqs)
  obtain h p where req: "req = (h, p)" by (cases req)
  obtain l where l: "left = Suc l" using Cons.prems(2) by (cases left) auto
  show ?case
  proof (cases "nd_stopping (cn_node c)")
    case True
    then show ?thesis using l by (auto intro!: exI[of _ "[]"] simp: wire_frames_def)
  next
    case False
    have ok: "frame_ok (no_limits (nd_options (cn_node c))) h p" using Cons.prems(1) req by simp
    obtain inbox where inbox: "receive_frame (no_limits (nd_options (cn_node c))) (cn_socket c) =
        ((cn_socket c)\<lparr>sk_inbox := inbox\<rparr>, Request h p)" "readable inbox = wire_frames reqs"
      using receive_frame_stream[OF Cons.prems(3) _ ok, of "wire_frames reqs"] Cons.prems(5) req by (auto simp: wire_frames_def)
    let ?c = "c\<lparr>cn_socket := (cn_socket c)\<lparr>sk_inbox := inbox\<rparr>\<rparr>"
    obtain c' go where ans: "answer_request (envs l) pid h p ?c = (c', go)" by fastforce
    obtain reply where reply: "cn_socket c' = (cn_socket ?c)\<lparr>sk_sent := sk_sent (cn_socket c) @ wire_frames [reply]\<rparr>" "answers reply (h, p)"
        "nd_options (cn_node c') = nd_options (cn_node c)" "fh_op h \<noteq> op_value Op_Hello \<longrightarrow> go"
        "fh_op h \<noteq> op_value Op_Shutdown \<longrightarrow> nd_stopping (cn_node c') = nd_stopping (cn_node c)"
      using answer_request_replies[OF _ _ ans] Cons.prems(3,4) by auto
    have step: "serve_loop envs pid left c = (if go then serve_loop envs pid l c' else c')"
      using l False inbox(1) ans by (simp add: serve_frame_def)
    show ?thesis
    proof (cases go)
      case False
      then show ?thesis using step reply req by (intro exI[of _ "[reply]"]) (auto simp: wire_frames_def)
    next
      case True
      obtain replies where ih: "sk_sent (cn_socket (serve_loop envs pid l c')) = sk_sent (cn_socket c') @ wire_frames replies"
          "length replies \<le> length reqs" "list_all2 answers replies (take (length replies) reqs)"
          "\<not> nd_stopping (cn_node c') \<and> list_all (\<lambda>(h, p). fh_op h \<notin> {op_value Op_Hello, op_value Op_Shutdown}) reqs \<longrightarrow>
             length replies = length reqs"
        using Cons.IH[of c' l] Cons.prems reply inbox(2) l by auto
      show ?thesis
        by (rule exI[of _ "reply # replies"])
          (use step True ih reply req False in \<open>auto simp: wire_frames_def\<close>)
    qed
  qed
qed

end
