(* ===== verification/Client.thy ===== *)
theory Client
  imports Node
begin

text \<open>
  \<^verbatim>\<open>src/client.cpp\<close>: the blocking client. A call sends one request frame and reads one reply. A
  client call answers \<open>None\<close> where the source reads the value of a result that has none, which
  raises an exception: that happens when a reply of kind error carries the status code of success.
  The theorems compose both ends: what a caller gets through the wire is what the runtime of the
  node answered.
\<close>

section \<open>State and round trips\<close>

record client_options =
  cp_host :: string
  cp_port :: u16
  cp_limits :: limits
  cp_io_deadline_ms :: nat
  cp_connect_attempts :: nat

record client_state =
  cl_options :: client_options
  cl_socket :: socket
  cl_session :: fabric_session
  cl_next_request_id :: u64

definition request_header :: "wire_op \<Rightarrow> u64 \<Rightarrow> string \<Rightarrow> frame_header" where
  "request_header op request_id body =
     \<lparr>fh_format = kFormatVersion, fh_op = op_value op, fh_flags = 0, fh_request_id = request_id,
      fh_payload_length = of_nat (length body)\<rparr>"

definition read_reply :: "limits \<Rightarrow> u64 \<Rightarrow> socket \<Rightarrow> socket \<times> string result" where
  "read_reply limits request_id s =
     (case recv_exact kHeaderBytes s of
        (s1, Inl e) \<Rightarrow> (s1, Inl e)
      | (s1, Inr header_bytes) \<Rightarrow>
          if \<not> has_magic header_bytes then
            (s1, Inl (make_error St_ProtocolError ''the reply does not carry the fabric magic''))
          else
            (let reply = header_of header_bytes in
             case validate_frame_header reply limits of
               Inl e \<Rightarrow> (s1, Inl e)
             | Inr _ \<Rightarrow>
                 if fh_op reply \<noteq> op_value Op_Response \<and> fh_op reply \<noteq> op_value Op_Error then
                   (s1, Inl (make_error St_ProtocolError (cat [''the node answered with '', quoted (op_to_string (fh_op reply)),
                     '' where a reply was expected''])))
                 else if fh_request_id reply \<noteq> request_id then
                   (s1, Inl (make_error St_ProtocolError (cat [''the reply names request '', u_dec (fh_request_id reply),
                     '' but request '', u_dec request_id, '' was sent''])))
                 else
                   (case recv_exact (unat (fh_payload_length reply) + kTrailerBytes) s1 of
                      (s2, Inl e) \<Rightarrow> (s2, Inl e)
                    | (s2, Inr remainder) \<Rightarrow>
                        (case verify_frame_checksum (header_bytes @ remainder) reply of
                           Inl e \<Rightarrow> (s2, Inl e)
                         | Inr _ \<Rightarrow>
                             (let payload = take (unat (fh_payload_length reply)) (drop kHeaderBytes (header_bytes @ remainder)) in
                              if fh_op reply = op_value Op_Error then
                                (case decode_error_reply payload of
                                   Inl e \<Rightarrow> (s2, Inl e)
                                 | Inr (code, message) \<Rightarrow> (s2, Inl (make_error code message)))
                              else (s2, Inr payload))))))"

definition round_trip :: "wire_op \<Rightarrow> string \<Rightarrow> client_state \<Rightarrow> client_state \<times> string result" where
  "round_trip op body cl =
     (if \<not> sk_valid (cl_socket cl) then (cl, Inl (make_error St_NotReady ''the client is not connected''))
      else
        (let request_id = cl_next_request_id cl;
             cl1 = cl\<lparr>cl_next_request_id := request_id + 1\<rparr> in
         case send_all (encode_frame (request_header op request_id body) body) (cl_socket cl) of
           (s, Inl e) \<Rightarrow> (cl1\<lparr>cl_socket := s\<rparr>, Inl e)
         | (s, Inr _) \<Rightarrow>
             (case read_reply (cp_limits (cl_options cl)) request_id s of (s', r) \<Rightarrow> (cl1\<lparr>cl_socket := s'\<rparr>, r))))"

section \<open>Connecting\<close>

definition connect_client :: "(nat \<Rightarrow> (socket_error + socket) list option) \<Rightarrow> void_result \<Rightarrow> client_options \<Rightarrow> client_state \<Rightarrow>
    client_state \<times> void_result" where
  "connect_client resolve deadline opts cl =
     (if \<not> limits_within_compiled_ceiling (cp_limits opts) then
        (cl, Inl (make_error St_LimitExceeded ''the requested limits exceed the ceiling''))
      else if cp_port opts = 0 then (cl, Inl (make_error St_InvalidArgument ''no port was given''))
      else
        (let cl1 = cl\<lparr>cl_options := opts\<rparr> in
         case connect_to resolve (cp_host opts) (cp_port opts) (cp_connect_attempts opts) of
           Inl e \<Rightarrow> (cl1, Inl e)
         | Inr s \<Rightarrow>
             (case (if cp_io_deadline_ms opts > 0 then deadline else Inr ()) of
                Inl e \<Rightarrow> (cl1, Inl e)
              | Inr _ \<Rightarrow> (cl1\<lparr>cl_socket := s, cl_session := session_none, cl_next_request_id := 1\<rparr>, Inr ()))))"

definition disconnect_client :: "client_state \<Rightarrow> client_state" where
  "disconnect_client cl = cl\<lparr>cl_socket := closed_socket, cl_session := session_none\<rparr>"

definition set_session :: "fabric_session \<Rightarrow> client_state \<Rightarrow> client_state" where
  "set_session s cl = cl\<lparr>cl_session := s\<rparr>"

section \<open>Calls\<close>

definition is_ok :: "'a result \<Rightarrow> bool" where
  "is_ok r = (case r of Inl e \<Rightarrow> st_code e = St_Ok | Inr _ \<Rightarrow> True)"

definition use_payload :: "(string \<Rightarrow> 'a result) \<Rightarrow> client_state \<times> string result \<Rightarrow> client_state \<times> 'a result option" where
  "use_payload decode t =
     (case t of
        (cl, Inr payload) \<Rightarrow> (cl, Some (decode payload))
      | (cl, Inl e) \<Rightarrow> (cl, if is_ok (Inl e :: string result) then None else Some (Inl e)))"

definition use_nothing :: "client_state \<times> string result \<Rightarrow> client_state \<times> void_result" where
  "use_nothing t = (case t of (cl, r) \<Rightarrow> (cl, case r of Inl e \<Rightarrow> if st_code e = St_Ok then Inr () else Inl e | Inr _ \<Rightarrow> Inr ()))"

definition session_trip :: "wire_op \<Rightarrow> string \<Rightarrow> client_state \<Rightarrow> client_state \<times> string result" where
  "session_trip op inner cl = round_trip op (encode_session_request (cl_session cl) inner) cl"

definition client_hello :: "publisher_id \<Rightarrow> boot_id \<Rightarrow> string \<Rightarrow> client_state \<Rightarrow> client_state \<times> hello_response result option" where
  "client_hello publisher boot label cl =
     (if \<not> id_valid publisher \<or> boot_is_zero boot then
        (cl, Some (Inl (make_error St_InvalidArgument ''the handshake needs a publisher id and a boot id'')))
      else
        (let request = \<lparr>hq_publisher = publisher, hq_boot = boot, hq_client_label = bound_text label 128,
               hq_nonce = cl_next_request_id cl\<rparr> in
         case use_payload (\<lambda>payload. decode_hello_response payload (cp_limits (cl_options cl)))
             (round_trip Op_Hello (encode_hello request) cl) of
           (cl', Some (Inr r)) \<Rightarrow>
             (cl'\<lparr>cl_session := \<lparr>fs_publisher = publisher, fs_boot = boot, fs_epoch = hr_epoch r, fs_token = hr_token r\<rparr>\<rparr>,
              Some (Inr r))
         | (cl', other) \<Rightarrow> (cl', other)))"

definition client_define_class :: "priority_class_def \<Rightarrow> client_state \<Rightarrow> client_state \<times> generation result option" where
  "client_define_class x cl = use_payload decode_generation (session_trip Op_DefineClass (encode_class_definition x) cl)"

definition client_define_scope :: "policy_scope_def \<Rightarrow> client_state \<Rightarrow> client_state \<times> generation result option" where
  "client_define_scope x cl = use_payload decode_generation (session_trip Op_DefineScope (encode_scope_definition x) cl)"

definition client_define_policy :: "policy_def \<Rightarrow> client_state \<Rightarrow> client_state \<times> generation result option" where
  "client_define_policy x cl = use_payload decode_generation (session_trip Op_DefinePolicy (encode_policy_definition x) cl)"

definition client_define_subject :: "subject_def \<Rightarrow> client_state \<Rightarrow> client_state \<times> generation result option" where
  "client_define_subject x cl = use_payload decode_generation (session_trip Op_DefineSubject (encode_subject_definition x) cl)"

definition client_assign :: "priority_assignment \<Rightarrow> client_state \<Rightarrow> client_state \<times> generation result option" where
  "client_assign a cl = use_payload decode_generation (session_trip Op_Assign (encode_assignment a) cl)"

definition client_retire :: "assignment_id \<Rightarrow> string \<Rightarrow> client_state \<Rightarrow> client_state \<times> generation result option" where
  "client_retire i reason cl = use_payload decode_generation (session_trip Op_Retire (encode_retire_request (i, reason)) cl)"

definition client_advance_epoch :: "string \<Rightarrow> client_state \<Rightarrow> client_state \<times> fabric_epoch result option" where
  "client_advance_epoch reason cl = use_payload decode_epoch (session_trip Op_AdvanceEpoch (encode_reason reason) cl)"

definition client_fence :: "publisher_id \<Rightarrow> boot_id \<Rightarrow> string \<Rightarrow> client_state \<Rightarrow> client_state \<times> void_result" where
  "client_fence publisher boot reason cl = use_nothing
     (session_trip Op_Fence (encode_fence_request \<lparr>fq_publisher = publisher, fq_boot = boot, fq_reason = reason\<rparr>) cl)"

definition client_evaluate :: "priority_query \<Rightarrow> client_state \<Rightarrow> client_state \<times> priority_decision result option" where
  "client_evaluate q cl = use_payload (\<lambda>payload. decode_decision payload (cp_limits (cl_options cl)))
     (session_trip Op_Query (encode_query q) cl)"

definition client_checkpoint :: "client_state \<Rightarrow> client_state \<times> generation result option" where
  "client_checkpoint cl = use_payload decode_generation (session_trip Op_Checkpoint [] cl)"

definition client_stats :: "client_state \<Rightarrow> client_state \<times> (fabric_stats \<times> state_stats) result option" where
  "client_stats cl = use_payload (\<lambda>payload. map_sum id (\<lambda>r. (sr_stats r, sr_state r))
     (decode_stats_reply payload (cp_limits (cl_options cl)))) (session_trip Op_Stats [] cl)"

definition client_integrity :: "client_state \<Rightarrow> client_state \<times> integrity_report result option" where
  "client_integrity cl = use_payload decode_integrity_reply (session_trip Op_Integrity [] cl)"

definition client_ping :: "client_state \<Rightarrow> client_state \<times> void_result" where
  "client_ping cl = use_nothing (session_trip Op_Ping [] cl)"

definition client_shutdown :: "client_state \<Rightarrow> client_state \<times> void_result" where
  "client_shutdown cl = use_nothing (session_trip Op_Shutdown [] cl)"

section \<open>A reply on the stream\<close>

lemma read_reply_stream:
  assumes "sk_valid s" "readable (sk_inbox s) = response_frame op request_id payload @ rest"
    and "length payload \<le> max_frame_payload limits" "length payload < 2 ^ 32" "op = Op_Response \<or> op = Op_Error"
  shows "\<exists>inbox. readable inbox = rest \<and> read_reply limits request_id s = (s\<lparr>sk_inbox := inbox\<rparr>,
    if op = Op_Error then (case decode_error_reply payload of Inl e \<Rightarrow> Inl e | Inr (code, message) \<Rightarrow> Inl (make_error code message))
    else Inr payload)"
proof -
  let ?h = "reply_header op request_id payload"
  let ?f = "encode_frame ?h payload"
  have n: "unat (fh_payload_length ?h) = length payload" using assms(4) by (simp add: reply_header_def unat_of_nat take_bit_nat_eq_self)
  have ok: "frame_ok limits ?h payload" using assms(3) n by (simp add: frame_ok_def) (simp add: reply_header_def)
  have sel: "fh_op ?h = op_value op" "fh_request_id ?h = request_id" by (simp_all add: reply_header_def)
  have stream: "readable (sk_inbox s) = take kHeaderBytes ?f @ drop kHeaderBytes ?f @ rest" using assms(2) by (simp add: response_frame_def)
  obtain r1 where r1: "recv_exact kHeaderBytes s = (s\<lparr>sk_inbox := r1\<rparr>, Inr (take kHeaderBytes ?f))"
      "readable r1 = drop kHeaderBytes ?f @ rest"
    using receive_exactly[OF assms(1) stream] by auto
  obtain r2 where r2: "recv_exact (unat (fh_payload_length ?h) + kTrailerBytes) (s\<lparr>sk_inbox := r1\<rparr>) = (s\<lparr>sk_inbox := r2\<rparr>, Inr (drop kHeaderBytes ?f))"
      "readable r2 = rest"
    using receive_exactly[of "s\<lparr>sk_inbox := r1\<rparr>" "drop kHeaderBytes ?f" rest "unat (fh_payload_length ?h) + kTrailerBytes"] assms(1) r1(2) n by auto
  have p: "take kHeaderBytes ?f = frame_prefix ?h payload" by (simp add: encode_frame_def Let_def)
  have head: "has_magic (take kHeaderBytes ?f)" "header_of (take kHeaderBytes ?f) = ?h"
    using frame_fields[of ?h payload "[]"] frame_ok_length[OF ok] unfolding p by simp_all
  have ops: "op_value op = op_value Op_Response \<or> op_value op = op_value Op_Error" "(op_value op = op_value Op_Error) = (op = Op_Error)"
    using assms(5) by auto
  show ?thesis
    unfolding read_reply_def r1(1) prod.case sum.case head(2) Let_def encoded_frame_ok(3)[OF ok] r2(1)
      append_take_drop_id encoded_frame_ok(4,5)[OF ok] sel
    using r2(2) head(1) ops by (auto split: sum.split prod.split)
qed

section \<open>A call through the wire\<close>

text \<open>The request a client sends for a call of the runtime, the call it makes, and the messages that
  fit the limits.\<close>

definition request_of :: "runtime_call \<Rightarrow> wire_op \<times> string" where
  "request_of c =
     (case c of
        Advance_epoch reason \<Rightarrow> (Op_AdvanceEpoch, encode_reason reason)
      | Fence publisher boot reason \<Rightarrow>
          (Op_Fence, encode_fence_request \<lparr>fq_publisher = publisher, fq_boot = boot, fq_reason = reason\<rparr>)
      | Define_class x \<Rightarrow> (Op_DefineClass, encode_class_definition x)
      | Define_scope x \<Rightarrow> (Op_DefineScope, encode_scope_definition x)
      | Define_policy x \<Rightarrow> (Op_DefinePolicy, encode_policy_definition x)
      | Define_subject x \<Rightarrow> (Op_DefineSubject, encode_subject_definition x)
      | Publish a \<Rightarrow> (Op_Assign, encode_assignment a)
      | Retire i reason \<Rightarrow> (Op_Retire, encode_retire_request (i, reason)))"

definition client_call :: "runtime_call \<Rightarrow> client_state \<Rightarrow> client_state \<times> u64 result option" where
  "client_call c cl =
     (case c of
        Advance_epoch reason \<Rightarrow> client_advance_epoch reason cl
      | Fence publisher boot reason \<Rightarrow> map_prod id (\<lambda>r. Some (map_sum id (\<lambda>_. 0) r)) (client_fence publisher boot reason cl)
      | Define_class x \<Rightarrow> client_define_class x cl
      | Define_scope x \<Rightarrow> client_define_scope x cl
      | Define_policy x \<Rightarrow> client_define_policy x cl
      | Define_subject x \<Rightarrow> client_define_subject x cl
      | Publish a \<Rightarrow> client_assign a cl
      | Retire i reason \<Rightarrow> client_retire i reason cl)"

definition call_ok :: "limits \<Rightarrow> runtime_call \<Rightarrow> bool" where
  "call_ok limits c =
     (case c of
        Advance_epoch reason \<Rightarrow> reason_ok limits reason
      | Fence publisher boot reason \<Rightarrow> fence_request_ok limits \<lparr>fq_publisher = publisher, fq_boot = boot, fq_reason = reason\<rparr>
      | Define_class x \<Rightarrow> class_ok limits x
      | Define_scope x \<Rightarrow> scope_ok limits x
      | Define_policy x \<Rightarrow> policy_ok limits x
      | Define_subject x \<Rightarrow> subject_ok limits x
      | Publish a \<Rightarrow> assignment_ok limits a
      | Retire i reason \<Rightarrow> retire_ok limits (i, reason))"

lemma call_of_request: "call_ok limits c \<Longrightarrow> call_of (op_value (fst (request_of c))) (snd (request_of c)) limits = Some (Inr c)"
  by (cases c)
    (simp_all add: call_ok_def request_of_def call_of_def decode_class_definition_def class_definition.dec_whole_enc
      decode_scope_definition_def scope_definition.dec_whole_enc decode_policy_definition_def policy_definition.dec_whole_enc
      decode_subject_definition_def subject_definition.dec_whole_enc decode_assignment_def assignment.dec_whole_enc
      decode_retire_request_def retire_request.dec_whole_enc decode_fence_request_def fence_request.dec_whole_enc
      decode_reason_def reason.dec_whole_enc del: op_value.simps)

lemma request_not_hello: "op_value (fst (request_of c)) \<noteq> op_value Op_Hello"
  by (cases c) (simp_all add: request_of_def)

definition request_body :: "fabric_session \<Rightarrow> runtime_call \<Rightarrow> string" where
  "request_body s c = encode_session_request s (snd (request_of c))"

lemma decode_request_body:
  assumes "session_ok limits s" "length (encode_session s) \<le> max_record_payload limits" "max_record_payload limits < 2 ^ 32"
  shows "decode_session_request (request_body s c) limits = Inr (s, snd (request_of c))"
  using assms
  by (simp add: request_body_def encode_session_request_def decode_session_request_def str.dec_enc str_ok_def
      session_block.dec_whole_enc)

text \<open>What reaches the client of the answer of a call.\<close>

definition remote_result :: "u64 result \<Rightarrow> u64 result option \<Rightarrow> bool" where
  "remote_result r t =
     (case r of Inr v \<Rightarrow> t = Some (Inr v)
      | Inl e \<Rightarrow> st_code e \<noteq> St_Ok \<longrightarrow> t = Some (Inl (make_error (st_code e) (st_message e))))"

definition answer_frame :: "runtime_call \<Rightarrow> u64 \<Rightarrow> u64 result \<Rightarrow> string" where
  "answer_frame c request_id r =
     (case r of Inl e \<Rightarrow> response_frame Op_Error request_id (encode_error_reply (st_code e) (st_message e))
      | Inr v \<Rightarrow> response_frame Op_Response request_id (answer_of c v))"

lemma make_error_bound: "make_error c (bound_text m 1024) = make_error c m"
  using bound_text_correct[of m 1024] by (simp add: make_error_def kMaxStatusMessage_def)

lemma bound_text_ok: "str_ok 1024 (bound_text m 1024)"
  using bound_text_correct[of m 1024] by (simp add: str_ok_def)

lemma error_reply_read: "decode_error_reply (encode_error_reply c m) = Inr (c, bound_text m 1024)"
proof -
  have "encode_error_reply c m = encode_error_reply c (bound_text m 1024)"
    using bound_text_correct[of m 1024] by (simp add: encode_error_reply_def)
  then show ?thesis
    using error_reply.dec_whole_enc[of "(c, bound_text m 1024)"] bound_text_ok[of m] by (simp add: decode_error_reply_def)
qed

lemma length_error_reply: "length (encode_error_reply c m) \<le> 1030"
  using bound_text_correct[of m 1024] enc_str_short[of "bound_text m 1024"]
  by (simp add: encode_error_reply_def enc_u16_def enc_u32_def append_le_def)

lemma length_answer: "length (answer_of c v) \<le> 8"
  by (simp add: answer_of_def enc_u64_def append_le_def split: runtime_call.split)

definition request_frame :: "client_state \<Rightarrow> runtime_call \<Rightarrow> string" where
  "request_frame cl c =
     (let body = request_body (cl_session cl) c in
      encode_frame (request_header (fst (request_of c)) (cl_next_request_id cl) body) body)"

text \<open>The client's half.\<close>

definition trip_result :: "runtime_call \<Rightarrow> u64 result \<Rightarrow> string result" where
  "trip_result c r = (case r of Inl e \<Rightarrow> Inl (make_error (st_code e) (st_message e)) | Inr v \<Rightarrow> Inr (answer_of c v))"

lemma client_trip:
  assumes "sk_valid (cl_socket cl)" "sk_acceptance (cl_socket cl) = []" "1030 \<le> max_frame_payload (cp_limits (cl_options cl))"
    and "readable (sk_inbox (cl_socket cl)) = answer_frame c (cl_next_request_id cl) r @ rest"
  shows "\<exists>cl'. session_trip (fst (request_of c)) (snd (request_of c)) cl = (cl', trip_result c r) \<and>
    sk_sent (cl_socket cl') = sk_sent (cl_socket cl) @
      encode_frame (request_header (fst (request_of c)) (cl_next_request_id cl) (request_body (cl_session cl) c)) (request_body (cl_session cl) c)"
proof -
  let ?b = "encode_frame (request_header (fst (request_of c)) (cl_next_request_id cl) (request_body (cl_session cl) c)) (request_body (cl_session cl) c)"
  let ?s = "(cl_socket cl)\<lparr>sk_sent := sk_sent (cl_socket cl) @ ?b\<rparr>"
  have "\<exists>inbox. read_reply (cp_limits (cl_options cl)) (cl_next_request_id cl) ?s = (?s\<lparr>sk_inbox := inbox\<rparr>, trip_result c r)"
  proof (cases r)
    case (Inl e)
    show ?thesis
      using read_reply_stream[of ?s Op_Error "cl_next_request_id cl" "encode_error_reply (st_code e) (st_message e)" rest "cp_limits (cl_options cl)"]
        length_error_reply[of "st_code e" "st_message e"] assms Inl
      by (auto simp: answer_frame_def error_reply_read make_error_bound trip_result_def)
  next
    case (Inr v)
    show ?thesis
      using read_reply_stream[of ?s Op_Response "cl_next_request_id cl" "answer_of c v" rest "cp_limits (cl_options cl)"]
        length_answer[of c v] assms Inr
      by (auto simp: answer_frame_def trip_result_def)
  qed
  then show ?thesis
    using assms(1) send_all_free[OF assms(1,2), of ?b]
    by (auto simp: session_trip_def round_trip_def Let_def request_body_def)
qed

lemma client_call_result:
  assumes "session_trip (fst (request_of c)) (snd (request_of c)) cl = (cl', trip_result c r)"
    and "\<And>p b t v. c = Fence p b t \<Longrightarrow> r = Inr v \<Longrightarrow> v = 0"
  shows "fst (client_call c cl) = cl' \<and> remote_result r (snd (client_call c cl))"
  using assms
  by (cases c; cases r)
    (auto simp: client_call_def request_of_def client_advance_epoch_def client_fence_def client_define_class_def client_define_scope_def
      client_define_policy_def client_define_subject_def client_assign_def client_retire_def use_payload_def use_nothing_def is_ok_def
      trip_result_def remote_result_def answer_of_def decode_generation_def decode_epoch_def u64.dec_whole_enc)

text \<open>The node's half.\<close>

lemma node_serves_call:
  fixes con c s
  defines "limits \<equiv> no_limits (nd_options (cn_node con))" and "body \<equiv> request_body s c"
  assumes "sk_valid (cn_socket con)" "sk_acceptance (cn_socket con) = []"
    and "readable (sk_inbox (cn_socket con)) = encode_frame (request_header (fst (request_of c)) request_id body) body @ unread"
    and "session_ok limits s" "length (encode_session s) \<le> max_record_payload limits" "max_record_payload limits < 2 ^ 32"
    and "call_ok limits c" "length body \<le> max_frame_payload limits" "length body < 2 ^ 32"
    and "perform_call env s c (nd_runtime (cn_node con)) (cn_disk con) = (d', h', r)"
  shows "\<exists>con'. serve_frame env pid con = (con', True) \<and> cn_disk con' = d' \<and> nd_runtime (cn_node con') = h' \<and>
    readable (sk_inbox (cn_socket con')) = unread \<and> sk_sent (cn_socket con') = sk_sent (cn_socket con) @ answer_frame c request_id r"
proof -
  let ?h = "request_header (fst (request_of c)) request_id body"
  have n: "unat (of_nat (length body) :: u32) = length body" using assms(11) by (simp add: unat_of_nat take_bit_nat_eq_self)
  have ok: "frame_ok limits ?h body" using assms(10) n by (simp add: frame_ok_def request_header_def)
  obtain inbox where inbox: "receive_frame limits (cn_socket con) = ((cn_socket con)\<lparr>sk_inbox := inbox\<rparr>, Request ?h body)" "readable inbox = unread"
    using receive_frame_stream[OF assms(3,5) ok] by blast
  let ?con = "con\<lparr>cn_socket := (cn_socket con)\<lparr>sk_inbox := inbox\<rparr>\<rparr>"
  have op: "fh_op ?h = op_value (fst (request_of c))" "fh_request_id ?h = request_id" by (simp_all add: request_header_def)
  have call: "call_of (fh_op ?h) (snd (request_of c)) (no_limits (nd_options (cn_node con))) = Some (Inr c)"
    unfolding op using call_of_request[OF assms(9)] by (simp add: limits_def)
  have req: "decode_session_request body limits = Inr (s, snd (request_of c))"
    unfolding body_def by (rule decode_request_body[OF assms(6,7,8)])
  have dd: "dispatch env pid ?h body (cn_node con) (cn_disk con) = (d', (cn_node con)\<lparr>nd_runtime := h'\<rparr>, map_sum id (answer_of c) r)"
    using req request_not_hello[of c] assms(12)
    by (simp add: dispatch_def op limits_def[symmetric] Let_def with_request_def dispatch_call[OF call] answering_def on_runtime_def)
  have free: "sk_valid ((cn_socket con)\<lparr>sk_inbox := inbox\<rparr>)" "sk_acceptance ((cn_socket con)\<lparr>sk_inbox := inbox\<rparr>) = []"
    using assms(3,4) by simp_all
  show ?thesis
    unfolding serve_frame_def limits_def[symmetric] inbox(1) prod.case incoming.case answer_request_def Let_def
    using dd req inbox(2) op request_not_hello[of c] send_all_free[OF free]
    by (cases r) (auto simp: limits_def[symmetric] answer_frame_def send_error_def)
qed

lemma fence_answers_zero:
  "perform_call env s (Fence p b t) h d = (d', h', Inr v) \<Longrightarrow> v = 0"
  by (auto simp: perform_call_def map_sum_Inr split: prod.splits)

text \<open>An error reply whose code is that of success is taken for success by the calls without a value.\<close>

lemma ok_error_reply_taken_for_success:
  assumes "sk_valid (cl_socket cl)" "sk_acceptance (cl_socket cl) = []" "1030 \<le> max_frame_payload (cp_limits (cl_options cl))"
    and "readable (sk_inbox (cl_socket cl)) = response_frame Op_Error (cl_next_request_id cl) (encode_error_reply St_Ok message) @ rest"
  shows "snd (client_fence publisher boot reason cl) = Inr ()"
  using client_trip[OF assms(1-3), of "Fence publisher boot reason" "Inl \<lparr>st_code = St_Ok, st_message = message\<rparr>" rest] assms(4)
  by (auto simp: answer_frame_def client_fence_def request_of_def use_nothing_def trip_result_def)

section \<open>Properties\<close>

text \<open>C13: A call through the wire is the call on the runtime. When a client and a node with the same
  limits are connected, and the session and the arguments respect the limits, the frame the client
  sends makes the node perform exactly that call with that session: its runtime and directory
  become what the call makes them, and when the bytes the node sends back reach the client, the
  client returns the value the runtime answered, or its refusal with the same code and message.\<close>

theorem remote_call_is_local_call:
  assumes "limits = no_limits (nd_options (cn_node con))" "cp_limits (cl_options cl) = limits"
    and "1030 \<le> max_frame_payload limits" "max_record_payload limits < 2 ^ 32"
    and "sk_valid (cn_socket con)" "sk_acceptance (cn_socket con) = []" "sk_valid (cl_socket cl)" "sk_acceptance (cl_socket cl) = []"
    and "session_ok limits (cl_session cl)" "length (encode_session (cl_session cl)) \<le> max_record_payload limits"
    and "call_ok limits c" "length (request_body (cl_session cl) c) \<le> max_frame_payload limits" "length (request_body (cl_session cl) c) < 2 ^ 32"
    and "perform_call env (cl_session cl) c (nd_runtime (cn_node con)) (cn_disk con) = (d', h', r)"
    and "readable (sk_inbox (cn_socket con)) = request_frame cl c @ unread" "serve_frame env pid con = (con', go)"
    and "sk_sent (cn_socket con') = sk_sent (cn_socket con) @ answer" "readable (sk_inbox (cl_socket cl)) = answer @ rest"
  shows "go \<and> cn_disk con' = d' \<and> nd_runtime (cn_node con') = h' \<and> readable (sk_inbox (cn_socket con')) = unread \<and>
    sk_sent (cl_socket (fst (client_call c cl))) = sk_sent (cl_socket cl) @ request_frame cl c \<and>
    remote_result r (snd (client_call c cl))"
proof -
  note served = node_serves_call[of con c "cl_next_request_id cl" "cl_session cl" unread env d' h' r pid, folded assms(1),
      OF assms(5,6) assms(15)[unfolded request_frame_def Let_def] assms(9,10,4,11-14)]
  have node: "go \<and> cn_disk con' = d' \<and> nd_runtime (cn_node con') = h' \<and> readable (sk_inbox (cn_socket con')) = unread \<and>
      answer = answer_frame c (cl_next_request_id cl) r"
    using served assms(16,17) by auto
  then obtain cl' where cl': "session_trip (fst (request_of c)) (snd (request_of c)) cl = (cl', trip_result c r)"
      "sk_sent (cl_socket cl') = sk_sent (cl_socket cl) @ request_frame cl c"
    using client_trip[OF assms(7,8), of c r rest] assms(2,3,18) by (auto simp: request_frame_def Let_def)
  have "fst (client_call c cl) = cl' \<and> remote_result r (snd (client_call c cl))"
    using client_call_result[OF cl'(1)] fence_answers_zero assms(14) by blast
  then show ?thesis using node cl'(2) by simp
qed

end
