(* ===== verification/Rendering.thy ===== *)
theory Rendering
  imports Durability
begin

text \<open>
  \<^verbatim>\<open>src/decision.cpp\<close>: the JSON and the plain-text form of a decision. The JSON renderer appends
  keys and values to a buffer and keeps a flag for the separating comma. Its specification is a
  small JSON: \<open>json\<close> values with a reference reader \<open>json_read\<close>, and \<open>decision_json\<close>, the value that
  a rendered decision must read as, whatever bytes its texts hold.
\<close>

section \<open>Renderer\<close>

definition json_escape :: "char \<Rightarrow> string" where
  "json_escape c =
     (if c = CHR 0x22 then [CHR 0x5C, CHR 0x22]
      else if c = CHR 0x5C then [CHR 0x5C, CHR 0x5C]
      else if c = CHR 0x0A then [CHR 0x5C, CHR ''n'']
      else if c = CHR 0x0D then [CHR 0x5C, CHR ''r'']
      else if c = CHR 0x09 then [CHR 0x5C, CHR ''t'']
      else if byte_of c < 0x20 then
        CHR 0x5C # ''u00'' @ [kHexDigits ! unat (drop_bit 4 (byte_of c) AND 0x0F), kHexDigits ! unat (byte_of c AND 0x0F)]
      else [c])"

definition append_json_string :: "string \<Rightarrow> string \<Rightarrow> string" where
  "append_json_string out tx = out @ CHR 0x22 # concat (map json_escape tx) @ [CHR 0x22]"

definition append_key :: "string \<times> bool \<Rightarrow> string \<Rightarrow> string \<times> bool" where
  "append_key st key =
     (case st of (out, first) \<Rightarrow>
        ((if first then out else out @ '','') @ CHR 0x22 # key @ [CHR 0x22, CHR '':''], False))"

text \<open>A key and the text of its value, once or for a run of fields.\<close>

definition append_field :: "string \<times> bool \<Rightarrow> string \<times> string \<Rightarrow> string \<times> bool" where
  "append_field st field = (case append_key st (fst field) of (out, first) \<Rightarrow> (out @ snd field, first))"

definition append_fields :: "string \<times> bool \<Rightarrow> (string \<times> string) list \<Rightarrow> string \<times> bool" where
  "append_fields = foldl append_field"

definition braced :: "(string \<times> string) list \<Rightarrow> string" where
  "braced fs = ''{'' @ fst (append_fields ([], True) fs) @ ''}''"

fun append_items :: "string \<Rightarrow> nat \<Rightarrow> ('a \<Rightarrow> string) \<Rightarrow> 'a list \<Rightarrow> string" where
  "append_items out i render [] = out"
| "append_items out i render (x # xs) = append_items ((if i \<noteq> 0 then out @ '','' else out) @ render x) (Suc i) render xs"

definition json_array :: "('a \<Rightarrow> string) \<Rightarrow> 'a list \<Rightarrow> string" where
  "json_array render xs = append_items ''['' 0 render xs @ '']''"

abbreviation quoted_json :: "string \<Rightarrow> string" where "quoted_json \<equiv> append_json_string []"

definition bool_text :: "bool \<Rightarrow> string" where
  "bool_text b = (if b then ''true'' else ''false'')"

definition provenance_fields :: "provenance \<Rightarrow> (string \<times> string) list" where
  "provenance_fields p =
     [(''publisher'', quoted_json (id_str (pv_publisher p))), (''boot'', quoted_json (boot_hex (pv_boot p))),
      (''epoch'', u_dec (pv_epoch p)), (''fencing_token'', u_dec (pv_token p)),
      (''state_generation'', u_dec (pv_state_generation p)), (''audit_sequence'', u_dec (pv_audit_sequence p)),
      (''recorded_at_ms'', u_dec (pv_recorded_at_ms p)), (''op'', quoted_json (pv_op p))]"

definition append_provenance_json :: "string \<Rightarrow> provenance \<Rightarrow> string" where
  "append_provenance_json out p = out @ braced (provenance_fields p)"

definition evidence_fields :: "evidence_note \<Rightarrow> (string \<times> string) list" where
  "evidence_fields n =
     [(''assignment'', quoted_json (id_str (ev_assignment n))),
      (''assignment_generation'', u_dec (ev_assignment_generation n)),
      (''class'', quoted_json (id_str (ev_cls n))), (''class_generation'', u_dec (ev_class_generation n)),
      (''scope'', quoted_json (id_str (ev_scope n)))] @
     (case ev_via_subject n of None \<Rightarrow> [] | Some s \<Rightarrow> [(''via_subject'', quoted_json (id_str s))]) @
     [(''reason_code'', quoted_json (ev_reason_code n)), (''reason'', quoted_json (ev_reason n)),
      (''provenance'', append_provenance_json [] (ev_provenance n))]"

definition append_evidence_json :: "string \<Rightarrow> evidence_note \<Rightarrow> string" where
  "append_evidence_json out n = out @ braced (evidence_fields n)"

definition step_fields :: "explanation_step \<Rightarrow> (string \<times> string) list" where
  "step_fields s =
     [(''stage'', quoted_json (ex_stage s)), (''code'', quoted_json (ex_code s)), (''detail'', quoted_json (ex_detail s))] @
     (case ex_assignment s of None \<Rightarrow> []
      | Some i \<Rightarrow> [(''assignment'', quoted_json (id_str i)), (''assignment_generation'', u_dec (ex_assignment_generation s))]) @
     (case ex_cls s of None \<Rightarrow> []
      | Some i \<Rightarrow> [(''class'', quoted_json (id_str i)), (''class_generation'', u_dec (ex_class_generation s))]) @
     (case ex_scope s of None \<Rightarrow> [] | Some i \<Rightarrow> [(''scope'', quoted_json (id_str i))]) @
     (case ex_policy s of None \<Rightarrow> [] | Some i \<Rightarrow> [(''policy'', quoted_json (id_str i))]) @
     [(''provenance'', append_provenance_json [] (ex_provenance s))]"

definition decision_fields_json :: "priority_decision \<Rightarrow> (string \<times> string) list" where
  "decision_fields_json d =
     [(''outcome'', quoted_json (outcome_to_string (de_outcome d))), (''authoritative'', bool_text (de_authoritative d)),
      (''class'', quoted_json (id_str (de_cls d))), (''class_generation'', u_dec (de_class_generation d)),
      (''precedence'', if rank_assigned (de_precedence d) then u_dec (rank_value (de_precedence d)) else ''null''),
      (''privileged_class'', bool_text (de_privileged_class d)), (''reason_code'', quoted_json (de_reason_code d)),
      (''reason'', quoted_json (de_reason d)), (''resolution'', quoted_json (de_resolution d)),
      (''epoch'', u_dec (de_epoch d)), (''state_generation'', u_dec (de_state_generation d)),
      (''policy_generation'', u_dec (de_policy_generation d)), (''scope_generation'', u_dec (de_scope_generation d)),
      (''decision_digest'', quoted_json (digest_hex (de_digest d))),
      (''chain'', json_array (\<lambda>s. braced (step_fields s)) (de_chain d)),
      (''superseded'', json_array (append_evidence_json []) (de_superseded d)),
      (''rejected_evidence'', json_array (append_evidence_json []) (de_rejected_evidence d)),
      (''conflicts'', json_array quoted_json (de_conflicts d))]"

definition to_json :: "priority_decision \<Rightarrow> string" where
  "to_json d = fst (append_fields (''{'', True) (decision_fields_json d)) @ ''}''"

definition newline :: string where "newline = [CHR 0x0A]"

definition to_text :: "priority_decision \<Rightarrow> string" where
  "to_text d =
     cat [''outcome            : '', outcome_to_string (de_outcome d), newline,
          ''authoritative      : '', (if de_authoritative d then ''yes'' else ''no''), newline,
          ''class              : '', (if de_authoritative d then id_str (de_cls d) else ''<none>''), newline,
          ''class generation   : '', u_dec (de_class_generation d), newline,
          ''precedence         : '', (if de_authoritative d then u_dec (rank_value (de_precedence d)) else ''<none>''), newline,
          ''reason code        : '', de_reason_code d, newline,
          ''reason             : '', de_reason d, newline,
          ''resolution         : '', de_resolution d, newline,
          ''epoch              : '', u_dec (de_epoch d), newline,
          ''state generation   : '', u_dec (de_state_generation d), newline,
          ''policy generation  : '', u_dec (de_policy_generation d), newline,
          ''scope generation   : '', u_dec (de_scope_generation d), newline,
          ''decision digest    : '', digest_hex (de_digest d), newline,
          ''explanation chain  :'', newline] @
     concat (map (\<lambda>s. cat [''  ['', ex_stage s, ''/'', ex_code s, ''] '', ex_detail s, newline]) (de_chain d)) @
     (if de_superseded d \<noteq> [] then
        cat [''superseded evidence:'', newline] @
        concat (map (\<lambda>n. cat [''  '', id_str (ev_assignment n), '': '', ev_reason n, newline]) (de_superseded d)) else []) @
     (if de_rejected_evidence d \<noteq> [] then
        cat [''rejected evidence  :'', newline] @
        concat (map (\<lambda>n. cat [''  '', id_str (ev_assignment n), '' ['', ev_reason_code n, '']: '', ev_reason n, newline])
          (de_rejected_evidence d)) else []) @
     (if de_conflicts d \<noteq> [] then
        cat [''conflicts          :'', newline] @ concat (map (\<lambda>c. cat [''  '', c, newline]) (de_conflicts d)) else [])"

fun health_to_string :: "health \<Rightarrow> string" where
  "health_to_string Healthy = ''healthy''"
| "health_to_string Degraded = ''degraded''"

section \<open>JSON values and a reference reader\<close>

datatype json = JNull | JBool bool | JNum nat | JStr string | JArr "json list" | JObj "(string \<times> json) list"

definition simple_escape :: "char \<Rightarrow> char option" where
  "simple_escape e =
     (if e = CHR 0x22 then Some (CHR 0x22) else if e = CHR 0x5C then Some (CHR 0x5C)
      else if e = CHR ''n'' then Some (CHR 0x0A) else if e = CHR ''r'' then Some (CHR 0x0D)
      else if e = CHR ''t'' then Some (CHR 0x09) else None)"

fun read_string :: "string \<Rightarrow> (string \<times> string) option" where
  "read_string [] = None"
| "read_string [c] = (if c = CHR 0x22 then Some ([], []) else None)"
| "read_string (c # e # s) =
     (if c = CHR 0x22 then Some ([], e # s)
      else if c = CHR 0x5C then
        (case simple_escape e of
           Some x \<Rightarrow> map_option (apfst ((#) x)) (read_string s)
         | None \<Rightarrow>
             (case s of
                a # b # h # l # r \<Rightarrow>
                  if e = CHR ''u'' \<and> a = CHR ''0'' \<and> b = CHR ''0'' \<and> 0 \<le> hex_value h \<and> 0 \<le> hex_value l then
                    map_option (apfst ((#) (char_of (nat (16 * hex_value h + hex_value l))))) (read_string r)
                  else None
              | _ \<Rightarrow> None))
      else if byte_of c < 0x20 then None
      else map_option (apfst ((#) c)) (read_string (e # s)))"

definition is_digit :: "char \<Rightarrow> bool" where
  "is_digit c \<longleftrightarrow> CHR ''0'' \<le> c \<and> c \<le> CHR ''9''"

definition read_number :: "string \<Rightarrow> (json \<times> string) option" where
  "read_number s =
     (let ds = takeWhile is_digit s in
      if ds = [] then None else map_option (\<lambda>n. (JNum n, dropWhile is_digit s)) (parse_digits ds 0))"

definition after_prefix :: "string \<Rightarrow> string \<Rightarrow> string option" where
  "after_prefix pre s = (if take (length pre) s = pre then Some (drop (length pre) s) else None)"

fun read_value :: "nat \<Rightarrow> string \<Rightarrow> (json \<times> string) option"
and read_items :: "nat \<Rightarrow> string \<Rightarrow> (json list \<times> string) option"
and read_members :: "nat \<Rightarrow> string \<Rightarrow> ((string \<times> json) list \<times> string) option" where
  "read_value 0 s = None"
| "read_value (Suc n) s =
     (case after_prefix ''null'' s of Some r \<Rightarrow> Some (JNull, r) | None \<Rightarrow>
     (case after_prefix ''true'' s of Some r \<Rightarrow> Some (JBool True, r) | None \<Rightarrow>
     (case after_prefix ''false'' s of Some r \<Rightarrow> Some (JBool False, r) | None \<Rightarrow>
     (case after_prefix [CHR 0x22] s of Some r \<Rightarrow> map_option (apfst JStr) (read_string r) | None \<Rightarrow>
     (case after_prefix ''[]'' s of Some r \<Rightarrow> Some (JArr [], r) | None \<Rightarrow>
     (case after_prefix ''['' s of Some r \<Rightarrow> map_option (apfst JArr) (read_items n r) | None \<Rightarrow>
     (case after_prefix ''{}'' s of Some r \<Rightarrow> Some (JObj [], r) | None \<Rightarrow>
     (case after_prefix ''{'' s of Some r \<Rightarrow> map_option (apfst JObj) (read_members n r) | None \<Rightarrow>
     read_number s))))))))"
| "read_items 0 s = None"
| "read_items (Suc n) s =
     (case read_value n s of
        Some (v, c # r) \<Rightarrow>
          if c = CHR '','' then map_option (apfst ((#) v)) (read_items n r)
          else if c = CHR '']'' then Some ([v], r) else None
      | _ \<Rightarrow> None)"
| "read_members 0 s = None"
| "read_members (Suc n) s =
     (case after_prefix [CHR 0x22] s of None \<Rightarrow> None | Some q \<Rightarrow>
     (case read_string q of
        Some (k, c # r) \<Rightarrow>
          if c \<noteq> CHR '':'' then None
          else (case read_value n r of
             Some (v, c' # r') \<Rightarrow>
               if c' = CHR '','' then map_option (apfst ((#) (k, v))) (read_members n r')
               else if c' = CHR ''}'' then Some ([(k, v)], r') else None
           | _ \<Rightarrow> None)
      | _ \<Rightarrow> None))"

definition json_read :: "string \<Rightarrow> json option" where
  "json_read s = (case read_value (Suc (length s)) s of Some (v, []) \<Rightarrow> Some v | _ \<Rightarrow> None)"

text \<open>The canonical text of a JSON value.\<close>

fun commas :: "string list \<Rightarrow> string" where
  "commas [] = []"
| "commas [x] = x"
| "commas (x # y # xs) = x @ CHR '','' # commas (y # xs)"

fun json_print :: "json \<Rightarrow> string" where
  "json_print JNull = ''null''"
| "json_print (JBool b) = bool_text b"
| "json_print (JNum n) = to_dec n"
| "json_print (JStr t) = quoted_json t"
| "json_print (JArr vs) = ''['' @ commas (map json_print vs) @ '']''"
| "json_print (JObj ms) = ''{'' @ commas (map (\<lambda>(k, v). quoted_json k @ CHR '':'' # json_print v) ms) @ ''}''"

section \<open>The value of a decision\<close>

definition id_json :: "'tag basic_id \<Rightarrow> json" where
  "id_json i = JStr (id_str i)"

definition num_json :: "'a::len word \<Rightarrow> json" where
  "num_json w = JNum (unat w)"

definition maybe :: "('a \<Rightarrow> 'b list) \<Rightarrow> 'a option \<Rightarrow> 'b list" where
  "maybe f v = (case v of None \<Rightarrow> [] | Some x \<Rightarrow> f x)"

definition provenance_json :: "provenance \<Rightarrow> json" where
  "provenance_json p = JObj
     [(''publisher'', id_json (pv_publisher p)), (''boot'', JStr (boot_hex (pv_boot p))), (''epoch'', num_json (pv_epoch p)),
      (''fencing_token'', num_json (pv_token p)), (''state_generation'', num_json (pv_state_generation p)),
      (''audit_sequence'', num_json (pv_audit_sequence p)), (''recorded_at_ms'', num_json (pv_recorded_at_ms p)),
      (''op'', JStr (pv_op p))]"

definition evidence_json :: "evidence_note \<Rightarrow> json" where
  "evidence_json n = JObj
     ([(''assignment'', id_json (ev_assignment n)), (''assignment_generation'', num_json (ev_assignment_generation n)),
       (''class'', id_json (ev_cls n)), (''class_generation'', num_json (ev_class_generation n)),
       (''scope'', id_json (ev_scope n))] @ maybe (\<lambda>s. [(''via_subject'', id_json s)]) (ev_via_subject n) @
      [(''reason_code'', JStr (ev_reason_code n)), (''reason'', JStr (ev_reason n)),
       (''provenance'', provenance_json (ev_provenance n))])"

definition step_json :: "explanation_step \<Rightarrow> json" where
  "step_json s = JObj
     ([(''stage'', JStr (ex_stage s)), (''code'', JStr (ex_code s)), (''detail'', JStr (ex_detail s))] @
      maybe (\<lambda>i. [(''assignment'', id_json i), (''assignment_generation'', num_json (ex_assignment_generation s))]) (ex_assignment s) @
      maybe (\<lambda>i. [(''class'', id_json i), (''class_generation'', num_json (ex_class_generation s))]) (ex_cls s) @
      maybe (\<lambda>i. [(''scope'', id_json i)]) (ex_scope s) @ maybe (\<lambda>i. [(''policy'', id_json i)]) (ex_policy s) @
      [(''provenance'', provenance_json (ex_provenance s))])"

definition decision_json :: "priority_decision \<Rightarrow> json" where
  "decision_json d = JObj
     [(''outcome'', JStr (outcome_to_string (de_outcome d))), (''authoritative'', JBool (de_authoritative d)),
      (''class'', id_json (de_cls d)), (''class_generation'', num_json (de_class_generation d)),
      (''precedence'', if rank_assigned (de_precedence d) then num_json (rank_value (de_precedence d)) else JNull),
      (''privileged_class'', JBool (de_privileged_class d)), (''reason_code'', JStr (de_reason_code d)),
      (''reason'', JStr (de_reason d)), (''resolution'', JStr (de_resolution d)), (''epoch'', num_json (de_epoch d)),
      (''state_generation'', num_json (de_state_generation d)), (''policy_generation'', num_json (de_policy_generation d)),
      (''scope_generation'', num_json (de_scope_generation d)), (''decision_digest'', JStr (digest_hex (de_digest d))),
      (''chain'', JArr (map step_json (de_chain d))), (''superseded'', JArr (map evidence_json (de_superseded d))),
      (''rejected_evidence'', JArr (map evidence_json (de_rejected_evidence d))),
      (''conflicts'', JArr (map JStr (de_conflicts d)))]"

section \<open>Reading what was rendered\<close>

lemma nibbles: "unat (drop_bit 4 b AND 0x0F) = unat b div 16" "unat (b AND 0x0F) = unat b mod 16" for b :: u8
proof -
  have m: "x AND 0x0F = take_bit 4 x" for x :: u8 by (simp add: take_bit_eq_mask mask_eq_exp_minus_1)
  have "unat b < 256" using unsigned_less[of b] by simp
  then show "unat (drop_bit 4 b AND 0x0F) = unat b div 16" "unat (b AND 0x0F) = unat b mod 16"
    unfolding m by (simp_all add: unsigned_take_bit_eq unsigned_drop_bit_eq take_bit_nat_def drop_bit_nat_def less_mult_imp_div_less)
qed

lemma read_escape: "read_string (json_escape c @ s) = map_option (apfst ((#) c)) (read_string s)"
proof (cases "byte_of c < 0x20 \<and> c \<notin> {CHR 0x22, CHR 0x5C, CHR 0x0A, CHR 0x0D, CHR 0x09}")
  case True
  let ?h = "kHexDigits ! unat (drop_bit 4 (byte_of c) AND 0x0F)" and ?l = "kHexDigits ! unat (byte_of c AND 0x0F)"
  have h: "hex_value ?h = int (unat (byte_of c) div 16)" using hex_value_digit[OF nibble_less] nibbles(1) by metis
  have l: "hex_value ?l = int (unat (byte_of c) mod 16)" using hex_value_digit[OF nibble_less] nibbles(2) by metis
  have "nat (16 * hex_value ?h + hex_value ?l) = unat (byte_of c)"
    unfolding h l by (simp add: nat_add_distrib nat_mult_distrib)
  moreover have "json_escape c = CHR 0x5C # CHR ''u'' # CHR ''0'' # CHR ''0'' # ?h # ?l # []"
    using True by (simp add: json_escape_def)
  moreover have "0 \<le> hex_value ?h" "0 \<le> hex_value ?l" unfolding h l by simp_all
  ultimately show ?thesis by (simp add: simple_escape_def del: of_char_of)
next
  case False
  then show ?thesis by (cases s) (auto simp: json_escape_def simple_escape_def)
qed

lemma read_string_escaped: "read_string (concat (map json_escape t) @ CHR 0x22 # r) = Some (t, r)"
proof (induction t)
  case Nil
  then show ?case by (cases r) simp_all
next
  case (Cons c t)
  then show ?case by (simp add: read_escape)
qed

lemma read_quoted: "quoted_json t = CHR 0x22 # concat (map json_escape t) @ [CHR 0x22]"
  by (simp add: append_json_string_def)

lemma digit_is_digit: "d < 10 \<Longrightarrow> is_digit (digit_char d)"
  by (simp add: is_digit_def digit_char_def less_eq_char_def)

lemma to_dec_digits: "list_all is_digit (to_dec n)"
proof (induction n rule: to_dec.induct)
  case (1 n)
  then show ?case by (subst to_dec.simps) (simp add: digit_is_digit)
qed

definition ends_number :: "string \<Rightarrow> bool" where
  "ends_number r \<longleftrightarrow> (case r of [] \<Rightarrow> True | c # _ \<Rightarrow> \<not> is_digit c)"

lemma takeWhile_digits:
  "ends_number r \<Longrightarrow> takeWhile is_digit (to_dec n @ r) = to_dec n \<and> dropWhile is_digit (to_dec n @ r) = r"
  using to_dec_digits[of n] by (cases r) (simp_all add: ends_number_def list_all_iff takeWhile_append dropWhile_append)

lemma read_number_dec: "ends_number r \<Longrightarrow> read_number (to_dec n @ r) = Some (JNum n, r)"
  using takeWhile_digits[of r n] by (simp add: read_number_def Let_def to_dec_nonempty parse_to_dec)

lemma to_dec_head: "\<exists>c ds. to_dec n = c # ds \<and> is_digit c"
  using to_dec_digits[of n] to_dec_nonempty[of n] by (cases "to_dec n") auto

lemma after_prefix_simps [simp]:
  "after_prefix [] s = Some s" "after_prefix (c # cs) [] = None"
  "after_prefix (c # cs) (d # s) = (if c = d then after_prefix cs s else None)"
  by (auto simp: after_prefix_def)

lemma read_dec: "ends_number r \<Longrightarrow> read_value (Suc n) (to_dec k @ r) = Some (JNum k, r)"
proof -
  assume r: "ends_number r"
  obtain c ds where c: "to_dec k = c # ds" "is_digit c" using to_dec_head by blast
  then have "c \<notin> {CHR ''n'', CHR ''t'', CHR ''f'', CHR 0x22, CHR ''['', CHR ''{''}"
    by (auto simp: is_digit_def less_eq_char_def)
  then show ?thesis using read_number_dec[OF r, of k] c(1) by auto
qed

lemma print_head: "\<exists>c s. json_print v = c # s \<and> c \<noteq> CHR '']''"
proof (cases v)
  case (JNum n)
  obtain c ds where "to_dec n = c # ds" "is_digit c" using to_dec_head by blast
  then show ?thesis using JNum by (auto simp: is_digit_def less_eq_char_def)
qed (simp_all add: read_quoted bool_text_def)

lemma ends_number_simps [simp]: "ends_number []" "ends_number (CHR '','' # r)" "ends_number (CHR '']'' # r)" "ends_number (CHR ''}'' # r)"
  by (simp_all add: ends_number_def is_digit_def less_eq_char_def)

lemma read_items_print:
  assumes "vs \<noteq> []" "length (commas (map json_print vs)) + 1 < n"
    and "\<And>v m r. v \<in> set vs \<Longrightarrow> length (json_print v) < m \<Longrightarrow> ends_number r \<Longrightarrow> read_value m (json_print v @ r) = Some (v, r)"
  shows "read_items n (commas (map json_print vs) @ CHR '']'' # r) = Some (vs, r)"
  using assms
proof (induction vs arbitrary: n)
  case (Cons v vs)
  obtain m where m: "n = Suc m" using Cons.prems(2) by (cases n) simp
  show ?case
  proof (cases vs)
    case Nil
    then show ?thesis using Cons.prems m by simp
  next
    case (Cons w ws)
    have ih: "read_items m (commas (map json_print vs) @ CHR '']'' # r) = Some (vs, r)"
      using Cons.prems m Cons by (intro Cons.IH) auto
    show ?thesis using ih Cons.prems(2,3) m Cons by simp
  qed
qed simp

lemma read_member:
  assumes "length (json_print v) < m" "ends_number (c # r)"
    and "\<And>m r. length (json_print v) < m \<Longrightarrow> ends_number r \<Longrightarrow> read_value m (json_print v @ r) = Some (v, r)"
  shows "read_members (Suc m) (quoted_json k @ CHR '':'' # json_print v @ c # r) =
    (if c = CHR '','' then map_option (apfst ((#) (k, v))) (read_members m r)
     else if c = CHR ''}'' then Some ([(k, v)], r) else None)"
  using assms read_string_escaped[of k "CHR '':'' # json_print v @ c # r"] by (simp add: read_quoted)

lemma read_members_print:
  assumes "ms \<noteq> []" "length (commas (map (\<lambda>(k, v). quoted_json k @ CHR '':'' # json_print v) ms)) + 1 < n"
    and "\<And>k v m r. (k, v) \<in> set ms \<Longrightarrow> length (json_print v) < m \<Longrightarrow> ends_number r \<Longrightarrow> read_value m (json_print v @ r) = Some (v, r)"
  shows "read_members n (commas (map (\<lambda>(k, v). quoted_json k @ CHR '':'' # json_print v) ms) @ CHR ''}'' # r) = Some (ms, r)"
  using assms
proof (induction ms arbitrary: n)
  case (Cons e ms)
  obtain k v where e: "e = (k, v)" by (cases e)
  obtain m where m: "n = Suc m" using Cons.prems(2) by (cases n) simp
  have rv: "read_value m' (json_print v @ r') = Some (v, r')" if "length (json_print v) < m'" "ends_number r'" for m' r'
    using Cons.prems(3)[of k v] that e by simp
  show ?case
  proof (cases ms)
    case Nil
    then show ?thesis using Cons.prems(2) m e read_member[of v m "CHR ''}''" r k, OF _ _ rv] by simp
  next
    case tl: (Cons w ws)
    have ih: "read_members m (commas (map (\<lambda>(k, v). quoted_json k @ CHR '':'' # json_print v) ms) @ CHR ''}'' # r) = Some (ms, r)"
      using Cons.prems m tl e by (intro Cons.IH) auto
    show ?thesis
      using ih Cons.prems(2) m e tl read_member[of v m "CHR '',''" "commas (map (\<lambda>(k, v). quoted_json k @ CHR '':'' # json_print v) ms) @ CHR ''}'' # r" k, OF _ _ rv]
      by simp
  qed
qed simp

lemma read_print: "length (json_print v) < n \<Longrightarrow> ends_number r \<Longrightarrow> read_value n (json_print v @ r) = Some (v, r)"
proof (induction v arbitrary: n r)
  case (JNum k)
  then show ?case by (cases n) (simp_all only: json_print.simps read_dec less_nat_zero_code)
next
  case (JStr t)
  then show ?case using read_string_escaped[of t r] by (cases n) (simp_all add: read_quoted)
next
  case (JArr vs)
  then obtain m where m: "n = Suc m" by (cases n) simp
  show ?case
  proof (cases "vs = []")
    case False
    then obtain v ws where v: "vs = v # ws" by (cases vs) auto
    obtain c s where c: "commas (map json_print vs) = c # s" "c \<noteq> CHR '']''"
      using print_head[of v] v by (cases ws) auto
    have "read_items m (commas (map json_print vs) @ CHR '']'' # r) = Some (vs, r)"
      using JArr m False by (intro read_items_print) auto
    then show ?thesis using c m by simp
  qed (simp add: m)
next
  case (JObj ms)
  then obtain m where m: "n = Suc m" by (cases n) simp
  let ?t = "commas (map (\<lambda>(k, v). quoted_json k @ CHR '':'' # json_print v) ms)"
  show ?case
  proof (cases "ms = []")
    case False
    then obtain k v ws where v: "ms = (k, v) # ws" by (cases ms) auto
    obtain s where c: "?t = CHR 0x22 # s"
      using v by (cases ws) (auto simp: read_quoted)
    have "read_members m (?t @ CHR ''}'' # r) = Some (ms, r)"
    proof (intro read_members_print)
      show "read_value m' (json_print v @ r') = Some (v, r')" if "(k, v) \<in> set ms" "length (json_print v) < m'" "ends_number r'" for k v m' r'
        using JObj.IH[OF that(1), of v m' r'] that by (simp add: snds.intros)
    qed (use JObj.prems m False in simp_all)
    then show ?thesis using c m by simp
  qed (simp add: m)
qed (auto simp: bool_text_def gr0_conv_Suc dest!: less_imp_Suc_add)

lemma json_read_print: "json_read (json_print v) = Some v"
  using read_print[of v "Suc (length (json_print v))" "[]"] by (simp add: json_read_def)

section \<open>The renderer prints the value\<close>

definition plain_key :: "string \<Rightarrow> bool" where
  "plain_key k \<longleftrightarrow> list_all (\<lambda>c. c = CHR ''_'' \<or> CHR ''a'' \<le> c \<and> c \<le> CHR ''z'') k"

lemma plain_char: "c = CHR ''_'' \<or> CHR ''a'' \<le> c \<and> c \<le> CHR ''z'' \<Longrightarrow> json_escape c = [c]"
  by (auto simp: json_escape_def less_eq_char_def word_less_nat_alt unat_byte_of)

lemma plain_key_quoted: "plain_key k \<Longrightarrow> quoted_json k = CHR 0x22 # k @ [CHR 0x22]"
proof -
  assume "plain_key k"
  then have "concat (map json_escape k) = k" by (induction k) (auto simp: plain_key_def plain_char)
  then show ?thesis by (simp add: read_quoted)
qed

lemma commas_Cons: "commas (x # xs) = x @ concat (map ((#) (CHR '','')) xs)"
  by (induction xs arbitrary: x) simp_all

definition member_text :: "string \<times> string \<Rightarrow> string" where
  "member_text f = CHR 0x22 # fst f @ [CHR 0x22, CHR '':''] @ snd f"

lemma append_fields_more: "append_fields (out, False) fs = (out @ concat (map (\<lambda>f. CHR '','' # member_text f) fs), False)"
  unfolding append_fields_def
  by (induction fs arbitrary: out) (simp_all add: append_field_def append_key_def member_text_def)

lemma append_fields_first: "fst (append_fields (out, True) fs) = out @ commas (map member_text fs)"
proof (cases fs)
  case (Cons f gs)
  have "append_fields (out, True) fs = append_fields (out @ member_text f, False) gs"
    by (simp add: Cons append_fields_def append_field_def append_key_def member_text_def)
  then show ?thesis by (simp add: Cons append_fields_more commas_Cons comp_def)
qed (simp add: append_fields_def)

lemma append_items_more: "append_items out (Suc i) render xs = out @ concat (map (\<lambda>x. CHR '','' # render x) xs)"
  by (induction xs arbitrary: out i) simp_all

lemma json_array_commas: "json_array render xs = ''['' @ commas (map render xs) @ '']''"
  by (cases xs) (simp_all add: json_array_def append_items_more commas_Cons comp_def)

text \<open>A run of fields whose texts print a list of members, with keys that need no escape.\<close>

definition prints :: "(string \<times> string) list \<Rightarrow> (string \<times> json) list \<Rightarrow> bool" where
  "prints fs ms \<longleftrightarrow> list_all2 (\<lambda>f m. fst f = fst m \<and> plain_key (fst m) \<and> snd f = json_print (snd m)) fs ms"

lemma prints_simps [simp]:
  "prints [] []" "prints ((k, t) # fs) ((l, v) # ms) \<longleftrightarrow> k = l \<and> plain_key l \<and> t = json_print v \<and> prints fs ms"
  by (simp_all add: prints_def)

lemma prints_append: "prints fs ms \<Longrightarrow> prints gs ns \<Longrightarrow> prints (fs @ gs) (ms @ ns)"
  unfolding prints_def by (rule list_all2_appendI)

lemma prints_commas:
  "prints fs ms \<Longrightarrow> map member_text fs = map (\<lambda>(k, v). quoted_json k @ CHR '':'' # json_print v) ms"
  unfolding prints_def by (induction rule: list_all2_induct) (auto simp: member_text_def plain_key_quoted)

lemma braced_prints: "prints fs ms \<Longrightarrow> braced fs = json_print (JObj ms)"
  by (simp add: braced_def append_fields_first prints_commas)

lemma num_print [simp]: "json_print (num_json w) = u_dec w" "json_print (id_json i) = quoted_json (id_str i)"
  by (simp_all add: num_json_def id_json_def)

lemma plain_names:
  "plain_key ''publisher''" "plain_key ''boot''" "plain_key ''epoch''" "plain_key ''fencing_token''"
  "plain_key ''state_generation''" "plain_key ''audit_sequence''" "plain_key ''recorded_at_ms''" "plain_key ''op''"
  "plain_key ''assignment''" "plain_key ''assignment_generation''" "plain_key ''class''" "plain_key ''class_generation''"
  "plain_key ''scope''" "plain_key ''via_subject''" "plain_key ''reason_code''" "plain_key ''reason''"
  "plain_key ''provenance''" "plain_key ''stage''" "plain_key ''code''" "plain_key ''detail''"
  "plain_key ''policy''" "plain_key ''outcome''" "plain_key ''authoritative''" "plain_key ''precedence''"
  "plain_key ''privileged_class''" "plain_key ''resolution''" "plain_key ''policy_generation''" "plain_key ''scope_generation''"
  "plain_key ''decision_digest''" "plain_key ''chain''" "plain_key ''superseded''" "plain_key ''rejected_evidence''"
  "plain_key ''conflicts''"
  by (simp_all add: plain_key_def less_eq_char_def)

lemma provenance_prints: "append_provenance_json [] p = json_print (provenance_json p)"
  unfolding append_provenance_json_def provenance_json_def append_Nil
  by (rule braced_prints) (simp add: provenance_fields_def plain_names)

lemma evidence_prints: "append_evidence_json [] n = json_print (evidence_json n)"
  unfolding append_evidence_json_def evidence_json_def append_Nil evidence_fields_def
  by (intro braced_prints prints_append)
    (simp_all add: plain_names maybe_def provenance_prints split: option.split)

lemma step_prints: "braced (step_fields s) = json_print (step_json s)"
  unfolding step_fields_def step_json_def
  by (intro braced_prints prints_append)
    (simp_all add: plain_names maybe_def provenance_prints split: option.split)

lemma array_prints: "(\<And>x. x \<in> set xs \<Longrightarrow> render x = json_print (value x)) \<Longrightarrow> json_array render xs = json_print (JArr (map value xs))"
  by (simp add: json_array_commas comp_def cong: map_cong)

lemma to_json_prints: "to_json d = json_print (decision_json d)"
proof -
  have "to_json d = braced (decision_fields_json d)" by (simp add: to_json_def braced_def append_fields_first)
  also have "\<dots> = json_print (decision_json d)"
    unfolding decision_json_def decision_fields_json_def
    by (rule braced_prints)
      (simp add: plain_names array_prints[of _ _ step_json] array_prints[of _ _ evidence_json] array_prints[of _ _ JStr]
        step_prints evidence_prints del: json_print.simps(5))
  finally show ?thesis .
qed

section \<open>Property\<close>

text \<open>C25: A rendered decision is well-formed JSON that means the decision. Whatever bytes the
  identifiers, reasons, notes and conflicts hold, reading the text of \<^verbatim>\<open>to_json\<close> with a JSON reader
  succeeds, consumes the whole text and gives back every field of the decision: no content can
  break out of its string.\<close>

theorem rendered_decision_reads_back: "json_read (to_json d) = Some (decision_json d)"
  by (simp add: to_json_prints json_read_print)

end
