(* ===== verification/Exchanges.thy ===== *)
theory Exchanges
  imports Client Rendering
begin

text \<open>
  What the protocol promises end to end, for the node and the client together, and a sample
  exchange: a client publishes an assignment on the fresh fabric of a sample node.
\<close>

section \<open>Properties\<close>

text \<open>C14: Nothing that comes over the wire changes the fabric without a live session. Take a request
  other than a registration whose bytes do not decode to a session with the publisher, boot id and
  token of a live incarnation. Dispatching it leaves the image as it was, apart from the audit window,
  and every operation that needs authority is refused. Of the node nothing changes but the runtime's own
  bookkeeping, except that a shutdown, which needs no live session, stops a node whose options allow
  it. In the directory bytes may be added to a journal segment and nothing else changes, except by a
  checkpoint or an integrity check, which anyone may ask for and which write the store's own files.\<close>

theorem wire_request_needs_live_session:
  assumes "dispatch env pid h payload node d = (d', node', r)" "nd_runtime node = Some rt" "fh_op h \<noteq> op_value Op_Hello"
    and "\<And>s inner. decode_session_request payload (no_limits (nd_options node)) = Inr (s, inner) \<Longrightarrow>
      \<not> live (rt_image rt) (fs_publisher s) (fs_boot s) (fs_token s)"
  shows "(\<exists>rt' n log. nd_runtime node' = Some rt' \<and> rt_image rt' = with_audit n log (rt_image rt) \<and>
      (node' = node\<lparr>nd_runtime := Some rt'\<rparr> \<or>
       fh_op h = op_value Op_Shutdown \<and> no_allow_remote_shutdown (nd_options node) \<and>
       node' = node\<lparr>nd_stopping := True, nd_listener := None\<rparr>)) \<and>
    (op_of (fh_op h) \<notin> {Some Op_Checkpoint, Some Op_Integrity} \<longrightarrow> journal_grows d d') \<and>
    (needs_authority (fh_op h) \<longrightarrow> (\<exists>e. r = Inl e))"
  using stale_request[OF assms] unfolding powerless_def .

text \<open>C20: A connection answers its requests in order, each once. However the bytes of a sequence of
  well-formed request frames are cut into chunks, the node sends back a sequence of frames whose
  replies carry the identifiers of the requests, in their order; and it answers all of them when
  none is a registration or a shutdown and the bound on requests is not exceeded.\<close>

theorem every_request_answered:
  assumes "list_all (\<lambda>(h, p). frame_ok (no_limits (nd_options (cn_node c))) h p) reqs" "length reqs \<le> left"
    and "sk_valid (cn_socket c)" "sk_acceptance (cn_socket c) = []" "readable (sk_inbox (cn_socket c)) = wire_frames reqs"
  shows "\<exists>replies. sk_sent (cn_socket (serve_loop envs pid left c)) = sk_sent (cn_socket c) @ wire_frames replies \<and>
    length replies \<le> length reqs \<and> list_all2 answers replies (take (length replies) reqs) \<and>
    (\<not> nd_stopping (cn_node c) \<and> list_all (\<lambda>(h, p). fh_op h \<notin> {op_value Op_Hello, op_value Op_Shutdown}) reqs \<longrightarrow>
       length replies = length reqs)"
  using serve_loop_answers[OF assms] .

section \<open>A sample exchange\<close>

definition sample_node_options :: node_options where
  "sample_node_options = \<lparr>no_bind_address = ''127.0.0.1'', no_port = 0, no_limits = compiled_limits_ceiling, no_create_if_missing = True,
     no_fsync_records = True, no_ready_file = [], no_allow_non_loopback = False, no_fence_on_disconnect = False,
     no_advance_epoch_on_open = True, no_allow_remote_shutdown = True, no_max_connections = 64\<rparr>"

definition sample_node :: fabric_node where
  "sample_node = \<lparr>nd_options = sample_node_options, nd_runtime = Some sample_runtime, nd_listener = None,
     nd_id = BasicId ''pf.node.1'', nd_boot = boot_a, nd_stopping = False, nd_listening = True\<rparr>"

definition stream :: "string list \<Rightarrow> socket" where
  "stream chunks = \<lparr>sk_valid = True, sk_inbox = map Arrive chunks, sk_acceptance = [], sk_sent = []\<rparr>"

definition sample_connection :: "string list \<Rightarrow> connection" where
  "sample_connection chunks = \<lparr>cn_socket = stream chunks, cn_node = sample_node, cn_disk = sample_disk, cn_last_session = session_none\<rparr>"

definition sample_session :: fabric_session where
  "sample_session = \<lparr>fs_publisher = ops, fs_boot = boot_a, fs_epoch = 1, fs_token = 1\<rparr>"

definition sample_client :: "string list \<Rightarrow> client_state" where
  "sample_client chunks = \<lparr>cl_options = \<lparr>cp_host = ''127.0.0.1'', cp_port = 4000, cp_limits = compiled_limits_ceiling,
       cp_io_deadline_ms = 0, cp_connect_attempts = 1\<rparr>,
     cl_socket = stream chunks, cl_session = sample_session, cl_next_request_id = 1\<rparr>"

lemma sample_parts [simp]:
  "no_limits sample_node_options = compiled_limits_ceiling" "nd_options sample_node = sample_node_options"
  "nd_runtime sample_node = Some sample_runtime" "\<not> nd_stopping sample_node"
  "sk_valid (stream chunks)" "sk_acceptance (stream chunks) = []" "sk_sent (stream chunks) = []" "sk_inbox (stream chunks) = map Arrive chunks"
  "cn_socket (sample_connection chunks) = stream chunks" "cn_node (sample_connection chunks) = sample_node"
  "cn_disk (sample_connection chunks) = sample_disk" "cl_socket (sample_client chunks) = stream chunks"
  "cl_session (sample_client chunks) = sample_session" "cl_next_request_id (sample_client chunks) = 1"
  "cp_limits (cl_options (sample_client chunks)) = compiled_limits_ceiling"
  by (simp_all add: sample_node_options_def sample_node_def stream_def sample_connection_def sample_client_def)

lemma names_canonical: "canonical_form ''a1''" "canonical_form ''ops''"
  by (simp_all add: canonical_form_scan is_lower_alnum_def less_eq_char_def)

lemma sample_session_ok: "session_ok compiled_limits_ceiling sample_session"
  by (simp add: session_ok_def sample_session_def ops_def boots id_ok_def names_canonical compiled_limits_ceiling_def kMaxRawIdBytes_def)

lemma sample_call_ok: "call_ok compiled_limits_ceiling (Publish host_gold)"
  by (simp add: call_ok_def assignment_ok_def host_gold_def assignment_default_def id_ok_def names_canonical canonical_form_small
      compiled_limits_ceiling_def kMaxRawIdBytes_def str_ok_def)

lemma sample_session_length: "length (encode_session sample_session) = 39"
  by (simp add: encode_session_def sample_session_def ops_def boot_a_def enc_id_def enc_str_short enc_u32_def enc_u64_def
      append_le_def encode_boot_def enc_raw_def)

lemma sample_request_length: "length (request_body sample_session (Publish host_gold)) \<le> 1000"
  using sample_session_length
  by (simp add: request_body_def encode_session_request_def request_of_def enc_str_short enc_u32_def append_le_def
      encode_assignment_def host_gold_def assignment_default_def enc_id_def enc_u64_def enc_u8_def enc_opt_def enc_bool_def)

lemma sample_refusal:
  "perform_call sample_call_env sample_session (Publish host_gold) (Some sample_runtime) sample_disk =
     (sample_disk, Some (refuse sample_call_env ''assign'' (undefined_name ''assignment'' ''subject'' (as_subject host_gold)) sample_session sample_runtime),
      Inl (undefined_name ''assignment'' ''subject'' (as_subject host_gold)))"
  by (simp add: perform_call_def assign_def acting_def session_shape_valid_def sample_session_def valid_names boots is_established_def
      token_is_valid_def host_gold_def assignment_default_def stamp_assignment_def fabric0_def empty_image_def)

theorem remote_call_is_local_call_witness:
  "\<exists>con' answer. serve_frame sample_call_env 7 (sample_connection [request_frame (sample_client []) (Publish host_gold)]) = (con', True) \<and>
     sk_sent (cn_socket con') = answer \<and>
     snd (client_call (Publish host_gold) (sample_client [answer])) =
       Some (Inl (make_error St_NotFound (st_message (undefined_name ''assignment'' ''subject'' (as_subject host_gold)))))"
proof -
  let ?c = "Publish host_gold" and ?b = "request_body sample_session (Publish host_gold)"
  let ?con = "sample_connection [request_frame (sample_client []) ?c]"
  have body: "length ?b \<le> max_frame_payload compiled_limits_ceiling" "length ?b < 2 ^ 32"
    using sample_request_length by (simp_all add: compiled_limits_ceiling_def)
  have sizes: "1030 \<le> max_frame_payload compiled_limits_ceiling" "max_record_payload compiled_limits_ceiling < 2 ^ 32"
      "length (encode_session sample_session) \<le> max_record_payload compiled_limits_ceiling"
    using sample_session_length by (simp_all add: compiled_limits_ceiling_def)
  have answer_nonempty: "answer_frame c i r \<noteq> []" for c i r
    by (simp add: answer_frame_def response_frame_def split: sum.split)
  have in_stream: "readable (sk_inbox (cn_socket ?con)) = request_frame (sample_client x) ?c @ []" for x
    by (simp add: request_frame_def Let_def)
  obtain con' where con': "serve_frame sample_call_env 7 ?con = (con', True)" "sk_sent (cn_socket con') = answer_frame ?c 1 (snd (snd (perform_call sample_call_env sample_session ?c (Some sample_runtime) sample_disk)))"
    using node_serves_call[of ?con ?c 1 sample_session "[]" sample_call_env _ _ _ 7] in_stream[of "[]"] sample_session_ok sizes sample_call_ok body
    by (auto simp: sample_refusal request_frame_def Let_def)
  let ?a = "sk_sent (cn_socket con')"
  have out_stream: "readable (sk_inbox (cl_socket (sample_client [?a]))) = ?a @ []" using con'(2) answer_nonempty by simp
  have "remote_result (Inl (undefined_name ''assignment'' ''subject'' (as_subject host_gold))) (snd (client_call ?c (sample_client [?a])))"
    using remote_call_is_local_call[of compiled_limits_ceiling ?con "sample_client [?a]" ?c sample_call_env, OF _ _ sizes(1,2) _ _ _ _ _ _ sample_call_ok _ _ _
        in_stream con'(1) _ out_stream]
      sample_session_ok sizes(3) body sample_refusal by simp
  then have "snd (client_call ?c (sample_client [?a])) =
      Some (Inl (make_error St_NotFound (st_message (undefined_name ''assignment'' ''subject'' (as_subject host_gold)))))"
    by (simp add: remote_result_def undefined_name_def)
  then show ?thesis using con'(1) by blast
qed

theorem wire_request_needs_live_session_witness:
  "\<exists>d' rt' e n log. dispatch sample_call_env 7 (request_header Op_AdvanceEpoch 1 (encode_session_request sample_session (encode_reason [])))
       (encode_session_request sample_session (encode_reason [])) sample_node sample_disk = (d', sample_node\<lparr>nd_runtime := Some rt'\<rparr>, Inl e) \<and>
     rt_image rt' = with_audit n log fabric0 \<and> journal_grows sample_disk d'"
proof -
  let ?p = "encode_session_request sample_session (encode_reason [])"
  let ?h = "request_header Op_AdvanceEpoch 1 ?p"
  obtain d' node' r where dd: "dispatch sample_call_env 7 ?h ?p sample_node sample_disk = (d', node', r)" by (metis prod_cases3)
  have "\<not> live (rt_image sample_runtime) p b t" for p b t by (simp add: live_def fabric0_def empty_image_def)
  note out = wire_request_needs_live_session[OF dd, of sample_runtime, OF _ _ this]
  have h: "fh_op ?h = op_value Op_AdvanceEpoch" by (simp add: request_header_def)
  obtain rt' n log where rt': "rt_image rt' = with_audit n log fabric0" "node' = sample_node\<lparr>nd_runtime := Some rt'\<rparr>"
    using out unfolding h by auto
  moreover have "journal_grows sample_disk d'" "\<exists>e. r = Inl e"
    using out op_of_value[of Op_AdvanceEpoch] unfolding h by (simp_all add: needs_authority_def)
  ultimately show ?thesis using dd by blast
qed

theorem every_request_answered_witness:
  "\<exists>reply. sk_sent (cn_socket (serve_loop (\<lambda>_. sample_call_env) 7 5 (sample_connection
      [encode_frame (request_header Op_Ping 3 []) []]))) = wire_frames [reply] \<and> answers reply (request_header Op_Ping 3 [], [])"
proof -
  let ?f = "encode_frame (request_header Op_Ping 3 []) []"
  have r: "readable (sk_inbox (cn_socket (sample_connection [?f]))) = wire_frames [(request_header Op_Ping 3 [], [])]"
    by (simp add: wire_frames_def)
  have ok: "frame_ok compiled_limits_ceiling (request_header Op_Ping 3 []) []" by (simp add: frame_ok_def request_header_def)
  obtain replies where e: "sk_sent (cn_socket (serve_loop (\<lambda>_. sample_call_env) 7 5 (sample_connection [?f]))) = wire_frames replies"
      "list_all2 answers replies (take (length replies) [(request_header Op_Ping 3 [], [])])" "length replies = 1"
    using every_request_answered[of "sample_connection [?f]" "[(request_header Op_Ping 3 [], [])]" 5 "\<lambda>_. sample_call_env" 7] r ok
    by (auto simp: request_header_def[of Op_Ping])
  obtain reply where "replies = [reply]" using e(3) by (cases replies) auto
  then show ?thesis using e by (intro exI[of _ reply]) simp
qed

end
