(* ===== verification/Pfctl.thy ===== *)
theory Pfctl
  imports Calls Rendering
begin

text \<open>
  \<^verbatim>\<open>tools/pfctl.cpp\<close>: the operator's command line over a state directory. An invocation is a process:
  it parses its arguments, opens the runtime, takes authority as its own publisher, runs one
  command and ends. The model returns the directory, the runtime it ended with and what it printed
  with its exit code. The absolute form of the state path, which the boot id is derived from, is an
  argument. The properties are about consecutive invocations on one directory.
\<close>

section \<open>Options\<close>

record pfctl_options =
  po_positional :: "string list"
  po_classes :: "string list"
  po_parents :: "string list"
  po_state :: string
  po_id :: string
  po_parent :: string
  po_scope :: string
  po_cls :: string
  po_subject :: string
  po_kind :: string
  po_conflict :: string
  po_unknown_default :: string
  po_description :: string
  po_note :: string
  po_reason :: string
  po_policy :: string
  po_displaces :: string
  po_publisher :: string
  po_boot :: string
  po_precedence :: string
  po_limit :: string
  po_as_of_epoch :: string
  po_steps :: string
  po_inherits :: "string list"
  po_privileged :: bool
  po_no_override :: bool
  po_allow_unattributed :: bool
  po_json :: bool
  po_strict :: bool
  po_shared :: bool

definition pfctl_defaults :: pfctl_options where
  "pfctl_defaults = \<lparr>po_positional = [], po_classes = [],
     po_parents = [], po_state = ''pf-state'', po_id = [], po_parent = [], po_scope = [], po_cls = [], po_subject = [],
     po_kind = [], po_conflict = [], po_unknown_default = [], po_description = [], po_note = [], po_reason = [],
     po_policy = [], po_displaces = [], po_publisher = [], po_boot = [], po_precedence = [], po_limit = [],
     po_as_of_epoch = [], po_steps = [], po_inherits = [], po_privileged = False, po_no_override = False,
     po_allow_unattributed = False, po_json = False, po_strict = False, po_shared = False\<rparr>"

definition pfctl_usage :: string where
  "pfctl_usage = cat [
     ''usage: pfctl [--state DIR] [--shared] COMMAND [options]'', newline,
     newline,
     ''  --state DIR              state directory (default: ./pf-state)'', newline,
     ''  --shared                 do not take the exclusive state directory lock; only use'', newline,
     ''                           this for read-only commands against a live node'', newline,
     newline,
     ''commands:'', newline,
     ''  init'', newline,
     ''  class define --id ID --precedence N [--kind standard|tenant|system|emergency]'', newline,
     ''               [--inherits A,B] [--description TEXT] [--privileged]'', newline,
     ''  class list'', newline,
     ''  scope define --id ID [--parent P] [--conflict deny|higher-precedence|assignment-id-order]'', newline,
     ''               [--unknown-default CLASS] [--no-override] [--description TEXT]'', newline,
     ''  scope list'', newline,
     ''  policy define --id ID --scope S [--class C]... [--conflict MODE]'', newline,
     ''                [--unknown-default CLASS] [--allow-unattributed] [--description TEXT]'', newline,
     ''  policy list'', newline,
     ''  subject define --id ID [--parent P]... [--description TEXT]'', newline,
     ''  subject list'', newline,
     ''  assign --id A --subject U --scope S --class C [--kind K] [--displaces CLASS]'', newline,
     ''         [--policy P] [--note TEXT]'', newline,
     ''  retire --id A [--reason TEXT]'', newline,
     ''  query --subject U --scope S [--json] [--strict] [--as-of-epoch N] [--steps N]'', newline,
     ''  verify'', newline,
     ''  checkpoint'', newline,
     ''  audit [--limit N]'', newline,
     ''  stats'', newline,
     ''  fence --publisher P --boot HEX [--reason TEXT]'', newline,
     ''  advance-epoch [--reason TEXT]'', newline,
     ''  version'', newline]"

definition pfctl_switch :: "string \<Rightarrow> (pfctl_options \<Rightarrow> pfctl_options) option" where
  "pfctl_switch flag =
     (if flag = ''--shared'' then Some (\<lambda>options. options\<lparr>po_shared := True\<rparr>)
      else if flag = ''--json'' then Some (\<lambda>options. options\<lparr>po_json := True\<rparr>)
      else if flag = ''--strict'' then Some (\<lambda>options. options\<lparr>po_strict := True\<rparr>)
      else if flag = ''--privileged'' then Some (\<lambda>options. options\<lparr>po_privileged := True\<rparr>)
      else if flag = ''--no-override'' then Some (\<lambda>options. options\<lparr>po_no_override := True\<rparr>)
      else if flag = ''--allow-unattributed'' then Some (\<lambda>options. options\<lparr>po_allow_unattributed := True\<rparr>)
      else None)"

definition pfctl_value :: "string \<Rightarrow> (string \<Rightarrow> pfctl_options \<Rightarrow> pfctl_options) option" where
  "pfctl_value flag =
     (if flag = ''--state'' then Some (\<lambda>v options. options\<lparr>po_state := v\<rparr>)
      else if flag = ''--id'' then Some (\<lambda>v options. options\<lparr>po_id := v\<rparr>)
      else if flag = ''--parent'' then Some (\<lambda>v options. options\<lparr>po_parent := v\<rparr>)
      else if flag = ''--inherits'' then Some (\<lambda>v options. options\<lparr>po_inherits := po_inherits options @ filter (\<lambda>part. part \<noteq> []) (split_text v CHR '','')\<rparr>)
      else if flag = ''--scope'' then Some (\<lambda>v options. options\<lparr>po_scope := v\<rparr>)
      else if flag = ''--class'' then Some (\<lambda>v options. options\<lparr>po_cls := v, po_classes := po_classes options @ [v]\<rparr>)
      else if flag = ''--subject'' then Some (\<lambda>v options. options\<lparr>po_subject := v\<rparr>)
      else if flag = ''--kind'' then Some (\<lambda>v options. options\<lparr>po_kind := v\<rparr>)
      else if flag = ''--conflict'' then Some (\<lambda>v options. options\<lparr>po_conflict := v\<rparr>)
      else if flag = ''--unknown-default'' then Some (\<lambda>v options. options\<lparr>po_unknown_default := v\<rparr>)
      else if flag = ''--description'' then Some (\<lambda>v options. options\<lparr>po_description := v\<rparr>)
      else if flag = ''--note'' then Some (\<lambda>v options. options\<lparr>po_note := v\<rparr>)
      else if flag = ''--reason'' then Some (\<lambda>v options. options\<lparr>po_reason := v\<rparr>)
      else if flag = ''--policy'' then Some (\<lambda>v options. options\<lparr>po_policy := v\<rparr>)
      else if flag = ''--displaces'' then Some (\<lambda>v options. options\<lparr>po_displaces := v\<rparr>)
      else if flag = ''--publisher'' then Some (\<lambda>v options. options\<lparr>po_publisher := v\<rparr>)
      else if flag = ''--boot'' then Some (\<lambda>v options. options\<lparr>po_boot := v\<rparr>)
      else if flag = ''--precedence'' then Some (\<lambda>v options. options\<lparr>po_precedence := v\<rparr>)
      else if flag = ''--limit'' then Some (\<lambda>v options. options\<lparr>po_limit := v\<rparr>)
      else if flag = ''--as-of-epoch'' then Some (\<lambda>v options. options\<lparr>po_as_of_epoch := v\<rparr>)
      else if flag = ''--steps'' then Some (\<lambda>v options. options\<lparr>po_steps := v\<rparr>)
      else None)"

datatype pfctl_parse_result = Parsed pfctl_options | Help_asked | Bad_usage string

fun pfctl_parse :: "string list \<Rightarrow> pfctl_options \<Rightarrow> pfctl_parse_result" where
  "pfctl_parse [] options = Parsed options"
| "pfctl_parse (flag # args) options =
     (if flag = ''--help'' \<or> flag = ''-h'' then Help_asked
      else case pfctl_switch flag of
        Some update \<Rightarrow> pfctl_parse args (update options)
      | None \<Rightarrow>
          (case pfctl_value flag of
             Some update \<Rightarrow>
               (case args of
                  [] \<Rightarrow> Bad_usage (cat [''pfctl: '', flag, '' needs a value'', newline])
                | v # args' \<Rightarrow> pfctl_parse args' (update v options))
           | None \<Rightarrow>
               if flag \<noteq> [] \<and> hd flag = CHR ''-'' then Bad_usage (cat [''pfctl: unknown option '', flag, newline])
               else pfctl_parse args (options\<lparr>po_positional := po_positional options @ [flag]\<rparr>)))"

text \<open>\<^verbatim>\<open>strtoull\<close> and, with an \<^verbatim>\<open>unsigned long\<close> of 64 bits, \<^verbatim>\<open>strtoul\<close> in base ten: white space, a sign
  and the digits that follow; the largest value when it does not fit, and the negated one after a
  minus sign.\<close>

definition is_space_char :: "char \<Rightarrow> bool" where
  "is_space_char c \<longleftrightarrow> c = CHR '' '' \<or> CHR 0x09 \<le> c \<and> c \<le> CHR 0x0D"

definition is_digit_char :: "char \<Rightarrow> bool" where
  "is_digit_char c \<longleftrightarrow> CHR ''0'' \<le> c \<and> c \<le> CHR ''9''"

definition decimal_value :: "string \<Rightarrow> nat" where
  "decimal_value = foldl (\<lambda>n c. 10 * n + (of_char c - 48)) 0"

definition strtoull :: "string \<Rightarrow> u64" where
  "strtoull tx =
     (let t = dropWhile is_space_char tx;
          negative = (t \<noteq> [] \<and> hd t = CHR ''-'');
          digits = takeWhile is_digit_char (if t \<noteq> [] \<and> (hd t = CHR ''-'' \<or> hd t = CHR ''+'') then tl t else t);
          n = decimal_value digits in
      if 2 ^ 64 \<le> n then - 1 else if negative then - of_nat n else of_nat n)"

definition to_number :: "string \<Rightarrow> u64 option" where
  "to_number tx = (if tx = [] \<or> \<not> list_all is_digit_char tx then None else Some (strtoull tx))"

section \<open>Output\<close>

record tool_result =
  tl_code :: nat
  tl_out :: string
  tl_err :: string

definition tool_ok :: "string \<Rightarrow> tool_result" where
  "tool_ok out = \<lparr>tl_code = 0, tl_out = out, tl_err = []\<rparr>"

definition fail :: "string \<Rightarrow> tool_result" where
  "fail what = \<lparr>tl_code = 1, tl_out = [], tl_err = cat [''pfctl: '', what, newline]\<rparr>"

definition comma_ids :: "'tag basic_id list \<Rightarrow> string" where
  "comma_ids ids = join_text (map id_str ids) '',''"

definition or_dash :: "'tag basic_id option \<Rightarrow> string" where
  "or_dash i = (case i of Some x \<Rightarrow> id_str x | None \<Rightarrow> ''-'')"

definition yes_no :: "bool \<Rightarrow> string" where
  "yes_no b = (if b then ''yes'' else ''no'')"

definition print_class :: "priority_class_def \<Rightarrow> string" where
  "print_class c =
     cat [id_str (cd_id c), '' precedence='', u_dec (rank_value (cd_precedence c)), '' kind='', class_kind_to_string (cd_kind c),
          '' generation='', u_dec (cd_generation c), (if cd_privileged c then '' privileged'' else []),
          (if cd_inherits_from c \<noteq> [] then '' inherits='' @ comma_ids (cd_inherits_from c) else []),
          (if cd_description c \<noteq> [] then cat ['' description='', [CHR 0x22], cd_description c, [CHR 0x22]] else []), newline]"

definition print_scope :: "policy_scope_def \<Rightarrow> string" where
  "print_scope s =
     cat [id_str (sd_id s), '' generation='', u_dec (sd_generation s), '' parent='', or_dash (sd_parent s),
          '' conflict='', conflict_resolution_to_string (sd_conflict_resolution s), '' unknown-default='', or_dash (sd_unknown_default s),
          '' allow-override='', yes_no (sd_allow_override s), newline]"

definition print_policy :: "policy_def \<Rightarrow> string" where
  "print_policy p =
     cat [id_str (pd_id p), '' generation='', u_dec (pd_generation p), '' scope='', id_str (pd_scope p),
          '' scope-generation='', u_dec (pd_scope_generation p), '' require-policy='', yes_no (pd_require_policy_for_assignment p),
          '' classes='', comma_ids (pd_visible_classes p), (if pd_visible_classes p = [] then ''-'' else []), newline]"

definition print_subject :: "subject_def \<Rightarrow> string" where
  "print_subject s =
     cat [id_str (ud_id s), '' generation='', u_dec (ud_generation s), '' inherits='',
          (if ud_inherits_from s = [] then ''-'' else []), comma_ids (ud_inherits_from s), newline]"

definition print_audit :: "audit_entry \<Rightarrow> string" where
  "print_audit e =
     cat [u_dec (au_sequence e), '' '', au_op e, '' '', status_code_to_string (au_result e),
          '' publisher='', id_str (pv_publisher (au_provenance e)), '' boot='', boot_hex (pv_boot (au_provenance e)),
          '' epoch='', u_dec (pv_epoch (au_provenance e)), '' generation='', u_dec (au_state_generation e),
          (if au_detail e \<noteq> [] then cat ['' detail='', [CHR 0x22], au_detail e, [CHR 0x22]] else []), newline]"

definition print_report :: "integrity_report \<Rightarrow> string" where
  "print_report r =
     cat [''ok='', (if ir_ok r then ''true'' else ''false''), '' health='', health_to_string (ir_health r),
          '' records_scanned='', to_dec (ir_records_scanned r), '' records_applied='', to_dec (ir_records_applied r),
          '' records_rejected='', to_dec (ir_records_rejected r), '' unfinished_attempts='', to_dec (ir_unfinished_attempts r),
          '' trailing_bytes_discarded='', to_dec (ir_trailing_bytes_discarded r),
          '' state-generation='', u_dec (ir_state_generation r), '' epoch='', u_dec (ir_epoch r),
          '' digest='', digest_hex (ir_state_digest r), newline,
          (if ir_detail r \<noteq> [] then cat [''detail='', ir_detail r, newline] else [])]"

definition print_stats :: "state_stats \<Rightarrow> fabric_stats \<Rightarrow> string" where
  "print_stats s t =
     cat [''classes='', u_dec (ss_classes s), '' scopes='', u_dec (ss_scopes s), '' policies='', u_dec (ss_policies s),
          '' subjects='', u_dec (ss_subjects s), '' assignments='', u_dec (ss_assignments s),
          '' retired='', u_dec (ss_retired_assignments s), '' publishers='', u_dec (ss_publishers s),
          '' fenced-boots='', u_dec (ss_fenced_boots s), '' audit-entries='', u_dec (ss_audit_entries s),
          '' durable-bytes='', u_dec (ss_durable_bytes s), '' journal-records='', u_dec (ss_journal_records s),
          '' epoch='', u_dec (ss_epoch s), '' generation='', u_dec (ss_state_generation s), newline,
          ''process.evaluations='', u_dec (st_evaluations t), '' assigned='', u_dec (st_evaluations_assigned t),
          '' inherited='', u_dec (st_evaluations_inherited t), '' overridden='', u_dec (st_evaluations_overridden t),
          '' conflict='', u_dec (st_evaluations_conflict t), '' unknown='', u_dec (st_evaluations_unknown t),
          '' stale='', u_dec (st_evaluations_stale t), '' fenced='', u_dec (st_evaluations_fenced t),
          '' rejected='', u_dec (st_evaluations_rejected t), '' mutations-accepted='', u_dec (st_mutations_accepted t),
          '' mutations-rejected='', u_dec (st_mutations_rejected t), '' noops='', u_dec (st_idempotent_noops t),
          '' durable-commits='', u_dec (st_durable_commits t), '' recoveries='', u_dec (st_recoveries t),
          '' epoch-advances='', u_dec (st_epoch_advances t), '' fences='', u_dec (st_fences_issued t),
          '' grants='', u_dec (st_authorities_granted t), newline]"

section \<open>Opening\<close>

definition pfctl_publisher :: publisher_id where
  "pfctl_publisher = BasicId ''pfctl.publisher''"

definition cli_boot :: "string option \<Rightarrow> string \<Rightarrow> boot_id" where
  "cli_boot absolute state = boot_from_seed (''pfctl/'' @ (case absolute of Some a \<Rightarrow> a | None \<Rightarrow> state))"

definition pfctl_runtime_options :: "bool \<Rightarrow> runtime_options" where
  "pfctl_runtime_options shared =
     \<lparr>ro_limits = compiled_limits_ceiling, ro_create_if_missing = True, ro_fsync_records = True, ro_fail_on_degraded = False,
      ro_instance_boot_id = None, ro_allow_new_publishers = True, ro_advance_epoch_on_open = False, ro_exclusive_lock = \<not> shared\<rparr>"

definition at_directory :: "string \<Rightarrow> call_env \<Rightarrow> call_env" where
  "at_directory dir env = env\<lparr>ce_io := (ce_io env)\<lparr>ev_directory := dir\<rparr>\<rparr>"

text \<open>The runtime and the session of an invocation; nothing when the directory cannot be opened or
  authority is not granted. \<open>envs\<close> are the system environments of the successive calls.\<close>

definition pfctl_start :: "(nat \<Rightarrow> call_env) \<Rightarrow> boot_id \<Rightarrow> pfctl_options \<Rightarrow> place \<Rightarrow>
    place \<times> (fabric_runtime \<times> fabric_session) option" where
  "pfctl_start envs boot options p =
     (case open_runtime (at_directory (po_state options) (envs 0)) (pfctl_runtime_options (po_shared options)) p of
        (p1, Inl _) \<Rightarrow> (p1, None)
      | (p1, Inr rt) \<Rightarrow>
          (case p1 of
             Directory d \<Rightarrow>
               (case grant_authority (at_directory (po_state options) (envs 1)) pfctl_publisher boot (Some rt) d of
                  (d', Some rt', Inr actor) \<Rightarrow> (Directory d', Some (rt', actor))
                | (d', _, _) \<Rightarrow> (Directory d', None))
           | _ \<Rightarrow> (p1, None)))"

section \<open>Arguments of the calls\<close>

definition parsed_id :: "string \<Rightarrow> limits \<Rightarrow> string + 'tag basic_id" where
  "parsed_id tx limits = map_sum status_to_string id (id_parse tx limits)"

definition optional_id :: "string \<Rightarrow> limits \<Rightarrow> string + 'tag basic_id option" where
  "optional_id tx limits = (if tx = [] then Inr None else map_sum id Some (parsed_id tx limits))"

fun parsed_ids :: "string list \<Rightarrow> limits \<Rightarrow> string + 'tag basic_id list" where
  "parsed_ids [] limits = Inr []"
| "parsed_ids (t # ts) limits = rbind (parsed_id t limits) (\<lambda>i. rbind (parsed_ids ts limits) (\<lambda>is. Inr (i # is)))"

definition class_from :: "pfctl_options \<Rightarrow> limits \<Rightarrow> string + priority_class_def" where
  "class_from options limits =
     (case to_number (po_precedence options) of
        None \<Rightarrow> Inl (cat [''--precedence must be a number in [0, '', u_dec kMaxRank, '']''])
      | Some precedence \<Rightarrow>
          rbind (parsed_id (po_id options) limits) (\<lambda>i.
          rbind (if po_kind options = [] then Inr Standard
                 else case parse_class_kind (po_kind options) of
                   None \<Rightarrow> Inl (cat [''unknown class kind '', quoted (po_kind options)]) | Some k \<Rightarrow> Inr k) (\<lambda>kind.
          rbind (parsed_ids (po_inherits options) limits) (\<lambda>parents.
            Inr (class_default\<lparr>cd_id := i, cd_precedence := rank_make (ucast precedence), cd_kind := kind,
              cd_inherits_from := parents, cd_description := po_description options, cd_privileged := po_privileged options\<rparr>)))))"

definition conflict_from :: "pfctl_options \<Rightarrow> string + conflict_resolution option" where
  "conflict_from options =
     (if po_conflict options = [] then Inr None
      else case parse_conflict_resolution (po_conflict options) of
        None \<Rightarrow> Inl (cat [''unknown conflict mode '', quoted (po_conflict options)]) | Some mode \<Rightarrow> Inr (Some mode))"

definition scope_from :: "pfctl_options \<Rightarrow> limits \<Rightarrow> string + policy_scope_def" where
  "scope_from options limits =
     rbind (parsed_id (po_id options) limits) (\<lambda>i.
     rbind (optional_id (po_parent options) limits) (\<lambda>parent.
     rbind (conflict_from options) (\<lambda>conflict.
     rbind (optional_id (po_unknown_default options) limits) (\<lambda>unknown.
       Inr (scope_default\<lparr>sd_id := i, sd_parent := parent,
         sd_conflict_resolution := (case conflict of Some mode \<Rightarrow> mode | None \<Rightarrow> sd_conflict_resolution scope_default),
         sd_unknown_default := unknown, sd_allow_override := \<not> po_no_override options,
         sd_description := po_description options\<rparr>)))))"

definition policy_from :: "pfctl_options \<Rightarrow> limits \<Rightarrow> string + policy_def" where
  "policy_from options limits =
     rbind (parsed_id (po_id options) limits) (\<lambda>i.
     rbind (parsed_id (po_scope options) limits) (\<lambda>scope.
     rbind (parsed_ids (po_classes options) limits) (\<lambda>classes.
     rbind (conflict_from options) (\<lambda>conflict.
     rbind (optional_id (po_unknown_default options) limits) (\<lambda>unknown.
       Inr (policy_default\<lparr>pd_id := i, pd_scope := scope, pd_visible_classes := classes, pd_conflict_resolution := conflict,
         pd_unknown_default := unknown, pd_require_policy_for_assignment := \<not> po_allow_unattributed options,
         pd_description := po_description options\<rparr>))))))"

definition subject_from :: "pfctl_options \<Rightarrow> limits \<Rightarrow> string + subject_def" where
  "subject_from options limits =
     rbind (parsed_id (po_id options) limits) (\<lambda>i.
     rbind (optional_id (po_parent options) limits) (\<lambda>parent.
     rbind (parsed_ids (po_inherits options) limits) (\<lambda>parents.
       Inr (subject_default\<lparr>ud_id := i, ud_inherits_from := (case parent of Some p \<Rightarrow> [p] | None \<Rightarrow> []) @ parents,
         ud_description := po_description options\<rparr>))))"

definition assignment_from :: "pfctl_options \<Rightarrow> limits \<Rightarrow> string + priority_assignment" where
  "assignment_from options limits =
     rbind (parsed_id (po_id options) limits) (\<lambda>i.
     rbind (parsed_id (po_subject options) limits) (\<lambda>subject.
     rbind (parsed_id (po_scope options) limits) (\<lambda>scope.
     rbind (parsed_id (po_cls options) limits) (\<lambda>cls.
     rbind (if po_kind options = [] then Inr Explicit
            else case parse_assignment_kind (po_kind options) of
              None \<Rightarrow> Inl (cat [''unknown assignment kind '', quoted (po_kind options)]) | Some k \<Rightarrow> Inr k) (\<lambda>kind.
     rbind (optional_id (po_displaces options) limits) (\<lambda>displaces.
     rbind (optional_id (po_policy options) limits) (\<lambda>policy.
       Inr (assignment_default\<lparr>as_id := i, as_subject := subject, as_scope := scope, as_cls := cls, as_kind := kind,
         as_displaces := displaces, as_policy := policy, as_note := po_note options\<rparr>))))))))"

definition query_default :: priority_query where
  "query_default = \<lparr>qu_subject = id_none, qu_subject_generation = gen_unset, qu_scope = id_none, qu_as_of_epoch = None,
     qu_require_policy_generation = gen_unset, qu_require_scope_generation = gen_unset, qu_strict_conflicts = False,
     qu_max_explanation_steps = 32, qu_correlation = 0\<rparr>"

definition query_from :: "pfctl_options \<Rightarrow> limits \<Rightarrow> string + priority_query" where
  "query_from options limits =
     rbind (parsed_id (po_subject options) limits) (\<lambda>subject.
     rbind (parsed_id (po_scope options) limits) (\<lambda>scope.
       Inr (query_default\<lparr>qu_subject := subject, qu_scope := scope, qu_strict_conflicts := po_strict options,
         qu_as_of_epoch := to_number (po_as_of_epoch options),
         qu_max_explanation_steps := (case to_number (po_steps options) of Some n \<Rightarrow> ucast n | None \<Rightarrow> 32)\<rparr>)))"

section \<open>Commands\<close>

type_synonym tool_step = "disk \<times> handle \<times> tool_result"

definition current_generation :: "handle \<Rightarrow> generation" where
  "current_generation h = (case h of Some rt \<Rightarrow> im_generation (rt_image rt) | None \<Rightarrow> gen_unset)"

text \<open>A call with arguments read from the options: nothing happens when they do not parse, a refusal
  of the call is reported, and otherwise its answer.\<close>

definition calling :: "(string + 'a) \<Rightarrow> ('a \<Rightarrow> handle \<Rightarrow> disk \<Rightarrow> disk \<times> handle \<times> 'b result) \<Rightarrow>
    ('a \<Rightarrow> 'b \<Rightarrow> generation \<Rightarrow> string) \<Rightarrow> handle \<Rightarrow> disk \<Rightarrow> tool_step" where
  "calling argument call answer h d =
     (case argument of
        Inl e \<Rightarrow> (d, h, fail e)
      | Inr x \<Rightarrow>
          (case call x h d of
             (d', h', Inl e) \<Rightarrow> (d', h', fail (status_to_string e))
           | (d', h', Inr v) \<Rightarrow> (d', h', tool_ok (answer x v (current_generation h')))))"

definition published :: "string \<Rightarrow> 'tag basic_id \<Rightarrow> generation \<Rightarrow> generation \<Rightarrow> string" where
  "published what i g state =
     cat [what, ''='', id_str i, '' generation='', u_dec g, '' state-generation='', u_dec state, newline]"

definition listing_or_defining :: "string \<Rightarrow> string \<Rightarrow> string \<Rightarrow> tool_step \<Rightarrow> handle \<Rightarrow> disk \<Rightarrow> tool_step" where
  "listing_or_defining noun action listing defining h d =
     (if action = ''list'' then (d, h, tool_ok listing)
      else if action \<noteq> ''define'' then (d, h, fail (cat [''unknown '', noun, '' subcommand '', quoted action]))
      else defining)"

definition pfctl_query :: "pfctl_options \<Rightarrow> fabric_runtime \<Rightarrow> disk \<Rightarrow> tool_step" where
  "pfctl_query options rt d =
     (case query_from options (rt_limits rt) of
        Inl e \<Rightarrow> (d, Some rt, fail e)
      | Inr query \<Rightarrow>
          (case runtime_evaluate query (Some rt) of (h', decision) \<Rightarrow>
             (d, h', \<lparr>tl_code = (if de_outcome decision = Out_Rejected then 3 else 0),
                tl_out = (if po_json options then to_json decision @ newline else to_text decision), tl_err = []\<rparr>)))"

definition pfctl_verify :: "call_env \<Rightarrow> fabric_runtime \<Rightarrow> disk \<Rightarrow> tool_step" where
  "pfctl_verify env rt d =
     (case runtime_integrity env rt d of (d', report) \<Rightarrow>
        (d', Some rt, \<lparr>tl_code = (if ir_ok report then 0 else 4), tl_out = print_report report, tl_err = []\<rparr>))"

definition pfctl_checkpoint :: "call_env \<Rightarrow> fabric_runtime \<Rightarrow> disk \<Rightarrow> tool_step" where
  "pfctl_checkpoint env rt d =
     (case runtime_checkpoint env (Some rt) d of
        (d', h', Inl e) \<Rightarrow> (d', h', fail (status_to_string e))
      | (d', h', Inr g) \<Rightarrow>
          (d', h', tool_ok (cat [''checkpoint generation='', u_dec g, '' durable-bytes='',
             (case h' of Some rt' \<Rightarrow> u_dec (ss_durable_bytes (state_stats_of rt')) | None \<Rightarrow> ''0''), newline])))"

definition pfctl_audit :: "pfctl_options \<Rightarrow> fabric_runtime \<Rightarrow> string" where
  "pfctl_audit options rt =
     concat (map print_audit (audit_window (case to_number (po_limit options) of Some n \<Rightarrow> unat (ucast n :: u32) | None \<Rightarrow> 50) rt))"

definition fence_target :: "pfctl_options \<Rightarrow> limits \<Rightarrow> string + publisher_id \<times> boot_id" where
  "fence_target options limits =
     rbind (parsed_id (po_publisher options) limits) (\<lambda>publisher.
     rbind (map_sum status_to_string id (boot_parse_hex (po_boot options))) (\<lambda>boot. Inr (publisher, boot)))"

definition pfctl_command :: "call_env \<Rightarrow> pfctl_options \<Rightarrow> string \<Rightarrow> string \<Rightarrow> fabric_session \<Rightarrow> fabric_runtime \<Rightarrow> disk \<Rightarrow> tool_step" where
  "pfctl_command env options noun action actor rt d =
     (let limits = rt_limits rt; h = Some rt in
      if noun = ''init'' then
        (d, h, tool_ok (cat [''state='', rt_state_dir rt, '' epoch='', u_dec (im_epoch (rt_image rt)),
           '' generation='', u_dec (im_generation (rt_image rt)), '' health='', health_to_string (im_health (rt_image rt)), newline]))
      else if noun = ''class'' then
        listing_or_defining noun action (concat (map print_class (list_classes rt)))
          (calling (class_from options limits) (define_class env actor) (\<lambda>x. published noun (cd_id x)) h d) h d
      else if noun = ''scope'' then
        listing_or_defining noun action (concat (map print_scope (list_scopes rt)))
          (calling (scope_from options limits) (define_scope env actor) (\<lambda>x. published noun (sd_id x)) h d) h d
      else if noun = ''policy'' then
        listing_or_defining noun action (concat (map print_policy (list_policies rt)))
          (calling (policy_from options limits) (define_policy env actor) (\<lambda>x. published noun (pd_id x)) h d) h d
      else if noun = ''subject'' then
        listing_or_defining noun action (concat (map print_subject (list_subjects rt)))
          (calling (subject_from options limits) (define_subject env actor) (\<lambda>x. published noun (ud_id x)) h d) h d
      else if noun = ''assign'' then
        calling (assignment_from options limits) (assign env actor) (\<lambda>x. published ''assignment'' (as_id x)) h d
      else if noun = ''retire'' then
        calling (parsed_id (po_id options) limits) (\<lambda>i. retire_assignment env actor i (po_reason options))
          (\<lambda>i g _. cat [''assignment='', id_str i, '' retired generation='', u_dec g, newline]) h d
      else if noun = ''query'' then pfctl_query options rt d
      else if noun = ''verify'' then pfctl_verify env rt d
      else if noun = ''checkpoint'' then pfctl_checkpoint env rt d
      else if noun = ''audit'' then (d, h, tool_ok (pfctl_audit options rt))
      else if noun = ''stats'' then (d, h, tool_ok (print_stats (state_stats_of rt) (rt_stats rt)))
      else if noun = ''fence'' then
        calling (fence_target options limits) (\<lambda>(publisher, boot). fence env actor publisher boot (po_reason options))
          (\<lambda>(publisher, boot) _ _. cat [''fenced publisher='', id_str publisher, '' boot='', boot_hex boot, newline]) h d
      else if noun = ''advance-epoch'' then
        calling (Inr ()) (\<lambda>_. advance_epoch env actor (po_reason options)) (\<lambda>_ e _. cat [''epoch='', u_dec e, newline]) h d
      else (d, h, fail (cat [''unknown command '', quoted noun])))"

definition version_string :: string where "version_string = ''1.0.0''"

text \<open>The part of an invocation that touches the directory, for the boot id it takes authority with.\<close>

definition pfctl_work :: "(nat \<Rightarrow> call_env) \<Rightarrow> boot_id \<Rightarrow> pfctl_options \<Rightarrow> string \<Rightarrow> string \<Rightarrow> place \<Rightarrow>
    place \<times> handle \<times> tool_result" where
  "pfctl_work envs boot options noun action p =
     (case pfctl_start envs boot options p of
        (Directory d, Some (rt, actor)) \<Rightarrow>
          (case pfctl_command (at_directory (po_state options) (envs 2)) options noun action actor rt d of
             (d', h', result) \<Rightarrow> (Directory d', h', result))
      | (p', _) \<Rightarrow> (p', None, fail (cat [''cannot open the fabric state at '', quoted (po_state options)])))"

definition pfctl_run :: "(nat \<Rightarrow> call_env) \<Rightarrow> string option \<Rightarrow> pfctl_options \<Rightarrow> place \<Rightarrow> place \<times> handle \<times> tool_result" where
  "pfctl_run envs absolute options p =
     (case po_positional options of
        [] \<Rightarrow> (p, None, \<lparr>tl_code = 2, tl_out = pfctl_usage, tl_err = []\<rparr>)
      | noun # words \<Rightarrow>
          if noun = ''version'' then
            (p, None, tool_ok (cat [''pfctl '', version_string, '' (format '', u_dec kFormatVersion, '')'', newline]))
          else pfctl_work envs (cli_boot absolute (po_state options)) options noun
            (case words of action # _ \<Rightarrow> action | [] \<Rightarrow> []) p)"

definition pfctl_main :: "(nat \<Rightarrow> call_env) \<Rightarrow> string option \<Rightarrow> string list \<Rightarrow> place \<Rightarrow> place \<times> handle \<times> tool_result" where
  "pfctl_main envs absolute args p =
     (case pfctl_parse args pfctl_defaults of
        Help_asked \<Rightarrow> (p, None, tool_ok pfctl_usage)
      | Bad_usage e \<Rightarrow> (p, None, \<lparr>tl_code = 2, tl_out = pfctl_usage, tl_err = e\<rparr>)
      | Parsed options \<Rightarrow> pfctl_run envs absolute options p)"

section \<open>Numbers and lists on the command line\<close>

lemma digit_of_char: "d < 10 \<Longrightarrow> is_digit_char (digit_char d)" "d < 10 \<Longrightarrow> (of_char (digit_char d) :: nat) = 48 + d"
proof -
  assume d: "d < 10"
  show "(of_char (digit_char d) :: nat) = 48 + d" using d by (simp add: digit_char_def)
  then show "is_digit_char (digit_char d)" using d by (simp add: is_digit_char_def less_eq_char_def)
qed

lemma decimal_append: "decimal_value (xs @ [c]) = 10 * decimal_value xs + (of_char c - 48)"
  by (simp add: decimal_value_def)

lemma decimal_digits_read: "list_all is_digit_char (to_dec n)" "decimal_value (to_dec n) = n"
proof -
  show "list_all is_digit_char (to_dec n)"
    by (induction n rule: to_dec.induct) (subst to_dec.simps, simp add: digit_of_char)
  show "decimal_value (to_dec n) = n"
  proof (induction n rule: to_dec.induct)
    case (1 n)
    then show ?case using digit_of_char(2)[of n] digit_of_char(2)[of "n mod 10"]
      by (subst to_dec.simps) (auto simp: decimal_append simp: decimal_value_def)
  qed
qed

lemma digit_is_no_space: "is_digit_char c \<Longrightarrow> \<not> is_space_char c \<and> c \<noteq> CHR ''-'' \<and> c \<noteq> CHR ''+''"
  by (auto simp: is_digit_char_def is_space_char_def less_eq_char_def)

lemma strtoull_digits:
  assumes "list_all is_digit_char tx"
  shows "strtoull tx = (if 2 ^ 64 \<le> decimal_value tx then - 1 else of_nat (decimal_value tx))"
proof -
  have all: "takeWhile is_digit_char tx = tx" using assms by (simp add: takeWhile_eq_all_conv list_all_iff)
  have "is_digit_char (hd tx)" if "tx \<noteq> []" using assms that by (cases tx) simp_all
  then have t: "dropWhile is_space_char tx = tx" "tx \<noteq> [] \<Longrightarrow> hd tx \<noteq> CHR ''-'' \<and> hd tx \<noteq> CHR ''+''"
    using digit_is_no_space[of "hd tx"] by (cases tx; simp)+
  show ?thesis by (cases "tx = []") (use t in \<open>simp_all add: strtoull_def Let_def all\<close>)
qed

lemma to_number_to_dec: "to_number (to_dec n) = Some (if 2 ^ 64 \<le> n then - 1 else of_nat n)"
  using decimal_digits_read[of n] to_dec_nonempty[of n] by (simp add: to_number_def strtoull_digits)

text \<open>A precedence is only taken modulo \<open>2 ^ 32\<close>: the refusal that names the largest rank is given for
  texts that are no numbers, and a number that does not fit silently becomes another rank.\<close>

lemma precedence_wraps:
  assumes "class_from options limits = Inr c" "po_precedence options = to_dec n" "n < 2 ^ 64"
  shows "cd_precedence c = rank_make (of_nat n)"
  using assms
  by (auto simp: class_from_def to_number_to_dec rbind_def unsigned_of_nat take_bit_nat_eq_self split: sum.splits)

lemma precedence_beyond_u32:
  assumes "class_from options limits = Inr c" "po_precedence options = to_dec 4294967297"
  shows "cd_precedence c = rank_make 1"
proof -
  have "cd_precedence c = rank_make (of_nat 4294967297)" by (rule precedence_wraps[OF assms]) simp
  also have "(of_nat 4294967297 :: u32) = 1" unfolding of_nat_numeral by transfer (simp add: take_bit_eq_mod)
  finally show ?thesis .
qed

text \<open>Of several parents of a subject only the last one is kept, although the usage text repeats the
  option.\<close>

lemma last_parent_kept:
  "pfctl_parse [''subject'', ''define'', ''--id'', i, ''--parent'', a, ''--parent'', b] pfctl_defaults =
     Parsed (pfctl_defaults\<lparr>po_positional := [''subject'', ''define''], po_id := i, po_parent := b\<rparr>)"
  by (simp add: pfctl_switch_def pfctl_value_def) (simp add: pfctl_defaults_def)

end
