(* ===== verification/Losses.thy ===== *)
theory Losses
  imports Restarts
begin

text \<open>
  A defect of the store, stated as a theorem. A commit writes its pending record before the
  mutation is applied, and the authority of the actor is checked only by the application. A commit
  refused there leaves a complete pending record behind while the next sequence number stays the
  same, so the next commit writes a second pending record under that number; replay treats two
  pending records of one number as corruption and stops before the commit record. The next
  restart is degraded and the acknowledged commit is gone.
\<close>

section \<open>A refused commit\<close>

lemma refused_commit_disk:
  assumes "calm env" "ds_segment_bytes s < kSegmentRollBytes" "ds_segment_open s" "plan_commit s m img = Inr (p, payload)"
    and "apply_mutation img p False = (img', Inl e)"
  defines "bytes \<equiv> frames (ds_key s) [(Pending, ds_next_sequence s, payload)]"
  shows "commit_mutation env m s img d =
    (append_bytes (journal_segment_name (ds_segment_index s)) bytes d,
     s\<lparr>ds_segment_bytes := ds_segment_bytes s + of_nat (length bytes), ds_durable_bytes := ds_durable_bytes s + of_nat (length bytes),
       ds_journal_records := Suc (ds_journal_records s)\<rparr>, img', Inl e)"
  by (simp add: commit_mutation_def assms(2-5) roll_segment_if_needed_def append_record_calm[OF assms(1)] perform_commit_def Let_def
      frame_def bytes_def)

text \<open>An acknowledged commit without a new segment appends the two records of its planned mutation.\<close>

lemma acknowledged_commit_disk:
  assumes "calm env" "ds_segment_bytes s < kSegmentRollBytes" "ds_segment_open s"
    and "commit_mutation env m s img d = (d', s', img', Inr ())"
  defines "bytes \<equiv> frames (ds_key s) (entries (ds_next_sequence s) [planned img m])"
  shows "plan_commit s m img = Inr (planned img m, encode_mutation (planned img m))"
    and "d' = append_bytes (journal_segment_name (ds_segment_index s)) bytes d"
    and "s' = s\<lparr>ds_segment_bytes := ds_segment_bytes s + of_nat (length bytes), ds_durable_bytes := ds_durable_bytes s + of_nat (length bytes),
       ds_journal_records := Suc (Suc (ds_journal_records s)), ds_next_sequence := ds_next_sequence s + 1\<rparr>"
proof -
  obtain p b where p: "plan_commit s m img = Inr (p, b)"
    using assms(4) by (cases "plan_commit s m img") (auto simp: commit_mutation_def)
  then show plan: "plan_commit s m img = Inr (planned img m, encode_mutation (planned img m))"
    by (auto simp: plan_commit_def Let_def ok_simps planned_def)
  obtain img3 r3 where a3: "apply_mutation img (planned img m) False = (img3, r3)" by fastforce
  have "r3 = Inr ()" using assms(4) refused_commit_disk[OF assms(1-3) plan, of img3 _ d] a3 by (cases r3) auto
  then show "d' = append_bytes (journal_segment_name (ds_segment_index s)) bytes d"
    "s' = s\<lparr>ds_segment_bytes := ds_segment_bytes s + of_nat (length bytes), ds_durable_bytes := ds_durable_bytes s + of_nat (length bytes),
       ds_journal_records := Suc (Suc (ds_journal_records s)), ds_next_sequence := ds_next_sequence s + 1\<rparr>"
    using assms(4) commit_calm_disk[OF assms(1-3) plan, of img3 d] a3 by (simp_all add: bytes_def del: entries.simps frames_simps)
qed

section \<open>The replay of records it stops at\<close>

text \<open>Records that replay stops at, whatever it has applied before, when it expects the number \<open>n\<close>.\<close>

definition stops_replay :: "limits \<Rightarrow> u64 \<Rightarrow> framed list \<Rightarrow> bool" where
  "stops_replay limits n us \<longleftrightarrow>
     (\<forall>key off rs. rp_pending rs = [] \<longrightarrow> rp_expected rs = n \<longrightarrow>
        (let rs' = replay_records limits (scanned_at key off us) rs in
         rp_image rs' = rp_image rs \<and> ir_health (rp_report rs') = Degraded))"

lemma repeated_pending: "stops_replay limits n ((Pending, n, p) # (Pending, n, p') # others)"
  by (simp add: stops_replay_def replay_record_def scanned_def replay_pending_def om_has_def om_find_def reject_record_def)

lemma stale_pending: "k < n \<Longrightarrow> stops_replay limits n ((Pending, k, p) # others)"
  by (simp add: stops_replay_def replay_record_def scanned_def replay_pending_def reject_record_def)

lemma unreadable_entry:
  assumes "decode_mutation (encode_mutation m) limits = Inl e"
  shows "stops_replay limits n (entries n [m])"
  using assms by (simp add: stops_replay_def replay_record_def scanned_def replay_pending_def replay_commit_def om_has_def om_find_def
      reject_record_def)

lemma replay_spoiled_segment:
  assumes "calm env" "key \<noteq> []" "om_find d (journal_segment_name i) = Some (frames key (entries (rp_expected rs) ms @ us))"
    and "list_all (entry_ok (op_limits opts)) ms" "list_all (framed_ok (op_limits opts)) us" "2 * length ms + length us < kMaxRecordsPerSegment"
    and "length (frames key (entries (rp_expected rs) ms @ us)) \<le> max_state_bytes (op_limits opts)"
    and "rp_pending rs = []" "rp_expected rs = im_last_sequence (rp_image rs) + 1" "redo (rp_image rs) ms = Some img"
    and "stops_replay (op_limits opts) (rp_expected rs + of_nat (length ms)) us"
  shows "\<exists>rs'. replay_segments env opts key [i] d rs = (d, rs', Inr ()) \<and> rp_image rs' = img \<and> ir_health (rp_report rs') = Degraded"
proof -
  let ?res = "\<lparr>sc_records = scanned_at key 0 (entries (rp_expected rs) ms @ us), sc_trailing_bytes = 0,
      sc_integrity_failures = 0, sc_records_read = 2 * length ms + length us, sc_failure_detail = []\<rparr>"
  define R where "R = applied img (length ms) (count_scan ?res rs)"
  have R: "rp_expected R = rp_expected rs + of_nat (length ms)" "rp_pending R = []" "rp_image R = img"
    using assms(8) by (simp_all add: R_def applied_def count_scan_def Let_def)
  have scan: "scan_segment env opts key d i = Inr ?res"
    using scan_segment_calm[OF assms(1,2), of d i "entries (rp_expected rs) ms @ us" "[]" opts] assms(3-7) entries_framed_ok by simp
  have "replay_records (op_limits opts) (sc_records ?res) (count_scan ?res rs) =
      replay_records (op_limits opts) (scanned_at key (length (frames key (entries (rp_expected rs) ms))) us) R"
    using assms(4,8-10) replay_entries[of "count_scan ?res rs" "op_limits opts" ms img key 0]
    by (simp add: R_def count_scan_def Let_def scanned_at_append)
  moreover obtain rs' where "replay_records (op_limits opts) (scanned_at key (length (frames key (entries (rp_expected rs) ms))) us) R = rs'"
      "rp_image rs' = img" "ir_health (rp_report rs') = Degraded"
    using assms(11) R unfolding stops_replay_def Let_def by blast
  ultimately show ?thesis using scan by simp
qed

lemma spoiled_journal_degrades:
  assumes "journal_state s img d m base ix mss ms" "store_ready s img d" "calm env"
    and "stops_replay (op_limits (ds_options s)) (ds_next_sequence s) us"
    and "list_all (framed_ok (op_limits (ds_options s))) us" "2 * length ms + length us < kMaxRecordsPerSegment"
    and "unat (ds_segment_bytes s) + length (frames (ds_key s) us) \<le> max_state_bytes (op_limits (ds_options s))"
  defines "d' \<equiv> append_bytes (journal_segment_name (ds_segment_index s)) (frames (ds_key s) us) d"
  shows "\<exists>detail report. replay env (ds_options s) (ds_key s) d' = (d', img\<lparr>im_health := Degraded, im_health_detail := detail\<rparr>, Inr report) \<and>
    ir_health report = Degraded"
proof -
  let ?l = "op_limits (ds_options s)" and ?name = "journal_segment_name (ds_segment_index s)" and ?key = "ds_key s"
  define q where "q = mf_last_sequence m + 1 + of_nat (length (concat mss))"
  let ?content = "frames ?key (entries q ms)"
  note j = assms(1)[unfolded journal_state_def Let_def, folded q_def]
  have d': "d' = om_put ?name (frames ?key (entries q ms @ us)) d" using j by (simp add: d'_def append_bytes_def)
  have key: "?key \<noteq> []" using assms(2) by (simp add: store_ready_def)
  have next_q: "q + of_nat (length ms) = ds_next_sequence s"
    using redo_sequence[of "restore_counters m base" "concat mss @ ms" img] j assms(2) by (simp add: q_def store_ready_def ac_simps)
  have own: "own_segments (mf_first_segment m) d' = ix @ [ds_segment_index s]"
    unfolding d' using j assms(2) own_segments_put_old[of d ?name] by (auto simp: store_ready_def om_has_def)
  have hold: "segments_hold ?l ?key d' (mf_last_sequence m + 1) ix mss"
    unfolding d' using j by (subst segments_hold_cong[where d = d]) auto
  have stored: "manifest_stored ?key d' m" "base_stored (ds_options s) ?key d' m base"
    using j by (auto simp: d' manifest_stored_def base_stored_def om_find_put artifact_names)
  have len: "length (frames ?key (entries q ms @ us)) \<le> max_state_bytes ?l"
    using assms(2,7) j ceiling_sizes(1)[of ?l] by (simp add: store_ready_def segment_ok_def unat_of_nat)
  obtain n where n: "replay_base env (ds_options s) ?key m d' = Inr (base, n)" using replay_base_calm[OF assms(3) stored(2)] by blast
  let ?rs = "\<lparr>rp_image = restore_counters m base, rp_report = report_default\<lparr>ir_records_applied := n\<rparr>,
    rp_expected = mf_last_sequence m + 1, rp_pending = []\<rparr>"
  obtain img1 where r: "redo (rp_image ?rs) (concat mss) = Some img1" "redo img1 ms = Some img"
    using j by (auto simp: redo_append Option.bind_eq_Some_conv)
  obtain rs1 where rs1: "advanced img1 (length (concat mss)) ?rs rs1"
      "replay_segments env (ds_options s) ?key (ix @ [ds_segment_index s]) d' ?rs = replay_segments env (ds_options s) ?key [ds_segment_index s] d' rs1"
    using replay_closed_segments[OF assms(3) key _ _ _ _ r(1), of "ds_options s" d' ix "[ds_segment_index s]"] hold
    by (auto simp: report_default_def simp del: replay_segments.simps)
  have e: "rp_expected rs1 = q" "im_last_sequence (rp_image rs1) + 1 = q" "rp_image rs1 = img1" "rp_pending rs1 = []"
    using rs1(1) redo_sequence[OF r(1)] by (simp_all add: advanced_def q_def ac_simps)
  have found: "om_find d' ?name = Some (frames ?key (entries q ms @ us))" by (simp add: d' om_find_put)
  have redone: "redo (rp_image rs1) ms = Some img" using r(2) e(3) by simp
  obtain rs' where rs': "replay_segments env (ds_options s) ?key [ds_segment_index s] d' rs1 = (d', rs', Inr ())" "rp_image rs' = img"
      "ir_health (rp_report rs') = Degraded"
    using replay_spoiled_segment[OF assms(3) key found[folded e(1)] _ assms(5,6) len[folded e(1)] e(4) _ redone _] j e(1,2) next_q assms(4)
    by (auto simp: segment_ok_def simp del: replay_segments.simps)
  have exists: "fs_exists env d' kManifestName" using assms(3) stored(1) by (auto simp: fs_exists_def manifest_stored_def om_has_def)
  have few: "Suc (length ix) \<le> max_journal_segments ?l" using j by linarith
  obtain res report where fin: "finish_report rs' = (res, report)" by fastforce
  then have "ir_health report = Degraded" "\<exists>detail. res = img\<lparr>im_health := Degraded, im_health_detail := detail\<rparr>"
    using rs'(2,3) by (auto simp: finish_report_def Let_def)
  then show ?thesis
    using exists n read_manifest_calm[OF assms(3) stored(1)] rs1(2) rs'(1) fin few assms(3) own
    by (auto simp: replay_def replay_journal_def list_files_def own_segments_def Let_def simp del: replay_segments.simps)
qed

lemma length_pending: "length (frames key [(kind, n, payload)]) = length payload + 40"
  by (simp add: frame_def kRecordOverheadBytes_def kRecordHeaderBytes_def kRecordMacBytes_def)

lemma entries_one: "entries n [m] = [(Pending, n, encode_mutation m), (Commit, n, encode_commit_payload n (sha256_text (encode_mutation m)))]"
  by simp

lemma segment_count:
  assumes "journal_state s img d m base ix mss ms" "store_ready s img d" "ds_segment_bytes s < kSegmentRollBytes"
  shows "2 * length ms + 3 < kMaxRecordsPerSegment"
proof -
  define q where "q = mf_last_sequence m + 1 + of_nat (length (concat mss))"
  have "unat (ds_segment_bytes s) = length (frames (ds_key s) (entries q ms))"
    using assms(1,2) ceiling_sizes(1)[of "op_limits (ds_options s)"]
    by (auto simp: journal_state_def Let_def segment_ok_def q_def store_ready_def unat_of_nat)
  then show ?thesis
    using assms(3) length_frames_entries[of ms "ds_key s" q]
    by (simp add: word_less_nat_alt kSegmentRollBytes_def kMaxRecordsPerSegment_def)
qed

lemma spoiled_room:
  assumes "store_inv s img d" "plan_commit s m1 img = Inr (p1, b1)" "plan_commit s1 m2 img = Inr (p2, b2)"
    and "ds_segment_bytes s < kSegmentRollBytes" "ds_options s1 = ds_options s"
    and "ds_durable_bytes s1 = ds_durable_bytes s + of_nat (length b1 + 40)"
  shows "unat (ds_segment_bytes s) + (length b1 + 40) + (length b2 + 120) \<le> max_state_bytes (op_limits (ds_options s))"
proof -
  let ?l = "op_limits (ds_options s)"
  have ceil: "limits_within_compiled_ceiling ?l" using assms(1) by (simp add: store_inv_def store_ready_def)
  have a: "unat (ds_durable_bytes s) + (length b1 + 120) \<le> max_state_bytes ?l" "max_state_bytes ?l \<le> 268435456"
    using plan_commit_facts(6)[OF assms(2) ceil] ceiling_sizes(1)[OF ceil] by simp_all
  have b: "unat (ds_durable_bytes s1) + (length b2 + 120) \<le> max_state_bytes ?l"
    using plan_commit_facts(6)[OF assms(3)] ceil assms(5) by simp
  have c: "unat (ds_segment_bytes s) \<le> unat (ds_durable_bytes s)"
    using commit_room(1) assms(1,4) unfolding store_inv_def by blast
  have n: "unat (of_nat (length b1 + 40) :: u64) = length b1 + 40" using a by (subst unat_of_nat) (simp add: take_bit_nat_eq_self)
  have "unat (ds_durable_bytes s1) = unat (ds_durable_bytes s) + (length b1 + 40)"
    unfolding assms(6) using a n by (subst unat_add_lem[THEN iffD1]) simp_all
  then show ?thesis using b c by simp
qed

section \<open>A second writer\<close>

text \<open>Two stores were opened on one directory and the other one, \<open>s1\<close>, has committed since: the next
  commit of the first carries a number the journal has already confirmed.\<close>

lemma stale_writer_degrades:
  assumes "store_inv s1 img1 d1" "calm env" "ds_segment_bytes s1 < kSegmentRollBytes"
    and "ds_key s = ds_key s1" "ds_segment_index s = ds_segment_index s1" "op_limits (ds_options s) = op_limits (ds_options s1)"
    and "ds_segment_open s" "ds_segment_bytes s < kSegmentRollBytes" "ds_next_sequence s < ds_next_sequence s1"
    and "commit_mutation env m s img d1 = (d2, s2, img2, Inr ())"
    and "unat (ds_segment_bytes s1) + length (encode_mutation (planned img m)) + 120 \<le> max_state_bytes (op_limits (ds_options s1))"
  shows "\<exists>detail report. replay env (ds_options s1) (ds_key s1) d2 =
    (d2, img1\<lparr>im_health := Degraded, im_health_detail := detail\<rparr>, Inr report) \<and> ir_health report = Degraded"
proof -
  let ?name = "journal_segment_name (ds_segment_index s1)" and ?l = "op_limits (ds_options s1)" and ?n = "ds_next_sequence s"
  obtain mf base ix mss ms where j: "journal_state s1 img1 d1 mf base ix mss ms" and ready: "store_ready s1 img1 d1"
    using assms(1) by (auto simp: store_inv_def)
  have ceil: "limits_within_compiled_ceiling ?l" using ready by (simp add: store_ready_def)
  let ?p = "planned img m"
  note wrote = acknowledged_commit_disk[OF assms(2,8,7,10)]
  have d2: "d2 = append_bytes ?name (frames (ds_key s1) (entries ?n [?p])) d1" using wrote(2) assms(4,5) by (simp del: entries.simps frames_simps)
  have payloads: "payload_ok ?l (encode_mutation ?p)" "40 \<le> max_record_payload ?l"
    using plan_commit_facts[OF wrote(1)] ceil assms(6) by simp_all
  have room: "unat (ds_segment_bytes s1) + length (frames (ds_key s1) (entries ?n [?p])) \<le> max_state_bytes ?l"
    using assms(11) by (simp add: frame_def kRecordOverheadBytes_def kRecordHeaderBytes_def kRecordMacBytes_def)
  have ok: "list_all (framed_ok ?l) (entries ?n [?p])" using payloads by (simp add: framed_ok_def payload_ok_def)
  have late: "stops_replay ?l (ds_next_sequence s1) (entries ?n [?p])" using stale_pending[OF assms(9)] by simp
  have few: "2 * length ms + length (entries ?n [?p]) < kMaxRecordsPerSegment" using segment_count[OF j ready assms(3)] by simp
  show ?thesis
    using spoiled_journal_degrades[OF j ready assms(2) late ok few room] unfolding d2 .
qed

section \<open>An unreadable record\<close>

text \<open>A commit whose pending record does not decode is acknowledged, and replay stops before it.\<close>

lemma unreadable_commit_degrades:
  assumes "store_inv s img d" "calm env" "calm env2" "ds_segment_bytes s < kSegmentRollBytes"
    and "commit_mutation env m s img2 d = (d', s', img3, Inr ())"
    and "decode_mutation (encode_mutation (planned img2 m)) (op_limits (ds_options s)) = Inl e"
  shows "\<exists>detail report. replay env2 (ds_options s) (ds_key s) d' =
    (d', img\<lparr>im_health := Degraded, im_health_detail := detail\<rparr>, Inr report) \<and> ir_health report = Degraded"
proof -
  let ?l = "op_limits (ds_options s)" and ?us = "entries (ds_next_sequence s) [planned img2 m]"
  obtain mf base ix mss ms where j: "journal_state s img d mf base ix mss ms" and ready: "store_ready s img d"
    using assms(1) by (auto simp: store_inv_def)
  have st: "limits_within_compiled_ceiling ?l" "ds_segment_open s" using ready by (simp_all add: store_ready_def)
  note wrote = acknowledged_commit_disk[OF assms(2,4) st(2) assms(5)]
  note facts = plan_commit_facts[OF wrote(1) st(1)]
  have ok: "list_all (framed_ok ?l) ?us" using facts(4,5) by (simp add: framed_ok_def payload_ok_def)
  have few: "2 * length ms + length ?us < kMaxRecordsPerSegment" using segment_count[OF j ready assms(4)] by simp
  have room: "unat (ds_segment_bytes s) + length (frames (ds_key s) ?us) \<le> max_state_bytes ?l"
    using facts(6) commit_room(1)[OF j ready assms(4)] by (simp add: frame_def kRecordOverheadBytes_def kRecordHeaderBytes_def kRecordMacBytes_def)
  show ?thesis
    using spoiled_journal_degrades[OF j ready assms(3) unreadable_entry[OF assms(6)] ok few room] unfolding wrote(2) .
qed

section \<open>Property\<close>

text \<open>C15: A refused commit makes the next acknowledged one unrecoverable. On a store in good order,
  when a planned mutation is refused by the application, as one without authority is, and the next
  commit to the same segment is acknowledged, then replaying the directory on a system without
  faults reports it degraded, and the image it yields is the one from before both commits.\<close>

theorem refused_commit_loses_the_next:
  assumes "store_inv s img d" "calm env" "ds_segment_bytes s < kSegmentRollBytes" "ds_segment_bytes s1 < kSegmentRollBytes"
    and "plan_commit s m1 img = Inr (p1, b1)" "apply_mutation img p1 False = (img, Inl e)"
    and "commit_mutation env m1 s img d = (d1, s1, img1, r1)" "commit_mutation env m2 s1 img1 d1 = (d2, s2, img2, Inr ())"
  shows "r1 = Inl e \<and> (\<exists>detail report. replay env (ds_options s) (ds_key s) d2 =
      (d2, img\<lparr>im_health := Degraded, im_health_detail := detail\<rparr>, Inr report) \<and> ir_health report = Degraded)"
proof -
  let ?name = "journal_segment_name (ds_segment_index s)" and ?key = "ds_key s" and ?n = "ds_next_sequence s"
  obtain m base ix mss ms where j: "journal_state s img d m base ix mss ms" and ready: "store_ready s img d"
    using assms(1) by (auto simp: store_inv_def)
  have ceil: "limits_within_compiled_ceiling (op_limits (ds_options s))" using ready by (simp add: store_ready_def)
  let ?b1 = "frames ?key [(Pending, ?n, b1)]"
  have c1: "d1 = append_bytes ?name ?b1 d" "img1 = img" "r1 = Inl e" "ds_segment_index s1 = ds_segment_index s" "ds_key s1 = ?key"
      "ds_next_sequence s1 = ?n" "ds_options s1 = ds_options s" "ds_segment_open s1" "ds_durable_bytes s1 = ds_durable_bytes s + of_nat (length b1 + 40)"
    using assms(7) refused_commit_disk[OF assms(2,3) _ assms(5,6), of d] ready length_pending[of ?key Pending ?n b1]
    by (auto simp: store_ready_def simp del: frames_simps)
  define p2 where "p2 = planned img m2"
  define b2 where "b2 = encode_mutation p2"
  note wrote = acknowledged_commit_disk[OF assms(2,4) c1(8) assms(8)[unfolded c1(2)], folded p2_def]
  have p2: "plan_commit s1 m2 img = Inr (p2, b2)" using wrote(1) by (simp add: b2_def)
  have d2: "d2 = append_bytes ?name (frames ?key (entries ?n [p2])) d1" using wrote(2) c1(4-6) by (simp del: entries.simps frames_simps)
  let ?us = "(Pending, ?n, b1) # entries ?n [p2]"
  have payloads: "payload_ok (op_limits (ds_options s)) b1" "payload_ok (op_limits (ds_options s)) b2" "b2 = encode_mutation p2"
      "40 \<le> max_record_payload (op_limits (ds_options s))"
    using plan_commit_facts[OF assms(5) ceil] plan_commit_facts[OF p2] c1(7) ceil by simp_all
  have bytes: "frames ?key ?us = ?b1 @ frames ?key (entries ?n [p2])" by simp
  have d2': "d2 = append_bytes ?name (frames ?key ?us) d" unfolding d2 c1(1) bytes by (rule append_bytes_twice)
  have room: "unat (ds_segment_bytes s) + length (frames ?key ?us) \<le> max_state_bytes (op_limits (ds_options s))"
    using spoiled_room[OF assms(1,5) p2 assms(3) c1(7,9)] payloads(3)
    by (simp add: frame_def kRecordOverheadBytes_def kRecordHeaderBytes_def kRecordMacBytes_def)
  have ok: "list_all (framed_ok (op_limits (ds_options s))) ?us"
    using payloads by (simp add: framed_ok_def payload_ok_def)
  show ?thesis
    using spoiled_journal_degrades[OF j ready assms(2) _ ok _ room] repeated_pending segment_count[OF j ready assms(3)] c1(3)
    unfolding d2'[symmetric] by simp
qed

section \<open>A sample loss\<close>

text \<open>A caller without authority asks for a new epoch on the fresh sample store.\<close>

definition m_intruder :: mutation where "m_intruder = m_open\<lparr>mu_system := False\<rparr>"
definition intruder_planned :: mutation where "intruder_planned = m_intruder\<lparr>mu_resulting_generation := 1\<rparr>"

lemma intruder_length: "length (encode_mutation intruder_planned) = 85"
  by (simp add: encode_mutation_def intruder_planned_def m_intruder_def m_open_def enc_u16_def append_le_def enc_id_def ops_def boot_a_def
      enc_raw_def mutation_payload_def mutation_default_def enc_str_short enc_u32_def)

lemma advance_plans:
  assumes "m = m_open \<or> m = m_intruder" "ds_options s = sample_options" "ds_open s" "ds_durable_bytes s = 141 \<or> ds_durable_bytes s = 266"
  shows "plan_commit s m fabric0 = Inr (m\<lparr>mu_resulting_generation := 1\<rparr>, encode_mutation (m\<lparr>mu_resulting_generation := 1\<rparr>))"
proof -
  have v: "validate_mutation fabric0 m = Inr ()" "planned_generation fabric0 m = 1"
    using assms(1) by (auto simp: m_intruder_def m_open_def mutation_default_def validate_mutation_def validate_advance_def epoch_next_def
        fabric0_def empty_image_def planned_generation_def mutation_is_idempotent_def is_idempotent_def gen_next_def)
  have len: "length (encode_mutation (m\<lparr>mu_resulting_generation := 1\<rparr>)) = 85"
    using assms(1) intruder_length sample_planned_length by (auto simp: intruder_planned_def sample_planned_def)
  show ?thesis
    using assms(2-4) v len
    by (auto simp: plan_commit_def projected_bytes_def checked_add_def journal_record_bytes_def kRecordOverheadBytes_def
        kRecordHeaderBytes_def kRecordMacBytes_def compiled_limits_ceiling_def fabric0_def empty_image_def gen_is_set_def Let_def)
qed

lemma intruder_refused: "\<exists>e. apply_mutation fabric0 intruder_planned False = (fabric0, Inl e)"
proof -
  obtain img' r where a: "apply_mutation fabric0 intruder_planned False = (img', r)" by fastforce
  then show ?thesis
    using unauthorized_unchanged[OF _ _ a] by (simp add: live_def fabric0_def empty_image_def intruder_planned_def m_intruder_def)
qed

theorem refused_commit_loses_the_next_witness:
  "\<exists>d1 s1 e d2 s2 img2 img3 report.
     commit_mutation sample_env m_intruder sample_store fabric0 sample_disk = (d1, s1, fabric0, Inl e) \<and>
     commit_mutation sample_env m_open s1 fabric0 d1 = (d2, s2, img2, Inr ()) \<and> im_epoch img2 = 1 \<and>
     replay sample_env sample_options sample_key d2 = (d2, img3, Inr report) \<and> ir_health report = Degraded \<and> im_epoch img3 = 0"
proof -
  obtain e where e: "apply_mutation fabric0 intruder_planned False = (fabric0, Inl e)" using intruder_refused by blast
  have start: "ds_durable_bytes sample_store = 141" "ds_open sample_store" by (simp_all add: sample_store_def sample_sizes)
  have plan: "plan_commit sample_store m_intruder fabric0 = Inr (intruder_planned, encode_mutation intruder_planned)"
    unfolding intruder_planned_def by (rule advance_plans) (simp_all add: start)
  obtain d1 s1 where c1: "commit_mutation sample_env m_intruder sample_store fabric0 sample_disk = (d1, s1, fabric0, Inl e)"
      "ds_segment_bytes s1 = 125" "ds_segment_open s1" "ds_options s1 = sample_options" "ds_open s1" "ds_durable_bytes s1 = 266"
    using refused_commit_disk[OF sample_calm _ _ plan e, of sample_disk] length_pending[of sample_key Pending 1 "encode_mutation intruder_planned"] start
    by (simp add: intruder_length kSegmentRollBytes_def del: frames_simps)
  have plan2: "plan_commit s1 m_open fabric0 = Inr (sample_planned, encode_mutation sample_planned)"
    unfolding sample_planned_def by (rule advance_plans) (simp_all add: c1)
  obtain d2 s2 img2 where c2: "commit_mutation sample_env m_open s1 fabric0 d1 = (d2, s2, img2, Inr ())" "im_epoch img2 = 1"
    using commit_calm_disk[OF sample_calm _ c1(3) plan2 sample_applied, of d1] c1(2)
    by (simp add: kSegmentRollBytes_def at_step_def with_audit_def del: entries.simps frames_simps)
  have "store_inv sample_store fabric0 sample_disk" using session_inv[OF sample_session] by blast
  then obtain detail report where "replay sample_env sample_options sample_key d2 =
      (d2, fabric0\<lparr>im_health := Degraded, im_health_detail := detail\<rparr>, Inr report)" "ir_health report = Degraded"
    using refused_commit_loses_the_next[OF _ sample_calm _ _ plan e c1(1) c2(1)] c1(2) by (auto simp: kSegmentRollBytes_def)
  then show ?thesis using c1(1) c2 by (auto simp: fabric0_def empty_image_def)
qed

end
