(* ===== verification/Invocations.thy ===== *)
theory Invocations
  imports Pfctl Losses
begin

text \<open>
  What an invocation of \<^verbatim>\<open>pfctl\<close> does to a directory that a runtime has been serving. It opens the
  store, possibly with other options than the runtime before it, and takes authority as its own
  publisher; only then does it run its command. So it sees the evidence it published itself and no
  other, every command commits to the journal, and inspecting the directory of a running node
  spoils the node's next commit.
\<close>

section \<open>Opening with other options\<close>

lemma base_stored_options:
  assumes "op_limits opts = op_limits opts'"
  shows "base_stored opts = base_stored opts'"
proof -
  have "parse_snapshot opts = parse_snapshot opts'" by (intro ext) (simp only: parse_snapshot_def assms)
  then show ?thesis by (intro ext) (simp only: base_stored_def assms)
qed

lemma store_inv_options:
  assumes "store_inv s img d" "op_limits opts = op_limits (ds_options s)"
  shows "store_inv (s\<lparr>ds_options := opts\<rparr>) img d"
  using assms base_stored_options[OF assms(2)] unfolding store_inv_def store_ready_def journal_state_def by simp

lemma reopen_store:
  assumes "serving_image opts rt d j" "ro_limits opts' = ro_limits opts" "calm (ce_io env)" "ev_directory (ce_io env) \<noteq> []"
    and "measurable (locked (store_options_of opts') d)"
  defines "s0 \<equiv> (rt_store rt)\<lparr>ds_options := store_options_of opts'\<rparr>"
  shows "\<exists>report s. open_store (ce_io env) (store_options_of opts') (empty_image compiled_limits_ceiling) report_default (Directory d) =
      (Directory (locked (store_options_of opts') d), j, report, Inr s) \<and> ir_health report = Healthy \<and> reopened (locked (store_options_of opts') d) s0 s \<and>
      limits_within_compiled_ceiling (ro_limits opts') \<and>
      serving_image opts' (opened_runtime env opts' boot j s) (locked (store_options_of opts') d) j"
proof -
  note i = assms(1)[unfolded serving_image_def]
  have inv: "store_inv s0 j d" unfolding s0_def using store_inv_options[of "rt_store rt" j d] i assms(2) by simp
  have s0: "ds_options s0 = store_options_of opts'" by (simp add: s0_def)
  have healthy: "im_health j \<noteq> Degraded" using i agreesD(6)[of j "rt_image rt"] by simp
  have intact: "append_bytes (journal_segment_name (ds_segment_index s0)) [] d = d"
    using inv append_nothing[of d] by (auto simp: store_inv_def store_ready_def)
  have small: "unat (ds_segment_bytes s0) \<le> max_state_bytes (op_limits (ds_options s0))"
    using segment_bytes_bound inv by (auto simp: store_inv_def)
  obtain report s where o: "open_store (ce_io env) (store_options_of opts') (empty_image compiled_limits_ceiling) report_default (Directory d) =
      (Directory (locked (store_options_of opts') d), j, report, Inr s)" "ir_health report = Healthy" "ds_options s = store_options_of opts'"
      "store_inv s j (locked (store_options_of opts') d)" "reopened (locked (store_options_of opts') d) s0 s"
    using open_existing[OF assms(3,4) inv healthy, of "[]" "empty_image compiled_limits_ceiling" report_default, unfolded intact s0]
      assms(5) small s0 by auto
  have "limits_within_compiled_ceiling (ro_limits opts')" using inv s0 unfolding store_inv_def store_ready_def by simp
  moreover have "j\<lparr>im_limits := ro_limits opts'\<rparr> = j" using i assms(2) by (simp add: reachable_same_limits)
  then have "rt_image (opened_runtime env opts' boot j s) = expire_grants j" "rt_store (opened_runtime env opts' boot j s) = s"
    by (simp_all add: opened_runtime_def)
  moreover have "im_health (expire_grants j) = Healthy" using i agreesD(6)[of j "rt_image rt"] by (simp add: expire_grants_def)
  ultimately show ?thesis
    using i o assms(2) agrees_expire[OF agrees_refl, of j] reachable_expire[of "ro_limits opts" j] by (auto simp: serving_image_def)
qed

lemma opened_runtime_sel [simp]:
  "rt_image (opened_runtime env opts boot j s) = expire_grants (j\<lparr>im_limits := ro_limits opts\<rparr>)" "rt_store (opened_runtime env opts boot j s) = s"
  "rt_limits (opened_runtime env opts boot j s) = ro_limits opts" "\<not> rt_closed (opened_runtime env opts boot j s)"
  "rt_allow_new_publishers (opened_runtime env opts boot j s) = ro_allow_new_publishers opts"
  by (simp_all add: opened_runtime_def)

lemma count_recovery_sel [simp]:
  "rt_image (count_recovery rt) = rt_image rt" "rt_store (count_recovery rt) = rt_store rt" "rt_limits (count_recovery rt) = rt_limits rt"
  "rt_closed (count_recovery rt) = rt_closed rt" "rt_allow_new_publishers (count_recovery rt) = rt_allow_new_publishers rt"
  "serving_image opts (count_recovery rt) d j = serving_image opts rt d j"
  by (simp_all add: count_recovery_def serving_image_def)

lemma reopen_with:
  assumes "serving_image opts rt d j" "ro_limits opts' = ro_limits opts" "\<not> ro_advance_epoch_on_open opts'"
    and "calm (ce_io env)" "ev_directory (ce_io env) \<noteq> []" "choose_boot env opts' = Inr boot"
    and "measurable (locked (store_options_of opts') d)"
  defines "s0 \<equiv> (rt_store rt)\<lparr>ds_options := store_options_of opts'\<rparr>"
  shows "\<exists>rt1. open_runtime env opts' (Directory d) = (Directory (locked (store_options_of opts') d), Inr rt1) \<and>
    rt_image rt1 = expire_grants j \<and> rt_limits rt1 = ro_limits opts' \<and> \<not> rt_closed rt1 \<and>
    rt_allow_new_publishers rt1 = ro_allow_new_publishers opts' \<and>
    serving_image opts' rt1 (locked (store_options_of opts') d) j \<and> reopened (locked (store_options_of opts') d) s0 (rt_store rt1)"
proof -
  obtain report s where o: "open_store (ce_io env) (store_options_of opts') (empty_image compiled_limits_ceiling) report_default (Directory d) =
      (Directory (locked (store_options_of opts') d), j, report, Inr s)" "ir_health report = Healthy"
      "reopened (locked (store_options_of opts') d) s0 s" "limits_within_compiled_ceiling (ro_limits opts')"
      "serving_image opts' (opened_runtime env opts' boot j s) (locked (store_options_of opts') d) j"
    using reopen_store[OF assms(1,2,4,5,7)] unfolding s0_def by blast
  have "j\<lparr>im_limits := ro_limits opts'\<rparr> = j" using assms(1,2) by (simp add: serving_image_def reachable_same_limits)
  then show ?thesis
    using o assms(3,5,6)
    by (intro exI[of _ "count_recovery (opened_runtime env opts' boot j s)"]) (simp add: open_runtime_def Let_def)
qed

section \<open>Taking authority after a restart\<close>

text \<open>The parts of the image a query reads, apart from the authority table.\<close>

definition same_registries :: "state_image \<Rightarrow> state_image \<Rightarrow> bool" where
  "same_registries a b \<longleftrightarrow> im_classes a = im_classes b \<and> im_scopes a = im_scopes b \<and> im_policies a = im_policies b \<and>
     im_subjects a = im_subjects b \<and> im_assignments a = im_assignments b \<and> im_assignments_by_subject a = im_assignments_by_subject b \<and>
     im_limits a = im_limits b \<and> im_epoch a = im_epoch b"

definition nobody_granted :: "state_image \<Rightarrow> bool" where
  "nobody_granted img \<longleftrightarrow> (\<forall>(k, e) \<in> set (im_authority img). he_state e \<noteq> Granted)"

lemma nobody_granted_find: "nobody_granted img \<Longrightarrow> om_find (im_authority img) k = Some e \<Longrightarrow> he_state e \<noteq> Granted"
  by (auto simp: nobody_granted_def dest: om_find_in_set)

lemma nobody_after_expiry: "nobody_granted (expire_grants img)"
  by (auto simp: nobody_granted_def expire_grants_def om_update_all_def split: if_splits)

lemma applied_grant:
  assumes "apply_mutation img m False = (img', Inr ())" "mu_op m = GrantAuthority" "nobody_granted img"
  shows "same_registries img' img" "im_next_fencing_token img' = im_next_fencing_token img + 1"
    and "om_find (im_authority img') k = Some e \<Longrightarrow> he_state e = Granted \<longleftrightarrow> k = (mu_publisher m, mu_boot m)"
proof -
  from assms(1) obtain g img1 where a: "apply_op img m False (mutation_provenance img m g) = Inr img1"
      "img' = (with_audit (im_next_audit_sequence img + 1) (audit_after img m g) img1)\<lparr>im_generation := g\<rparr>"
  proof (cases rule: apply_mutation_cases)
    case (identical g)
    then show ?thesis using admit_ok(2)[OF identical(1)] assms(2) by (simp add: is_idempotent_def)
  qed (use that in auto)
  show "same_registries img' img" "im_next_fencing_token img' = im_next_fencing_token img + 1"
    using a assms(2) by (auto simp: op_defs same_registries_def with_audit_def Let_def split: if_splits)
  assume "om_find (im_authority img') k = Some e"
  then show "he_state e = Granted \<longleftrightarrow> k = (mu_publisher m, mu_boot m)"
    using a assms(2,3)
    by (auto simp: op_defs with_audit_def Let_def om_find_put find_update_all dest: nobody_granted_find split: if_splits)
qed

definition grant_mutation :: "call_env \<Rightarrow> publisher_id \<Rightarrow> boot_id \<Rightarrow> state_image \<Rightarrow> mutation" where
  "grant_mutation env publisher boot img = (base_mutation_of env \<lparr>fs_publisher = publisher, fs_boot = boot, fs_epoch = im_epoch img,
     fs_token = im_next_fencing_token img\<rparr> GrantAuthority ''authority granted'')\<lparr>mu_system := True\<rparr>"

lemma grant_mutation_sel [simp]:
  "mu_op (grant_mutation env publisher boot img) = GrantAuthority" "mu_publisher (grant_mutation env publisher boot img) = publisher"
  "mu_boot (grant_mutation env publisher boot img) = boot"
  by (simp_all add: grant_mutation_def base_mutation_of_def)

text \<open>On an established fabric in which nobody holds authority, a grant is one commit.\<close>

lemma grant_is_a_commit:
  assumes "nobody_granted (rt_image rt)" "is_established (im_epoch (rt_image rt))"
    and "grant_authority env publisher boot (Some rt) d = (d', Some rt', Inr actor)"
  shows "\<exists>rt1 v stats. runtime_commit env (grant_mutation env publisher boot (rt_image rt)) rt d = (d', rt1, Inr v) \<and>
    rt' = rt1\<lparr>rt_stats := stats\<rparr>"
proof -
  have other: "\<not> live_other_incarnation (rt_image rt) publisher boot"
    using assms(1) by (auto simp: live_other_incarnation_def nobody_granted_def list_ex_iff)
  have "grant_table env publisher boot rt d = (d', rt', Inr actor)"
    using assms(3) nobody_granted_find[OF assms(1)]
    by (auto simp: grant_authority_def Let_def split: if_splits option.splits prod.splits)
  then have "grant_commit env publisher boot rt d = (d', rt', Inr actor)"
    using other assms(2) by (auto simp: grant_table_def grant_epoch_def Let_def split: if_splits)
  then show ?thesis
    by (auto simp: grant_commit_def grant_mutation_def[symmetric] Let_def count_accepted_def split: prod.splits sum.splits option.splits)
qed

section \<open>Evidence across invocations\<close>

text \<open>Evidence that only the authority of its publisher can keep from being used.\<close>

definition current_evidence :: "state_image \<Rightarrow> assignment_entry \<Rightarrow> bool" where
  "current_evidence img entry \<longleftrightarrow> ae_active entry \<and> pv_epoch (ae_provenance entry) = im_epoch img \<and>
     generations_current img (ae_assignment entry) \<and>
     class_visible img (as_cls (ae_assignment entry)) (as_scope (ae_assignment entry))"

lemma usable_current: "usable img entry \<longleftrightarrow> publisher_granted img (ae_provenance entry) \<and> current_evidence img entry"
  by (auto simp: usable_def current_evidence_def)

lemma scope_chain_registries:
  assumes "same_registries a b"
  shows "scope_chain_loop a scope chain current visited = scope_chain_loop b scope chain current visited"
  using assms
proof (induction a scope chain current visited rule: scope_chain_loop.induct)
  case (1 a scope chain current visited)
  show ?case
    by (subst (1 2) scope_chain_loop.simps) (use 1 in \<open>auto simp: same_registries_def Let_def split: option.split\<close>)
qed

lemma class_visible_registries:
  assumes "same_registries a b"
  shows "class_visible a = class_visible b"
proof -
  have "class_parents a = class_parents b" using assms by (simp add: class_parents_def same_registries_def fun_eq_iff)
  then have eqs: "scope_chain a = scope_chain b" "first_policy a = first_policy b" "class_implies a = class_implies b"
    using assms by (auto simp: scope_chain_def scope_chain_registries[OF assms] first_policy_def class_implies_def same_registries_def intro!: ext)
  show ?thesis unfolding class_visible_def[abs_def] effective_visibility_def eqs by (rule refl)
qed

lemma current_registries: "same_registries a b \<Longrightarrow> current_evidence a = current_evidence b"
  using class_visible_registries[of a b]
  by (simp add: current_evidence_def generations_current_def same_registries_def fun_eq_iff)

lemma current_forget: "current_evidence (forget img) (plain_assignment e) = current_evidence img e"
proof -
  have "class_visible (forget img) = class_visible img" by (simp add: class_visible_def fun_eq_iff split: option.split)
  moreover have "generations_current (forget img) a = generations_current img a" for a by (auto simp: generations_current_def)
  ultimately show ?thesis by (simp add: current_evidence_def anonymous_def)
qed

lemma agreeing_assignment:
  assumes "forget a = forget b" "om_find (im_assignments a) i = Some e"
  shows "\<exists>e'. om_find (im_assignments b) i = Some e' \<and> plain_assignment e' = plain_assignment e"
proof -
  have "om_find (im_assignments (forget a)) i = om_find (im_assignments (forget b)) i" using assms(1) by simp
  then show ?thesis using assms(2) by (auto simp: map_option_case split: option.splits)
qed

section \<open>The start of an invocation\<close>

lemma pfctl_options_sel [simp]:
  "ro_limits (pfctl_runtime_options b) = compiled_limits_ceiling" "\<not> ro_advance_epoch_on_open (pfctl_runtime_options b)"
  "ro_allow_new_publishers (pfctl_runtime_options b)" "ro_exclusive_lock (pfctl_runtime_options b) = (\<not> b)"
  by (simp_all add: pfctl_runtime_options_def)

lemma at_directory_sel [simp]:
  "ev_directory (ce_io (at_directory dir env)) = dir" "calm (ce_io (at_directory dir env)) = calm (ce_io env)"
  "choose_boot (at_directory dir env) (pfctl_runtime_options b) = ce_boot env"
  by (simp_all add: at_directory_def calm_def choose_boot_def pfctl_runtime_options_def)

lemma pfctl_publisher_ok: "id_ok compiled_limits_ceiling pfctl_publisher"
  by (simp add: pfctl_publisher_def id_ok_def compiled_limits_ceiling_def canonical_form_scan is_lower_alnum_def scan_segments.simps
      is_separator_def kMaxRawIdBytes_def)

lemma expired_registries: "same_registries (expire_grants img) img"
  by (simp add: same_registries_def expire_grants_def)

lemma same_registries_trans: "same_registries a b \<Longrightarrow> same_registries b c \<Longrightarrow> same_registries a c"
  by (simp add: same_registries_def)

lemma invocation_start:
  assumes "serving_image opts rt d j" "ro_limits opts = compiled_limits_ceiling" "is_established (im_epoch (rt_image rt))"
    and "calm (ce_io (envs 0))" "po_state options \<noteq> []" "ce_boot (envs 0) = Inr b0"
    and "measurable (locked (store_options_of (pfctl_runtime_options (po_shared options))) d)"
    and "pfctl_start envs boot options (Directory d) = (p', Some (rt', actor))"
  defines "opts' \<equiv> pfctl_runtime_options (po_shared options)" and "env1 \<equiv> at_directory (po_state options) (envs 1)"
  obtains rt1 rt2 v d' stats where "p' = Directory d'" "rt_image rt1 = expire_grants j"
    "serving_image opts' rt1 (locked (store_options_of opts') d) j"
    "reopened (locked (store_options_of opts') d) ((rt_store rt)\<lparr>ds_options := store_options_of opts'\<rparr>) (rt_store rt1)"
    "runtime_commit env1 (grant_mutation env1 pfctl_publisher boot (expire_grants j)) rt1 (locked (store_options_of opts') d) = (d', rt2, Inr v)"
    "rt' = rt2\<lparr>rt_stats := stats\<rparr>"
proof -
  let ?d = "locked (store_options_of opts') d"
  obtain rt1 where o: "open_runtime (at_directory (po_state options) (envs 0)) opts' (Directory d) = (Directory ?d, Inr rt1)"
      "rt_image rt1 = expire_grants j" "serving_image opts' rt1 ?d j"
      "reopened ?d ((rt_store rt)\<lparr>ds_options := store_options_of opts'\<rparr>) (rt_store rt1)"
    using reopen_with[OF assms(1), of opts' "at_directory (po_state options) (envs 0)" b0] assms(2,4-7) by (auto simp: opts'_def)
  obtain d' h r where g: "grant_authority env1 pfctl_publisher boot (Some rt1) ?d = (d', h, r)" by (metis prod_cases3)
  have s: "p' = Directory d'" "h = Some rt'" "r = Inr actor"
    using assms(8) o(1) g by (auto simp: pfctl_start_def opts'_def env1_def split: option.splits sum.splits)
  have "is_established (im_epoch (rt_image rt1))"
    using assms(1,3) agreesD(1)[of j "rt_image rt"] by (simp add: o(2) expire_grants_def serving_image_def)
  then obtain rt2 v stats where "runtime_commit env1 (grant_mutation env1 pfctl_publisher boot (rt_image rt1)) rt1 ?d = (d', rt2, Inr v)"
      "rt' = rt2\<lparr>rt_stats := stats\<rparr>"
    using grant_is_a_commit[of rt1 env1 pfctl_publisher boot ?d d' rt' actor] g s o(2) nobody_after_expiry[of j] by auto
  then show ?thesis using that s(1) o(2-4) by metis
qed

lemma grant_mutation_ok: "boot_wf boot \<Longrightarrow> mutation_ok compiled_limits_ceiling (grant_mutation env pfctl_publisher boot img)"
  using pfctl_publisher_ok
  by (simp add: mutation_ok_def grant_mutation_def base_mutation_of_def str_ok_def mutation_payload_ok_def compiled_limits_ceiling_def)

text \<open>What the image looks like when the command of an invocation runs.\<close>

lemma invocation_image:
  assumes "serving_image opts rt d j" "ro_limits opts = compiled_limits_ceiling" "is_established (im_epoch (rt_image rt))"
    and "calm (ce_io (envs 0))" "po_state options \<noteq> []" "ce_boot (envs 0) = Inr b0"
    and "measurable (locked (store_options_of (pfctl_runtime_options (po_shared options))) d)" "boot_wf boot"
    and "pfctl_start envs boot options (Directory d) = (p', Some (rt', actor))"
  shows "\<exists>d' j'. p' = Directory d' \<and> serving_image (pfctl_runtime_options (po_shared options)) rt' d' j' \<and>
      ds_key (rt_store rt') = ds_key (rt_store rt)"
    and "same_registries (rt_image rt') j" "im_next_fencing_token (rt_image rt') = im_next_fencing_token (rt_image rt) + 1"
    and "publisher_granted (rt_image rt') prov \<longleftrightarrow> pv_publisher prov = pfctl_publisher \<and> pv_boot prov = boot"
proof -
  define opts' where "opts' = pfctl_runtime_options (po_shared options)"
  define env1 where "env1 = at_directory (po_state options) (envs 1)"
  define m where "m = grant_mutation env1 pfctl_publisher boot (expire_grants j)"
  let ?d = "locked (store_options_of opts') d"
  obtain rt1 rt2 v d' stats where c: "p' = Directory d'" "rt_image rt1 = expire_grants j" "serving_image opts' rt1 ?d j"
      "reopened ?d ((rt_store rt)\<lparr>ds_options := store_options_of opts'\<rparr>) (rt_store rt1)"
      "runtime_commit env1 m rt1 ?d = (d', rt2, Inr v)" "rt' = rt2\<lparr>rt_stats := stats\<rparr>"
    unfolding opts'_def env1_def m_def by (rule invocation_start[OF assms(1-7,9)])
  have ok: "mutation_ok (ro_limits opts') m" using grant_mutation_ok[OF assms(8)] by (simp add: m_def opts'_def)
  obtain s2 img2 where k: "commit_mutation (ce_io env1) m (rt_store rt1) (rt_image rt1) ?d = (d', s2, img2, Inr ())"
      "rt2 = rt1\<lparr>rt_store := s2, rt_image := img2\<rparr>" using runtime_commit_ok[OF c(5)] by blast
  obtain j' where j': "serving_image opts' rt2 d' j'" using committed_image_step[OF c(3) ok c(5)] by blast
  have "ds_key s2 = ds_key (rt_store rt1)"
    using commit_agrees[OF _ k(1)] commit_outcome(1)[of "rt_store rt1" j ?d m] c(3) ok by (fastforce simp: serving_image_def)
  then show "\<exists>d' j'. p' = Directory d' \<and> serving_image (pfctl_runtime_options (po_shared options)) rt' d' j' \<and>
      ds_key (rt_store rt') = ds_key (rt_store rt)"
    using c(1,4,6) j' k(2) by (auto simp: opts'_def serving_image_def reopened_def)
  obtain img1 where a: "apply_mutation (expire_grants j) (planned (expire_grants j) m) False = (img1, Inr ())"
      "img2 = img1\<lparr>im_last_sequence := ds_next_sequence (rt_store rt1)\<rparr>"
    using commit_image[OF k(1)] c(2) by auto
  have op: "mu_op (planned (expire_grants j) m) = GrantAuthority" "mu_publisher (planned (expire_grants j) m) = pfctl_publisher"
      "mu_boot (planned (expire_grants j) m) = boot" by (simp_all add: planned_def m_def)
  note g = applied_grant[OF a(1) op(1) nobody_after_expiry]
  have image: "rt_image rt' = img1\<lparr>im_last_sequence := ds_next_sequence (rt_store rt1)\<rparr>" using c(6) k(2) a(2) by simp
  show "same_registries (rt_image rt') j"
    using same_registries_trans[OF g(1) expired_registries] by (simp add: image same_registries_def)
  show "im_next_fencing_token (rt_image rt') = im_next_fencing_token (rt_image rt) + 1"
    using g(2) assms(1) agreesD(4)[of j "rt_image rt"] by (simp add: image expire_grants_def serving_image_def)
  have "\<exists>e. om_find (im_authority (rt_image rt')) (pfctl_publisher, boot) = Some e \<and> he_state e = Granted"
    using committed_grant[OF c(5)] c(6) by (auto simp: m_def)
  then show "publisher_granted (rt_image rt') prov \<longleftrightarrow> pv_publisher prov = pfctl_publisher \<and> pv_boot prov = boot"
    using g(3) op by (auto simp: publisher_granted_def image)
qed

section \<open>Properties of an invocation\<close>

text \<open>Consecutive invocations of \<^verbatim>\<open>pfctl\<close> see their own evidence and no other. On a directory that a
  runtime has served without losing the epoch, the command of an invocation runs under the same
  epoch. An assignment the same boot id published that is usable before is usable now, although
  opening revoked every grant, because the invocation takes the authority of that boot id again; and
  whatever is usable now was published by that boot id, so evidence of any other publisher is refused.\<close>

theorem pfctl_sees_its_own_evidence:
  assumes "serving opts rt d" "ro_limits opts = compiled_limits_ceiling" "is_established (im_epoch (rt_image rt))"
    and "calm (ce_io (envs 0))" "po_state options \<noteq> []" "ce_boot (envs 0) = Inr b0"
    and "measurable (locked (store_options_of (pfctl_runtime_options (po_shared options))) d)" "boot_wf boot"
    and "pfctl_start envs boot options (Directory d) = (p', Some (rt', actor))"
  shows "im_epoch (rt_image rt') = im_epoch (rt_image rt) \<and>
    (\<forall>i e. om_find (im_assignments (rt_image rt)) i = Some e \<and> usable (rt_image rt) e \<and>
        pv_publisher (ae_provenance e) = pfctl_publisher \<and> pv_boot (ae_provenance e) = boot \<longrightarrow>
      (\<exists>e'. om_find (im_assignments (rt_image rt')) i = Some e' \<and> ae_assignment e' = ae_assignment e \<and> usable (rt_image rt') e')) \<and>
    (\<forall>e. usable (rt_image rt') e \<longrightarrow> pv_publisher (ae_provenance e) = pfctl_publisher \<and> pv_boot (ae_provenance e) = boot)"
proof -
  obtain j where i: "serving_image opts rt d j" using serving_inv[OF assms(1)] by blast
  note image = invocation_image[OF i assms(2-9)]
  have j: "forget j = forget (rt_image rt)" using i by (simp add: serving_image_def agrees_def)
  have kept: "\<exists>e'. om_find (im_assignments (rt_image rt')) k = Some e' \<and> ae_assignment e' = ae_assignment e \<and> usable (rt_image rt') e'"
    if e: "om_find (im_assignments (rt_image rt)) k = Some e" "usable (rt_image rt) e"
      "pv_publisher (ae_provenance e) = pfctl_publisher" "pv_boot (ae_provenance e) = boot" for k e
  proof -
    obtain e' where e': "om_find (im_assignments j) k = Some e'" "plain_assignment e' = plain_assignment e"
      using agreeing_assignment[OF j[symmetric] e(1)] by blast
    have "ae_assignment e' = ae_assignment e" "anonymous (ae_provenance e') = anonymous (ae_provenance e)"
      using arg_cong[OF e'(2), of ae_assignment] arg_cong[OF e'(2), of ae_provenance] by simp_all
    moreover have "pv_publisher (ae_provenance e') = pfctl_publisher" "pv_boot (ae_provenance e') = boot"
      using arg_cong[OF calculation(2), of pv_publisher] arg_cong[OF calculation(2), of pv_boot] e(3,4) by (simp_all add: anonymous_def)
    moreover have "current_evidence (rt_image rt') e'"
      using e(2) current_forget[of j e'] current_forget[of "rt_image rt" e] current_registries[OF image(2)] j e'(2) by (simp add: usable_current)
    ultimately show ?thesis using e'(1) image(2,4) by (auto simp: usable_current same_registries_def)
  qed
  moreover have "im_epoch (rt_image rt') = im_epoch (rt_image rt)"
    using image(2) forget_eqD(1)[OF j] by (simp add: same_registries_def)
  ultimately show ?thesis using image(4) by (auto simp: usable_current)
qed

text \<open>Every command that opens the directory commits to it, also the ones that only read: after a
  successful \<^verbatim>\<open>query\<close>, \<^verbatim>\<open>audit\<close>, \<^verbatim>\<open>stats\<close> or \<^verbatim>\<open>init\<close>, with or without the exclusive lock, the directory
  recovers to an image whose fencing token counter has moved on by one.\<close>

theorem pfctl_reading_commits:
  assumes "serving opts rt d" "ro_limits opts = compiled_limits_ceiling" "is_established (im_epoch (rt_image rt))"
    and "calm (ce_io (envs 0))" "po_state options \<noteq> []" "ce_boot (envs 0) = Inr b0"
    and "measurable (locked (store_options_of (pfctl_runtime_options (po_shared options))) d)" "boot_wf boot"
    and "noun \<in> {''query'', ''audit'', ''stats'', ''init''}"
    and "pfctl_work envs boot options noun action (Directory d) = (p', h', result)" "tl_code result \<noteq> 1"
  shows "\<exists>d' img. p' = Directory d' \<and>
    recovers (store_options_of (pfctl_runtime_options (po_shared options))) (ds_key (rt_store rt)) d' img \<and>
    im_next_fencing_token img = im_next_fencing_token (rt_image rt) + 1"
proof -
  obtain j where i: "serving_image opts rt d j" using serving_inv[OF assms(1)] by blast
  obtain p1 q where s: "pfctl_start envs boot options (Directory d) = (p1, q)" by fastforce
  have "\<exists>rt' actor. q = Some (rt', actor)"
    using assms(10,11) s by (cases q; cases p1) (auto simp: pfctl_work_def fail_def)
  then obtain rt' actor where q: "q = Some (rt', actor)" by blast
  note image = invocation_image[OF i assms(2-8) s[unfolded q]]
  obtain d' j' where d': "p1 = Directory d'" "serving_image (pfctl_runtime_options (po_shared options)) rt' d' j'"
      "ds_key (rt_store rt') = ds_key (rt_store rt)" using image(1) by blast
  have "p' = Directory d'"
    using assms(9,10) s q d'(1)
    by (auto simp: pfctl_work_def pfctl_command_def pfctl_query_def Let_def split: prod.splits sum.splits)
  moreover have "recovers (store_options_of (pfctl_runtime_options (po_shared options))) (ds_key (rt_store rt)) d' j'"
    using store_inv_recovers[of "rt_store rt'" j' d'] d'(2,3) unfolding serving_image_def recovers_def by metis
  moreover have "im_next_fencing_token j' = im_next_fencing_token (rt_image rt) + 1"
    using image(3) d'(2) agreesD(4)[of j' "rt_image rt'"] by (simp add: serving_image_def)
  ultimately show ?thesis by blast
qed

section \<open>Inspecting a running node\<close>

lemma before_successor:
  assumes "x \<noteq> (- 1 :: u64)"
  shows "x < x + 1"
proof -
  have "unat x \<noteq> unat (- 1 :: u64)" using assms by (simp only: word_unat_eq_iff) simp
  then have "unat x + 1 < 2 ^ 64" using unsigned_less[of x, where 'a = nat] by (simp add: unsigned_minus_1_eq_mask mask_eq_exp_minus_1)
  then have "unat (x + 1) = unat x + 1" by (subst unat_add_lem[THEN iffD1]) simp_all
  then show ?thesis by (simp add: word_less_nat_alt)
qed

lemma grant_length:
  "boot_wf boot \<Longrightarrow> length (encode_mutation ((grant_mutation env pfctl_publisher boot img)\<lparr>mu_resulting_generation := g\<rparr>)) = 90"
  by (simp add: encode_mutation_def grant_mutation_def base_mutation_of_def enc_u16_def append_le_def enc_id_def pfctl_publisher_def
      enc_raw_def mutation_payload_def mutation_default_def enc_str_short enc_u32_def boot_wf_def boot_size_def)

text \<open>What the invocation leaves of a store that is still open elsewhere.\<close>

lemma inspected_store:
  assumes "serving_image opts rt d j" "ro_limits opts = compiled_limits_ceiling" "is_established (im_epoch (rt_image rt))"
    and "calm (ce_io (envs 0))" "calm (ce_io (envs 1))" "po_state options \<noteq> []" "ce_boot (envs 0) = Inr b0"
    and "measurable d" "po_shared options" "boot_wf boot"
    and "unat (ds_segment_bytes (rt_store rt)) + 210 < unat kSegmentRollBytes"
    and "pfctl_start envs boot options (Directory d) = (Directory d1, Some (rt', actor))"
  shows "\<exists>s1 j1. store_inv s1 j1 d1 \<and> ds_key s1 = ds_key (rt_store rt) \<and> ds_segment_index s1 = ds_segment_index (rt_store rt) \<and>
    ds_options s1 = store_options_of opts \<and> ds_next_sequence s1 = ds_next_sequence (rt_store rt) + 1 \<and>
    unat (ds_segment_bytes s1) = unat (ds_segment_bytes (rt_store rt)) + 210 \<and>
    im_next_fencing_token j1 = im_next_fencing_token (rt_image rt) + 1"
proof -
  define opts' where "opts' = pfctl_runtime_options (po_shared options)"
  define env1 where "env1 = at_directory (po_state options) (envs 1)"
  define m where "m = grant_mutation env1 pfctl_publisher boot (expire_grants j)"
  have shared: "locked (store_options_of opts') d = d" using assms(9) by (simp add: locked_def opts'_def store_options_of_def)
  have meas: "measurable (locked (store_options_of (pfctl_runtime_options (po_shared options))) d)" using assms(8) shared by (simp add: opts'_def)
  obtain rt1 rt2 v stats where c: "rt_image rt1 = expire_grants j" "serving_image opts' rt1 d j"
      "reopened d ((rt_store rt)\<lparr>ds_options := store_options_of opts'\<rparr>) (rt_store rt1)"
      "runtime_commit env1 m rt1 d = (d1, rt2, Inr v)" "rt' = rt2\<lparr>rt_stats := stats\<rparr>"
    using invocation_start[OF assms(1-4,6,7) meas assms(12)] shared unfolding opts'_def env1_def m_def by (metis place.inject)
  have ok: "mutation_ok (ro_limits opts') m" using grant_mutation_ok[OF assms(10)] by (simp add: m_def opts'_def)
  obtain s2 img2 where k: "commit_mutation (ce_io env1) m (rt_store rt1) (rt_image rt1) d = (d1, s2, img2, Inr ())"
      "rt2 = rt1\<lparr>rt_store := s2, rt_image := img2\<rparr>" using runtime_commit_ok[OF c(4)] by blast
  obtain j2 where j2: "commit_mutation (ce_io env1) m (rt_store rt1) j d = (d1, s2, j2, Inr ())" "agrees j2 img2"
    using commit_agrees[OF _ k(1)] c(2) by (auto simp: serving_image_def)
  have inv: "store_inv s2 j2 d1" "ds_options s2 = store_options_of opts'" "ds_key s2 = ds_key (rt_store rt1)"
    using commit_outcome(1)[OF _ _ j2(1)] c(2) ok by (simp_all add: serving_image_def)
  have re: "ds_key (rt_store rt1) = ds_key (rt_store rt)" "ds_segment_index (rt_store rt1) = ds_segment_index (rt_store rt)"
      "ds_segment_bytes (rt_store rt1) = ds_segment_bytes (rt_store rt)"
    using c(3) by (simp_all add: reopened_def)
  have ready: "ds_segment_open (rt_store rt1)" "ds_next_sequence (rt_store rt1) = ds_next_sequence (rt_store rt)"
    using c(2) assms(1) by (simp_all add: serving_image_def store_inv_def store_ready_def)
  have small: "ds_segment_bytes (rt_store rt1) < kSegmentRollBytes" using assms(11) re(3) by (simp add: word_less_nat_alt)
  have size: "length (frames (ds_key (rt_store rt1)) (entries (ds_next_sequence (rt_store rt1)) [planned j m])) = 210"
    using grant_length[OF assms(10)] by (simp add: length_entry_frames planned_def m_def del: entries.simps frames_simps)
  have s2: "s2 = (rt_store rt1)\<lparr>ds_segment_bytes := ds_segment_bytes (rt_store rt1) + 210, ds_durable_bytes := ds_durable_bytes (rt_store rt1) + 210,
      ds_journal_records := Suc (Suc (ds_journal_records (rt_store rt1))), ds_next_sequence := ds_next_sequence (rt_store rt1) + 1\<rparr>"
    using acknowledged_commit_disk(3)[OF _ small ready(1) j2(1)] assms(5) size by (simp add: env1_def del: entries.simps frames_simps)
  define s1 where "s1 = s2\<lparr>ds_options := store_options_of opts\<rparr>"
  have "store_inv s1 j2 d1"
    unfolding s1_def using inv(1,2) assms(2) by (intro store_inv_options) (simp_all add: opts'_def)
  moreover have "unat (ds_segment_bytes (rt_store rt) + 210) = unat (ds_segment_bytes (rt_store rt)) + 210"
    using assms(11) by (subst unat_add_lem[THEN iffD1]) (simp_all add: kSegmentRollBytes_def)
  moreover have "im_next_fencing_token j2 = im_next_fencing_token (rt_image rt) + 1"
    using invocation_image(3)[OF assms(1-4,6,7) meas assms(10,12)] agreesD(4)[OF j2(2)] c(5) k(2) by simp
  ultimately show ?thesis
    using re ready by (intro exI[of _ s1] exI[of _ j2]) (simp add: s1_def s2)
qed

text \<open>C17: Inspecting a running node spoils its journal. While a node serves a directory, let \<^verbatim>\<open>pfctl\<close> run a
  command that only reads on it with the shared option, which is the documented use. When the node's
  next commit to its segment is acknowledged, replaying the directory reports it degraded and
  yields an image without that commit.\<close>

theorem inspection_spoils_live_node:
  assumes "serving opts rt d" "ro_limits opts = compiled_limits_ceiling" "is_established (im_epoch (rt_image rt))"
    and "calm (ce_io (envs 0))" "calm (ce_io (envs 1))" "calm (ce_io env)" "po_state options \<noteq> []" "ce_boot (envs 0) = Inr b0"
    and "measurable d" "po_shared options" "boot_wf boot" "noun \<in> {''query'', ''audit'', ''stats'', ''init''}"
    and "unat (ds_segment_bytes (rt_store rt)) + 210 < unat kSegmentRollBytes" "ds_next_sequence (rt_store rt) \<noteq> - 1"
    and "pfctl_work envs boot options noun action (Directory d) = (Directory d1, h', result)" "tl_code result \<noteq> 1"
    and "runtime_commit env m rt d1 = (d2, rt2, Inr v)"
  shows "\<exists>img report. replay (ce_io env) (store_options_of opts) (ds_key (rt_store rt)) d2 = (d2, img, Inr report) \<and>
    ir_health report = Degraded \<and> im_health img = Degraded \<and> im_last_sequence img = im_last_sequence (rt_image rt) + 1 \<and>
    im_next_fencing_token img = im_next_fencing_token (rt_image rt) + 1"
proof -
  obtain j where i: "serving_image opts rt d j" using serving_inv[OF assms(1)] by blast
  obtain p1 q where s: "pfctl_start envs boot options (Directory d) = (p1, q)" by fastforce
  have "\<exists>rt' actor. p1 = Directory d1 \<and> q = Some (rt', actor)"
    using assms(12,15,16) s
    by (cases q; cases p1) (auto simp: pfctl_work_def fail_def pfctl_command_def pfctl_query_def Let_def split: prod.splits sum.splits)
  then obtain rt' actor where q: "p1 = Directory d1" "q = Some (rt', actor)" by blast
  obtain s1 j1 where s1: "store_inv s1 j1 d1" "ds_key s1 = ds_key (rt_store rt)" "ds_segment_index s1 = ds_segment_index (rt_store rt)"
      "ds_options s1 = store_options_of opts" "ds_next_sequence s1 = ds_next_sequence (rt_store rt) + 1"
      "unat (ds_segment_bytes s1) = unat (ds_segment_bytes (rt_store rt)) + 210"
      "im_next_fencing_token j1 = im_next_fencing_token (rt_image rt) + 1"
    using inspected_store[OF i assms(2-5,7-11,13) s[unfolded q]] by blast
  note r = i[unfolded serving_image_def]
  have ready: "ds_segment_open (rt_store rt)" "ds_next_sequence (rt_store rt) = im_last_sequence (rt_image rt) + 1"
      "ds_next_sequence s1 = im_last_sequence j1 + 1"
    using r s1(1) agreesD(3)[of j "rt_image rt"] by (simp_all add: store_inv_def store_ready_def)
  have small: "ds_segment_bytes (rt_store rt) < kSegmentRollBytes" "ds_segment_bytes s1 < kSegmentRollBytes"
    using assms(13) s1(6) by (simp_all add: word_less_nat_alt)
  obtain s2 img2 where c: "commit_mutation (ce_io env) m (rt_store rt) (rt_image rt) d1 = (d2, s2, img2, Inr ())"
    using runtime_commit_ok[OF assms(17)] by blast
  have later: "ds_next_sequence (rt_store rt) < ds_next_sequence s1"
    unfolding s1(5) by (rule before_successor[OF assms(14)])
  have "length (encode_mutation (planned (rt_image rt) m)) \<le> 1048576"
    using plan_commit_facts(4)[OF acknowledged_commit_disk(1)[OF assms(6) small(1) ready(1) c]] r assms(2)
    by (simp add: payload_ok_def compiled_limits_ceiling_def limits_within_compiled_ceiling_def)
  then have room: "unat (ds_segment_bytes s1) + length (encode_mutation (planned (rt_image rt) m)) + 120 \<le> max_state_bytes (op_limits (ds_options s1))"
    using assms(2,13) s1(4,6) by (simp add: compiled_limits_ceiling_def kSegmentRollBytes_def)
  obtain detail report where "replay (ce_io env) (ds_options s1) (ds_key s1) d2 =
      (d2, j1\<lparr>im_health := Degraded, im_health_detail := detail\<rparr>, Inr report)" "ir_health report = Degraded"
    using stale_writer_degrades[OF s1(1) assms(6) small(2) _ _ _ ready(1) small(1) later c room] s1(2-4) r by auto
  then show ?thesis using s1(2,4,5,7) ready by auto
qed

section \<open>A sample invocation\<close>

text \<open>A node has established the epoch and committed it; \<^verbatim>\<open>pfctl --shared --state pf stats\<close> runs beside
  it, and the node then admits a publisher.\<close>

definition sample_node_runtime :: fabric_runtime where
  "sample_node_runtime = sample_runtime\<lparr>rt_store := committed_store, rt_image := committed_image\<rparr>"

definition sample_pfctl :: pfctl_options where
  "sample_pfctl = pfctl_defaults\<lparr>po_state := ''pf'', po_shared := True\<rparr>"

lemma sample_pfctl_sel [simp]: "po_state sample_pfctl = ''pf''" "po_shared sample_pfctl"
  by (simp_all add: sample_pfctl_def)

lemma sample_node_sel [simp]:
  "rt_store sample_node_runtime = committed_store" "rt_image sample_node_runtime = committed_image"
  by (simp_all add: sample_node_runtime_def)

lemma sample_node_serves: "serving sample_runtime_options sample_node_runtime committed_disk"
  using sample_serving by (simp add: sample_node_runtime_def)

lemma sample_node_image: "serving_image sample_runtime_options sample_node_runtime committed_disk committed_image"
  using session_inv[OF sample_committed] by (auto simp: serving_image_def agrees_refl committed_parts)

lemma shared_directory: "locked (store_options_of (pfctl_runtime_options True)) d = d"
  by (simp add: locked_def store_options_of_def)

lemma committed_sizes: "measurable committed_disk" "disk_bytes committed_disk = 346"
  by (simp_all add: measurable_def disk_bytes_def committed_disk_def sample_disk_def append_bytes_def om_has_def om_find_def
      journal_segment_name_def file_names sample_frames sample_sizes del: entries.simps frames_simps)

definition sample_grant :: mutation where
  "sample_grant = grant_mutation (at_directory ''pf'' sample_call_env) pfctl_publisher boot_a committed_image"

definition sample_granted :: mutation where "sample_granted = sample_grant\<lparr>mu_resulting_generation := 2\<rparr>"

lemma pfctl_publisher_valid: "id_valid pfctl_publisher" by (simp add: id_valid_def pfctl_publisher_def)

lemma sample_call_boot [simp]: "ce_boot sample_call_env = Inr boot_a" by (simp add: sample_call_env_def)

lemma sample_grant_valid: "validate_mutation committed_image sample_grant = Inr ()" "is_idempotent committed_image sample_grant = False"
  by (simp_all add: sample_grant_def grant_mutation_def base_mutation_of_def validate_mutation_def validate_grant_def committed_parts
      pfctl_publisher_valid boots is_idempotent_def)
    (simp_all add: compiled_limits_ceiling_def)

lemma sample_grant_plan:
  assumes "ds_open s" "ds_durable_bytes s = 346" "op_limits (ds_options s) = compiled_limits_ceiling"
  shows "plan_commit s sample_grant committed_image = Inr (sample_granted, encode_mutation sample_granted)"
proof -
  have "planned_generation committed_image sample_grant = 2"
    by (simp add: planned_generation_def mutation_is_idempotent_def sample_grant_valid committed_parts gen_next_def)
  moreover have "length (encode_mutation (sample_grant\<lparr>mu_resulting_generation := 2\<rparr>)) = 90"
    unfolding sample_grant_def using boots by (intro grant_length) (simp add: boot_wf_def boot_a_def boot_size_def)
  ultimately show ?thesis
    using assms
    by (simp add: plan_commit_def sample_grant_valid committed_parts sample_granted_def projected_bytes_def checked_add_def
        journal_record_bytes_def kRecordOverheadBytes_def kRecordHeaderBytes_def kRecordMacBytes_def compiled_limits_ceiling_def
        gen_is_set_def Let_def)
qed

lemma sample_grant_applied: "\<exists>img1. apply_mutation committed_image sample_granted False = (img1, Inr ())"
proof -
  have "validate_mutation committed_image sample_granted = validate_mutation committed_image sample_grant"
      "is_idempotent committed_image sample_granted = False" "mu_op sample_granted = GrantAuthority" "mu_system sample_granted"
    by (simp_all add: sample_granted_def sample_grant_def grant_mutation_def base_mutation_of_def validate_mutation_def validate_grant_def
        is_idempotent_def committed_parts)
  then have "admit committed_image sample_granted False = Inr (False, 2)"
    by (simp add: admit_def sample_grant_valid committed_parts gen_next_def) (simp add: sample_granted_def)
  moreover have "\<exists>img1. apply_op committed_image sample_granted False p = Inr img1" for p
    by (simp add: op_defs committed_parts sample_granted_def sample_grant_def grant_mutation_def base_mutation_of_def)
  ultimately show ?thesis using admitted by blast
qed

lemma sample_start:
  "\<exists>d1 rt' actor. pfctl_start (\<lambda>_. sample_call_env) boot_a sample_pfctl (Directory committed_disk) = (Directory d1, Some (rt', actor))"
proof -
  let ?env = "at_directory ''pf'' sample_call_env"
  let ?opts = "pfctl_runtime_options True"
  have image: "expire_grants committed_image = committed_image" by (simp add: expire_grants_def om_update_all_def committed_parts)
  obtain rt1 where o: "open_runtime ?env ?opts (Directory committed_disk) = (Directory committed_disk, Inr rt1)"
      "rt_image rt1 = committed_image" "\<not> rt_closed rt1" "rt_allow_new_publishers rt1"
      "serving_image ?opts rt1 committed_disk committed_image"
      "reopened committed_disk (committed_store\<lparr>ds_options := store_options_of ?opts\<rparr>) (rt_store rt1)"
    using reopen_with[OF sample_node_image, of ?opts ?env boot_a] committed_sizes(1) sample_calm image
    by (simp add: shared_directory) blast
  have s: "ds_open (rt_store rt1)" "ds_durable_bytes (rt_store rt1) = 346" "op_limits (ds_options (rt_store rt1)) = compiled_limits_ceiling"
      "ds_segment_open (rt_store rt1)" "ds_segment_bytes (rt_store rt1) = 205"
    using o(5,6) committed_sizes(2) by (simp_all add: serving_image_def store_inv_def store_ready_def reopened_def)
  obtain img1 where a: "apply_mutation committed_image sample_granted False = (img1, Inr ())" using sample_grant_applied by blast
  obtain d1 rt2 v where r: "runtime_commit ?env sample_grant rt1 committed_disk = (d1, rt2, Inr v)"
    using commit_calm_disk[OF _ _ s(4) sample_grant_plan[OF s(1-3)] a, of "ce_io ?env" committed_disk] s(5) sample_calm o(2)
    by (simp add: runtime_commit_def kSegmentRollBytes_def Let_def)
  obtain e where "om_find (im_authority (rt_image rt2)) (pfctl_publisher, boot_a) = Some e"
    using committed_grant[OF r] by (auto simp: sample_grant_def)
  then obtain rt' actor where g: "grant_commit ?env pfctl_publisher boot_a rt1 committed_disk = (d1, rt', Inr actor)"
    using r by (simp add: grant_commit_def Let_def o(2) sample_grant_def grant_mutation_def)
  have "grant_epoch ?env pfctl_publisher boot_a rt1 committed_disk = (committed_disk, rt1, Inr ())"
    by (simp add: grant_epoch_def Let_def o(2) committed_parts is_established_def live_other_incarnation_def)
  then have "grant_authority ?env pfctl_publisher boot_a (Some rt1) committed_disk = (d1, Some rt', Inr actor)"
    using g o(2-4)
    by (simp add: grant_authority_def grant_table_def committed_parts boots live_other_incarnation_def pfctl_publisher_valid)
  then show ?thesis using o(1) by (simp add: pfctl_start_def)
qed

lemma sample_stats:
  "\<exists>d1 h' result. pfctl_work (\<lambda>_. sample_call_env) boot_a sample_pfctl ''stats'' [] (Directory committed_disk) = (Directory d1, h', result) \<and>
     tl_code result = 0"
  using sample_start by (auto simp: pfctl_work_def pfctl_command_def tool_ok_def Let_def)

lemma sample_boot_wf: "boot_wf boot_a" by (simp add: boot_wf_def boot_a_def boot_size_def)

lemmas sample_facts = sample_node_serves sample_calm sample_boot_wf committed_sizes(1) committed_parts shared_directory

theorem pfctl_sees_its_own_evidence_witness:
  "\<exists>d1 rt' actor. pfctl_start (\<lambda>_. sample_call_env) boot_a sample_pfctl (Directory committed_disk) = (Directory d1, Some (rt', actor)) \<and>
     im_epoch (rt_image rt') = 1 \<and>
     (\<forall>e. usable (rt_image rt') e \<longrightarrow> pv_publisher (ae_provenance e) = pfctl_publisher \<and> pv_boot (ae_provenance e) = boot_a)"
proof -
  obtain d1 rt' actor where s: "pfctl_start (\<lambda>_. sample_call_env) boot_a sample_pfctl (Directory committed_disk) = (Directory d1, Some (rt', actor))"
    using sample_start by blast
  show ?thesis
    using pfctl_sees_its_own_evidence[OF sample_node_serves _ _ _ _ _ _ _ s, of boot_a] s sample_facts
    by (simp add: is_established_def sample_call_env_def)
qed

theorem pfctl_reading_commits_witness:
  "\<exists>d1 h' result img. pfctl_work (\<lambda>_. sample_call_env) boot_a sample_pfctl ''stats'' [] (Directory committed_disk) = (Directory d1, h', result) \<and>
     recovers (store_options_of (pfctl_runtime_options True)) sample_key d1 img \<and> im_next_fencing_token img = 2"
proof -
  obtain d1 h' result where s: "pfctl_work (\<lambda>_. sample_call_env) boot_a sample_pfctl ''stats'' [] (Directory committed_disk) =
      (Directory d1, h', result)" "tl_code result = 0" using sample_stats by blast
  show ?thesis
    using pfctl_reading_commits[OF sample_node_serves _ _ _ _ _ _ _ _ s(1), of boot_a] s sample_facts
    by (auto simp: is_established_def sample_call_env_def)
qed

theorem inspection_spoils_live_node_witness:
  "\<exists>d1 h' result d2 rt2 v img report.
     pfctl_work (\<lambda>_. sample_call_env) boot_a sample_pfctl ''stats'' [] (Directory committed_disk) = (Directory d1, h', result) \<and>
     runtime_commit sample_call_env m_join sample_node_runtime d1 = (d2, rt2, Inr v) \<and>
     replay sample_env sample_options sample_key d2 = (d2, img, Inr report) \<and> ir_health report = Degraded"
proof -
  obtain d1 h' result where s: "pfctl_work (\<lambda>_. sample_call_env) boot_a sample_pfctl ''stats'' [] (Directory committed_disk) =
      (Directory d1, h', result)" "tl_code result = 0" using sample_stats by blast
  obtain img1 where a: "apply_mutation committed_image join_planned False = (img1, Inr ())" using join_applied by blast
  obtain d2 rt2 v where c: "runtime_commit sample_call_env m_join sample_node_runtime d1 = (d2, rt2, Inr v)"
    using commit_calm_disk[OF sample_calm _ _ join_plan a, of d1] by (simp add: runtime_commit_def kSegmentRollBytes_def Let_def)
  show ?thesis
    using inspection_spoils_live_node[OF sample_node_serves _ _ _ _ _ _ _ _ _ _ _ _ _ s(1) _ c, of boot_a] s c sample_facts
    by (auto simp: is_established_def sample_call_env_def kSegmentRollBytes_def)
qed

end
