(* ===== verification/Acceptor.thy ===== *)
theory Acceptor
  imports Node
begin

text \<open>
  The threads of \<^verbatim>\<open>src/node.cpp\<close>: the accept loop of \<^verbatim>\<open>serve\<close>, the worker it starts for a connection,
  and \<^verbatim>\<open>stop\<close>, which wakes and joins them. Their steps interleave: a step is what a thread does
  between two points where another one can see the shared state, which is an atomic flag or counter,
  the listener, or the bookkeeping under the mutex. The mutex is held across steps in one place only:
  \<^verbatim>\<open>stop\<close> holds it while it joins the accept thread, and a thread that needs it then waits.

  What happens on a connection is \<open>handle_connection\<close> of \<open>Node\<close>; here a worker serves, carries out a
  remote shutdown, has closed its socket, has erased its handle, or has ended. A worker that serves
  is in a read: it goes on when its socket was shut down, and otherwise only when its peer or its
  deadline makes it, which is a step of the surroundings. The system reuses a handle once it is
  closed. A thread in \<^verbatim>\<open>accept\<close> goes on when a connection comes or the call fails; whether it also goes
  on when another thread closes the listener is up to the system and a parameter here.
  \<^verbatim>\<open>stop\<close> runs in a thread of its own: the branches for a worker that calls it are left out, since no
  worker does.
\<close>

section \<open>Threads and their points\<close>

type_synonym socket_handle = nat

datatype worker_point = Serving | Shutting | Erasing | Leaving | Ended

record worker =
  wk_handle :: socket_handle
  wk_point :: worker_point
  wk_woken :: bool

datatype serve_point = Loop_head | Accepting | Blocked | Registering nat | Returned void_result

datatype stop_point = Idle | Closing | Stopping | Waking "socket_handle list" | Joining "nat list" | Holding | Closed

record node_threads =
  nt_max_connections :: nat
  nt_close_wakes :: bool
  nt_stopping :: bool
  nt_listener_open :: bool
  nt_connections_accepted :: u64
  nt_active_connections :: u32
  nt_workers :: "nat list"
  nt_live_sockets :: "socket_handle list"
  nt_owns_serve_thread :: bool
  nt_serve :: serve_point
  nt_stop :: stop_point
  nt_threads :: "worker list"

text \<open>\<open>nt_threads\<close> are all workers that were started; \<open>nt_workers\<close> holds the indices of those in the
  vector \<^verbatim>\<open>workers\<close>. \<open>Accepting\<close> is before \<^verbatim>\<open>accept_one\<close> looks at the listener and \<open>Blocked\<close> is in the system's
  \<^verbatim>\<open>accept\<close>; \<open>Closing\<close> is between setting the flag and closing the listener; \<open>Holding\<close> is in the last block of
  \<^verbatim>\<open>stop\<close>, with the mutex.\<close>

definition initial_threads :: "nat \<Rightarrow> bool \<Rightarrow> bool \<Rightarrow> node_threads" where
  "initial_threads most owns wakes =
     \<lparr>nt_max_connections = most, nt_close_wakes = wakes, nt_stopping = False, nt_listener_open = True,
      nt_connections_accepted = 0, nt_active_connections = 0,
      nt_workers = [], nt_live_sockets = [], nt_owns_serve_thread = owns, nt_serve = Loop_head, nt_stop = Idle, nt_threads = []\<rparr>"

text \<open>\<^verbatim>\<open>serve\<close> runs in the caller's thread, or in one of its own that \<^verbatim>\<open>start\<close> launches.\<close>

definition start_serving :: "bool \<Rightarrow> node_threads \<Rightarrow> node_threads \<times> void_result" where
  "start_serving listening s =
     (if \<not> listening then (s, Inl (make_error St_NotReady ''the node is not listening''))
      else if nt_owns_serve_thread s then (s, Inl (make_error St_AlreadyExists ''the node is already serving''))
      else (s\<lparr>nt_owns_serve_thread := True, nt_serve := Loop_head\<rparr>, Inr ()))"

lemma started_once:
  "start_serving True (initial_threads most False wakes) = (initial_threads most True wakes, Inr ())"
  "\<exists>e. start_serving True (initial_threads most True wakes) = (initial_threads most True wakes, Inl e)"
  by (simp_all add: start_serving_def initial_threads_def)

definition socket_open :: "worker \<Rightarrow> bool" where
  "socket_open w \<longleftrightarrow> wk_point w \<in> {Serving, Shutting}"

definition open_handles :: "node_threads \<Rightarrow> socket_handle list" where
  "open_handles s = map wk_handle (filter socket_open (nt_threads s))"

text \<open>Who needs the mutex waits while \<^verbatim>\<open>stop\<close> holds it.\<close>

definition mutex_free :: "node_threads \<Rightarrow> bool" where
  "mutex_free s \<longleftrightarrow> nt_stop s \<noteq> Holding"

section \<open>Steps\<close>

datatype thread_event =
    Check_stopping | Enter_accept | Accept_fails string | Accept_error string | Accept socket_handle | Register
  | Finish nat | Hang_up nat | Erase nat | Leave nat | Remote_shutdown nat | Remote_close nat
  | Stop_begin | Stop_listener | Stop_copy | Stop_wake | Stop_take | Stop_join | Stop_lock | Stop_close

definition check_stopping :: "node_threads \<Rightarrow> node_threads option" where
  "check_stopping s =
     (if nt_serve s = Loop_head
      then Some (s\<lparr>nt_serve := (if nt_stopping s then Returned (Inr ()) else Accepting)\<rparr>) else None)"

text \<open>What \<^verbatim>\<open>serve\<close> makes of an accept that failed.\<close>

definition accept_result :: "string \<Rightarrow> node_threads \<Rightarrow> serve_point" where
  "accept_result message s =
     Returned (if nt_stopping s then Inr ()
       else Inl (make_error St_TransportError (cat [''the accept loop stopped: '', message])))"

definition enter_accept :: "node_threads \<Rightarrow> node_threads option" where
  "enter_accept s =
     (if nt_serve s = Accepting
      then Some (s\<lparr>nt_serve := (if nt_listener_open s then Blocked else accept_result ''the listener is closed'' s)\<rparr>) else None)"

definition accept_fails :: "string \<Rightarrow> node_threads \<Rightarrow> node_threads option" where
  "accept_fails message s =
     (if nt_serve s = Blocked \<and> \<not> nt_listener_open s \<and> nt_close_wakes s
      then Some (s\<lparr>nt_serve := accept_result message s\<rparr>) else None)"

definition accept_error :: "string \<Rightarrow> node_threads \<Rightarrow> node_threads option" where
  "accept_error message s =
     (if nt_serve s = Blocked then Some (s\<lparr>nt_serve := accept_result message s\<rparr>) else None)"

definition accept_connection :: "socket_handle \<Rightarrow> node_threads \<Rightarrow> node_threads option" where
  "accept_connection h s =
     (if nt_serve s = Blocked \<and> h \<notin> set (open_handles s) then
        if nt_max_connections s \<le> unat (nt_active_connections s) then Some (s\<lparr>nt_serve := Loop_head\<rparr>)
        else Some (s\<lparr>nt_connections_accepted := nt_connections_accepted s + 1,
          nt_active_connections := nt_active_connections s + 1,
          nt_threads := nt_threads s @ [\<lparr>wk_handle = h, wk_point = Serving, wk_woken = False\<rparr>],
          nt_serve := Registering (length (nt_threads s))\<rparr>)
      else None)"

definition register_connection :: "node_threads \<Rightarrow> node_threads option" where
  "register_connection s =
     (case nt_serve s of
        Registering i \<Rightarrow>
          if mutex_free s
          then Some (s\<lparr>nt_live_sockets := nt_live_sockets s @ [wk_handle (nt_threads s ! i)],
            nt_workers := nt_workers s @ [i], nt_serve := Loop_head\<rparr>)
          else None
      | _ \<Rightarrow> None)"

definition at_point :: "nat \<Rightarrow> worker_point \<Rightarrow> node_threads \<Rightarrow> bool" where
  "at_point i p s \<longleftrightarrow> i < length (nt_threads s) \<and> wk_point (nt_threads s ! i) = p"

definition moved :: "nat \<Rightarrow> worker_point \<Rightarrow> node_threads \<Rightarrow> node_threads" where
  "moved i p s = s\<lparr>nt_threads := (nt_threads s)[i := (nt_threads s ! i)\<lparr>wk_point := p\<rparr>]\<rparr>"

text \<open>\<open>Finish\<close> is a read that returns because the socket was shut down, \<open>Hang_up\<close> one that ends for any
  other reason.\<close>

definition worker_step :: "thread_event \<Rightarrow> node_threads \<Rightarrow> node_threads option" where
  "worker_step e s =
     (case e of
        Finish i \<Rightarrow> if at_point i Serving s \<and> wk_woken (nt_threads s ! i) then Some (moved i Erasing s) else None
      | Hang_up i \<Rightarrow> if at_point i Serving s then Some (moved i Erasing s) else None
      | Remote_shutdown i \<Rightarrow> if at_point i Serving s then Some ((moved i Shutting s)\<lparr>nt_stopping := True\<rparr>) else None
      | Remote_close i \<Rightarrow> if at_point i Shutting s then Some ((moved i Serving s)\<lparr>nt_listener_open := False\<rparr>) else None
      | Erase i \<Rightarrow> if at_point i Erasing s \<and> mutex_free s
          then Some ((moved i Leaving s)\<lparr>nt_live_sockets := remove1 (wk_handle (nt_threads s ! i)) (nt_live_sockets s)\<rparr>) else None
      | Leave i \<Rightarrow> if at_point i Leaving s
          then Some ((moved i Ended s)\<lparr>nt_active_connections := nt_active_connections s - 1\<rparr>) else None
      | _ \<Rightarrow> None)"

definition has_returned :: "node_threads \<Rightarrow> bool" where
  "has_returned s = (case nt_serve s of Returned r \<Rightarrow> True | _ \<Rightarrow> False)"

definition wake :: "socket_handle \<Rightarrow> worker \<Rightarrow> worker" where
  "wake h w = (if wk_handle w = h \<and> socket_open w then w\<lparr>wk_woken := True\<rparr> else w)"

definition begin_stop :: "node_threads \<Rightarrow> node_threads" where
  "begin_stop s = s\<lparr>nt_stopping := True, nt_stop := (if nt_stopping s then Stopping else Closing)\<rparr>"

definition stop_step :: "thread_event \<Rightarrow> node_threads \<Rightarrow> node_threads option" where
  "stop_step e s =
     (case (e, nt_stop s) of
        (Stop_begin, Idle) \<Rightarrow> Some (begin_stop s)
      | (Stop_begin, Closed) \<Rightarrow> Some (begin_stop s)
      | (Stop_listener, Closing) \<Rightarrow> Some (s\<lparr>nt_listener_open := False, nt_stop := Stopping\<rparr>)
      | (Stop_copy, Stopping) \<Rightarrow> Some (s\<lparr>nt_stop := Waking (nt_live_sockets s)\<rparr>)
      | (Stop_wake, Waking (h # hs)) \<Rightarrow> Some (s\<lparr>nt_threads := map (wake h) (nt_threads s), nt_stop := Waking hs\<rparr>)
      | (Stop_take, Waking []) \<Rightarrow> Some (s\<lparr>nt_stop := Joining (nt_workers s), nt_workers := []\<rparr>)
      | (Stop_join, Joining (i # is)) \<Rightarrow> if at_point i Ended s then Some (s\<lparr>nt_stop := Joining is\<rparr>) else None
      | (Stop_lock, Joining []) \<Rightarrow> Some (s\<lparr>nt_stop := Holding\<rparr>)
      | (Stop_close, Holding) \<Rightarrow>
          if nt_owns_serve_thread s \<longrightarrow> has_returned s
          then Some (s\<lparr>nt_stop := Closed, nt_owns_serve_thread := False\<rparr>) else None
      | _ \<Rightarrow> None)"

definition serve_step :: "thread_event \<Rightarrow> node_threads \<Rightarrow> node_threads option" where
  "serve_step e s =
     (case e of
        Check_stopping \<Rightarrow> check_stopping s
      | Enter_accept \<Rightarrow> enter_accept s
      | Accept_fails message \<Rightarrow> accept_fails message s
      | Accept_error message \<Rightarrow> accept_error message s
      | Accept h \<Rightarrow> accept_connection h s
      | Register \<Rightarrow> register_connection s
      | _ \<Rightarrow> None)"

text \<open>An event belongs to one thread.\<close>

definition thread_step :: "node_threads \<Rightarrow> thread_event \<Rightarrow> node_threads option" where
  "thread_step s e =
     (case serve_step e s of
        Some t \<Rightarrow> Some t
      | None \<Rightarrow> (case worker_step e s of Some t \<Rightarrow> Some t | None \<Rightarrow> stop_step e s))"

fun run_threads :: "node_threads \<Rightarrow> thread_event list \<Rightarrow> node_threads option" where
  "run_threads s [] = Some s"
| "run_threads s (e # es) = (case thread_step s e of None \<Rightarrow> None | Some t \<Rightarrow> run_threads t es)"

lemmas serve_steps = serve_step_def check_stopping_def enter_accept_def accept_fails_def accept_error_def accept_connection_def
  register_connection_def accept_result_def

lemmas thread_steps = thread_step_def serve_steps worker_step_def stop_step_def begin_stop_def

lemma thread_step_cases:
  assumes "thread_step s e = Some t"
  obtains (serve) "serve_step e s = Some t" | (worker) "worker_step e s = Some t" | (stop) "stop_step e s = Some t"
  using assms by (auto simp: thread_step_def split: option.splits)

lemma run_invariant:
  assumes step: "\<And>s e t. I s \<Longrightarrow> thread_step s e = Some t \<Longrightarrow> I t" and start: "I s" and run: "run_threads s es = Some t"
  shows "I t"
  using start run by (induction es arbitrary: s) (auto split: option.splits intro: step)

section \<open>The bookkeeping invariant\<close>

definition running :: "node_threads \<Rightarrow> nat" where
  "running s = length (filter (\<lambda>w. wk_point w \<noteq> Ended) (nt_threads s))"

definition holds :: "socket_handle \<Rightarrow> worker \<Rightarrow> bool" where
  "holds h w \<longleftrightarrow> wk_handle w = h \<and> wk_point w \<in> {Serving, Shutting, Erasing}"

definition holders :: "socket_handle \<Rightarrow> node_threads \<Rightarrow> nat" where
  "holders h s = length (filter (holds h) (nt_threads s))"

definition registering :: "socket_handle \<Rightarrow> node_threads \<Rightarrow> nat" where
  "registering h s = (case nt_serve s of Registering i \<Rightarrow> if wk_handle (nt_threads s ! i) = h then 1 else 0 | _ \<Rightarrow> 0)"

definition joining :: "node_threads \<Rightarrow> nat set" where
  "joining s = (case nt_stop s of Joining is \<Rightarrow> set is | _ \<Rightarrow> {})"

definition counters_inv :: "node_threads \<Rightarrow> bool" where
  "counters_inv s \<longleftrightarrow> nt_max_connections s < 2 ^ 32 \<and> unat (nt_active_connections s) = running s \<and>
     running s \<le> nt_max_connections s \<and> nt_connections_accepted s = of_nat (length (nt_threads s))"

definition handles_inv :: "node_threads \<Rightarrow> bool" where
  "handles_inv s \<longleftrightarrow> (\<forall>i. nt_serve s = Registering i \<longrightarrow> i < length (nt_threads s)) \<and>
     (\<forall>h. holders h s \<le> count_list (nt_live_sockets s) h + registering h s)"

definition joinable_inv :: "node_threads \<Rightarrow> bool" where
  "joinable_inv s \<longleftrightarrow> (\<forall>i < length (nt_threads s). wk_point (nt_threads s ! i) = Ended \<or> i \<in> set (nt_workers s) \<or>
     nt_serve s = Registering i \<or> i \<in> joining s)"

lemma filter_update_length:
  "i < length xs \<Longrightarrow> length (filter P (xs[i := y])) + (if P (xs ! i) then 1 else 0) = length (filter P xs) + (if P y then 1 else 0)"
proof (induction xs arbitrary: i)
  case (Cons x xs)
  then show ?case by (cases i) auto
qed simp

lemma wake_simps [simp]:
  "wk_point (wake h w) = wk_point w" "wk_handle (wake h w) = wk_handle w" "holds k (wake h w) = holds k w" "socket_open (wake h w) = socket_open w"
  by (auto simp: wake_def holds_def socket_open_def)

lemma moved_simps [simp]:
  "nt_max_connections (moved i p s) = nt_max_connections s" "nt_active_connections (moved i p s) = nt_active_connections s"
  "nt_connections_accepted (moved i p s) = nt_connections_accepted s" "length (nt_threads (moved i p s)) = length (nt_threads s)"
  "nt_live_sockets (moved i p s) = nt_live_sockets s" "nt_serve (moved i p s) = nt_serve s" "nt_stop (moved i p s) = nt_stop s"
  "nt_workers (moved i p s) = nt_workers s" "nt_stopping (moved i p s) = nt_stopping s" "nt_listener_open (moved i p s) = nt_listener_open s"
  "nt_close_wakes (moved i p s) = nt_close_wakes s" "nt_owns_serve_thread (moved i p s) = nt_owns_serve_thread s"
  by (simp_all add: moved_def)

lemma moved_handle [simp]: "j < length (nt_threads s) \<Longrightarrow> wk_handle (nt_threads (moved i p s) ! j) = wk_handle (nt_threads s ! j)"
  by (cases "i = j") (simp_all add: moved_def)

lemma moved_point [simp]:
  "j < length (nt_threads s) \<Longrightarrow> wk_point (nt_threads (moved i p s) ! j) = (if i = j then p else wk_point (nt_threads s ! j))"
  by (simp add: moved_def)

lemma running_moved:
  assumes "at_point i p s"
  shows "running (moved i q s) + (if p \<noteq> Ended then 1 else 0) = running s + (if q \<noteq> Ended then 1 else 0)"
  using assms filter_update_length[of i "nt_threads s" "\<lambda>w. wk_point w \<noteq> Ended" "(nt_threads s ! i)\<lparr>wk_point := q\<rparr>"]
  by (simp add: running_def moved_def at_point_def)

lemma holders_moved:
  assumes "at_point i p s"
  shows "holders h (moved i q s) + (if wk_handle (nt_threads s ! i) = h \<and> p \<in> {Serving, Shutting, Erasing} then 1 else 0) =
    holders h s + (if wk_handle (nt_threads s ! i) = h \<and> q \<in> {Serving, Shutting, Erasing} then 1 else 0)"
  using assms filter_update_length[of i "nt_threads s" "holds h" "(nt_threads s ! i)\<lparr>wk_point := q\<rparr>"]
  by (simp add: holders_def holds_def moved_def at_point_def)

text \<open>What a step of a worker does: it moves on, and erases its handle or counts itself out.\<close>

definition next_point :: "worker_point \<Rightarrow> worker_point \<Rightarrow> bool" where
  "next_point p q \<longleftrightarrow> (p, q) \<in> {(Serving, Erasing), (Serving, Shutting), (Shutting, Serving), (Erasing, Leaving), (Leaving, Ended)}"

lemma worker_step_cases:
  assumes "worker_step e s = Some t"
  obtains i p q where "at_point i p s" "next_point p q" "nt_threads t = nt_threads (moved i q s)"
    "nt_live_sockets t = (if q = Leaving then remove1 (wk_handle (nt_threads s ! i)) (nt_live_sockets s) else nt_live_sockets s)"
    "nt_active_connections t = (if q = Ended then nt_active_connections s - 1 else nt_active_connections s)"
    "nt_connections_accepted t = nt_connections_accepted s" "nt_max_connections t = nt_max_connections s"
    "nt_workers t = nt_workers s" "nt_serve t = nt_serve s" "nt_stop t = nt_stop s"
    "nt_stopping t = (nt_stopping s \<or> q = Shutting)" "nt_listener_open t = (nt_listener_open s \<and> p \<noteq> Shutting)"
    "p = Serving \<and> q = Shutting \<Longrightarrow> e = Remote_shutdown i"
proof (cases e)
  case (Finish i)
  then show ?thesis using assms that[of i Serving Erasing] by (auto simp: worker_step_def next_point_def split: if_splits)
next
  case (Hang_up i)
  then show ?thesis using assms that[of i Serving Erasing] by (auto simp: worker_step_def next_point_def split: if_splits)
next
  case (Remote_shutdown i)
  then show ?thesis using assms that[of i Serving Shutting] by (auto simp: worker_step_def next_point_def split: if_splits)
next
  case (Remote_close i)
  then show ?thesis using assms that[of i Shutting Serving] by (auto simp: worker_step_def next_point_def split: if_splits)
next
  case (Erase i)
  then show ?thesis using assms that[of i Erasing Leaving] by (auto simp: worker_step_def next_point_def split: if_splits)
next
  case (Leave i)
  then show ?thesis using assms that[of i Leaving Ended] by (auto simp: worker_step_def next_point_def split: if_splits)
qed (use assms in \<open>simp_all add: worker_step_def\<close>)

lemma stop_step_frame:
  assumes "stop_step e s = Some t"
  shows "nt_serve t = nt_serve s" "nt_live_sockets t = nt_live_sockets s" "nt_active_connections t = nt_active_connections s"
    "nt_connections_accepted t = nt_connections_accepted s" "nt_max_connections t = nt_max_connections s"
    "\<exists>f. nt_threads t = map f (nt_threads s) \<and> (\<forall>w. wk_point (f w) = wk_point w \<and> wk_handle (f w) = wk_handle w)"
proof -
  have "nt_serve t = nt_serve s \<and> nt_live_sockets t = nt_live_sockets s \<and> nt_active_connections t = nt_active_connections s \<and>
    nt_connections_accepted t = nt_connections_accepted s \<and> nt_max_connections t = nt_max_connections s \<and>
    (nt_threads t = nt_threads s \<or> (\<exists>h. nt_threads t = map (wake h) (nt_threads s)))"
    using assms by (cases e; cases "nt_stop s") (auto simp: stop_step_def begin_stop_def split: list.splits if_splits)
  moreover have "nt_threads s = map id (nt_threads s)" by simp
  ultimately show "nt_serve t = nt_serve s" "nt_live_sockets t = nt_live_sockets s" "nt_active_connections t = nt_active_connections s"
    "nt_connections_accepted t = nt_connections_accepted s" "nt_max_connections t = nt_max_connections s"
    "\<exists>f. nt_threads t = map f (nt_threads s) \<and> (\<forall>w. wk_point (f w) = wk_point w \<and> wk_handle (f w) = wk_handle w)"
    by (auto intro: exI[of _ id] exI[of _ "wake _"])
qed

lemma stop_step_threads:
  assumes "stop_step e s = Some t"
  shows "length (nt_threads t) = length (nt_threads s)" "running t = running s" "holders h t = holders h s"
    "i < length (nt_threads s) \<Longrightarrow> wk_point (nt_threads t ! i) = wk_point (nt_threads s ! i)"
    "i < length (nt_threads s) \<Longrightarrow> wk_handle (nt_threads t ! i) = wk_handle (nt_threads s ! i)"
  using stop_step_frame(6)[OF assms] by (auto simp: running_def holders_def holds_def[abs_def] o_def filter_map)

lemma counters_step:
  assumes "counters_inv s" "thread_step s e = Some t"
  shows "counters_inv t"
  using assms(2)
proof (cases rule: thread_step_cases)
  case serve
  then show ?thesis using assms(1)
    by (cases e) (auto simp: serve_steps counters_inv_def running_def unat_word_ariths split: if_splits serve_point.splits)
next
  case worker
  then show ?thesis
  proof (rule worker_step_cases)
    fix i p q
    assume w: "at_point i p s" "next_point p q" "nt_threads t = nt_threads (moved i q s)"
      "nt_active_connections t = (if q = Ended then nt_active_connections s - 1 else nt_active_connections s)"
      "nt_connections_accepted t = nt_connections_accepted s" "nt_max_connections t = nt_max_connections s"
    then have "running t + (if q = Ended then 1 else 0) = running s"
      using running_moved[OF w(1), of q] by (auto simp: running_def next_point_def split: if_splits)
    then show ?thesis using assms(1) w by (auto simp: counters_inv_def unat_sub_if_size word_size split: if_splits)
  qed
next
  case stop
  then show ?thesis using assms(1) stop_step_frame[OF stop] stop_step_threads[OF stop] by (simp add: counters_inv_def)
qed

lemma count_remove1: "count_list (remove1 x xs) y = (if x = y then count_list xs y - 1 else count_list xs y)"
  by (induction xs) auto

lemma handles_step:
  assumes "handles_inv s" "thread_step s e = Some t"
  shows "handles_inv t"
  using assms(2)
proof (cases rule: thread_step_cases)
  case serve
  then show ?thesis using assms(1)
    by (cases e) (auto simp: serve_steps handles_inv_def holders_def registering_def holds_def split: if_splits serve_point.splits)
next
  case worker
  then show ?thesis
  proof (rule worker_step_cases)
    fix i p q
    assume w: "at_point i p s" "next_point p q" "nt_threads t = nt_threads (moved i q s)" "nt_serve t = nt_serve s"
      "nt_live_sockets t = (if q = Leaving then remove1 (wk_handle (nt_threads s ! i)) (nt_live_sockets s) else nt_live_sockets s)"
    have "registering h t = registering h s" for h
      using assms(1) w(3,4) by (auto simp: registering_def handles_inv_def split: serve_point.splits)
    moreover have "holders h t \<le> count_list (nt_live_sockets t) h + registering h s" for h
    proof -
      have "holders h s \<le> count_list (nt_live_sockets s) h + registering h s" using assms(1) by (simp add: handles_inv_def)
      moreover have "holders h t = holders h (moved i q s)" using w(3) by (simp add: holders_def)
      ultimately show ?thesis
        using holders_moved[OF w(1), of h q] w(2,5) by (auto simp: next_point_def count_remove1 split: if_splits)
    qed
    ultimately show ?thesis using assms(1) w(3,4) by (simp add: handles_inv_def)
  qed
next
  case stop
  have "registering h t = registering h s" for h
    using assms(1) stop_step_frame(1)[OF stop] stop_step_threads(5)[OF stop] by (auto simp: registering_def handles_inv_def split: serve_point.splits)
  then show ?thesis using assms(1) stop_step_frame[OF stop] stop_step_threads[OF stop] by (simp add: handles_inv_def)
qed

lemma joinable_step:
  assumes "joinable_inv s" "handles_inv s" "thread_step s e = Some t"
  shows "joinable_inv t"
proof -
  note base = assms(1)[unfolded joinable_inv_def, rule_format]
  have "wk_point (nt_threads t ! i) = Ended \<or> i \<in> set (nt_workers t) \<or> nt_serve t = Registering i \<or> i \<in> joining t"
    if i: "i < length (nt_threads t)" for i
    using assms(3)
  proof (cases rule: thread_step_cases)
    case serve
    then show ?thesis using base[of i] i
      by (cases e) (auto simp: serve_steps nth_append joining_def split: if_splits serve_point.splits)
  next
    case worker
    then show ?thesis
    proof (rule worker_step_cases)
      fix k p q
      assume w: "at_point k p s" "next_point p q" "nt_threads t = nt_threads (moved k q s)" "nt_serve t = nt_serve s"
        "nt_workers t = nt_workers s" "nt_stop t = nt_stop s"
      then show ?thesis using base[of i] i by (auto simp: joining_def next_point_def at_point_def)
    qed
  next
    case stop
    have "i \<in> set (nt_workers s) \<union> joining s \<Longrightarrow> i \<in> set (nt_workers t) \<union> joining t \<or> at_point i Ended s"
      using stop by (cases e; cases "nt_stop s") (auto simp: stop_step_def begin_stop_def joining_def split: list.splits if_splits)
    then show ?thesis using base[of i] i stop_step_frame(1)[OF stop] stop_step_threads(1,4)[OF stop] by (auto simp: at_point_def)
  qed
  then show ?thesis by (simp add: joinable_inv_def)
qed

lemma run_bookkeeping:
  assumes "most < 2 ^ 32" "run_threads (initial_threads most owns wakes) es = Some s"
  shows "counters_inv s" "handles_inv s" "joinable_inv s"
proof -
  have "counters_inv s \<and> handles_inv s \<and> joinable_inv s"
  proof (rule run_invariant[where I = "\<lambda>s. counters_inv s \<and> handles_inv s \<and> joinable_inv s", OF _ _ assms(2)])
    show "counters_inv (initial_threads most owns wakes) \<and> handles_inv (initial_threads most owns wakes) \<and> joinable_inv (initial_threads most owns wakes)"
      using assms(1) by (simp add: initial_threads_def counters_inv_def handles_inv_def joinable_inv_def running_def holders_def)
  qed (auto intro: counters_step handles_step joinable_step)
  then show "counters_inv s" "handles_inv s" "joinable_inv s" by simp_all
qed

lemma run_threads_append: "run_threads s (es @ fs) = (case run_threads s es of None \<Rightarrow> None | Some t \<Rightarrow> run_threads t fs)"
  by (induction es arbitrary: s) (auto split: option.splits)

lemma serve_step_frame:
  assumes "serve_step e s = Some t"
  shows "nt_max_connections t = nt_max_connections s" "nt_stop t = nt_stop s" "nt_stopping t = nt_stopping s"
    "nt_listener_open t = nt_listener_open s" "nt_close_wakes t = nt_close_wakes s"
    "has_returned s \<Longrightarrow> False"
  using assms by (cases e; auto simp: serve_steps has_returned_def split: if_splits serve_point.splits)+

lemma limit_fixed:
  assumes "run_threads s es = Some t"
  shows "nt_max_connections t = nt_max_connections s"
proof (rule run_invariant[where I = "\<lambda>u. nt_max_connections u = nt_max_connections s", OF _ refl assms])
  fix u e v
  assume "nt_max_connections u = nt_max_connections s" "thread_step u e = Some v"
  then show "nt_max_connections v = nt_max_connections s"
    by (elim thread_step_cases) (auto simp: serve_step_frame stop_step_frame elim: worker_step_cases)
qed

text \<open>Once the accept loop has returned and \<^verbatim>\<open>stop\<close> has taken the workers, none is added.\<close>

lemma returned_stays:
  assumes "has_returned s \<and> nt_workers s = []" "run_threads s es = Some t"
  shows "has_returned t \<and> nt_workers t = []"
proof (rule run_invariant[where I = "\<lambda>u. has_returned u \<and> nt_workers u = []", OF _ assms])
  fix u e v
  assume u: "has_returned u \<and> nt_workers u = []" and "thread_step u e = Some v"
  from this(2) show "has_returned v \<and> nt_workers v = []"
  proof (cases rule: thread_step_cases)
    case serve
    then show ?thesis using serve_step_frame(6)[OF serve] u by blast
  next
    case worker
    then show ?thesis by (rule worker_step_cases) (use u in \<open>simp add: has_returned_def\<close>)
  next
    case stop
    then have "nt_workers v = nt_workers u \<or> nt_workers v = []"
      by (cases e; cases "nt_stop u") (auto simp: stop_step_def begin_stop_def split: list.splits if_splits)
    then show ?thesis using u stop_step_frame(1)[OF stop] by (auto simp: has_returned_def)
  qed
qed

lemma nothing_runs: "(\<forall>w \<in> set (nt_threads s). wk_point w = Ended) \<Longrightarrow> running s = 0"
  by (simp add: running_def filter_empty_conv)

section \<open>Shutting down ends\<close>

text \<open>What is left to do once the flag is set, in steps: a worker serves, erases its handle and leaves;
  the accept loop may still deliver one connection, whose worker is then registered; and \<^verbatim>\<open>stop\<close> visits
  the sockets and the workers it finds.\<close>

primrec worker_left :: "worker_point \<Rightarrow> nat" where
  "worker_left Shutting = 4"
| "worker_left Serving = 3"
| "worker_left Erasing = 2"
| "worker_left Leaving = 1"
| "worker_left Ended = 0"

primrec serve_left :: "serve_point \<Rightarrow> nat" where
  "serve_left Loop_head = 1"
| "serve_left Accepting = 9"
| "serve_left Blocked = 8"
| "serve_left (Registering i) = 4"
| "serve_left (Returned r) = 0"

definition stop_left :: "node_threads \<Rightarrow> nat" where
  "stop_left s =
     (case nt_stop s of
        Closing \<Rightarrow> length (nt_live_sockets s) + length (nt_workers s) + 5
      | Stopping \<Rightarrow> length (nt_live_sockets s) + length (nt_workers s) + 4
      | Waking hs \<Rightarrow> length hs + length (nt_workers s) + 3
      | Joining is \<Rightarrow> length is + 2
      | Holding \<Rightarrow> 1
      | _ \<Rightarrow> 0)"

definition workers_left :: "worker list \<Rightarrow> nat" where
  "workers_left ws = sum_list (map (\<lambda>w. worker_left (wk_point w)) ws)"

definition work_left :: "node_threads \<Rightarrow> nat" where
  "work_left s = workers_left (nt_threads s) + serve_left (nt_serve s) + stop_left s"

text \<open>The steps the threads take by themselves, and those of a node to which nothing new comes: no
  call of \<^verbatim>\<open>stop\<close>, no remote request to shut down, no connection. Peers may still leave and an accept
  may still fail.\<close>

fun own_step :: "thread_event \<Rightarrow> bool" where
  "own_step (Accept h) = False"
| "own_step (Accept_error message) = False"
| "own_step (Hang_up i) = False"
| "own_step (Remote_shutdown i) = False"
| "own_step Stop_begin = False"
| "own_step e = True"

fun quiet_step :: "thread_event \<Rightarrow> bool" where
  "quiet_step (Accept h) = False"
| "quiet_step (Remote_shutdown i) = False"
| "quiet_step Stop_begin = False"
| "quiet_step e = True"

definition stuck :: "node_threads \<Rightarrow> bool" where
  "stuck s \<longleftrightarrow> (\<forall>e. own_step e \<longrightarrow> thread_step s e = None)"

lemma workers_left_simps [simp]:
  "workers_left [] = 0" "workers_left (w # ws) = worker_left (wk_point w) + workers_left ws"
  "workers_left (ws @ vs) = workers_left ws + workers_left vs"
  by (simp_all add: workers_left_def)

lemma workers_left_update:
  "i < length ws \<Longrightarrow> workers_left (ws[i := v]) + worker_left (wk_point (ws ! i)) = workers_left ws + worker_left (wk_point v)"
proof (induction ws arbitrary: i)
  case (Cons w ws)
  then show ?case by (cases i) auto
qed simp

lemma workers_left_moved:
  "at_point i p s \<Longrightarrow> workers_left (nt_threads (moved i q s)) + worker_left p = workers_left (nt_threads s) + worker_left q"
  using workers_left_update[of i "nt_threads s" "(nt_threads s ! i)\<lparr>wk_point := q\<rparr>"]
  by (simp add: moved_def at_point_def)

lemma worker_step_work:
  assumes "worker_step e s = Some t" "quiet_step e"
  shows "work_left t < work_left s"
  using assms(1)
proof (rule worker_step_cases)
  fix i p q
  assume w: "at_point i p s" "next_point p q" "nt_threads t = nt_threads (moved i q s)"
    "nt_live_sockets t = (if q = Leaving then remove1 (wk_handle (nt_threads s ! i)) (nt_live_sockets s) else nt_live_sockets s)"
    "nt_serve t = nt_serve s" "nt_stop t = nt_stop s" "nt_workers t = nt_workers s" "p = Serving \<and> q = Shutting \<Longrightarrow> e = Remote_shutdown i"
  then have "worker_left q < worker_left p" using assms(2) by (auto simp: next_point_def)
  moreover have "length (nt_live_sockets t) \<le> length (nt_live_sockets s)" using w(4) by (simp add: length_remove1)
  ultimately show ?thesis using workers_left_moved[OF w(1), of q] w(3,5-7)
    by (auto simp: work_left_def stop_left_def split: stop_point.splits)
qed

lemma stop_step_work:
  assumes "stop_step e s = Some t" "quiet_step e"
  shows "work_left t < work_left s"
proof -
  obtain f where "nt_threads t = map f (nt_threads s)" "\<forall>w. wk_point (f w) = wk_point w" using stop_step_frame(6)[OF assms(1)] by blast
  then have "workers_left (nt_threads t) = workers_left (nt_threads s)" by (simp add: workers_left_def o_def)
  moreover have "stop_left t < stop_left s"
    using assms by (cases e; cases "nt_stop s") (auto simp: stop_step_def stop_left_def split: list.splits if_splits)
  ultimately show ?thesis using stop_step_frame(1)[OF assms(1)] by (simp add: work_left_def)
qed

lemma serve_step_work:
  assumes "serve_step e s = Some t" "nt_stopping s"
  shows "work_left t < work_left s"
  using assms by (cases e) (auto simp: serve_steps work_left_def stop_left_def split: if_splits serve_point.splits stop_point.splits)

text \<open>The flag stays set, and then the listener is closed, or someone is about to close it.\<close>

definition stopping_inv :: "node_threads \<Rightarrow> bool" where
  "stopping_inv s \<longleftrightarrow> (nt_stop s \<noteq> Idle \<longrightarrow> nt_stopping s) \<and>
     (nt_stopping s \<longrightarrow> \<not> nt_listener_open s \<or> nt_stop s = Closing \<or> (\<exists>i. at_point i Shutting s))"

definition indices_inv :: "node_threads \<Rightarrow> bool" where
  "indices_inv s \<longleftrightarrow> (\<forall>i \<in> set (nt_workers s) \<union> joining s. i < length (nt_threads s))"

lemma at_point_moved: "at_point i p s \<Longrightarrow> nt_threads t = nt_threads (moved i q s) \<Longrightarrow>
    at_point k r t \<longleftrightarrow> (if k = i then r = q else at_point k r s)"
  by (auto simp: at_point_def)

lemma at_point_same:
  "length (nt_threads t) = length (nt_threads s) \<Longrightarrow> (\<And>i. i < length (nt_threads s) \<Longrightarrow> wk_point (nt_threads t ! i) = wk_point (nt_threads s ! i)) \<Longrightarrow>
    at_point k r t \<longleftrightarrow> at_point k r s"
  by (auto simp: at_point_def)

lemma stopping_stays:
  assumes "thread_step s e = Some t" "nt_stopping s"
  shows "nt_stopping t"
  using assms(1)
proof (cases rule: thread_step_cases)
  case stop
  then show ?thesis using assms(2)
    by (cases e; cases "nt_stop s") (auto simp: stop_step_def begin_stop_def split: list.splits if_splits)
qed (use assms(2) in \<open>auto simp: serve_step_frame elim: worker_step_cases\<close>)

lemma serve_step_at_point:
  assumes "serve_step e s = Some t" "at_point i p s"
  shows "at_point i p t"
  using assms by (cases e) (auto simp: serve_steps at_point_def nth_append split: if_splits serve_point.splits)

lemma stopping_step:
  assumes "stopping_inv s" "thread_step s e = Some t"
  shows "stopping_inv t"
  using assms(2)
proof (cases rule: thread_step_cases)
  case serve
  then show ?thesis using assms(1) serve_step_frame[OF serve] serve_step_at_point[OF serve] by (auto simp: stopping_inv_def)
next
  case worker
  then show ?thesis
  proof (rule worker_step_cases)
    fix i p q
    assume w: "at_point i p s" "next_point p q" "nt_threads t = nt_threads (moved i q s)" "nt_stop t = nt_stop s"
      "nt_stopping t = (nt_stopping s \<or> q = Shutting)" "nt_listener_open t = (nt_listener_open s \<and> p \<noteq> Shutting)"
    have "at_point k Shutting t" if "at_point k Shutting s" "p \<noteq> Shutting" for k
      using that at_point_moved[OF w(1,3), of k Shutting] w(1) by (auto simp: at_point_def)
    moreover have "at_point i Shutting t" if "q = Shutting" using that at_point_moved[OF w(1,3), of i Shutting] by simp
    ultimately show ?thesis using assms(1) w(4-6) by (auto simp: stopping_inv_def)
  qed
next
  case stop
  have "at_point k Shutting t = at_point k Shutting s" for k using stop_step_threads(1,4)[OF stop] by (intro at_point_same) auto
  then show ?thesis using assms(1) stop
    by (cases e; cases "nt_stop s") (auto simp: stop_step_def begin_stop_def stopping_inv_def split: list.splits if_splits)
qed

lemma threads_grow:
  assumes "thread_step s e = Some t"
  shows "length (nt_threads s) \<le> length (nt_threads t)"
  using assms
proof (cases rule: thread_step_cases)
  case serve
  then show ?thesis by (cases e) (auto simp: serve_steps split: if_splits serve_point.splits)
next
  case worker
  then show ?thesis by (auto elim: worker_step_cases)
next
  case stop
  then show ?thesis by (simp add: stop_step_threads)
qed

lemma indices_from:
  assumes "thread_step s e = Some t" "i \<in> set (nt_workers t) \<union> joining t"
  shows "i \<in> set (nt_workers s) \<union> joining s \<or> nt_serve s = Registering i"
  using assms(1)
proof (cases rule: thread_step_cases)
  case serve
  then show ?thesis using assms(2) by (cases e) (auto simp: serve_steps joining_def split: if_splits serve_point.splits)
next
  case worker
  then show ?thesis using assms(2) by (auto simp: joining_def elim!: worker_step_cases)
next
  case stop
  then show ?thesis using assms(2)
    by (cases e; cases "nt_stop s") (auto simp: stop_step_def begin_stop_def joining_def split: list.splits if_splits)
qed

lemma indices_step:
  assumes "indices_inv s" "handles_inv s" "thread_step s e = Some t"
  shows "indices_inv t"
  unfolding indices_inv_def
proof
  fix i assume "i \<in> set (nt_workers t) \<union> joining t"
  with indices_from[OF assms(3)] assms(1,2) have "i < length (nt_threads s)"
    by (auto simp: indices_inv_def handles_inv_def)
  with threads_grow[OF assms(3)] show "i < length (nt_threads t)" by simp
qed

lemma run_stopping:
  assumes "run_threads (initial_threads most owns wakes) es = Some s"
  shows "indices_inv s" "stopping_inv s" "handles_inv s" "nt_close_wakes s = wakes"
proof -
  have wakes: "nt_close_wakes t = nt_close_wakes s" if "thread_step s e = Some t" for s e t
    using that by (elim thread_step_cases)
      (simp_all add: serve_step_frame, (cases e; cases "nt_stop s"; auto simp: worker_step_def stop_step_def begin_stop_def split: list.splits if_splits)+)
  have "indices_inv s \<and> handles_inv s \<and> stopping_inv s \<and> nt_close_wakes s = wakes"
  proof (rule run_invariant[where I = "\<lambda>s. indices_inv s \<and> handles_inv s \<and> stopping_inv s \<and> nt_close_wakes s = wakes", OF _ _ assms])
    show "indices_inv (initial_threads most owns wakes) \<and> handles_inv (initial_threads most owns wakes) \<and>
      stopping_inv (initial_threads most owns wakes) \<and> nt_close_wakes (initial_threads most owns wakes) = wakes"
      by (simp add: initial_threads_def indices_inv_def handles_inv_def stopping_inv_def joining_def holders_def)
  qed (metis indices_step handles_step stopping_step wakes)
  then show "indices_inv s" "stopping_inv s" "handles_inv s" "nt_close_wakes s = wakes" by simp_all
qed

text \<open>After \<^verbatim>\<open>stop\<close> has copied the sockets, with no connection in the hands of the accept loop and none
  coming: every open socket was shut down or is about to be.\<close>

definition to_wake :: "node_threads \<Rightarrow> socket_handle set" where
  "to_wake s = (case nt_stop s of Waking hs \<Rightarrow> set hs | _ \<Rightarrow> {})"

definition draining_inv :: "node_threads \<Rightarrow> bool" where
  "draining_inv s \<longleftrightarrow> nt_stopping s \<and> nt_stop s \<notin> {Idle, Closing, Stopping} \<and> (\<forall>i. nt_serve s \<noteq> Registering i) \<and>
     (\<forall>w \<in> set (nt_threads s). socket_open w \<longrightarrow> wk_woken w \<or> wk_handle w \<in> to_wake s)"

lemma copied_drains:
  assumes "handles_inv s" "stopping_inv s" "\<forall>i. nt_serve s \<noteq> Registering i" "thread_step s Stop_copy = Some t"
  shows "draining_inv t"
proof -
  have t: "t = s\<lparr>nt_stop := Waking (nt_live_sockets s)\<rparr>" "nt_stop s = Stopping"
    using assms(4) by (auto simp: thread_steps split: stop_point.splits)
  have "wk_handle w \<in> set (nt_live_sockets s)" if "w \<in> set (nt_threads s)" "socket_open w" for w
  proof -
    have "w \<in> set (filter (holds (wk_handle w)) (nt_threads s))" using that by (auto simp: holds_def socket_open_def)
    then have "0 < holders (wk_handle w) s" by (auto simp: holders_def simp del: set_filter dest: length_pos_if_in_set)
    moreover have "registering (wk_handle w) s = 0" using assms(3) by (auto simp: registering_def split: serve_point.splits)
    ultimately have "0 < count_list (nt_live_sockets s) (wk_handle w)"
      using assms(1)[unfolded handles_inv_def, THEN conjunct2, rule_format, of "wk_handle w"] by linarith
    then show ?thesis by (auto intro: ccontr)
  qed
  then show ?thesis using assms(2,3) t by (simp add: draining_inv_def to_wake_def stopping_inv_def)
qed

lemma draining_step:
  assumes "draining_inv s" "thread_step s e = Some t" "quiet_step e"
  shows "draining_inv t"
  using assms(2)
proof (cases rule: thread_step_cases)
  case serve
  then show ?thesis using assms(1,3) serve_step_frame[OF serve]
    by (cases e) (auto simp: serve_steps draining_inv_def to_wake_def split: if_splits serve_point.splits)
next
  case worker
  then show ?thesis
  proof (rule worker_step_cases)
    fix i p q
    assume w: "at_point i p s" "next_point p q" "nt_threads t = nt_threads (moved i q s)" "nt_stop t = nt_stop s"
      "nt_stopping t = (nt_stopping s \<or> q = Shutting)" "nt_serve t = nt_serve s" "p = Serving \<and> q = Shutting \<Longrightarrow> e = Remote_shutdown i"
    have wi: "nt_threads s ! i \<in> set (nt_threads s)" using w(1) by (simp add: at_point_def)
    have "v \<in> set (nt_threads s) \<or> (v = (nt_threads s ! i)\<lparr>wk_point := q\<rparr>)" if "v \<in> set (nt_threads t)" for v
      using that w(3) by (auto simp: moved_def dest: set_update_subset_insert[THEN subsetD])
    moreover have "socket_open (nt_threads s ! i)" if "q \<in> {Serving, Shutting}"
      using that w(1,2) by (auto simp: socket_open_def at_point_def next_point_def)
    ultimately show ?thesis
      using assms(1) w(4-6) wi by (fastforce simp: draining_inv_def to_wake_def socket_open_def)
  qed
next
  case stop
  then show ?thesis using assms(1,3)
    by (cases e; cases "nt_stop s")
      (auto simp: stop_step_def draining_inv_def to_wake_def wake_def socket_open_def split: list.splits if_splits)
qed

lemma draining_run:
  assumes "draining_inv s" "run_threads s es = Some t" "list_all quiet_step es"
  shows "draining_inv t \<and> length es + work_left t \<le> work_left s"
  using assms
proof (induction es arbitrary: s)
  case (Cons e es)
  then obtain u where u: "thread_step s e = Some u" "run_threads u es = Some t" by (auto split: option.splits)
  have "nt_stopping s" using Cons.prems(1) by (simp add: draining_inv_def)
  from u(1) have "work_left u < work_left s"
    by (cases rule: thread_step_cases) (use Cons.prems \<open>nt_stopping s\<close> in \<open>auto intro: serve_step_work worker_step_work stop_step_work\<close>)
  moreover have "draining_inv t \<and> length es + work_left t \<le> work_left u"
    using Cons.IH[OF draining_step[OF Cons.prems(1) u(1)] u(2)] Cons.prems(3) by simp
  ultimately show ?case by simp
qed simp

lemma stuckD: "stuck s \<Longrightarrow> own_step e \<Longrightarrow> thread_step s e = None"
  by (simp add: stuck_def)

lemma stuck_serve:
  assumes "stuck s" "stopping_inv s" "nt_stopping s" "nt_close_wakes s" "\<forall>i. nt_serve s \<noteq> Registering i"
  shows "has_returned s"
proof -
  have "\<not> at_point i Shutting s" for i using stuckD[OF assms(1), of "Remote_close i"] by (auto simp: thread_steps)
  moreover have "nt_stop s \<noteq> Closing" using stuckD[OF assms(1), of Stop_listener] by (auto simp: thread_steps)
  ultimately have "\<not> nt_listener_open s" using assms(2,3) by (auto simp: stopping_inv_def)
  then show ?thesis
    using assms(4,5) stuckD[OF assms(1), of Check_stopping] stuckD[OF assms(1), of Enter_accept] stuckD[OF assms(1), of "Accept_fails []"]
    by (auto simp: thread_steps has_returned_def split: serve_point.splits)
qed

lemma stuck_draining:
  assumes "stuck s" "draining_inv s" "stopping_inv s" "indices_inv s" "nt_close_wakes s"
  shows "nt_stop s = Closed" "has_returned s" "w \<in> set (nt_threads s) \<Longrightarrow> wk_point w = Ended"
proof -
  note d = assms(2)[unfolded draining_inv_def]
  show home: "has_returned s" using stuck_serve[OF assms(1,3)] assms(5) d by blast
  have waking: "nt_stop s \<noteq> Waking hs" for hs
    using stuckD[OF assms(1), of Stop_wake] stuckD[OF assms(1), of Stop_take] by (cases hs) (auto simp: thread_steps)
  have free: "mutex_free s" using stuckD[OF assms(1), of Stop_close] home by (auto simp: thread_steps mutex_free_def)
  have ended: "at_point i Ended s" if i: "i < length (nt_threads s)" for i
  proof -
    have "socket_open (nt_threads s ! i) \<Longrightarrow> wk_woken (nt_threads s ! i)"
      using d i waking nth_mem[OF i] by (auto simp: to_wake_def split: stop_point.splits)
    then show ?thesis
      using i free stuckD[OF assms(1), of "Finish i"] stuckD[OF assms(1), of "Remote_close i"] stuckD[OF assms(1), of "Erase i"]
        stuckD[OF assms(1), of "Leave i"]
      by (cases "wk_point (nt_threads s ! i)") (auto simp: thread_steps at_point_def socket_open_def)
  qed
  then show "w \<in> set (nt_threads s) \<Longrightarrow> wk_point w = Ended" by (auto simp: in_set_conv_nth at_point_def)
  have "nt_stop s \<noteq> Joining js" for js
    using ended assms(4) stuckD[OF assms(1), of Stop_join] stuckD[OF assms(1), of Stop_lock]
    by (cases js) (auto simp: thread_steps indices_inv_def joining_def)
  then show "nt_stop s = Closed" using d free waking by (cases "nt_stop s") (auto simp: mutex_free_def)
qed

section \<open>A deadlock\<close>

text \<open>\<^verbatim>\<open>stop\<close> joins the accept thread with the mutex in its hands, and the accept thread needs the mutex
  to register the connection it has just accepted.\<close>

definition deadlocked :: "nat \<Rightarrow> node_threads \<Rightarrow> bool" where
  "deadlocked i s \<longleftrightarrow> nt_stop s = Holding \<and> nt_owns_serve_thread s \<and> nt_serve s = Registering i"

lemma deadlock_stays:
  assumes "deadlocked i s" "run_threads s es = Some t"
  shows "deadlocked i t" "at_point k Erasing s \<Longrightarrow> at_point k Erasing t"
proof -
  have step: "deadlocked i v \<and> (at_point k Erasing u \<longrightarrow> at_point k Erasing v)" if u: "deadlocked i u" and step: "thread_step u e = Some v" for u e v
    using step
  proof (cases rule: thread_step_cases)
    case serve
    then show ?thesis using u by (cases e) (auto simp: serve_steps deadlocked_def mutex_free_def split: if_splits)
  next
    case worker
    then show ?thesis using u
      by (cases e) (auto simp: worker_step_def deadlocked_def mutex_free_def at_point_def split: if_splits)
  next
    case stop
    then show ?thesis using u by (cases e) (auto simp: stop_step_def deadlocked_def has_returned_def)
  qed
  have "deadlocked i t \<and> (at_point k Erasing s \<longrightarrow> at_point k Erasing t)"
    by (rule run_invariant[where I = "\<lambda>v. deadlocked i v \<and> (at_point k Erasing s \<longrightarrow> at_point k Erasing v)", OF _ _ assms(2)])
      (use step assms(1) in blast)+
  then show "deadlocked i t" "at_point k Erasing s \<Longrightarrow> at_point k Erasing t" by simp_all
qed

section \<open>Races\<close>

text \<open>A worker that ends before its connection is registered leaves its closed handle behind: \<^verbatim>\<open>stop\<close>
  will shut down whatever the system has given that handle to.\<close>

lemma closed_handle_left_behind:
  "map_option (\<lambda>s. (nt_live_sockets s, running s))
     (run_threads (initial_threads 64 True True) [Check_stopping, Enter_accept, Accept 5, Hang_up 0, Erase 0, Leave 0, Register]) =
   Some ([5], 0)"
  by (simp add: thread_steps initial_threads_def open_handles_def at_point_def moved_def running_def mutex_free_def)

text \<open>A connection that is accepted when \<^verbatim>\<open>stop\<close> begins and registered after it took the workers is
  neither woken nor joined: \<^verbatim>\<open>stop\<close> returns while its worker serves.\<close>

lemma stop_misses_a_worker:
  "map_option (\<lambda>s. (nt_stop s, nt_threads s, nt_workers s))
     (run_threads (initial_threads 64 True True)
        [Check_stopping, Enter_accept, Accept 5, Stop_begin, Stop_listener, Stop_copy, Stop_take, Register, Check_stopping,
         Stop_lock, Stop_close]) =
   Some (Closed, [\<lparr>wk_handle = 5, wk_point = Serving, wk_woken = False\<rparr>], [0])"
  by (simp add: thread_steps initial_threads_def open_handles_def has_returned_def mutex_free_def)

text \<open>Registered after \<^verbatim>\<open>stop\<close> copied the sockets and before it took the workers, it is joined and was
  never woken: no thread of the node can go on until the peer does something.\<close>

definition late_registration :: "thread_event list" where
  "late_registration = [Check_stopping, Enter_accept, Accept 5, Stop_begin, Stop_listener, Stop_copy, Register, Stop_take, Check_stopping]"

lemma stop_waits_for_the_peer:
  "\<exists>s. run_threads (initial_threads 64 True True) late_registration = Some s \<and> nt_stop s = Joining [0] \<and> stuck s"
proof -
  define s where "s = (initial_threads 64 True True)\<lparr>nt_stopping := True, nt_listener_open := False, nt_connections_accepted := 1,
    nt_active_connections := 1, nt_live_sockets := [5], nt_serve := Returned (Inr ()), nt_stop := Joining [0],
    nt_threads := [\<lparr>wk_handle = 5, wk_point = Serving, wk_woken = False\<rparr>]\<rparr>"
  have "run_threads (initial_threads 64 True True) late_registration = Some s"
    by (simp add: late_registration_def thread_steps initial_threads_def open_handles_def mutex_free_def s_def)
  moreover have "thread_step s e = None" if "own_step e" for e
    using that by (cases e) (auto simp: thread_steps s_def initial_threads_def at_point_def)
  ultimately show ?thesis by (auto simp: stuck_def s_def)
qed

section \<open>Sample runs\<close>

text \<open>A node that serves one connection at a time refuses the second; a node is shut down while it
  serves one; and one is shut down as a connection arrives.\<close>

definition overload :: "thread_event list" where
  "overload = [Check_stopping, Enter_accept, Accept 5, Register, Check_stopping, Enter_accept, Accept 6]"

definition busy :: node_threads where
  "busy = (initial_threads 1 True True)\<lparr>nt_connections_accepted := 1, nt_active_connections := 1, nt_workers := [0],
     nt_live_sockets := [5], nt_threads := [\<lparr>wk_handle = 5, wk_point = Serving, wk_woken = False\<rparr>]\<rparr>"

definition until_closed :: "thread_event list" where
  "until_closed = [Check_stopping, Enter_accept, Accept 5, Register, Check_stopping, Enter_accept, Stop_begin, Stop_listener]"

definition closed_node :: node_threads where
  "closed_node = busy\<lparr>nt_stopping := True, nt_listener_open := False, nt_serve := Blocked, nt_stop := Stopping\<rparr>"

definition copied :: node_threads where "copied = closed_node\<lparr>nt_stop := Waking [5]\<rparr>"

definition until_woken :: "thread_event list" where
  "until_woken = until_closed @ [Accept_fails ''closed'', Stop_copy, Stop_wake]"

definition drain :: "thread_event list" where
  "drain = [Finish 0, Erase 0, Leave 0, Stop_join, Stop_lock, Stop_close]"

definition woken :: node_threads where
  "woken = busy\<lparr>nt_stopping := True, nt_listener_open := False, nt_serve := Returned (Inr ()), nt_stop := Waking [],
     nt_threads := [\<lparr>wk_handle = 5, wk_point = Serving, wk_woken = True\<rparr>]\<rparr>"

definition drained :: node_threads where
  "drained = woken\<lparr>nt_active_connections := 0, nt_workers := [], nt_live_sockets := [], nt_owns_serve_thread := False,
     nt_stop := Closed, nt_threads := [\<lparr>wk_handle = 5, wk_point = Ended, wk_woken = True\<rparr>]\<rparr>"

definition arriving :: "thread_event list" where
  "arriving = [Check_stopping, Enter_accept, Accept 5, Stop_begin, Stop_listener, Stop_copy, Stop_take, Stop_lock]"

definition gripped :: node_threads where
  "gripped = (initial_threads 64 True True)\<lparr>nt_stopping := True, nt_listener_open := False, nt_connections_accepted := 1,
     nt_active_connections := 1, nt_serve := Registering 0, nt_stop := Holding,
     nt_threads := [\<lparr>wk_handle = 5, wk_point = Serving, wk_woken = False\<rparr>]\<rparr>"

lemmas sample_thread_defs = thread_steps overload_def busy_def until_closed_def closed_node_def copied_def until_woken_def drain_def
  woken_def drained_def arriving_def gripped_def initial_threads_def open_handles_def at_point_def moved_def has_returned_def wake_def
  socket_open_def mutex_free_def

lemma sample_thread_runs:
  "run_threads (initial_threads 1 True True) overload = Some busy"
  "run_threads (initial_threads 1 True True) until_woken = Some woken"
  "thread_step woken Stop_take = Some (woken\<lparr>nt_stop := Joining [0], nt_workers := []\<rparr>)"
  "run_threads (woken\<lparr>nt_stop := Joining [0], nt_workers := []\<rparr>) drain = Some drained"
  "run_threads (initial_threads 1 True True) until_closed = Some closed_node"
  "thread_step closed_node Stop_copy = Some copied"
  "run_threads copied (Accept_fails ''closed'' # Stop_wake # Stop_take # drain) = Some drained"
  "run_threads (initial_threads 64 True True) arriving = Some gripped"
  by (simp_all add: sample_thread_defs)

section \<open>Properties\<close>

text \<open>C21: However the accept loop, the workers and \<^verbatim>\<open>stop\<close> interleave, the counter of active
  connections is the number of workers that have not ended and never exceeds the configured
  maximum, the counter of accepted connections counts the workers ever started, and the socket of
  every worker that serves is in the list \<^verbatim>\<open>stop\<close> wakes, or about to be put there.\<close>

theorem connections_bounded_and_known:
  assumes "most < 2 ^ 32" "run_threads (initial_threads most owns wakes) es = Some s"
  shows "unat (nt_active_connections s) = running s \<and> running s \<le> most \<and>
    nt_connections_accepted s = of_nat (length (nt_threads s)) \<and>
    (\<forall>w \<in> set (nt_threads s). wk_point w = Serving \<longrightarrow>
       wk_handle w \<in> set (nt_live_sockets s) \<or> (\<exists>i. nt_serve s = Registering i \<and> wk_handle (nt_threads s ! i) = wk_handle w))"
proof -
  note inv = run_bookkeeping[OF assms]
  have "wk_handle w \<in> set (nt_live_sockets s) \<or> (\<exists>i. nt_serve s = Registering i \<and> wk_handle (nt_threads s ! i) = wk_handle w)"
    if "w \<in> set (nt_threads s)" "wk_point w = Serving" for w
  proof -
    have "w \<in> set (filter (holds (wk_handle w)) (nt_threads s))" using that by (simp add: holds_def)
    then have "0 < holders (wk_handle w) s" by (auto simp: holders_def simp del: set_filter dest: length_pos_if_in_set)
    then have "0 < count_list (nt_live_sockets s) (wk_handle w) + registering (wk_handle w) s"
      using inv(2)[unfolded handles_inv_def, THEN conjunct2, rule_format, of "wk_handle w"] by linarith
    then show ?thesis by (auto simp: registering_def split: serve_point.splits if_splits intro: ccontr)
  qed
  then show ?thesis using inv(1) limit_fixed[OF assms(2)] by (auto simp: counters_inv_def initial_threads_def)
qed

theorem connections_bounded_and_known_witness:
  "run_threads (initial_threads 1 True True) overload = Some busy \<and> running busy \<le> 1 \<and> 5 \<in> set (nt_live_sockets busy)"
  using connections_bounded_and_known[OF _ sample_thread_runs(1)] sample_thread_runs(1)
  by (auto simp: busy_def initial_threads_def)

text \<open>C22: Shutting down drains the node. When the accept loop has returned before \<^verbatim>\<open>stop\<close> takes the
  workers, then once \<^verbatim>\<open>stop\<close> returns every worker that was ever started has ended and no
  connection is active, whatever ran in between.\<close>

theorem stop_drains_the_node:
  assumes "most < 2 ^ 32" "run_threads (initial_threads most owns wakes) es = Some s" "has_returned s"
    and "thread_step s Stop_take = Some taken" "run_threads taken es' = Some t" "nt_stop t = Closed"
  shows "(\<forall>w \<in> set (nt_threads t). wk_point w = Ended) \<and> nt_active_connections t = 0"
proof -
  have run: "run_threads (initial_threads most owns wakes) (es @ Stop_take # es') = Some t"
    using assms(2,4,5) by (simp add: run_threads_append)
  have "has_returned taken \<and> nt_workers taken = []"
    using assms(3,4) by (auto simp: thread_steps has_returned_def split: stop_point.splits list.splits)
  from returned_stays[OF this assms(5)] have "wk_point (nt_threads t ! i) = Ended" if "i < length (nt_threads t)" for i
    using that run_bookkeeping(3)[OF assms(1) run] assms(6)
    by (auto simp: joinable_inv_def has_returned_def joining_def split: serve_point.splits)
  then have "\<forall>w \<in> set (nt_threads t). wk_point w = Ended" by (auto simp: in_set_conv_nth)
  moreover from nothing_runs[OF this] have "unat (nt_active_connections t) = 0"
    using run_bookkeeping(1)[OF assms(1) run] by (simp add: counters_inv_def)
  ultimately show ?thesis by (simp add: unat_eq_0)
qed

theorem stop_drains_the_node_witness:
  "nt_threads drained = [\<lparr>wk_handle = 5, wk_point = Ended, wk_woken = True\<rparr>] \<and> nt_active_connections drained = 0"
  using stop_drains_the_node[OF _ sample_thread_runs(2) _ sample_thread_runs(3,4)]
  by (simp add: drained_def woken_def has_returned_def)

text \<open>C23: Shutting down ends. On a system that ends a blocked \<^verbatim>\<open>accept\<close> when its listener is closed, take any
  state in which \<^verbatim>\<open>stop\<close> copies the sockets and the accept loop has no connection in hand, and let no
  further connection, remote request or call of \<^verbatim>\<open>stop\<close> come. Then the threads take at most a number of
  further steps fixed by that state, in whatever order they are scheduled; and when none of them can
  go on by itself, that is without its peer doing something, \<^verbatim>\<open>stop\<close> has returned, so has the accept
  loop, and every worker has ended: each was woken, joined, and held up by nobody.\<close>

theorem stop_terminates:
  assumes "run_threads (initial_threads most owns True) es = Some s" "\<forall>i. nt_serve s \<noteq> Registering i"
    and "thread_step s Stop_copy = Some s'" "run_threads s' es' = Some t" "list_all quiet_step es'"
  shows "length es' \<le> work_left s' \<and>
    (stuck t \<longrightarrow> nt_stop t = Closed \<and> has_returned t \<and> (\<forall>w \<in> set (nt_threads t). wk_point w = Ended))"
proof -
  have run: "run_threads (initial_threads most owns True) (es @ Stop_copy # es') = Some t"
    using assms(1,3,4) by (simp add: run_threads_append)
  note inv = run_stopping[OF run]
  have "draining_inv s'" using copied_drains[OF run_stopping(3,2)[OF assms(1)] assms(2,3)] .
  from draining_run[OF this assms(4,5)] show ?thesis using stuck_draining[of t] inv by auto
qed

theorem stop_terminates_witness:
  "run_threads (initial_threads 1 True True) until_closed = Some closed_node \<and> thread_step closed_node Stop_copy = Some copied \<and>
   run_threads copied (Accept_fails ''closed'' # Stop_wake # Stop_take # drain) = Some drained \<and>
   length (Accept_fails ''closed'' # Stop_wake # Stop_take # drain) \<le> work_left copied \<and>
   stuck drained \<and> nt_stop drained = Closed \<and> has_returned drained \<and> list_all (\<lambda>w. wk_point w = Ended) (nt_threads drained)"
proof -
  have stuck: "stuck drained"
    unfolding stuck_def
  proof (intro allI impI)
    fix e show "own_step e \<Longrightarrow> thread_step drained e = None"
      by (cases e) (auto simp: drained_def woken_def thread_steps at_point_def)
  qed
  have "\<forall>i. nt_serve closed_node \<noteq> Registering i" by (simp add: closed_node_def)
  from stop_terminates[OF sample_thread_runs(5) this sample_thread_runs(6,7)] stuck sample_thread_runs(5-7)
  show ?thesis by (simp add: drain_def list_all_iff)
qed

text \<open>C24: A connection that arrives as the node stops can deadlock it. When \<^verbatim>\<open>stop\<close> is about to join the accept
  thread, for which it holds the mutex, and that thread is about to register a connection, for which
  it needs the mutex, then whatever happens from there on, neither goes on: \<^verbatim>\<open>stop\<close> never returns, the
  accept loop never returns, and a worker on its way out never erases its handle.\<close>

theorem stop_deadlocks:
  assumes "nt_stop s = Holding" "nt_owns_serve_thread s" "nt_serve s = Registering i" "run_threads s es = Some t"
  shows "nt_stop t = Holding \<and> nt_serve t = Registering i \<and> (\<forall>k. at_point k Erasing s \<longrightarrow> at_point k Erasing t)"
proof -
  have "deadlocked i s" using assms(1-3) by (simp add: deadlocked_def)
  from deadlock_stays[OF this assms(4)] show ?thesis by (auto simp: deadlocked_def)
qed

theorem stop_deadlocks_witness:
  "run_threads (initial_threads 64 True True) arriving = Some gripped \<and>
   (\<exists>t. run_threads gripped [Hang_up 0] = Some t \<and> nt_stop t = Holding \<and> nt_serve t = Registering 0 \<and> at_point 0 Erasing t \<and>
     thread_step t Register = None \<and> thread_step t Stop_close = None \<and> thread_step t (Erase 0) = None)"
proof -
  define t where "t = gripped\<lparr>nt_threads := [\<lparr>wk_handle = 5, wk_point = Erasing, wk_woken = False\<rparr>]\<rparr>"
  have g: "run_threads gripped [Hang_up 0] = Some t" by (simp add: t_def sample_thread_defs)
  have "nt_stop gripped = Holding" "nt_owns_serve_thread gripped" "nt_serve gripped = Registering 0"
    by (simp_all add: gripped_def initial_threads_def)
  note held = stop_deadlocks[OF this g]
  have "at_point 0 Erasing t" "nt_owns_serve_thread t" by (simp_all add: t_def gripped_def initial_threads_def at_point_def)
  then show ?thesis using sample_thread_runs(8) g held by (simp add: thread_steps mutex_free_def has_returned_def)
qed

end
