(* ===== verification/PfNode.thy ===== *)
theory PfNode
  imports Pfctl Node Acceptor
begin

text \<open>
  \<^verbatim>\<open>tools/pf_node.cpp\<close>: the process that owns a state directory and serves it. The model has the
  parsing of the arguments, the options they become, the start up to the listening line, and what
  the process prints and returns once the accept loop has come back. What happens in between is
  \<open>Node\<close> and \<open>Acceptor\<close>. The timer of \<^verbatim>\<open>--run-for-ms\<close> is one of the threads that call \<^verbatim>\<open>stop\<close>; when it does so
  is part of the interleaving.
\<close>

section \<open>Arguments\<close>

record node_arguments =
  na_state :: string
  na_bind :: string
  na_port :: u16
  na_ready_file :: string
  na_run_for_ms :: u64
  na_max_connections :: u32
  na_idle_timeout_ms :: u32
  na_quiet :: bool
  na_fence_on_disconnect :: bool
  na_allow_remote_shutdown :: bool
  na_allow_non_loopback :: bool
  na_advance_epoch_on_open :: bool
  na_valid :: bool

definition node_arguments_default :: node_arguments where
  "node_arguments_default = \<lparr>na_state = [], na_bind = ''127.0.0.1'', na_port = 0, na_ready_file = [], na_run_for_ms = 0,
     na_max_connections = 64, na_idle_timeout_ms = 0, na_quiet = False, na_fence_on_disconnect = False,
     na_allow_remote_shutdown = True, na_allow_non_loopback = False, na_advance_epoch_on_open = True, na_valid = False\<rparr>"

definition pf_node_usage :: string where
  "pf_node_usage = cat [
     ''usage: pf_node --state DIR [options]'', newline,
     newline,
     ''  --state DIR              state directory (required)'', newline,
     ''  --bind ADDRESS           address to bind (default 127.0.0.1)'', newline,
     ''  --port N                 port, 0 lets the operating system choose (default 0)'', newline,
     ''  --ready-file PATH        write the resolved port and node identity here'', newline,
     ''  --run-for-ms N           stop after N milliseconds (0 = run until stopped)'', newline,
     ''  --max-connections N      concurrent connection ceiling (default 64)'', newline,
     ''  --idle-timeout-ms N      socket deadline for an idle connection (0 = none)'', newline,
     ''  --fence-on-disconnect    advance the epoch when a publisher'', [CHR 0x27], ''s socket closes'', newline,
     ''  --no-remote-shutdown     refuse the Shutdown operation'', newline,
     ''  --allow-non-loopback     permit binding a routable address'', newline,
     ''  --no-epoch-advance       do not advance the epoch when taking the store over'', newline,
     ''  --quiet                  only report the listening endpoint'', newline,
     ''  --version                print the version and exit'', newline,
     ''  --help                   print this text and exit'', newline]"

definition node_value :: "string \<Rightarrow> (string \<Rightarrow> node_arguments \<Rightarrow> node_arguments) option" where
  "node_value flag =
     (if flag = ''--state'' then Some (\<lambda>v a. a\<lparr>na_state := v\<rparr>)
      else if flag = ''--bind'' then Some (\<lambda>v a. a\<lparr>na_bind := v\<rparr>)
      else if flag = ''--ready-file'' then Some (\<lambda>v a. a\<lparr>na_ready_file := v\<rparr>)
      else if flag = ''--port'' then Some (\<lambda>v a. a\<lparr>na_port := ucast (strtoull v)\<rparr>)
      else if flag = ''--run-for-ms'' then Some (\<lambda>v a. a\<lparr>na_run_for_ms := strtoull v\<rparr>)
      else if flag = ''--max-connections'' then Some (\<lambda>v a. a\<lparr>na_max_connections := ucast (strtoull v)\<rparr>)
      else if flag = ''--idle-timeout-ms'' then Some (\<lambda>v a. a\<lparr>na_idle_timeout_ms := ucast (strtoull v)\<rparr>)
      else None)"

definition node_switch :: "string \<Rightarrow> (node_arguments \<Rightarrow> node_arguments) option" where
  "node_switch flag =
     (if flag = ''--fence-on-disconnect'' then Some (\<lambda>a. a\<lparr>na_fence_on_disconnect := True\<rparr>)
      else if flag = ''--no-remote-shutdown'' then Some (\<lambda>a. a\<lparr>na_allow_remote_shutdown := False\<rparr>)
      else if flag = ''--allow-non-loopback'' then Some (\<lambda>a. a\<lparr>na_allow_non_loopback := True\<rparr>)
      else if flag = ''--no-epoch-advance'' then Some (\<lambda>a. a\<lparr>na_advance_epoch_on_open := False\<rparr>)
      else if flag = ''--quiet'' then Some (\<lambda>a. a\<lparr>na_quiet := True\<rparr>)
      else None)"

definition node_complaint :: "string list \<Rightarrow> tool_result" where
  "node_complaint parts = \<lparr>tl_code = 2, tl_out = [], tl_err = cat (''pf_node: '' # parts @ [newline])\<rparr>"

text \<open>The process ends with a result, or goes on with the arguments.\<close>

fun node_parse :: "string list \<Rightarrow> node_arguments \<Rightarrow> tool_result + node_arguments" where
  "node_parse [] a =
     (if na_state a = [] then Inl (node_complaint [''--state is required'']) else Inr (a\<lparr>na_valid := True\<rparr>))"
| "node_parse (flag # args) a =
     (if flag = ''--help'' \<or> flag = ''-h'' then Inl (tool_ok pf_node_usage)
      else if flag = ''--version'' then Inl (tool_ok (cat [''pf_node '', version_string, newline]))
      else case node_value flag of
        Some update \<Rightarrow>
          (case args of
             [] \<Rightarrow> Inl (node_complaint [flag, '' needs a value''])
           | v # args' \<Rightarrow> node_parse args' (update v a))
      | None \<Rightarrow>
          (case node_switch flag of
             Some update \<Rightarrow> node_parse args (update a)
           | None \<Rightarrow> Inl ((node_complaint [''unknown option '', flag])\<lparr>tl_out := pf_node_usage\<rparr>)))"

section \<open>The process\<close>

definition pf_node_options :: "node_arguments \<Rightarrow> node_options" where
  "pf_node_options a =
     \<lparr>no_bind_address = na_bind a, no_port = na_port a, no_limits = compiled_limits_ceiling, no_create_if_missing = True,
      no_fsync_records = True, no_ready_file = na_ready_file a, no_allow_non_loopback = na_allow_non_loopback a,
      no_fence_on_disconnect = na_fence_on_disconnect a, no_advance_epoch_on_open = na_advance_epoch_on_open a,
      no_allow_remote_shutdown = na_allow_remote_shutdown a, no_max_connections = unat (na_max_connections a)\<rparr>"

definition fresh_node :: fabric_node where
  "fresh_node = \<lparr>nd_options = pf_node_options node_arguments_default, nd_runtime = None, nd_listener = None, nd_id = id_none,
     nd_boot = replicate boot_size 0, nd_stopping = False, nd_listening = False\<rparr>"

definition listening_line :: "node_arguments \<Rightarrow> fabric_node \<Rightarrow> string" where
  "listening_line a node =
     (let address = (case nd_listener node of Some l \<Rightarrow> ls_address l | None \<Rightarrow> []);
          port = (case nd_listener node of Some l \<Rightarrow> ls_port l | None \<Rightarrow> 0) in
      if na_quiet a then cat [address, '' '', u_dec port, '' '', id_str (nd_id node), '' '', boot_hex (nd_boot node), newline]
      else cat [''pf_node: listening on '', address, '':'', u_dec port, '' node='', id_str (nd_id node),
             '' boot='', boot_hex (nd_boot node), '' state='', na_state a, newline])"

definition pf_node_start :: "call_env \<Rightarrow> io_env \<Rightarrow> u64 \<Rightarrow> (listener option) list option \<Rightarrow> socket_error \<Rightarrow> string list \<Rightarrow>
    place \<Rightarrow> disk \<Rightarrow> place \<times> disk \<times> (tool_result + node_arguments \<times> fabric_node \<times> string)" where
  "pf_node_start env ready_env pid resolved last_error args p ready =
     (case node_parse args node_arguments_default of
        Inl result \<Rightarrow> (p, ready, Inl result)
      | Inr a \<Rightarrow>
          (case listen_node (at_directory (na_state a) env) ready_env pid resolved last_error (pf_node_options a) fresh_node p ready of
             (p', ready', node, Inl e) \<Rightarrow>
               (p', ready', Inl \<lparr>tl_code = 1, tl_out = [], tl_err = cat [''pf_node: '', status_to_string e, newline]\<rparr>)
           | (p', ready', node, Inr _) \<Rightarrow> (p', ready', Inr (a, node, listening_line a node))))"

text \<open>The end of the process: the accept loop has returned and \<^verbatim>\<open>stop\<close> is through. \<open>out\<close> is what was printed.\<close>

definition pf_node_end :: "node_arguments \<Rightarrow> string \<Rightarrow> node_threads \<Rightarrow> tool_result option" where
  "pf_node_end a out t =
     (case (nt_serve t, nt_stop t) of
        (Returned served, Closed) \<Rightarrow>
          Some \<lparr>tl_code = (case served of Inr _ \<Rightarrow> 0 | Inl _ \<Rightarrow> 1),
            tl_out = (if na_quiet a then out
              else out @ cat [''pf_node: stopped after serving '', u_dec (nt_connections_accepted t), '' connection(s)'', newline]),
            tl_err = (case served of Inl e \<Rightarrow> if na_quiet a then [] else cat [''pf_node: '', status_to_string e, newline] | Inr _ \<Rightarrow> [])\<rparr>
      | _ \<Rightarrow> None)"

section \<open>What the arguments decide\<close>

lemma node_value_keeps:
  assumes "node_value flag = Some update"
  shows "na_allow_non_loopback (update v a) = na_allow_non_loopback a" "na_advance_epoch_on_open (update v a) = na_advance_epoch_on_open a"
  using assms by (auto simp: node_value_def split: if_splits)

lemma node_switch_sets:
  assumes "node_switch flag = Some update"
  shows "na_allow_non_loopback (update a) \<longleftrightarrow> na_allow_non_loopback a \<or> flag = ''--allow-non-loopback''"
    and "na_advance_epoch_on_open (update a) \<longleftrightarrow> na_advance_epoch_on_open a \<and> flag \<noteq> ''--no-epoch-advance''"
  using assms by (auto simp: node_switch_def split: if_splits)

lemma parsed_permissions:
  "node_parse args a = Inr b \<Longrightarrow> na_allow_non_loopback b \<Longrightarrow> na_allow_non_loopback a \<or> ''--allow-non-loopback'' \<in> set args"
  "node_parse args a = Inr b \<Longrightarrow> \<not> na_advance_epoch_on_open b \<Longrightarrow> \<not> na_advance_epoch_on_open a \<or> ''--no-epoch-advance'' \<in> set args"
  by (induction args a rule: node_parse.induct)
    (auto simp: node_value_keeps node_switch_sets split: if_splits option.splits list.splits)

lemma parsed_state: "node_parse args a = Inr b \<Longrightarrow> na_state b \<noteq> []"
  by (induction args a rule: node_parse.induct) (auto split: if_splits option.splits list.splits)

lemma started_listener:
  assumes "listen_node env ready_env pid resolved last_error opts node0 p ready = (p', ready', node, Inr ())"
  shows "\<exists>l boot rt. listen_on (no_bind_address opts) (no_port opts) (no_allow_non_loopback opts) resolved last_error = Inr l \<and>
    nd_listener node = Some l \<and> nd_runtime node = Some rt \<and> open_runtime env (node_runtime_options opts boot) p = (p', Inr rt)"
  using assms by (auto simp: listen_node_def Let_def split: sum.splits prod.splits if_splits)

text \<open>Every directory gives the node an identity.\<close>

lemma digits_scan: "list_all is_digit_char ds \<Longrightarrow> ds \<noteq> [] \<Longrightarrow> scan_segments i prev ds = Inr False"
proof (induction ds arbitrary: i prev)
  case (Cons c ds)
  have "is_lower_alnum c" using Cons.prems(1) by (simp add: is_digit_char_def is_lower_alnum_def)
  then show ?case using Cons by (cases ds) simp_all
qed simp

lemma node_identity_given: "node_identity dir compiled_limits_ceiling = Inr (BasicId (cat [''pf.node.'', u_dec (fnv1a64 (bytes_of dir))]))"
proof -
  let ?ds = "u_dec (fnv1a64 (bytes_of dir))"
  have "unat (fnv1a64 (bytes_of dir)) < 10 ^ Suc 19" using unsigned_less[of "fnv1a64 (bytes_of dir)", where 'a = nat] by simp
  then have "length ?ds \<le> 20" using length_to_dec[of "unat (fnv1a64 (bytes_of dir))" 19] by simp
  moreover have "canonical_form (''pf.node.'' @ ?ds)"
    using digits_scan[OF decimal_digits_read(1) to_dec_nonempty] by (simp add: canonical_form_scan is_lower_alnum_def is_separator_def)
  ultimately show ?thesis
    by (simp add: node_identity_def id_parse_def cat_def canonicalize_canonical compiled_limits_ceiling_def kMaxRawIdBytes_def rbind_def)
qed

text \<open>A port that does not fit is taken modulo \<open>2 ^ 16\<close>.\<close>

lemma port_wraps:
  assumes "node_parse [''--state'', dir, ''--port'', to_dec n] node_arguments_default = Inr a" "n < 2 ^ 64"
  shows "na_port a = of_nat n"
  using assms decimal_digits_read[of n] to_dec_nonempty[of n]
  by (auto simp: node_value_def strtoull_digits unsigned_of_nat take_bit_nat_eq_self split: if_splits)

end
