(* ===== verification/Takeovers.thy ===== *)
theory Takeovers
  imports Invocations PfNode
begin

text \<open>
  A node that is started again on its directory. With its default options the process advances the
  epoch as its first act, with a mutation that has no publisher. The record of that mutation is
  written and acknowledged, but it cannot be decoded, so the next start finds a journal that stops
  before it: the second restart is degraded, is back at the old epoch and accepts no mutation.
\<close>

section \<open>The first act of a node\<close>

lemma takeover_commit:
  assumes "serving_image opts rt d j" "ro_limits opts' = ro_limits opts" "ro_advance_epoch_on_open opts'"
    and "is_established (im_epoch (rt_image rt))" "calm (ce_io env)" "measurable (locked (store_options_of opts') d)"
    and "open_runtime env opts' (Directory d) = (p', Inr rt')"
  defines "d0 \<equiv> locked (store_options_of opts') d"
  obtains rt0 rt1 v d' where "p' = Directory d'" "rt_image rt0 = expire_grants j" "serving_image opts' rt0 d0 j"
    "reopened d0 ((rt_store rt)\<lparr>ds_options := store_options_of opts'\<rparr>) (rt_store rt0)"
    "runtime_commit env (opening_advance env (expire_grants j)) rt0 d0 = (d', rt1, Inr v)" "rt' = count_recovery rt1"
proof -
  have dir: "ev_directory (ce_io env) \<noteq> []" using assms(7) by (auto simp: open_runtime_def split: if_splits)
  obtain boot where boot: "choose_boot env opts' = Inr boot"
    using assms(7) by (auto simp: open_runtime_def split: if_splits sum.splits)
  obtain report s where o: "open_store (ce_io env) (store_options_of opts') (empty_image compiled_limits_ceiling) report_default (Directory d) =
      (Directory d0, j, report, Inr s)" "ir_health report = Healthy"
      "reopened d0 ((rt_store rt)\<lparr>ds_options := store_options_of opts'\<rparr>) s" "limits_within_compiled_ceiling (ro_limits opts')"
      "serving_image opts' (opened_runtime env opts' boot j s) d0 j"
    using reopen_store[OF assms(1,2,5) dir assms(6)] unfolding d0_def by blast
  define rt0 where "rt0 = opened_runtime env opts' boot j s"
  have "j\<lparr>im_limits := ro_limits opts'\<rparr> = j" using assms(1,2) by (simp add: serving_image_def reachable_same_limits)
  then have image: "rt_image rt0 = expire_grants j" by (simp add: rt0_def)
  have ready: "im_health (rt_image rt0) = Healthy" "is_established (im_epoch (rt_image rt0))"
    using o(5) assms(1,4) agreesD(1)[of j "rt_image rt"] image by (simp_all add: rt0_def serving_image_def expire_grants_def)
  obtain d' rt1 r where c: "runtime_commit env (opening_advance env (rt_image rt0)) rt0 d0 = (d', rt1, r)" by (metis prod_cases3)
  have store: "rt_store rt0 = s" by (simp add: rt0_def)
  have "p' = Directory d' \<and> rt' = count_recovery rt1 \<and> (\<exists>v. r = Inr v)"
    using assms(3,7) o(1,2,4) dir boot c ready
    by (cases r) (auto simp: open_runtime_def Let_def rt0_def[symmetric] simp del: opened_runtime_sel)
  then obtain v where "p' = Directory d'" "rt' = count_recovery rt1" "r = Inr v" by blast
  then show ?thesis using that[of d' rt0 rt1 v] image o(3) o(5)[folded rt0_def] c store by simp
qed

lemma opening_advance_unreadable: "\<exists>e. decode_mutation (encode_mutation (planned img (opening_advance env i))) limits = Inl e"
  by (rule empty_publisher_unreadable) (simp add: planned_def opening_advance_def mutation_default_def)

lemma applied_advance:
  assumes "apply_mutation img m False = (img', Inr ())" "mu_op m = AdvanceEpoch"
  shows "im_epoch img' = im_epoch img + 1"
proof -
  from assms(1) obtain g img1 where "apply_op img m False (mutation_provenance img m g) = Inr img1"
      "img' = (with_audit (im_next_audit_sequence img + 1) (audit_after img m g) img1)\<lparr>im_generation := g\<rparr>"
  proof (cases rule: apply_mutation_cases)
    case (identical g)
    then show ?thesis using admit_ok(2)[OF identical(1)] assms(2) by (simp add: is_idempotent_def)
  qed (use that in auto)
  then show ?thesis using assms(2) by (auto simp: op_defs with_audit_def Let_def epoch_next_def split: if_splits option.splits)
qed

section \<open>The next start\<close>

lemma degraded_replay_opens_degraded:
  assumes "calm (ce_io env)" "read_store_key (ce_io env) d = Inr key" "locked (store_options_of opts) d = d" "fs_exists (ce_io env) d kManifestName"
    and "replay (ce_io env) (store_options_of opts) key d = (d, img, Inr report)" "im_health img = Degraded"
    and "open_runtime env opts (Directory d) = (p', Inr rt)"
  shows "im_health (rt_image rt) = Degraded" "im_epoch (rt_image rt) = im_epoch img"
proof -
  obtain p1 i r q where o: "open_store (ce_io env) (store_options_of opts) (empty_image compiled_limits_ceiling) report_default (Directory d) = (p1, i, r, q)"
    by (metis prod_cases4)
  obtain s where q: "q = Inr s" using assms(7) o by (cases q) (auto simp: open_runtime_def split: if_splits sum.splits)
  have image: "i = img \<and> (\<exists>d1. p1 = Directory d1)"
    using o assms(2-6) unfolding q
    by (auto simp: open_store_def open_directory_def locked_calm[OF assms(1)] resume_store_def Let_def split: if_splits sum.splits prod.splits)
  then have "\<exists>boot. rt = count_recovery (opened_runtime env opts boot img s)"
    using assms(6,7) o unfolding q by (auto simp: open_runtime_def Let_def expire_grants_def split: if_splits sum.splits)
  then show "im_health (rt_image rt) = Degraded" "im_epoch (rt_image rt) = im_epoch img"
    using assms(6) by (auto simp: expire_grants_def)
qed

lemma degraded_commits_nothing:
  assumes "im_health (rt_image rt) = Degraded"
  shows "\<exists>e. runtime_commit env m rt d = (d, rt, Inl e)"
proof -
  have "\<exists>e. plan_commit (rt_store rt) m (rt_image rt) = Inl e" using assms by (simp add: plan_commit_def Let_def)
  then show ?thesis by (auto simp: runtime_commit_def commit_mutation_def Let_def)
qed

lemma degraded_replay_opens:
  assumes "calm (ce_io env)" "read_store_key (ce_io env) d = Inr key" "locked (store_options_of opts) d = d" "fs_exists (ce_io env) d kManifestName"
    and "replay (ce_io env) (store_options_of opts) key d = (d, img, Inr report)" "im_health img = Degraded"
    and "limits_within_compiled_ceiling (ro_limits opts)" "ev_directory (ce_io env) \<noteq> []" "choose_boot env opts = Inr boot"
    and "\<not> ro_fail_on_degraded opts"
  shows "\<exists>d' rt. open_runtime env opts (Directory d) = (Directory d', Inr rt)"
proof -
  have "\<exists>d2 r s. open_store (ce_io env) (store_options_of opts) (empty_image compiled_limits_ceiling) report_default (Directory d) =
      (Directory d2, img, r, Inr s)"
    using assms(1-8)
    by (simp add: open_store_def open_directory_def locked_calm[OF assms(1)] resume_store_def Let_def list_files_def open_segment_def open_append_def)
  then show ?thesis using assms(6-10) by (auto simp: open_runtime_def Let_def expire_grants_def)
qed

text \<open>What an opening that advances the epoch leaves behind.\<close>

definition spoiled :: "store_options \<Rightarrow> disk \<Rightarrow> fabric_epoch \<Rightarrow> bool" where
  "spoiled opts d epoch \<longleftrightarrow>
     (\<forall>env. calm env \<longrightarrow> (\<exists>key img report. read_store_key env d = Inr key \<and> locked opts d = d \<and> fs_exists env d kManifestName \<and>
        replay env opts key d = (d, img, Inr report) \<and> im_health img = Degraded \<and> im_epoch img = epoch))"

lemma unreadable_commit_spoils:
  assumes "store_inv s j d" "calm io" "ds_segment_bytes s < kSegmentRollBytes" "locked (ds_options s) d = d"
    and "commit_mutation io m s img d = (d', s', img', Inr ())"
    and "decode_mutation (encode_mutation (planned img m)) (op_limits (ds_options s)) = Inl e"
  shows "spoiled (ds_options s) d' (im_epoch j)"
  unfolding spoiled_def
proof (intro allI impI)
  fix io2 assume io2: "calm io2"
  obtain mf base ix mss ms where ready: "store_ready s j d" and js: "journal_state s j d mf base ix mss ms"
    using assms(1) by (auto simp: store_inv_def)
  have wf: "om_wf d" "ds_segment_open s" using ready by (simp_all add: store_ready_def)
  obtain us where d': "d' = append_bytes (journal_segment_name (ds_segment_index s)) us d"
    using acknowledged_commit_disk(2)[OF assms(2,3) wf(2) assms(5)] by blast
  have "locked (ds_options s) d' = d'" using locked_append[OF wf(1)] assms(4) by (simp add: d')
  moreover have "fs_exists io2 d' kManifestName"
    using io2 js unfolding d' by (auto simp: journal_state_def manifest_stored_def fs_exists_def om_has_def append_bytes_def split: option.split)
  moreover have "read_store_key io2 d' = Inr (ds_key s)" unfolding d' by (rule stored_key_read[OF io2 ready])
  moreover obtain detail report where "replay io2 (ds_options s) (ds_key s) d' =
      (d', j\<lparr>im_health := Degraded, im_health_detail := detail\<rparr>, Inr report)"
    using unreadable_commit_degrades[OF assms(1,2) io2 assms(3,5,6)] by blast
  ultimately show "\<exists>key img report. read_store_key io2 d' = Inr key \<and> locked (ds_options s) d' = d' \<and> fs_exists io2 d' kManifestName \<and>
      replay io2 (ds_options s) key d' = (d', img, Inr report) \<and> im_health img = Degraded \<and> im_epoch img = im_epoch j" by simp
qed

lemma takeover_spoils:
  assumes "serving_image opts rt d j" "ro_limits opts' = ro_limits opts" "ro_advance_epoch_on_open opts'" "ro_exclusive_lock opts'"
    and "is_established (im_epoch (rt_image rt))" "calm (ce_io env)" "measurable (locked (store_options_of opts') d)"
    and "ds_segment_bytes (rt_store rt) < kSegmentRollBytes"
    and "open_runtime env opts' (Directory d) = (p', Inr rt')"
  shows "im_health (rt_image rt') = Healthy" "im_epoch (rt_image rt') = im_epoch (rt_image rt) + 1"
    and "\<exists>d'. p' = Directory d' \<and> spoiled (store_options_of opts') d' (im_epoch (rt_image rt))"
proof -
  define d0 where "d0 = locked (store_options_of opts') d"
  define m where "m = opening_advance env (expire_grants j)"
  obtain rt0 rt1 v d' where t: "p' = Directory d'" "rt_image rt0 = expire_grants j" "serving_image opts' rt0 d0 j"
      "reopened d0 ((rt_store rt)\<lparr>ds_options := store_options_of opts'\<rparr>) (rt_store rt0)"
      "runtime_commit env m rt0 d0 = (d', rt1, Inr v)" "rt' = count_recovery rt1"
    unfolding d0_def m_def by (rule takeover_commit[OF assms(1-3,5-7,9)])
  note i = t(3)[unfolded serving_image_def]
  obtain s1 img1 where c: "commit_mutation (ce_io env) m (rt_store rt0) (rt_image rt0) d0 = (d', s1, img1, Inr ())"
      "rt1 = rt0\<lparr>rt_store := s1, rt_image := img1\<rparr>" using runtime_commit_ok[OF t(5)] by blast
  obtain a where a: "apply_mutation (rt_image rt0) (planned (rt_image rt0) m) False = (a, Inr ())"
      "img1 = a\<lparr>im_last_sequence := ds_next_sequence (rt_store rt0)\<rparr>" using commit_image[OF c(1)] by blast
  have epoch: "im_epoch j = im_epoch (rt_image rt)" using assms(1) agreesD(1)[of j "rt_image rt"] by (simp add: serving_image_def)
  show "im_health (rt_image rt') = Healthy"
    using same_health.apply_mutation_inv[OF _ a(1)] i a(2) c(2) t(6) by simp
  show "im_epoch (rt_image rt') = im_epoch (rt_image rt) + 1"
    using applied_advance[OF a(1)] a(2) c(2) t(2,6) epoch by (simp add: m_def planned_def opening_advance_def expire_grants_def)
  have st: "store_inv (rt_store rt0) j d0" "ds_segment_bytes (rt_store rt0) < kSegmentRollBytes" "ds_options (rt_store rt0) = store_options_of opts'"
    using t(4) i assms(8) by (simp_all add: reopened_def)
  obtain e where "decode_mutation (encode_mutation (planned (rt_image rt0) m)) (op_limits (ds_options (rt_store rt0))) = Inl e"
    using opening_advance_unreadable unfolding m_def by blast
  moreover have "locked (store_options_of opts') d0 = d0" using assms(4) by (simp add: d0_def locked_def om_has_def)
  ultimately show "\<exists>d'. p' = Directory d' \<and> spoiled (store_options_of opts') d' (im_epoch (rt_image rt))"
    using unreadable_commit_spoils[OF st(1) assms(6) st(2) _ c(1)] st(3) t(1) epoch by simp
qed

section \<open>Two starts of a node\<close>

definition node_store_options :: store_options where
  "node_store_options = \<lparr>op_limits = compiled_limits_ceiling, op_create_if_missing = True, op_fsync = True, op_exclusive_lock = True\<rparr>"

lemma node_options_sel [simp]:
  "store_options_of (node_runtime_options (pf_node_options a) boot) = node_store_options"
  "ro_limits (node_runtime_options (pf_node_options a) boot) = compiled_limits_ceiling"
  "ro_advance_epoch_on_open (node_runtime_options (pf_node_options a) boot) = na_advance_epoch_on_open a"
  "ro_exclusive_lock (node_runtime_options (pf_node_options a) boot)" "\<not> ro_fail_on_degraded (node_runtime_options (pf_node_options a) boot)"
  by (simp_all add: node_runtime_options_def pf_node_options_def store_options_of_def node_store_options_def)

lemma node_started:
  assumes "pf_node_start env ready_env pid resolved last_error args p ready = (p', ready', Inr (a, node, out))"
  obtains boot rt where "nd_runtime node = Some rt" "node_parse args node_arguments_default = Inr a"
    "open_runtime (at_directory (na_state a) env) (node_runtime_options (pf_node_options a) boot) p = (p', Inr rt)"
proof -
  have "node_parse args node_arguments_default = Inr a"
    and l: "listen_node (at_directory (na_state a) env) ready_env pid resolved last_error (pf_node_options a) fresh_node p ready = (p', ready', node, Inr ())"
    using assms by (auto simp: pf_node_start_def split: sum.splits prod.splits)
  then show ?thesis using started_listener[OF l] that by blast
qed

text \<open>An IPv4 address in dotted decimal notation, and what its first four characters say.\<close>

definition dotted :: "nat \<Rightarrow> nat \<Rightarrow> nat \<Rightarrow> nat \<Rightarrow> string" where
  "dotted w x y z = cat [to_dec w, ''.'', to_dec x, ''.'', to_dec y, ''.'', to_dec z]"

lemma digits_before_dot:
  assumes "list_all is_digit_char ds" "list_all is_digit_char es" "ds @ CHR ''.'' # rest = es @ CHR ''.'' # rest'"
  shows "ds = es"
  using assms by (induction ds arbitrary: es) (auto simp: is_digit_char_def less_eq_char_def Cons_eq_append_conv append_eq_Cons_conv)

lemma first_octet:
  assumes "take 4 (dotted w x y z) = ''127.''"
  shows "w = 127"
proof -
  obtain rest where d: "dotted w x y z = to_dec w @ CHR ''.'' # rest" by (simp add: dotted_def cat_def)
  have "dotted w x y z = ''127.'' @ drop 4 (dotted w x y z)" by (subst assms[symmetric]) simp
  then have "to_dec w @ CHR ''.'' # rest = ''127'' @ CHR ''.'' # drop 4 (dotted w x y z)" using d by simp
  from digits_before_dot[OF decimal_digits_read(1) _ this] have "to_dec w = ''127''"
    by (simp add: is_digit_char_def less_eq_char_def)
  then have "parse_digits ''127'' 0 = Some w" using parse_to_dec[of w] by simp
  then show ?thesis by simp
qed

lemma dotted_octets:
  assumes "w \<noteq> 127"
  shows "dotted w x y z \<notin> {''localhost'', ''::1''}" "take 4 (dotted w x y z) \<noteq> ''127.''"
proof -
  show "take 4 (dotted w x y z) \<noteq> ''127.''" using first_octet assms by blast
  have "is_digit_char (hd (dotted w x y z))"
    using decimal_digits_read(1)[of w] to_dec_nonempty[of w] by (cases "to_dec w") (simp_all add: dotted_def cat_def)
  then show "dotted w x y z \<notin> {''localhost'', ''::1''}" by (auto simp: is_digit_char_def less_eq_char_def)
qed

lemma textual_bind_refused:
  assumes "node_parse args node_arguments_default = Inr a" "''--allow-non-loopback'' \<notin> set args"
    and "na_bind a \<notin> {''localhost'', ''::1''}" "take 4 (na_bind a) \<noteq> ''127.''"
  shows "\<exists>result. pf_node_start env ready_env pid resolved last_error args p ready = (p, ready, Inl result) \<and> tl_code result = 1"
proof -
  have "\<not> na_allow_non_loopback a" using parsed_permissions(1)[OF assms(1)] assms(2) by (auto simp: node_arguments_default_def)
  moreover have "\<not> is_loopback_address (na_bind a)" using assms(3,4) by (auto simp: is_loopback_address_def)
  ultimately have "\<exists>e. listen_on (na_bind a) (na_port a) (na_allow_non_loopback a) resolved last_error = Inl e"
    by (simp add: listen_on_def)
  then have "\<exists>node e. listen_node (at_directory (na_state a) env) ready_env pid resolved last_error (pf_node_options a) fresh_node p ready =
      (p, ready, node, Inl e)"
    by (auto simp: listen_node_def Let_def pf_node_options_def split: sum.splits)
  then show ?thesis using assms(1) by (auto simp: pf_node_start_def)
qed

text \<open>C18: A node process is not talked into a routable IPv4 address. Without the argument
  \<^verbatim>\<open>--allow-non-loopback\<close>, a start of \<^verbatim>\<open>pf_node\<close> that is told to bind an address in dotted decimal
  notation outside 127.0.0.0/8, or any other text that is neither \<^verbatim>\<open>localhost\<close> nor \<^verbatim>\<open>::1\<close> and does
  not begin with \<^verbatim>\<open>127.\<close>, ends with code 1 and leaves the state directory and the ready file's
  directory untouched, whatever the address would resolve to. The rule is about the text: a host name
  that begins with \<^verbatim>\<open>127.\<close> passes it.\<close>

theorem routable_bind_refused:
  assumes "node_parse args node_arguments_default = Inr a" "''--allow-non-loopback'' \<notin> set args"
    and "na_bind a = dotted w x y z \<and> w \<noteq> 127 \<or> na_bind a \<notin> {''localhost'', ''::1''} \<and> take 4 (na_bind a) \<noteq> ''127.''"
  shows "\<exists>result. pf_node_start env ready_env pid resolved last_error args p ready = (p, ready, Inl result) \<and> tl_code result = 1"
  using textual_bind_refused[OF assms(1,2)] assms(3) dotted_octets[of w x y z] by auto

text \<open>C16: The second restart of a node is degraded. Start \<^verbatim>\<open>pf_node\<close> on a directory that has been served and
  has an established epoch, without the argument that keeps the epoch. It comes up healthy at the
  next epoch. Start it again on the directory as it left it, with any arguments: when it comes up,
  its state is degraded, the epoch is the old one again, and it refuses every mutation.\<close>

theorem second_restart_is_degraded:
  assumes "serving opts rt d" "ro_limits opts = compiled_limits_ceiling" "is_established (im_epoch (rt_image rt))"
    and "ds_segment_bytes (rt_store rt) < kSegmentRollBytes" "measurable (locked node_store_options d)"
    and "calm (ce_io env)" "calm (ce_io env2)" "''--no-epoch-advance'' \<notin> set args"
    and "pf_node_start env ready_env pid resolved last_error args (Directory d) ready = (p1, ready1, Inr (a, node, out))"
    and "pf_node_start env2 ready_env2 pid2 resolved2 last_error2 args2 p1 ready2 = (p2, ready3, Inr (a2, node2, out2))"
  shows "\<exists>rt1 rt2. nd_runtime node = Some rt1 \<and> im_health (rt_image rt1) = Healthy \<and> im_epoch (rt_image rt1) = im_epoch (rt_image rt) + 1 \<and>
    nd_runtime node2 = Some rt2 \<and> im_health (rt_image rt2) = Degraded \<and> im_epoch (rt_image rt2) = im_epoch (rt_image rt) \<and>
    (\<forall>env m d. \<exists>e. runtime_commit env m rt2 d = (d, rt2, Inl e))"
proof -
  obtain j where i: "serving_image opts rt d j" using serving_inv[OF assms(1)] by blast
  obtain boot rt1 where s: "nd_runtime node = Some rt1" "node_parse args node_arguments_default = Inr a"
      "open_runtime (at_directory (na_state a) env) (node_runtime_options (pf_node_options a) boot) (Directory d) = (p1, Inr rt1)"
    by (rule node_started[OF assms(9)])
  have advance: "na_advance_epoch_on_open a"
    using parsed_permissions(2)[OF s(2)] assms(8) by (auto simp: node_arguments_default_def)
  note t = takeover_spoils[OF i _ _ _ assms(3) _ _ assms(4) s(3)]
  obtain d1 where d1: "p1 = Directory d1" "spoiled node_store_options d1 (im_epoch (rt_image rt))"
    using t(3) assms(2,5,6) advance by auto
  obtain boot2 rt2 where s2: "nd_runtime node2 = Some rt2"
      "open_runtime (at_directory (na_state a2) env2) (node_runtime_options (pf_node_options a2) boot2) (Directory d1) = (p2, Inr rt2)"
    using node_started[OF assms(10)] d1(1) by metis
  obtain key img report where r: "read_store_key (ce_io (at_directory (na_state a2) env2)) d1 = Inr key" "locked node_store_options d1 = d1"
      "fs_exists (ce_io (at_directory (na_state a2) env2)) d1 kManifestName"
      "replay (ce_io (at_directory (na_state a2) env2)) node_store_options key d1 = (d1, img, Inr report)"
      "im_health img = Degraded" "im_epoch img = im_epoch (rt_image rt)"
    using d1(2) assms(7) unfolding spoiled_def by (metis at_directory_sel(2))
  have "im_health (rt_image rt2) = Degraded" "im_epoch (rt_image rt2) = im_epoch (rt_image rt)"
    using degraded_replay_opens_degraded[OF _ r(1) _ r(3) _ r(5) s2(2)] r assms(7) by simp_all
  then show ?thesis
    using t(1,2) s(1) s2(1) assms(2,5,6) advance degraded_commits_nothing[of rt2] by simp
qed

section \<open>A sample node started twice\<close>

definition sample_listener :: listener where "sample_listener = \<lparr>ls_address = ''127.0.0.1'', ls_port = 7000\<rparr>"

definition sample_arguments :: "string list" where "sample_arguments = [''--state'', ''pf'']"

definition sample_parsed :: node_arguments where
  "sample_parsed = node_arguments_default\<lparr>na_state := ''pf'', na_valid := True\<rparr>"

lemma sample_parse: "node_parse sample_arguments node_arguments_default = Inr sample_parsed"
  by (simp add: sample_arguments_def node_value_def sample_parsed_def)

lemma sample_parsed_sel [simp]: "na_state sample_parsed = ''pf''" "na_advance_epoch_on_open sample_parsed"
  by (simp_all add: sample_parsed_def node_arguments_default_def)

text \<open>The process comes up when its runtime does.\<close>

lemma sample_comes_up:
  assumes "open_runtime (at_directory ''pf'' sample_call_env) (node_runtime_options (pf_node_options sample_parsed) boot_a) p = (p', Inr rt)"
  shows "\<exists>node out. pf_node_start sample_call_env sample_env 7 (Some [Some sample_listener]) ENOTCONN sample_arguments p [] =
    (p', [], Inr (sample_parsed, node, out))"
proof -
  have "no_ready_file (pf_node_options sample_parsed) = []" "no_limits (pf_node_options sample_parsed) = compiled_limits_ceiling"
      "ev_directory (ce_io (at_directory ''pf'' sample_call_env)) = ''pf''" "ce_boot (at_directory ''pf'' sample_call_env) = Inr boot_a"
    by (simp_all add: pf_node_options_def sample_parsed_def node_arguments_default_def at_directory_def)
  moreover have "listen_on (no_bind_address (pf_node_options sample_parsed)) (no_port (pf_node_options sample_parsed))
      (no_allow_non_loopback (pf_node_options sample_parsed)) (Some [Some sample_listener]) ENOTCONN = Inr sample_listener"
    by (simp add: listen_on_def pf_node_options_def sample_parsed_def node_arguments_default_def is_loopback_address_def)
  ultimately show ?thesis using assms node_identity_given[of "''pf''"] by (auto simp: pf_node_start_def sample_parse listen_node_def Let_def)
qed

definition sample_advance :: mutation where
  "sample_advance = opening_advance (at_directory ''pf'' sample_call_env) committed_image"

definition sample_advanced :: mutation where "sample_advanced = sample_advance\<lparr>mu_resulting_generation := 2\<rparr>"

lemma sample_advance_valid: "validate_mutation committed_image sample_advance = Inr ()" "is_idempotent committed_image sample_advance = False"
  by (simp_all add: sample_advance_def opening_advance_def mutation_default_def validate_mutation_def validate_advance_def epoch_next_def
      committed_parts is_idempotent_def)

lemma sample_advance_plan:
  assumes "ds_open s" "ds_durable_bytes s = 346" "op_limits (ds_options s) = compiled_limits_ceiling"
  shows "plan_commit s sample_advance committed_image = Inr (sample_advanced, encode_mutation sample_advanced)"
proof -
  have "planned_generation committed_image sample_advance = 2"
    by (simp add: planned_generation_def mutation_is_idempotent_def sample_advance_valid committed_parts gen_next_def)
  moreover have "length (encode_mutation (sample_advance\<lparr>mu_resulting_generation := 2\<rparr>)) = 111"
    by (simp add: encode_mutation_def sample_advance_def opening_advance_def enc_u16_def append_le_def enc_id_def id_none_def enc_raw_def
        mutation_payload_def mutation_default_def enc_str_short enc_u32_def boot_zero_def boot_size_def)
  ultimately show ?thesis
    using assms
    by (simp add: plan_commit_def sample_advance_valid committed_parts sample_advanced_def projected_bytes_def checked_add_def
        journal_record_bytes_def kRecordOverheadBytes_def kRecordHeaderBytes_def kRecordMacBytes_def compiled_limits_ceiling_def
        gen_is_set_def Let_def)
qed

lemma sample_advance_applied: "\<exists>img1. apply_mutation committed_image sample_advanced False = (img1, Inr ())"
proof -
  have "validate_mutation committed_image sample_advanced = validate_mutation committed_image sample_advance"
      "is_idempotent committed_image sample_advanced = False" "mu_op sample_advanced = AdvanceEpoch" "mu_system sample_advanced"
    by (simp_all add: sample_advanced_def sample_advance_def opening_advance_def validate_mutation_def validate_advance_def
        is_idempotent_def committed_parts)
  then have "admit committed_image sample_advanced False = Inr (False, 2)"
    by (simp add: admit_def sample_advance_valid committed_parts gen_next_def) (simp add: sample_advanced_def)
  moreover have "\<exists>img1. apply_op committed_image sample_advanced False p = Inr img1" for p
    by (simp add: op_defs committed_parts sample_advanced_def sample_advance_def opening_advance_def epoch_next_def)
  ultimately show ?thesis using admitted by blast
qed

lemma node_sizes: "measurable (locked node_store_options committed_disk)" "disk_bytes (locked node_store_options committed_disk) = 346"
  by (simp_all add: measurable_def disk_bytes_def locked_def node_store_options_def committed_disk_def sample_disk_def append_bytes_def om_has_def
      om_find_def journal_segment_name_def file_names sample_frames sample_sizes del: entries.simps frames_simps)

lemma sample_boot: "choose_boot env (node_runtime_options opts boot_a) = Inr boot_a"
  using boots by (simp add: choose_boot_def node_runtime_options_def)

lemma sample_takeover:
  "\<exists>d1 rt1. open_runtime (at_directory ''pf'' sample_call_env) (node_runtime_options (pf_node_options sample_parsed) boot_a) (Directory committed_disk) =
     (Directory d1, Inr rt1)"
proof -
  let ?env = "at_directory ''pf'' sample_call_env" and ?d = "locked node_store_options committed_disk"
  let ?opts = "node_runtime_options (pf_node_options sample_parsed) boot_a"
  obtain report s where o: "open_store (ce_io ?env) node_store_options (empty_image compiled_limits_ceiling) report_default (Directory committed_disk) =
      (Directory ?d, committed_image, report, Inr s)" "ir_health report = Healthy"
      "reopened ?d (committed_store\<lparr>ds_options := node_store_options\<rparr>) s" "limits_within_compiled_ceiling compiled_limits_ceiling"
      "serving_image ?opts (opened_runtime ?env ?opts boot_a committed_image s) ?d committed_image"
    using reopen_store[OF sample_node_image, of ?opts ?env boot_a] node_sizes(1) sample_calm by auto
  define rt0 where "rt0 = opened_runtime ?env ?opts boot_a committed_image s"
  have image: "rt_image rt0 = committed_image" "rt_store rt0 = s"
    by (simp_all add: rt0_def expire_grants_def om_update_all_def) (simp add: committed_parts committed_image_def core_simps)
  have st: "ds_open s" "ds_durable_bytes s = 346" "op_limits (ds_options s) = compiled_limits_ceiling" "ds_segment_open s" "ds_segment_bytes s = 205"
    using o(3) o(5)[folded rt0_def] node_sizes(2) image(2)
    by (simp_all add: serving_image_def store_inv_def store_ready_def reopened_def node_store_options_def)
  obtain img1 where a: "apply_mutation committed_image sample_advanced False = (img1, Inr ())" using sample_advance_applied by blast
  obtain d1 rt1 v where r: "runtime_commit ?env sample_advance rt0 ?d = (d1, rt1, Inr v)"
    using commit_calm_disk[OF _ _ st(4) sample_advance_plan[OF st(1-3)] a, of "ce_io ?env" ?d] st(5) sample_calm image
    by (simp add: runtime_commit_def kSegmentRollBytes_def Let_def)
  show ?thesis
    using o(1,2,4) r image sample_boot
    by (simp add: open_runtime_def Let_def rt0_def[symmetric] committed_parts is_established_def sample_advance_def[symmetric] del: opened_runtime_sel)
qed

theorem second_restart_is_degraded_witness:
  "\<exists>p1 p2 a node out a2 node2 out2 rt1 rt2.
     pf_node_start sample_call_env sample_env 7 (Some [Some sample_listener]) ENOTCONN sample_arguments (Directory committed_disk) [] =
       (p1, [], Inr (a, node, out)) \<and>
     pf_node_start sample_call_env sample_env 7 (Some [Some sample_listener]) ENOTCONN sample_arguments p1 [] = (p2, [], Inr (a2, node2, out2)) \<and>
     nd_runtime node = Some rt1 \<and> im_health (rt_image rt1) = Healthy \<and> im_epoch (rt_image rt1) = 2 \<and>
     nd_runtime node2 = Some rt2 \<and> im_health (rt_image rt2) = Degraded \<and> im_epoch (rt_image rt2) = 1"
proof -
  let ?env = "at_directory ''pf'' sample_call_env" and ?opts = "node_runtime_options (pf_node_options sample_parsed) boot_a"
  obtain d1 rt1 where o1: "open_runtime ?env ?opts (Directory committed_disk) = (Directory d1, Inr rt1)" using sample_takeover by blast
  obtain node out where s1: "pf_node_start sample_call_env sample_env 7 (Some [Some sample_listener]) ENOTCONN sample_arguments (Directory committed_disk) [] =
      (Directory d1, [], Inr (sample_parsed, node, out))" using sample_comes_up[OF o1] by blast
  have "spoiled node_store_options d1 1"
    using takeover_spoils(3)[OF sample_node_image _ _ _ _ _ _ _ o1] node_sizes(1) sample_calm
    by (simp add: committed_parts is_established_def kSegmentRollBytes_def)
  then obtain key img report where r: "read_store_key (ce_io ?env) d1 = Inr key" "locked node_store_options d1 = d1"
      "fs_exists (ce_io ?env) d1 kManifestName" "replay (ce_io ?env) node_store_options key d1 = (d1, img, Inr report)" "im_health img = Degraded"
    using sample_calm unfolding spoiled_def by (metis at_directory_sel(2) sample_runtime_sel(1))
  obtain d2 rt2 where "open_runtime ?env ?opts (Directory d1) = (Directory d2, Inr rt2)"
    using degraded_replay_opens[OF _ r(1) _ r(3) _ r(5), of ?opts report boot_a] r(2,4) sample_calm sample_boot
    by (auto simp: sample_within)
  then obtain node2 out2 where s2: "pf_node_start sample_call_env sample_env 7 (Some [Some sample_listener]) ENOTCONN sample_arguments (Directory d1) [] =
      (Directory d2, [], Inr (sample_parsed, node2, out2))" using sample_comes_up by blast
  show ?thesis
    using second_restart_is_degraded[OF sample_node_serves _ _ _ _ _ _ _ s1 s2] s1 s2 node_sizes(1) sample_calm
    by (simp add: committed_parts is_established_def kSegmentRollBytes_def sample_arguments_def) blast
qed

theorem routable_bind_refused_witness:
  "\<exists>result. pf_node_start sample_call_env sample_env 7 (Some [Some sample_listener]) ENOTCONN [''--state'', ''pf'', ''--bind'', ''10.0.0.1'']
      (Directory committed_disk) [] = (Directory committed_disk, [], Inl result) \<and> tl_code result = 1"
proof (rule routable_bind_refused)
  let ?a = "node_arguments_default\<lparr>na_state := ''pf'', na_bind := ''10.0.0.1'', na_valid := True\<rparr>"
  show "node_parse [''--state'', ''pf'', ''--bind'', ''10.0.0.1''] node_arguments_default = Inr ?a"
    by (simp add: node_value_def)
  have "dotted 10 0 0 1 = ''10.0.0.1''" by code_simp
  then show "na_bind ?a = dotted 10 0 0 1 \<and> 10 \<noteq> (127 :: nat) \<or> na_bind ?a \<notin> {''localhost'', ''::1''} \<and> take 4 (na_bind ?a) \<noteq> ''127.''"
    by simp
qed simp

end
