(* ===== verification/PfProbe.thy ===== *)
theory PfProbe
  imports Client Pfctl
begin

text \<open>
  \<^verbatim>\<open>tools/pf_probe.cpp\<close>: the scripted client of the multiprocess tests. The model has the arguments, the
  exchange over a client for every mode, and the malformed frames of the mode \<^verbatim>\<open>garbage\<close>. A process
  that ends by the exception of \<open>Client\<close> has no result. The properties say what the malformed frames
  reach in the node.
\<close>

section \<open>Arguments\<close>

record probe_arguments =
  pb_mode :: string
  pb_publisher :: string
  pb_boot :: string
  pb_expect :: string
  pb_host :: string
  pb_port :: u16
  pb_hold_ms :: u64
  pb_json :: bool

definition probe_default :: probe_arguments where
  "probe_default = \<lparr>pb_mode = [], pb_publisher = ''probe.publisher'', pb_boot = ''probe'', pb_expect = [], pb_host = ''127.0.0.1'',
     pb_port = 0, pb_hold_ms = 60000, pb_json = False\<rparr>"

definition pf_probe_usage :: string where
  "pf_probe_usage = cat [
     ''usage: pf_probe --port N --mode MODE [options]'', newline,
     newline,
     ''modes:'', newline,
     ''  publish     handshake, define a small world, publish an assignment, query it'', newline,
     ''  query       handshake, ask one question and report the outcome'', newline,
     ''  takeover    handshake with a new boot id and republish'', newline,
     ''  hold        handshake, then keep the connection open for --hold-ms'', newline,
     ''  garbage     send malformed frames from a raw socket'', newline,
     ''  stats       handshake, then report node statistics'', newline,
     ''  integrity   handshake, then ask the node to verify its durable state'', newline,
     newline,
     ''options:'', newline,
     ''  --host ADDRESS --publisher ID --boot LABEL --expect OUTCOME'', newline,
     ''  --hold-ms N --json --version --help'', newline]"

definition probe_value :: "string \<Rightarrow> (string \<Rightarrow> probe_arguments \<Rightarrow> probe_arguments) option" where
  "probe_value flag =
     (if flag = ''--mode'' then Some (\<lambda>v a. a\<lparr>pb_mode := v\<rparr>)
      else if flag = ''--port'' then Some (\<lambda>v a. a\<lparr>pb_port := ucast (strtoull v)\<rparr>)
      else if flag = ''--host'' then Some (\<lambda>v a. a\<lparr>pb_host := v\<rparr>)
      else if flag = ''--publisher'' then Some (\<lambda>v a. a\<lparr>pb_publisher := v\<rparr>)
      else if flag = ''--boot'' then Some (\<lambda>v a. a\<lparr>pb_boot := v\<rparr>)
      else if flag = ''--expect'' then Some (\<lambda>v a. a\<lparr>pb_expect := v\<rparr>)
      else if flag = ''--hold-ms'' then Some (\<lambda>v a. a\<lparr>pb_hold_ms := strtoull v\<rparr>)
      else None)"

definition probe_complaint :: "string list \<Rightarrow> tool_result" where
  "probe_complaint parts = \<lparr>tl_code = 2, tl_out = [], tl_err = cat (''pf_probe: '' # parts @ [newline])\<rparr>"

fun probe_parse :: "string list \<Rightarrow> probe_arguments \<Rightarrow> tool_result + probe_arguments" where
  "probe_parse [] a =
     (if pb_mode a = [] \<or> pb_port a = 0 then Inl (probe_complaint [''--mode and --port are required'']) else Inr a)"
| "probe_parse (flag # args) a =
     (if flag = ''--help'' \<or> flag = ''-h'' then Inl (tool_ok pf_probe_usage)
      else if flag = ''--version'' then Inl (tool_ok (cat [''pf_probe '', version_string, newline]))
      else if flag = ''--json'' then probe_parse args (a\<lparr>pb_json := True\<rparr>)
      else case probe_value flag of
        Some update \<Rightarrow>
          (case args of
             [] \<Rightarrow> Inl (probe_complaint [flag, '' needs a value''])
           | v # args' \<Rightarrow> probe_parse args' (update v a))
      | None \<Rightarrow> Inl (probe_complaint [''unknown option '', flag]))"

section \<open>The exchange\<close>

definition parsed_or_none :: "string \<Rightarrow> 'tag basic_id" where
  "parsed_or_none tx = (case id_parse tx compiled_limits_ceiling of Inr i \<Rightarrow> i | Inl _ \<Rightarrow> id_none)"

definition probe_query :: priority_query where
  "probe_query = query_default\<lparr>qu_subject := parsed_or_none ''probe.subject'', qu_scope := parsed_or_none ''probe.scope''\<rparr>"

definition probe_report :: "string \<Rightarrow> string \<Rightarrow> string" where
  "probe_report key value = cat [''probe '', key, ''='', value, newline]"

definition probe_fail :: "string \<Rightarrow> string \<Rightarrow> tool_result" where
  "probe_fail out what = \<lparr>tl_code = 1, tl_out = out @ cat [''probe result=fail reason='', what, newline], tl_err = []\<rparr>"

definition probe_passed :: "string \<Rightarrow> string \<Rightarrow> tool_result" where
  "probe_passed out mode = tool_ok (out @ cat [''probe result=ok mode='', mode, newline])"

text \<open>The answer of a call: the process ends by an exception, with a failure, or goes on.\<close>

type_synonym probe_step = "client_state \<times> tool_result option"

definition asking :: "string \<Rightarrow> string \<Rightarrow> client_state \<times> 'a result option \<Rightarrow> ('a \<Rightarrow> client_state \<Rightarrow> probe_step) \<Rightarrow> probe_step" where
  "asking out what answer go_on =
     (case answer of
        (cl, None) \<Rightarrow> (cl, None)
      | (cl, Some (Inl e)) \<Rightarrow> (cl, Some (probe_fail out (cat [what, status_to_string e])))
      | (cl, Some (Inr v)) \<Rightarrow> go_on v cl)"

definition probe_class :: "string \<Rightarrow> u32 \<Rightarrow> priority_class_def" where
  "probe_class name rank = class_default\<lparr>cd_id := parsed_or_none name, cd_precedence := rank_make rank, cd_kind := Tenant\<rparr>"

text \<open>\<^verbatim>\<open>define_world\<close>: the four definitions, up to the first that fails.\<close>

definition define_world :: "client_state \<Rightarrow> client_state \<times> bool option" where
  "define_world cl =
     (let after = (\<lambda>answer go_on. case answer of (cl', None) \<Rightarrow> (cl', None) | (cl', Some (Inl e)) \<Rightarrow> (cl', Some False)
                     | (cl', Some (Inr (_ :: generation))) \<Rightarrow> go_on cl') in
      after (client_define_class (probe_class ''net.gold'' 900) cl) (\<lambda>cl1.
      after (client_define_class (probe_class ''net.silver'' 500) cl1) (\<lambda>cl2.
      after (client_define_scope (scope_default\<lparr>sd_id := parsed_or_none ''probe.scope''\<rparr>) cl2) (\<lambda>cl3.
      after (client_define_subject (subject_default\<lparr>ud_id := parsed_or_none ''probe.subject''\<rparr>) cl3) (\<lambda>cl4. (cl4, Some True))))))"

definition probe_assignment :: priority_assignment where
  "probe_assignment = assignment_default\<lparr>as_id := parsed_or_none ''probe.assignment'', as_subject := parsed_or_none ''probe.subject'',
     as_scope := parsed_or_none ''probe.scope'', as_cls := parsed_or_none ''net.gold'', as_kind := Explicit\<rparr>"

definition upper_char :: "char \<Rightarrow> char" where
  "upper_char c = (if CHR ''a'' \<le> c \<and> c \<le> CHR ''z'' then char_of (of_char c - 32 :: nat) else c)"

definition probe_ask :: "probe_arguments \<Rightarrow> string \<Rightarrow> client_state \<Rightarrow> probe_step" where
  "probe_ask a out cl =
     asking out ''query: '' (client_evaluate probe_query cl) (\<lambda>decision cl1.
       let out1 = cat [out, probe_report ''outcome'' (outcome_to_string (de_outcome decision)),
             probe_report ''class'' (if id_valid (de_cls decision) then id_str (de_cls decision) else ''-''),
             probe_report ''reason_code'' (de_reason_code decision), probe_report ''digest'' (digest_hex (de_digest decision)),
             (if pb_json a then to_json decision @ newline else [])];
           actual = outcome_to_string (de_outcome decision);
           expected = map upper_char (pb_expect a) in
       if pb_expect a \<noteq> [] \<and> expected \<noteq> actual then
         (cl1, Some (probe_fail out1 (cat [''expected outcome '', expected, '' but the fabric answered '', actual])))
       else (disconnect_client cl1, Some (probe_passed out1 (pb_mode a))))"

definition probe_publish :: "probe_arguments \<Rightarrow> string \<Rightarrow> client_state \<Rightarrow> probe_step" where
  "probe_publish a out cl =
     (case define_world cl of
        (cl1, None) \<Rightarrow> (cl1, None)
      | (cl1, Some False) \<Rightarrow> (cl1, Some (probe_fail out ''could not define the probe world''))
      | (cl1, Some True) \<Rightarrow>
          if pb_mode a = ''publish'' \<or> pb_mode a = ''takeover'' then
            asking out ''assign: '' (client_assign probe_assignment cl1) (\<lambda>g cl2.
              probe_ask a (out @ probe_report ''assignment_generation'' (u_dec g)) cl2)
          else probe_ask a out cl1)"

definition probe_modes :: "probe_arguments \<Rightarrow> string \<Rightarrow> client_state \<Rightarrow> probe_step" where
  "probe_modes a out cl =
     (if pb_mode a = ''stats'' then
        asking out ''stats: '' (client_stats cl) (\<lambda>(stats, state) cl1.
          (cl1, Some (probe_passed (cat [out, probe_report ''classes'' (u_dec (ss_classes state)),
             probe_report ''assignments'' (u_dec (ss_assignments state)), probe_report ''evaluations'' (u_dec (st_evaluations stats))]) ''stats'')))
      else if pb_mode a = ''integrity'' then
        asking out ''integrity: '' (client_integrity cl) (\<lambda>r cl1.
          (cl1, Some ((probe_passed (cat [out, probe_report ''integrity_ok'' (if ir_ok r then ''true'' else ''false''),
             probe_report ''records_applied'' (to_dec (ir_records_applied r))]) ''integrity'')\<lparr>tl_code := (if ir_ok r then 0 else 1)\<rparr>)))
      else if pb_mode a = ''hold'' then (cl, Some (probe_passed out ''hold''))
      else probe_publish a out cl)"

definition probe_client_options :: "probe_arguments \<Rightarrow> client_options" where
  "probe_client_options a = \<lparr>cp_host = pb_host a, cp_port = pb_port a, cp_limits = compiled_limits_ceiling, cp_io_deadline_ms = 30000,
     cp_connect_attempts = 100\<rparr>"

definition probe_exchange :: "(nat \<Rightarrow> (socket_error + socket) list option) \<Rightarrow> void_result \<Rightarrow> boot_id \<Rightarrow> probe_arguments \<Rightarrow>
    client_state \<Rightarrow> probe_step" where
  "probe_exchange resolve deadline boot a cl =
     (case connect_client resolve deadline (probe_client_options a) cl of
        (cl1, Inl e) \<Rightarrow> (cl1, Some (probe_fail [] (cat [''connect: '', status_to_string e])))
      | (cl1, Inr _) \<Rightarrow>
          asking [] ''hello: '' (client_hello (parsed_or_none (pb_publisher a)) boot [] cl1) (\<lambda>r cl2.
            probe_modes a (cat [probe_report ''epoch'' (u_dec (hr_epoch r)), probe_report ''token'' (u_dec (hr_token r)),
              probe_report ''boot'' (boot_hex (hr_node_boot r))]) cl2))"

section \<open>Malformed frames\<close>

definition garbage_frame :: "nat \<Rightarrow> string" where
  "garbage_frame variant =
     (if variant = 0 then ''NOTPFABRIC-AT-ALL-0123456789''
      else if variant = 1 then ''PFW1'' @ [CHR 0x09, CHR 0x00] @ replicate 30 (CHR 0x00)
      else if variant = 2 then ''PFW1'' @ [CHR 0x01, CHR 0x00] @ [CHR 0x08, CHR 0x00, CHR 0x00, CHR 0x00] @ replicate 12 (CHR 0x00)
      else if variant = 3 then
        ''PFW1'' @ [CHR 0x01, CHR 0x00] @ replicate 4 (CHR 0x00) @ replicate 8 (CHR 0x00) @ [CHR 0xFF, CHR 0xFF, CHR 0xFF, CHR 0x7F]
      else
        (let payload = ''neither a hello nor a request'';
             frame = ''PFW1'' @ [CHR 0x01, CHR 0x00] @ replicate 4 (CHR 0x00) @ replicate 8 (CHR 0x00) @
               le_bytes (of_nat (length payload)) 4 @ payload in
         frame @ le_bytes (ucast (crc32c (bytes_of frame))) 4))"

text \<open>What the system answers to opening and connecting a raw socket.\<close>

datatype dialled = No_handle | Not_connected | Connected_to socket

fun send_garbage :: "(nat \<Rightarrow> dialled) \<Rightarrow> nat list \<Rightarrow> nat \<Rightarrow> (nat \<times> socket) list \<Rightarrow> (nat \<times> socket) list \<times> tool_result" where
  "send_garbage dial [] sent socks =
     (socks, let out = probe_report ''garbage_sent'' (to_dec sent) in
        if sent \<noteq> 5 then probe_fail out ''could not send every malformed frame'' else probe_passed out ''garbage'')"
| "send_garbage dial (variant # variants) sent socks =
     (case dial variant of
        No_handle \<Rightarrow> (socks, probe_fail [] ''socket'')
      | Not_connected \<Rightarrow> send_garbage dial variants sent socks
      | Connected_to s \<Rightarrow>
          (case send_loop (garbage_frame variant) (sk_acceptance s) (sk_sent s) of
             (acceptance, bytes, r) \<Rightarrow>
               send_garbage dial variants (case r of Inr _ \<Rightarrow> Suc sent | Inl _ \<Rightarrow> sent)
                 (socks @ [(variant, s\<lparr>sk_acceptance := acceptance, sk_sent := bytes\<rparr>)])))"

definition run_garbage :: "(nat \<Rightarrow> dialled) \<Rightarrow> (nat \<times> socket) list \<times> tool_result" where
  "run_garbage dial = send_garbage dial [0, 1, 2, 3, 4] 0 []"

definition probe_main :: "(nat \<Rightarrow> (socket_error + socket) list option) \<Rightarrow> void_result \<Rightarrow> (nat \<Rightarrow> dialled) \<Rightarrow> string list \<Rightarrow>
    client_state \<Rightarrow> probe_step" where
  "probe_main resolve deadline dial args cl =
     (case probe_parse args probe_default of
        Inl result \<Rightarrow> (cl, Some result)
      | Inr a \<Rightarrow>
          if pb_mode a = ''garbage'' then (cl, Some (snd (run_garbage dial)))
          else probe_exchange resolve deadline (boot_from_seed (''probe/'' @ pb_boot a)) a cl)"

section \<open>What the frames reach\<close>

text \<open>The frames spell the magic value in the order of its letters, but the wire carries it with the low
  byte first; and two of them have less than a header.\<close>

lemma low_bit_read: "bit (read_le data (Suc n)) 0 = bit (byte_of (data ! 0)) 0"
  by (induction n) (simp_all add: bit_simps)

lemma foreign_magic:
  assumes "take 4 bytes \<in> {''PFW1'', ''NOTP''}"
  shows "\<not> has_magic bytes"
proof
  assume "has_magic bytes"
  then have magic: "read_le bytes 4 = kFrameMagic" by (simp add: has_magic_def read_at_def)
  have "bit kFrameMagic 0" unfolding kFrameMagic_def by simp
  then have "bit (byte_of (bytes ! 0)) 0" using low_bit_read[of bytes 3] magic by (simp only: Suc_numeral semiring_norm)
  moreover have "bytes ! 0 = CHR ''P'' \<or> bytes ! 0 = CHR ''N''" using assms by (cases bytes) auto
  ultimately show False by (auto simp: byte_of_def)
qed

lemma garbage_shape:
  "variant = 2 \<or> variant = 3 \<Longrightarrow> length (garbage_frame variant) = 22"
  "variant \<noteq> 2 \<Longrightarrow> variant \<noteq> 3 \<Longrightarrow> 24 \<le> length (garbage_frame variant)"
  "take 4 (garbage_frame variant) \<in> {''PFW1'', ''NOTP''}"
  by (auto simp: garbage_frame_def Let_def)

definition no_magic :: status where
  "no_magic = make_error St_ProtocolError ''the frame does not start with the fabric magic value''"

lemma garbage_received:
  assumes "sk_valid s" "readable (sk_inbox s) = garbage_frame variant"
  shows "\<exists>inbox. receive_frame limits s = (s\<lparr>sk_inbox := inbox\<rparr>, if variant = 2 \<or> variant = 3 then Gone else Refused 0 no_magic)"
proof -
  obtain rest where r: "recv_exact kHeaderBytes s = (s\<lparr>sk_inbox := rest\<rparr>, snd (recv_exact kHeaderBytes s))"
      "if kHeaderBytes \<le> length (garbage_frame variant) then snd (recv_exact kHeaderBytes s) = Inr (take kHeaderBytes (garbage_frame variant))
       else \<exists>e. snd (recv_exact kHeaderBytes s) = Inl e"
    using recv_exact_stream[OF assms(1), of kHeaderBytes] unfolding assms(2) by (auto split: if_splits)
  have magic: "\<not> has_magic (take kHeaderBytes (garbage_frame variant))"
    using garbage_shape(3)[of variant] by (intro foreign_magic) (simp add: kHeaderBytes_def)
  show ?thesis
  proof (cases "variant = 2 \<or> variant = 3")
    case True
    then obtain e where "recv_exact kHeaderBytes s = (s\<lparr>sk_inbox := rest\<rparr>, Inl e)"
      using r garbage_shape(1)[of variant] by (auto simp: kHeaderBytes_def)
    then show ?thesis using True by (auto simp: receive_frame_def)
  next
    case False
    then have "recv_exact kHeaderBytes s = (s\<lparr>sk_inbox := rest\<rparr>, Inr (take kHeaderBytes (garbage_frame variant)))"
      using r garbage_shape(2)[of variant] by (auto simp: kHeaderBytes_def)
    then show ?thesis using False magic by (auto simp: receive_frame_def no_magic_def)
  qed
qed

lemma sent_garbage:
  assumes "send_garbage dial variants sent socks = (socks', result)" "tl_code result = 0" "sent + length variants \<le> 5"
  shows "sent + length variants = 5 \<and> (\<exists>used. socks' = socks @ used \<and> map fst used = variants \<and>
    (\<forall>(variant, s) \<in> set used. \<exists>s0. dial variant = Connected_to s0 \<and> sk_sent s = sk_sent s0 @ garbage_frame variant))"
  using assms
proof (induction variants arbitrary: sent socks)
  case Nil
  then show ?case by (auto simp: Let_def probe_fail_def split: if_splits)
next
  case (Cons v vs)
  show ?case
  proof (cases "dial v")
    case No_handle
    then show ?thesis using Cons.prems by (auto simp: probe_fail_def)
  next
    case Not_connected
    then show ?thesis using Cons.prems Cons.IH[of sent socks] by simp
  next
    case (Connected_to s)
    obtain acceptance bytes r where l: "send_loop (garbage_frame v) (sk_acceptance s) (sk_sent s) = (acceptance, bytes, r)" by (metis prod_cases3)
    show ?thesis
    proof (cases r)
      case (Inl e)
      then show ?thesis using Cons.prems Cons.IH[of sent] Connected_to l by simp blast
    next
      case (Inr u)
      then show ?thesis
        using Cons.prems Cons.IH[of "Suc sent"] Connected_to l send_loop_delivers[OF l] by (fastforce simp: append_eq_append_conv2)
    qed
  qed
qed

text \<open>C19: The malformed frames of the probe never get past the first four bytes. When \<^verbatim>\<open>pf_probe --mode garbage\<close>
  reports success, it has sent its five frames on five connections. However the bytes of such a
  connection are cut, the node serves none of them: it answers three with the refusal of the magic
  value, takes two for a peer that left, ends the connection, and its runtime and directory are
  untouched. So none of the frames reaches the checks of the version, the flags, the length or the
  checksum that it is built for.\<close>

theorem garbage_stops_at_the_magic:
  assumes "run_garbage dial = (socks, result)" "tl_code result = 0"
  shows "map fst socks = [0, 1, 2, 3, 4] \<and>
    (\<forall>(variant, s) \<in> set socks. \<forall>s0 con env pid.
      dial variant = Connected_to s0 \<and> sk_sent s0 = [] \<and> sk_valid (cn_socket con) \<and> readable (sk_inbox (cn_socket con)) = sk_sent s \<longrightarrow>
      (\<exists>inbox. let s1 = (cn_socket con)\<lparr>sk_inbox := inbox\<rparr> in
        serve_frame env pid con = (con\<lparr>cn_socket :=
          if variant = 2 \<or> variant = 3 then s1 else fst (send_error 0 (st_code no_magic) (st_message no_magic) s1)\<rparr>, False)))"
proof -
  have sent: "map fst socks = [0, 1, 2, 3, 4]"
      "\<And>variant s. (variant, s) \<in> set socks \<Longrightarrow> \<exists>s0. dial variant = Connected_to s0 \<and> sk_sent s = sk_sent s0 @ garbage_frame variant"
    using sent_garbage[OF assms(1)[unfolded run_garbage_def] assms(2)] by auto
  have served: "\<exists>inbox. let s1 = (cn_socket con)\<lparr>sk_inbox := inbox\<rparr> in
      serve_frame env pid con = (con\<lparr>cn_socket :=
        if variant = 2 \<or> variant = 3 then s1 else fst (send_error 0 (st_code no_magic) (st_message no_magic) s1)\<rparr>, False)"
    if read: "sk_valid (cn_socket con)" "readable (sk_inbox (cn_socket con)) = garbage_frame variant" for con env pid variant
  proof -
    obtain inbox where "receive_frame (no_limits (nd_options (cn_node con))) (cn_socket con) =
        ((cn_socket con)\<lparr>sk_inbox := inbox\<rparr>, if variant = 2 \<or> variant = 3 then Gone else Refused 0 no_magic)"
      using garbage_received[OF read] by blast
    then show ?thesis by (intro exI[of _ inbox]) (simp add: serve_frame_def Let_def)
  qed
  have "\<exists>inbox. let s1 = (cn_socket con)\<lparr>sk_inbox := inbox\<rparr> in
      serve_frame env pid con = (con\<lparr>cn_socket :=
        if variant = 2 \<or> variant = 3 then s1 else fst (send_error 0 (st_code no_magic) (st_message no_magic) s1)\<rparr>, False)"
    if "(variant, s) \<in> set socks" "dial variant = Connected_to s0" "sk_sent s0 = []" "sk_valid (cn_socket con)"
      "readable (sk_inbox (cn_socket con)) = sk_sent s" for variant s s0 con env pid
    by (rule served) (use sent(2)[OF that(1)] that(2-5) in auto)
  then show ?thesis using sent(1) by blast
qed

definition sample_dial :: "nat \<Rightarrow> dialled" where
  "sample_dial _ = Connected_to \<lparr>sk_valid = True, sk_inbox = [], sk_acceptance = [], sk_sent = []\<rparr>"

theorem garbage_stops_at_the_magic_witness:
  "\<exists>socks result. run_garbage sample_dial = (socks, result) \<and> tl_code result = 0 \<and> map fst socks = [0, 1, 2, 3, 4]"
proof -
  have all: "send_loop bytes [] out = ([], out @ bytes, Inr ())" for bytes out
    by (subst send_loop.simps) (simp add: send_loop.simps)
  obtain socks result where r: "run_garbage sample_dial = (socks, result)" by fastforce
  moreover have "tl_code result = 0"
    using r by (auto simp: run_garbage_def sample_dial_def all probe_passed_def tool_ok_def Let_def)
  ultimately show ?thesis using garbage_stops_at_the_magic[OF r] by (intro exI[of _ socks] exI[of _ result]) simp
qed

end
