(* ===== verification/Spec2Isabelle.thy ===== *)
theory Spec2Isabelle
  imports Instances Exchanges Takeovers PfProbe
begin

text \<open>
  Priority Fabric: a verification development.

  \<^bold>\<open>The program.\<close> A priority fabric answers the question which priority class a subject has in a
  scope, and only says so when it can prove it. Publishers register with a node, receive a session
  (publisher, boot id, epoch, fencing token), and publish classes, scopes, policies, subjects and
  assignments. The runtime turns a call into a mutation, the durable store journals and applies it
  to the state image, and queries are evaluated against the image. The node serves the runtime over
  a framed protocol on stream sockets, and the client is the other end of it. Three processes are
  built on these parts: \<^verbatim>\<open>pf_node\<close> runs a node, \<^verbatim>\<open>pfctl\<close> works on a state directory, \<^verbatim>\<open>pf_probe\<close> is a
  scripted client.

  \<^bold>\<open>The theories\<close>, in the order of the components (paths under \<^verbatim>\<open>src/src\<close> unless \<^verbatim>\<open>include\<close> is named):

  \<^item> \<open>Prelude\<close>: machine words, results as sums, loops with early return, decimal printing, the
    collections of simplification rules. \<open>OrderedMap\<close>: \<^verbatim>\<open>std::map\<close> behind the locale \<open>keyed_store\<close>.
  \<^item> \<open>Checked\<close> (\<^verbatim>\<open>include/.../checked.hpp\<close>), \<open>Text\<close> (\<^verbatim>\<open>text.cpp\<close>), \<open>Status\<close> (\<^verbatim>\<open>status.cpp\<close>, \<^verbatim>\<open>limits.cpp\<close>),
    \<open>Ident\<close> (\<^verbatim>\<open>ident.cpp\<close>), \<open>Digest\<close> (\<^verbatim>\<open>digest.cpp\<close>): the foundations. The streaming SHA-256 equals its
    one-shot definition and the table-driven CRC-32C the bitwise one.
  \<^item> \<open>Model\<close> (\<^verbatim>\<open>model.cpp\<close> and the headers), \<open>Codec\<close> (\<^verbatim>\<open>codec.cpp\<close>), \<open>ModelCodec\<close> (\<^verbatim>\<open>model_codec.cpp\<close>): the
    data and its encodings. The locales \<open>field_codec\<close> and \<open>canonical_codec\<close> state what a pair of
    encoder and decoder promises; every pair of the code is an interpretation.
  \<^item> \<open>State\<close>, \<open>Graph\<close>, \<open>StateCodec\<close>, \<open>Validate\<close>, \<open>Apply\<close> (\<^verbatim>\<open>state.cpp\<close>): the image, the inheritance and scope
    walks, the snapshot and journal encodings, \<^verbatim>\<open>validate_mutation\<close> and \<^verbatim>\<open>apply_mutation\<close>.
  \<^item> \<open>Steps\<close>, \<open>Reachability\<close>, \<open>Registry\<close>, \<open>Authority\<close>: the image as a state machine. The locale
    \<open>image_invariant\<close> carries an invariant along every run; \<open>inheritance_registry\<close> is shared by the
    class and the subject graph. \<open>Guarantees\<close> states what holds on every reachable image: authority,
    fencing, epochs, generations, acyclicity, complete scope chains, bounded populations.
  \<^item> \<open>Evaluate\<close>, \<open>Decisions\<close> (\<^verbatim>\<open>evaluate.cpp\<close>): the evaluation of a query and what its decision means.
    \<open>Rendering\<close> (\<^verbatim>\<open>decision.cpp\<close>): the JSON and text forms; the JSON of a decision reads back as it.
  \<^item> \<open>Durability\<close> (\<^verbatim>\<open>durability.cpp\<close>), \<open>Files\<close> (\<^verbatim>\<open>fsutil.cpp\<close>), \<open>Store\<close> (\<^verbatim>\<open>store.cpp\<close>): journal records and their
    scan, the directory, opening, committing, checkpointing, verifying. \<open>Redo\<close>, \<open>Recovery\<close>, \<open>Commits\<close>,
    \<open>Envelopes\<close>, \<open>Sessions\<close>, \<open>Lifecycle\<close> build the store invariant: the journal on disk spells out a
    history whose meaning is the image. \<open>Restarts\<close> states what a store promises over the lives
    \<open>Lifecycle\<close> describes: created and opened without faults, every commit that reaches the journal
    acknowledged and of a mutation the journal decoder accepts, checkpoints of images a snapshot can
    carry. Outside of them the promises fail: \<open>Losses\<close> proves
    three ways in which an acknowledged commit is lost by the next restart: after a refused commit,
    beside a second writer, and with a record that does not decode.
  \<^item> \<open>Runtime\<close> (\<^verbatim>\<open>runtime.cpp\<close>): every public call. \<open>Agreement\<close> and \<open>Serving\<close> relate the image a runtime
    serves to the one its journal replays to; \<open>Calls\<close> states what the calls promise over the
    runs \<open>Serving\<close> describes, and what a call without a live session leaves behind.
  \<^item> \<open>Wire\<close> (\<^verbatim>\<open>wire.cpp\<close>), \<open>Transport\<close> (\<^verbatim>\<open>net.cpp\<close>), \<open>Node\<close> and \<open>Acceptor\<close> (\<^verbatim>\<open>node.cpp\<close>), \<open>Client\<close>
    (\<^verbatim>\<open>client.cpp\<close>): the protocol. A call through the client, the wire and the node is the call on the
    node's runtime; \<open>Exchanges\<close> states what holds end to end. \<open>Acceptor\<close> is the interleaving of the
    accept loop, the workers and the shutdown, with the bookkeeping mutex, the listener and the wake-ups.
    A shutdown that finds no connection between accept and registration ends within a number of steps
    fixed by the state it copies the sockets in, where closing the listener ends a blocked accept; one
    that does find such a connection can deadlock with the accept loop over the mutex.
  \<^item> \<open>Pfctl\<close> (\<^verbatim>\<open>tools/pfctl.cpp\<close>), \<open>PfNode\<close> (\<^verbatim>\<open>tools/pf_node.cpp\<close>), \<open>PfProbe\<close> (\<^verbatim>\<open>tools/pf_probe.cpp\<close>): the processes,
    from the arguments to the exit code. \<open>Invocations\<close> follows \<^verbatim>\<open>pfctl\<close> on a directory that a node has
    served or is serving: it sees the evidence it published itself and no other, every command
    commits, and an inspection beside a node spoils the node's next commit. \<open>Takeovers\<close> follows a node
    that is started again: the record of its first act cannot be read, and the start after that is
    degraded; and it refuses to bind a routable IPv4 address unless told to. \<open>PfProbe\<close> shows that its malformed frames all stop at the magic value.
  \<^item> \<open>Samples\<close> and \<open>Instances\<close>: a small run of the fabric, on which the properties are instantiated.

  \<^bold>\<open>How the code is translated.\<close> A struct is a record, an enumeration a datatype with its wire values,
  an integer a word of its width; limits are naturals, since the code only compares them with
  sizes. A fallible function returns a sum whose left value is the status. State is passed
  explicitly and returned as a failing call leaves it. The operating system is an argument: \<open>io_env\<close>
  says for every system call whether it fails and how much of a write reached the file, \<open>call_env\<close>
  adds the clock and the generator of boot ids, and a socket lists the chunks and errors its calls
  will see.

  \<^bold>\<open>Bounds and termination.\<close> Every definition is total. The walks over the inheritance graphs have
  the step bound of the source; that it is large enough is a hypothesis of the acyclicity
  property, since it depends on the configured limits. Scope walks stop at the depth limit. The
  loop of a connection runs for at most the configured number of requests. The reference reader of
  JSON takes the length of the text as fuel, and every step consumes a character.

  \<^bold>\<open>What is not modelled.\<close> The locks of the runtime: each public call holds the state lock for its
  whole length, so calls are steps of one sequence. The operating system's entropy source and
  clock, socket options, peer descriptions and name resolution: they are arguments. The Windows
  branches: they are variants of the same calls. Of \<^verbatim>\<open>net.cpp\<close> and \<^verbatim>\<open>fsutil.cpp\<close> also the ownership of
  handles and the reads no caller makes. The examples and the consumer check, which call the
  library in a fixed order and print its answers.
\<close>

end
